(* ===== verification/Pox_Prelude.thy ===== *)
theory Pox_Prelude
  imports Main "HOL-Library.Word"
begin

text \<open>
  Shared ground of the development: Python exceptions as values of a result type, Python
  byte strings and slices, the \<^verbatim>\<open>struct\<close> module in network byte order, the three bounded
  readers that every \<^verbatim>\<open>unpack\<close> of the OpenFlow library is written with, and the
  interface (a locale) that a packable object offers to the objects that contain it.
\<close>

unbundle bit_operations_syntax

section \<open>Results\<close>

text \<open>
  The exceptions the modelled code raises. A function that may raise returns
  \<open>py_error + 'a\<close>; \<open>Inl\<close> is the exception, and it skips the rest of the body.
\<close>

datatype py_error =
    StructError
  | UnderrunError
  | AssertionError
  | RuntimeError
  | TypeError
  | ValueError
  | KeyError
  | IndexError
  | NameError
  | AttributeError
  | SocketError

type_synonym 'a res = "py_error + 'a"

definition rbind :: "'a res \<Rightarrow> ('a \<Rightarrow> 'b res) \<Rightarrow> 'b res" where
  "rbind m f = (case m of Inl e \<Rightarrow> Inl e | Inr x \<Rightarrow> f x)"

named_theorems codec_simps \<open>what the readers return where packed bytes stand\<close>
named_theorems codec_dest \<open>what a successful pack says about its parts\<close>
named_theorems wc_bits \<open>wildcard constants as shifted masks\<close>

lemma rbind_simps [simp]:
  "rbind (Inr x) f = f x"
  "rbind (Inl e) f = Inl e"
  by (simp_all add: rbind_def)

lemma rbind_Inr_iff: "rbind m f = Inr y \<longleftrightarrow> (\<exists>x. m = Inr x \<and> f x = Inr y)"
  by (cases m) simp_all

lemma rbindE:
  assumes "rbind m f = Inr y"
  obtains x where "m = Inr x" "f x = Inr y"
  using assms by (auto simp: rbind_Inr_iff)

lemma rbind_cong [fundef_cong]:
  "m = m' \<Longrightarrow> (\<And>x. m' = Inr x \<Longrightarrow> f x = f' x) \<Longrightarrow> rbind m f = rbind m' f'"
  by (cases m') simp_all

lemma rbind_assoc: "rbind (rbind m f) g = rbind m (\<lambda>x. rbind (f x) g)"
  by (cases m) simp_all

lemma if_Inr_iff [codec_dest]:
  "(if b then Inr x else Inl e) = (Inr y :: 'a res) \<longleftrightarrow> b \<and> x = y"
  "(if b then Inl e else Inr x) = (Inr y :: 'a res) \<longleftrightarrow> \<not> b \<and> x = y"
  by simp_all

text \<open>A list of fallible steps that thread a state: a Python \<^verbatim>\<open>for\<close> loop that may raise.\<close>

fun mapM :: "('a \<Rightarrow> 'b res) \<Rightarrow> 'a list \<Rightarrow> 'b list res" where
  "mapM f [] = Inr []"
| "mapM f (x # xs) = rbind (f x) (\<lambda>y. rbind (mapM f xs) (\<lambda>ys. Inr (y # ys)))"

section \<open>Byte strings and slices\<close>

type_synonym byte = "8 word"
type_synonym bytes = "byte list"

text \<open>Python's \<^verbatim>\<open>xs[i:j]\<close>: negative bounds count from the end, both are clamped.\<close>

definition py_bound :: "int \<Rightarrow> int \<Rightarrow> nat" where
  "py_bound n i = nat (max 0 (min n (if i < 0 then n + i else i)))"

definition py_slice :: "'a list \<Rightarrow> int \<Rightarrow> int \<Rightarrow> 'a list" where
  "py_slice xs i j =
     (let n = int (length xs); a = py_bound n i; b = py_bound n j
      in take (b - a) (drop a xs))"

lemma py_slice_nonneg:
  "0 \<le> i \<Longrightarrow> i \<le> j \<Longrightarrow> j \<le> int (length xs) \<Longrightarrow>
   py_slice xs i j = take (nat j - nat i) (drop (nat i) xs)"
  by (simp add: py_slice_def py_bound_def Let_def)

lemma length_py_slice_le:
  "0 \<le> i \<Longrightarrow> 0 \<le> j \<Longrightarrow> int (length (py_slice xs i j)) \<le> max 0 (j - i)"
  by (auto simp: py_slice_def py_bound_def Let_def min_def max_def)

text \<open>Python's \<^verbatim>\<open>s.ljust(n, '\0')\<close>: pads on the right, never truncates.\<close>

definition ljust0 :: "bytes \<Rightarrow> nat \<Rightarrow> bytes" where
  "ljust0 s n = s @ replicate (n - length s) 0"

lemma length_ljust0 [simp]: "length (ljust0 s n) = max (length s) n"
  by (simp add: ljust0_def)

section \<open>Integers as byte strings\<close>

fun int_to_be :: "nat \<Rightarrow> int \<Rightarrow> bytes" where
  "int_to_be 0 v = []"
| "int_to_be (Suc n) v = int_to_be n (v div 256) @ [word_of_int v]"

definition be_to_int :: "bytes \<Rightarrow> int" where
  "be_to_int bs = foldl (\<lambda>acc b. 256 * acc + uint b) 0 bs"

lemma length_int_to_be [simp]: "length (int_to_be n v) = n"
  by (induction n arbitrary: v) simp_all

lemma be_to_int_snoc [simp]: "be_to_int (bs @ [b]) = 256 * be_to_int bs + uint b"
  by (simp add: be_to_int_def)

lemma be_to_int_Nil [simp]: "be_to_int [] = 0"
  by (simp add: be_to_int_def)

lemma uint_byte_of_int: "uint (word_of_int v :: byte) = v mod 256"
  by (simp add: uint_word_of_int)

lemma be_to_int_int_to_be: "be_to_int (int_to_be n v) = v mod 256 ^ n"
proof (induction n arbitrary: v)
  case 0
  then show ?case by simp
next
  case (Suc n)
  have "v mod 256 ^ Suc n = 256 * (v div 256 mod 256 ^ n) + v mod 256"
    using zmod_zmult2_eq [of "256 ^ n" v 256] by simp
  with Suc show ?case by (simp add: uint_byte_of_int)
qed

lemma be_to_int_bounds: "0 \<le> be_to_int bs \<and> be_to_int bs < 256 ^ length bs"
proof (induction bs rule: rev_induct)
  case Nil
  then show ?case by simp
next
  case (snoc b bs)
  moreover have "0 \<le> uint b" and "uint b < 256"
    using uint_lt2p [of b] by simp_all
  ultimately show ?case by simp
qed

lemma int_to_be_be_to_int: "int_to_be (length bs) (be_to_int bs) = bs"
proof (induction bs rule: rev_induct)
  case Nil
  then show ?case by simp
next
  case (snoc b bs)
  have b: "0 \<le> uint b" "uint b < 256"
    using uint_lt2p [of b] by simp_all
  have "uint (word_of_int (256 * be_to_int bs + uint b) :: byte) = uint b"
    unfolding uint_byte_of_int using b by simp
  then have "word_of_int (256 * be_to_int bs + uint b) = b"
    by (simp only: word_uint_eq_iff)
  with b snoc show ?case by simp
qed

section \<open>The struct module, network byte order\<close>

text \<open>
  The format characters the sources use after \<^verbatim>\<open>!\<close>: \<^verbatim>\<open>B\<close>, \<^verbatim>\<open>H\<close>, \<^verbatim>\<open>L\<close> (or \<^verbatim>\<open>I\<close>), \<^verbatim>\<open>Q\<close> unsigned,
  and \<^verbatim>\<open>l\<close> (or \<^verbatim>\<open>i\<close>) signed. \<^verbatim>\<open>struct.pack\<close> raises \<^verbatim>\<open>struct.error\<close> for a value out of range or
  a wrong number of values.
\<close>

datatype struct_code = FB | FH | FL | FQ | Fl

fun code_size :: "struct_code \<Rightarrow> nat" where
  "code_size FB = 1"
| "code_size FH = 2"
| "code_size FL = 4"
| "code_size FQ = 8"
| "code_size Fl = 4"

fun code_range :: "struct_code \<Rightarrow> int \<Rightarrow> bool" where
  "code_range FB v = (0 \<le> v \<and> v < 256)"
| "code_range FH v = (0 \<le> v \<and> v < 65536)"
| "code_range FL v = (0 \<le> v \<and> v < 4294967296)"
| "code_range FQ v = (0 \<le> v \<and> v < 18446744073709551616)"
| "code_range Fl v = (- 2147483648 \<le> v \<and> v < 2147483648)"

definition code_decode :: "struct_code \<Rightarrow> bytes \<Rightarrow> int" where
  "code_decode c bs =
     (let u = be_to_int bs
      in if c = Fl \<and> 2147483648 \<le> u then u - 4294967296 else u)"

definition calcsize :: "struct_code list \<Rightarrow> nat" where
  "calcsize cs = sum_list (map code_size cs)"

lemma calcsize_simps [simp]:
  "calcsize [] = 0"
  "calcsize (c # cs) = code_size c + calcsize cs"
  by (simp_all add: calcsize_def)

fun struct_bytes :: "struct_code list \<Rightarrow> int list \<Rightarrow> bytes" where
  "struct_bytes (c # cs) (v # vs) = int_to_be (code_size c) v @ struct_bytes cs vs"
| "struct_bytes _ _ = []"

fun struct_ints :: "struct_code list \<Rightarrow> bytes \<Rightarrow> int list" where
  "struct_ints [] bs = []"
| "struct_ints (c # cs) bs =
     code_decode c (take (code_size c) bs) # struct_ints cs (drop (code_size c) bs)"

definition struct_pack :: "struct_code list \<Rightarrow> int list \<Rightarrow> bytes res" where
  "struct_pack cs vs =
     (if list_all2 code_range cs vs then Inr (struct_bytes cs vs) else Inl StructError)"

definition struct_unpack :: "struct_code list \<Rightarrow> bytes \<Rightarrow> int list res" where
  "struct_unpack cs bs =
     (if length bs = calcsize cs then Inr (struct_ints cs bs) else Inl StructError)"

declare struct_bytes.simps [simp del]

lemma struct_pack_Inr_iff [codec_dest]:
  "struct_pack cs vs = Inr bs \<longleftrightarrow> list_all2 code_range cs vs \<and> bs = struct_bytes cs vs"
  by (auto simp: struct_pack_def)

lemma code_decode_encode: "code_range c v \<Longrightarrow> code_decode c (int_to_be (code_size c) v) = v"
proof -
  assume r: "code_range c v"
  have u: "be_to_int (int_to_be (code_size c) v) = v mod 256 ^ code_size c"
    by (rule be_to_int_int_to_be)
  show ?thesis
  proof (cases "c = Fl \<and> v < 0")
    case True
    with r have "v mod 4294967296 = v + 4294967296"
      using mod_pos_pos_trivial [of "v + 4294967296" 4294967296] by simp
    with True r u show ?thesis by (simp add: code_decode_def Let_def)
  next
    case False
    with r have "v mod 256 ^ code_size c = v" by (cases c) simp_all
    with False r u show ?thesis by (cases c) (simp_all add: code_decode_def Let_def)
  qed
qed

lemma length_struct_bytes: "length cs = length vs \<Longrightarrow> length (struct_bytes cs vs) = calcsize cs"
  by (induction cs vs rule: list_induct2) (simp_all add: struct_bytes.simps)

lemma struct_ints_bytes: "list_all2 code_range cs vs \<Longrightarrow> struct_ints cs (struct_bytes cs vs) = vs"
  by (induction cs vs rule: list_all2_induct) (simp_all add: code_decode_encode struct_bytes.simps)

text \<open>\<^verbatim>\<open>struct.unpack\<close> inverts \<^verbatim>\<open>struct.pack\<close>.\<close>

lemma struct_unpack_pack: "struct_pack cs vs = Inr bs \<Longrightarrow> struct_unpack cs bs = Inr vs"
  by (auto simp: struct_pack_Inr_iff struct_unpack_def struct_ints_bytes
        length_struct_bytes list_all2_lengthD)

lemma length_struct_ints [simp]: "length (struct_ints cs bs) = length cs"
  by (induction cs arbitrary: bs) simp_all

lemma code_decode_range: "length bs = code_size c \<Longrightarrow> code_range c (code_decode c bs)"
  using be_to_int_bounds [of bs] by (cases c) (auto simp: code_decode_def Let_def)

lemma struct_ints_range:
  "calcsize cs \<le> length bs \<Longrightarrow> list_all2 code_range cs (struct_ints cs bs)"
proof (induction cs arbitrary: bs)
  case Nil
  then show ?case by simp
next
  case (Cons c cs)
  have "code_range c (code_decode c (take (code_size c) bs))"
    by (rule code_decode_range) (use Cons.prems in simp)
  moreover have "list_all2 code_range cs (struct_ints cs (drop (code_size c) bs))"
    by (rule Cons.IH) (use Cons.prems in simp)
  ultimately show ?case by simp
qed

section \<open>A byte string at an offset\<close>

text \<open>
  \<open>chunk raw off bs\<close>: the bytes \<open>bs\<close> stand in \<open>raw\<close> at offset \<open>off\<close>. Every round trip
  is stated for a packed object standing anywhere inside a larger buffer.
\<close>

definition chunk :: "'a list \<Rightarrow> int \<Rightarrow> 'a list \<Rightarrow> bool" where
  "chunk raw off bs \<longleftrightarrow>
     0 \<le> off \<and> off + int (length bs) \<le> int (length raw) \<and>
     take (length bs) (drop (nat off) raw) = bs"

lemma chunk_middle: "chunk (pre @ bs @ post) (int (length pre)) bs"
  by (simp add: chunk_def)

lemma chunk_whole: "chunk bs 0 bs"
  using chunk_middle [of "[]" bs "[]"] by simp

lemma chunk_nonneg [simp]: "chunk raw off bs \<Longrightarrow> 0 \<le> off"
  by (simp add: chunk_def)

lemma chunk_append [codec_dest]:
  "chunk raw off (a @ b) \<longleftrightarrow> chunk raw off a \<and> chunk raw (off + int (length a)) b"
proof (cases "0 \<le> off \<and> nat off + length a + length b \<le> length raw")
  case True
  define ys where "ys = drop (nat off) raw"
  have len: "length a + length b \<le> length ys"
    using True unfolding ys_def length_drop by linarith
  have ys2: "drop (nat (off + int (length a))) raw = drop (length a) ys"
    using True by (simp add: ys_def nat_add_distrib add.commute)
  have "take (length a + length b) ys = a @ b \<longleftrightarrow>
        take (length a) ys = a \<and> take (length b) (drop (length a) ys) = b"
    using len by (simp add: take_add append_eq_append_conv)
  moreover have "off + int (length a) + int (length b) \<le> int (length raw)"
    using True by linarith
  ultimately show ?thesis
    using True by (simp add: chunk_def ys2 flip: ys_def)
next
  case False
  then show ?thesis by (auto simp: chunk_def)
qed

lemma chunk_slice:
  "chunk raw off bs \<Longrightarrow> n = int (length bs) \<Longrightarrow> py_slice raw off (off + n) = bs"
  by (auto simp: chunk_def py_slice_nonneg nat_add_distrib)

lemma chunk_avail: "chunk raw off bs \<Longrightarrow> int (length bs) \<le> int (length raw) - off"
  by (simp add: chunk_def)

section \<open>Packable objects as an interface\<close>

text \<open>
  What the objects of a list promise to the message that holds them: \<open>pk\<close> packs an object
  and may update it (the updated object is returned beside the bytes), \<open>upk\<close> reads one
  back from any place in a buffer. \<open>wf\<close> is the well-formedness the law needs.
\<close>

locale codec =
  fixes pk :: "'a \<Rightarrow> (bytes \<times> 'a) res"
    and upk :: "bytes \<Rightarrow> int \<Rightarrow> ('a \<times> int) res"
    and wf :: "'a \<Rightarrow> bool"
  assumes upk_pk:
    "wf x \<Longrightarrow> pk x = Inr (bs, x') \<Longrightarrow> chunk raw off bs \<Longrightarrow>
     upk raw off = Inr (x', off + int (length bs))"
begin

text \<open>Packing determines the object that is read back, whatever surrounds it.\<close>

lemma upk_pk_append:
  "wf x \<Longrightarrow> pk x = Inr (bs, x') \<Longrightarrow> upk (bs @ rest) 0 = Inr (x', int (length bs))"
  using upk_pk [of x bs x' "bs @ rest" 0] chunk_middle [of "[]" bs rest] by simp

lemma pk_injective:
  assumes "wf x" "wf y" "pk x = Inr (bs, x')" "pk y = Inr (bs, y')"
  shows "x' = y'"
  using assms upk_pk_append [of x bs x' "[]"] upk_pk_append [of y bs y' "[]"] by simp

end

text \<open>Packing a list of objects one after the other: \<^verbatim>\<open>for i in xs: packed += i.pack()\<close>.\<close>

fun pack_list :: "('a \<Rightarrow> (bytes \<times> 'a) res) \<Rightarrow> 'a list \<Rightarrow> (bytes \<times> 'a list) res" where
  "pack_list pk [] = Inr ([], [])"
| "pack_list pk (x # xs) =
     rbind (pk x) (\<lambda>(b, x').
     rbind (pack_list pk xs) (\<lambda>(bs, xs'). Inr (b @ bs, x' # xs')))"

text \<open>Reading a known number of objects: \<^verbatim>\<open>for i in xrange(0, n): offset = p.unpack(raw, offset)\<close>.\<close>

fun unpack_n :: "(bytes \<Rightarrow> int \<Rightarrow> ('a \<times> int) res) \<Rightarrow> nat \<Rightarrow> bytes \<Rightarrow> int \<Rightarrow> ('a list \<times> int) res"
where
  "unpack_n upk 0 raw off = Inr ([], off)"
| "unpack_n upk (Suc n) raw off =
     rbind (upk raw off) (\<lambda>(x, off).
     rbind (unpack_n upk n raw off) (\<lambda>(xs, off). Inr (x # xs, off)))"

lemma length_pack_list: "pack_list pk xs = Inr (bs, xs') \<Longrightarrow> length xs' = length xs"
  by (induction xs arbitrary: bs xs') (auto simp: rbind_Inr_iff)

context codec
begin

lemma unpack_n_pack_list:
  "list_all wf xs \<Longrightarrow> pack_list pk xs = Inr (bs, xs') \<Longrightarrow> chunk raw off bs \<Longrightarrow>
   unpack_n upk (length xs) raw off = Inr (xs', off + int (length bs))"
proof (induction xs arbitrary: bs xs' off)
  case Nil
  then show ?case by simp
next
  case (Cons x xs)
  then obtain b x1 bs1 xs1 where p: "pk x = Inr (b, x1)" "pack_list pk xs = Inr (bs1, xs1)"
    and eq: "bs = b @ bs1" "xs' = x1 # xs1"
    by (auto simp: rbind_Inr_iff)
  with Cons.prems have "upk raw off = Inr (x1, off + int (length b))"
    by (intro upk_pk [of x b x1]) (auto simp: chunk_append)
  moreover have "unpack_n upk (length xs) raw (off + int (length b)) =
      Inr (xs1, off + int (length b) + int (length bs1))"
    using Cons.prems p eq by (intro Cons.IH) (auto simp: chunk_append)
  ultimately show ?case using eq by simp
qed

end

end
