(* ===== verification/Addresses.thy ===== *)
theory Addresses
  imports Pox_Prelude "HOL-Library.List_Lexorder"
begin

text \<open>
  \<^verbatim>\<open>pox/lib/addresses.py\<close>: Ethernet addresses (six raw bytes), IPv4 addresses (a signed
  32-bit integer in network byte order), and the CIDR helpers. The host is little endian,
  as the native \<^verbatim>\<open>struct\<close> formats \<^verbatim>\<open>i\<close> and \<^verbatim>\<open>I\<close> read it. Python 2 strings are byte strings,
  so text is a list of character codes.
\<close>

section \<open>Numbers as text\<close>

text \<open>Character codes used by the parsers.\<close>

abbreviation ch_colon :: byte where "ch_colon \<equiv> 58"
abbreviation ch_dash :: byte where "ch_dash \<equiv> 45"
abbreviation ch_plus :: byte where "ch_plus \<equiv> 43"
abbreviation ch_slash :: byte where "ch_slash \<equiv> 47"
abbreviation ch_0 :: byte where "ch_0 \<equiv> 48"

definition digit_val :: "byte \<Rightarrow> int option" where
  "digit_val c =
     (let n = uint c in
      if 48 \<le> n \<and> n \<le> 57 then Some (n - 48)
      else if 97 \<le> n \<and> n \<le> 102 then Some (n - 87)
      else if 65 \<le> n \<and> n \<le> 70 then Some (n - 55)
      else None)"

fun digits_val :: "int \<Rightarrow> int \<Rightarrow> bytes \<Rightarrow> int option" where
  "digits_val base acc [] = Some acc"
| "digits_val base acc (c # cs) =
     (case digit_val c of
        None \<Rightarrow> None
      | Some d \<Rightarrow> if d < base then digits_val base (base * acc + d) cs else None)"

definition is_space :: "byte \<Rightarrow> bool" where
  "is_space c \<longleftrightarrow> c = 32 \<or> (9 \<le> c \<and> c \<le> 13)"

definition strip_spaces :: "bytes \<Rightarrow> bytes" where
  "strip_spaces s = rev (dropWhile is_space (rev (dropWhile is_space s)))"

definition strip_0x :: "int \<Rightarrow> bytes \<Rightarrow> bytes" where
  "strip_0x base s =
     (case s of a # b # rest \<Rightarrow>
        if base = 16 \<and> a = ch_0 \<and> (b = 120 \<or> b = 88) then rest else s
      | _ \<Rightarrow> s)"

text \<open>Python's \<^verbatim>\<open>int(s, base)\<close>: white space around, an optional sign, an optional \<^verbatim>\<open>0x\<close> in base 16.\<close>

definition py_int :: "int \<Rightarrow> bytes \<Rightarrow> int res" where
  "py_int base s =
     (let t = strip_spaces s;
          neg = (case t of c # _ \<Rightarrow> c = ch_dash | [] \<Rightarrow> False);
          u = (case t of c # r \<Rightarrow> if c = ch_dash \<or> c = ch_plus then r else t | [] \<Rightarrow> t);
          d = strip_0x base u
      in if d = [] then Inl ValueError
         else case digits_val base 0 d of
                None \<Rightarrow> Inl ValueError
              | Some n \<Rightarrow> Inr (if neg then - n else n))"

definition hex_digit :: "int \<Rightarrow> byte" where
  "hex_digit d = word_of_int (if d < 10 then 48 + d else 87 + d)"

fun hex_digits :: "int \<Rightarrow> bytes" where
  "hex_digits n = (if n < 16 then [hex_digit n] else hex_digits (n div 16) @ [hex_digit (n mod 16)])"

declare hex_digits.simps [simp del]

text \<open>Python's \<^verbatim>\<open>str(n)\<close> of an integer.\<close>

fun dec_digits :: "nat \<Rightarrow> bytes" where
  "dec_digits n = (if n < 10 then [word_of_nat (48 + n)] else dec_digits (n div 10) @ [word_of_nat (48 + n mod 10)])"

declare dec_digits.simps [simp del]

definition py_str_int :: "int \<Rightarrow> bytes" where
  "py_str_int n = (if n < 0 then 45 # dec_digits (nat (- n)) else dec_digits (nat n))"

text \<open>Python's \<^verbatim>\<open>'%02x' % n\<close>: at least two characters, the sign counted.\<close>

definition hex02 :: "int \<Rightarrow> bytes" where
  "hex02 n =
     (if n < 0 then ch_dash # hex_digits (- n)
      else let h = hex_digits n in if length h < 2 then ch_0 # h else h)"

text \<open>Python's \<^verbatim>\<open>s.split(c)\<close> and \<^verbatim>\<open>c.join(parts)\<close> for a one-character separator.\<close>

fun py_split :: "'a \<Rightarrow> 'a list \<Rightarrow> 'a list list" where
  "py_split c [] = [[]]"
| "py_split c (x # xs) =
     (if x = c then [] # py_split c xs
      else case py_split c xs of [] \<Rightarrow> [[x]] | p # ps \<Rightarrow> (x # p) # ps)"

fun py_join :: "'a list \<Rightarrow> 'a list list \<Rightarrow> 'a list" where
  "py_join sep [] = []"
| "py_join sep [p] = p"
| "py_join sep (p # q # ps) = p @ sep @ py_join sep (q # ps)"

text \<open>Python's \<^verbatim>\<open>chr\<close>.\<close>

definition py_chr :: "int \<Rightarrow> byte res" where
  "py_chr n = (if 0 \<le> n \<and> n < 256 then Inr (word_of_int n) else Inl ValueError)"

section \<open>EthAddr\<close>

datatype EthAddr = EthAddr (eth_value: bytes)

text \<open>The forms the constructor accepts: a string, another address, a sequence of ints, None.\<close>

datatype eth_init = EthStr bytes | EthCopy EthAddr | EthSeq "int list" | EthNone

text \<open>\<^verbatim>\<open>addr[2::3]\<close> of a 17-character string.\<close>

definition every_third :: "bytes \<Rightarrow> bytes" where
  "every_third s = map (\<lambda>k. s ! (2 + 3 * k)) [0..<5]"

definition hex_pairs :: "bytes \<Rightarrow> bytes res" where
  "hex_pairs a =
     mapM (\<lambda>k. rbind (py_int 16 (take 2 (drop (2 * k) a))) py_chr) [0..<6]"

definition EthAddr_init :: "eth_init \<Rightarrow> EthAddr res" where
  "EthAddr_init a =
     (case a of
        EthStr s \<Rightarrow>
          if length s = 6 then Inr (EthAddr s)
          else if length s = 17 then
            (if every_third s \<noteq> replicate 5 ch_colon \<and> every_third s \<noteq> replicate 5 ch_dash
             then Inl RuntimeError
             else rbind (hex_pairs (concat (map (\<lambda>x. take 2 (drop (3 * x) s)) [0..<6])))
                    (\<lambda>b. Inr (EthAddr b)))
          else if length s = 12 then rbind (hex_pairs s) (\<lambda>b. Inr (EthAddr b))
          else if count_list s ch_colon = 5 then
            rbind (mapM (\<lambda>x. rbind (py_int 16 x) (\<lambda>n. Inr (hex02 n))) (py_split ch_colon s))
              (\<lambda>ps. rbind (hex_pairs (concat ps)) (\<lambda>b. Inr (EthAddr b)))
          else Inl RuntimeError
      | EthCopy e \<Rightarrow> Inr (EthAddr (eth_value e))
      | EthSeq xs \<Rightarrow> rbind (mapM py_chr xs) (\<lambda>b. Inr (EthAddr b))
      | EthNone \<Rightarrow> Inr (EthAddr (replicate 6 0)))"

definition EMPTY_ETH :: EthAddr where
  "EMPTY_ETH = EthAddr [0, 0, 0, 0, 0, 0]"

definition eth_toRaw :: "EthAddr \<Rightarrow> bytes" where
  "eth_toRaw e = eth_value e"

definition eth_to_tuple :: "EthAddr \<Rightarrow> int list" where
  "eth_to_tuple e = map uint (eth_value e)"

text \<open>\<^verbatim>\<open>ord(self._value[i])\<close>\<close>

definition eth_ord :: "EthAddr \<Rightarrow> nat \<Rightarrow> int res" where
  "eth_ord e i = (if i < length (eth_value e) then Inr (uint (eth_value e ! i)) else Inl IndexError)"

definition eth_isMulticast :: "EthAddr \<Rightarrow> bool res" where
  "eth_isMulticast e = rbind (eth_ord e 0) (\<lambda>b. Inr (b AND 1 \<noteq> 0))"

definition eth_isLocal :: "EthAddr \<Rightarrow> bool res" where
  "eth_isLocal e = rbind (eth_ord e 0) (\<lambda>b. Inr (b AND 2 \<noteq> 0))"

definition eth_isGlobal :: "EthAddr \<Rightarrow> bool res" where
  "eth_isGlobal e = rbind (eth_isLocal e) (\<lambda>b. Inr (\<not> b))"

text \<open>The conjunction stops at the first byte that differs.\<close>

definition eth_isBridgeFiltered :: "EthAddr \<Rightarrow> bool res" where
  "eth_isBridgeFiltered e =
     rbind (eth_ord e 0) (\<lambda>b0. if b0 \<noteq> 1 then Inr False else
     rbind (eth_ord e 1) (\<lambda>b1. if b1 \<noteq> 128 then Inr False else
     rbind (eth_ord e 2) (\<lambda>b2. if b2 \<noteq> 194 then Inr False else
     rbind (eth_ord e 3) (\<lambda>b3. if b3 \<noteq> 0 then Inr False else
     rbind (eth_ord e 4) (\<lambda>b4. if b4 \<noteq> 0 then Inr False else
     rbind (eth_ord e 5) (\<lambda>b5. Inr (b5 \<le> 15)))))))"

text \<open>\<open>oui\<close> is the table loaded from \<^verbatim>\<open>oui.txt\<close>.\<close>

definition eth_to_str :: "(bytes \<rightharpoonup> bytes) \<Rightarrow> EthAddr \<Rightarrow> bytes \<Rightarrow> bool \<Rightarrow> bytes res" where
  "eth_to_str oui e sep resolve_names =
     (let plain = py_join sep (map (\<lambda>x. hex02 (uint x)) (eth_value e)) in
      if resolve_names then
        rbind (eth_isGlobal e) (\<lambda>g.
          case (if g then oui (take 3 (eth_value e)) else None) of
            None \<Rightarrow> Inr plain
          | Some name \<Rightarrow>
              if name = [] then Inr plain
              else Inr (name @ sep @ py_join sep (map (\<lambda>x. hex02 (uint x)) (drop 3 (eth_value e)))))
      else Inr plain)"

definition eth_wf :: "EthAddr \<Rightarrow> bool" where
  "eth_wf e \<longleftrightarrow> length (eth_value e) = 6"

text \<open>\<^verbatim>\<open>__cmp__\<close> compares the raw byte strings.\<close>

instantiation EthAddr :: linorder
begin

definition less_eq_EthAddr :: "EthAddr \<Rightarrow> EthAddr \<Rightarrow> bool" where
  "less_eq_EthAddr a b \<longleftrightarrow> eth_value a \<le> eth_value b"

definition less_EthAddr :: "EthAddr \<Rightarrow> EthAddr \<Rightarrow> bool" where
  "less_EthAddr a b \<longleftrightarrow> eth_value a < eth_value b"

instance
proof
  fix a b c :: EthAddr
  show "(a < b) = (a \<le> b \<and> \<not> b \<le> a)"
    by (auto simp: less_eq_EthAddr_def less_EthAddr_def)
  show "a \<le> a" by (simp add: less_eq_EthAddr_def)
  show "a \<le> b \<Longrightarrow> b \<le> c \<Longrightarrow> a \<le> c" by (simp add: less_eq_EthAddr_def)
  show "a \<le> b \<Longrightarrow> b \<le> a \<Longrightarrow> a = b" by (simp add: less_eq_EthAddr_def EthAddr.expand)
  show "a \<le> b \<or> b \<le> a" by (auto simp: less_eq_EthAddr_def)
qed

end

section \<open>IPAddr\<close>

text \<open>Internal storage: a signed integer, the four network-order bytes read natively.\<close>

datatype IPAddr = IPAddr (ip_value: int)

text \<open>Native (little endian) \<^verbatim>\<open>struct\<close> formats \<^verbatim>\<open>i\<close> and \<^verbatim>\<open>I\<close>; \<^verbatim>\<open>socket.htonl\<close> swaps the bytes.\<close>

definition signed32 :: "int \<Rightarrow> int" where
  "signed32 u = (if 2147483648 \<le> u then u - 4294967296 else u)"

definition unpack_native_i :: "bytes \<Rightarrow> int res" where
  "unpack_native_i bs =
     (if length bs = 4 then Inr (signed32 (be_to_int (rev bs))) else Inl StructError)"

definition pack_native :: "int \<Rightarrow> bytes" where
  "pack_native v = rev (int_to_be 4 v)"

definition htonl :: "int \<Rightarrow> int" where
  "htonl v = be_to_int (rev (int_to_be 4 v))"

datatype ip_init = IpStr bytes | IpCopy IPAddr | IpInt int | IpOther

text \<open>\<open>inet_aton\<close> is the C library's parser of dotted quads, \<open>None\<close> where it raises.\<close>

definition IPAddr_init :: "(bytes \<Rightarrow> bytes option) \<Rightarrow> ip_init \<Rightarrow> bool \<Rightarrow> IPAddr res" where
  "IPAddr_init inet_aton a networkOrder =
     (case a of
        IpStr s \<Rightarrow>
          if length s \<noteq> 4 then
            (case inet_aton s of
               None \<Rightarrow> Inl SocketError
             | Some b \<Rightarrow> rbind (unpack_native_i b) (\<lambda>v. Inr (IPAddr v)))
          else rbind (unpack_native_i s) (\<lambda>v. Inr (IPAddr v))
      | IpCopy ip \<Rightarrow> Inr (IPAddr (ip_value ip))
      | IpInt n \<Rightarrow>
          let addr = n AND 4294967295 in
          Inr (IPAddr (signed32 (be_to_int (if networkOrder then int_to_be 4 addr else pack_native addr))))
      | IpOther \<Rightarrow> Inl RuntimeError)"

text \<open>The two constructor calls the packet and OpenFlow libraries make on numbers and raw bytes.\<close>

definition IPAddr_of_int :: "int \<Rightarrow> IPAddr" where
  "IPAddr_of_int n = IPAddr (signed32 (be_to_int (pack_native (n AND 4294967295))))"

definition ip_toUnsigned :: "IPAddr \<Rightarrow> bool \<Rightarrow> int" where
  "ip_toUnsigned ip networkOrder =
     (if networkOrder then ip_value ip AND 4294967295
      else htonl (ip_value ip AND 4294967295))"

definition ip_toSigned :: "IPAddr \<Rightarrow> bool \<Rightarrow> int" where
  "ip_toSigned ip networkOrder =
     (if networkOrder then ip_value ip
      else signed32 (be_to_int (rev (pack_native (htonl (ip_value ip AND 4294967295))))))"

definition ip_raw :: "IPAddr \<Rightarrow> bytes" where
  "ip_raw ip = pack_native (ip_value ip)"

text \<open>\<^verbatim>\<open>inNetwork\<close> with the \<^verbatim>\<open>(address, bits)\<close> tuple the flow table passes.\<close>

definition ip_inNetwork :: "IPAddr \<Rightarrow> IPAddr \<times> int \<Rightarrow> bool" where
  "ip_inNetwork ip net =
     (case net of (n, b) \<Rightarrow>
        ip_toUnsigned ip False AND NOT (push_bit (nat (32 - b)) 1 - 1) = ip_toUnsigned n False)"

definition ip_is_multicast :: "IPAddr \<Rightarrow> bool" where
  "ip_is_multicast ip \<longleftrightarrow> drop_bit 24 (ip_toSigned ip False) AND 224 = 224"

definition ip_wf :: "IPAddr \<Rightarrow> bool" where
  "ip_wf ip \<longleftrightarrow> - 2147483648 \<le> ip_value ip \<and> ip_value ip < 2147483648"

section \<open>Netmasks and CIDR\<close>

text \<open>The loop \<^verbatim>\<open>while v & 0x80000000: c += 1; v <<= 1\<close>, on Python's unbounded integers.\<close>

lemma leading_ones_step:
  fixes v :: int
  assumes "v AND 2147483648 \<noteq> 0"
  shows "(LEAST k. (2 :: int) ^ 32 dvd 2 * v * 2 ^ k) < (LEAST k. (2 :: int) ^ 32 dvd v * 2 ^ k)"
proof -
  have not0: "\<not> (2 :: int) ^ 32 dvd v * 2 ^ 0"
  proof
    assume "(2 :: int) ^ 32 dvd v * 2 ^ 0"
    then have "take_bit 32 v = 0" by (simp add: take_bit_eq_mod)
    then have "\<not> bit (take_bit 32 v) 31" by simp
    then have "\<not> bit v 31" by (simp add: bit_take_bit_iff)
    then have "v AND 2 ^ 31 = 0" by (simp only: and_exp_eq_0_iff_not_bit not_False_eq_True)
    with assms show False by simp
  qed
  have ex: "(2 :: int) ^ 32 dvd v * 2 ^ 32" by simp
  have "(LEAST k. (2 :: int) ^ 32 dvd v * 2 ^ k) = Suc (LEAST k. (2 :: int) ^ 32 dvd v * 2 ^ Suc k)"
    by (rule Least_Suc [OF ex not0])
  then show ?thesis by (simp add: ac_simps)
qed

function leading_ones :: "int \<Rightarrow> int \<Rightarrow> int \<times> int" where
  "leading_ones c v =
     (if v AND 2147483648 \<noteq> 0 then leading_ones (c + 1) (push_bit 1 v) else (c, v))"
  by pat_completeness auto
termination
  by (relation "measure (\<lambda>(c, v). LEAST k. (2 :: int) ^ 32 dvd v * 2 ^ k)")
     (use leading_ones_step in \<open>simp_all add: push_bit_eq_mult mult.commute\<close>)

declare leading_ones.simps [simp del]

definition netmask_to_cidr :: "IPAddr \<Rightarrow> int res" where
  "netmask_to_cidr dq =
     (let (c, v) = leading_ones 0 (ip_toUnsigned dq False)
      in if v AND 4294967295 \<noteq> 0 then Inl RuntimeError else Inr c)"

definition cidr_to_netmask :: "int \<Rightarrow> IPAddr res" where
  "cidr_to_netmask bits =
     (if bits < 0 \<or> 32 < bits then Inl ValueError
      else Inr (IPAddr_of_int (push_bit (nat (32 - bits)) (push_bit (nat bits) 1 - 1))))"

definition infer_netmask :: "IPAddr \<Rightarrow> int" where
  "infer_netmask ip =
     (let addr = ip_toUnsigned ip False in
      if addr = 0 then 32 - 32
      else if addr AND push_bit 31 1 = 0 then 32 - 24
      else if addr AND push_bit 30 3 = push_bit 30 2 then 32 - 16
      else if addr AND push_bit 29 7 = push_bit 29 6 then 32 - 8
      else if addr AND push_bit 28 15 = push_bit 28 14 then 32 - 0
      else 32 - 0)"

definition cidr_check :: "bool \<Rightarrow> IPAddr \<Rightarrow> int \<Rightarrow> (IPAddr \<times> int) res" where
  "cidr_check allow_host r0 r1 =
     (if r1 < 0 then Inl ValueError
      else if \<not> allow_host \<and> ip_toUnsigned r0 False AND (push_bit (nat r1) 1 - 1) \<noteq> 0
      then Inl RuntimeError
      else Inr (r0, 32 - r1))"

text \<open>\<^verbatim>\<open>addr.split('/', 2)\<close>: at most two cuts.\<close>

definition split_slash :: "bytes \<Rightarrow> bytes list" where
  "split_slash s =
     (case py_split ch_slash s of
        a # b # c # rest \<Rightarrow> [a, b, py_join [ch_slash] (c # rest)]
      | ps \<Rightarrow> ps)"

definition parse_cidr ::
  "(bytes \<Rightarrow> bytes option) \<Rightarrow> bytes \<Rightarrow> bool \<Rightarrow> bool \<Rightarrow> (IPAddr \<times> int) res" where
  "parse_cidr inet_aton text infer allow_host =
     (let mk = (\<lambda>s. IPAddr_init inet_aton (IpStr s) False) in
      case split_slash text of
        [] \<Rightarrow> Inl IndexError
      | [a] \<Rightarrow>
          rbind (mk a) (\<lambda>addr.
            if \<not> infer then cidr_check allow_host addr 0
            else
              let b = 32 - infer_netmask addr; m = push_bit (nat b) 1 - 1 in
              if ip_toUnsigned addr False AND m = 0 then cidr_check allow_host addr b
              else cidr_check allow_host addr 0)
      | a # n # _ \<Rightarrow>
          (case py_int 10 n of
             Inr k \<Rightarrow>
               let wild = 32 - k in
               if 0 \<le> wild \<and> wild \<le> 32
               then rbind (mk a) (\<lambda>addr. cidr_check allow_host addr wild)
               else Inl AssertionError
           | Inl _ \<Rightarrow>
               rbind (mk n) (\<lambda>mask.
                 let (b, m) = leading_ones 0 (ip_toUnsigned mask False) in
                 if m AND 2147483647 \<noteq> 0 then Inl RuntimeError
                 else
                   let wild = 32 - b in
                   if 0 \<le> wild \<and> wild \<le> 32
                   then rbind (mk a) (\<lambda>addr. cidr_check allow_host addr wild)
                   else Inl AssertionError)))"

section \<open>Properties of IPv4 addresses\<close>

lemma and_32_mod: "(n :: int) AND 4294967295 = n mod 4294967296"
  using take_bit_eq_mask [of 32 n] by (simp add: take_bit_eq_mod mask_eq_exp_minus_1)

lemma and_pow31: "(v :: int) AND 2147483648 \<noteq> 0 \<longleftrightarrow> bit v 31"
  using and_exp_eq_0_iff_not_bit [of v 31] by simp

lemma push_bit_minus_1: "push_bit k (1 :: int) - 1 = mask k"
  by (simp add: mask_eq_exp_minus_1 push_bit_eq_mult)

lemma and_low_mask: "(v :: int) AND (push_bit k 1 - 1) = v mod 2 ^ k"
  by (simp only: push_bit_minus_1 take_bit_eq_mask [symmetric] take_bit_eq_mod)

lemma signed32_mod: "0 \<le> u \<Longrightarrow> u < 4294967296 \<Longrightarrow> signed32 u mod 4294967296 = u"
  by (auto simp: signed32_def)

lemma mod_signed32:
  "- 2147483648 \<le> v \<Longrightarrow> v < 2147483648 \<Longrightarrow> signed32 (v mod 4294967296) = v"
  using mod_pos_pos_trivial [of "v + 4294967296" 4294967296]
  by (cases "0 \<le> v") (auto simp: signed32_def)

lemma be4_bounds: "length bs = 4 \<Longrightarrow> 0 \<le> be_to_int bs \<and> be_to_int bs < 4294967296"
  using be_to_int_bounds [of bs] by simp

lemma int_to_be_4: "length bs = 4 \<Longrightarrow> int_to_be 4 (be_to_int bs) = bs"
  using int_to_be_be_to_int [of bs] by simp

lemma be_to_int_4: "be_to_int (int_to_be 4 v) = v mod 4294967296"
  by (simp add: be_to_int_int_to_be)

lemma int_to_be_mod: "int_to_be n (v mod 256 ^ n) = int_to_be n v"
  using int_to_be_be_to_int [of "int_to_be n v"] by (simp add: be_to_int_int_to_be)

lemma int_to_be_4_mod: "int_to_be 4 (v mod 4294967296) = int_to_be 4 v"
  using int_to_be_mod [of 4 v] by simp

lemma signed32_range: "0 \<le> u \<Longrightarrow> u < 4294967296 \<Longrightarrow> - 2147483648 \<le> signed32 u \<and> signed32 u < 2147483648"
  by (auto simp: signed32_def)

lemma ip_wf_of_int [simp]: "ip_wf (IPAddr_of_int n)"
  using be4_bounds [of "pack_native (n AND 4294967295)"]
  by (simp add: ip_wf_def IPAddr_of_int_def signed32_range pack_native_def)

lemma ip_toUnsigned_of_int: "ip_toUnsigned (IPAddr_of_int n) False = n mod 4294967296"
proof -
  have "be_to_int (rev (int_to_be 4 (be_to_int (rev (int_to_be 4 (n mod 4294967296)))))) =
        n mod 4294967296"
    by (simp add: int_to_be_4 be_to_int_4)
  with be4_bounds [of "rev (int_to_be 4 (n mod 4294967296))"] show ?thesis
    by (simp add: ip_toUnsigned_def IPAddr_of_int_def htonl_def pack_native_def and_32_mod signed32_mod)
qed

text \<open>The unsigned value of an address is the big-endian number of its raw bytes.\<close>

lemma ip_toUnsigned_raw: "ip_toUnsigned ip False = be_to_int (ip_raw ip)"
  by (simp add: ip_toUnsigned_def ip_raw_def htonl_def pack_native_def and_32_mod int_to_be_4_mod)

lemma ip_toUnsigned_bounds: "0 \<le> ip_toUnsigned ip False \<and> ip_toUnsigned ip False < 4294967296"
  using be4_bounds [of "ip_raw ip"] by (simp add: ip_toUnsigned_raw ip_raw_def pack_native_def)

lemma unpack_native_raw: "ip_wf ip \<Longrightarrow> unpack_native_i (ip_raw ip) = Inr (ip_value ip)"
  by (simp add: unpack_native_i_def ip_raw_def pack_native_def be_to_int_4 mod_signed32 ip_wf_def)

lemma length_ip_raw [simp]: "length (ip_raw ip) = 4"
  by (simp add: ip_raw_def pack_native_def)

lemma ip_of_toUnsigned: "ip_wf ip \<Longrightarrow> IPAddr_of_int (ip_toUnsigned ip False) = ip"
proof -
  assume wf: "ip_wf ip"
  have "be_to_int (ip_raw ip) mod 4294967296 = be_to_int (ip_raw ip)"
    using be4_bounds [of "ip_raw ip"] by simp
  then have "pack_native (ip_toUnsigned ip False AND 4294967295) = rev (ip_raw ip)"
    by (simp add: ip_toUnsigned_raw pack_native_def and_32_mod int_to_be_4)
  with unpack_native_raw [OF wf] show ?thesis
    by (cases ip) (simp add: IPAddr_of_int_def unpack_native_i_def)
qed

lemma ip_toUnsigned_inject:
  "ip_wf a \<Longrightarrow> ip_wf b \<Longrightarrow> ip_toUnsigned a False = ip_toUnsigned b False \<longleftrightarrow> a = b"
  by (metis ip_of_toUnsigned)

text \<open>\<^verbatim>\<open>inNetwork\<close> is equality of the network prefixes, for a network address with no host bits.\<close>

lemma and_not_low: "(v :: int) AND NOT (push_bit k 1 - 1) = v - v mod 2 ^ k"
proof -
  have "v = (v AND NOT (mask k)) + (v AND mask k)"
    by (rule bit_eqI) (auto simp: disjunctive_add bit_simps)
  then have "v AND NOT (mask k) = v - v mod 2 ^ k"
    by (simp add: take_bit_eq_mod flip: take_bit_eq_mask)
  then show ?thesis by (simp only: push_bit_minus_1)
qed

lemma ip_inNetwork_iff:
  assumes "0 \<le> b" "b \<le> 32"
  shows "ip_inNetwork ip (n, b) \<longleftrightarrow>
    ip_toUnsigned ip False div 2 ^ nat (32 - b) = ip_toUnsigned n False div 2 ^ nat (32 - b) \<and>
    2 ^ nat (32 - b) dvd ip_toUnsigned n False"
proof -
  define k where "k = nat (32 - b)"
  define u where "u = ip_toUnsigned ip False"
  define w where "w = ip_toUnsigned n False"
  have "u - u mod 2 ^ k = w \<longleftrightarrow> u div 2 ^ k * 2 ^ k = w"
    by (simp add: minus_mod_eq_div_mult)
  also have "\<dots> \<longleftrightarrow> u div 2 ^ k = w div 2 ^ k \<and> 2 ^ k dvd w"
    by (metis dvd_div_mult_self dvd_triv_right nonzero_mult_div_cancel_right power_not_zero zero_neq_numeral)
  finally show ?thesis
    unfolding ip_inNetwork_def prod.case and_not_low by (simp flip: k_def u_def w_def)
qed

section \<open>Properties of netmasks\<close>

lemma leading_ones_mask:
  "k \<le> b \<Longrightarrow> b \<le> 32 \<Longrightarrow>
   leading_ones c (push_bit (32 - b + k) (mask b)) = (c + int (b - k), push_bit 32 (mask b))"
proof (induction "b - k" arbitrary: c k)
  case 0
  then have "\<not> bit (push_bit 32 (mask b) :: int) 31" by (simp add: bit_push_bit_iff)
  with 0 show ?case by (subst leading_ones.simps) (simp add: and_pow31)
next
  case (Suc n)
  let ?v = "push_bit (32 - b + k) (mask b) :: int"
  have "bit ?v 31" using Suc.hyps(2) Suc.prems by (auto simp: bit_push_bit_iff bit_mask_iff)
  moreover have "push_bit 1 ?v = push_bit (32 - b + Suc k) (mask b)"
    by (simp only: push_bit_push_bit) (simp add: add.commute)
  moreover have "leading_ones (c + 1) (push_bit (32 - b + Suc k) (mask b)) =
      (c + 1 + int (b - Suc k), push_bit 32 (mask b))"
    using Suc.hyps Suc.prems by (intro Suc.hyps(1)) simp_all
  ultimately show ?case
    using Suc.hyps(2) by (simp add: leading_ones.simps [of c ?v] and_pow31)
qed

lemma leading_ones_inv:
  "leading_ones c u = (c', v) \<Longrightarrow>
   \<exists>n. c' = c + int n \<and> v = push_bit n u \<and> (\<forall>j<n. bit (push_bit j u) 31)"
proof (induction c u rule: leading_ones.induct)
  case (1 c u)
  show ?case
  proof (cases "u AND 2147483648 \<noteq> 0")
    case True
    then have "leading_ones (c + 1) (push_bit 1 u) = (c', v)"
      using "1.prems" by (simp add: leading_ones.simps [of c u])
    with "1.IH" [OF True] obtain n where
      n: "c' = c + 1 + int n" "v = push_bit n (push_bit 1 u)"
      "\<forall>j<n. bit (push_bit j (push_bit 1 u)) 31" by blast
    have "bit (push_bit j u) 31" if "j < Suc n" for j
      using that n(3) True by (cases j) (auto simp: and_pow31 push_bit_push_bit)
    with n show ?thesis by (intro exI [of _ "Suc n"]) (simp add: push_bit_push_bit)
  next
    case False
    then show ?thesis using "1.prems" by (intro exI [of _ 0]) (simp add: leading_ones.simps [of c u])
  qed
qed

lemma netmask_value:
  assumes "0 \<le> n" "n \<le> 32" "cidr_to_netmask n = Inr m"
  shows "ip_toUnsigned m False = push_bit (32 - nat n) (mask (nat n))"
proof -
  have "push_bit (32 - nat n) (mask (nat n) :: int) < 2 ^ 32"
  proof -
    have "push_bit (32 - nat n) (mask (nat n) :: int) < push_bit (32 - nat n) (2 ^ nat n)"
      by (simp add: push_bit_eq_mult mask_eq_exp_minus_1)
    also have "\<dots> = 2 ^ 32" using assms(1,2) by (simp add: push_bit_eq_mult flip: power_add)
    finally show ?thesis .
  qed
  moreover have "nat (32 - n) = 32 - nat n" using assms(1,2) by linarith
  moreover have "0 \<le> push_bit (32 - nat n) (mask (nat n) :: int)" by simp
  ultimately show ?thesis
    using assms by (auto simp: cidr_to_netmask_def ip_toUnsigned_of_int push_bit_minus_1 simp del: push_bit_of_1)
qed

lemma netmask_to_cidr_shape:
  assumes "netmask_to_cidr dq = Inr c"
  shows "0 \<le> c \<and> c \<le> 32 \<and> ip_toUnsigned dq False = push_bit (32 - nat c) (mask (nat c))"
proof -
  define u where "u = ip_toUnsigned dq False"
  obtain c' v where lo: "leading_ones 0 u = (c', v)" by (cases "leading_ones 0 u")
  with assms have c: "c = c'" and v0: "v mod 4294967296 = 0"
    by (auto simp: netmask_to_cidr_def and_32_mod Let_def simp flip: u_def split: if_splits)
  from leading_ones_inv [OF lo] obtain n where
    n: "c' = int n" "v = push_bit n u" "\<And>j. j < n \<Longrightarrow> bit (push_bit j u) 31" by auto
  have n32: "n \<le> 32"
  proof (rule ccontr)
    assume "\<not> n \<le> 32"
    then have "bit (push_bit 32 u) 31" by (intro n(3)) simp
    then show False by (simp add: bit_push_bit_iff)
  qed
  have u_lt: "take_bit 32 u = u"
    using ip_toUnsigned_bounds [of dq] by (simp add: u_def take_bit_eq_mod)
  have low: "\<not> bit u i" if "i < 32 - n" for i
  proof -
    have "take_bit 32 v = 0" using v0 by (simp add: take_bit_eq_mod)
    then have "\<not> bit (take_bit 32 v) (i + n)" by simp
    with that show ?thesis by (simp add: n(2) bit_take_bit_iff bit_push_bit_iff)
  qed
  have high: "bit u i" if "32 - n \<le> i" "i < 32" for i
    using n(3) [of "31 - i"] that n32 by (simp add: bit_push_bit_iff)
  have top: "\<not> bit u i" if "32 \<le> i" for i
  proof -
    have "\<not> bit (take_bit 32 u) i" using that by (simp add: bit_take_bit_iff)
    then show ?thesis by (simp add: u_lt)
  qed
  have "u = push_bit (32 - n) (mask n)"
  proof (rule bit_eqI)
    fix i
    show "bit u i = bit (push_bit (32 - n) (mask n) :: int) i"
      using low [of i] high [of i] top [of i] n32
      by (cases "i < 32 - n"; cases "i < 32") (auto simp: bit_push_bit_iff bit_mask_iff)
  qed
  with c n n32 show ?thesis by (simp add: u_def)
qed

section \<open>Properties of Ethernet addresses\<close>

lemma digit_val_hex_digit: "0 \<le> d \<Longrightarrow> d < 16 \<Longrightarrow> digit_val (hex_digit d) = Some d"
proof -
  assume d: "0 \<le> d" "d < 16"
  then have "uint (hex_digit d) = (if d < 10 then 48 + d else 87 + d)"
    unfolding hex_digit_def uint_byte_of_int by simp
  with d show ?thesis by (simp add: digit_val_def Let_def)
qed

lemma hex_digit_plain:
  assumes "0 \<le> d" "d < 16"
  shows "\<not> is_space (hex_digit d)" "hex_digit d \<noteq> ch_dash" "hex_digit d \<noteq> ch_plus"
    "hex_digit d \<noteq> 120" "hex_digit d \<noteq> 88"
proof -
  have "d \<in> {0, 1, 2, 3, 4, 5, 6, 7, 8, 9, 10, 11, 12, 13, 14, 15}"
    using assms unfolding insert_iff empty_iff by presburger
  then show "\<not> is_space (hex_digit d)" "hex_digit d \<noteq> ch_dash" "hex_digit d \<noteq> ch_plus"
    "hex_digit d \<noteq> 120" "hex_digit d \<noteq> 88"
    by (auto simp: hex_digit_def is_space_def)
qed

lemma hex02_byte:
  "0 \<le> n \<Longrightarrow> n < 256 \<Longrightarrow> hex02 n = [hex_digit (n div 16), hex_digit (n mod 16)]"
  by (auto simp: hex02_def Let_def hex_digits.simps [of n] hex_digits.simps [of "n div 16"])
     (simp add: hex_digit_def)

lemma py_int_hex02: "0 \<le> n \<Longrightarrow> n < 256 \<Longrightarrow> py_int 16 (hex02 n) = Inr n"
  using hex_digit_plain [of "n div 16"] hex_digit_plain [of "n mod 16"]
    digit_val_hex_digit [of "n div 16"] digit_val_hex_digit [of "n mod 16"]
  by (simp add: hex02_byte py_int_def Let_def strip_spaces_def strip_0x_def)

lemma hex_pair_byte:
  "rbind (py_int 16 [hex_digit (uint b div 16), hex_digit (uint b mod 16)]) py_chr = Inr (b :: byte)"
proof -
  have "0 \<le> uint b" "uint b < 256" using uint_lt2p [of b] by simp_all
  then show ?thesis
    using py_int_hex02 [of "uint b"] by (simp add: hex02_byte py_chr_def)
qed

text \<open>
  the text \<^verbatim>\<open>EthAddr.to_str\<close> prints for a six-byte address, with either separator the
  constructor understands and no name lookup, is parsed back to the same address.
\<close>

theorem EthAddr_str_roundtrip:
  assumes "eth_wf e" "sep = ch_colon \<or> sep = ch_dash"
  shows "rbind (eth_to_str oui e [sep] False) (\<lambda>s. EthAddr_init (EthStr s)) = Inr e"
proof -
  obtain a b c d f g where e: "e = EthAddr [a, b, c, d, f, g]"
    using assms(1) by (cases e) (auto simp: eth_wf_def length_Suc_conv numeral_eq_Suc)
  define h where "h x = hex_digit (uint x div 16)" for x :: byte
  define l where "l x = hex_digit (uint x mod 16)" for x :: byte
  have h2: "hex02 (uint x) = [h x, l x]" for x :: byte
    using uint_lt2p [of x] by (simp add: hex02_byte h_def l_def)
  have hp: "rbind (py_int 16 [h x, l x]) py_chr = Inr x" for x
    by (simp add: h_def l_def hex_pair_byte)
  let ?s = "[h a, l a, sep, h b, l b, sep, h c, l c, sep, h d, l d, sep, h f, l f, sep, h g, l g]"
  have str: "eth_to_str oui e [sep] False = Inr ?s"
    by (simp add: eth_to_str_def e h2)
  have third: "every_third ?s = replicate 5 sep"
    by (simp add: every_third_def upt_rec numeral_eq_Suc)
  have digits: "concat (map (\<lambda>x. take 2 (drop (3 * x) ?s)) [0..<6]) =
      [h a, l a, h b, l b, h c, l c, h d, l d, h f, l f, h g, l g]"
    by (simp add: upt_rec numeral_eq_Suc)
  have pairs: "hex_pairs [h a, l a, h b, l b, h c, l c, h d, l d, h f, l f, h g, l g] =
      Inr [a, b, c, d, f, g]"
    by (simp add: hex_pairs_def upt_rec hp)
  show ?thesis
    using assms(2) unfolding str rbind_simps EthAddr_init_def eth_init.case
    by (auto simp: third digits pairs e simp del: concat.simps list.map)
qed

theorem EthAddr_str_roundtrip_witness:
  "rbind (eth_to_str (\<lambda>_. None) (EthAddr [2, 0, 94, 255, 16, 9]) [ch_dash] False)
     (\<lambda>s. EthAddr_init (EthStr s)) = Inr (EthAddr [2, 0, 94, 255, 16, 9])"
  by (rule EthAddr_str_roundtrip) (simp_all add: eth_wf_def)

text \<open>
  \<^verbatim>\<open>cidr_to_netmask\<close> and \<^verbatim>\<open>netmask_to_cidr\<close> are inverse to each other: every prefix
  length from 0 to 32 survives the trip through the mask, and whenever \<^verbatim>\<open>netmask_to_cidr\<close>
  accepts a mask, it returns the length whose mask has the same numeric value.
\<close>

theorem netmask_cidr_inverse:
  "(0 \<le> n \<and> n \<le> 32 \<longrightarrow> rbind (cidr_to_netmask n) netmask_to_cidr = Inr n) \<and>
   (netmask_to_cidr dq = Inr c \<longrightarrow>
      (\<exists>m. cidr_to_netmask c = Inr m \<and> ip_toUnsigned m False = ip_toUnsigned dq False))"
proof (intro conjI impI)
  assume n: "0 \<le> n \<and> n \<le> 32"
  then obtain m where m: "cidr_to_netmask n = Inr m"
    by (simp add: cidr_to_netmask_def)
  with n have u: "ip_toUnsigned m False = push_bit (32 - nat n) (mask (nat n))"
    by (intro netmask_value) simp_all
  have "leading_ones 0 (push_bit (32 - nat n) (mask (nat n))) = (n, push_bit 32 (mask (nat n)))"
    using leading_ones_mask [of 0 "nat n" 0] n by (simp add: nat_le_iff)
  moreover have "(push_bit 32 (mask (nat n)) :: int) mod 4294967296 = 0"
    by (simp add: push_bit_eq_mult)
  ultimately have "netmask_to_cidr m = Inr n"
    by (simp add: netmask_to_cidr_def u and_32_mod)
  with m show "rbind (cidr_to_netmask n) netmask_to_cidr = Inr n" by simp
next
  assume "netmask_to_cidr dq = Inr c"
  from netmask_to_cidr_shape [OF this] have c: "0 \<le> c" "c \<le> 32"
    and u: "ip_toUnsigned dq False = push_bit (32 - nat c) (mask (nat c))" by simp_all
  obtain m where m: "cidr_to_netmask c = Inr m"
    using c by (simp add: cidr_to_netmask_def)
  with c u show "\<exists>m. cidr_to_netmask c = Inr m \<and> ip_toUnsigned m False = ip_toUnsigned dq False"
    by (simp add: netmask_value)
qed

theorem netmask_cidr_inverse_witness:
  "\<exists>m m'. cidr_to_netmask 24 = Inr m \<and> netmask_to_cidr m = Inr 24 \<and>
     cidr_to_netmask 24 = Inr m' \<and> ip_toUnsigned m' False = ip_toUnsigned m False"
proof -
  obtain m where m: "cidr_to_netmask 24 = Inr m" by (simp add: cidr_to_netmask_def)
  have "netmask_to_cidr m = Inr 24"
    using netmask_cidr_inverse [of 24 m 24] m by simp
  with netmask_cidr_inverse [of 24 m 24] m show ?thesis by simp
qed

lemma cidr_check_Inr:
  "cidr_check allow_host r0 r1 = Inr (a, b) \<longleftrightarrow>
     0 \<le> r1 \<and> a = r0 \<and> b = 32 - r1 \<and>
     (allow_host \<or> ip_toUnsigned r0 False mod 2 ^ nat r1 = 0)"
  by (auto simp: cidr_check_def and_low_mask simp del: push_bit_of_1)

lemma infer_netmask_range: "infer_netmask ip \<in> {0, 8, 16, 24, 32}"
  by (simp add: infer_netmask_def Let_def)

lemma parse_cidr_via_check:
  assumes "parse_cidr inet_aton text infer allow_host = Inr r"
  shows "\<exists>addr w. w \<le> 32 \<and> cidr_check allow_host addr w = Inr r"
proof (cases "split_slash text")
  case Nil
  with assms show ?thesis by (simp add: parse_cidr_def)
next
  case (Cons a rest)
  show ?thesis
  proof (cases rest)
    case Nil
    with Cons assms obtain addr where
      "cidr_check allow_host addr 0 = Inr r \<or> cidr_check allow_host addr (32 - infer_netmask addr) = Inr r"
      by (auto simp: parse_cidr_def Let_def rbind_Inr_iff split: if_splits)
    moreover have "32 - infer_netmask addr \<le> 32" using infer_netmask_range [of addr] by auto
    ultimately show ?thesis by (metis zero_le_numeral)
  next
    case (Cons n tail)
    with \<open>split_slash text = a # rest\<close> have ss: "split_slash text = a # n # tail" by simp
    show ?thesis
    proof (cases "py_int 10 n")
      case (Inr k)
      with ss assms obtain addr where "32 - k \<le> 32" "cidr_check allow_host addr (32 - k) = Inr r"
        by (auto simp: parse_cidr_def Let_def rbind_Inr_iff split: if_splits)
      then show ?thesis by blast
    next
      case (Inl e)
      with ss assms obtain mask where
        "(let (b, m) = leading_ones 0 (ip_toUnsigned mask False) in
            if m AND 2147483647 \<noteq> 0 then Inl RuntimeError
            else let wild = 32 - b in
              if 0 \<le> wild \<and> wild \<le> 32
              then rbind (IPAddr_init inet_aton (IpStr a) False) (\<lambda>addr. cidr_check allow_host addr wild)
              else Inl AssertionError) = Inr r"
        by (auto simp: parse_cidr_def rbind_Inr_iff)
      then obtain b addr where "32 - b \<le> 32" "cidr_check allow_host addr (32 - b) = Inr r"
        by (cases "leading_ones 0 (ip_toUnsigned mask False)")
           (auto simp: Let_def rbind_Inr_iff split: if_splits)
      then show ?thesis by blast
    qed
  qed
qed

text \<open>
  C40. whenever \<^verbatim>\<open>parse_cidr\<close> returns a network, its prefix length is between 0 and 32; and
  unless host parts were allowed, the address has no host bits and lies in its own network.
  \<open>inet_aton\<close>, the C library's dotted-quad parser, is arbitrary.
\<close>

theorem parse_cidr_network:
  assumes "parse_cidr inet_aton text infer allow_host = Inr (a, b)"
  shows "0 \<le> b \<and> b \<le> 32 \<and>
    (\<not> allow_host \<longrightarrow> ip_toUnsigned a False mod 2 ^ nat (32 - b) = 0 \<and> ip_inNetwork a (a, b))"
proof -
  from parse_cidr_via_check [OF assms] obtain w where
    w: "0 \<le> w" "w \<le> 32" "b = 32 - w"
    and host: "allow_host \<or> ip_toUnsigned a False mod 2 ^ nat w = 0"
    by (auto simp: cidr_check_Inr)
  then show ?thesis by (auto simp: ip_inNetwork_iff mod_eq_0_iff_dvd)
qed

text \<open>\<^verbatim>\<open>"10.1.0.0/16"\<close>, with an \<open>inet_aton\<close> that knows that one quad.\<close>

theorem parse_cidr_network_witness:
  "\<exists>a. parse_cidr (\<lambda>s. if s = [49, 48, 46, 49, 46, 48, 46, 48] then Some [10, 1, 0, 0] else None)
         [49, 48, 46, 49, 46, 48, 46, 48, 47, 49, 54] False False = Inr (a, 16) \<and>
       ip_inNetwork a (a, 16)"
proof -
  let ?aton = "\<lambda>s :: bytes. if s = [49, 48, 46, 49, 46, 48, 46, 48] then Some [10, 1, 0, 0 :: byte] else None"
  have "parse_cidr ?aton [49, 48, 46, 49, 46, 48, 46, 48, 47, 49, 54] False False = Inr (IPAddr 266, 16)"
    by code_simp
  with parse_cidr_network [OF this] show ?thesis by auto
qed

end
