(* ===== verification/OF_Base.thy ===== *)
theory OF_Base
  imports Addresses
begin

text \<open>
  The ground floor of \<^verbatim>\<open>pox/openflow/libopenflow_01.py\<close>: the xid generator, the bounded readers
  \<^verbatim>\<open>_read\<close>, \<^verbatim>\<open>_unpack\<close>, \<^verbatim>\<open>_skip\<close>, \<^verbatim>\<open>_readzs\<close>, \<^verbatim>\<open>_readether\<close>, \<^verbatim>\<open>_readip\<close>, the constants, the message
  header, physical ports and queues. An \<^verbatim>\<open>unpack\<close> method mutates \<^verbatim>\<open>self\<close>; here it takes the
  object and returns the updated one with the new offset. An object whose \<^verbatim>\<open>unpack\<close> raised is
  not looked at again by any caller, so the partially written object is not kept.
\<close>

section \<open>XID management\<close>

definition MAX_XID :: int where "MAX_XID = 2147483647"

record xid_gen =
  xg_i :: int
  xg_start :: int
  xg_stop :: int

definition XIDGenerator :: "int \<Rightarrow> int \<Rightarrow> xid_gen" where
  "XIDGenerator start stop = \<lparr>xg_i = start, xg_start = start, xg_stop = stop\<rparr>"

text \<open>One \<^verbatim>\<open>next()\<close>: the value yielded and the generator suspended after the wrap test.\<close>

definition xid_next :: "xid_gen \<Rightarrow> int \<times> xid_gen" where
  "xid_next g =
     (let i = xg_i g + 1
      in (xg_i g, g\<lparr>xg_i := if i > xg_stop g then xg_start g else i\<rparr>))"

definition xid_generator :: xid_gen where
  "xid_generator = XIDGenerator 1 MAX_XID"

definition user_xid_generator :: xid_gen where
  "user_xid_generator = XIDGenerator 2147483648 4294967295"

section \<open>Readers\<close>

definition of_read :: "bytes \<Rightarrow> int \<Rightarrow> int \<Rightarrow> (int \<times> bytes) res" where
  "of_read data offset len =
     (if int (length data) - offset < len then Inl UnderrunError
      else Inr (offset + len, py_slice data offset (offset + len)))"

definition of_unpack :: "struct_code list \<Rightarrow> bytes \<Rightarrow> int \<Rightarrow> (int \<times> int list) res" where
  "of_unpack fmt data offset =
     (let size = int (calcsize fmt) in
      if int (length data) - offset < size then Inl UnderrunError
      else rbind (struct_unpack fmt (py_slice data offset (offset + size)))
             (\<lambda>vs. Inr (offset + size, vs)))"

text \<open>\<^verbatim>\<open>struct.unpack_from\<close> itself raises \<^verbatim>\<open>struct.error\<close> when the buffer is too short.\<close>

definition struct_unpack_from :: "struct_code list \<Rightarrow> bytes \<Rightarrow> int \<Rightarrow> int list res" where
  "struct_unpack_from fmt data offset =
     struct_unpack fmt (py_slice data offset (offset + int (calcsize fmt)))"

definition of_skip :: "bytes \<Rightarrow> int \<Rightarrow> int \<Rightarrow> int res" where
  "of_skip data offset num =
     (let offset = offset + num
      in if offset > int (length data) then Inl UnderrunError else Inr offset)"

definition of_unpad :: "bytes \<Rightarrow> int \<Rightarrow> int \<Rightarrow> int res" where
  "of_unpad data offset num =
     rbind (of_read data offset num) (\<lambda>(offset, o').
       if list_all (\<lambda>b. b = 0) o' then Inr offset else Inl AssertionError)"

text \<open>\<^verbatim>\<open>d.split('\x00', 1)\<close>: what stands before the first zero byte; the rest must be zero.\<close>

definition of_readzs :: "bytes \<Rightarrow> int \<Rightarrow> int \<Rightarrow> (int \<times> bytes) res" where
  "of_readzs data offset len =
     rbind (of_read data offset len) (\<lambda>(offset, d).
       if list_all (\<lambda>b. b = 0) (dropWhile (\<lambda>b. b \<noteq> 0) d)
       then Inr (offset, takeWhile (\<lambda>b. b \<noteq> 0) d)
       else Inl AssertionError)"

definition of_readether :: "bytes \<Rightarrow> int \<Rightarrow> (int \<times> EthAddr) res" where
  "of_readether data offset =
     rbind (of_read data offset 6) (\<lambda>(offset, d).
     rbind (EthAddr_init (EthStr d)) (\<lambda>e. Inr (offset, e)))"

text \<open>Four bytes never reach \<open>inet_aton\<close>: a string of length 4 is read as it is.\<close>

definition of_readip :: "bytes \<Rightarrow> int \<Rightarrow> (int \<times> IPAddr) res" where
  "of_readip data offset =
     rbind (of_read data offset 4) (\<lambda>(offset, d).
     rbind (IPAddr_init (\<lambda>_. None) (IpStr d) True) (\<lambda>ip. Inr (offset, ip)))"

definition pad :: "nat \<Rightarrow> bytes" where
  "pad n = replicate n 0"

lemma length_pad [simp]: "length (pad n) = n"
  by (simp add: pad_def)

subsection \<open>The readers read what stands at the offset\<close>

lemma of_unpack_chunk [codec_simps]:
  "chunk raw off (struct_bytes fmt vs) \<Longrightarrow> list_all2 code_range fmt vs \<Longrightarrow>
   of_unpack fmt raw off = Inr (off + int (calcsize fmt), vs)"
  using chunk_avail [of raw off "struct_bytes fmt vs"]
  by (simp add: of_unpack_def Let_def chunk_slice length_struct_bytes list_all2_lengthD
        struct_unpack_def struct_ints_bytes)

lemma of_read_chunk:
  "chunk raw off bs \<Longrightarrow> n = int (length bs) \<Longrightarrow> of_read raw off n = Inr (off + n, bs)"
  using chunk_avail [of raw off bs] by (simp add: of_read_def chunk_slice)

lemma of_skip_chunk:
  "chunk raw off bs \<Longrightarrow> n = int (length bs) \<Longrightarrow> of_skip raw off n = Inr (off + n)"
  using chunk_avail [of raw off bs] by (simp add: of_skip_def Let_def)

lemma of_skip_pad [codec_simps]:
  "chunk raw off (pad k) \<Longrightarrow> n = int k \<Longrightarrow> of_skip raw off n = Inr (off + n)"
  by (rule of_skip_chunk [of raw off "pad k"]) simp_all

lemma of_unpad_pad:
  "chunk raw off (pad k) \<Longrightarrow> n = int k \<Longrightarrow> of_unpad raw off n = Inr (off + n)"
  by (simp add: of_unpad_def of_read_chunk [of raw off "pad k"] list_all_iff pad_def)

definition zs_ok :: "nat \<Rightarrow> bytes \<Rightarrow> bool" where
  "zs_ok n s \<longleftrightarrow> length s \<le> n \<and> 0 \<notin> set s"

lemma of_readzs_chunk [codec_simps]:
  "chunk raw off (ljust0 s k) \<Longrightarrow> zs_ok k s \<Longrightarrow> n = int k \<Longrightarrow> of_readzs raw off n = Inr (off + n, s)"
proof -
  assume c: "chunk raw off (ljust0 s k)" and ok: "zs_ok k s" and n: "n = int k"
  let ?z = "replicate (k - length s) (0 :: byte)"
  have nz: "x \<noteq> 0" if "x \<in> set s" for x
    using ok that by (metis zs_ok_def)
  have tz: "takeWhile (\<lambda>b. b \<noteq> 0) ?z = []" and dz: "dropWhile (\<lambda>b. b \<noteq> 0) ?z = ?z"
    by (cases "k - length s"; simp)+
  have tw: "takeWhile (\<lambda>b. b \<noteq> 0) (s @ ?z) = s"
    by (subst takeWhile_append2) (fact nz, simp only: tz append_Nil2)
  have dw: "dropWhile (\<lambda>b. b \<noteq> 0) (s @ ?z) = ?z"
    by (subst dropWhile_append2) (fact nz, fact dz)
  have "of_read raw off n = Inr (off + n, s @ ?z)"
  proof -
    have "length s \<le> k" using ok by (simp only: zs_ok_def)
    then have "n = int (length (ljust0 s k))" using n by (simp add: max_def)
    from of_read_chunk [OF c this] show ?thesis by (simp only: ljust0_def)
  qed
  then show ?thesis by (simp add: of_readzs_def tw dw list_all_iff)
qed

lemma of_readether_chunk [codec_simps]:
  "chunk raw off (eth_toRaw e) \<Longrightarrow> eth_wf e \<Longrightarrow> of_readether raw off = Inr (off + 6, e)"
  by (cases e) (simp add: of_readether_def of_read_chunk [of raw off "eth_toRaw e"] eth_toRaw_def
      eth_wf_def EthAddr_init_def)

lemma of_readip_chunk [codec_simps]:
  "chunk raw off (ip_raw ip) \<Longrightarrow> ip_wf ip \<Longrightarrow> of_readip raw off = Inr (off + 4, ip)"
  by (cases ip) (simp add: of_readip_def of_read_chunk [of raw off "ip_raw ip"] IPAddr_init_def
      unpack_native_raw)

lemma struct_bytes_length [simp]:
  "list_all2 code_range fmt vs \<Longrightarrow> length (struct_bytes fmt vs) = calcsize fmt"
  by (simp add: length_struct_bytes list_all2_lengthD)

lemma length_eth_toRaw [simp]: "eth_wf e \<Longrightarrow> length (eth_toRaw e) = 6"
  by (simp add: eth_wf_def eth_toRaw_def)

section \<open>Tuple assignment\<close>

text \<open>Python's tuple assignment from \<^verbatim>\<open>struct.unpack\<close>: it raises unless the number of values is right.\<close>

definition tup1 :: "int list \<Rightarrow> (int \<Rightarrow> 'a res) \<Rightarrow> 'a res" where
  "tup1 vs f = (case vs of [v_a] \<Rightarrow> f v_a | _ \<Rightarrow> Inl ValueError)"
definition tup2 :: "int list \<Rightarrow> (int \<Rightarrow> int \<Rightarrow> 'a res) \<Rightarrow> 'a res" where
  "tup2 vs f = (case vs of [v_a, v_b] \<Rightarrow> f v_a v_b | _ \<Rightarrow> Inl ValueError)"
definition tup3 :: "int list \<Rightarrow> (int \<Rightarrow> int \<Rightarrow> int \<Rightarrow> 'a res) \<Rightarrow> 'a res" where
  "tup3 vs f = (case vs of [v_a, v_b, v_c] \<Rightarrow> f v_a v_b v_c | _ \<Rightarrow> Inl ValueError)"
definition tup4 :: "int list \<Rightarrow> (int \<Rightarrow> int \<Rightarrow> int \<Rightarrow> int \<Rightarrow> 'a res) \<Rightarrow> 'a res" where
  "tup4 vs f = (case vs of [v_a, v_b, v_c, v_d] \<Rightarrow> f v_a v_b v_c v_d | _ \<Rightarrow> Inl ValueError)"
definition tup5 :: "int list \<Rightarrow> (int \<Rightarrow> int \<Rightarrow> int \<Rightarrow> int \<Rightarrow> int \<Rightarrow> 'a res) \<Rightarrow> 'a res" where
  "tup5 vs f = (case vs of [v_a, v_b, v_c, v_d, v_e] \<Rightarrow> f v_a v_b v_c v_d v_e | _ \<Rightarrow> Inl ValueError)"
definition tup6 :: "int list \<Rightarrow> (int \<Rightarrow> int \<Rightarrow> int \<Rightarrow> int \<Rightarrow> int \<Rightarrow> int \<Rightarrow> 'a res) \<Rightarrow> 'a res" where
  "tup6 vs f = (case vs of [v_a, v_b, v_c, v_d, v_e, v_f] \<Rightarrow> f v_a v_b v_c v_d v_e v_f | _ \<Rightarrow> Inl ValueError)"
definition tup8 :: "int list \<Rightarrow> (int \<Rightarrow> int \<Rightarrow> int \<Rightarrow> int \<Rightarrow> int \<Rightarrow> int \<Rightarrow> int \<Rightarrow> int \<Rightarrow> 'a res) \<Rightarrow> 'a res" where
  "tup8 vs f = (case vs of [v_a, v_b, v_c, v_d, v_e, v_f, v_g, v_h] \<Rightarrow> f v_a v_b v_c v_d v_e v_f v_g v_h | _ \<Rightarrow> Inl ValueError)"
definition tup9 :: "int list \<Rightarrow> (int \<Rightarrow> int \<Rightarrow> int \<Rightarrow> int \<Rightarrow> int \<Rightarrow> int \<Rightarrow> int \<Rightarrow> int \<Rightarrow> int \<Rightarrow> 'a res) \<Rightarrow> 'a res" where
  "tup9 vs f = (case vs of [v_a, v_b, v_c, v_d, v_e, v_f, v_g, v_h, v_i] \<Rightarrow> f v_a v_b v_c v_d v_e v_f v_g v_h v_i | _ \<Rightarrow> Inl ValueError)"
definition tup10 :: "int list \<Rightarrow> (int \<Rightarrow> int \<Rightarrow> int \<Rightarrow> int \<Rightarrow> int \<Rightarrow> int \<Rightarrow> int \<Rightarrow> int \<Rightarrow> int \<Rightarrow> int \<Rightarrow> 'a res) \<Rightarrow> 'a res" where
  "tup10 vs f = (case vs of [v_a, v_b, v_c, v_d, v_e, v_f, v_g, v_h, v_i, v_j] \<Rightarrow> f v_a v_b v_c v_d v_e v_f v_g v_h v_i v_j | _ \<Rightarrow> Inl ValueError)"
definition tup12 :: "int list \<Rightarrow> (int \<Rightarrow> int \<Rightarrow> int \<Rightarrow> int \<Rightarrow> int \<Rightarrow> int \<Rightarrow> int \<Rightarrow> int \<Rightarrow> int \<Rightarrow> int \<Rightarrow> int \<Rightarrow> int \<Rightarrow> 'a res) \<Rightarrow> 'a res" where
  "tup12 vs f = (case vs of [v_a, v_b, v_c, v_d, v_e, v_f, v_g, v_h, v_i, v_j, v_k, v_l] \<Rightarrow> f v_a v_b v_c v_d v_e v_f v_g v_h v_i v_j v_k v_l | _ \<Rightarrow> Inl ValueError)"

lemma tup_simps [simp]:
  "tup1 [v_a] f1 = f1 v_a"
  "tup2 [v_a, v_b] f2 = f2 v_a v_b"
  "tup3 [v_a, v_b, v_c] f3 = f3 v_a v_b v_c"
  "tup4 [v_a, v_b, v_c, v_d] f4 = f4 v_a v_b v_c v_d"
  "tup5 [v_a, v_b, v_c, v_d, v_e] f5 = f5 v_a v_b v_c v_d v_e"
  "tup6 [v_a, v_b, v_c, v_d, v_e, v_f] f6 = f6 v_a v_b v_c v_d v_e v_f"
  "tup8 [v_a, v_b, v_c, v_d, v_e, v_f, v_g, v_h] f8 = f8 v_a v_b v_c v_d v_e v_f v_g v_h"
  "tup9 [v_a, v_b, v_c, v_d, v_e, v_f, v_g, v_h, v_i] f9 = f9 v_a v_b v_c v_d v_e v_f v_g v_h v_i"
  "tup10 [v_a, v_b, v_c, v_d, v_e, v_f, v_g, v_h, v_i, v_j] f10 = f10 v_a v_b v_c v_d v_e v_f v_g v_h v_i v_j"
  "tup12 [v_a, v_b, v_c, v_d, v_e, v_f, v_g, v_h, v_i, v_j, v_k, v_l] f12 = f12 v_a v_b v_c v_d v_e v_f v_g v_h v_i v_j v_k v_l"
  by (simp_all add: tup1_def tup2_def tup3_def tup4_def tup5_def tup6_def tup8_def tup9_def tup10_def tup12_def)

lemma tup_Inr_iff:
  "tup1 vs f1 = Inr y \<longleftrightarrow> (\<exists>v_a. vs = [v_a] \<and> f1 v_a = Inr y)"
  "tup2 vs f2 = Inr y \<longleftrightarrow> (\<exists>v_a v_b. vs = [v_a, v_b] \<and> f2 v_a v_b = Inr y)"
  "tup3 vs f3 = Inr y \<longleftrightarrow> (\<exists>v_a v_b v_c. vs = [v_a, v_b, v_c] \<and> f3 v_a v_b v_c = Inr y)"
  "tup4 vs f4 = Inr y \<longleftrightarrow> (\<exists>v_a v_b v_c v_d. vs = [v_a, v_b, v_c, v_d] \<and> f4 v_a v_b v_c v_d = Inr y)"
  "tup5 vs f5 = Inr y \<longleftrightarrow> (\<exists>v_a v_b v_c v_d v_e. vs = [v_a, v_b, v_c, v_d, v_e] \<and> f5 v_a v_b v_c v_d v_e = Inr y)"
  "tup9 vs f9 = Inr y \<longleftrightarrow> (\<exists>v_a v_b v_c v_d v_e v_f v_g v_h v_i. vs = [v_a, v_b, v_c, v_d, v_e, v_f, v_g, v_h, v_i] \<and> f9 v_a v_b v_c v_d v_e v_f v_g v_h v_i = Inr y)"
  "tup10 vs f10 = Inr y \<longleftrightarrow> (\<exists>v_a v_b v_c v_d v_e v_f v_g v_h v_i v_j. vs = [v_a, v_b, v_c, v_d, v_e, v_f, v_g, v_h, v_i, v_j] \<and> f10 v_a v_b v_c v_d v_e v_f v_g v_h v_i v_j = Inr y)"
  by (auto simp: tup1_def tup2_def tup3_def tup4_def tup5_def tup9_def tup10_def split: list.splits)

text \<open>A field whose default is None: \<^verbatim>\<open>struct.pack\<close> refuses it.\<close>

definition need :: "'a option \<Rightarrow> 'a res" where
  "need x = (case x of None \<Rightarrow> Inl StructError | Some v \<Rightarrow> Inr v)"

lemma need_Inr_iff [codec_dest]: "need x = Inr v \<longleftrightarrow> x = Some v"
  by (simp add: need_def split: option.splits)

section \<open>Lists of typed, length-prefixed items\<close>

text \<open>
  Actions and queue properties are read by the same kind of loop: read a type and a length,
  look the class up, unpack a fresh object from a slice of that length, insist that the object
  is that long, go on behind it. \<open>loop\<close> is such a loop (\<open>loop_unfold\<close>), and \<open>pk_tlv\<close> is the law
  of the items: what \<open>pk\<close> writes starts with a type and its own length, and is read back.
\<close>

locale tlv =
  fixes pk :: "'a \<Rightarrow> (bytes \<times> 'a) res"
    and upk :: "int \<Rightarrow> bytes \<Rightarrow> ('a \<times> int) res"
    and len_of :: "'a \<Rightarrow> int res"
    and loop :: "bytes \<Rightarrow> int \<Rightarrow> int \<Rightarrow> (int \<times> 'a list) res"
    and wf :: "'a \<Rightarrow> bool"
  assumes loop_unfold:
    "loop b stop offset =
       (if offset < stop then
          rbind (struct_unpack_from [FH, FH] b offset) (\<lambda>vs. tup2 vs (\<lambda>t l.
          if int (length b) - offset < l then Inl UnderrunError else
          rbind (upk t (py_slice b offset (offset + l))) (\<lambda>(a, _).
          rbind (len_of a) (\<lambda>n. if n \<noteq> l then Inl AssertionError else
          rbind (loop b stop (offset + l)) (\<lambda>(offset, xs). Inr (offset, a # xs))))))
        else Inr (offset, []))"
  and pk_tlv:
    "wf x \<Longrightarrow> pk x = Inr (bs, x') \<Longrightarrow>
     \<exists>t e. 4 \<le> length bs \<and> struct_ints [FH, FH] (take 4 bs) = [t, int (length bs)] \<and>
       upk t bs = Inr (x', e) \<and> len_of x' = Inr (int (length bs))"
begin

lemma loop_pack_list:
  "list_all wf xs \<Longrightarrow> pack_list pk xs = Inr (bs, xs') \<Longrightarrow> chunk raw off bs \<Longrightarrow>
   loop raw (off + int (length bs)) off = Inr (off + int (length bs), xs')"
proof (induction xs arbitrary: bs xs' off)
  case Nil
  then show ?case by (simp add: loop_unfold)
next
  case (Cons x xs)
  then obtain b x1 bs1 xs1 where p: "pk x = Inr (b, x1)" "pack_list pk xs = Inr (bs1, xs1)"
    and eq: "bs = b @ bs1" "xs' = x1 # xs1" and wf: "wf x" "list_all wf xs"
    by (auto simp: rbind_Inr_iff)
  then obtain t e where t: "4 \<le> length b" "struct_ints [FH, FH] (take 4 b) = [t, int (length b)]"
    "upk t b = Inr (x1, e)" "len_of x1 = Inr (int (length b))"
    using pk_tlv by meson
  have c: "chunk raw off b" "chunk raw (off + int (length b)) bs1"
    using Cons.prems(3) by (simp_all add: eq chunk_append)
  have "chunk raw off (take 4 b)"
    using c(1) chunk_append [of raw off "take 4 b" "drop 4 b"] by simp
  with t have h: "struct_unpack_from [FH, FH] raw off = Inr [t, int (length b)]"
    by (simp add: struct_unpack_from_def struct_unpack_def chunk_slice)
  have "loop raw (off + int (length b) + int (length bs1)) (off + int (length b)) =
      Inr (off + int (length b) + int (length bs1), xs1)"
    by (rule Cons.IH) (use wf p c in auto)
  with t h c chunk_avail [OF c(1)] show ?case
    by (subst loop_unfold) (simp add: eq chunk_slice add.assoc)
qed

end

lemma struct_head:
  "code_range FH t \<Longrightarrow> code_range FH l \<Longrightarrow>
   struct_ints [FH, FH] (take 4 (struct_bytes (FH # FH # fs) (t # l # vs) @ rest)) = [t, l]"
  using code_decode_encode [of FH t] code_decode_encode [of FH l]
  by (simp add: struct_bytes.simps)

section \<open>Constants\<close>

definition OFP_VERSION :: int where "OFP_VERSION = 1"
definition OFP_MAX_PORT_NAME_LEN :: nat where "OFP_MAX_PORT_NAME_LEN = 16"
definition OFP_MAX_TABLE_NAME_LEN :: nat where "OFP_MAX_TABLE_NAME_LEN = 32"
definition DESC_STR_LEN :: nat where "DESC_STR_LEN = 256"
definition SERIAL_NUM_LEN :: nat where "SERIAL_NUM_LEN = 32"
definition OFP_DEFAULT_MISS_SEND_LEN :: int where "OFP_DEFAULT_MISS_SEND_LEN = 128"
definition OFP_DEFAULT_PRIORITY :: int where "OFP_DEFAULT_PRIORITY = 32768"
definition NO_BUFFER :: int where "NO_BUFFER = 4294967295"

lemmas of_const_defs [codec_simps] =
  OFP_VERSION_def OFP_MAX_PORT_NAME_LEN_def OFP_MAX_TABLE_NAME_LEN_def DESC_STR_LEN_def SERIAL_NUM_LEN_def

section \<open>The message header\<close>

record ofp_header =
  hdr_version :: int
  hdr_type :: int
  hdr_xid :: "int option"

text \<open>The message types the class decorators register in \<^verbatim>\<open>ofp_type_map\<close>.\<close>

definition ofp_type_map :: "int list" where
  "ofp_type_map = [0, 1, 2, 3, 4, 5, 6, 7, 8, 9, 10, 11, 12, 13, 14, 15, 16, 17, 18, 19, 20, 21]"

definition ofp_header_validate :: "'a ofp_header_scheme \<Rightarrow> bool" where
  "ofp_header_validate self \<longleftrightarrow> hdr_type self \<in> set ofp_type_map"

text \<open>The \<^verbatim>\<open>xid\<close> property: the first read draws a number from the generator.\<close>

definition ofp_header_xid ::
  "xid_gen \<Rightarrow> 'a ofp_header_scheme \<Rightarrow> int \<times> 'a ofp_header_scheme \<times> xid_gen" where
  "ofp_header_xid g self =
     (case hdr_xid self of
        Some x \<Rightarrow> (x, self, g)
      | None \<Rightarrow> let (x, g) = xid_next g in (x, self\<lparr>hdr_xid := Some x\<rparr>, g))"

text \<open>
  \<open>valid\<close> is the result of the object's own \<^verbatim>\<open>_validate\<close> (subclasses override it), \<open>len\<close> its
  \<^verbatim>\<open>len(self)\<close>.
\<close>

definition ofp_header_pack ::
  "bool \<Rightarrow> int \<Rightarrow> xid_gen \<Rightarrow> 'a ofp_header_scheme \<Rightarrow> (bytes \<times> 'a ofp_header_scheme \<times> xid_gen) res"
where
  "ofp_header_pack valid len g self =
     (if \<not> valid then Inl RuntimeError
      else let (x, self, g) = ofp_header_xid g self in
        rbind (struct_pack [FB, FB, FH, FL] [hdr_version self, hdr_type self, len, x])
          (\<lambda>packed. Inr (packed, self, g)))"

definition ofp_unpack_header ::
  "'a ofp_header_scheme \<Rightarrow> bytes \<Rightarrow> int \<Rightarrow> ('a ofp_header_scheme \<times> int \<times> int) res" where
  "ofp_unpack_header self raw offset =
     rbind (of_unpack [FB, FB, FH, FL] raw offset) (\<lambda>(offset, vs).
       case vs of
         [v, t, len, x] \<Rightarrow>
           Inr (self\<lparr>hdr_version := v, hdr_type := t, hdr_xid := Some x\<rparr>, offset, len)
       | _ \<Rightarrow> Inl ValueError)"

text \<open>
  \<^verbatim>\<open>__eq__\<close>: reading the two \<^verbatim>\<open>xid\<close> properties may draw numbers, so the compared objects and the
  generator come back.
\<close>

definition ofp_header_eq ::
  "int \<Rightarrow> int \<Rightarrow> xid_gen \<Rightarrow> 'a ofp_header_scheme \<Rightarrow> 'a ofp_header_scheme \<Rightarrow>
   bool \<times> 'a ofp_header_scheme \<times> 'a ofp_header_scheme \<times> xid_gen"
where
  "ofp_header_eq len_a len_b g a b =
     (if hdr_version a \<noteq> hdr_version b \<or> hdr_type a \<noteq> hdr_type b \<or> len_a \<noteq> len_b then (False, a, b, g)
      else let (x, a, g) = ofp_header_xid g a; (y, b, g) = ofp_header_xid g b
           in (x = y, a, b, g))"

text \<open>\<^verbatim>\<open>ofp_base.unpack_new\<close>: a fresh object, \<^verbatim>\<open>unpack\<close>, and the length must be what was consumed.\<close>

definition unpack_new ::
  "'m \<Rightarrow> ('m \<Rightarrow> bytes \<Rightarrow> int \<Rightarrow> ('m \<times> int \<times> int) res) \<Rightarrow> bytes \<Rightarrow> int \<Rightarrow> (int \<times> 'm) res" where
  "unpack_new fresh upk raw offset =
     rbind (upk fresh raw offset) (\<lambda>(obj, r, len).
       if r - offset = len then Inr (r, obj) else Inl AssertionError)"

lemma ofp_header_pack_Inr [codec_dest]:
  "ofp_header_pack valid len g self = Inr (b, self', g') \<longleftrightarrow>
     (\<exists>x. valid \<and> ofp_header_xid g self = (x, self', g') \<and>
       list_all2 code_range [FB, FB, FH, FL] [hdr_version self', hdr_type self', len, x] \<and>
       b = struct_bytes [FB, FB, FH, FL] [hdr_version self', hdr_type self', len, x])"
  by (auto simp: ofp_header_pack_def rbind_Inr_iff struct_pack_Inr_iff split: prod.splits)

lemma ofp_header_xid_eq:
  "ofp_header_xid g self = (x, self', g') \<Longrightarrow> self' = self\<lparr>hdr_xid := Some x\<rparr>"
  by (cases "hdr_xid self") (auto simp: ofp_header_xid_def split: prod.splits)

end
