(* ===== verification/OF_Structs.thy ===== *)
theory OF_Structs
  imports OF_Base
begin

text \<open>
  The common structures of \<^verbatim>\<open>libopenflow_01.py\<close>: physical ports, packet queues and queue
  properties. A port offers the \<open>codec\<close> interface to the messages that hold ports, queue
  properties the \<open>tlv\<close> interface to the queue.
\<close>

section \<open>Physical ports\<close>

record ofp_phy_port =
  pp_port_no :: int
  pp_hw_addr :: EthAddr
  pp_name :: bytes
  pp_config :: int
  pp_state :: int
  pp_curr :: int
  pp_advertised :: int
  pp_supported :: int
  pp_peer :: int

definition ofp_phy_port_init :: ofp_phy_port where
  "ofp_phy_port_init = \<lparr>pp_port_no = 0, pp_hw_addr = EMPTY_ETH, pp_name = [], pp_config = 0, pp_state = 0, pp_curr =
      0, pp_advertised = 0, pp_supported = 0, pp_peer = 0\<rparr>"

text \<open>The name of a port is a byte string of at most sixteen bytes; the address is an object.\<close>

definition ofp_phy_port_validate :: "ofp_phy_port \<Rightarrow> bool" where
  "ofp_phy_port_validate self \<longleftrightarrow> length (pp_name self) \<le> OFP_MAX_PORT_NAME_LEN"

definition ofp_phy_port_len :: "ofp_phy_port \<Rightarrow> int" where
  "ofp_phy_port_len self = 48"

definition ofp_phy_port_pack :: "ofp_phy_port \<Rightarrow> bytes res" where
  "ofp_phy_port_pack self =
     (if \<not> ofp_phy_port_validate self then Inl RuntimeError else
     rbind (struct_pack [FH] [pp_port_no self]) (\<lambda>p1.
     rbind (struct_pack [FL, FL, FL, FL, FL, FL] [pp_config self, pp_state self, pp_curr self,
       pp_advertised self, pp_supported self, pp_peer self]) (\<lambda>p2.
       Inr (p1 @ eth_toRaw (pp_hw_addr self) @ ljust0 (pp_name self) OFP_MAX_PORT_NAME_LEN @ p2))))"

definition ofp_phy_port_unpack :: "ofp_phy_port \<Rightarrow> bytes \<Rightarrow> int \<Rightarrow> (ofp_phy_port \<times> int) res" where
  "ofp_phy_port_unpack self raw offset0 =
     rbind (of_unpack [FH] raw offset0) (\<lambda>(offset, vs). tup1 vs (\<lambda>port_no.
     rbind (of_readether raw offset) (\<lambda>(offset, hw_addr).
     rbind (of_readzs raw offset (int OFP_MAX_PORT_NAME_LEN)) (\<lambda>(offset, name).
     rbind (of_unpack [FL, FL, FL, FL, FL, FL] raw offset) (\<lambda>(offset, vs). tup6 vs
       (\<lambda>config state curr advertised supported peer.
       let self = self\<lparr>pp_port_no := port_no, pp_hw_addr := hw_addr, pp_name := name, pp_config := config,
            pp_state := state, pp_curr := curr, pp_advertised := advertised, pp_supported :=
            supported, pp_peer := peer\<rparr>
       in if offset - offset0 = ofp_phy_port_len self then Inr (self, offset) else Inl AssertionError))))))"

definition ofp_phy_port_eq :: "ofp_phy_port \<Rightarrow> ofp_phy_port \<Rightarrow> bool" where
  "ofp_phy_port_eq a b \<longleftrightarrow>
     pp_port_no a = pp_port_no b \<and> pp_hw_addr a = pp_hw_addr b \<and> pp_name a = pp_name b \<and> pp_config a
     = pp_config b \<and> pp_state a = pp_state b \<and> pp_curr a = pp_curr b \<and> pp_advertised a =
     pp_advertised b \<and> pp_supported a = pp_supported b \<and> pp_peer a = pp_peer b"

text \<open>
  \<^verbatim>\<open>set_config\<close> returns the bits that changed. The new bits are or-ed in as they are, not limited
  to the mask; \<^verbatim>\<open>enable_config\<close> passes all ones.
\<close>

definition phy_port_set_config :: "int \<Rightarrow> int \<Rightarrow> ofp_phy_port \<Rightarrow> int \<times> ofp_phy_port" where
  "phy_port_set_config config msk self =
     (let old = pp_config self;
          self = self\<lparr>pp_config := pp_config self AND NOT msk\<rparr>;
          self = self\<lparr>pp_config := pp_config self OR config\<rparr>
      in (old XOR pp_config self, self))"

definition phy_port_enable_config :: "int \<Rightarrow> ofp_phy_port \<Rightarrow> int \<times> ofp_phy_port" where
  "phy_port_enable_config msk self = phy_port_set_config 4294967295 msk self"

definition phy_port_disable_config :: "int \<Rightarrow> ofp_phy_port \<Rightarrow> int \<times> ofp_phy_port" where
  "phy_port_disable_config msk self = phy_port_set_config 0 msk self"

lemma ofp_phy_port_unpack_pack [codec_simps]:
  "ofp_phy_port_pack self = Inr bs \<Longrightarrow> eth_wf (pp_hw_addr self) \<Longrightarrow> 0 \<notin> set (pp_name self) \<Longrightarrow>
   chunk raw off bs \<Longrightarrow> ofp_phy_port_unpack fresh raw off = Inr (self, off + 48)"
  by (clarsimp simp: ofp_phy_port_pack_def codec_dest elim!: rbindE split: if_splits)
    (simp add: ofp_phy_port_unpack_def ofp_phy_port_len_def ofp_phy_port_validate_def zs_ok_def codec_simps
      max_def)

lemma ofp_phy_port_pack_length:
  "ofp_phy_port_pack self = Inr bs \<Longrightarrow> eth_wf (pp_hw_addr self) \<Longrightarrow> length bs = 48"
  by (auto simp: ofp_phy_port_pack_def ofp_phy_port_validate_def OFP_MAX_PORT_NAME_LEN_def codec_dest
      elim!: rbindE split: if_splits)

text \<open>A port as an item of a list.\<close>

definition phy_port_pk :: "ofp_phy_port \<Rightarrow> (bytes \<times> ofp_phy_port) res" where
  "phy_port_pk p = rbind (ofp_phy_port_pack p) (\<lambda>bs. Inr (bs, p))"

definition phy_port_wf :: "ofp_phy_port \<Rightarrow> bool" where
  "phy_port_wf p \<longleftrightarrow> eth_wf (pp_hw_addr p) \<and> 0 \<notin> set (pp_name p)"

interpretation ports: codec phy_port_pk "ofp_phy_port_unpack ofp_phy_port_init" phy_port_wf
proof
  fix x bs x' raw off
  assume "phy_port_wf x" "phy_port_pk x = Inr (bs, x')" "chunk raw off bs"
  then show "ofp_phy_port_unpack ofp_phy_port_init raw off = Inr (x', off + int (length bs))"
    using ofp_phy_port_pack_length [of x bs] ofp_phy_port_unpack_pack [of x bs raw off]
    by (auto simp: phy_port_pk_def phy_port_wf_def elim!: rbindE)
qed

lemma ports_pack:
  "pack_list phy_port_pk xs = Inr (bs, xs') \<Longrightarrow> list_all phy_port_wf xs \<Longrightarrow>
   xs' = xs \<and> length bs = 48 * length xs"
  by (induction xs arbitrary: bs xs')
    (auto simp: phy_port_pk_def phy_port_wf_def dest!: ofp_phy_port_pack_length elim!: rbindE)

lemma ports_unpack_pack [codec_simps]:
  "pack_list phy_port_pk xs = Inr (bs, xs') \<Longrightarrow> list_all phy_port_wf xs \<Longrightarrow> chunk raw off bs \<Longrightarrow>
   n = length xs \<Longrightarrow>
   unpack_n (ofp_phy_port_unpack ofp_phy_port_init) n raw off = Inr (xs, off + 48 * int n)"
  using ports.unpack_n_pack_list [of xs bs xs' raw off] ports_pack [of xs bs xs'] by auto

section \<open>Queues\<close>

text \<open>
  The generic property (and the empty one, its subclass): its \<^verbatim>\<open>__len__\<close> is declared static but
  reads \<^verbatim>\<open>self\<close>, so taking its length raises NameError, in \<^verbatim>\<open>pack\<close> and \<^verbatim>\<open>unpack\<close> too.
\<close>

record ofp_queue_prop_generic =
  qg_property :: "int option"
  qg_data :: bytes

definition ofp_queue_prop_generic_init :: ofp_queue_prop_generic where
  "ofp_queue_prop_generic_init = \<lparr>qg_property = None, qg_data = pad 4\<rparr>"

definition ofp_queue_prop_generic_len :: "ofp_queue_prop_generic \<Rightarrow> int res" where
  "ofp_queue_prop_generic_len self = Inl NameError"

definition ofp_queue_prop_generic_pack :: "ofp_queue_prop_generic \<Rightarrow> bytes res" where
  "ofp_queue_prop_generic_pack self =
     rbind (ofp_queue_prop_generic_len self) (\<lambda>len.
     rbind (need (qg_property self)) (\<lambda>property.
     rbind (struct_pack [FH, FH] [property, len]) (\<lambda>p1.
       Inr (p1 @ qg_data self))))"

definition ofp_queue_prop_generic_unpack ::
  "ofp_queue_prop_generic \<Rightarrow> bytes \<Rightarrow> int \<Rightarrow> (ofp_queue_prop_generic \<times> int) res"
where
  "ofp_queue_prop_generic_unpack self raw offset0 =
     rbind (of_unpack [FH, FH] raw offset0) (\<lambda>(offset, vs). tup2 vs (\<lambda>property len.
     rbind (of_read raw offset (len - 4)) (\<lambda>(offset, data).
       let self = self\<lparr>qg_property := Some property, qg_data := data\<rparr> in
       rbind (ofp_queue_prop_generic_len self) (\<lambda>n.
         if offset - offset0 = n then Inr (self, offset) else Inl AssertionError))))"

text \<open>\<^verbatim>\<open>__eq__\<close>: a difference of the property numbers is seen before the length is taken.\<close>

definition ofp_queue_prop_generic_eq ::
  "ofp_queue_prop_generic \<Rightarrow> ofp_queue_prop_generic \<Rightarrow> bool res"
where
  "ofp_queue_prop_generic_eq a b =
     (if qg_property a \<noteq> qg_property b then Inr False
      else rbind (ofp_queue_prop_generic_len a) (\<lambda>m. rbind (ofp_queue_prop_generic_len b) (\<lambda>n.
        Inr (m = n \<and> qg_data a = qg_data b))))"

record ofp_queue_prop_min_rate =
  qm_property :: int
  qm_rate :: int

definition ofp_queue_prop_min_rate_init :: ofp_queue_prop_min_rate where
  "ofp_queue_prop_min_rate_init = \<lparr>qm_property = 1, qm_rate = 0\<rparr>"

definition ofp_queue_prop_min_rate_len :: "ofp_queue_prop_min_rate \<Rightarrow> int" where
  "ofp_queue_prop_min_rate_len self = 16"

definition ofp_queue_prop_min_rate_pack :: "ofp_queue_prop_min_rate \<Rightarrow> bytes res" where
  "ofp_queue_prop_min_rate_pack self =
     rbind (struct_pack [FH, FH] [qm_property self, ofp_queue_prop_min_rate_len self])
       (\<lambda>p1.
     rbind (struct_pack [FH] [qm_rate self]) (\<lambda>p2.
       Inr (p1 @ pad 4 @ p2 @ pad 6)))"

definition ofp_queue_prop_min_rate_unpack :: "ofp_queue_prop_min_rate \<Rightarrow> bytes \<Rightarrow> int \<Rightarrow> (ofp_queue_prop_min_rate \<times> int) res" where
  "ofp_queue_prop_min_rate_unpack self raw offset0 =
     rbind (of_unpack [FH, FH, FL] raw offset0) (\<lambda>(offset, vs). tup3 vs (\<lambda>property len pad1.
     rbind (of_unpack [FH] raw offset) (\<lambda>(offset, vs). tup1 vs (\<lambda>rate.
     rbind (of_skip raw offset 6) (\<lambda>offset.
       let self = self\<lparr>qm_property := property, qm_rate := rate\<rparr>
       in if offset - offset0 = ofp_queue_prop_min_rate_len self then Inr (self, offset) else Inl AssertionError)))))"

definition ofp_queue_prop_min_rate_eq :: "ofp_queue_prop_min_rate \<Rightarrow> ofp_queue_prop_min_rate \<Rightarrow> bool" where
  "ofp_queue_prop_min_rate_eq a b \<longleftrightarrow>
     qm_property a = qm_property b \<and> qm_rate a = qm_rate b"

text \<open>A queue property object: its class is its constructor.\<close>

datatype ofp_queue_prop =
    QNone ofp_queue_prop_generic
  | QMinRate ofp_queue_prop_min_rate
  | QGeneric ofp_queue_prop_generic

fun queue_prop_len :: "ofp_queue_prop \<Rightarrow> int res" where
  "queue_prop_len (QNone q) = ofp_queue_prop_generic_len q"
| "queue_prop_len (QMinRate q) = Inr (ofp_queue_prop_min_rate_len q)"
| "queue_prop_len (QGeneric q) = ofp_queue_prop_generic_len q"

fun queue_prop_pack :: "ofp_queue_prop \<Rightarrow> (bytes \<times> ofp_queue_prop) res" where
  "queue_prop_pack (QNone q) = rbind (ofp_queue_prop_generic_pack q) (\<lambda>bs. Inr (bs, QNone q))"
| "queue_prop_pack (QMinRate q) = rbind (ofp_queue_prop_min_rate_pack q) (\<lambda>bs. Inr (bs, QMinRate q))"
| "queue_prop_pack (QGeneric q) = rbind (ofp_queue_prop_generic_pack q) (\<lambda>bs. Inr (bs, QGeneric q))"

fun queue_prop_unpack :: "ofp_queue_prop \<Rightarrow> bytes \<Rightarrow> int \<Rightarrow> (ofp_queue_prop \<times> int) res" where
  "queue_prop_unpack (QNone q) raw offset =
     rbind (ofp_queue_prop_generic_unpack q raw offset) (\<lambda>(q, offset). Inr (QNone q, offset))"
| "queue_prop_unpack (QMinRate q) raw offset =
     rbind (ofp_queue_prop_min_rate_unpack q raw offset) (\<lambda>(q, offset). Inr (QMinRate q, offset))"
| "queue_prop_unpack (QGeneric q) raw offset =
     rbind (ofp_queue_prop_generic_unpack q raw offset) (\<lambda>(q, offset). Inr (QGeneric q, offset))"

text \<open>\<^verbatim>\<open>_queue_prop_type_to_class\<close>; a fresh generic object for an unknown type.\<close>

definition queue_prop_new :: "int \<Rightarrow> ofp_queue_prop" where
  "queue_prop_new t =
     (if t = 0 then QNone (ofp_queue_prop_generic_init)
      else if t = 1 then QMinRate ofp_queue_prop_min_rate_init
      else QGeneric ofp_queue_prop_generic_init)"

lemma queue_prop_len_pos: "queue_prop_len a = Inr n \<Longrightarrow> 0 < n"
  by (cases a) (auto simp: ofp_queue_prop_generic_len_def ofp_queue_prop_min_rate_len_def)

function unpack_queue_props_loop :: "bytes \<Rightarrow> int \<Rightarrow> int \<Rightarrow> (int \<times> ofp_queue_prop list) res" where
  "unpack_queue_props_loop b stop offset =
     (if offset < stop then
        rbind (struct_unpack_from [FH, FH] b offset) (\<lambda>vs. tup2 vs (\<lambda>t l.
        if int (length b) - offset < l then Inl UnderrunError else
        rbind (queue_prop_unpack (queue_prop_new t) (py_slice b offset (offset + l)) 0) (\<lambda>(a, _).
        rbind (queue_prop_len a) (\<lambda>n. if n \<noteq> l then Inl AssertionError else
        rbind (unpack_queue_props_loop b stop (offset + l)) (\<lambda>(offset, props).
          Inr (offset, a # props))))))
      else Inr (offset, []))"
  by pat_completeness auto
termination
  using queue_prop_len_pos by (relation "measure (\<lambda>(b, stop, offset). nat (stop - offset))") auto

declare unpack_queue_props_loop.simps [simp del]

definition unpack_queue_props :: "bytes \<Rightarrow> int \<Rightarrow> int \<Rightarrow> (int \<times> ofp_queue_prop list) res" where
  "unpack_queue_props b len offset =
     (if int (length b) - offset < len then Inl UnderrunError
      else unpack_queue_props_loop b (len + offset) offset)"

record ofp_packet_queue =
  pq_queue_id :: int
  pq_properties :: "ofp_queue_prop list"

definition ofp_packet_queue_init :: ofp_packet_queue where
  "ofp_packet_queue_init = \<lparr>pq_queue_id = 0, pq_properties = []\<rparr>"

definition ofp_packet_queue_len :: "ofp_packet_queue \<Rightarrow> int res" where
  "ofp_packet_queue_len self =
     rbind (mapM queue_prop_len (pq_properties self)) (\<lambda>ls. Inr (8 + sum_list ls))"

definition ofp_packet_queue_pack :: "ofp_packet_queue \<Rightarrow> (bytes \<times> ofp_packet_queue) res" where
  "ofp_packet_queue_pack self =
     rbind (ofp_packet_queue_len self) (\<lambda>len.
     rbind (struct_pack [FL, FH] [pq_queue_id self, len]) (\<lambda>p1.
     rbind (pack_list queue_prop_pack (pq_properties self)) (\<lambda>(p2, props).
       Inr (p1 @ pad 2 @ p2, self\<lparr>pq_properties := props\<rparr>))))"

definition ofp_packet_queue_unpack ::
  "ofp_packet_queue \<Rightarrow> bytes \<Rightarrow> int \<Rightarrow> (ofp_packet_queue \<times> int) res"
where
  "ofp_packet_queue_unpack self raw offset0 =
     rbind (of_unpack [FL, FH] raw offset0) (\<lambda>(offset, vs). tup2 vs (\<lambda>queue_id len.
     rbind (of_skip raw offset 2) (\<lambda>offset.
     rbind (unpack_queue_props raw (len - (4 + 2 + 2)) offset) (\<lambda>(offset, props).
       let self = self\<lparr>pq_queue_id := queue_id, pq_properties := props\<rparr> in
       rbind (ofp_packet_queue_len self) (\<lambda>n.
         if offset - offset0 = n then Inr (self, offset) else Inl AssertionError)))))"

subsection \<open>Round trips\<close>

lemma min_rate_bytes:
  "struct_bytes [FH, FH, FL] [a, b, 0] = struct_bytes [FH, FH] [a, b] @ pad 4"
  by (simp add: struct_bytes.simps pad_def eval_nat_numeral)

lemma of_unpack_pad4 [codec_simps]:
  "chunk raw off (struct_bytes [FH, FH] [a, b]) \<Longrightarrow> chunk raw (off + 4) (pad 4) \<Longrightarrow>
   list_all2 code_range [FH, FH] [a, b] \<Longrightarrow> of_unpack [FH, FH, FL] raw off = Inr (off + 4 + 4, [a, b, 0])"
  using of_unpack_chunk [of raw off "[FH, FH, FL]" "[a, b, 0]"]
  by (simp add: min_rate_bytes chunk_append)

lemma ofp_queue_prop_min_rate_unpack_pack [codec_simps]:
  "ofp_queue_prop_min_rate_pack self = Inr bs \<Longrightarrow> chunk raw off bs \<Longrightarrow>
   ofp_queue_prop_min_rate_unpack fresh raw off = Inr (self, off + 16)"
  by (clarsimp simp: ofp_queue_prop_min_rate_pack_def codec_dest elim!: rbindE)
    (simp add: ofp_queue_prop_min_rate_unpack_def ofp_queue_prop_min_rate_len_def codec_simps)

lemma ofp_queue_prop_min_rate_pack_length:
  "ofp_queue_prop_min_rate_pack self = Inr bs \<Longrightarrow> int (length bs) = 16"
  by (auto simp: ofp_queue_prop_min_rate_pack_def  codec_dest elim!: rbindE)

definition queue_prop_wf :: "ofp_queue_prop \<Rightarrow> bool" where
  "queue_prop_wf q = (case q of QMinRate q \<Rightarrow> qm_property q = 1 | _ \<Rightarrow> True)"

interpretation queue_props: tlv queue_prop_pack "\<lambda>t b. queue_prop_unpack (queue_prop_new t) b 0" queue_prop_len
  unpack_queue_props_loop queue_prop_wf
proof
  fix x bs x'
  assume "queue_prop_wf x" and p: "queue_prop_pack x = Inr (bs, x')"
  then obtain q where q: "x = QMinRate q" "x' = QMinRate q" "ofp_queue_prop_min_rate_pack q = Inr bs"
    "qm_property q = 1"
    by (cases x) (auto simp: ofp_queue_prop_generic_pack_def ofp_queue_prop_generic_len_def
        queue_prop_wf_def elim!: rbindE)
  then have "bs = struct_bytes [FH, FH] [1, 16] @ pad 4 @ struct_bytes [FH] [qm_rate q] @ pad 6"
    by (auto simp: ofp_queue_prop_min_rate_pack_def ofp_queue_prop_min_rate_len_def codec_dest elim!: rbindE)
  then have "struct_ints [FH, FH] (take 4 bs) = [1, 16]"
    using struct_head [of 1 16 "[]" "[]" "pad 4 @ struct_bytes [FH] [qm_rate q] @ pad 6"] by simp
  moreover have "length bs = 16" using ofp_queue_prop_min_rate_pack_length [OF q(3)] by simp
  ultimately show "\<exists>t e. 4 \<le> length bs \<and> struct_ints [FH, FH] (take 4 bs) = [t, int (length bs)] \<and>
       queue_prop_unpack (queue_prop_new t) bs 0 = Inr (x', e) \<and> queue_prop_len x' = Inr (int (length bs))"
    using q ofp_queue_prop_min_rate_unpack_pack [OF q(3) chunk_whole]
    by (simp add: queue_prop_new_def ofp_queue_prop_min_rate_len_def)
qed (rule unpack_queue_props_loop.simps)

lemma queue_props_pack:
  "pack_list queue_prop_pack xs = Inr (bs, xs') \<Longrightarrow>
   xs' = xs \<and> mapM queue_prop_len xs = Inr (replicate (length xs) 16) \<and> length bs = 16 * length xs"
proof (induction xs arbitrary: bs xs')
  case (Cons x xs)
  then obtain q b bs1 where q: "x = QMinRate q" "ofp_queue_prop_min_rate_pack q = Inr b"
    "pack_list queue_prop_pack xs = Inr (bs1, xs)" "bs = b @ bs1" "xs' = x # xs"
    by (cases x) (auto simp: ofp_queue_prop_generic_pack_def ofp_queue_prop_generic_len_def elim!: rbindE)
  then show ?case
    using ofp_queue_prop_min_rate_pack_length [OF q(2)] Cons.IH [OF q(3)]
    by (simp add: ofp_queue_prop_min_rate_len_def)
qed simp

lemma ofp_packet_queue_pack_length:
  "ofp_packet_queue_pack q = Inr (bs, q') \<Longrightarrow>
   q' = q \<and> ofp_packet_queue_len q = Inr (int (length bs)) \<and> length bs = 8 + 16 * length (pq_properties q)"
  by (auto simp: ofp_packet_queue_pack_def ofp_packet_queue_len_def codec_dest sum_list_replicate
      dest!: queue_props_pack elim!: rbindE)

definition packet_queue_wf :: "ofp_packet_queue \<Rightarrow> bool" where
  "packet_queue_wf q \<longleftrightarrow> list_all queue_prop_wf (pq_properties q)"

interpretation queues: codec ofp_packet_queue_pack "ofp_packet_queue_unpack ofp_packet_queue_init" packet_queue_wf
proof
  fix x bs x' raw off
  assume wf: "packet_queue_wf x" and p: "ofp_packet_queue_pack x = Inr (bs, x')" and c: "chunk raw off bs"
  from p obtain b ps where b0: "pack_list queue_prop_pack (pq_properties x) = Inr (b, ps)"
    by (auto simp: ofp_packet_queue_pack_def elim!: rbindE)
  note ps = queue_props_pack [OF b0]
  have b: "pack_list queue_prop_pack (pq_properties x) = Inr (b, pq_properties x)"
    "list_all2 code_range [FL, FH] [pq_queue_id x, 8 + int (length b)]"
    "bs = struct_bytes [FL, FH] [pq_queue_id x, 8 + int (length b)] @ pad 2 @ b" "x' = x"
    using p b0 ps by (auto simp: ofp_packet_queue_pack_def ofp_packet_queue_len_def codec_dest
      sum_list_replicate mult.commute elim!: rbindE)
  note c' = c [unfolded b(3) chunk_append]
  have "of_unpack [FL, FH] raw off = Inr (off + 6, [pq_queue_id x, 8 + int (length b)])"
    using of_unpack_chunk [of raw off "[FL, FH]"] c' b(2) by simp
  moreover have "of_skip raw (off + 6) 2 = Inr (off + 8)"
    using of_skip_pad [of raw "off + 6" 2 2] c' b(2) by simp
  moreover have "unpack_queue_props raw (int (length b)) (off + 8) = Inr (off + 8 + int (length b), pq_properties x)"
    using queue_props.loop_pack_list [OF _ b(1), of raw "off + 8"] wf c' b(2) chunk_avail [of raw "off + 8" b]
    by (simp add: unpack_queue_props_def packet_queue_wf_def add.commute)
  moreover have "ofp_packet_queue_len x = Inr (8 + int (length b))" "int (length bs) = 8 + int (length b)"
    using ofp_packet_queue_pack_length [OF p] b(2,3) by auto
  ultimately show "ofp_packet_queue_unpack ofp_packet_queue_init raw off = Inr (x', off + int (length bs))"
    by (cases x) (simp add: ofp_packet_queue_unpack_def ofp_packet_queue_init_def b(4) Let_def)
qed

end
