(* ===== verification/OF_Match.thy ===== *)
theory OF_Match
  imports OF_Base
begin

text \<open>
  \<^verbatim>\<open>class ofp_match\<close> of \<^verbatim>\<open>libopenflow_01.py\<close>: a twelve-field match with a wildcard word. The
  object keeps each field under an underscored name; attribute access goes through the
  wildcard bits (\<^verbatim>\<open>__getattr__\<close>, \<^verbatim>\<open>__setattr__\<close>). Addresses are the address objects every
  constructor of the sources stores.
\<close>

section \<open>Wildcard constants\<close>

definition OFPFW_IN_PORT :: int where "OFPFW_IN_PORT = 1"
definition OFPFW_DL_VLAN :: int where "OFPFW_DL_VLAN = 2"
definition OFPFW_DL_SRC :: int where "OFPFW_DL_SRC = 4"
definition OFPFW_DL_DST :: int where "OFPFW_DL_DST = 8"
definition OFPFW_DL_TYPE :: int where "OFPFW_DL_TYPE = 16"
definition OFPFW_NW_PROTO :: int where "OFPFW_NW_PROTO = 32"
definition OFPFW_TP_SRC :: int where "OFPFW_TP_SRC = 64"
definition OFPFW_TP_DST :: int where "OFPFW_TP_DST = 128"
definition OFPFW_DL_VLAN_PCP :: int where "OFPFW_DL_VLAN_PCP = 1048576"
definition OFPFW_NW_TOS :: int where "OFPFW_NW_TOS = push_bit 21 1"
definition OFPFW_NW_SRC_SHIFT :: nat where "OFPFW_NW_SRC_SHIFT = 8"
definition OFPFW_NW_DST_SHIFT :: nat where "OFPFW_NW_DST_SHIFT = 14"
definition OFPFW_NW_SRC_ALL :: int where "OFPFW_NW_SRC_ALL = 8192"
definition OFPFW_NW_SRC_MASK :: int where "OFPFW_NW_SRC_MASK = 16128"
definition OFPFW_NW_DST_ALL :: int where "OFPFW_NW_DST_ALL = 524288"
definition OFPFW_NW_DST_MASK :: int where "OFPFW_NW_DST_MASK = 1032192"
definition OFPFW_ALL :: int where "OFPFW_ALL = push_bit 22 1 - 1"

definition OFP_DL_TYPE_NOT_ETH_TYPE :: int where "OFP_DL_TYPE_NOT_ETH_TYPE = 1535"
definition OFP_VLAN_NONE :: int where "OFP_VLAN_NONE = 65535"

section \<open>The object\<close>

record ofp_match =
  m_locked :: bool
  m_wildcards :: int
  m_in_port :: int
  m_dl_src :: EthAddr
  m_dl_dst :: EthAddr
  m_dl_vlan :: int
  m_dl_vlan_pcp :: int
  m_dl_type :: int
  m_nw_tos :: int
  m_nw_proto :: int
  m_nw_src :: IPAddr
  m_nw_dst :: IPAddr
  m_tp_src :: int
  m_tp_dst :: int

text \<open>Network wildcard counts above 32 mean 32.\<close>

definition normalize_wildcards :: "int \<Rightarrow> int" where
  "normalize_wildcards wildcards =
     (let w1 = (if drop_bit OFPFW_NW_SRC_SHIFT (wildcards AND OFPFW_NW_SRC_MASK) > 32
                then (wildcards AND NOT OFPFW_NW_SRC_MASK) OR push_bit OFPFW_NW_SRC_SHIFT 32
                else wildcards)
      in if drop_bit OFPFW_NW_DST_SHIFT (w1 AND OFPFW_NW_DST_MASK) > 32
         then (w1 AND NOT OFPFW_NW_DST_MASK) OR push_bit OFPFW_NW_DST_SHIFT 32
         else w1)"

text \<open>A fresh \<^verbatim>\<open>ofp_match()\<close>: the defaults of \<^verbatim>\<open>ofp_match_data\<close>, everything wildcarded.\<close>

definition ofp_match_init :: ofp_match where
  "ofp_match_init =
     \<lparr>m_locked = False, m_wildcards = normalize_wildcards OFPFW_ALL,
      m_in_port = 0, m_dl_src = EMPTY_ETH, m_dl_dst = EMPTY_ETH,
      m_dl_vlan = 0, m_dl_vlan_pcp = 0, m_dl_type = 0, m_nw_tos = 0, m_nw_proto = 0,
      m_nw_src = IPAddr 0, m_nw_dst = IPAddr 0, m_tp_src = 0, m_tp_dst = 0\<rparr>"

section \<open>Attribute reads\<close>

text \<open>\<^verbatim>\<open>__getattr__\<close>: a field whose wildcard bits are all set reads as None.\<close>

definition get_field :: "ofp_match \<Rightarrow> int \<Rightarrow> 'a \<Rightarrow> 'a option" where
  "get_field self bits x = (if m_wildcards self AND bits = bits then None else Some x)"

definition get_in_port :: "ofp_match \<Rightarrow> int option" where
  "get_in_port self = get_field self OFPFW_IN_PORT (m_in_port self)"
definition get_dl_src :: "ofp_match \<Rightarrow> EthAddr option" where
  "get_dl_src self = get_field self OFPFW_DL_SRC (m_dl_src self)"
definition get_dl_dst :: "ofp_match \<Rightarrow> EthAddr option" where
  "get_dl_dst self = get_field self OFPFW_DL_DST (m_dl_dst self)"
definition get_dl_vlan :: "ofp_match \<Rightarrow> int option" where
  "get_dl_vlan self = get_field self OFPFW_DL_VLAN (m_dl_vlan self)"
definition get_dl_vlan_pcp :: "ofp_match \<Rightarrow> int option" where
  "get_dl_vlan_pcp self = get_field self OFPFW_DL_VLAN_PCP (m_dl_vlan_pcp self)"
definition get_dl_type :: "ofp_match \<Rightarrow> int option" where
  "get_dl_type self = get_field self OFPFW_DL_TYPE (m_dl_type self)"
definition get_nw_tos :: "ofp_match \<Rightarrow> int option" where
  "get_nw_tos self = get_field self OFPFW_NW_TOS (m_nw_tos self)"
definition get_nw_proto :: "ofp_match \<Rightarrow> int option" where
  "get_nw_proto self = get_field self OFPFW_NW_PROTO (m_nw_proto self)"
definition get_tp_src :: "ofp_match \<Rightarrow> int option" where
  "get_tp_src self = get_field self OFPFW_TP_SRC (m_tp_src self)"
definition get_tp_dst :: "ofp_match \<Rightarrow> int option" where
  "get_tp_dst self = get_field self OFPFW_TP_DST (m_tp_dst self)"

definition get_nw_src_bits :: "ofp_match \<Rightarrow> IPAddr option \<times> int" where
  "get_nw_src_bits self =
     (if m_wildcards self AND OFPFW_NW_SRC_ALL = OFPFW_NW_SRC_ALL then (None, 0)
      else let w = drop_bit OFPFW_NW_SRC_SHIFT (m_wildcards self AND OFPFW_NW_SRC_MASK)
           in (Some (m_nw_src self), if w \<le> 32 then 32 - w else 0))"

definition get_nw_dst_bits :: "ofp_match \<Rightarrow> IPAddr option \<times> int" where
  "get_nw_dst_bits self =
     (if m_wildcards self AND OFPFW_NW_DST_ALL = OFPFW_NW_DST_ALL then (None, 0)
      else let w = drop_bit OFPFW_NW_DST_SHIFT (m_wildcards self AND OFPFW_NW_DST_MASK)
           in (Some (m_nw_dst self), if w \<le> 32 then 32 - w else 0))"

definition get_nw_src :: "ofp_match \<Rightarrow> IPAddr option" where
  "get_nw_src self =
     (if m_wildcards self AND OFPFW_NW_SRC_ALL = OFPFW_NW_SRC_ALL then None
      else fst (get_nw_src_bits self))"

definition get_nw_dst :: "ofp_match \<Rightarrow> IPAddr option" where
  "get_nw_dst self =
     (if m_wildcards self AND OFPFW_NW_DST_ALL = OFPFW_NW_DST_ALL then None
      else fst (get_nw_dst_bits self))"

section \<open>Attribute writes\<close>

text \<open>
  \<^verbatim>\<open>__setattr__\<close>: a locked match raises. None stores the default and sets the field's wildcard
  bits, a value stores it and clears them.
\<close>

definition match_write :: "(ofp_match \<Rightarrow> ofp_match) \<Rightarrow> ofp_match \<Rightarrow> ofp_match res" where
  "match_write f self = (if m_locked self then Inl AttributeError else Inr (f self))"

definition wc_update :: "int \<Rightarrow> 'a option \<Rightarrow> int \<Rightarrow> int" where
  "wc_update bits x w = (case x of None \<Rightarrow> w OR bits | Some _ \<Rightarrow> w AND NOT bits)"

definition set_in_port :: "int option \<Rightarrow> ofp_match \<Rightarrow> ofp_match res" where
  "set_in_port x = match_write (\<lambda>self. self\<lparr>m_in_port := case x of None \<Rightarrow> 0 | Some v \<Rightarrow> v,
     m_wildcards := wc_update OFPFW_IN_PORT x (m_wildcards self)\<rparr>)"
definition set_dl_src :: "EthAddr option \<Rightarrow> ofp_match \<Rightarrow> ofp_match res" where
  "set_dl_src x = match_write (\<lambda>self. self\<lparr>m_dl_src := case x of None \<Rightarrow> EMPTY_ETH | Some v \<Rightarrow> v,
     m_wildcards := wc_update OFPFW_DL_SRC x (m_wildcards self)\<rparr>)"
definition set_dl_dst :: "EthAddr option \<Rightarrow> ofp_match \<Rightarrow> ofp_match res" where
  "set_dl_dst x = match_write (\<lambda>self. self\<lparr>m_dl_dst := case x of None \<Rightarrow> EMPTY_ETH | Some v \<Rightarrow> v,
     m_wildcards := wc_update OFPFW_DL_DST x (m_wildcards self)\<rparr>)"
definition set_dl_vlan :: "int option \<Rightarrow> ofp_match \<Rightarrow> ofp_match res" where
  "set_dl_vlan x = match_write (\<lambda>self. self\<lparr>m_dl_vlan := case x of None \<Rightarrow> 0 | Some v \<Rightarrow> v,
     m_wildcards := wc_update OFPFW_DL_VLAN x (m_wildcards self)\<rparr>)"
definition set_dl_vlan_pcp :: "int option \<Rightarrow> ofp_match \<Rightarrow> ofp_match res" where
  "set_dl_vlan_pcp x = match_write (\<lambda>self. self\<lparr>m_dl_vlan_pcp := case x of None \<Rightarrow> 0 | Some v \<Rightarrow> v,
     m_wildcards := wc_update OFPFW_DL_VLAN_PCP x (m_wildcards self)\<rparr>)"
definition set_dl_type :: "int option \<Rightarrow> ofp_match \<Rightarrow> ofp_match res" where
  "set_dl_type x = match_write (\<lambda>self. self\<lparr>m_dl_type := case x of None \<Rightarrow> 0 | Some v \<Rightarrow> v,
     m_wildcards := wc_update OFPFW_DL_TYPE x (m_wildcards self)\<rparr>)"
definition set_nw_tos :: "int option \<Rightarrow> ofp_match \<Rightarrow> ofp_match res" where
  "set_nw_tos x = match_write (\<lambda>self. self\<lparr>m_nw_tos := case x of None \<Rightarrow> 0 | Some v \<Rightarrow> v,
     m_wildcards := wc_update OFPFW_NW_TOS x (m_wildcards self)\<rparr>)"
definition set_nw_proto :: "int option \<Rightarrow> ofp_match \<Rightarrow> ofp_match res" where
  "set_nw_proto x = match_write (\<lambda>self. self\<lparr>m_nw_proto := case x of None \<Rightarrow> 0 | Some v \<Rightarrow> v,
     m_wildcards := wc_update OFPFW_NW_PROTO x (m_wildcards self)\<rparr>)"
definition set_tp_src :: "int option \<Rightarrow> ofp_match \<Rightarrow> ofp_match res" where
  "set_tp_src x = match_write (\<lambda>self. self\<lparr>m_tp_src := case x of None \<Rightarrow> 0 | Some v \<Rightarrow> v,
     m_wildcards := wc_update OFPFW_TP_SRC x (m_wildcards self)\<rparr>)"
definition set_tp_dst :: "int option \<Rightarrow> ofp_match \<Rightarrow> ofp_match res" where
  "set_tp_dst x = match_write (\<lambda>self. self\<lparr>m_tp_dst := case x of None \<Rightarrow> 0 | Some v \<Rightarrow> v,
     m_wildcards := wc_update OFPFW_TP_DST x (m_wildcards self)\<rparr>)"

text \<open>
  \<^verbatim>\<open>_make_addr\<close> on an address and an optional bit count (the tuple form), clamped to 0..32.
  The text forms go through \<open>parse_cidr\<close> first and then take the same path.
\<close>

definition make_addr :: "(IPAddr \<times> int option) option \<Rightarrow> (IPAddr \<times> int) option" where
  "make_addr a =
     (case a of
        None \<Rightarrow> None
      | Some (ip, b) \<Rightarrow>
          let b = (case b of None \<Rightarrow> 32 | Some b \<Rightarrow> b)
          in Some (ip, if b > 32 then 32 else if b < 0 then 0 else b))"

definition set_nw_src :: "(IPAddr \<times> int option) option \<Rightarrow> ofp_match \<Rightarrow> ofp_match res" where
  "set_nw_src x = match_write (\<lambda>self.
     case make_addr x of
       None \<Rightarrow> self\<lparr>m_nw_src := IPAddr 0,
         m_wildcards := (m_wildcards self AND NOT OFPFW_NW_SRC_MASK) OR OFPFW_NW_SRC_ALL\<rparr>
     | Some (ip, b) \<Rightarrow> self\<lparr>m_nw_src := ip,
         m_wildcards := (m_wildcards self AND NOT OFPFW_NW_SRC_MASK) OR
           push_bit OFPFW_NW_SRC_SHIFT (32 - b)\<rparr>)"

definition set_nw_dst :: "(IPAddr \<times> int option) option \<Rightarrow> ofp_match \<Rightarrow> ofp_match res" where
  "set_nw_dst x = match_write (\<lambda>self.
     case make_addr x of
       None \<Rightarrow> self\<lparr>m_nw_dst := IPAddr 0,
         m_wildcards := (m_wildcards self AND NOT OFPFW_NW_DST_MASK) OR OFPFW_NW_DST_ALL\<rparr>
     | Some (ip, b) \<Rightarrow> self\<lparr>m_nw_dst := ip,
         m_wildcards := (m_wildcards self AND NOT OFPFW_NW_DST_MASK) OR
           push_bit OFPFW_NW_DST_SHIFT (32 - b)\<rparr>)"

text \<open>\<^verbatim>\<open>clone\<close>: a fresh unlocked match with the underscored fields and the wildcards copied.\<close>

definition ofp_match_clone :: "ofp_match \<Rightarrow> ofp_match" where
  "ofp_match_clone self = self\<lparr>m_locked := False\<rparr>"

definition tuple_of :: "IPAddr option \<Rightarrow> (IPAddr \<times> int option) option" where
  "tuple_of = map_option (\<lambda>ip. (ip, None))"

text \<open>\<^verbatim>\<open>flip(in_port)\<close>: \<open>None\<close> for \<open>new_port\<close> is the default argument True, which keeps the port.\<close>

definition ofp_match_flip :: "int option option \<Rightarrow> ofp_match \<Rightarrow> ofp_match res" where
  "ofp_match_flip new_port self =
     rbind (set_dl_src (get_dl_dst self) (ofp_match_clone self)) (\<lambda>r.
     rbind (set_dl_dst (get_dl_src self) r) (\<lambda>r.
     rbind (set_nw_src (tuple_of (get_nw_dst self)) r) (\<lambda>r.
     rbind (set_nw_dst (tuple_of (get_nw_src self)) r) (\<lambda>r.
     rbind (set_tp_src (get_tp_dst self) r) (\<lambda>r.
     rbind (set_tp_dst (get_tp_src self) r) (\<lambda>r.
       case new_port of None \<Rightarrow> Inr r | Some p \<Rightarrow> set_in_port p r))))))"

definition is_wildcarded :: "ofp_match \<Rightarrow> bool" where
  "is_wildcarded self \<longleftrightarrow> m_wildcards self AND OFPFW_ALL \<noteq> 0"

definition is_exact :: "ofp_match \<Rightarrow> bool" where
  "is_exact self \<longleftrightarrow> \<not> is_wildcarded self"

section \<open>Wire form\<close>

definition ip_tp_proto :: "int option \<Rightarrow> bool" where
  "ip_tp_proto p \<longleftrightarrow> p = Some 1 \<or> p = Some 6 \<or> p = Some 17"

definition wire_wildcards :: "ofp_match \<Rightarrow> int \<Rightarrow> int" where
  "wire_wildcards self wildcards =
     (if get_dl_type self = Some 2048 then
        (if \<not> ip_tp_proto (get_nw_proto self)
         then wildcards AND NOT (OFPFW_TP_SRC OR OFPFW_TP_DST)
         else wildcards)
      else if get_dl_type self = Some 2054 then
        wildcards AND NOT (OFPFW_NW_TOS OR OFPFW_TP_SRC OR OFPFW_TP_DST)
      else if get_dl_type self = Some 34525 then
        wildcards AND NOT (OFPFW_NW_SRC_MASK OR OFPFW_NW_DST_MASK OR OFPFW_TP_SRC OR OFPFW_TP_DST)
      else
        wildcards AND NOT (OFPFW_NW_TOS OR OFPFW_NW_PROTO OR OFPFW_NW_SRC_MASK OR OFPFW_NW_DST_MASK
          OR OFPFW_TP_SRC OR OFPFW_TP_DST))"

definition unwire_wildcards :: "ofp_match \<Rightarrow> int \<Rightarrow> int" where
  "unwire_wildcards self wildcards =
     (if m_dl_type self = 2048 then
        (if \<not> ip_tp_proto (Some (m_nw_proto self))
         then wildcards OR (OFPFW_TP_SRC OR OFPFW_TP_DST)
         else wildcards)
      else if m_dl_type self = 2054 then
        wildcards OR (OFPFW_NW_TOS OR OFPFW_TP_SRC OR OFPFW_TP_DST)
      else
        wildcards OR (OFPFW_NW_TOS OR OFPFW_NW_PROTO OR OFPFW_NW_SRC_MASK OR OFPFW_NW_DST_MASK
          OR OFPFW_TP_SRC OR OFPFW_TP_DST))"

text \<open>\<^verbatim>\<open>fix\<close>: removes the fields whose prerequisites are missing.\<close>

definition ofp_match_fix :: "ofp_match \<Rightarrow> ofp_match res" where
  "ofp_match_fix self =
     (if get_dl_type self = Some 2048 then
        (if \<not> ip_tp_proto (get_nw_proto self)
         then rbind (set_tp_src None self) (set_tp_dst None)
         else Inr self)
      else if get_dl_type self = Some 2054 then
        rbind (set_tp_src None self) (\<lambda>self. rbind (set_tp_dst None self) (set_nw_tos None))
      else
        rbind (set_nw_tos None self) (\<lambda>self.
        rbind (set_nw_proto None self) (\<lambda>self.
        rbind (set_nw_src None self) (\<lambda>self.
        rbind (set_nw_dst None self) (\<lambda>self.
        rbind (set_tp_src None self) (set_tp_dst None))))))"

definition or0 :: "int option \<Rightarrow> int" where
  "or0 x = (case x of None \<Rightarrow> 0 | Some v \<Rightarrow> v)"

definition eth_or_empty :: "EthAddr option \<Rightarrow> bytes" where
  "eth_or_empty x = (case x of None \<Rightarrow> eth_toRaw EMPTY_ETH | Some e \<Rightarrow> eth_toRaw e)"

definition ip_or0 :: "IPAddr option \<Rightarrow> int" where
  "ip_or0 x = (case x of None \<Rightarrow> 0 | Some ip \<Rightarrow> ip_toUnsigned ip False)"

definition check_ip :: "ofp_match \<Rightarrow> int \<Rightarrow> int" where
  "check_ip self v = (if get_dl_type self = Some 2048 then v else 0)"

definition check_ip_or_arp :: "ofp_match \<Rightarrow> int \<Rightarrow> int" where
  "check_ip_or_arp self v =
     (if get_dl_type self = Some 2048 \<or> get_dl_type self = Some 2054 then v else 0)"

definition check_tp :: "ofp_match \<Rightarrow> int \<Rightarrow> int" where
  "check_tp self v =
     (if get_dl_type self = Some 2048 \<and> ip_tp_proto (get_nw_proto self) then v else 0)"

definition ofp_match_pack :: "bool \<Rightarrow> ofp_match \<Rightarrow> bytes res" where
  "ofp_match_pack flow_mod self =
     (let wc = (if flow_mod then wire_wildcards self (m_wildcards self) else m_wildcards self) in
      rbind (struct_pack [FL, FH] [wc, or0 (get_in_port self)]) (\<lambda>p1.
      rbind (struct_pack [FH, FB] [or0 (get_dl_vlan self), or0 (get_dl_vlan_pcp self)]) (\<lambda>p2.
      rbind (struct_pack [FH, FB, FB]
        [or0 (get_dl_type self), check_ip self (or0 (get_nw_tos self)),
         check_ip_or_arp self (or0 (get_nw_proto self))]) (\<lambda>p3.
      rbind (struct_pack [FL, FL, FH, FH]
        [check_ip_or_arp self (ip_or0 (get_nw_src self)), check_ip_or_arp self (ip_or0 (get_nw_dst self)),
         check_tp self (or0 (get_tp_src self)), check_tp self (or0 (get_tp_dst self))]) (\<lambda>p4.
      Inr (p1 @ eth_or_empty (get_dl_src self) @ eth_or_empty (get_dl_dst self) @
           p2 @ pad 1 @ p3 @ pad 2 @ p4))))))"

definition ofp_match_len :: int where "ofp_match_len = 40"

definition ofp_match_unpack :: "bool \<Rightarrow> ofp_match \<Rightarrow> bytes \<Rightarrow> int \<Rightarrow> (ofp_match \<times> int) res" where
  "ofp_match_unpack flow_mod self raw offset0 =
     rbind (of_unpack [FL, FH] raw offset0) (\<lambda>(offset, vs). tup2 vs (\<lambda>wildcards in_port.
     rbind (of_readether raw offset) (\<lambda>(offset, dl_src).
     rbind (of_readether raw offset) (\<lambda>(offset, dl_dst).
     rbind (of_unpack [FH, FB] raw offset) (\<lambda>(offset, vs). tup2 vs (\<lambda>dl_vlan dl_vlan_pcp.
     rbind (of_skip raw offset 1) (\<lambda>offset.
     rbind (of_unpack [FH, FB, FB] raw offset) (\<lambda>(offset, vs). tup3 vs (\<lambda>dl_type nw_tos nw_proto.
     rbind (of_skip raw offset 2) (\<lambda>offset.
     rbind (of_readip raw offset) (\<lambda>(offset, nw_src).
     rbind (of_readip raw offset) (\<lambda>(offset, nw_dst).
     rbind (of_unpack [FH, FH] raw offset) (\<lambda>(offset, vs). tup2 vs (\<lambda>tp_src tp_dst.
       let self = self\<lparr>m_in_port := in_port, m_dl_src := dl_src, m_dl_dst := dl_dst,
             m_dl_vlan := dl_vlan, m_dl_vlan_pcp := dl_vlan_pcp, m_dl_type := dl_type,
             m_nw_tos := nw_tos, m_nw_proto := nw_proto, m_nw_src := nw_src, m_nw_dst := nw_dst,
             m_tp_src := tp_src, m_tp_dst := tp_dst\<rparr>;
           self = self\<lparr>m_wildcards := normalize_wildcards
             (if flow_mod then unwire_wildcards self wildcards else wildcards)\<rparr>
       in if offset - offset0 = ofp_match_len then Inr (self, offset) else Inl AssertionError))))))))))))))"

section \<open>Comparison\<close>

definition ofp_match_eq :: "ofp_match \<Rightarrow> ofp_match \<Rightarrow> bool" where
  "ofp_match_eq a b \<longleftrightarrow>
     m_wildcards a = m_wildcards b \<and> get_in_port a = get_in_port b \<and>
     get_dl_src a = get_dl_src b \<and> get_dl_dst a = get_dl_dst b \<and>
     get_dl_vlan a = get_dl_vlan b \<and> get_dl_vlan_pcp a = get_dl_vlan_pcp b \<and>
     get_dl_type a = get_dl_type b \<and> get_nw_tos a = get_nw_tos b \<and>
     get_nw_proto a = get_nw_proto b \<and> get_nw_src a = get_nw_src b \<and>
     get_nw_dst a = get_nw_dst b \<and> get_tp_src a = get_tp_src b \<and> get_tp_dst a = get_tp_dst b"

definition match_fail :: "'a option \<Rightarrow> 'a option \<Rightarrow> bool" where
  "match_fail mine others = (case mine of None \<Rightarrow> False | Some _ \<Rightarrow> mine \<noteq> others)"

text \<open>The two address checks at the end. \<^verbatim>\<open>IPAddr(None)\<close> raises.\<close>

definition nw_check :: "IPAddr option \<times> int \<Rightarrow> IPAddr option \<times> int \<Rightarrow> bool res" where
  "nw_check mine other =
     (case fst mine of
        None \<Rightarrow> Inr True
      | Some n \<Rightarrow>
          if snd mine > snd other then Inr False
          else case fst other of
                 None \<Rightarrow> Inl RuntimeError
               | Some ip \<Rightarrow> Inr (ip_inNetwork ip (n, snd mine)))"

definition matches_with_wildcards :: "ofp_match \<Rightarrow> ofp_match \<Rightarrow> bool \<Rightarrow> bool res" where
  "matches_with_wildcards self other consider_other_wildcards =
     (let nw = OFPFW_NW_SRC_MASK OR OFPFW_NW_DST_MASK;
          self_bits = m_wildcards self AND NOT nw;
          other_bits = m_wildcards other AND NOT nw in
      if ofp_match_eq self other then Inr True
      else if consider_other_wildcards \<and> self_bits OR other_bits \<noteq> self_bits then Inr False
      else if match_fail (get_in_port self) (get_in_port other) then Inr False
      else if match_fail (get_dl_vlan self) (get_dl_vlan other) then Inr False
      else if match_fail (get_dl_src self) (get_dl_src other) then Inr False
      else if match_fail (get_dl_dst self) (get_dl_dst other) then Inr False
      else if match_fail (get_dl_type self) (get_dl_type other) then Inr False
      else if match_fail (get_nw_proto self) (get_nw_proto other) then Inr False
      else if match_fail (get_tp_src self) (get_tp_src other) then Inr False
      else if match_fail (get_tp_dst self) (get_tp_dst other) then Inr False
      else if match_fail (get_dl_vlan_pcp self) (get_dl_vlan_pcp other) then Inr False
      else if match_fail (get_nw_tos self) (get_nw_tos other) then Inr False
      else
        rbind (nw_check (get_nw_src_bits self) (get_nw_src_bits other)) (\<lambda>src_ok.
          if \<not> src_ok then Inr False
          else nw_check (get_nw_dst_bits self) (get_nw_dst_bits other)))"



subsection \<open>Wildcard bits\<close>

lemma and_exp_eq: "(w :: int) AND 2 ^ k = 2 ^ k \<longleftrightarrow> bit w k"
proof
  assume "w AND 2 ^ k = 2 ^ k"
  then have "bit (w AND 2 ^ k) k" by (simp add: bit_exp_iff)
  then show "bit w k" by (simp add: bit_and_iff)
next
  assume "bit w k"
  then show "w AND 2 ^ k = 2 ^ k"
    by (intro bit_eqI) (auto simp: bit_and_iff bit_exp_iff)
qed

lemma wc_pow2 [wc_bits]:
  "OFPFW_IN_PORT = 2 ^ 0" "OFPFW_DL_VLAN = 2 ^ 1" "OFPFW_DL_SRC = 2 ^ 2" "OFPFW_DL_DST = 2 ^ 3"
  "OFPFW_DL_TYPE = 2 ^ 4" "OFPFW_NW_PROTO = 2 ^ 5" "OFPFW_TP_SRC = 2 ^ 6" "OFPFW_TP_DST = 2 ^ 7"
  "OFPFW_DL_VLAN_PCP = 2 ^ 20" "OFPFW_NW_TOS = 2 ^ 21"
  "OFPFW_NW_SRC_ALL = 2 ^ 13" "OFPFW_NW_DST_ALL = 2 ^ 19"
  by (simp_all add: OFPFW_IN_PORT_def OFPFW_DL_VLAN_def OFPFW_DL_SRC_def OFPFW_DL_DST_def
      OFPFW_DL_TYPE_def OFPFW_NW_PROTO_def OFPFW_TP_SRC_def OFPFW_TP_DST_def OFPFW_DL_VLAN_PCP_def
      OFPFW_NW_TOS_def OFPFW_NW_SRC_ALL_def OFPFW_NW_DST_ALL_def)

lemma wc_mask [wc_bits]:
  "OFPFW_NW_SRC_MASK = push_bit 8 (mask 6)" "OFPFW_NW_DST_MASK = push_bit 14 (mask 6)"
  "OFPFW_ALL = mask 22" "OFPFW_NW_SRC_SHIFT = 8" "OFPFW_NW_DST_SHIFT = 14"
  by (simp_all add: OFPFW_NW_SRC_MASK_def OFPFW_NW_DST_MASK_def OFPFW_ALL_def mask_eq_exp_minus_1
      push_bit_eq_mult OFPFW_NW_SRC_SHIFT_def OFPFW_NW_DST_SHIFT_def)

lemmas wc_consts =
  OFPFW_IN_PORT_def OFPFW_DL_VLAN_def OFPFW_DL_SRC_def OFPFW_DL_DST_def
  OFPFW_DL_TYPE_def OFPFW_NW_PROTO_def OFPFW_TP_SRC_def OFPFW_TP_DST_def OFPFW_DL_VLAN_PCP_def
  OFPFW_NW_TOS_def OFPFW_NW_SRC_ALL_def OFPFW_NW_DST_ALL_def OFPFW_NW_SRC_MASK_def
  OFPFW_NW_DST_MASK_def OFPFW_ALL_def OFPFW_NW_SRC_SHIFT_def OFPFW_NW_DST_SHIFT_def

text \<open>Which bits each constant has set.\<close>

lemma bit_exp_int: "bit (2 ^ k :: int) n \<longleftrightarrow> n = k"
  by (auto simp: bit_exp_iff)

lemma wc_bit_flag:
  "bit OFPFW_IN_PORT n \<longleftrightarrow> n = 0" "bit OFPFW_DL_VLAN n \<longleftrightarrow> n = 1" "bit OFPFW_DL_SRC n \<longleftrightarrow> n = 2"
  "bit OFPFW_DL_DST n \<longleftrightarrow> n = 3" "bit OFPFW_DL_TYPE n \<longleftrightarrow> n = 4" "bit OFPFW_NW_PROTO n \<longleftrightarrow> n = 5"
  "bit OFPFW_TP_SRC n \<longleftrightarrow> n = 6" "bit OFPFW_TP_DST n \<longleftrightarrow> n = 7" "bit OFPFW_DL_VLAN_PCP n \<longleftrightarrow> n = 20"
  "bit OFPFW_NW_TOS n \<longleftrightarrow> n = 21" "bit OFPFW_NW_SRC_ALL n \<longleftrightarrow> n = 13" "bit OFPFW_NW_DST_ALL n \<longleftrightarrow> n = 19"
  by (simp_all only: wc_pow2 bit_exp_int)

lemma wc_bit_mask:
  "bit OFPFW_NW_SRC_MASK n \<longleftrightarrow> 8 \<le> n \<and> n \<le> 13" "bit OFPFW_NW_DST_MASK n \<longleftrightarrow> 14 \<le> n \<and> n \<le> 19"
  "bit OFPFW_ALL n \<longleftrightarrow> n < 22"
  by (auto simp: wc_mask bit_push_bit_iff bit_mask_iff)

lemmas wc_bit = wc_bit_flag wc_bit_mask

lemma get_bit:
  "get_in_port m = (if bit (m_wildcards m) 0 then None else Some (m_in_port m))"
  "get_dl_vlan m = (if bit (m_wildcards m) 1 then None else Some (m_dl_vlan m))"
  "get_dl_src m = (if bit (m_wildcards m) 2 then None else Some (m_dl_src m))"
  "get_dl_dst m = (if bit (m_wildcards m) 3 then None else Some (m_dl_dst m))"
  "get_dl_type m = (if bit (m_wildcards m) 4 then None else Some (m_dl_type m))"
  "get_nw_proto m = (if bit (m_wildcards m) 5 then None else Some (m_nw_proto m))"
  "get_tp_src m = (if bit (m_wildcards m) 6 then None else Some (m_tp_src m))"
  "get_tp_dst m = (if bit (m_wildcards m) 7 then None else Some (m_tp_dst m))"
  "get_dl_vlan_pcp m = (if bit (m_wildcards m) 20 then None else Some (m_dl_vlan_pcp m))"
  "get_nw_tos m = (if bit (m_wildcards m) 21 then None else Some (m_nw_tos m))"
  by (simp_all only: get_in_port_def get_dl_vlan_def get_dl_src_def get_dl_dst_def get_dl_type_def
      get_nw_proto_def get_tp_src_def get_tp_dst_def get_dl_vlan_pcp_def get_nw_tos_def
      get_field_def wc_pow2 and_exp_eq)

text \<open>The number of ignored address bits, six bits wide.\<close>

definition src_count :: "int \<Rightarrow> int" where "src_count w = take_bit 6 (drop_bit 8 w)"
definition dst_count :: "int \<Rightarrow> int" where "dst_count w = take_bit 6 (drop_bit 14 w)"

lemma count_mask:
  "drop_bit OFPFW_NW_SRC_SHIFT (w AND OFPFW_NW_SRC_MASK) = src_count w"
  "drop_bit OFPFW_NW_DST_SHIFT (w AND OFPFW_NW_DST_MASK) = dst_count w"
  unfolding wc_bits src_count_def dst_count_def
  by (rule bit_eqI; auto simp: bit_simps)+

lemma get_nw_bit:
  "get_nw_src_bits m = (if bit (m_wildcards m) 13 then (None, 0)
     else (Some (m_nw_src m), if src_count (m_wildcards m) \<le> 32 then 32 - src_count (m_wildcards m) else 0))"
  "get_nw_dst_bits m = (if bit (m_wildcards m) 19 then (None, 0)
     else (Some (m_nw_dst m), if dst_count (m_wildcards m) \<le> 32 then 32 - dst_count (m_wildcards m) else 0))"
  "get_nw_src m = (if bit (m_wildcards m) 13 then None else Some (m_nw_src m))"
  "get_nw_dst m = (if bit (m_wildcards m) 19 then None else Some (m_nw_dst m))"
  unfolding get_nw_src_def get_nw_dst_def get_nw_src_bits_def get_nw_dst_bits_def count_mask
    wc_pow2(11,12) and_exp_eq
  by (simp_all add: Let_def)

lemma count_bounds: "0 \<le> src_count w" "src_count w < 64" "0 \<le> dst_count w" "dst_count w < 64"
  by (simp_all add: src_count_def dst_count_def take_bit_int_less_exp [of 6, simplified])

text \<open>A count is at most 32 unless bit 5 of it and a lower one are set.\<close>

lemma six_bits_le_32:
  fixes c :: int
  assumes "0 \<le> c" "c < 64"
  shows "c \<le> 32 \<longleftrightarrow> (bit c 5 \<longrightarrow> (\<forall>j<5. \<not> bit c j))"
proof -
  have "\<forall>c \<in> {0..63 :: int}. c \<le> 32 \<longleftrightarrow> (bit c 5 \<longrightarrow> (\<forall>j \<in> {0, 1, 2, 3, 4}. \<not> bit c j))"
    by code_simp
  moreover have "(\<forall>j<5. \<not> bit c j) \<longleftrightarrow> (\<forall>j \<in> {0, 1, 2, 3, 4}. \<not> bit c j)"
    by (auto simp: less_Suc_eq numeral_eq_Suc)
  moreover have "c \<in> {0..63}" using assms by simp
  ultimately show ?thesis by blast
qed

lemma all_shift_less: "(\<forall>j<k. P (a + j)) \<longleftrightarrow> (\<forall>n. a \<le> n \<and> n < a + k \<longrightarrow> P (n :: nat))"
proof
  assume l: "\<forall>j<k. P (a + j)"
  show "\<forall>n. a \<le> n \<and> n < a + k \<longrightarrow> P n"
  proof (intro allI impI)
    fix n
    assume "a \<le> n \<and> n < a + k"
    then have "n - a < k" "a + (n - a) = n" by auto
    with l show "P n" by metis
  qed
qed simp

lemma src_count_le_32: "src_count w \<le> 32 \<longleftrightarrow> (bit w 13 \<longrightarrow> (\<forall>n. 8 \<le> n \<and> n < 13 \<longrightarrow> \<not> bit w n))"
proof -
  have b: "bit (src_count w) j \<longleftrightarrow> j < 6 \<and> bit w (8 + j)" for j
    by (simp add: src_count_def bit_take_bit_iff bit_drop_bit_eq add.commute)
  have "src_count w \<le> 32 \<longleftrightarrow> (bit (src_count w) 5 \<longrightarrow> (\<forall>j<5. \<not> bit (src_count w) j))"
    by (rule six_bits_le_32) (rule count_bounds)+
  also have "\<dots> \<longleftrightarrow> (bit w 13 \<longrightarrow> (\<forall>j<5. \<not> bit w (8 + j)))"
    by (simp add: b)
  finally show ?thesis using all_shift_less [of 5 "\<lambda>n. \<not> bit w n" 8] by simp
qed

lemma dst_count_le_32: "dst_count w \<le> 32 \<longleftrightarrow> (bit w 19 \<longrightarrow> (\<forall>n. 14 \<le> n \<and> n < 19 \<longrightarrow> \<not> bit w n))"
proof -
  have b: "bit (dst_count w) j \<longleftrightarrow> j < 6 \<and> bit w (14 + j)" for j
    by (simp add: dst_count_def bit_take_bit_iff bit_drop_bit_eq add.commute)
  have "dst_count w \<le> 32 \<longleftrightarrow> (bit (dst_count w) 5 \<longrightarrow> (\<forall>j<5. \<not> bit (dst_count w) j))"
    by (rule six_bits_le_32) (rule count_bounds)+
  also have "\<dots> \<longleftrightarrow> (bit w 19 \<longrightarrow> (\<forall>j<5. \<not> bit w (14 + j)))"
    by (simp add: b)
  finally show ?thesis using all_shift_less [of 5 "\<lambda>n. \<not> bit w n" 14] by simp
qed

text \<open>Normalisation clears the low bits of a count whose top bit is set.\<close>

lemma shift_32:
  "push_bit OFPFW_NW_SRC_SHIFT 32 = OFPFW_NW_SRC_ALL" "push_bit OFPFW_NW_DST_SHIFT 32 = OFPFW_NW_DST_ALL"
  by (simp_all add: wc_consts)

lemma bit_normalize:
  "bit (normalize_wildcards w) n \<longleftrightarrow>
     bit w n \<and> \<not> (8 \<le> n \<and> n < 13 \<and> bit w 13) \<and> \<not> (14 \<le> n \<and> n < 19 \<and> bit w 19)"
proof -
  define w1 where "w1 = (if src_count w > 32 then (w AND NOT OFPFW_NW_SRC_MASK) OR OFPFW_NW_SRC_ALL else w)"
  have w1: "bit w1 k \<longleftrightarrow> bit w k \<and> \<not> (8 \<le> k \<and> k < 13 \<and> bit w 13)" for k
    using src_count_le_32 [of w]
    by (auto simp: w1_def not_less bit_or_iff bit_and_iff bit_not_iff wc_bit)
  have "normalize_wildcards w = (if dst_count w1 > 32 then (w1 AND NOT OFPFW_NW_DST_MASK) OR OFPFW_NW_DST_ALL else w1)"
    by (simp only: normalize_wildcards_def count_mask Let_def shift_32 flip: w1_def)
  then show ?thesis
    using dst_count_le_32 [of w1]
    by (auto simp: not_less bit_or_iff bit_and_iff bit_not_iff wc_bit w1)
qed

definition wc_normal :: "int \<Rightarrow> bool" where
  "wc_normal w \<longleftrightarrow> src_count w \<le> 32 \<and> dst_count w \<le> 32"

lemma wc_normal_bit:
  "wc_normal w \<longleftrightarrow> (bit w 13 \<longrightarrow> (\<forall>n. 8 \<le> n \<and> n < 13 \<longrightarrow> \<not> bit w n)) \<and>
     (bit w 19 \<longrightarrow> (\<forall>n. 14 \<le> n \<and> n < 19 \<longrightarrow> \<not> bit w n))"
  by (simp add: wc_normal_def src_count_le_32 dst_count_le_32)

lemma normalize_normal: "wc_normal w \<Longrightarrow> normalize_wildcards w = w"
  unfolding wc_normal_bit by (rule bit_eqI) (unfold bit_normalize, blast)

lemma wc_normal_normalize: "wc_normal (normalize_wildcards w)"
  unfolding wc_normal_bit bit_normalize by simp

section \<open>Packing and unpacking a match\<close>

definition match_wf :: "ofp_match \<Rightarrow> bool" where
  "match_wf m \<longleftrightarrow> \<not> m_locked m \<and> wc_normal (m_wildcards m) \<and> eth_wf (m_dl_src m) \<and> eth_wf (m_dl_dst m) \<and>
     ip_wf (m_nw_src m) \<and> ip_wf (m_nw_dst m)"

definition eth_dflt :: "EthAddr option \<Rightarrow> EthAddr" where
  "eth_dflt x = (case x of None \<Rightarrow> EMPTY_ETH | Some e \<Rightarrow> e)"

lemma eth_or_empty_dflt: "eth_or_empty x = eth_toRaw (eth_dflt x)"
  by (simp add: eth_or_empty_def eth_dflt_def split: option.splits)

lemma eth_wf_EMPTY [simp]: "eth_wf EMPTY_ETH"
  by (simp add: eth_wf_def EMPTY_ETH_def)

lemma eth_wf_dflt [simp]:
  "match_wf m \<Longrightarrow> eth_wf (eth_dflt (get_dl_src m))" "match_wf m \<Longrightarrow> eth_wf (eth_dflt (get_dl_dst m))"
  by (simp_all add: eth_dflt_def get_bit match_wf_def)

lemma ip_raw_of_int: "code_range FL u \<Longrightarrow> ip_raw (IPAddr_of_int u) = int_to_be 4 u"
  using int_to_be_4 [of "ip_raw (IPAddr_of_int u)"] ip_toUnsigned_of_int [of u]
  by (simp add: ip_toUnsigned_raw)

lemma of_readip_num [codec_simps]:
  "chunk raw off (struct_bytes [FL] [u]) \<Longrightarrow> 0 \<le> u \<Longrightarrow> u < 4294967296 \<Longrightarrow>
   of_readip raw off = Inr (off + 4, IPAddr_of_int u)"
  using ip_raw_of_int [of u] by (simp add: struct_bytes.simps of_readip_chunk)

lemma match_tail_split:
  "struct_bytes [FL, FL, FH, FH] [a, b, c, d] =
   struct_bytes [FL] [a] @ struct_bytes [FL] [b] @ struct_bytes [FH, FH] [c, d]"
  by (simp add: struct_bytes.simps)

text \<open>What arrives at the other end: every field as it was packed, the wildcards read back.\<close>

definition match_received :: "bool \<Rightarrow> ofp_match \<Rightarrow> ofp_match \<Rightarrow> ofp_match" where
  "match_received flow_mod fresh m =
     (let self = fresh\<lparr>m_in_port := or0 (get_in_port m),
          m_dl_src := eth_dflt (get_dl_src m), m_dl_dst := eth_dflt (get_dl_dst m),
          m_dl_vlan := or0 (get_dl_vlan m), m_dl_vlan_pcp := or0 (get_dl_vlan_pcp m),
          m_dl_type := or0 (get_dl_type m), m_nw_tos := check_ip m (or0 (get_nw_tos m)),
          m_nw_proto := check_ip_or_arp m (or0 (get_nw_proto m)),
          m_nw_src := IPAddr_of_int (check_ip_or_arp m (ip_or0 (get_nw_src m))),
          m_nw_dst := IPAddr_of_int (check_ip_or_arp m (ip_or0 (get_nw_dst m))),
          m_tp_src := check_tp m (or0 (get_tp_src m)), m_tp_dst := check_tp m (or0 (get_tp_dst m))\<rparr>
      in self\<lparr>m_wildcards := normalize_wildcards
           (if flow_mod then unwire_wildcards self (wire_wildcards m (m_wildcards m))
            else m_wildcards m)\<rparr>)"

lemma ofp_match_unpack_pack [codec_simps]:
  "ofp_match_pack flow_mod m = Inr bs \<Longrightarrow> match_wf m \<Longrightarrow> chunk raw off bs \<Longrightarrow>
   ofp_match_unpack flow_mod fresh raw off = Inr (match_received flow_mod fresh m, off + 40)"
  apply (clarsimp simp: ofp_match_pack_def Let_def codec_dest eth_or_empty_dflt match_tail_split elim!: rbindE)
  apply (simp add: ofp_match_unpack_def codec_simps ofp_match_len_def match_received_def Let_def)
  done

lemma ofp_match_pack_length:
  "ofp_match_pack flow_mod m = Inr bs \<Longrightarrow> match_wf m \<Longrightarrow> length bs = 40"
  by (clarsimp simp: ofp_match_pack_def Let_def codec_dest eth_or_empty_dflt elim!: rbindE)

text \<open>\<^verbatim>\<open>fix\<close> on an unlocked match, written out.\<close>

definition match_fixed :: "ofp_match \<Rightarrow> ofp_match" where
  "match_fixed m =
     (if get_dl_type m = Some 2048 then
        (if ip_tp_proto (get_nw_proto m) then m
         else m\<lparr>m_tp_src := 0, m_tp_dst := 0,
                m_wildcards := (m_wildcards m OR OFPFW_TP_SRC) OR OFPFW_TP_DST\<rparr>)
      else if get_dl_type m = Some 2054 then
        m\<lparr>m_tp_src := 0, m_tp_dst := 0, m_nw_tos := 0,
          m_wildcards := ((m_wildcards m OR OFPFW_TP_SRC) OR OFPFW_TP_DST) OR OFPFW_NW_TOS\<rparr>
      else
        m\<lparr>m_nw_tos := 0, m_nw_proto := 0, m_nw_src := IPAddr 0, m_nw_dst := IPAddr 0,
          m_tp_src := 0, m_tp_dst := 0,
          m_wildcards := ((((((((m_wildcards m OR OFPFW_NW_TOS) OR OFPFW_NW_PROTO)
            AND NOT OFPFW_NW_SRC_MASK) OR OFPFW_NW_SRC_ALL) AND NOT OFPFW_NW_DST_MASK) OR OFPFW_NW_DST_ALL)
            OR OFPFW_TP_SRC) OR OFPFW_TP_DST)\<rparr>)"

lemma ofp_match_fix_eq: "\<not> m_locked m \<Longrightarrow> ofp_match_fix m = Inr (match_fixed m)"
  by (simp add: ofp_match_fix_def match_fixed_def set_tp_src_def set_tp_dst_def set_nw_tos_def
      set_nw_proto_def set_nw_src_def set_nw_dst_def match_write_def wc_update_def make_addr_def)

lemmas bit_ops = bit_or_iff bit_and_iff bit_not_iff

lemma wc_normal_cong:
  assumes "\<And>n. 8 \<le> n \<Longrightarrow> n \<le> 19 \<Longrightarrow> bit a n = bit b n"
  shows "wc_normal a = wc_normal b"
proof -
  have "src_count a = src_count b"
  proof (rule bit_eqI)
    fix n
    show "bit (src_count a) n = bit (src_count b) n"
      using assms [of "n + 8"] by (auto simp: src_count_def bit_take_bit_iff bit_drop_bit_eq add.commute)
  qed
  moreover have "dst_count a = dst_count b"
  proof (rule bit_eqI)
    fix n
    show "bit (dst_count a) n = bit (dst_count b) n"
      using assms [of "n + 14"] by (auto simp: dst_count_def bit_take_bit_iff bit_drop_bit_eq add.commute)
  qed
  ultimately show ?thesis by (simp add: wc_normal_def)
qed

lemma unwire_wire_tp:
  assumes "wc_normal w"
  shows "normalize_wildcards ((w AND NOT (OFPFW_TP_SRC OR OFPFW_TP_DST)) OR (OFPFW_TP_SRC OR OFPFW_TP_DST))
    = (w OR OFPFW_TP_SRC) OR OFPFW_TP_DST"
proof -
  have eq: "(w AND NOT (OFPFW_TP_SRC OR OFPFW_TP_DST)) OR (OFPFW_TP_SRC OR OFPFW_TP_DST)
      = (w OR OFPFW_TP_SRC) OR OFPFW_TP_DST"
    by (rule bit_eqI) (auto simp: bit_ops wc_bit)
  have "wc_normal ((w OR OFPFW_TP_SRC) OR OFPFW_TP_DST) = wc_normal w"
    by (rule wc_normal_cong) (auto simp: bit_ops wc_bit)
  with assms eq show ?thesis by (simp add: normalize_normal)
qed

lemma unwire_wire_arp:
  assumes "wc_normal w"
  shows "normalize_wildcards ((w AND NOT (OFPFW_NW_TOS OR OFPFW_TP_SRC OR OFPFW_TP_DST)) OR
      (OFPFW_NW_TOS OR OFPFW_TP_SRC OR OFPFW_TP_DST))
    = ((w OR OFPFW_TP_SRC) OR OFPFW_TP_DST) OR OFPFW_NW_TOS"
proof -
  have eq: "(w AND NOT (OFPFW_NW_TOS OR OFPFW_TP_SRC OR OFPFW_TP_DST)) OR
      (OFPFW_NW_TOS OR OFPFW_TP_SRC OR OFPFW_TP_DST)
      = ((w OR OFPFW_TP_SRC) OR OFPFW_TP_DST) OR OFPFW_NW_TOS"
    by (rule bit_eqI) (auto simp: bit_ops wc_bit)
  have "wc_normal (((w OR OFPFW_TP_SRC) OR OFPFW_TP_DST) OR OFPFW_NW_TOS) = wc_normal w"
    by (rule wc_normal_cong) (auto simp: bit_ops wc_bit)
  with assms eq show ?thesis by (simp add: normalize_normal)
qed

lemma unwire_wire_other:
  assumes "\<And>n. bit c n \<longrightarrow> n = 21 \<or> n = 5 \<or> (8 \<le> n \<and> n \<le> 19) \<or> n = 6 \<or> n = 7"
  shows "normalize_wildcards ((w AND NOT c) OR
      (OFPFW_NW_TOS OR OFPFW_NW_PROTO OR OFPFW_NW_SRC_MASK OR OFPFW_NW_DST_MASK OR OFPFW_TP_SRC OR OFPFW_TP_DST))
    = ((((((((w OR OFPFW_NW_TOS) OR OFPFW_NW_PROTO)
            AND NOT OFPFW_NW_SRC_MASK) OR OFPFW_NW_SRC_ALL) AND NOT OFPFW_NW_DST_MASK) OR OFPFW_NW_DST_ALL)
            OR OFPFW_TP_SRC) OR OFPFW_TP_DST)" (is "?l = ?r")
proof (rule bit_eqI)
  fix n
  show "bit ?l n = bit ?r n"
    using assms [of n] by (simp add: bit_normalize bit_ops wc_bit) linarith
qed

lemma received_wildcards:
  assumes "match_wf m"
  shows "m_wildcards (match_received True fresh m) = m_wildcards (match_fixed m)"
proof -
  have n: "wc_normal (m_wildcards m)" using assms by (simp add: match_wf_def)
  let ?rest = "OFPFW_NW_TOS OR OFPFW_NW_PROTO OR OFPFW_NW_SRC_MASK OR OFPFW_NW_DST_MASK OR OFPFW_TP_SRC OR OFPFW_TP_DST"
  let ?ip6 = "OFPFW_NW_SRC_MASK OR OFPFW_NW_DST_MASK OR OFPFW_TP_SRC OR OFPFW_TP_DST"
  consider (ip) "get_dl_type m = Some 2048" "ip_tp_proto (get_nw_proto m)"
    | (ip_other) "get_dl_type m = Some 2048" "\<not> ip_tp_proto (get_nw_proto m)"
    | (arp) "get_dl_type m = Some 2054"
    | (ip6) "get_dl_type m = Some 34525"
    | (other) "get_dl_type m \<noteq> Some 2048" "get_dl_type m \<noteq> Some 2054" "get_dl_type m \<noteq> Some 34525"
    by blast
  then show ?thesis
  proof cases
    case ip
    then have "ip_tp_proto (Some (or0 (get_nw_proto m)))" by (auto simp: ip_tp_proto_def or0_def)
    with ip n show ?thesis
      by (simp add: match_received_def match_fixed_def unwire_wildcards_def wire_wildcards_def Let_def
          check_ip_or_arp_def normalize_normal or0_def)
  next
    case ip_other
    then have "\<not> ip_tp_proto (Some (or0 (get_nw_proto m)))"
      by (cases "get_nw_proto m") (auto simp: ip_tp_proto_def or0_def)
    with ip_other unwire_wire_tp [OF n] show ?thesis
      by (simp add: match_received_def match_fixed_def unwire_wildcards_def wire_wildcards_def Let_def
          check_ip_or_arp_def or0_def)
  next
    case arp
    with unwire_wire_arp [OF n] show ?thesis
      by (simp add: match_received_def match_fixed_def unwire_wildcards_def wire_wildcards_def Let_def or0_def)
  next
    case ip6
    have "bit ?ip6 k \<longrightarrow> k = 21 \<or> k = 5 \<or> (8 \<le> k \<and> k \<le> 19) \<or> k = 6 \<or> k = 7" for k
      by (simp add: bit_ops wc_bit)
    from unwire_wire_other [of ?ip6, OF this] ip6 show ?thesis
      by (simp add: match_received_def match_fixed_def unwire_wildcards_def wire_wildcards_def Let_def or0_def)
  next
    case other
    then have t: "or0 (get_dl_type m) \<noteq> 2048 \<and> or0 (get_dl_type m) \<noteq> 2054"
      by (cases "get_dl_type m") (auto simp: or0_def)
    have "bit ?rest k \<longrightarrow> k = 21 \<or> k = 5 \<or> (8 \<le> k \<and> k \<le> 19) \<or> k = 6 \<or> k = 7" for k
      by (simp add: bit_ops wc_bit)
    from unwire_wire_other [of ?rest, OF this] other t show ?thesis
      by (simp add: match_received_def match_fixed_def unwire_wildcards_def wire_wildcards_def Let_def)
  qed
qed


text \<open>Which bits \<^verbatim>\<open>fix\<close> leaves alone and which it sets, and which fields it keeps.\<close>

lemma fixed_bit:
  "n < 5 \<or> n = 20 \<Longrightarrow> bit (m_wildcards (match_fixed m)) n = bit (m_wildcards m) n"
  "bit (m_wildcards (match_fixed m)) 5 \<longleftrightarrow>
     bit (m_wildcards m) 5 \<or> (get_dl_type m \<noteq> Some 2048 \<and> get_dl_type m \<noteq> Some 2054)"
  "n = 6 \<or> n = 7 \<Longrightarrow> bit (m_wildcards (match_fixed m)) n \<longleftrightarrow>
     bit (m_wildcards m) n \<or> \<not> (get_dl_type m = Some 2048 \<and> ip_tp_proto (get_nw_proto m))"
  "bit (m_wildcards (match_fixed m)) 21 \<longleftrightarrow> bit (m_wildcards m) 21 \<or> get_dl_type m \<noteq> Some 2048"
  "n = 13 \<or> n = 19 \<Longrightarrow> bit (m_wildcards (match_fixed m)) n \<longleftrightarrow>
     bit (m_wildcards m) n \<or> (get_dl_type m \<noteq> Some 2048 \<and> get_dl_type m \<noteq> Some 2054)"
  by (auto simp: match_fixed_def bit_ops wc_bit)

lemma fixed_kept [simp]:
  "m_in_port (match_fixed m) = m_in_port m" "m_dl_src (match_fixed m) = m_dl_src m"
  "m_dl_dst (match_fixed m) = m_dl_dst m" "m_dl_vlan (match_fixed m) = m_dl_vlan m"
  "m_dl_vlan_pcp (match_fixed m) = m_dl_vlan_pcp m" "m_dl_type (match_fixed m) = m_dl_type m"
  "m_locked (match_fixed m) = m_locked m"
  by (simp_all add: match_fixed_def)

lemma fixed_nw:
  "get_dl_type m = Some 2048 \<or> get_dl_type m = Some 2054 \<Longrightarrow>
     m_nw_proto (match_fixed m) = m_nw_proto m \<and> m_nw_src (match_fixed m) = m_nw_src m \<and>
     m_nw_dst (match_fixed m) = m_nw_dst m"
  "get_dl_type m = Some 2048 \<Longrightarrow> m_nw_tos (match_fixed m) = m_nw_tos m"
  "get_dl_type m = Some 2048 \<Longrightarrow> ip_tp_proto (get_nw_proto m) \<Longrightarrow>
     m_tp_src (match_fixed m) = m_tp_src m \<and> m_tp_dst (match_fixed m) = m_tp_dst m"
  by (auto simp: match_fixed_def)

lemma received_eq_fixed:
  assumes wf: "match_wf m"
  shows "ofp_match_eq (match_received True fresh m) (match_fixed m)"
proof -
  note w = received_wildcards [OF wf, of fresh]
  have "get_in_port (match_received True fresh m) = get_in_port (match_fixed m)"
    "get_dl_src (match_received True fresh m) = get_dl_src (match_fixed m)"
    "get_dl_dst (match_received True fresh m) = get_dl_dst (match_fixed m)"
    "get_dl_vlan (match_received True fresh m) = get_dl_vlan (match_fixed m)"
    "get_dl_vlan_pcp (match_received True fresh m) = get_dl_vlan_pcp (match_fixed m)"
    "get_dl_type (match_received True fresh m) = get_dl_type (match_fixed m)"
    by (simp_all add: get_bit w fixed_bit)
      (simp_all add: match_received_def Let_def or0_def eth_dflt_def get_bit)
  moreover have "get_nw_tos (match_received True fresh m) = get_nw_tos (match_fixed m)"
    by (simp add: get_bit(10) w fixed_bit fixed_nw)
      (simp add: match_received_def Let_def or0_def check_ip_def get_bit(10))
  moreover have "get_nw_proto (match_received True fresh m) = get_nw_proto (match_fixed m)"
    by (simp add: get_bit(6) w fixed_bit fixed_nw)
      (simp add: match_received_def Let_def or0_def check_ip_or_arp_def get_bit(6))
  moreover have "get_tp_src (match_received True fresh m) = get_tp_src (match_fixed m)"
    "get_tp_dst (match_received True fresh m) = get_tp_dst (match_fixed m)"
    by (simp_all add: get_bit(7,8) w fixed_bit fixed_nw)
      (simp_all add: match_received_def Let_def or0_def check_tp_def get_bit(7,8))
  moreover have "get_nw_src (match_received True fresh m) = get_nw_src (match_fixed m)"
    "get_nw_dst (match_received True fresh m) = get_nw_dst (match_fixed m)"
    using wf by (simp_all add: get_nw_bit w fixed_bit fixed_nw)
      (simp_all add: match_received_def Let_def ip_or0_def check_ip_or_arp_def get_nw_bit
        match_wf_def ip_of_toUnsigned)
  ultimately show ?thesis by (simp add: ofp_match_eq_def w)
qed


section \<open>The flow-mod form\<close>

text \<open>
  C20. A match packed for a flow-mod and unpacked from any place in any buffer is equal (in the sense
  of the class's own \<^verbatim>\<open>__eq__\<close>) to what \<^verbatim>\<open>fix\<close> makes of it: the wire form drops exactly the fields
  whose prerequisites are missing, and nothing else is lost.
\<close>

theorem match_flow_mod_roundtrip:
  assumes "match_wf m" "ofp_match_pack True m = Inr bs"
  shows "\<exists>m' f. ofp_match_unpack True ofp_match_init (pre @ bs @ post) (int (length pre)) =
      Inr (m', int (length pre) + 40) \<and> ofp_match_fix m = Inr f \<and> ofp_match_eq m' f"
  using ofp_match_unpack_pack [OF assms(2,1) chunk_middle, of ofp_match_init] assms(1)
    received_eq_fixed [OF assms(1)] ofp_match_fix_eq [of m]
  by (simp add: match_wf_def)

text \<open>TCP to 10.1.2.0/24, port 80, from any port: an IP type, a protocol and a prefix.\<close>

definition sample_match :: ofp_match where
  "sample_match = ofp_match_init
     \<lparr>m_wildcards := 3285071, m_dl_type := 2048, m_nw_proto := 6, m_nw_dst := IPAddr 131338, m_tp_dst := 80\<rparr>"

lemma sample_match_pack:
  "ofp_match_pack True sample_match =
     Inr [0, 50, 32, 79, 0, 0, 0, 0, 0, 0, 0, 0, 0, 0, 0, 0, 0, 0, 0, 0, 0, 0,
      8, 0, 0, 6, 0, 0, 0, 0, 0, 0, 10, 1, 2, 0, 0, 0, 0, 80]"
  by code_simp

lemma sample_match_wf: "match_wf sample_match"
  by code_simp

theorem match_flow_mod_roundtrip_witness:
  "\<exists>m' f. ofp_match_unpack True ofp_match_init ([1, 14] @
      [0, 50, 32, 79, 0, 0, 0, 0, 0, 0, 0, 0, 0, 0, 0, 0, 0, 0, 0, 0, 0, 0,
      8, 0, 0, 6, 0, 0, 0, 0, 0, 0, 10, 1, 2, 0, 0, 0, 0, 80] @ [0]) (int (length [1 :: byte, 14])) =
      Inr (m', int (length [1 :: byte, 14]) + 40) \<and> ofp_match_fix sample_match = Inr f \<and> ofp_match_eq m' f"
  using match_flow_mod_roundtrip [OF sample_match_wf sample_match_pack, of "[1, 14]" "[0]"] .

section \<open>Containment\<close>

text \<open>A match sees another one only through the attributes and the wildcard word.\<close>

lemma eq_bits:
  assumes "ofp_match_eq a b"
  shows "get_nw_src_bits a = get_nw_src_bits b" "get_nw_dst_bits a = get_nw_dst_bits b"
  using assms by (auto simp: ofp_match_eq_def get_nw_bit)

definition nw_covers :: "IPAddr option \<times> int \<Rightarrow> IPAddr option \<times> int \<Rightarrow> bool" where
  "nw_covers mine other \<longleftrightarrow>
     (case fst mine of
        None \<Rightarrow> True
      | Some n \<Rightarrow> snd mine \<le> snd other \<and>
          (case fst other of None \<Rightarrow> False | Some ip \<Rightarrow> ip_inNetwork ip (n, snd mine)))"

text \<open>Addresses as the getters return them: at least one bit when there is an address.\<close>

definition nw_bits_ok :: "IPAddr option \<times> int \<Rightarrow> bool" where
  "nw_bits_ok x \<longleftrightarrow> 0 \<le> snd x \<and> snd x \<le> 32 \<and> (fst x = None \<longleftrightarrow> snd x = 0)"

lemma src_count_31: "\<not> bit w 13 \<Longrightarrow> src_count w \<le> 31"
proof -
  assume "\<not> bit w 13"
  then have "\<not> bit (src_count w) 5" by (simp add: src_count_def bit_take_bit_iff bit_drop_bit_eq)
  moreover have "\<forall>c \<in> {0..63 :: int}. \<not> bit c 5 \<longrightarrow> c \<le> 31" by code_simp
  ultimately show ?thesis using count_bounds(1,2) [of w] by auto
qed

lemma dst_count_31: "\<not> bit w 19 \<Longrightarrow> dst_count w \<le> 31"
proof -
  assume "\<not> bit w 19"
  then have "\<not> bit (dst_count w) 5" by (simp add: dst_count_def bit_take_bit_iff bit_drop_bit_eq)
  moreover have "\<forall>c \<in> {0..63 :: int}. \<not> bit c 5 \<longrightarrow> c \<le> 31" by code_simp
  ultimately show ?thesis using count_bounds(3,4) [of w] by auto
qed

lemma nw_bits_ok [simp]: "nw_bits_ok (get_nw_src_bits m)" "nw_bits_ok (get_nw_dst_bits m)"
  using src_count_31 [of "m_wildcards m"] dst_count_31 [of "m_wildcards m"] count_bounds [of "m_wildcards m"]
  by (cases "bit (m_wildcards m) 13"; cases "bit (m_wildcards m) 19"; simp add: nw_bits_ok_def get_nw_bit)+

lemma nw_check_covers: "nw_bits_ok x \<Longrightarrow> nw_bits_ok y \<Longrightarrow> nw_check x y = Inr (nw_covers x y)"
  by (auto simp: nw_check_def nw_covers_def nw_bits_ok_def split: option.splits)

lemma and_not_mask_mask: "k \<le> l \<Longrightarrow> ((v :: int) AND NOT (mask k)) AND NOT (mask l) = v AND NOT (mask l)"
  by (rule bit_eqI) (auto simp: bit_simps)

lemma inNetwork_trans:
  assumes "ip_inNetwork n (m, a)" "ip_inNetwork ip (n, b)" "a \<le> b"
  shows "ip_inNetwork ip (m, a)"
  using assms and_not_mask_mask [of "nat (32 - b)" "nat (32 - a)" "ip_toUnsigned ip False"]
  unfolding ip_inNetwork_def push_bit_minus_1 prod.case by (metis diff_left_mono nat_mono)

lemma nw_covers_trans: "nw_covers x y \<Longrightarrow> nw_covers y z \<Longrightarrow> nw_covers x z"
  by (auto simp: nw_covers_def split: option.splits intro: inNetwork_trans)

definition field_covers :: "ofp_match \<Rightarrow> ofp_match \<Rightarrow> bool" where
  "field_covers a b \<longleftrightarrow>
     \<not> match_fail (get_in_port a) (get_in_port b) \<and> \<not> match_fail (get_dl_vlan a) (get_dl_vlan b) \<and>
     \<not> match_fail (get_dl_src a) (get_dl_src b) \<and> \<not> match_fail (get_dl_dst a) (get_dl_dst b) \<and>
     \<not> match_fail (get_dl_type a) (get_dl_type b) \<and> \<not> match_fail (get_nw_proto a) (get_nw_proto b) \<and>
     \<not> match_fail (get_tp_src a) (get_tp_src b) \<and> \<not> match_fail (get_tp_dst a) (get_tp_dst b) \<and>
     \<not> match_fail (get_dl_vlan_pcp a) (get_dl_vlan_pcp b) \<and> \<not> match_fail (get_nw_tos a) (get_nw_tos b) \<and>
     nw_covers (get_nw_src_bits a) (get_nw_src_bits b) \<and> nw_covers (get_nw_dst_bits a) (get_nw_dst_bits b)"

lemma match_fail_trans: "\<not> match_fail x y \<Longrightarrow> \<not> match_fail y z \<Longrightarrow> \<not> match_fail x z"
  by (auto simp: match_fail_def split: option.splits)

lemma field_covers_trans: "field_covers a b \<Longrightarrow> field_covers b p \<Longrightarrow> field_covers a p"
  unfolding field_covers_def
  by (elim conjE, intro conjI) ((erule (1) match_fail_trans) | (erule (1) nw_covers_trans))+

definition flag_bits :: "ofp_match \<Rightarrow> int" where
  "flag_bits m = m_wildcards m AND NOT (OFPFW_NW_SRC_MASK OR OFPFW_NW_DST_MASK)"

lemma matches_iff:
  "matches_with_wildcards a b c =
     Inr (ofp_match_eq a b \<or> (c \<longrightarrow> flag_bits a OR flag_bits b = flag_bits a) \<and> field_covers a b)"
  by (simp add: matches_with_wildcards_def Let_def nw_check_covers field_covers_def flag_bits_def)

lemma matches_eq_left:
  assumes "ofp_match_eq a b"
  shows "matches_with_wildcards a p c = matches_with_wildcards b p c"
  using assms eq_bits [OF assms]
  by (simp add: matches_iff field_covers_def flag_bits_def) (simp add: ofp_match_eq_def)

lemma matches_eq_right:
  assumes "ofp_match_eq b p"
  shows "matches_with_wildcards a p c = matches_with_wildcards a b c"
  using assms eq_bits [OF assms]
  by (simp add: matches_iff field_covers_def flag_bits_def) (simp add: ofp_match_eq_def)

text \<open>
  C19. Matching with wildcards never raises, and it is containment: when \<open>a\<close> matches \<open>b\<close> with the
  wildcards of \<open>b\<close> considered, every packet that \<open>b\<close> matches is matched by \<open>a\<close> too, address prefixes
  included.
\<close>

theorem matches_containment:
  assumes "matches_with_wildcards a b True = Inr True" "matches_with_wildcards b p False = Inr True"
  shows "matches_with_wildcards a p False = Inr True"
proof (cases "ofp_match_eq a b \<or> ofp_match_eq b p")
  case True
  with assms show ?thesis
    using matches_eq_left [of a b p] matches_eq_right [of b p a] by (auto simp: matches_iff)
next
  case False
  with assms show ?thesis by (auto simp: matches_iff intro: field_covers_trans)
qed

text \<open>10.1.0.0/16 covers 10.1.2.0/24 on TCP port 80.\<close>

definition sample_wide :: ofp_match where
  "sample_wide = ofp_match_init
     \<lparr>m_wildcards := 3416303, m_dl_type := 2048, m_nw_dst := IPAddr 266\<rparr>"

definition sample_packet :: ofp_match where
  "sample_packet = ofp_match_init
     \<lparr>m_wildcards := 0, m_in_port := 3, m_dl_vlan := 65535, m_dl_type := 2048, m_nw_proto := 6,
      m_nw_src := IPAddr 16777226, m_nw_dst := IPAddr 151126282, m_tp_src := 4000, m_tp_dst := 80\<rparr>"

theorem matches_containment_witness:
  "matches_with_wildcards sample_wide sample_packet False = Inr True"
proof (rule matches_containment)
  show "matches_with_wildcards sample_wide sample_match True = Inr True" by code_simp
  show "matches_with_wildcards sample_match sample_packet False = Inr True" by code_simp
qed

end
