(* ===== verification/OF_Actions.thy ===== *)
theory OF_Actions
  imports OF_Match
begin

text \<open>
  The action classes of \<^verbatim>\<open>libopenflow_01.py\<close> and \<^verbatim>\<open>_unpack_actions\<close>. Each class is a record with
  its constructor, length, \<^verbatim>\<open>pack\<close>, \<^verbatim>\<open>unpack\<close> and \<^verbatim>\<open>__eq__\<close>; the type attribute is a class attribute
  until \<^verbatim>\<open>unpack\<close> writes it. A list of actions is read by a loop over type and length headers;
  what such a loop returns on a packed list is proved once, in the locale \<open>tlv\<close>.
\<close>

definition OFPP_MAX :: int where "OFPP_MAX = 65280"
definition OFPP_IN_PORT :: int where "OFPP_IN_PORT = 65528"
definition OFPP_TABLE :: int where "OFPP_TABLE = 65529"
definition OFPP_NORMAL :: int where "OFPP_NORMAL = 65530"
definition OFPP_FLOOD :: int where "OFPP_FLOOD = 65531"
definition OFPP_ALL :: int where "OFPP_ALL = 65532"
definition OFPP_CONTROLLER :: int where "OFPP_CONTROLLER = 65533"
definition OFPP_LOCAL :: int where "OFPP_LOCAL = 65534"
definition OFPP_NONE :: int where "OFPP_NONE = 65535"

definition OFPAT_OUTPUT :: int where "OFPAT_OUTPUT = 0"
definition OFPAT_SET_VLAN_VID :: int where "OFPAT_SET_VLAN_VID = 1"
definition OFPAT_SET_VLAN_PCP :: int where "OFPAT_SET_VLAN_PCP = 2"
definition OFPAT_STRIP_VLAN :: int where "OFPAT_STRIP_VLAN = 3"
definition OFPAT_SET_DL_SRC :: int where "OFPAT_SET_DL_SRC = 4"
definition OFPAT_SET_DL_DST :: int where "OFPAT_SET_DL_DST = 5"
definition OFPAT_SET_NW_SRC :: int where "OFPAT_SET_NW_SRC = 6"
definition OFPAT_SET_NW_DST :: int where "OFPAT_SET_NW_DST = 7"
definition OFPAT_SET_NW_TOS :: int where "OFPAT_SET_NW_TOS = 8"
definition OFPAT_SET_TP_SRC :: int where "OFPAT_SET_TP_SRC = 9"
definition OFPAT_SET_TP_DST :: int where "OFPAT_SET_TP_DST = 10"
definition OFPAT_ENQUEUE :: int where "OFPAT_ENQUEUE = 11"
definition OFPAT_VENDOR :: int where "OFPAT_VENDOR = 65535"

section \<open>The classes\<close>

subsection \<open>Generic action\<close>

record ofp_action_generic =
  ag_type :: "int option"
  ag_data :: bytes

definition ofp_action_generic_init :: ofp_action_generic where
  "ofp_action_generic_init = \<lparr>ag_type = None, ag_data = pad 4\<rparr>"

definition ofp_action_generic_len :: "ofp_action_generic \<Rightarrow> int" where
  "ofp_action_generic_len self = 4 + int (length (ag_data self))"

definition ofp_action_generic_pack :: "ofp_action_generic \<Rightarrow> bytes res" where
  "ofp_action_generic_pack self =
     rbind (need (ag_type self)) (\<lambda>type.
     rbind (struct_pack [FH, FH] [type, ofp_action_generic_len self]) (\<lambda>p1.
       Inr (p1 @ ag_data self)))"

definition ofp_action_generic_unpack :: "ofp_action_generic \<Rightarrow> bytes \<Rightarrow> int \<Rightarrow> (ofp_action_generic \<times> int) res" where
  "ofp_action_generic_unpack self raw offset0 =
     rbind (of_unpack [FH, FH] raw offset0) (\<lambda>(offset, vs). tup2 vs (\<lambda>type len.
     rbind (of_read raw offset (len - 4)) (\<lambda>(offset, data).
       let self = self\<lparr>ag_type := Some type, ag_data := data\<rparr>
       in if offset - offset0 = ofp_action_generic_len self then Inr (self, offset) else Inl AssertionError)))"

definition ofp_action_generic_eq :: "ofp_action_generic \<Rightarrow> ofp_action_generic \<Rightarrow> bool" where
  "ofp_action_generic_eq a b \<longleftrightarrow>
     ag_type a = ag_type b \<and> ag_data a = ag_data b"

subsection \<open>Output\<close>

record ofp_action_output =
  ao_type :: int
  ao_port :: "int option"
  ao_max_len :: int

definition ofp_action_output_init :: ofp_action_output where
  "ofp_action_output_init = \<lparr>ao_type = 0, ao_port = None, ao_max_len = 65535\<rparr>"

definition ofp_action_output_len :: "ofp_action_output \<Rightarrow> int" where
  "ofp_action_output_len self = 8"

text \<open>\<^verbatim>\<open>pack\<close> clears \<^verbatim>\<open>max_len\<close> unless the packet goes to the controller.\<close>

definition ofp_action_output_pack :: "ofp_action_output \<Rightarrow> (bytes \<times> ofp_action_output) res" where
  "ofp_action_output_pack self =
     (let self = (if ao_port self \<noteq> Some OFPP_CONTROLLER then self\<lparr>ao_max_len := 0\<rparr> else self) in
      rbind (need (ao_port self)) (\<lambda>port.
      rbind (struct_pack [FH, FH, FH, FH]
        [ao_type self, ofp_action_output_len self, port, ao_max_len self]) (\<lambda>p1.
        Inr (p1, self))))"

definition ofp_action_output_unpack :: "ofp_action_output \<Rightarrow> bytes \<Rightarrow> int \<Rightarrow> (ofp_action_output \<times> int) res" where
  "ofp_action_output_unpack self raw offset0 =
     rbind (of_unpack [FH, FH, FH, FH] raw offset0) (\<lambda>(offset, vs). tup4 vs (\<lambda>type len port
       max_len.
       let self = self\<lparr>ao_type := type, ao_port := Some port, ao_max_len := max_len\<rparr>
       in if offset - offset0 = ofp_action_output_len self then Inr (self, offset) else Inl AssertionError))"

definition ofp_action_output_eq :: "ofp_action_output \<Rightarrow> ofp_action_output \<Rightarrow> bool" where
  "ofp_action_output_eq a b \<longleftrightarrow>
     ofp_action_output_len a = ofp_action_output_len b \<and> ao_type a = ao_type b \<and> ao_port a = ao_port
     b \<and> ao_max_len a = ao_max_len b"

subsection \<open>Enqueue\<close>

record ofp_action_enqueue =
  ae_type :: int
  ae_port :: "int option"
  ae_queue_id :: int

definition ofp_action_enqueue_init :: ofp_action_enqueue where
  "ofp_action_enqueue_init = \<lparr>ae_type = 11, ae_port = None, ae_queue_id = 0\<rparr>"

definition ofp_action_enqueue_len :: "ofp_action_enqueue \<Rightarrow> int" where
  "ofp_action_enqueue_len self = 16"

definition ofp_action_enqueue_pack :: "ofp_action_enqueue \<Rightarrow> bytes res" where
  "ofp_action_enqueue_pack self =
     rbind (need (ae_port self)) (\<lambda>port.
     rbind (struct_pack [FH, FH, FH] [ae_type self, ofp_action_enqueue_len self, port])
       (\<lambda>p1.
     rbind (struct_pack [FL] [ae_queue_id self]) (\<lambda>p2.
       Inr (p1 @ pad 6 @ p2))))"

definition ofp_action_enqueue_unpack :: "ofp_action_enqueue \<Rightarrow> bytes \<Rightarrow> int \<Rightarrow> (ofp_action_enqueue \<times> int) res" where
  "ofp_action_enqueue_unpack self raw offset0 =
     rbind (of_unpack [FH, FH, FH] raw offset0) (\<lambda>(offset, vs). tup3 vs (\<lambda>type len port.
     rbind (of_skip raw offset 6) (\<lambda>offset.
     rbind (of_unpack [FL] raw offset) (\<lambda>(offset, vs). tup1 vs (\<lambda>queue_id.
       let self = self\<lparr>ae_type := type, ae_port := Some port, ae_queue_id := queue_id\<rparr>
       in if offset - offset0 = ofp_action_enqueue_len self then Inr (self, offset) else Inl AssertionError)))))"

definition ofp_action_enqueue_eq :: "ofp_action_enqueue \<Rightarrow> ofp_action_enqueue \<Rightarrow> bool" where
  "ofp_action_enqueue_eq a b \<longleftrightarrow>
     ofp_action_enqueue_len a = ofp_action_enqueue_len b \<and> ae_type a = ae_type b \<and> ae_port a =
     ae_port b \<and> ae_queue_id a = ae_queue_id b"

subsection \<open>Strip VLAN\<close>

record ofp_action_strip_vlan =
  asv_type :: int

definition ofp_action_strip_vlan_init :: ofp_action_strip_vlan where
  "ofp_action_strip_vlan_init = \<lparr>asv_type = 3\<rparr>"

definition ofp_action_strip_vlan_len :: "ofp_action_strip_vlan \<Rightarrow> int" where
  "ofp_action_strip_vlan_len self = 8"

definition ofp_action_strip_vlan_pack :: "ofp_action_strip_vlan \<Rightarrow> bytes res" where
  "ofp_action_strip_vlan_pack self =
     rbind (struct_pack [FH, FH, Fl] [asv_type self, ofp_action_strip_vlan_len self, 0])
       (\<lambda>p1.
       Inr p1)"

definition ofp_action_strip_vlan_unpack :: "ofp_action_strip_vlan \<Rightarrow> bytes \<Rightarrow> int \<Rightarrow> (ofp_action_strip_vlan \<times> int) res" where
  "ofp_action_strip_vlan_unpack self raw offset0 =
     rbind (of_unpack [FH, FH] raw offset0) (\<lambda>(offset, vs). tup2 vs (\<lambda>type len.
     rbind (of_skip raw offset 4) (\<lambda>offset.
       let self = self\<lparr>asv_type := type\<rparr>
       in if offset - offset0 = ofp_action_strip_vlan_len self then Inr (self, offset) else Inl AssertionError)))"

definition ofp_action_strip_vlan_eq :: "ofp_action_strip_vlan \<Rightarrow> ofp_action_strip_vlan \<Rightarrow> bool" where
  "ofp_action_strip_vlan_eq a b \<longleftrightarrow>
     ofp_action_strip_vlan_len a = ofp_action_strip_vlan_len b \<and> asv_type a = asv_type b"

subsection \<open>Set VLAN id\<close>

record ofp_action_vlan_vid =
  avv_type :: int
  avv_vlan_vid :: int

definition ofp_action_vlan_vid_init :: ofp_action_vlan_vid where
  "ofp_action_vlan_vid_init = \<lparr>avv_type = 1, avv_vlan_vid = 0\<rparr>"

definition ofp_action_vlan_vid_len :: "ofp_action_vlan_vid \<Rightarrow> int" where
  "ofp_action_vlan_vid_len self = 8"

definition ofp_action_vlan_vid_pack :: "ofp_action_vlan_vid \<Rightarrow> bytes res" where
  "ofp_action_vlan_vid_pack self =
     rbind (struct_pack [FH, FH, FH] [avv_type self, ofp_action_vlan_vid_len self, avv_vlan_vid
       self]) (\<lambda>p1.
       Inr (p1 @ pad 2))"

definition ofp_action_vlan_vid_unpack :: "ofp_action_vlan_vid \<Rightarrow> bytes \<Rightarrow> int \<Rightarrow> (ofp_action_vlan_vid \<times> int) res" where
  "ofp_action_vlan_vid_unpack self raw offset0 =
     rbind (of_unpack [FH, FH, FH] raw offset0) (\<lambda>(offset, vs). tup3 vs (\<lambda>type len vlan_vid.
     rbind (of_skip raw offset 2) (\<lambda>offset.
       let self = self\<lparr>avv_type := type, avv_vlan_vid := vlan_vid\<rparr>
       in if offset - offset0 = ofp_action_vlan_vid_len self then Inr (self, offset) else Inl AssertionError)))"

definition ofp_action_vlan_vid_eq :: "ofp_action_vlan_vid \<Rightarrow> ofp_action_vlan_vid \<Rightarrow> bool" where
  "ofp_action_vlan_vid_eq a b \<longleftrightarrow>
     ofp_action_vlan_vid_len a = ofp_action_vlan_vid_len b \<and> avv_type a = avv_type b \<and> avv_vlan_vid
     a = avv_vlan_vid b"

subsection \<open>Set VLAN priority\<close>

record ofp_action_vlan_pcp =
  avp_type :: int
  avp_vlan_pcp :: int

definition ofp_action_vlan_pcp_init :: ofp_action_vlan_pcp where
  "ofp_action_vlan_pcp_init = \<lparr>avp_type = 2, avp_vlan_pcp = 0\<rparr>"

definition ofp_action_vlan_pcp_len :: "ofp_action_vlan_pcp \<Rightarrow> int" where
  "ofp_action_vlan_pcp_len self = 8"

definition ofp_action_vlan_pcp_pack :: "ofp_action_vlan_pcp \<Rightarrow> bytes res" where
  "ofp_action_vlan_pcp_pack self =
     rbind (struct_pack [FH, FH, FB] [avp_type self, ofp_action_vlan_pcp_len self, avp_vlan_pcp
       self]) (\<lambda>p1.
       Inr (p1 @ pad 3))"

definition ofp_action_vlan_pcp_unpack :: "ofp_action_vlan_pcp \<Rightarrow> bytes \<Rightarrow> int \<Rightarrow> (ofp_action_vlan_pcp \<times> int) res" where
  "ofp_action_vlan_pcp_unpack self raw offset0 =
     rbind (of_unpack [FH, FH, FB] raw offset0) (\<lambda>(offset, vs). tup3 vs (\<lambda>type len vlan_pcp.
     rbind (of_skip raw offset 3) (\<lambda>offset.
       let self = self\<lparr>avp_type := type, avp_vlan_pcp := vlan_pcp\<rparr>
       in if offset - offset0 = ofp_action_vlan_pcp_len self then Inr (self, offset) else Inl AssertionError)))"

definition ofp_action_vlan_pcp_eq :: "ofp_action_vlan_pcp \<Rightarrow> ofp_action_vlan_pcp \<Rightarrow> bool" where
  "ofp_action_vlan_pcp_eq a b \<longleftrightarrow>
     ofp_action_vlan_pcp_len a = ofp_action_vlan_pcp_len b \<and> avp_type a = avp_type b \<and> avp_vlan_pcp
     a = avp_vlan_pcp b"

subsection \<open>Set Ethernet address\<close>

record ofp_action_dl_addr =
  ada_type :: "int option"
  ada_dl_addr :: EthAddr

definition ofp_action_dl_addr_init :: ofp_action_dl_addr where
  "ofp_action_dl_addr_init = \<lparr>ada_type = None, ada_dl_addr = EMPTY_ETH\<rparr>"

definition ofp_action_dl_addr_len :: "ofp_action_dl_addr \<Rightarrow> int" where
  "ofp_action_dl_addr_len self = 16"

definition ofp_action_dl_addr_pack :: "ofp_action_dl_addr \<Rightarrow> bytes res" where
  "ofp_action_dl_addr_pack self =
     rbind (need (ada_type self)) (\<lambda>type.
     rbind (struct_pack [FH, FH] [type, ofp_action_dl_addr_len self]) (\<lambda>p1.
       Inr (p1 @ eth_toRaw (ada_dl_addr self) @ pad 6)))"

definition ofp_action_dl_addr_unpack :: "ofp_action_dl_addr \<Rightarrow> bytes \<Rightarrow> int \<Rightarrow> (ofp_action_dl_addr \<times> int) res" where
  "ofp_action_dl_addr_unpack self raw offset0 =
     rbind (of_unpack [FH, FH] raw offset0) (\<lambda>(offset, vs). tup2 vs (\<lambda>type len.
     rbind (of_readether raw offset) (\<lambda>(offset, dl_addr).
     rbind (of_skip raw offset 6) (\<lambda>offset.
       let self = self\<lparr>ada_type := Some type, ada_dl_addr := dl_addr\<rparr>
       in if offset - offset0 = ofp_action_dl_addr_len self then Inr (self, offset) else Inl AssertionError))))"

definition ofp_action_dl_addr_eq :: "ofp_action_dl_addr \<Rightarrow> ofp_action_dl_addr \<Rightarrow> bool" where
  "ofp_action_dl_addr_eq a b \<longleftrightarrow>
     ofp_action_dl_addr_len a = ofp_action_dl_addr_len b \<and> ada_type a = ada_type b \<and> ada_dl_addr a =
     ada_dl_addr b"

definition ofp_action_dl_addr_set_dst :: "EthAddr \<Rightarrow> ofp_action_dl_addr" where
  "ofp_action_dl_addr_set_dst dl_addr = ofp_action_dl_addr_init\<lparr>ada_type := Some OFPAT_SET_DL_DST, ada_dl_addr := dl_addr\<rparr>"

definition ofp_action_dl_addr_set_src :: "EthAddr \<Rightarrow> ofp_action_dl_addr" where
  "ofp_action_dl_addr_set_src dl_addr = ofp_action_dl_addr_init\<lparr>ada_type := Some OFPAT_SET_DL_SRC, ada_dl_addr := dl_addr\<rparr>"

subsection \<open>Set IP address\<close>

record ofp_action_nw_addr =
  ana_type :: "int option"
  ana_nw_addr :: IPAddr

definition ofp_action_nw_addr_init :: ofp_action_nw_addr where
  "ofp_action_nw_addr_init = \<lparr>ana_type = None, ana_nw_addr = IPAddr 0\<rparr>"

definition ofp_action_nw_addr_len :: "ofp_action_nw_addr \<Rightarrow> int" where
  "ofp_action_nw_addr_len self = 8"

definition ofp_action_nw_addr_pack :: "ofp_action_nw_addr \<Rightarrow> bytes res" where
  "ofp_action_nw_addr_pack self =
     rbind (need (ana_type self)) (\<lambda>type.
     rbind (struct_pack [FH, FH, Fl] [type, ofp_action_nw_addr_len self, ip_toSigned (ana_nw_addr
       self) False]) (\<lambda>p1.
       Inr p1))"

definition ofp_action_nw_addr_unpack :: "ofp_action_nw_addr \<Rightarrow> bytes \<Rightarrow> int \<Rightarrow> (ofp_action_nw_addr \<times> int) res" where
  "ofp_action_nw_addr_unpack self raw offset0 =
     rbind (of_unpack [FH, FH] raw offset0) (\<lambda>(offset, vs). tup2 vs (\<lambda>type len.
     rbind (of_readip raw offset) (\<lambda>(offset, nw_addr).
       let self = self\<lparr>ana_type := Some type, ana_nw_addr := nw_addr\<rparr>
       in if offset - offset0 = ofp_action_nw_addr_len self then Inr (self, offset) else Inl AssertionError)))"

definition ofp_action_nw_addr_eq :: "ofp_action_nw_addr \<Rightarrow> ofp_action_nw_addr \<Rightarrow> bool" where
  "ofp_action_nw_addr_eq a b \<longleftrightarrow>
     ofp_action_nw_addr_len a = ofp_action_nw_addr_len b \<and> ana_type a = ana_type b \<and> ana_nw_addr a =
     ana_nw_addr b"

definition ofp_action_nw_addr_set_dst :: "IPAddr \<Rightarrow> ofp_action_nw_addr" where
  "ofp_action_nw_addr_set_dst nw_addr = ofp_action_nw_addr_init\<lparr>ana_type := Some OFPAT_SET_NW_DST, ana_nw_addr := nw_addr\<rparr>"

definition ofp_action_nw_addr_set_src :: "IPAddr \<Rightarrow> ofp_action_nw_addr" where
  "ofp_action_nw_addr_set_src nw_addr = ofp_action_nw_addr_init\<lparr>ana_type := Some OFPAT_SET_NW_SRC, ana_nw_addr := nw_addr\<rparr>"

subsection \<open>Set TOS\<close>

record ofp_action_nw_tos =
  ant_type :: int
  ant_nw_tos :: int

definition ofp_action_nw_tos_init :: ofp_action_nw_tos where
  "ofp_action_nw_tos_init = \<lparr>ant_type = 8, ant_nw_tos = 0\<rparr>"

definition ofp_action_nw_tos_len :: "ofp_action_nw_tos \<Rightarrow> int" where
  "ofp_action_nw_tos_len self = 8"

definition ofp_action_nw_tos_pack :: "ofp_action_nw_tos \<Rightarrow> bytes res" where
  "ofp_action_nw_tos_pack self =
     rbind (struct_pack [FH, FH, FB] [ant_type self, ofp_action_nw_tos_len self, ant_nw_tos self])
       (\<lambda>p1.
       Inr (p1 @ pad 3))"

definition ofp_action_nw_tos_unpack :: "ofp_action_nw_tos \<Rightarrow> bytes \<Rightarrow> int \<Rightarrow> (ofp_action_nw_tos \<times> int) res" where
  "ofp_action_nw_tos_unpack self raw offset0 =
     rbind (of_unpack [FH, FH, FB] raw offset0) (\<lambda>(offset, vs). tup3 vs (\<lambda>type len nw_tos.
     rbind (of_skip raw offset 3) (\<lambda>offset.
       let self = self\<lparr>ant_type := type, ant_nw_tos := nw_tos\<rparr>
       in if offset - offset0 = ofp_action_nw_tos_len self then Inr (self, offset) else Inl AssertionError)))"

definition ofp_action_nw_tos_eq :: "ofp_action_nw_tos \<Rightarrow> ofp_action_nw_tos \<Rightarrow> bool" where
  "ofp_action_nw_tos_eq a b \<longleftrightarrow>
     ofp_action_nw_tos_len a = ofp_action_nw_tos_len b \<and> ant_type a = ant_type b \<and> ant_nw_tos a =
     ant_nw_tos b"

subsection \<open>Set transport port\<close>

record ofp_action_tp_port =
  atp_type :: "int option"
  atp_tp_port :: int

definition ofp_action_tp_port_init :: ofp_action_tp_port where
  "ofp_action_tp_port_init = \<lparr>atp_type = None, atp_tp_port = 0\<rparr>"

definition ofp_action_tp_port_len :: "ofp_action_tp_port \<Rightarrow> int" where
  "ofp_action_tp_port_len self = 8"

definition ofp_action_tp_port_pack :: "ofp_action_tp_port \<Rightarrow> bytes res" where
  "ofp_action_tp_port_pack self =
     rbind (need (atp_type self)) (\<lambda>type.
     rbind (struct_pack [FH, FH, FH] [type, ofp_action_tp_port_len self, atp_tp_port self])
       (\<lambda>p1.
       Inr (p1 @ pad 2)))"

definition ofp_action_tp_port_unpack :: "ofp_action_tp_port \<Rightarrow> bytes \<Rightarrow> int \<Rightarrow> (ofp_action_tp_port \<times> int) res" where
  "ofp_action_tp_port_unpack self raw offset0 =
     rbind (of_unpack [FH, FH, FH] raw offset0) (\<lambda>(offset, vs). tup3 vs (\<lambda>type len tp_port.
     rbind (of_skip raw offset 2) (\<lambda>offset.
       let self = self\<lparr>atp_type := Some type, atp_tp_port := tp_port\<rparr>
       in if offset - offset0 = ofp_action_tp_port_len self then Inr (self, offset) else Inl AssertionError)))"

definition ofp_action_tp_port_eq :: "ofp_action_tp_port \<Rightarrow> ofp_action_tp_port \<Rightarrow> bool" where
  "ofp_action_tp_port_eq a b \<longleftrightarrow>
     ofp_action_tp_port_len a = ofp_action_tp_port_len b \<and> atp_type a = atp_type b \<and> atp_tp_port a =
     atp_tp_port b"

definition ofp_action_tp_port_set_dst :: "int \<Rightarrow> ofp_action_tp_port" where
  "ofp_action_tp_port_set_dst tp_port = ofp_action_tp_port_init\<lparr>atp_type := Some OFPAT_SET_TP_DST, atp_tp_port := tp_port\<rparr>"

definition ofp_action_tp_port_set_src :: "int \<Rightarrow> ofp_action_tp_port" where
  "ofp_action_tp_port_set_src tp_port = ofp_action_tp_port_init\<lparr>atp_type := Some OFPAT_SET_TP_SRC, atp_tp_port := tp_port\<rparr>"

subsection \<open>Vendor action\<close>

record ofp_action_vendor_generic =
  avg_type :: int
  avg_vendor :: int
  avg_body :: bytes

definition ofp_action_vendor_generic_init :: ofp_action_vendor_generic where
  "ofp_action_vendor_generic_init = \<lparr>avg_type = 65535, avg_vendor = 0, avg_body = []\<rparr>"

definition ofp_action_vendor_generic_len :: "ofp_action_vendor_generic \<Rightarrow> int" where
  "ofp_action_vendor_generic_len self = 8 + int (length (avg_body self))"

definition ofp_action_vendor_generic_pack :: "ofp_action_vendor_generic \<Rightarrow> bytes res" where
  "ofp_action_vendor_generic_pack self =
     rbind (struct_pack [FH, FH, FL] [avg_type self, 8 + int (length (avg_body self)), avg_vendor
       self]) (\<lambda>p1.
       Inr (p1 @ avg_body self))"

definition ofp_action_vendor_generic_unpack :: "ofp_action_vendor_generic \<Rightarrow> bytes \<Rightarrow> int \<Rightarrow> (ofp_action_vendor_generic \<times> int) res" where
  "ofp_action_vendor_generic_unpack self raw offset0 =
     rbind (of_unpack [FH, FH, FL] raw offset0) (\<lambda>(offset, vs). tup3 vs (\<lambda>type len vendor.
     rbind (of_read raw offset (len - 8)) (\<lambda>(offset, body).
       let self = self\<lparr>avg_type := type, avg_vendor := vendor, avg_body := body\<rparr>
       in if offset - offset0 = ofp_action_vendor_generic_len self then Inr (self, offset) else Inl AssertionError)))"

definition ofp_action_vendor_generic_eq :: "ofp_action_vendor_generic \<Rightarrow> ofp_action_vendor_generic \<Rightarrow> bool" where
  "ofp_action_vendor_generic_eq a b \<longleftrightarrow>
     ofp_action_vendor_generic_len a = ofp_action_vendor_generic_len b \<and> avg_type a = avg_type b
     \<and> avg_vendor a = avg_vendor b"

section \<open>Any action\<close>

text \<open>The class of an action object is its constructor.\<close>

datatype ofp_action =
    AGeneric ofp_action_generic
  | AOutput ofp_action_output
  | AEnqueue ofp_action_enqueue
  | AStripVlan ofp_action_strip_vlan
  | AVlanVid ofp_action_vlan_vid
  | AVlanPcp ofp_action_vlan_pcp
  | ADlAddr ofp_action_dl_addr
  | ANwAddr ofp_action_nw_addr
  | ANwTos ofp_action_nw_tos
  | ATpPort ofp_action_tp_port
  | AVendor ofp_action_vendor_generic

fun action_len :: "ofp_action \<Rightarrow> int" where
  "action_len (AGeneric a) = ofp_action_generic_len a"
| "action_len (AOutput a) = ofp_action_output_len a"
| "action_len (AEnqueue a) = ofp_action_enqueue_len a"
| "action_len (AStripVlan a) = ofp_action_strip_vlan_len a"
| "action_len (AVlanVid a) = ofp_action_vlan_vid_len a"
| "action_len (AVlanPcp a) = ofp_action_vlan_pcp_len a"
| "action_len (ADlAddr a) = ofp_action_dl_addr_len a"
| "action_len (ANwAddr a) = ofp_action_nw_addr_len a"
| "action_len (ANwTos a) = ofp_action_nw_tos_len a"
| "action_len (ATpPort a) = ofp_action_tp_port_len a"
| "action_len (AVendor a) = ofp_action_vendor_generic_len a"

fun action_type :: "ofp_action \<Rightarrow> int option" where
  "action_type (AGeneric a) = ag_type a"
| "action_type (AOutput a) = Some (ao_type a)"
| "action_type (AEnqueue a) = Some (ae_type a)"
| "action_type (AStripVlan a) = Some (asv_type a)"
| "action_type (AVlanVid a) = Some (avv_type a)"
| "action_type (AVlanPcp a) = Some (avp_type a)"
| "action_type (ADlAddr a) = ada_type a"
| "action_type (ANwAddr a) = ana_type a"
| "action_type (ANwTos a) = Some (ant_type a)"
| "action_type (ATpPort a) = atp_type a"
| "action_type (AVendor a) = Some (avg_type a)"

fun action_pack :: "ofp_action \<Rightarrow> (bytes \<times> ofp_action) res" where
  "action_pack (AGeneric a) = rbind (ofp_action_generic_pack a) (\<lambda>bs. Inr (bs, AGeneric a))"
| "action_pack (AOutput a) = rbind (ofp_action_output_pack a) (\<lambda>(bs, a). Inr (bs, AOutput a))"
| "action_pack (AEnqueue a) = rbind (ofp_action_enqueue_pack a) (\<lambda>bs. Inr (bs, AEnqueue a))"
| "action_pack (AStripVlan a) = rbind (ofp_action_strip_vlan_pack a) (\<lambda>bs. Inr (bs, AStripVlan a))"
| "action_pack (AVlanVid a) = rbind (ofp_action_vlan_vid_pack a) (\<lambda>bs. Inr (bs, AVlanVid a))"
| "action_pack (AVlanPcp a) = rbind (ofp_action_vlan_pcp_pack a) (\<lambda>bs. Inr (bs, AVlanPcp a))"
| "action_pack (ADlAddr a) = rbind (ofp_action_dl_addr_pack a) (\<lambda>bs. Inr (bs, ADlAddr a))"
| "action_pack (ANwAddr a) = rbind (ofp_action_nw_addr_pack a) (\<lambda>bs. Inr (bs, ANwAddr a))"
| "action_pack (ANwTos a) = rbind (ofp_action_nw_tos_pack a) (\<lambda>bs. Inr (bs, ANwTos a))"
| "action_pack (ATpPort a) = rbind (ofp_action_tp_port_pack a) (\<lambda>bs. Inr (bs, ATpPort a))"
| "action_pack (AVendor a) = rbind (ofp_action_vendor_generic_pack a) (\<lambda>bs. Inr (bs, AVendor a))"

fun action_unpack :: "ofp_action \<Rightarrow> bytes \<Rightarrow> int \<Rightarrow> (ofp_action \<times> int) res" where
  "action_unpack (AGeneric a) raw offset = rbind (ofp_action_generic_unpack a raw offset) (\<lambda>(a, offset). Inr (AGeneric a, offset))"
| "action_unpack (AOutput a) raw offset = rbind (ofp_action_output_unpack a raw offset) (\<lambda>(a, offset). Inr (AOutput a, offset))"
| "action_unpack (AEnqueue a) raw offset = rbind (ofp_action_enqueue_unpack a raw offset) (\<lambda>(a, offset). Inr (AEnqueue a, offset))"
| "action_unpack (AStripVlan a) raw offset = rbind (ofp_action_strip_vlan_unpack a raw offset) (\<lambda>(a, offset). Inr (AStripVlan a, offset))"
| "action_unpack (AVlanVid a) raw offset = rbind (ofp_action_vlan_vid_unpack a raw offset) (\<lambda>(a, offset). Inr (AVlanVid a, offset))"
| "action_unpack (AVlanPcp a) raw offset = rbind (ofp_action_vlan_pcp_unpack a raw offset) (\<lambda>(a, offset). Inr (AVlanPcp a, offset))"
| "action_unpack (ADlAddr a) raw offset = rbind (ofp_action_dl_addr_unpack a raw offset) (\<lambda>(a, offset). Inr (ADlAddr a, offset))"
| "action_unpack (ANwAddr a) raw offset = rbind (ofp_action_nw_addr_unpack a raw offset) (\<lambda>(a, offset). Inr (ANwAddr a, offset))"
| "action_unpack (ANwTos a) raw offset = rbind (ofp_action_nw_tos_unpack a raw offset) (\<lambda>(a, offset). Inr (ANwTos a, offset))"
| "action_unpack (ATpPort a) raw offset = rbind (ofp_action_tp_port_unpack a raw offset) (\<lambda>(a, offset). Inr (ATpPort a, offset))"
| "action_unpack (AVendor a) raw offset = rbind (ofp_action_vendor_generic_unpack a raw offset) (\<lambda>(a, offset). Inr (AVendor a, offset))"

text \<open>Objects of different classes are never equal.\<close>

fun action_eq :: "ofp_action \<Rightarrow> ofp_action \<Rightarrow> bool" where
  "action_eq (AGeneric a) y = (case y of AGeneric b \<Rightarrow> ofp_action_generic_eq a b | _ \<Rightarrow> False)"
| "action_eq (AOutput a) y = (case y of AOutput b \<Rightarrow> ofp_action_output_eq a b | _ \<Rightarrow> False)"
| "action_eq (AEnqueue a) y = (case y of AEnqueue b \<Rightarrow> ofp_action_enqueue_eq a b | _ \<Rightarrow> False)"
| "action_eq (AStripVlan a) y = (case y of AStripVlan b \<Rightarrow> ofp_action_strip_vlan_eq a b | _ \<Rightarrow> False)"
| "action_eq (AVlanVid a) y = (case y of AVlanVid b \<Rightarrow> ofp_action_vlan_vid_eq a b | _ \<Rightarrow> False)"
| "action_eq (AVlanPcp a) y = (case y of AVlanPcp b \<Rightarrow> ofp_action_vlan_pcp_eq a b | _ \<Rightarrow> False)"
| "action_eq (ADlAddr a) y = (case y of ADlAddr b \<Rightarrow> ofp_action_dl_addr_eq a b | _ \<Rightarrow> False)"
| "action_eq (ANwAddr a) y = (case y of ANwAddr b \<Rightarrow> ofp_action_nw_addr_eq a b | _ \<Rightarrow> False)"
| "action_eq (ANwTos a) y = (case y of ANwTos b \<Rightarrow> ofp_action_nw_tos_eq a b | _ \<Rightarrow> False)"
| "action_eq (ATpPort a) y = (case y of ATpPort b \<Rightarrow> ofp_action_tp_port_eq a b | _ \<Rightarrow> False)"
| "action_eq (AVendor a) y = (case y of AVendor b \<Rightarrow> ofp_action_vendor_generic_eq a b | _ \<Rightarrow> False)"

text \<open>\<^verbatim>\<open>_action_type_to_class\<close>: a fresh object of the class registered for a type number.\<close>

definition action_type_to_class :: "int \<Rightarrow> ofp_action option" where
  "action_type_to_class t =
     (if t = 0 then Some (AOutput ofp_action_output_init)
      else if t = 1 then Some (AVlanVid ofp_action_vlan_vid_init)
      else if t = 2 then Some (AVlanPcp ofp_action_vlan_pcp_init)
      else if t = 3 then Some (AStripVlan ofp_action_strip_vlan_init)
      else if t = 4 then Some (ADlAddr ofp_action_dl_addr_init)
      else if t = 5 then Some (ADlAddr ofp_action_dl_addr_init)
      else if t = 6 then Some (ANwAddr ofp_action_nw_addr_init)
      else if t = 7 then Some (ANwAddr ofp_action_nw_addr_init)
      else if t = 8 then Some (ANwTos ofp_action_nw_tos_init)
      else if t = 9 then Some (ATpPort ofp_action_tp_port_init)
      else if t = 10 then Some (ATpPort ofp_action_tp_port_init)
      else if t = 11 then Some (AEnqueue ofp_action_enqueue_init)
      else if t = 65535 then Some (AVendor ofp_action_vendor_generic_init)
      else None)"

definition action_new :: "int \<Rightarrow> ofp_action" where
  "action_new t =
     (case action_type_to_class t of None \<Rightarrow> AGeneric ofp_action_generic_init | Some a \<Rightarrow> a)"

lemma action_len_pos: "0 < action_len a"
  by (cases a) (simp_all add: ofp_action_generic_len_def ofp_action_output_len_def ofp_action_enqueue_len_def ofp_action_strip_vlan_len_def ofp_action_vlan_vid_len_def ofp_action_vlan_pcp_len_def ofp_action_dl_addr_len_def ofp_action_nw_addr_len_def ofp_action_nw_tos_len_def ofp_action_tp_port_len_def ofp_action_vendor_generic_len_def)

text \<open>
  The loop of \<^verbatim>\<open>_unpack_actions\<close>. Every action object is at least four bytes long and its length
  has to be the one in the header, so the offset grows in every round.
\<close>

function unpack_actions_loop :: "bytes \<Rightarrow> int \<Rightarrow> int \<Rightarrow> (int \<times> ofp_action list) res" where
  "unpack_actions_loop b stop offset =
     (if offset < stop then
        rbind (struct_unpack_from [FH, FH] b offset) (\<lambda>vs. tup2 vs (\<lambda>t l.
        if int (length b) - offset < l then Inl UnderrunError else
        rbind (action_unpack (action_new t) (py_slice b offset (offset + l)) 0) (\<lambda>(a, _).
        if action_len a \<noteq> l then Inl AssertionError else
        rbind (unpack_actions_loop b stop (offset + l)) (\<lambda>(offset, actions).
          Inr (offset, a # actions)))))
      else Inr (offset, []))"
  by pat_completeness auto
termination
  using action_len_pos by (relation "measure (\<lambda>(b, stop, offset). nat (stop - offset))") auto

declare unpack_actions_loop.simps [simp del]

definition unpack_actions :: "bytes \<Rightarrow> int \<Rightarrow> int \<Rightarrow> (int \<times> ofp_action list) res" where
  "unpack_actions b len offset =
     (if int (length b) - offset < len then Inl UnderrunError
      else unpack_actions_loop b (len + offset) offset)"

definition actions_len :: "ofp_action list \<Rightarrow> int" where
  "actions_len xs = sum_list (map action_len xs)"

section \<open>Round trips\<close>

lemma strip_vlan_bytes: "struct_bytes [FH, FH, Fl] [a, b, 0] = struct_bytes [FH, FH] [a, b] @ pad 4"
  by (simp add: struct_bytes.simps pad_def eval_nat_numeral)

lemma ip_toSigned_bytes: "int_to_be 4 (ip_toSigned ip False) = ip_raw ip"
proof -
  have "int_to_be 4 (signed32 u) = int_to_be 4 u" for u
    using int_to_be_4_mod [of "signed32 u"] int_to_be_4_mod [of u] by (auto simp: signed32_def)
  then show ?thesis
    using int_to_be_4 [of "ip_raw ip"]
    by (simp add: ip_toSigned_def pack_native_def int_to_be_4 and_32_mod int_to_be_4_mod ip_raw_def htonl_def)
qed

lemma nw_addr_bytes:
  "struct_bytes [FH, FH, Fl] [a, b, ip_toSigned ip False] = struct_bytes [FH, FH] [a, b] @ ip_raw ip"
  using ip_toSigned_bytes [of ip] by (simp add: struct_bytes.simps)

lemma ofp_action_generic_unpack_pack [codec_simps]:
  "ofp_action_generic_pack self = Inr bs \<Longrightarrow> chunk raw off bs \<Longrightarrow>
   ofp_action_generic_unpack fresh raw off = Inr (self, off + (4 + int (length (ag_data self))))"
  by (clarsimp simp: ofp_action_generic_pack_def codec_dest elim!: rbindE)
    (simp add: ofp_action_generic_unpack_def ofp_action_generic_len_def of_read_chunk [of _ _ "ag_data self"] codec_simps)

lemma ofp_action_generic_pack_length:
  "ofp_action_generic_pack self = Inr bs \<Longrightarrow> int (length bs) = (4 + int (length (ag_data self)))"
  by (auto simp: ofp_action_generic_pack_def ofp_action_generic_len_def codec_dest elim!: rbindE)

lemma ofp_action_output_unpack_pack [codec_simps]:
  "ofp_action_output_pack self = Inr (bs, self') \<Longrightarrow> chunk raw off bs \<Longrightarrow>
   ofp_action_output_unpack fresh raw off = Inr (self', off + 8)"
  by (clarsimp simp: ofp_action_output_pack_def Let_def codec_dest elim!: rbindE; split if_splits)
    (simp_all add: ofp_action_output_unpack_def ofp_action_output_len_def codec_simps)

lemma ofp_action_output_pack_length: "ofp_action_output_pack self = Inr (bs, self') \<Longrightarrow> int (length bs) = 8"
  by (auto simp: ofp_action_output_pack_def Let_def codec_dest elim!: rbindE split: if_splits)

lemma ofp_action_enqueue_unpack_pack [codec_simps]:
  "ofp_action_enqueue_pack self = Inr bs \<Longrightarrow> chunk raw off bs \<Longrightarrow>
   ofp_action_enqueue_unpack fresh raw off = Inr (self, off + 16)"
  by (clarsimp simp: ofp_action_enqueue_pack_def codec_dest elim!: rbindE)
    (simp add: ofp_action_enqueue_unpack_def ofp_action_enqueue_len_def codec_simps)

lemma ofp_action_enqueue_pack_length:
  "ofp_action_enqueue_pack self = Inr bs \<Longrightarrow> int (length bs) = 16"
  by (auto simp: ofp_action_enqueue_pack_def  codec_dest elim!: rbindE)

lemma ofp_action_strip_vlan_unpack_pack [codec_simps]:
  "ofp_action_strip_vlan_pack self = Inr bs \<Longrightarrow> chunk raw off bs \<Longrightarrow>
   ofp_action_strip_vlan_unpack fresh raw off = Inr (self, off + 8)"
  by (clarsimp simp: ofp_action_strip_vlan_pack_def strip_vlan_bytes codec_dest elim!: rbindE)
    (simp add: ofp_action_strip_vlan_unpack_def ofp_action_strip_vlan_len_def codec_simps)

lemma ofp_action_strip_vlan_pack_length:
  "ofp_action_strip_vlan_pack self = Inr bs \<Longrightarrow> int (length bs) = 8"
  by (auto simp: ofp_action_strip_vlan_pack_def strip_vlan_bytes  codec_dest elim!: rbindE)

lemma ofp_action_vlan_vid_unpack_pack [codec_simps]:
  "ofp_action_vlan_vid_pack self = Inr bs \<Longrightarrow> chunk raw off bs \<Longrightarrow>
   ofp_action_vlan_vid_unpack fresh raw off = Inr (self, off + 8)"
  by (clarsimp simp: ofp_action_vlan_vid_pack_def codec_dest elim!: rbindE)
    (simp add: ofp_action_vlan_vid_unpack_def ofp_action_vlan_vid_len_def codec_simps)

lemma ofp_action_vlan_vid_pack_length:
  "ofp_action_vlan_vid_pack self = Inr bs \<Longrightarrow> int (length bs) = 8"
  by (auto simp: ofp_action_vlan_vid_pack_def  codec_dest elim!: rbindE)

lemma ofp_action_vlan_pcp_unpack_pack [codec_simps]:
  "ofp_action_vlan_pcp_pack self = Inr bs \<Longrightarrow> chunk raw off bs \<Longrightarrow>
   ofp_action_vlan_pcp_unpack fresh raw off = Inr (self, off + 8)"
  by (clarsimp simp: ofp_action_vlan_pcp_pack_def codec_dest elim!: rbindE)
    (simp add: ofp_action_vlan_pcp_unpack_def ofp_action_vlan_pcp_len_def codec_simps)

lemma ofp_action_vlan_pcp_pack_length:
  "ofp_action_vlan_pcp_pack self = Inr bs \<Longrightarrow> int (length bs) = 8"
  by (auto simp: ofp_action_vlan_pcp_pack_def  codec_dest elim!: rbindE)

lemma ofp_action_dl_addr_unpack_pack [codec_simps]:
  "ofp_action_dl_addr_pack self = Inr bs \<Longrightarrow> eth_wf (ada_dl_addr self) \<Longrightarrow> chunk raw off bs \<Longrightarrow>
   ofp_action_dl_addr_unpack fresh raw off = Inr (self, off + 16)"
  by (clarsimp simp: ofp_action_dl_addr_pack_def codec_dest elim!: rbindE)
    (simp add: ofp_action_dl_addr_unpack_def ofp_action_dl_addr_len_def codec_simps)

lemma ofp_action_dl_addr_pack_length:
  "ofp_action_dl_addr_pack self = Inr bs \<Longrightarrow> eth_wf (ada_dl_addr self) \<Longrightarrow> int (length bs) = 16"
  by (auto simp: ofp_action_dl_addr_pack_def  codec_dest elim!: rbindE)

lemma ofp_action_nw_addr_unpack_pack [codec_simps]:
  "ofp_action_nw_addr_pack self = Inr bs \<Longrightarrow> ip_wf (ana_nw_addr self) \<Longrightarrow> chunk raw off bs \<Longrightarrow>
   ofp_action_nw_addr_unpack fresh raw off = Inr (self, off + 8)"
  by (clarsimp simp: ofp_action_nw_addr_pack_def nw_addr_bytes codec_dest elim!: rbindE)
    (simp add: ofp_action_nw_addr_unpack_def ofp_action_nw_addr_len_def codec_simps)

lemma ofp_action_nw_addr_pack_length:
  "ofp_action_nw_addr_pack self = Inr bs \<Longrightarrow> ip_wf (ana_nw_addr self) \<Longrightarrow> int (length bs) = 8"
  by (auto simp: ofp_action_nw_addr_pack_def nw_addr_bytes  codec_dest elim!: rbindE)

lemma ofp_action_nw_tos_unpack_pack [codec_simps]:
  "ofp_action_nw_tos_pack self = Inr bs \<Longrightarrow> chunk raw off bs \<Longrightarrow>
   ofp_action_nw_tos_unpack fresh raw off = Inr (self, off + 8)"
  by (clarsimp simp: ofp_action_nw_tos_pack_def codec_dest elim!: rbindE)
    (simp add: ofp_action_nw_tos_unpack_def ofp_action_nw_tos_len_def codec_simps)

lemma ofp_action_nw_tos_pack_length:
  "ofp_action_nw_tos_pack self = Inr bs \<Longrightarrow> int (length bs) = 8"
  by (auto simp: ofp_action_nw_tos_pack_def  codec_dest elim!: rbindE)

lemma ofp_action_tp_port_unpack_pack [codec_simps]:
  "ofp_action_tp_port_pack self = Inr bs \<Longrightarrow> chunk raw off bs \<Longrightarrow>
   ofp_action_tp_port_unpack fresh raw off = Inr (self, off + 8)"
  by (clarsimp simp: ofp_action_tp_port_pack_def codec_dest elim!: rbindE)
    (simp add: ofp_action_tp_port_unpack_def ofp_action_tp_port_len_def codec_simps)

lemma ofp_action_tp_port_pack_length:
  "ofp_action_tp_port_pack self = Inr bs \<Longrightarrow> int (length bs) = 8"
  by (auto simp: ofp_action_tp_port_pack_def  codec_dest elim!: rbindE)

lemma ofp_action_vendor_generic_unpack_pack [codec_simps]:
  "ofp_action_vendor_generic_pack self = Inr bs \<Longrightarrow> chunk raw off bs \<Longrightarrow>
   ofp_action_vendor_generic_unpack fresh raw off = Inr (self, off + (8 + int (length (avg_body self))))"
  by (clarsimp simp: ofp_action_vendor_generic_pack_def codec_dest elim!: rbindE)
    (simp add: ofp_action_vendor_generic_unpack_def ofp_action_vendor_generic_len_def of_read_chunk [of _ _ "avg_body self"] codec_simps)

lemma ofp_action_vendor_generic_pack_length:
  "ofp_action_vendor_generic_pack self = Inr bs \<Longrightarrow> int (length bs) = (8 + int (length (avg_body self)))"
  by (auto simp: ofp_action_vendor_generic_pack_def  codec_dest elim!: rbindE)

text \<open>
  Well-formed actions: addresses with six bytes or a 32-bit number, the type number of the
  class, and an unregistered type number for the generic container.
\<close>

fun action_wf :: "ofp_action \<Rightarrow> bool" where
  "action_wf (AGeneric a) = (case ag_type a of None \<Rightarrow> False | Some t \<Rightarrow> action_type_to_class t = None)"
| "action_wf (AOutput a) = (ao_type a = 0)"
| "action_wf (AEnqueue a) = (ae_type a = 11)"
| "action_wf (AStripVlan a) = (asv_type a = 3)"
| "action_wf (AVlanVid a) = (avv_type a = 1)"
| "action_wf (AVlanPcp a) = (avp_type a = 2)"
| "action_wf (ADlAddr a) = ((ada_type a = Some 4 \<or> ada_type a = Some 5) \<and> eth_wf (ada_dl_addr a))"
| "action_wf (ANwAddr a) = ((ana_type a = Some 6 \<or> ana_type a = Some 7) \<and> ip_wf (ana_nw_addr a))"
| "action_wf (ANwTos a) = (ant_type a = 8)"
| "action_wf (ATpPort a) = (atp_type a = Some 9 \<or> atp_type a = Some 10)"
| "action_wf (AVendor a) = (avg_type a = 65535)"

lemmas act_len_defs = ofp_action_generic_len_def ofp_action_output_len_def ofp_action_enqueue_len_def ofp_action_strip_vlan_len_def ofp_action_vlan_vid_len_def ofp_action_vlan_pcp_len_def ofp_action_dl_addr_len_def ofp_action_nw_addr_len_def ofp_action_nw_tos_len_def ofp_action_tp_port_len_def ofp_action_vendor_generic_len_def

lemmas act_pack_lengths = ofp_action_generic_pack_length ofp_action_output_pack_length ofp_action_enqueue_pack_length ofp_action_strip_vlan_pack_length ofp_action_vlan_vid_pack_length ofp_action_vlan_pcp_pack_length ofp_action_dl_addr_pack_length ofp_action_nw_addr_pack_length ofp_action_nw_tos_pack_length ofp_action_tp_port_pack_length ofp_action_vendor_generic_pack_length

lemmas act_pack_defs = ofp_action_generic_pack_def ofp_action_output_pack_def ofp_action_enqueue_pack_def ofp_action_strip_vlan_pack_def ofp_action_vlan_vid_pack_def ofp_action_vlan_pcp_pack_def ofp_action_dl_addr_pack_def ofp_action_nw_addr_pack_def ofp_action_nw_tos_pack_def ofp_action_tp_port_pack_def ofp_action_vendor_generic_pack_def

lemma action_pack_length: "action_pack a = Inr (bs, a') \<Longrightarrow> action_wf a \<Longrightarrow> int (length bs) = action_len a'"
  by (cases a) (auto elim!: rbindE dest: act_pack_lengths simp: act_len_defs)

lemma action_pack_class: "action_pack a = Inr (bs, a') \<Longrightarrow> action_wf a \<Longrightarrow> action_type a' = action_type a \<and> action_wf a'"
  by (cases a) (auto simp: ofp_action_output_pack_def Let_def elim!: rbindE split: if_splits)

text \<open>Reading a packed action with a fresh object of the class of its type number.\<close>

lemma action_unpack_pack:
  assumes "action_pack a = Inr (bs, a')" "action_wf a" "action_type a = Some t" "chunk raw off bs"
  shows "action_unpack (action_new t) raw off = Inr (a', off + int (length bs))"
  using assms action_pack_length [OF assms(1,2)]
  by (cases a) (auto elim!: rbindE simp: action_new_def action_type_to_class_def codec_simps act_len_defs split: option.splits if_splits)

lemma struct_second: "code_range FH l \<Longrightarrow> code_decode FH (drop 2 (struct_bytes [FH, FH] [t, l])) = l"
  using code_decode_encode [of FH l] by (simp add: struct_bytes.simps)

lemma action_head:
  assumes "action_pack a = Inr (bs, a')" "action_wf a" "action_type a = Some t"
  shows "4 \<le> length bs \<and> struct_ints [FH, FH] (take 4 bs) = [t, int (length bs)]"
  using assms action_pack_length [OF assms(1,2)]
  by (cases a) (auto elim!: rbindE simp: act_pack_defs act_len_defs Let_def codec_dest struct_head struct_second
      struct_head [where rest = "[]", simplified] split: if_splits)

lemma action_wf_type: "action_pack a = Inr (bs, a') \<Longrightarrow> \<exists>t. action_type a = Some t"
  by (cases a) (auto elim!: rbindE simp: act_pack_defs codec_dest)

text \<open>The loop of \<^verbatim>\<open>_unpack_actions\<close> over the action classes.\<close>

interpretation actions: tlv action_pack "\<lambda>t b. action_unpack (action_new t) b 0" "\<lambda>a. Inr (action_len a)"
  unpack_actions_loop action_wf
proof
  show "unpack_actions_loop b stop offset =
       (if offset < stop then
          rbind (struct_unpack_from [FH, FH] b offset) (\<lambda>vs. tup2 vs (\<lambda>t l.
          if int (length b) - offset < l then Inl UnderrunError else
          rbind (action_unpack (action_new t) (py_slice b offset (offset + l)) 0) (\<lambda>(a, _).
          rbind (Inr (action_len a)) (\<lambda>n. if n \<noteq> l then Inl AssertionError else
          rbind (unpack_actions_loop b stop (offset + l)) (\<lambda>(offset, xs). Inr (offset, a # xs))))))
        else Inr (offset, []))" for b stop offset
    unfolding rbind_simps by (rule unpack_actions_loop.simps)
next
  fix x bs x'
  assume wf: "action_wf x" and p: "action_pack x = Inr (bs, x')"
  from action_wf_type [OF p] obtain t where "action_type x = Some t" by blast
  with wf p show "\<exists>t e. 4 \<le> length bs \<and> struct_ints [FH, FH] (take 4 bs) = [t, int (length bs)] \<and>
       action_unpack (action_new t) bs 0 = Inr (x', e) \<and> Inr (action_len x') = Inr (int (length bs))"
    using action_head [OF p wf] action_unpack_pack [OF p wf _ chunk_whole] action_pack_length [OF p wf]
    by fastforce
qed

lemma unpack_actions_pack [codec_simps]:
  "pack_list action_pack xs = Inr (bs, xs') \<Longrightarrow> list_all action_wf xs \<Longrightarrow> chunk raw off bs \<Longrightarrow>
   n = int (length bs) \<Longrightarrow> unpack_actions raw n off = Inr (off + n, xs')"
  using actions.loop_pack_list [of xs bs xs' raw off] chunk_avail [of raw off bs]
  by (simp add: unpack_actions_def add.commute)

lemma actions_pack_length:
  "pack_list action_pack xs = Inr (bs, xs') \<Longrightarrow> list_all action_wf xs \<Longrightarrow> int (length bs) = actions_len xs'"
  by (induction xs arbitrary: bs xs') (auto simp: actions_len_def action_pack_length elim!: rbindE)

lemma output_len_unchanged: "action_pack a = Inr (bs, a') \<Longrightarrow> action_len a' = action_len a"
  by (cases a) (auto elim!: rbindE simp: act_len_defs)

lemma actions_len_pack: "pack_list action_pack xs = Inr (bs, xs') \<Longrightarrow> actions_len xs' = actions_len xs"
  by (induction xs arbitrary: bs xs') (auto simp: actions_len_def output_len_unchanged elim!: rbindE)

text \<open>
  A list of well-formed actions (every class but the generic container bound to its type
  numbers) that packs is read back by \<^verbatim>\<open>_unpack_actions\<close> from any place in any buffer, action by
  action, as the objects that \<^verbatim>\<open>pack\<close> left behind (an output action that does not go to the
  controller has lost its \<^verbatim>\<open>max_len\<close>); the loop stops exactly behind the list.
\<close>

theorem actions_roundtrip:
  assumes "list_all action_wf xs" "pack_list action_pack xs = Inr (bs, xs')"
  shows "unpack_actions (pre @ bs @ post) (int (length bs)) (int (length pre)) =
      Inr (int (length pre) + int (length bs), xs') \<and> int (length bs) = actions_len xs"
  using unpack_actions_pack [OF assms(2,1) chunk_middle] actions_pack_length [OF assms(2,1)]
    actions_len_pack [OF assms(2)] by simp

definition sample_actions :: "ofp_action list" where
  "sample_actions =
     [ADlAddr (ofp_action_dl_addr_set_dst (EthAddr [2, 0, 0, 0, 0, 7])),
      ANwAddr (ofp_action_nw_addr_set_src (IPAddr 16777226)),
      AOutput (ofp_action_output_init\<lparr>ao_port := Some 3\<rparr>)]"

theorem actions_roundtrip_witness:
  "unpack_actions ([9] @
      [0, 5, 0, 16, 2, 0, 0, 0, 0, 7, 0, 0, 0, 0, 0, 0, 0, 6, 0, 8, 10, 0, 0, 1, 0, 0, 0, 8, 0, 3, 0, 0]
      @ []) 32 1 =
    Inr (33, [ADlAddr (ofp_action_dl_addr_set_dst (EthAddr [2, 0, 0, 0, 0, 7])),
      ANwAddr (ofp_action_nw_addr_set_src (IPAddr 16777226)),
      AOutput (ofp_action_output_init\<lparr>ao_port := Some 3, ao_max_len := 0\<rparr>)])"
proof -
  have "list_all action_wf sample_actions" by code_simp
  moreover have "pack_list action_pack sample_actions =
    Inr ([0, 5, 0, 16, 2, 0, 0, 0, 0, 7, 0, 0, 0, 0, 0, 0, 0, 6, 0, 8, 10, 0, 0, 1, 0, 0, 0, 8, 0, 3, 0, 0],
     [ADlAddr (ofp_action_dl_addr_set_dst (EthAddr [2, 0, 0, 0, 0, 7])),
      ANwAddr (ofp_action_nw_addr_set_src (IPAddr 16777226)),
      AOutput (ofp_action_output_init\<lparr>ao_port := Some 3, ao_max_len := 0\<rparr>)])"
    by code_simp
  ultimately show ?thesis using actions_roundtrip [of sample_actions _ _ "[9]" "[]"] by simp
qed

end
