(* ===== verification/OF_Messages.thy ===== *)
theory OF_Messages
  imports OF_Structs OF_Actions
begin

text \<open>
  The message classes of \<^verbatim>\<open>libopenflow_01.py\<close> apart from statistics: each a record that extends the
  header, with constructor, length, \<^verbatim>\<open>pack\<close>, \<^verbatim>\<open>unpack\<close> and \<^verbatim>\<open>__eq__\<close>, and a lemma saying what
  \<^verbatim>\<open>unpack\<close> makes of the packed bytes wherever they stand. \<^verbatim>\<open>pack\<close> threads the xid generator and
  returns the object it may have changed.
\<close>

subsection \<open>Features reply\<close>

record ofp_features_reply = ofp_header +
  fr_datapath_id :: int
  fr_n_buffers :: int
  fr_n_tables :: int
  fr_capabilities :: int
  fr_actions :: int
  fr_ports :: "ofp_phy_port list"

definition ofp_features_reply_init :: ofp_features_reply where
  "ofp_features_reply_init = \<lparr>hdr_version = OFP_VERSION, hdr_type = 6, hdr_xid = None, fr_datapath_id = 0, fr_n_buffers = 0,
      fr_n_tables = 0, fr_capabilities = 0, fr_actions = 0, fr_ports = []\<rparr>"

definition ofp_features_reply_len :: "ofp_features_reply \<Rightarrow> int" where
  "ofp_features_reply_len self = 32 + int (length (fr_ports self)) * 48"

definition ofp_features_reply_pack :: "xid_gen \<Rightarrow> ofp_features_reply \<Rightarrow> (bytes \<times> ofp_features_reply \<times> xid_gen) res" where
  "ofp_features_reply_pack g self =
     rbind (ofp_header_pack (ofp_header_validate self) (ofp_features_reply_len self) g self)
       (\<lambda>(p0, self, g).
     rbind (struct_pack [FQ, FL, FB] [fr_datapath_id self, fr_n_buffers self, fr_n_tables self])
       (\<lambda>p1.
     rbind (struct_pack [FL, FL] [fr_capabilities self, fr_actions self]) (\<lambda>p2.
     rbind (pack_list phy_port_pk (fr_ports self)) (\<lambda>(p3, xs).
       Inr (p0 @ p1 @ pad 3 @ p2 @ p3, self\<lparr>fr_ports := xs\<rparr>, g)))))"

definition ofp_features_reply_unpack :: "ofp_features_reply \<Rightarrow> bytes \<Rightarrow> int \<Rightarrow> (ofp_features_reply \<times> int \<times> int) res" where
  "ofp_features_reply_unpack self raw offset =
     rbind (ofp_unpack_header self raw offset) (\<lambda>(self, offset, len).
     rbind (of_unpack [FQ, FL, FB] raw offset) (\<lambda>(offset, vs). tup3 vs (\<lambda>datapath_id n_buffers
       n_tables.
     rbind (of_skip raw offset 3) (\<lambda>offset.
     rbind (of_unpack [FL, FL] raw offset) (\<lambda>(offset, vs). tup2 vs (\<lambda>capabilities actions.
     rbind (unpack_n (ofp_phy_port_unpack ofp_phy_port_init) (nat ((len - 32) div 48)) raw offset)
       (\<lambda>(ports, offset).
       let self = self\<lparr>fr_datapath_id := datapath_id, fr_n_buffers := n_buffers, fr_n_tables := n_tables,
            fr_capabilities := capabilities, fr_actions := actions, fr_ports := ports\<rparr>
       in if len = ofp_features_reply_len self then Inr (self, offset, len) else Inl AssertionError)))))))"

definition ofp_features_reply_eq ::
  "xid_gen \<Rightarrow> ofp_features_reply \<Rightarrow> ofp_features_reply \<Rightarrow> bool \<times> ofp_features_reply \<times> ofp_features_reply \<times> xid_gen"
where
  "ofp_features_reply_eq g a b =
     (let (r, a, b, g) = ofp_header_eq (ofp_features_reply_len a) (ofp_features_reply_len b) g a b
      in (r \<and> fr_datapath_id a = fr_datapath_id b \<and> fr_n_buffers a = fr_n_buffers b \<and> fr_n_tables a =
         fr_n_tables b \<and> fr_capabilities a = fr_capabilities b \<and> fr_actions a = fr_actions b \<and>
         list_all2 ofp_phy_port_eq (fr_ports a) (fr_ports b), a, b, g))"

lemma ofp_features_reply_unpack_pack [codec_simps]:
  "ofp_features_reply_pack g self = Inr (bs, self', g') \<Longrightarrow> list_all phy_port_wf (fr_ports self) \<Longrightarrow> chunk raw off bs \<Longrightarrow>
   ofp_features_reply_unpack fresh raw off = Inr (self', off + (32 + int (length (fr_ports self)) * 48), (32 + int (length (fr_ports self)) * 48))"
  by (clarsimp simp: ofp_features_reply_pack_def codec_dest elim!: rbindE dest!: ofp_header_xid_eq)
    (frule (1) ports_pack, simp add: ofp_features_reply_unpack_def ofp_unpack_header_def ofp_features_reply_len_def codec_simps)

lemma ofp_features_reply_pack_length:
  "ofp_features_reply_pack g self = Inr (bs, self', g') \<Longrightarrow> list_all phy_port_wf (fr_ports self) \<Longrightarrow> int (length bs) = (32 + int (length (fr_ports self)) * 48)"
  by (auto simp: ofp_features_reply_pack_def  codec_dest elim!: rbindE dest!: ofp_header_xid_eq ports_pack)

subsection \<open>Set config\<close>

record ofp_set_config = ofp_header +
  sc_flags :: int
  sc_miss_send_len :: int

definition ofp_set_config_init :: ofp_set_config where
  "ofp_set_config_init = \<lparr>hdr_version = OFP_VERSION, hdr_type = 9, hdr_xid = None, sc_flags = 0, sc_miss_send_len =
      OFP_DEFAULT_MISS_SEND_LEN\<rparr>"

definition ofp_set_config_len :: "ofp_set_config \<Rightarrow> int" where
  "ofp_set_config_len self = 12"

definition ofp_set_config_pack :: "xid_gen \<Rightarrow> ofp_set_config \<Rightarrow> (bytes \<times> ofp_set_config \<times> xid_gen) res" where
  "ofp_set_config_pack g self =
     rbind (ofp_header_pack (ofp_header_validate self) (ofp_set_config_len self) g self)
       (\<lambda>(p0, self, g).
     rbind (struct_pack [FH, FH] [sc_flags self, sc_miss_send_len self]) (\<lambda>p1.
       Inr (p0 @ p1, self, g)))"

definition ofp_set_config_unpack :: "ofp_set_config \<Rightarrow> bytes \<Rightarrow> int \<Rightarrow> (ofp_set_config \<times> int \<times> int) res" where
  "ofp_set_config_unpack self raw offset =
     rbind (ofp_unpack_header self raw offset) (\<lambda>(self, offset, len).
     rbind (of_unpack [FH, FH] raw offset) (\<lambda>(offset, vs). tup2 vs (\<lambda>flags miss_send_len.
       let self = self\<lparr>sc_flags := flags, sc_miss_send_len := miss_send_len\<rparr>
       in if len = ofp_set_config_len self then Inr (self, offset, len) else Inl AssertionError)))"

definition ofp_set_config_eq ::
  "xid_gen \<Rightarrow> ofp_set_config \<Rightarrow> ofp_set_config \<Rightarrow> bool \<times> ofp_set_config \<times> ofp_set_config \<times> xid_gen"
where
  "ofp_set_config_eq g a b =
     (let (r, a, b, g) = ofp_header_eq (ofp_set_config_len a) (ofp_set_config_len b) g a b
      in (r \<and> sc_flags a = sc_flags b \<and> sc_miss_send_len a = sc_miss_send_len b, a, b, g))"

lemma ofp_set_config_unpack_pack [codec_simps]:
  "ofp_set_config_pack g self = Inr (bs, self', g') \<Longrightarrow> chunk raw off bs \<Longrightarrow>
   ofp_set_config_unpack fresh raw off = Inr (self', off + 12, 12)"
  by (clarsimp simp: ofp_set_config_pack_def codec_dest elim!: rbindE dest!: ofp_header_xid_eq)
    (simp add: ofp_set_config_unpack_def ofp_unpack_header_def ofp_set_config_len_def codec_simps)

lemma ofp_set_config_pack_length:
  "ofp_set_config_pack g self = Inr (bs, self', g') \<Longrightarrow> int (length bs) = 12"
  by (auto simp: ofp_set_config_pack_def  codec_dest elim!: rbindE dest!: ofp_header_xid_eq)

subsection \<open>Port mod\<close>

record ofp_port_mod = ofp_header +
  pm_port_no :: int
  pm_hw_addr :: EthAddr
  pm_config :: int
  pm_mask :: int
  pm_advertise :: int

definition ofp_port_mod_init :: ofp_port_mod where
  "ofp_port_mod_init = \<lparr>hdr_version = OFP_VERSION, hdr_type = 15, hdr_xid = None, pm_port_no = 0, pm_hw_addr =
      EMPTY_ETH, pm_config = 0, pm_mask = 0, pm_advertise = 0\<rparr>"

text \<open>The address of a port-mod is an address object; \<^verbatim>\<open>len\<close> of one is always six.\<close>

definition eth_len :: "EthAddr \<Rightarrow> int" where "eth_len e = 6"

definition ofp_port_mod_validate :: "ofp_port_mod \<Rightarrow> bool" where
  "ofp_port_mod_validate self \<longleftrightarrow> eth_len (pm_hw_addr self) = 6"

definition ofp_port_mod_len :: "ofp_port_mod \<Rightarrow> int" where
  "ofp_port_mod_len self = 32"

definition ofp_port_mod_pack :: "xid_gen \<Rightarrow> ofp_port_mod \<Rightarrow> (bytes \<times> ofp_port_mod \<times> xid_gen) res" where
  "ofp_port_mod_pack g self =
     rbind (ofp_header_pack (ofp_port_mod_validate self) (ofp_port_mod_len self) g self)
       (\<lambda>(p0, self, g).
     rbind (struct_pack [FH] [pm_port_no self]) (\<lambda>p1.
     rbind (struct_pack [FL, FL, FL] [pm_config self, pm_mask self, pm_advertise self])
       (\<lambda>p2.
       Inr (p0 @ p1 @ eth_toRaw (pm_hw_addr self) @ p2 @ pad 4, self, g))))"

definition ofp_port_mod_unpack :: "ofp_port_mod \<Rightarrow> bytes \<Rightarrow> int \<Rightarrow> (ofp_port_mod \<times> int \<times> int) res" where
  "ofp_port_mod_unpack self raw offset =
     rbind (ofp_unpack_header self raw offset) (\<lambda>(self, offset, len).
     rbind (of_unpack [FH] raw offset) (\<lambda>(offset, vs). tup1 vs (\<lambda>port_no.
     rbind (of_readether raw offset) (\<lambda>(offset, hw_addr).
     rbind (of_unpack [FL, FL, FL] raw offset) (\<lambda>(offset, vs). tup3 vs (\<lambda>config mask advertise.
     rbind (of_skip raw offset 4) (\<lambda>offset.
       let self = self\<lparr>pm_port_no := port_no, pm_hw_addr := hw_addr, pm_config := config, pm_mask := mask,
            pm_advertise := advertise\<rparr>
       in if len = ofp_port_mod_len self then Inr (self, offset, len) else Inl AssertionError)))))))"

definition ofp_port_mod_eq ::
  "xid_gen \<Rightarrow> ofp_port_mod \<Rightarrow> ofp_port_mod \<Rightarrow> bool \<times> ofp_port_mod \<times> ofp_port_mod \<times> xid_gen"
where
  "ofp_port_mod_eq g a b =
     (let (r, a, b, g) = ofp_header_eq (ofp_port_mod_len a) (ofp_port_mod_len b) g a b
      in (r \<and> pm_port_no a = pm_port_no b \<and> pm_hw_addr a = pm_hw_addr b \<and> pm_config a = pm_config b
         \<and> pm_mask a = pm_mask b \<and> pm_advertise a = pm_advertise b, a, b, g))"

lemma ofp_port_mod_unpack_pack [codec_simps]:
  "ofp_port_mod_pack g self = Inr (bs, self', g') \<Longrightarrow> eth_wf (pm_hw_addr self) \<Longrightarrow> chunk raw off bs \<Longrightarrow>
   ofp_port_mod_unpack fresh raw off = Inr (self', off + 32, 32)"
  by (clarsimp simp: ofp_port_mod_pack_def codec_dest elim!: rbindE dest!: ofp_header_xid_eq)
    (simp add: ofp_port_mod_unpack_def ofp_unpack_header_def ofp_port_mod_len_def codec_simps)

lemma ofp_port_mod_pack_length:
  "ofp_port_mod_pack g self = Inr (bs, self', g') \<Longrightarrow> eth_wf (pm_hw_addr self) \<Longrightarrow> int (length bs) = 32"
  by (auto simp: ofp_port_mod_pack_def  codec_dest elim!: rbindE dest!: ofp_header_xid_eq)

subsection \<open>Queue configuration request\<close>

record ofp_queue_get_config_request = ofp_header +
  qr_port :: int

definition ofp_queue_get_config_request_init :: ofp_queue_get_config_request where
  "ofp_queue_get_config_request_init = \<lparr>hdr_version = OFP_VERSION, hdr_type = 20, hdr_xid = None, qr_port = 0\<rparr>"

definition ofp_queue_get_config_request_len :: "ofp_queue_get_config_request \<Rightarrow> int" where
  "ofp_queue_get_config_request_len self = 12"

definition ofp_queue_get_config_request_pack :: "xid_gen \<Rightarrow> ofp_queue_get_config_request \<Rightarrow> (bytes \<times> ofp_queue_get_config_request \<times> xid_gen) res" where
  "ofp_queue_get_config_request_pack g self =
     rbind (ofp_header_pack (ofp_header_validate self) (ofp_queue_get_config_request_len self) g
       self) (\<lambda>(p0, self, g).
     rbind (struct_pack [FH] [qr_port self]) (\<lambda>p1.
       Inr (p0 @ p1 @ pad 2, self, g)))"

definition ofp_queue_get_config_request_unpack :: "ofp_queue_get_config_request \<Rightarrow> bytes \<Rightarrow> int \<Rightarrow> (ofp_queue_get_config_request \<times> int \<times> int) res" where
  "ofp_queue_get_config_request_unpack self raw offset =
     rbind (ofp_unpack_header self raw offset) (\<lambda>(self, offset, len).
     rbind (of_unpack [FH] raw offset) (\<lambda>(offset, vs). tup1 vs (\<lambda>port.
     rbind (of_skip raw offset 2) (\<lambda>offset.
       let self = self\<lparr>qr_port := port\<rparr>
       in if len = ofp_queue_get_config_request_len self then Inr (self, offset, len) else Inl AssertionError))))"

definition ofp_queue_get_config_request_eq ::
  "xid_gen \<Rightarrow> ofp_queue_get_config_request \<Rightarrow> ofp_queue_get_config_request \<Rightarrow> bool \<times> ofp_queue_get_config_request \<times> ofp_queue_get_config_request \<times> xid_gen"
where
  "ofp_queue_get_config_request_eq g a b =
     (let (r, a, b, g) = ofp_header_eq (ofp_queue_get_config_request_len a) (ofp_queue_get_config_request_len b) g a b
      in (r \<and> qr_port a = qr_port b, a, b, g))"

lemma ofp_queue_get_config_request_unpack_pack [codec_simps]:
  "ofp_queue_get_config_request_pack g self = Inr (bs, self', g') \<Longrightarrow> chunk raw off bs \<Longrightarrow>
   ofp_queue_get_config_request_unpack fresh raw off = Inr (self', off + 12, 12)"
  by (clarsimp simp: ofp_queue_get_config_request_pack_def codec_dest elim!: rbindE dest!: ofp_header_xid_eq)
    (simp add: ofp_queue_get_config_request_unpack_def ofp_unpack_header_def ofp_queue_get_config_request_len_def codec_simps)

lemma ofp_queue_get_config_request_pack_length:
  "ofp_queue_get_config_request_pack g self = Inr (bs, self', g') \<Longrightarrow> int (length bs) = 12"
  by (auto simp: ofp_queue_get_config_request_pack_def  codec_dest elim!: rbindE dest!: ofp_header_xid_eq)

subsection \<open>Barrier reply\<close>

type_synonym ofp_barrier_reply = ofp_header

definition ofp_barrier_reply_init :: ofp_barrier_reply where
  "ofp_barrier_reply_init = \<lparr>hdr_version = OFP_VERSION, hdr_type = 19, hdr_xid = None\<rparr>"

definition ofp_barrier_reply_len :: "ofp_barrier_reply \<Rightarrow> int" where
  "ofp_barrier_reply_len self = 8"

definition ofp_barrier_reply_pack :: "xid_gen \<Rightarrow> ofp_barrier_reply \<Rightarrow> (bytes \<times> ofp_barrier_reply \<times> xid_gen) res" where
  "ofp_barrier_reply_pack g self =
     rbind (ofp_header_pack (ofp_header_validate self) (ofp_barrier_reply_len self) g self)
       (\<lambda>(p0, self, g).
       Inr (p0, self, g))"

definition ofp_barrier_reply_unpack :: "ofp_barrier_reply \<Rightarrow> bytes \<Rightarrow> int \<Rightarrow> (ofp_barrier_reply \<times> int \<times> int) res" where
  "ofp_barrier_reply_unpack self raw offset =
     rbind (ofp_unpack_header self raw offset) (\<lambda>(self, offset, len).
       Inr (self, offset, len))"

definition ofp_barrier_reply_eq ::
  "xid_gen \<Rightarrow> ofp_barrier_reply \<Rightarrow> ofp_barrier_reply \<Rightarrow> bool \<times> ofp_barrier_reply \<times> ofp_barrier_reply \<times> xid_gen"
where
  "ofp_barrier_reply_eq g a b =
     (let (r, a, b, g) = ofp_header_eq (ofp_barrier_reply_len a) (ofp_barrier_reply_len b) g a b
      in (r, a, b, g))"

lemma ofp_barrier_reply_unpack_pack [codec_simps]:
  "ofp_barrier_reply_pack g self = Inr (bs, self', g') \<Longrightarrow> chunk raw off bs \<Longrightarrow>
   ofp_barrier_reply_unpack fresh raw off = Inr (self', off + 8, 8)"
  by (clarsimp simp: ofp_barrier_reply_pack_def codec_dest elim!: rbindE dest!: ofp_header_xid_eq)
    (simp add: ofp_barrier_reply_unpack_def ofp_unpack_header_def ofp_barrier_reply_len_def codec_simps)

lemma ofp_barrier_reply_pack_length:
  "ofp_barrier_reply_pack g self = Inr (bs, self', g') \<Longrightarrow> int (length bs) = 8"
  by (auto simp: ofp_barrier_reply_pack_def  codec_dest elim!: rbindE dest!: ofp_header_xid_eq)

subsection \<open>Barrier request\<close>

type_synonym ofp_barrier_request = ofp_header

definition ofp_barrier_request_init :: ofp_barrier_request where
  "ofp_barrier_request_init = \<lparr>hdr_version = OFP_VERSION, hdr_type = 18, hdr_xid = None\<rparr>"

definition ofp_barrier_request_len :: "ofp_barrier_request \<Rightarrow> int" where
  "ofp_barrier_request_len self = 8"

definition ofp_barrier_request_pack :: "xid_gen \<Rightarrow> ofp_barrier_request \<Rightarrow> (bytes \<times> ofp_barrier_request \<times> xid_gen) res" where
  "ofp_barrier_request_pack g self =
     rbind (ofp_header_pack (ofp_header_validate self) (ofp_barrier_request_len self) g self)
       (\<lambda>(p0, self, g).
       Inr (p0, self, g))"

definition ofp_barrier_request_unpack :: "ofp_barrier_request \<Rightarrow> bytes \<Rightarrow> int \<Rightarrow> (ofp_barrier_request \<times> int \<times> int) res" where
  "ofp_barrier_request_unpack self raw offset =
     rbind (ofp_unpack_header self raw offset) (\<lambda>(self, offset, len).
       Inr (self, offset, len))"

definition ofp_barrier_request_eq ::
  "xid_gen \<Rightarrow> ofp_barrier_request \<Rightarrow> ofp_barrier_request \<Rightarrow> bool \<times> ofp_barrier_request \<times> ofp_barrier_request \<times> xid_gen"
where
  "ofp_barrier_request_eq g a b =
     (let (r, a, b, g) = ofp_header_eq (ofp_barrier_request_len a) (ofp_barrier_request_len b) g a b
      in (r, a, b, g))"

lemma ofp_barrier_request_unpack_pack [codec_simps]:
  "ofp_barrier_request_pack g self = Inr (bs, self', g') \<Longrightarrow> chunk raw off bs \<Longrightarrow>
   ofp_barrier_request_unpack fresh raw off = Inr (self', off + 8, 8)"
  by (clarsimp simp: ofp_barrier_request_pack_def codec_dest elim!: rbindE dest!: ofp_header_xid_eq)
    (simp add: ofp_barrier_request_unpack_def ofp_unpack_header_def ofp_barrier_request_len_def codec_simps)

lemma ofp_barrier_request_pack_length:
  "ofp_barrier_request_pack g self = Inr (bs, self', g') \<Longrightarrow> int (length bs) = 8"
  by (auto simp: ofp_barrier_request_pack_def  codec_dest elim!: rbindE dest!: ofp_header_xid_eq)

subsection \<open>Packet in\<close>

record ofp_packet_in = ofp_header +
  pi_in_port :: int
  pi_buffer_id :: int
  pi_reason :: int
  pi_data :: bytes
  pi_total_len :: "int option"

definition ofp_packet_in_init :: ofp_packet_in where
  "ofp_packet_in_init = \<lparr>hdr_version = OFP_VERSION, hdr_type = 10, hdr_xid = None, pi_in_port = OFPP_NONE, pi_buffer_id
      = NO_BUFFER, pi_reason = 0, pi_data = [], pi_total_len = None\<rparr>"

definition ofp_packet_in_total_len :: "ofp_packet_in \<Rightarrow> int" where
  "ofp_packet_in_total_len self =
     (case pi_total_len self of None \<Rightarrow> int (length (pi_data self)) | Some n \<Rightarrow> n)"

lemma total_len_xid [simp]:
  "ofp_packet_in_total_len (self\<lparr>hdr_xid := x\<rparr>) = ofp_packet_in_total_len self"
  by (simp add: ofp_packet_in_total_len_def split: option.splits)

definition ofp_packet_in_validate :: "ofp_packet_in \<Rightarrow> bool" where
  "ofp_packet_in_validate self \<longleftrightarrow>
     \<not> (pi_data self \<noteq> [] \<and> ofp_packet_in_total_len self < int (length (pi_data self)))"

text \<open>The \<^verbatim>\<open>buffer_id\<close> property of a packet-in, packet-out or flow-mod: NO_BUFFER reads as None.\<close>

definition buffer_id_get :: "int \<Rightarrow> int option" where
  "buffer_id_get b = (if b = NO_BUFFER then None else Some b)"

definition buffer_id_set :: "int option \<Rightarrow> int" where
  "buffer_id_set v = (case v of None \<Rightarrow> NO_BUFFER | Some b \<Rightarrow> b)"

definition ofp_packet_in_is_complete :: "ofp_packet_in \<Rightarrow> bool" where
  "ofp_packet_in_is_complete self \<longleftrightarrow>
     buffer_id_get (pi_buffer_id self) \<noteq> None \<or> int (length (pi_data self)) = ofp_packet_in_total_len self"

definition ofp_packet_in_len :: "ofp_packet_in \<Rightarrow> int" where
  "ofp_packet_in_len self = 18 + int (length (pi_data self))"

definition ofp_packet_in_pack :: "xid_gen \<Rightarrow> ofp_packet_in \<Rightarrow> (bytes \<times> ofp_packet_in \<times> xid_gen) res" where
  "ofp_packet_in_pack g self =
     rbind (ofp_header_pack (ofp_packet_in_validate self) (ofp_packet_in_len self) g self)
       (\<lambda>(p0, self, g).
     rbind (struct_pack [FL, FH, FH, FB, FB] [pi_buffer_id self, ofp_packet_in_total_len self,
       pi_in_port self, pi_reason self, 0]) (\<lambda>p1.
       Inr (p0 @ p1 @ pi_data self, self, g)))"

definition ofp_packet_in_unpack :: "ofp_packet_in \<Rightarrow> bytes \<Rightarrow> int \<Rightarrow> (ofp_packet_in \<times> int \<times> int) res" where
  "ofp_packet_in_unpack self raw offset =
     rbind (ofp_unpack_header self raw offset) (\<lambda>(self, offset, len).
     rbind (of_unpack [FL, FH, FH, FB, FB] raw offset) (\<lambda>(offset, vs). tup5 vs (\<lambda>buffer_id
       total_len in_port reason pad1.
     rbind (of_read raw offset (len - 18)) (\<lambda>(offset, data).
       let self = self\<lparr>pi_buffer_id := buffer_id, pi_total_len := Some total_len, pi_in_port := in_port,
            pi_reason := reason, pi_data := data\<rparr>
       in if len = ofp_packet_in_len self then Inr (self, offset, len) else Inl AssertionError))))"

definition ofp_packet_in_eq ::
  "xid_gen \<Rightarrow> ofp_packet_in \<Rightarrow> ofp_packet_in \<Rightarrow> bool \<times> ofp_packet_in \<times> ofp_packet_in \<times> xid_gen"
where
  "ofp_packet_in_eq g a b =
     (let (r, a, b, g) = ofp_header_eq (ofp_packet_in_len a) (ofp_packet_in_len b) g a b
      in (r \<and> pi_buffer_id a = pi_buffer_id b \<and> ofp_packet_in_total_len a = ofp_packet_in_total_len b
         \<and> pi_in_port a = pi_in_port b \<and> pi_reason a = pi_reason b \<and> pi_data a = pi_data b, a, b, g))"

lemma ofp_packet_in_unpack_pack [codec_simps]:
  "ofp_packet_in_pack g self = Inr (bs, self', g') \<Longrightarrow> chunk raw off bs \<Longrightarrow>
   ofp_packet_in_unpack fresh raw off = Inr (self'\<lparr>pi_total_len := Some (ofp_packet_in_total_len self)\<rparr>, off + (18 + int (length (pi_data self))), (18 + int (length (pi_data self))))"
  by (clarsimp simp: ofp_packet_in_pack_def codec_dest elim!: rbindE dest!: ofp_header_xid_eq)
    (simp add: ofp_packet_in_unpack_def ofp_unpack_header_def ofp_packet_in_len_def of_read_chunk [of _ _ "pi_data self"] codec_simps)

lemma ofp_packet_in_pack_length:
  "ofp_packet_in_pack g self = Inr (bs, self', g') \<Longrightarrow> int (length bs) = (18 + int (length (pi_data self)))"
  by (auto simp: ofp_packet_in_pack_def ofp_packet_in_len_def codec_dest elim!: rbindE dest!: ofp_header_xid_eq)

subsection \<open>Flow removed\<close>

record ofp_flow_removed = ofp_header +
  frm_match :: ofp_match
  frm_cookie :: int
  frm_priority :: int
  frm_reason :: int
  frm_duration_sec :: int
  frm_duration_nsec :: int
  frm_idle_timeout :: int
  frm_packet_count :: int
  frm_byte_count :: int

definition ofp_flow_removed_init :: ofp_flow_removed where
  "ofp_flow_removed_init = \<lparr>hdr_version = OFP_VERSION, hdr_type = 11, hdr_xid = None, frm_match = ofp_match_init,
      frm_cookie = 0, frm_priority = 0, frm_reason = 0, frm_duration_sec = 0, frm_duration_nsec = 0,
      frm_idle_timeout = 0, frm_packet_count = 0, frm_byte_count = 0\<rparr>"

definition ofp_flow_removed_len :: "ofp_flow_removed \<Rightarrow> int" where
  "ofp_flow_removed_len self = 48 + ofp_match_len"

definition ofp_flow_removed_pack :: "xid_gen \<Rightarrow> ofp_flow_removed \<Rightarrow> (bytes \<times> ofp_flow_removed \<times> xid_gen) res" where
  "ofp_flow_removed_pack g self =
     rbind (ofp_header_pack True (ofp_flow_removed_len self) g self) (\<lambda>(p0, self, g).
     rbind (ofp_match_pack False (frm_match self)) (\<lambda>p1.
     rbind (struct_pack [FQ, FH, FB] [frm_cookie self, frm_priority self, frm_reason self])
       (\<lambda>p2.
     rbind (struct_pack [FL, FL, FH] [frm_duration_sec self, frm_duration_nsec self,
       frm_idle_timeout self]) (\<lambda>p3.
     rbind (struct_pack [FQ, FQ] [frm_packet_count self, frm_byte_count self]) (\<lambda>p4.
       Inr (p0 @ p1 @ p2 @ pad 1 @ p3 @ pad 2 @ p4, self, g))))))"

definition ofp_flow_removed_unpack :: "ofp_flow_removed \<Rightarrow> bytes \<Rightarrow> int \<Rightarrow> (ofp_flow_removed \<times> int \<times> int) res" where
  "ofp_flow_removed_unpack self raw offset =
     rbind (ofp_unpack_header self raw offset) (\<lambda>(self, offset, len).
     rbind (ofp_match_unpack False (frm_match self) raw offset) (\<lambda>(match, offset).
     rbind (of_unpack [FQ, FH, FB] raw offset) (\<lambda>(offset, vs). tup3 vs (\<lambda>cookie priority reason.
     rbind (of_skip raw offset 1) (\<lambda>offset.
     rbind (of_unpack [FL, FL, FH] raw offset) (\<lambda>(offset, vs). tup3 vs (\<lambda>duration_sec
       duration_nsec idle_timeout.
     rbind (of_skip raw offset 2) (\<lambda>offset.
     rbind (of_unpack [FQ, FQ] raw offset) (\<lambda>(offset, vs). tup2 vs (\<lambda>packet_count byte_count.
       let self = self\<lparr>frm_match := match, frm_cookie := cookie, frm_priority := priority, frm_reason :=
            reason, frm_duration_sec := duration_sec, frm_duration_nsec := duration_nsec,
            frm_idle_timeout := idle_timeout, frm_packet_count := packet_count, frm_byte_count :=
            byte_count\<rparr>
       in if len = ofp_flow_removed_len self then Inr (self, offset, len) else Inl AssertionError))))))))))"

definition ofp_flow_removed_eq ::
  "xid_gen \<Rightarrow> ofp_flow_removed \<Rightarrow> ofp_flow_removed \<Rightarrow> bool \<times> ofp_flow_removed \<times> ofp_flow_removed \<times> xid_gen"
where
  "ofp_flow_removed_eq g a b =
     (let (r, a, b, g) = ofp_header_eq (ofp_flow_removed_len a) (ofp_flow_removed_len b) g a b
      in (r \<and> ofp_match_eq (frm_match a) (frm_match b) \<and> frm_cookie a = frm_cookie b \<and> frm_priority a
         = frm_priority b \<and> frm_reason a = frm_reason b \<and> frm_duration_sec a = frm_duration_sec b
         \<and> frm_duration_nsec a = frm_duration_nsec b \<and> frm_idle_timeout a = frm_idle_timeout b
         \<and> frm_packet_count a = frm_packet_count b \<and> frm_byte_count a = frm_byte_count b, a, b, g))"

lemma ofp_flow_removed_unpack_pack [codec_simps]:
  "ofp_flow_removed_pack g self = Inr (bs, self', g') \<Longrightarrow> match_wf (frm_match self) \<Longrightarrow> chunk raw off bs \<Longrightarrow>
   ofp_flow_removed_unpack fresh raw off = Inr (self'\<lparr>frm_match := match_received False (frm_match fresh) (frm_match self)\<rparr>, off + 88, 88)"
  by (clarsimp simp: ofp_flow_removed_pack_def codec_dest elim!: rbindE dest!: ofp_header_xid_eq)
    (frule (1) ofp_match_pack_length, simp add: ofp_flow_removed_unpack_def ofp_unpack_header_def ofp_flow_removed_len_def ofp_match_len_def codec_simps)

lemma ofp_flow_removed_pack_length:
  "ofp_flow_removed_pack g self = Inr (bs, self', g') \<Longrightarrow> match_wf (frm_match self) \<Longrightarrow> int (length bs) = 88"
  by (auto simp: ofp_flow_removed_pack_def ofp_match_pack_length  codec_dest elim!: rbindE dest!: ofp_header_xid_eq)

subsection \<open>Port status\<close>

record ofp_port_status = ofp_header +
  ps_reason :: int
  ps_desc :: ofp_phy_port

definition ofp_port_status_init :: ofp_port_status where
  "ofp_port_status_init = \<lparr>hdr_version = OFP_VERSION, hdr_type = 12, hdr_xid = None, ps_reason = 0, ps_desc =
      ofp_phy_port_init\<rparr>"

definition ofp_port_status_len :: "ofp_port_status \<Rightarrow> int" where
  "ofp_port_status_len self = 64"

definition ofp_port_status_pack :: "xid_gen \<Rightarrow> ofp_port_status \<Rightarrow> (bytes \<times> ofp_port_status \<times> xid_gen) res" where
  "ofp_port_status_pack g self =
     rbind (ofp_header_pack True (ofp_port_status_len self) g self) (\<lambda>(p0, self, g).
     rbind (struct_pack [FB] [ps_reason self]) (\<lambda>p1.
     rbind (ofp_phy_port_pack (ps_desc self)) (\<lambda>p2.
       Inr (p0 @ p1 @ pad 7 @ p2, self, g))))"

definition ofp_port_status_unpack :: "ofp_port_status \<Rightarrow> bytes \<Rightarrow> int \<Rightarrow> (ofp_port_status \<times> int \<times> int) res" where
  "ofp_port_status_unpack self raw offset =
     rbind (ofp_unpack_header self raw offset) (\<lambda>(self, offset, len).
     rbind (of_unpack [FB] raw offset) (\<lambda>(offset, vs). tup1 vs (\<lambda>reason.
     rbind (of_skip raw offset 7) (\<lambda>offset.
     rbind (ofp_phy_port_unpack (ps_desc self) raw offset) (\<lambda>(desc, offset).
       let self = self\<lparr>ps_reason := reason, ps_desc := desc\<rparr>
       in if len = ofp_port_status_len self then Inr (self, offset, len) else Inl AssertionError)))))"

definition ofp_port_status_eq ::
  "xid_gen \<Rightarrow> ofp_port_status \<Rightarrow> ofp_port_status \<Rightarrow> bool \<times> ofp_port_status \<times> ofp_port_status \<times> xid_gen"
where
  "ofp_port_status_eq g a b =
     (let (r, a, b, g) = ofp_header_eq (ofp_port_status_len a) (ofp_port_status_len b) g a b
      in (r \<and> ps_reason a = ps_reason b \<and> ofp_phy_port_eq (ps_desc a) (ps_desc b), a, b, g))"

lemma ofp_port_status_unpack_pack [codec_simps]:
  "ofp_port_status_pack g self = Inr (bs, self', g') \<Longrightarrow> phy_port_wf (ps_desc self) \<Longrightarrow> chunk raw off bs \<Longrightarrow>
   ofp_port_status_unpack fresh raw off = Inr (self', off + 64, 64)"
  by (clarsimp simp: ofp_port_status_pack_def phy_port_wf_def codec_dest elim!: rbindE dest!: ofp_header_xid_eq)
    (simp add: ofp_port_status_unpack_def ofp_unpack_header_def ofp_port_status_len_def codec_simps)

lemma ofp_port_status_pack_length:
  "ofp_port_status_pack g self = Inr (bs, self', g') \<Longrightarrow> phy_port_wf (ps_desc self) \<Longrightarrow> int (length bs) = 64"
  by (auto simp: ofp_port_status_pack_def phy_port_wf_def ofp_phy_port_pack_length  codec_dest elim!: rbindE dest!: ofp_header_xid_eq)

subsection \<open>Error\<close>

record ofp_error = ofp_header +
  er_type :: int
  er_code :: int
  er_data :: bytes

definition ofp_error_init :: ofp_error where
  "ofp_error_init = \<lparr>hdr_version = OFP_VERSION, hdr_type = 1, hdr_xid = None, er_type = 0, er_code = 0, er_data =
      []\<rparr>"

definition ofp_error_len :: "ofp_error \<Rightarrow> int" where
  "ofp_error_len self = 12 + int (length (er_data self))"

definition ofp_error_pack :: "xid_gen \<Rightarrow> ofp_error \<Rightarrow> (bytes \<times> ofp_error \<times> xid_gen) res" where
  "ofp_error_pack g self =
     rbind (ofp_header_pack (ofp_header_validate self) (ofp_error_len self) g self) (\<lambda>(p0, self,
       g).
     rbind (struct_pack [FH, FH] [er_type self, er_code self]) (\<lambda>p1.
       Inr (p0 @ p1 @ er_data self, self, g)))"

definition ofp_error_unpack :: "ofp_error \<Rightarrow> bytes \<Rightarrow> int \<Rightarrow> (ofp_error \<times> int \<times> int) res" where
  "ofp_error_unpack self raw offset =
     rbind (ofp_unpack_header self raw offset) (\<lambda>(self, offset, len).
     rbind (of_unpack [FH, FH] raw offset) (\<lambda>(offset, vs). tup2 vs (\<lambda>type code.
     rbind (of_read raw offset (len - 12)) (\<lambda>(offset, data).
       let self = self\<lparr>er_type := type, er_code := code, er_data := data\<rparr>
       in if len = ofp_error_len self then Inr (self, offset, len) else Inl AssertionError))))"

definition ofp_error_eq ::
  "xid_gen \<Rightarrow> ofp_error \<Rightarrow> ofp_error \<Rightarrow> bool \<times> ofp_error \<times> ofp_error \<times> xid_gen"
where
  "ofp_error_eq g a b =
     (let (r, a, b, g) = ofp_header_eq (ofp_error_len a) (ofp_error_len b) g a b
      in (r \<and> er_type a = er_type b \<and> er_code a = er_code b \<and> er_data a = er_data b, a, b, g))"

lemma ofp_error_unpack_pack [codec_simps]:
  "ofp_error_pack g self = Inr (bs, self', g') \<Longrightarrow> chunk raw off bs \<Longrightarrow>
   ofp_error_unpack fresh raw off = Inr (self', off + (12 + int (length (er_data self))), (12 + int (length (er_data self))))"
  by (clarsimp simp: ofp_error_pack_def codec_dest elim!: rbindE dest!: ofp_header_xid_eq)
    (simp add: ofp_error_unpack_def ofp_unpack_header_def ofp_error_len_def of_read_chunk [of _ _ "er_data self"] codec_simps)

lemma ofp_error_pack_length:
  "ofp_error_pack g self = Inr (bs, self', g') \<Longrightarrow> int (length bs) = (12 + int (length (er_data self)))"
  by (auto simp: ofp_error_pack_def ofp_error_len_def codec_dest elim!: rbindE dest!: ofp_header_xid_eq)

subsection \<open>Hello\<close>

type_synonym ofp_hello = ofp_header

definition ofp_hello_init :: ofp_hello where
  "ofp_hello_init = \<lparr>hdr_version = OFP_VERSION, hdr_type = 0, hdr_xid = None\<rparr>"

definition ofp_hello_len :: "ofp_hello \<Rightarrow> int" where
  "ofp_hello_len self = 8"

definition ofp_hello_pack :: "xid_gen \<Rightarrow> ofp_hello \<Rightarrow> (bytes \<times> ofp_hello \<times> xid_gen) res" where
  "ofp_hello_pack g self =
     rbind (ofp_header_pack (ofp_header_validate self) (ofp_hello_len self) g self) (\<lambda>(p0, self,
       g).
       Inr (p0, self, g))"

definition ofp_hello_unpack :: "ofp_hello \<Rightarrow> bytes \<Rightarrow> int \<Rightarrow> (ofp_hello \<times> int \<times> int) res" where
  "ofp_hello_unpack self raw offset =
     rbind (ofp_unpack_header self raw offset) (\<lambda>(self, offset, len).
       Inr (self, offset, len))"

definition ofp_hello_eq ::
  "xid_gen \<Rightarrow> ofp_hello \<Rightarrow> ofp_hello \<Rightarrow> bool \<times> ofp_hello \<times> ofp_hello \<times> xid_gen"
where
  "ofp_hello_eq g a b =
     (let (r, a, b, g) = ofp_header_eq (ofp_hello_len a) (ofp_hello_len b) g a b
      in (r, a, b, g))"

lemma ofp_hello_unpack_pack [codec_simps]:
  "ofp_hello_pack g self = Inr (bs, self', g') \<Longrightarrow> chunk raw off bs \<Longrightarrow>
   ofp_hello_unpack fresh raw off = Inr (self', off + 8, 8)"
  by (clarsimp simp: ofp_hello_pack_def codec_dest elim!: rbindE dest!: ofp_header_xid_eq)
    (simp add: ofp_hello_unpack_def ofp_unpack_header_def ofp_hello_len_def codec_simps)

lemma ofp_hello_pack_length:
  "ofp_hello_pack g self = Inr (bs, self', g') \<Longrightarrow> int (length bs) = 8"
  by (auto simp: ofp_hello_pack_def  codec_dest elim!: rbindE dest!: ofp_header_xid_eq)

subsection \<open>Echo request\<close>

record ofp_echo_request = ofp_header +
  eq_body :: bytes

definition ofp_echo_request_init :: ofp_echo_request where
  "ofp_echo_request_init = \<lparr>hdr_version = OFP_VERSION, hdr_type = 2, hdr_xid = None, eq_body = []\<rparr>"

definition ofp_echo_request_len :: "ofp_echo_request \<Rightarrow> int" where
  "ofp_echo_request_len self = 8 + int (length (eq_body self))"

definition ofp_echo_request_pack :: "xid_gen \<Rightarrow> ofp_echo_request \<Rightarrow> (bytes \<times> ofp_echo_request \<times> xid_gen) res" where
  "ofp_echo_request_pack g self =
     rbind (ofp_header_pack (ofp_header_validate self) (ofp_echo_request_len self) g self)
       (\<lambda>(p0, self, g).
       Inr (p0 @ eq_body self, self, g))"

definition ofp_echo_request_unpack :: "ofp_echo_request \<Rightarrow> bytes \<Rightarrow> int \<Rightarrow> (ofp_echo_request \<times> int \<times> int) res" where
  "ofp_echo_request_unpack self raw offset =
     rbind (ofp_unpack_header self raw offset) (\<lambda>(self, offset, len).
     rbind (of_read raw offset (len - 8)) (\<lambda>(offset, body).
       let self = self\<lparr>eq_body := body\<rparr>
       in if len = ofp_echo_request_len self then Inr (self, offset, len) else Inl AssertionError))"

definition ofp_echo_request_eq ::
  "xid_gen \<Rightarrow> ofp_echo_request \<Rightarrow> ofp_echo_request \<Rightarrow> bool \<times> ofp_echo_request \<times> ofp_echo_request \<times> xid_gen"
where
  "ofp_echo_request_eq g a b =
     (let (r, a, b, g) = ofp_header_eq (ofp_echo_request_len a) (ofp_echo_request_len b) g a b
      in (r \<and> eq_body a = eq_body b, a, b, g))"

lemma ofp_echo_request_unpack_pack [codec_simps]:
  "ofp_echo_request_pack g self = Inr (bs, self', g') \<Longrightarrow> chunk raw off bs \<Longrightarrow>
   ofp_echo_request_unpack fresh raw off = Inr (self', off + (8 + int (length (eq_body self))), (8 + int (length (eq_body self))))"
  by (clarsimp simp: ofp_echo_request_pack_def codec_dest elim!: rbindE dest!: ofp_header_xid_eq)
    (simp add: ofp_echo_request_unpack_def ofp_unpack_header_def ofp_echo_request_len_def of_read_chunk [of _ _ "eq_body self"] codec_simps)

lemma ofp_echo_request_pack_length:
  "ofp_echo_request_pack g self = Inr (bs, self', g') \<Longrightarrow> int (length bs) = (8 + int (length (eq_body self)))"
  by (auto simp: ofp_echo_request_pack_def ofp_echo_request_len_def codec_dest elim!: rbindE dest!: ofp_header_xid_eq)

subsection \<open>Echo reply\<close>

record ofp_echo_reply = ofp_header +
  ep_body :: bytes

definition ofp_echo_reply_init :: ofp_echo_reply where
  "ofp_echo_reply_init = \<lparr>hdr_version = OFP_VERSION, hdr_type = 3, hdr_xid = None, ep_body = []\<rparr>"

definition ofp_echo_reply_len :: "ofp_echo_reply \<Rightarrow> int" where
  "ofp_echo_reply_len self = 8 + int (length (ep_body self))"

definition ofp_echo_reply_pack :: "xid_gen \<Rightarrow> ofp_echo_reply \<Rightarrow> (bytes \<times> ofp_echo_reply \<times> xid_gen) res" where
  "ofp_echo_reply_pack g self =
     rbind (ofp_header_pack (ofp_header_validate self) (ofp_echo_reply_len self) g self)
       (\<lambda>(p0, self, g).
       Inr (p0 @ ep_body self, self, g))"

definition ofp_echo_reply_unpack :: "ofp_echo_reply \<Rightarrow> bytes \<Rightarrow> int \<Rightarrow> (ofp_echo_reply \<times> int \<times> int) res" where
  "ofp_echo_reply_unpack self raw offset =
     rbind (ofp_unpack_header self raw offset) (\<lambda>(self, offset, len).
     rbind (of_read raw offset (len - 8)) (\<lambda>(offset, body).
       let self = self\<lparr>ep_body := body\<rparr>
       in if len = ofp_echo_reply_len self then Inr (self, offset, len) else Inl AssertionError))"

definition ofp_echo_reply_eq ::
  "xid_gen \<Rightarrow> ofp_echo_reply \<Rightarrow> ofp_echo_reply \<Rightarrow> bool \<times> ofp_echo_reply \<times> ofp_echo_reply \<times> xid_gen"
where
  "ofp_echo_reply_eq g a b =
     (let (r, a, b, g) = ofp_header_eq (ofp_echo_reply_len a) (ofp_echo_reply_len b) g a b
      in (r \<and> ep_body a = ep_body b, a, b, g))"

lemma ofp_echo_reply_unpack_pack [codec_simps]:
  "ofp_echo_reply_pack g self = Inr (bs, self', g') \<Longrightarrow> chunk raw off bs \<Longrightarrow>
   ofp_echo_reply_unpack fresh raw off = Inr (self', off + (8 + int (length (ep_body self))), (8 + int (length (ep_body self))))"
  by (clarsimp simp: ofp_echo_reply_pack_def codec_dest elim!: rbindE dest!: ofp_header_xid_eq)
    (simp add: ofp_echo_reply_unpack_def ofp_unpack_header_def ofp_echo_reply_len_def of_read_chunk [of _ _ "ep_body self"] codec_simps)

lemma ofp_echo_reply_pack_length:
  "ofp_echo_reply_pack g self = Inr (bs, self', g') \<Longrightarrow> int (length bs) = (8 + int (length (ep_body self)))"
  by (auto simp: ofp_echo_reply_pack_def ofp_echo_reply_len_def codec_dest elim!: rbindE dest!: ofp_header_xid_eq)

subsection \<open>Vendor message\<close>

record ofp_vendor_generic = ofp_header +
  vg_vendor :: int
  vg_data :: bytes

definition ofp_vendor_generic_init :: ofp_vendor_generic where
  "ofp_vendor_generic_init = \<lparr>hdr_version = OFP_VERSION, hdr_type = 4, hdr_xid = None, vg_vendor = 0, vg_data = []\<rparr>"

definition ofp_vendor_generic_len :: "ofp_vendor_generic \<Rightarrow> int" where
  "ofp_vendor_generic_len self = 12 + int (length (vg_data self))"

definition ofp_vendor_generic_pack :: "xid_gen \<Rightarrow> ofp_vendor_generic \<Rightarrow> (bytes \<times> ofp_vendor_generic \<times> xid_gen) res" where
  "ofp_vendor_generic_pack g self =
     rbind (ofp_header_pack (ofp_header_validate self) (ofp_vendor_generic_len self) g self)
       (\<lambda>(p0, self, g).
     rbind (struct_pack [FL] [vg_vendor self]) (\<lambda>p1.
       Inr (p0 @ p1 @ vg_data self, self, g)))"

definition ofp_vendor_generic_unpack :: "ofp_vendor_generic \<Rightarrow> bytes \<Rightarrow> int \<Rightarrow> (ofp_vendor_generic \<times> int \<times> int) res" where
  "ofp_vendor_generic_unpack self raw offset =
     rbind (ofp_unpack_header self raw offset) (\<lambda>(self, offset, len).
     rbind (of_unpack [FL] raw offset) (\<lambda>(offset, vs). tup1 vs (\<lambda>vendor.
     rbind (of_read raw offset (len - 12)) (\<lambda>(offset, data).
       Inr (self\<lparr>vg_vendor := vendor, vg_data := data\<rparr>, offset, len)))))"

definition ofp_vendor_generic_eq ::
  "xid_gen \<Rightarrow> ofp_vendor_generic \<Rightarrow> ofp_vendor_generic \<Rightarrow> bool \<times> ofp_vendor_generic \<times> ofp_vendor_generic \<times> xid_gen"
where
  "ofp_vendor_generic_eq g a b =
     (let (r, a, b, g) = ofp_header_eq (ofp_vendor_generic_len a) (ofp_vendor_generic_len b) g a b
      in (r \<and> vg_vendor a = vg_vendor b \<and> vg_data a = vg_data b, a, b, g))"

lemma ofp_vendor_generic_unpack_pack [codec_simps]:
  "ofp_vendor_generic_pack g self = Inr (bs, self', g') \<Longrightarrow> chunk raw off bs \<Longrightarrow>
   ofp_vendor_generic_unpack fresh raw off = Inr (self', off + (12 + int (length (vg_data self))), (12 + int (length (vg_data self))))"
  by (clarsimp simp: ofp_vendor_generic_pack_def codec_dest elim!: rbindE dest!: ofp_header_xid_eq)
    (simp add: ofp_vendor_generic_unpack_def ofp_unpack_header_def ofp_vendor_generic_len_def of_read_chunk [of _ _ "vg_data self"] codec_simps)

lemma ofp_vendor_generic_pack_length:
  "ofp_vendor_generic_pack g self = Inr (bs, self', g') \<Longrightarrow> int (length bs) = (12 + int (length (vg_data self)))"
  by (auto simp: ofp_vendor_generic_pack_def ofp_vendor_generic_len_def codec_dest elim!: rbindE dest!: ofp_header_xid_eq)

subsection \<open>Features request\<close>

type_synonym ofp_features_request = ofp_header

definition ofp_features_request_init :: ofp_features_request where
  "ofp_features_request_init = \<lparr>hdr_version = OFP_VERSION, hdr_type = 5, hdr_xid = None\<rparr>"

definition ofp_features_request_len :: "ofp_features_request \<Rightarrow> int" where
  "ofp_features_request_len self = 8"

definition ofp_features_request_pack :: "xid_gen \<Rightarrow> ofp_features_request \<Rightarrow> (bytes \<times> ofp_features_request \<times> xid_gen) res" where
  "ofp_features_request_pack g self =
     rbind (ofp_header_pack (ofp_header_validate self) (ofp_features_request_len self) g self)
       (\<lambda>(p0, self, g).
       Inr (p0, self, g))"

definition ofp_features_request_unpack :: "ofp_features_request \<Rightarrow> bytes \<Rightarrow> int \<Rightarrow> (ofp_features_request \<times> int \<times> int) res" where
  "ofp_features_request_unpack self raw offset =
     rbind (ofp_unpack_header self raw offset) (\<lambda>(self, offset, len).
       if len = ofp_features_request_len self then Inr (self, offset, len) else Inl AssertionError)"

definition ofp_features_request_eq ::
  "xid_gen \<Rightarrow> ofp_features_request \<Rightarrow> ofp_features_request \<Rightarrow> bool \<times> ofp_features_request \<times> ofp_features_request \<times> xid_gen"
where
  "ofp_features_request_eq g a b =
     (let (r, a, b, g) = ofp_header_eq (ofp_features_request_len a) (ofp_features_request_len b) g a b
      in (r, a, b, g))"

lemma ofp_features_request_unpack_pack [codec_simps]:
  "ofp_features_request_pack g self = Inr (bs, self', g') \<Longrightarrow> chunk raw off bs \<Longrightarrow>
   ofp_features_request_unpack fresh raw off = Inr (self', off + 8, 8)"
  by (clarsimp simp: ofp_features_request_pack_def codec_dest elim!: rbindE dest!: ofp_header_xid_eq)
    (simp add: ofp_features_request_unpack_def ofp_unpack_header_def ofp_features_request_len_def codec_simps)

lemma ofp_features_request_pack_length:
  "ofp_features_request_pack g self = Inr (bs, self', g') \<Longrightarrow> int (length bs) = 8"
  by (auto simp: ofp_features_request_pack_def  codec_dest elim!: rbindE dest!: ofp_header_xid_eq)

subsection \<open>Get config request\<close>

type_synonym ofp_get_config_request = ofp_header

definition ofp_get_config_request_init :: ofp_get_config_request where
  "ofp_get_config_request_init = \<lparr>hdr_version = OFP_VERSION, hdr_type = 7, hdr_xid = None\<rparr>"

definition ofp_get_config_request_len :: "ofp_get_config_request \<Rightarrow> int" where
  "ofp_get_config_request_len self = 8"

definition ofp_get_config_request_pack :: "xid_gen \<Rightarrow> ofp_get_config_request \<Rightarrow> (bytes \<times> ofp_get_config_request \<times> xid_gen) res" where
  "ofp_get_config_request_pack g self =
     rbind (ofp_header_pack (ofp_header_validate self) (ofp_get_config_request_len self) g self)
       (\<lambda>(p0, self, g).
       Inr (p0, self, g))"

definition ofp_get_config_request_unpack :: "ofp_get_config_request \<Rightarrow> bytes \<Rightarrow> int \<Rightarrow> (ofp_get_config_request \<times> int \<times> int) res" where
  "ofp_get_config_request_unpack self raw offset =
     rbind (ofp_unpack_header self raw offset) (\<lambda>(self, offset, len).
       Inr (self, offset, len))"

definition ofp_get_config_request_eq ::
  "xid_gen \<Rightarrow> ofp_get_config_request \<Rightarrow> ofp_get_config_request \<Rightarrow> bool \<times> ofp_get_config_request \<times> ofp_get_config_request \<times> xid_gen"
where
  "ofp_get_config_request_eq g a b =
     (let (r, a, b, g) = ofp_header_eq (ofp_get_config_request_len a) (ofp_get_config_request_len b) g a b
      in (r, a, b, g))"

lemma ofp_get_config_request_unpack_pack [codec_simps]:
  "ofp_get_config_request_pack g self = Inr (bs, self', g') \<Longrightarrow> chunk raw off bs \<Longrightarrow>
   ofp_get_config_request_unpack fresh raw off = Inr (self', off + 8, 8)"
  by (clarsimp simp: ofp_get_config_request_pack_def codec_dest elim!: rbindE dest!: ofp_header_xid_eq)
    (simp add: ofp_get_config_request_unpack_def ofp_unpack_header_def ofp_get_config_request_len_def codec_simps)

lemma ofp_get_config_request_pack_length:
  "ofp_get_config_request_pack g self = Inr (bs, self', g') \<Longrightarrow> int (length bs) = 8"
  by (auto simp: ofp_get_config_request_pack_def  codec_dest elim!: rbindE dest!: ofp_header_xid_eq)

subsection \<open>Get config reply\<close>

record ofp_get_config_reply = ofp_header +
  gr_flags :: int
  gr_miss_send_len :: int

definition ofp_get_config_reply_init :: ofp_get_config_reply where
  "ofp_get_config_reply_init = \<lparr>hdr_version = OFP_VERSION, hdr_type = 8, hdr_xid = None, gr_flags = 0, gr_miss_send_len =
      OFP_DEFAULT_MISS_SEND_LEN\<rparr>"

definition ofp_get_config_reply_len :: "ofp_get_config_reply \<Rightarrow> int" where
  "ofp_get_config_reply_len self = 12"

definition ofp_get_config_reply_pack :: "xid_gen \<Rightarrow> ofp_get_config_reply \<Rightarrow> (bytes \<times> ofp_get_config_reply \<times> xid_gen) res" where
  "ofp_get_config_reply_pack g self =
     rbind (ofp_header_pack (ofp_header_validate self) (ofp_get_config_reply_len self) g self)
       (\<lambda>(p0, self, g).
     rbind (struct_pack [FH, FH] [gr_flags self, gr_miss_send_len self]) (\<lambda>p1.
       Inr (p0 @ p1, self, g)))"

definition ofp_get_config_reply_unpack :: "ofp_get_config_reply \<Rightarrow> bytes \<Rightarrow> int \<Rightarrow> (ofp_get_config_reply \<times> int \<times> int) res" where
  "ofp_get_config_reply_unpack self raw offset =
     rbind (ofp_unpack_header self raw offset) (\<lambda>(self, offset, len).
     rbind (of_unpack [FH, FH] raw offset) (\<lambda>(offset, vs). tup2 vs (\<lambda>flags miss_send_len.
       let self = self\<lparr>gr_flags := flags, gr_miss_send_len := miss_send_len\<rparr>
       in if len = ofp_get_config_reply_len self then Inr (self, offset, len) else Inl AssertionError)))"

definition ofp_get_config_reply_eq ::
  "xid_gen \<Rightarrow> ofp_get_config_reply \<Rightarrow> ofp_get_config_reply \<Rightarrow> bool \<times> ofp_get_config_reply \<times> ofp_get_config_reply \<times> xid_gen"
where
  "ofp_get_config_reply_eq g a b =
     (let (r, a, b, g) = ofp_header_eq (ofp_get_config_reply_len a) (ofp_get_config_reply_len b) g a b
      in (r \<and> gr_flags a = gr_flags b \<and> gr_miss_send_len a = gr_miss_send_len b, a, b, g))"

lemma ofp_get_config_reply_unpack_pack [codec_simps]:
  "ofp_get_config_reply_pack g self = Inr (bs, self', g') \<Longrightarrow> chunk raw off bs \<Longrightarrow>
   ofp_get_config_reply_unpack fresh raw off = Inr (self', off + 12, 12)"
  by (clarsimp simp: ofp_get_config_reply_pack_def codec_dest elim!: rbindE dest!: ofp_header_xid_eq)
    (simp add: ofp_get_config_reply_unpack_def ofp_unpack_header_def ofp_get_config_reply_len_def codec_simps)

lemma ofp_get_config_reply_pack_length:
  "ofp_get_config_reply_pack g self = Inr (bs, self', g') \<Longrightarrow> int (length bs) = 12"
  by (auto simp: ofp_get_config_reply_pack_def  codec_dest elim!: rbindE dest!: ofp_header_xid_eq)

subsection \<open>Packet out\<close>

record ofp_packet_out = ofp_header +
  po_buffer_id :: int
  po_in_port :: int
  po_actions :: "ofp_action list"
  po_data :: bytes

definition ofp_packet_out_init :: ofp_packet_out where
  "ofp_packet_out_init =
     \<lparr>hdr_version = OFP_VERSION, hdr_type = 13, hdr_xid = None, po_buffer_id = NO_BUFFER,
      po_in_port = OFPP_NONE, po_actions = [], po_data = []\<rparr>"

text \<open>
  What the \<^verbatim>\<open>data\<close> setter accepts: nothing, a packet-in to resend, bytes (a packet object is
  packed to bytes first).
\<close>

datatype po_source = PoNone | PoPacketIn ofp_packet_in | PoBytes bytes

definition ofp_packet_out_set_data :: "po_source \<Rightarrow> ofp_packet_out \<Rightarrow> ofp_packet_out res" where
  "ofp_packet_out_set_data src self =
     (case src of
        PoNone \<Rightarrow> Inr (self\<lparr>po_data := []\<rparr>)
      | PoPacketIn d \<Rightarrow>
          let self = self\<lparr>po_data := [], po_buffer_id := buffer_id_set (buffer_id_get (pi_buffer_id d))\<rparr> in
          rbind (if buffer_id_get (po_buffer_id self) = None
                 then (if ofp_packet_in_is_complete d then Inr (self\<lparr>po_data := pi_data d\<rparr>)
                       else Inl AssertionError)
                 else Inr self)
            (\<lambda>self. Inr (self\<lparr>po_in_port := pi_in_port d\<rparr>))
      | PoBytes b \<Rightarrow> Inr (self\<lparr>po_data := b\<rparr>))"

definition ofp_packet_out_validate :: "ofp_packet_out \<Rightarrow> bool" where
  "ofp_packet_out_validate self \<longleftrightarrow> \<not> (buffer_id_get (po_buffer_id self) \<noteq> None \<and> po_data self \<noteq> [])"

definition ofp_packet_out_len :: "ofp_packet_out \<Rightarrow> int" where
  "ofp_packet_out_len self = 16 + actions_len (po_actions self) + int (length (po_data self))"

definition ofp_packet_out_pack ::
  "xid_gen \<Rightarrow> ofp_packet_out \<Rightarrow> (bytes \<times> ofp_packet_out \<times> xid_gen) res"
where
  "ofp_packet_out_pack g self =
     (if \<not> ofp_packet_out_validate self then Inl RuntimeError else
      rbind (pack_list action_pack (po_actions self)) (\<lambda>(actions, xs).
      let self = self\<lparr>po_actions := xs\<rparr> in
      rbind (ofp_header_pack (ofp_packet_out_validate self) (ofp_packet_out_len self) g self) (\<lambda>(p0, self, g).
      rbind (struct_pack [FL, FH, FH] [po_buffer_id self, po_in_port self, int (length actions)]) (\<lambda>p1.
        Inr (p0 @ p1 @ actions @ po_data self, self, g)))))"

definition ofp_packet_out_unpack ::
  "ofp_packet_out \<Rightarrow> bytes \<Rightarrow> int \<Rightarrow> (ofp_packet_out \<times> int \<times> int) res"
where
  "ofp_packet_out_unpack self raw offset0 =
     rbind (ofp_unpack_header self raw offset0) (\<lambda>(self, offset, len).
     rbind (of_unpack [FL, FH, FH] raw offset) (\<lambda>(offset, vs). tup3 vs (\<lambda>buffer_id in_port actions_length.
     rbind (unpack_actions raw actions_length offset) (\<lambda>(offset, actions).
     let self = self\<lparr>po_buffer_id := buffer_id, po_in_port := in_port, po_actions := actions\<rparr>;
         remaining = len - (offset - offset0) in
     rbind (if remaining \<le> 0 then rbind (ofp_packet_out_set_data PoNone self) (\<lambda>self. Inr (offset, self))
            else rbind (of_read raw offset remaining) (\<lambda>(offset, d).
                 rbind (ofp_packet_out_set_data (PoBytes d) self) (\<lambda>self. Inr (offset, self))))
       (\<lambda>(offset, self).
         if len = ofp_packet_out_len self then Inr (self, offset, len) else Inl AssertionError)))))"

text \<open>\<^verbatim>\<open>__eq__\<close> compares buffer, port and actions, not the data (beyond its length).\<close>

definition ofp_packet_out_eq ::
  "xid_gen \<Rightarrow> ofp_packet_out \<Rightarrow> ofp_packet_out \<Rightarrow> bool \<times> ofp_packet_out \<times> ofp_packet_out \<times> xid_gen"
where
  "ofp_packet_out_eq g a b =
     (let (r, a, b, g) = ofp_header_eq (ofp_packet_out_len a) (ofp_packet_out_len b) g a b
      in (r \<and> buffer_id_get (po_buffer_id a) = buffer_id_get (po_buffer_id b) \<and>
          po_in_port a = po_in_port b \<and> list_all2 action_eq (po_actions a) (po_actions b), a, b, g))"

definition packet_out_wf :: "ofp_packet_out \<Rightarrow> bool" where
  "packet_out_wf self \<longleftrightarrow> list_all action_wf (po_actions self)"

lemma ofp_packet_out_pack_Inr:
  assumes "ofp_packet_out_pack g self = Inr (bs, self', g')" "packet_out_wf self"
  shows "\<exists>as xs x. pack_list action_pack (po_actions self) = Inr (as, xs) \<and>
    self' = self\<lparr>po_actions := xs, hdr_xid := Some x\<rparr> \<and> int (length as) = actions_len xs \<and>
    list_all2 code_range [FB, FB, FH, FL] [hdr_version self, hdr_type self, ofp_packet_out_len self', x] \<and>
    list_all2 code_range [FL, FH, FH] [po_buffer_id self, po_in_port self, int (length as)] \<and>
    bs = struct_bytes [FB, FB, FH, FL] [hdr_version self, hdr_type self, ofp_packet_out_len self', x] @
      struct_bytes [FL, FH, FH] [po_buffer_id self, po_in_port self, int (length as)] @ as @ po_data self"
  using assms actions_pack_length [of "po_actions self"]
  by (clarsimp simp: ofp_packet_out_pack_def packet_out_wf_def Let_def codec_dest ofp_packet_out_len_def
      elim!: rbindE dest!: ofp_header_xid_eq split: if_splits) blast

lemma ofp_packet_out_pack_length:
  "ofp_packet_out_pack g self = Inr (bs, self', g') \<Longrightarrow> packet_out_wf self \<Longrightarrow>
   int (length bs) = ofp_packet_out_len self'"
  by (drule (1) ofp_packet_out_pack_Inr) (auto simp: ofp_packet_out_len_def)

lemma ofp_packet_out_unpack_pack:
  assumes "ofp_packet_out_pack g self = Inr (bs, self', g')" "packet_out_wf self" "chunk raw off bs"
  shows "ofp_packet_out_unpack fresh raw off =
    Inr (self', off + ofp_packet_out_len self', ofp_packet_out_len self')"
proof -
  from ofp_packet_out_pack_Inr [OF assms(1,2)] obtain as xs x where
    p: "pack_list action_pack (po_actions self) = Inr (as, xs)"
    and s': "self' = self\<lparr>po_actions := xs, hdr_xid := Some x\<rparr>"
    and l: "int (length as) = actions_len xs"
    and r: "list_all2 code_range [FB, FB, FH, FL] [hdr_version self, hdr_type self, ofp_packet_out_len self', x]"
      "list_all2 code_range [FL, FH, FH] [po_buffer_id self, po_in_port self, int (length as)]"
    and bs: "bs = struct_bytes [FB, FB, FH, FL] [hdr_version self, hdr_type self, ofp_packet_out_len self', x] @
      struct_bytes [FL, FH, FH] [po_buffer_id self, po_in_port self, int (length as)] @ as @ po_data self"
    by blast
  note c = assms(3) [unfolded bs chunk_append struct_bytes_length [OF r(1)] struct_bytes_length [OF r(2)]]
  have "ofp_unpack_header fresh raw off =
      Inr (fresh\<lparr>hdr_version := hdr_version self, hdr_type := hdr_type self, hdr_xid := Some x\<rparr>,
        off + 8, ofp_packet_out_len self')"
    using of_unpack_chunk [OF _ r(1)] c by (simp add: ofp_unpack_header_def)
  moreover have "of_unpack [FL, FH, FH] raw (off + 8) =
      Inr (off + 16, [po_buffer_id self, po_in_port self, int (length as)])"
    using of_unpack_chunk [OF _ r(2), of raw "off + 8"] c by (simp add: add.commute)
  moreover have "unpack_actions raw (int (length as)) (off + 16) = Inr (off + 16 + int (length as), xs)"
    by (rule unpack_actions_pack [OF p]) (use c assms(2) in \<open>auto simp: packet_out_wf_def add.commute\<close>)
  moreover have "of_read raw (off + 16 + int (length as)) (int (length (po_data self))) =
      Inr (off + 16 + int (length as) + int (length (po_data self)), po_data self)"
    by (rule of_read_chunk) (use c in \<open>simp_all add: ac_simps\<close>)
  ultimately show ?thesis
    using s' l by (cases "po_data self")
      (simp_all add: ofp_packet_out_unpack_def ofp_packet_out_len_def ofp_packet_out_set_data_def)
qed

subsection \<open>Flow mod\<close>

record ofp_flow_mod = ofp_header +
  fm_match :: ofp_match
  fm_cookie :: int
  fm_command :: int
  fm_idle_timeout :: int
  fm_hard_timeout :: int
  fm_priority :: int
  fm_buffer_id :: int
  fm_out_port :: int
  fm_flags :: int
  fm_actions :: "ofp_action list"
  fm_data :: "ofp_packet_in option"

definition OFPFC_ADD :: int where "OFPFC_ADD = 0"
definition OFPFC_MODIFY :: int where "OFPFC_MODIFY = 1"
definition OFPFC_MODIFY_STRICT :: int where "OFPFC_MODIFY_STRICT = 2"
definition OFPFC_DELETE :: int where "OFPFC_DELETE = 3"
definition OFPFC_DELETE_STRICT :: int where "OFPFC_DELETE_STRICT = 4"

definition ofp_flow_mod_init :: ofp_flow_mod where
  "ofp_flow_mod_init =
     \<lparr>hdr_version = OFP_VERSION, hdr_type = 14, hdr_xid = None, fm_match = ofp_match_init, fm_cookie = 0,
      fm_command = OFPFC_ADD, fm_idle_timeout = 0, fm_hard_timeout = 0, fm_priority = OFP_DEFAULT_PRIORITY,
      fm_buffer_id = NO_BUFFER, fm_out_port = OFPP_NONE, fm_flags = 0, fm_actions = [], fm_data = None\<rparr>"

definition ofp_flow_mod_len :: "ofp_flow_mod \<Rightarrow> int" where
  "ofp_flow_mod_len self = 32 + ofp_match_len + actions_len (fm_actions self)"

text \<open>
  The \<^verbatim>\<open>data\<close> magic of \<^verbatim>\<open>pack\<close>: a complete packet-in lends its buffer, or, when it has none, is
  sent along behind a barrier as a packet-out to the table. The result is the buffer id to
  write, the packet-out if there is one, and the object, whose own buffer id is cleared.
\<close>

definition flow_mod_data ::
  "ofp_flow_mod \<Rightarrow> (int \<times> ofp_packet_out option \<times> ofp_flow_mod) res"
where
  "flow_mod_data self =
     (case fm_data self of
        None \<Rightarrow> Inr (buffer_id_set (buffer_id_get (fm_buffer_id self)), None, self)
      | Some d \<Rightarrow>
          if \<not> ofp_packet_in_is_complete d
          then Inr (buffer_id_set (buffer_id_get (fm_buffer_id self)), None, self)
          else
            let self = self\<lparr>fm_buffer_id := buffer_id_set (buffer_id_get (pi_buffer_id d))\<rparr> in
            rbind (if buffer_id_get (fm_buffer_id self) = None
                   then rbind (ofp_packet_out_set_data (PoPacketIn d) ofp_packet_out_init) (\<lambda>po.
                     Inr (Some (po\<lparr>po_in_port := pi_in_port d,
                       po_actions := po_actions po @ [AOutput (ofp_action_output_init\<lparr>ao_port := Some OFPP_TABLE\<rparr>)]\<rparr>)))
                   else Inr None)
              (\<lambda>po. Inr (buffer_id_set (buffer_id_get (fm_buffer_id self)), po,
                 self\<lparr>fm_buffer_id := buffer_id_set None\<rparr>)))"

definition ofp_flow_mod_pack ::
  "xid_gen \<Rightarrow> ofp_flow_mod \<Rightarrow> (bytes \<times> ofp_flow_mod \<times> xid_gen) res"
where
  "ofp_flow_mod_pack g self =
     rbind (flow_mod_data self) (\<lambda>(buffer_id, po, self).
     rbind (ofp_header_pack True (ofp_flow_mod_len self) g self) (\<lambda>(p0, self, g).
     rbind (ofp_match_pack True (fm_match self)) (\<lambda>p1.
     rbind (struct_pack [FQ, FH, FH, FH, FH, FL, FH, FH]
       [fm_cookie self, fm_command self, fm_idle_timeout self, fm_hard_timeout self, fm_priority self,
        buffer_id, fm_out_port self, fm_flags self]) (\<lambda>p2.
     rbind (pack_list action_pack (fm_actions self)) (\<lambda>(p3, xs).
     let self = self\<lparr>fm_actions := xs\<rparr> in
     case po of
       None \<Rightarrow> Inr (p0 @ p1 @ p2 @ p3, self, g)
     | Some po \<Rightarrow>
         rbind (ofp_barrier_request_pack g ofp_barrier_request_init) (\<lambda>(p4, _, g).
         rbind (ofp_packet_out_pack g po) (\<lambda>(p5, _, g).
           Inr ((p0 @ p1 @ p2 @ p3) @ p4 @ p5, self, g))))))))"

definition ofp_flow_mod_unpack ::
  "ofp_flow_mod \<Rightarrow> bytes \<Rightarrow> int \<Rightarrow> (ofp_flow_mod \<times> int \<times> int) res"
where
  "ofp_flow_mod_unpack self raw offset =
     rbind (ofp_unpack_header self raw offset) (\<lambda>(self, offset, len).
     rbind (ofp_match_unpack True (fm_match self) raw offset) (\<lambda>(match, offset).
     rbind (of_unpack [FQ, FH, FH, FH, FH, FL, FH, FH] raw offset) (\<lambda>(offset, vs).
       tup8 vs (\<lambda>cookie command idle_timeout hard_timeout priority buffer_id out_port flags.
     rbind (unpack_actions raw (len - (32 + ofp_match_len)) offset) (\<lambda>(offset, actions).
       let self = self\<lparr>fm_match := match, fm_cookie := cookie, fm_command := command,
             fm_idle_timeout := idle_timeout, fm_hard_timeout := hard_timeout, fm_priority := priority,
             fm_buffer_id := buffer_id, fm_out_port := out_port, fm_flags := flags, fm_actions := actions\<rparr>
       in if len = ofp_flow_mod_len self then Inr (self, offset, len) else Inl AssertionError)))))"

definition ofp_flow_mod_eq ::
  "xid_gen \<Rightarrow> ofp_flow_mod \<Rightarrow> ofp_flow_mod \<Rightarrow> bool \<times> ofp_flow_mod \<times> ofp_flow_mod \<times> xid_gen"
where
  "ofp_flow_mod_eq g a b =
     (let (r, a, b, g) = ofp_header_eq (ofp_flow_mod_len a) (ofp_flow_mod_len b) g a b in
      if \<not> (r \<and> ofp_match_eq (fm_match a) (fm_match b) \<and> fm_cookie a = fm_cookie b \<and>
          fm_command a = fm_command b \<and> fm_idle_timeout a = fm_idle_timeout b \<and>
          fm_hard_timeout a = fm_hard_timeout b \<and> fm_priority a = fm_priority b \<and>
          buffer_id_get (fm_buffer_id a) = buffer_id_get (fm_buffer_id b) \<and>
          fm_out_port a = fm_out_port b \<and> fm_flags a = fm_flags b \<and>
          list_all2 action_eq (fm_actions a) (fm_actions b))
      then (False, a, b, g)
      else case (fm_data a, fm_data b) of
          (None, None) \<Rightarrow> (True, a, b, g)
        | (Some x, Some y) \<Rightarrow>
            let (r, x, y, g) = ofp_packet_in_eq g x y
            in (r, a\<lparr>fm_data := Some x\<rparr>, b\<lparr>fm_data := Some y\<rparr>, g)
        | _ \<Rightarrow> (False, a, b, g))"

definition flow_mod_wf :: "ofp_flow_mod \<Rightarrow> bool" where
  "flow_mod_wf self \<longleftrightarrow> list_all action_wf (fm_actions self) \<and> match_wf (fm_match self)"

text \<open>
  What a receiver makes of a flow-mod: the match as it survives the wire, the buffer id that was
  written, no data (the data travels in messages of its own).
\<close>

definition flow_mod_received :: "int \<Rightarrow> ofp_flow_mod \<Rightarrow> ofp_flow_mod" where
  "flow_mod_received buffer_id self =
     self\<lparr>fm_match := match_received True ofp_match_init (fm_match self), fm_buffer_id := buffer_id,
       fm_data := None\<rparr>"

lemma flow_mod_data_kept:
  "flow_mod_data self = Inr (b, po, self') \<Longrightarrow> \<exists>k. self' = self\<lparr>fm_buffer_id := k\<rparr>"
  by (rule exI [of _ "fm_buffer_id self'"])
    (auto simp: flow_mod_data_def Let_def elim!: rbindE split: option.splits if_splits)

lemma ofp_flow_mod_unpack_bytes:
  assumes p: "pack_list action_pack (fm_actions self) = Inr (as, xs)" and wf: "flow_mod_wf self"
    and m: "ofp_match_pack True (fm_match self) = Inr ms"
    and r: "list_all2 code_range [FB, FB, FH, FL] [hdr_version self, hdr_type self, n, x]"
      "list_all2 code_range [FQ, FH, FH, FH, FH, FL, FH, FH]
        [fm_cookie self, fm_command self, fm_idle_timeout self, fm_hard_timeout self, fm_priority self,
         b, fm_out_port self, fm_flags self]"
    and n: "n = ofp_flow_mod_len self"
    and c: "chunk raw off (struct_bytes [FB, FB, FH, FL] [hdr_version self, hdr_type self, n, x] @ ms @
      struct_bytes [FQ, FH, FH, FH, FH, FL, FH, FH]
        [fm_cookie self, fm_command self, fm_idle_timeout self, fm_hard_timeout self, fm_priority self,
         b, fm_out_port self, fm_flags self] @ as)"
  shows "ofp_flow_mod_unpack ofp_flow_mod_init raw off =
    Inr (flow_mod_received b (self\<lparr>fm_actions := xs, hdr_xid := Some x\<rparr>), off + n, n)"
proof -
  have w: "match_wf (fm_match self)" "list_all action_wf (fm_actions self)"
    using wf by (simp_all add: flow_mod_wf_def)
  have lm: "length ms = 40" by (rule ofp_match_pack_length [OF m w(1)])
  have la: "int (length as) = actions_len (fm_actions self)" "actions_len xs = actions_len (fm_actions self)"
    using actions_pack_length [OF p w(2)] actions_len_pack [OF p] by simp_all
  note c' = c [unfolded chunk_append struct_bytes_length [OF r(1)] struct_bytes_length [OF r(2)] lm]
  have "ofp_unpack_header ofp_flow_mod_init raw off =
      Inr (ofp_flow_mod_init\<lparr>hdr_version := hdr_version self, hdr_type := hdr_type self, hdr_xid := Some x\<rparr>,
        off + 8, n)"
    using of_unpack_chunk [OF _ r(1)] c' by (simp add: ofp_unpack_header_def)
  moreover have "ofp_match_unpack True ofp_match_init raw (off + 8) =
      Inr (match_received True ofp_match_init (fm_match self), off + 48)"
    using ofp_match_unpack_pack [OF m w(1)] c' by simp
  moreover have "of_unpack [FQ, FH, FH, FH, FH, FL, FH, FH] raw (off + 48) = Inr (off + 72,
      [fm_cookie self, fm_command self, fm_idle_timeout self, fm_hard_timeout self, fm_priority self,
         b, fm_out_port self, fm_flags self])"
    using of_unpack_chunk [OF _ r(2), of raw "off + 48"] c' by (simp add: add.commute)
  moreover have "unpack_actions raw (n - 72) (off + 72) = Inr (off + n, xs)"
    using unpack_actions_pack [OF p w(2), of raw "off + 72" "n - 72"] c' la
    by (simp add: n ofp_flow_mod_len_def ofp_match_len_def add.commute)
  ultimately show ?thesis
    by (simp add: ofp_flow_mod_unpack_def ofp_match_len_def ofp_flow_mod_len_def n la
        ofp_flow_mod_init_def flow_mod_received_def)
qed

lemma ofp_flow_mod_pack_Inr:
  assumes "ofp_flow_mod_pack g self = Inr (bs, self', g')"
  shows "\<exists>b po self1 x g1 ms as xs rest.
    flow_mod_data self = Inr (b, po, self1) \<and> ofp_header_xid g self1 = (x, self1\<lparr>hdr_xid := Some x\<rparr>, g1) \<and>
    ofp_match_pack True (fm_match self) = Inr ms \<and> pack_list action_pack (fm_actions self) = Inr (as, xs) \<and>
    self' = self1\<lparr>fm_actions := xs, hdr_xid := Some x\<rparr> \<and>
    list_all2 code_range [FB, FB, FH, FL] [hdr_version self, hdr_type self, ofp_flow_mod_len self, x] \<and>
    list_all2 code_range [FQ, FH, FH, FH, FH, FL, FH, FH]
        [fm_cookie self, fm_command self, fm_idle_timeout self, fm_hard_timeout self, fm_priority self,
         b, fm_out_port self, fm_flags self] \<and>
    bs = (struct_bytes [FB, FB, FH, FL] [hdr_version self, hdr_type self, ofp_flow_mod_len self, x] @ ms @
      struct_bytes [FQ, FH, FH, FH, FH, FL, FH, FH]
        [fm_cookie self, fm_command self, fm_idle_timeout self, fm_hard_timeout self, fm_priority self,
         b, fm_out_port self, fm_flags self] @ as) @ rest \<and>
    (case po of None \<Rightarrow> rest = [] \<and> g' = g1
     | Some p \<Rightarrow> \<exists>r1 q1 g2 r2 q2. ofp_barrier_request_pack g1 ofp_barrier_request_init = Inr (r1, q1, g2) \<and>
         ofp_packet_out_pack g2 p = Inr (r2, q2, g') \<and> rest = r1 @ r2)"
proof -
  from assms obtain b po self1 where d: "flow_mod_data self = Inr (b, po, self1)"
    by (auto simp: ofp_flow_mod_pack_def elim!: rbindE)
  obtain k where kept: "self1 = self\<lparr>fm_buffer_id := k\<rparr>"
    using flow_mod_data_kept [OF d] by blast
  have eqs: "fm_match self1 = fm_match self" "fm_actions self1 = fm_actions self"
    "hdr_version self1 = hdr_version self" "hdr_type self1 = hdr_type self"
    "fm_cookie self1 = fm_cookie self" "fm_command self1 = fm_command self"
    "fm_idle_timeout self1 = fm_idle_timeout self" "fm_hard_timeout self1 = fm_hard_timeout self"
    "fm_priority self1 = fm_priority self" "fm_out_port self1 = fm_out_port self"
    "fm_flags self1 = fm_flags self" "ofp_flow_mod_len self1 = ofp_flow_mod_len self"
    by (simp_all add: kept ofp_flow_mod_len_def)
  from assms d show ?thesis
    by (cases po)
      (fastforce simp: ofp_flow_mod_pack_def Let_def codec_dest eqs elim!: rbindE dest: ofp_header_xid_eq)+
qed

lemma ofp_flow_mod_unpack_pack:
  assumes "ofp_flow_mod_pack g self = Inr (bs, self', g')" "flow_mod_wf self" "chunk raw off bs"
  shows "\<exists>b po self1. flow_mod_data self = Inr (b, po, self1) \<and>
    ofp_flow_mod_unpack ofp_flow_mod_init raw off =
      Inr (flow_mod_received b self', off + ofp_flow_mod_len self', ofp_flow_mod_len self')"
proof -
  from ofp_flow_mod_pack_Inr [OF assms(1)] obtain b po self1 x ms as xs rest where
    d: "flow_mod_data self = Inr (b, po, self1)" and m: "ofp_match_pack True (fm_match self) = Inr ms"
    and p: "pack_list action_pack (fm_actions self) = Inr (as, xs)"
    and s': "self' = self1\<lparr>fm_actions := xs, hdr_xid := Some x\<rparr>"
    and r: "list_all2 code_range [FB, FB, FH, FL] [hdr_version self, hdr_type self, ofp_flow_mod_len self, x]"
      "list_all2 code_range [FQ, FH, FH, FH, FH, FL, FH, FH]
        [fm_cookie self, fm_command self, fm_idle_timeout self, fm_hard_timeout self, fm_priority self,
         b, fm_out_port self, fm_flags self]"
    and bs: "bs = (struct_bytes [FB, FB, FH, FL] [hdr_version self, hdr_type self, ofp_flow_mod_len self, x] @ ms @
      struct_bytes [FQ, FH, FH, FH, FH, FL, FH, FH]
        [fm_cookie self, fm_command self, fm_idle_timeout self, fm_hard_timeout self, fm_priority self,
         b, fm_out_port self, fm_flags self] @ as) @ rest"
    by blast
  obtain k where "self1 = self\<lparr>fm_buffer_id := k\<rparr>"
    using flow_mod_data_kept [OF d] by blast
  then have "ofp_flow_mod_len self' = ofp_flow_mod_len self"
    "flow_mod_received b self' = flow_mod_received b (self\<lparr>fm_actions := xs, hdr_xid := Some x\<rparr>)"
    using actions_len_pack [OF p] s'
    by (simp_all add: ofp_flow_mod_len_def flow_mod_received_def)
  with ofp_flow_mod_unpack_bytes [OF p assms(2) m r refl] assms(3) d show ?thesis
    by (simp add: bs chunk_append)
qed

subsection \<open>Queue configuration reply\<close>

record ofp_queue_get_config_reply = ofp_header +
  qp_port :: int
  qp_queues :: "ofp_packet_queue list"

definition ofp_queue_get_config_reply_init :: ofp_queue_get_config_reply where
  "ofp_queue_get_config_reply_init =
     \<lparr>hdr_version = OFP_VERSION, hdr_type = 21, hdr_xid = None, qp_port = 0, qp_queues = []\<rparr>"

definition ofp_queue_get_config_reply_len :: "ofp_queue_get_config_reply \<Rightarrow> int res" where
  "ofp_queue_get_config_reply_len self =
     rbind (mapM ofp_packet_queue_len (qp_queues self)) (\<lambda>ls. Inr (16 + sum_list ls))"

definition ofp_queue_get_config_reply_pack ::
  "xid_gen \<Rightarrow> ofp_queue_get_config_reply \<Rightarrow> (bytes \<times> ofp_queue_get_config_reply \<times> xid_gen) res"
where
  "ofp_queue_get_config_reply_pack g self =
     (if \<not> ofp_header_validate self then Inl RuntimeError else
     rbind (ofp_queue_get_config_reply_len self) (\<lambda>len.
     rbind (ofp_header_pack (ofp_header_validate self) len g self) (\<lambda>(p0, self, g).
     rbind (struct_pack [FH] [qp_port self]) (\<lambda>p1.
     rbind (pack_list ofp_packet_queue_pack (qp_queues self)) (\<lambda>(p2, qs).
       Inr (p0 @ p1 @ pad 6 @ p2, self\<lparr>qp_queues := qs\<rparr>, g))))))"

function unpack_queues :: "bytes \<Rightarrow> int \<Rightarrow> int \<Rightarrow> (ofp_packet_queue list \<times> int) res" where
  "unpack_queues raw offset remaining =
     (if remaining > 0 then
        rbind (ofp_packet_queue_unpack ofp_packet_queue_init raw offset) (\<lambda>(q, offset').
        let l = offset' - offset in
        if l < 1 then Inl RuntimeError else
        rbind (unpack_queues raw offset' (remaining - l)) (\<lambda>(qs, offset). Inr (q # qs, offset)))
      else Inr ([], offset))"
  by pat_completeness auto
termination
  by (relation "measure (\<lambda>(raw, offset, remaining). nat remaining)") auto

declare unpack_queues.simps [simp del]

definition ofp_queue_get_config_reply_unpack ::
  "ofp_queue_get_config_reply \<Rightarrow> bytes \<Rightarrow> int \<Rightarrow> (ofp_queue_get_config_reply \<times> int \<times> int) res"
where
  "ofp_queue_get_config_reply_unpack self raw offset =
     rbind (ofp_unpack_header self raw offset) (\<lambda>(self, offset, len).
     rbind (of_unpack [FH] raw offset) (\<lambda>(offset, vs). tup1 vs (\<lambda>port.
     rbind (of_skip raw offset 6) (\<lambda>offset.
     rbind (unpack_queues raw offset (len - 6 - 2 - 8)) (\<lambda>(qs, offset).
       let self = self\<lparr>qp_port := port, qp_queues := qs\<rparr> in
       rbind (ofp_queue_get_config_reply_len self) (\<lambda>n.
         if len = n then Inr (self, offset, len) else Inl AssertionError))))))"

lemma unpack_queues_pack:
  "pack_list ofp_packet_queue_pack xs = Inr (bs, xs') \<Longrightarrow> list_all packet_queue_wf xs \<Longrightarrow>
   chunk raw off bs \<Longrightarrow>
   unpack_queues raw off (int (length bs)) = Inr (xs, off + int (length bs)) \<and> xs' = xs \<and>
   (\<exists>ls. mapM ofp_packet_queue_len xs = Inr ls \<and> sum_list ls = int (length bs))"
proof (induction xs arbitrary: bs xs' off)
  case Nil
  then show ?case by (simp add: unpack_queues.simps)
next
  case (Cons x xs)
  then obtain b x1 bs1 xs1 where p: "ofp_packet_queue_pack x = Inr (b, x1)"
    "pack_list ofp_packet_queue_pack xs = Inr (bs1, xs1)" and eq: "bs = b @ bs1" "xs' = x1 # xs1"
    by (auto simp: rbind_Inr_iff)
  note pl = ofp_packet_queue_pack_length [OF p(1)]
  have c: "chunk raw off b" "chunk raw (off + int (length b)) bs1"
    using Cons.prems(3) by (simp_all add: eq chunk_append)
  have "ofp_packet_queue_unpack ofp_packet_queue_init raw off = Inr (x, off + int (length b))"
    using queues.upk_pk [OF _ p(1) c(1)] Cons.prems(2) pl by simp
  moreover note Cons.IH [OF p(2) _ c(2)]
  ultimately show ?case
    using Cons.prems(2) pl by (subst unpack_queues.simps) (auto simp: eq Let_def)
qed

lemma ofp_queue_get_config_reply_unpack_pack:
  assumes "ofp_queue_get_config_reply_pack g self = Inr (bs, self', g')"
    "list_all packet_queue_wf (qp_queues self)" "chunk raw off bs"
  shows "ofp_queue_get_config_reply_unpack fresh raw off = Inr (self', off + int (length bs), int (length bs))"
proof -
  from assms(1) obtain n x b qs where n: "ofp_queue_get_config_reply_len self = Inr n"
    and p: "pack_list ofp_packet_queue_pack (qp_queues self) = Inr (b, qs)"
    and s': "self' = self\<lparr>hdr_xid := Some x, qp_queues := qs\<rparr>"
    and r: "list_all2 code_range [FB, FB, FH, FL] [hdr_version self, hdr_type self, n, x]"
      "list_all2 code_range [FH] [qp_port self]"
    and bs: "bs = struct_bytes [FB, FB, FH, FL] [hdr_version self, hdr_type self, n, x] @
      struct_bytes [FH] [qp_port self] @ pad 6 @ b"
    by (clarsimp simp: ofp_queue_get_config_reply_pack_def codec_dest elim!: rbindE
        dest!: ofp_header_xid_eq split: if_splits)
  note c = assms(3) [unfolded bs chunk_append struct_bytes_length [OF r(1)] struct_bytes_length [OF r(2)]]
  have c16: "chunk raw (off + 16) b" using c by (simp add: add.commute)
  note q = unpack_queues_pack [OF p assms(2) c16]
  then have ln: "n = 16 + int (length b)" "int (length bs) = n"
    using n struct_bytes_length [OF r(1)] struct_bytes_length [OF r(2)]
    by (auto simp: ofp_queue_get_config_reply_len_def bs)
  have "ofp_unpack_header fresh raw off =
      Inr (fresh\<lparr>hdr_version := hdr_version self, hdr_type := hdr_type self, hdr_xid := Some x\<rparr>, off + 8, n)"
    using of_unpack_chunk [OF _ r(1)] c by (simp add: ofp_unpack_header_def)
  moreover have "of_unpack [FH] raw (off + 8) = Inr (off + 10, [qp_port self])"
    using of_unpack_chunk [OF _ r(2), of raw "off + 8"] c by (simp add: add.commute)
  moreover have "of_skip raw (off + 10) 6 = Inr (off + 16)"
    using of_skip_pad [of raw "off + 10" 6 6] c by (simp add: add.commute)
  ultimately show ?thesis
    using q ln by (auto simp: ofp_queue_get_config_reply_unpack_def ofp_queue_get_config_reply_len_def s' Let_def)
qed

end
