(* ===== verification/OF_Stats.thy ===== *)
theory OF_Stats
  imports OF_Messages
begin

text \<open>
  Statistics in \<^verbatim>\<open>libopenflow_01.py\<close>: the body classes, \<^verbatim>\<open>ofp_stats_request\<close> and \<^verbatim>\<open>ofp_stats_reply\<close>
  with the class table that the \<^verbatim>\<open>openflow_stats_request\<close> and \<^verbatim>\<open>openflow_stats_reply\<close> decorators fill.
\<close>

definition TABLE_ALL :: int where "TABLE_ALL = 255"
definition OFPQ_ALL :: int where "OFPQ_ALL = 4294967295"

section \<open>Bodies\<close>

subsection \<open>Description\<close>

record ofp_desc_stats =
  ds_mfr_desc :: bytes
  ds_hw_desc :: bytes
  ds_sw_desc :: bytes
  ds_serial_num :: bytes
  ds_dp_desc :: bytes

definition ofp_desc_stats_init :: ofp_desc_stats where
  "ofp_desc_stats_init = \<lparr>ds_mfr_desc = [], ds_hw_desc = [], ds_sw_desc = [], ds_serial_num = [], ds_dp_desc = []\<rparr>"

definition ofp_desc_stats_validate :: "ofp_desc_stats \<Rightarrow> bool" where
  "ofp_desc_stats_validate self \<longleftrightarrow>
     length (ds_mfr_desc self) \<le> DESC_STR_LEN \<and> length (ds_hw_desc self) \<le> DESC_STR_LEN \<and>
     length (ds_sw_desc self) \<le> DESC_STR_LEN \<and> length (ds_serial_num self) \<le> SERIAL_NUM_LEN \<and>
     length (ds_dp_desc self) \<le> DESC_STR_LEN"

definition ofp_desc_stats_wf :: "ofp_desc_stats \<Rightarrow> bool" where
  "ofp_desc_stats_wf self \<longleftrightarrow>
     0 \<notin> set (ds_mfr_desc self) \<and> 0 \<notin> set (ds_hw_desc self) \<and> 0 \<notin> set (ds_sw_desc self) \<and>
     0 \<notin> set (ds_serial_num self) \<and> 0 \<notin> set (ds_dp_desc self)"

definition ofp_desc_stats_len :: "ofp_desc_stats \<Rightarrow> int" where
  "ofp_desc_stats_len self = 1056"

definition ofp_desc_stats_pack :: "ofp_desc_stats \<Rightarrow> bytes res" where
  "ofp_desc_stats_pack self =
     (if \<not> ofp_desc_stats_validate self then Inl RuntimeError else
     Inr (ljust0 (ds_mfr_desc self) DESC_STR_LEN @ ljust0 (ds_hw_desc self) DESC_STR_LEN @ ljust0
        (ds_sw_desc self) DESC_STR_LEN @ ljust0 (ds_serial_num self) SERIAL_NUM_LEN @ ljust0
        (ds_dp_desc self) DESC_STR_LEN))"

definition ofp_desc_stats_unpack :: "ofp_desc_stats \<Rightarrow> bytes \<Rightarrow> int \<Rightarrow> (ofp_desc_stats \<times> int) res" where
  "ofp_desc_stats_unpack self raw offset0 =
     rbind (of_readzs raw offset0 (int DESC_STR_LEN)) (\<lambda>(offset, mfr_desc).
     rbind (of_readzs raw offset (int DESC_STR_LEN)) (\<lambda>(offset, hw_desc).
     rbind (of_readzs raw offset (int DESC_STR_LEN)) (\<lambda>(offset, sw_desc).
     rbind (of_readzs raw offset (int SERIAL_NUM_LEN)) (\<lambda>(offset, serial_num).
     rbind (of_readzs raw offset (int DESC_STR_LEN)) (\<lambda>(offset, dp_desc).
       let self = self\<lparr>ds_mfr_desc := mfr_desc, ds_hw_desc := hw_desc, ds_sw_desc := sw_desc, ds_serial_num :=
            serial_num, ds_dp_desc := dp_desc\<rparr>
       in if offset - offset0 = ofp_desc_stats_len self then Inr (self, offset) else Inl AssertionError)))))"

definition ofp_desc_stats_eq :: "ofp_desc_stats \<Rightarrow> ofp_desc_stats \<Rightarrow> bool" where
  "ofp_desc_stats_eq a b \<longleftrightarrow>
     ds_mfr_desc a = ds_mfr_desc b \<and> ds_hw_desc a = ds_hw_desc b \<and> ds_sw_desc a = ds_sw_desc b
     \<and> ds_serial_num a = ds_serial_num b \<and> ds_dp_desc a = ds_dp_desc b"

lemma ofp_desc_stats_unpack_pack [codec_simps]:
  "ofp_desc_stats_pack self = Inr bs \<Longrightarrow> ofp_desc_stats_wf self \<Longrightarrow> chunk raw off bs \<Longrightarrow>
   ofp_desc_stats_unpack fresh raw off = Inr (self, off + 1056)"
  by (clarsimp simp: ofp_desc_stats_pack_def ofp_desc_stats_validate_def ofp_desc_stats_wf_def of_const_defs codec_dest elim!: rbindE split: if_splits)
    (simp add: ofp_desc_stats_unpack_def ofp_desc_stats_len_def zs_ok_def codec_simps)

lemma ofp_desc_stats_pack_length:
  "ofp_desc_stats_pack self = Inr bs \<Longrightarrow> ofp_desc_stats_wf self \<Longrightarrow> int (length bs) = 1056"
  by (auto simp: ofp_desc_stats_pack_def ofp_desc_stats_validate_def ofp_desc_stats_wf_def of_const_defs  codec_dest elim!: rbindE split: if_splits)

subsection \<open>Flow statistics request\<close>

record ofp_flow_stats_request =
  fq1_match :: ofp_match
  fq1_table_id :: int
  fq1_out_port :: int

definition ofp_flow_stats_request_init :: ofp_flow_stats_request where
  "ofp_flow_stats_request_init = \<lparr>fq1_match = ofp_match_init, fq1_table_id = TABLE_ALL, fq1_out_port = OFPP_NONE\<rparr>"

definition ofp_flow_stats_request_len :: "ofp_flow_stats_request \<Rightarrow> int" where
  "ofp_flow_stats_request_len self = 4 + ofp_match_len"

definition ofp_flow_stats_request_pack :: "ofp_flow_stats_request \<Rightarrow> bytes res" where
  "ofp_flow_stats_request_pack self =
     rbind (ofp_match_pack False (fq1_match self)) (\<lambda>p1.
     rbind (struct_pack [FB, FB, FH] [fq1_table_id self, 0, fq1_out_port self]) (\<lambda>p2.
       Inr (p1 @ p2)))"

definition ofp_flow_stats_request_unpack :: "ofp_flow_stats_request \<Rightarrow> bytes \<Rightarrow> int \<Rightarrow> (ofp_flow_stats_request \<times> int) res" where
  "ofp_flow_stats_request_unpack self raw offset0 =
     rbind (ofp_match_unpack False (fq1_match self) raw offset0) (\<lambda>(match, offset).
     rbind (of_unpack [FB, FB, FH] raw offset) (\<lambda>(offset, vs). tup3 vs (\<lambda>table_id pad1 out_port.
     if pad1 \<noteq> 0 then Inl AssertionError else
       let self = self\<lparr>fq1_match := match, fq1_table_id := table_id, fq1_out_port := out_port\<rparr>
       in if offset - offset0 = ofp_flow_stats_request_len self then Inr (self, offset) else Inl AssertionError)))"

definition ofp_flow_stats_request_eq :: "ofp_flow_stats_request \<Rightarrow> ofp_flow_stats_request \<Rightarrow> bool" where
  "ofp_flow_stats_request_eq a b \<longleftrightarrow>
     ofp_match_eq (fq1_match a) (fq1_match b) \<and> fq1_table_id a = fq1_table_id b \<and> fq1_out_port a =
     fq1_out_port b"

lemma ofp_flow_stats_request_unpack_pack [codec_simps]:
  "ofp_flow_stats_request_pack self = Inr bs \<Longrightarrow> match_wf (fq1_match self) \<Longrightarrow> chunk raw off bs \<Longrightarrow>
   ofp_flow_stats_request_unpack fresh raw off = Inr (self\<lparr>fq1_match := match_received False (fq1_match fresh) (fq1_match self)\<rparr>, off + 44)"
  by (clarsimp simp: ofp_flow_stats_request_pack_def codec_dest elim!: rbindE)
    (frule (1) ofp_match_pack_length, simp add: ofp_flow_stats_request_unpack_def ofp_flow_stats_request_len_def ofp_match_len_def codec_simps)

lemma ofp_flow_stats_request_pack_length:
  "ofp_flow_stats_request_pack self = Inr bs \<Longrightarrow> match_wf (fq1_match self) \<Longrightarrow> int (length bs) = 44"
  by (auto simp: ofp_flow_stats_request_pack_def ofp_match_pack_length  codec_dest elim!: rbindE)

subsection \<open>Aggregate statistics request\<close>

record ofp_aggregate_stats_request =
  fq2_match :: ofp_match
  fq2_table_id :: int
  fq2_out_port :: int

definition ofp_aggregate_stats_request_init :: ofp_aggregate_stats_request where
  "ofp_aggregate_stats_request_init = \<lparr>fq2_match = ofp_match_init, fq2_table_id = TABLE_ALL, fq2_out_port = OFPP_NONE\<rparr>"

definition ofp_aggregate_stats_request_len :: "ofp_aggregate_stats_request \<Rightarrow> int" where
  "ofp_aggregate_stats_request_len self = 44"

definition ofp_aggregate_stats_request_pack :: "ofp_aggregate_stats_request \<Rightarrow> bytes res" where
  "ofp_aggregate_stats_request_pack self =
     rbind (ofp_match_pack False (fq2_match self)) (\<lambda>p1.
     rbind (struct_pack [FB, FB, FH] [fq2_table_id self, 0, fq2_out_port self]) (\<lambda>p2.
       Inr (p1 @ p2)))"

definition ofp_aggregate_stats_request_unpack :: "ofp_aggregate_stats_request \<Rightarrow> bytes \<Rightarrow> int \<Rightarrow> (ofp_aggregate_stats_request \<times> int) res" where
  "ofp_aggregate_stats_request_unpack self raw offset0 =
     rbind (ofp_match_unpack False (fq2_match self) raw offset0) (\<lambda>(match, offset).
     rbind (of_unpack [FB, FB, FH] raw offset) (\<lambda>(offset, vs). tup3 vs (\<lambda>table_id pad1 out_port.
     if pad1 \<noteq> 0 then Inl AssertionError else
       let self = self\<lparr>fq2_match := match, fq2_table_id := table_id, fq2_out_port := out_port\<rparr>
       in if offset - offset0 = ofp_aggregate_stats_request_len self then Inr (self, offset) else Inl AssertionError)))"

definition ofp_aggregate_stats_request_eq :: "ofp_aggregate_stats_request \<Rightarrow> ofp_aggregate_stats_request \<Rightarrow> bool" where
  "ofp_aggregate_stats_request_eq a b \<longleftrightarrow>
     ofp_match_eq (fq2_match a) (fq2_match b) \<and> fq2_table_id a = fq2_table_id b \<and> fq2_out_port a =
     fq2_out_port b"

lemma ofp_aggregate_stats_request_unpack_pack [codec_simps]:
  "ofp_aggregate_stats_request_pack self = Inr bs \<Longrightarrow> match_wf (fq2_match self) \<Longrightarrow> chunk raw off bs \<Longrightarrow>
   ofp_aggregate_stats_request_unpack fresh raw off = Inr (self\<lparr>fq2_match := match_received False (fq2_match fresh) (fq2_match self)\<rparr>, off + 44)"
  by (clarsimp simp: ofp_aggregate_stats_request_pack_def codec_dest elim!: rbindE)
    (frule (1) ofp_match_pack_length, simp add: ofp_aggregate_stats_request_unpack_def ofp_aggregate_stats_request_len_def ofp_match_len_def codec_simps)

lemma ofp_aggregate_stats_request_pack_length:
  "ofp_aggregate_stats_request_pack self = Inr bs \<Longrightarrow> match_wf (fq2_match self) \<Longrightarrow> int (length bs) = 44"
  by (auto simp: ofp_aggregate_stats_request_pack_def ofp_match_pack_length  codec_dest elim!: rbindE)

subsection \<open>Aggregate statistics\<close>

record ofp_aggregate_stats =
  ags_packet_count :: int
  ags_byte_count :: int
  ags_flow_count :: int

definition ofp_aggregate_stats_init :: ofp_aggregate_stats where
  "ofp_aggregate_stats_init = \<lparr>ags_packet_count = 0, ags_byte_count = 0, ags_flow_count = 0\<rparr>"

definition ofp_aggregate_stats_len :: "ofp_aggregate_stats \<Rightarrow> int" where
  "ofp_aggregate_stats_len self = 24"

definition ofp_aggregate_stats_pack :: "ofp_aggregate_stats \<Rightarrow> bytes res" where
  "ofp_aggregate_stats_pack self =
     rbind (struct_pack [FQ, FQ, FL] [ags_packet_count self, ags_byte_count self, ags_flow_count
       self]) (\<lambda>p1.
       Inr (p1 @ pad 4))"

definition ofp_aggregate_stats_unpack :: "ofp_aggregate_stats \<Rightarrow> bytes \<Rightarrow> int \<Rightarrow> (ofp_aggregate_stats \<times> int) res" where
  "ofp_aggregate_stats_unpack self raw offset0 =
     rbind (of_unpack [FQ, FQ, FL] raw offset0) (\<lambda>(offset, vs). tup3 vs (\<lambda>packet_count byte_count
       flow_count.
     rbind (of_skip raw offset 4) (\<lambda>offset.
       let self = self\<lparr>ags_packet_count := packet_count, ags_byte_count := byte_count, ags_flow_count :=
            flow_count\<rparr>
       in if offset - offset0 = ofp_aggregate_stats_len self then Inr (self, offset) else Inl AssertionError)))"

definition ofp_aggregate_stats_eq :: "ofp_aggregate_stats \<Rightarrow> ofp_aggregate_stats \<Rightarrow> bool" where
  "ofp_aggregate_stats_eq a b \<longleftrightarrow>
     ags_packet_count a = ags_packet_count b \<and> ags_byte_count a = ags_byte_count b \<and> ags_flow_count
     a = ags_flow_count b"

lemma ofp_aggregate_stats_unpack_pack [codec_simps]:
  "ofp_aggregate_stats_pack self = Inr bs \<Longrightarrow> chunk raw off bs \<Longrightarrow>
   ofp_aggregate_stats_unpack fresh raw off = Inr (self, off + 24)"
  by (clarsimp simp: ofp_aggregate_stats_pack_def codec_dest elim!: rbindE)
    (simp add: ofp_aggregate_stats_unpack_def ofp_aggregate_stats_len_def codec_simps)

lemma ofp_aggregate_stats_pack_length:
  "ofp_aggregate_stats_pack self = Inr bs \<Longrightarrow> int (length bs) = 24"
  by (auto simp: ofp_aggregate_stats_pack_def  codec_dest elim!: rbindE)

subsection \<open>Table statistics\<close>

record ofp_table_stats =
  ts_table_id :: int
  ts_name :: bytes
  ts_wildcards :: int
  ts_max_entries :: int
  ts_active_count :: int
  ts_lookup_count :: int
  ts_matched_count :: int

definition ofp_table_stats_init :: ofp_table_stats where
  "ofp_table_stats_init = \<lparr>ts_table_id = 0, ts_name = [], ts_wildcards = 0, ts_max_entries = 0, ts_active_count = 0,
      ts_lookup_count = 0, ts_matched_count = 0\<rparr>"

definition ofp_table_stats_validate :: "ofp_table_stats \<Rightarrow> bool" where
  "ofp_table_stats_validate self \<longleftrightarrow> length (ts_name self) \<le> OFP_MAX_TABLE_NAME_LEN"

definition ofp_table_stats_len :: "ofp_table_stats \<Rightarrow> int" where
  "ofp_table_stats_len self = 64"

definition ofp_table_stats_pack :: "ofp_table_stats \<Rightarrow> bytes res" where
  "ofp_table_stats_pack self =
     (if \<not> ofp_table_stats_validate self then Inl RuntimeError else
     rbind (struct_pack [FB] [ts_table_id self]) (\<lambda>p1.
     rbind (struct_pack [FL, FL, FL, FQ, FQ] [ts_wildcards self, ts_max_entries self,
       ts_active_count self, ts_lookup_count self, ts_matched_count self]) (\<lambda>p2.
       Inr (p1 @ pad 3 @ ljust0 (ts_name self) OFP_MAX_TABLE_NAME_LEN @ p2))))"

definition ofp_table_stats_unpack :: "ofp_table_stats \<Rightarrow> bytes \<Rightarrow> int \<Rightarrow> (ofp_table_stats \<times> int) res" where
  "ofp_table_stats_unpack self raw offset0 =
     rbind (of_unpack [FB] raw offset0) (\<lambda>(offset, vs). tup1 vs (\<lambda>table_id.
     rbind (of_skip raw offset 3) (\<lambda>offset.
     rbind (of_readzs raw offset (int OFP_MAX_TABLE_NAME_LEN)) (\<lambda>(offset, name).
     rbind (of_unpack [FL, FL, FL, FQ, FQ] raw offset) (\<lambda>(offset, vs). tup5 vs (\<lambda>wildcards
       max_entries active_count lookup_count matched_count.
       let self = self\<lparr>ts_table_id := table_id, ts_name := name, ts_wildcards := wildcards, ts_max_entries :=
            max_entries, ts_active_count := active_count, ts_lookup_count := lookup_count,
            ts_matched_count := matched_count\<rparr>
       in if offset - offset0 = ofp_table_stats_len self then Inr (self, offset) else Inl AssertionError))))))"

definition ofp_table_stats_eq :: "ofp_table_stats \<Rightarrow> ofp_table_stats \<Rightarrow> bool" where
  "ofp_table_stats_eq a b \<longleftrightarrow>
     ts_table_id a = ts_table_id b \<and> ts_name a = ts_name b \<and> ts_wildcards a = ts_wildcards b \<and>
     ts_max_entries a = ts_max_entries b \<and> ts_active_count a = ts_active_count b \<and> ts_lookup_count a
     = ts_lookup_count b \<and> ts_matched_count a = ts_matched_count b"

lemma ofp_table_stats_unpack_pack [codec_simps]:
  "ofp_table_stats_pack self = Inr bs \<Longrightarrow> 0 \<notin> set (ts_name self) \<Longrightarrow> chunk raw off bs \<Longrightarrow>
   ofp_table_stats_unpack fresh raw off = Inr (self, off + 64)"
  by (clarsimp simp: ofp_table_stats_pack_def ofp_table_stats_validate_def of_const_defs codec_dest elim!: rbindE split: if_splits)
    (simp add: ofp_table_stats_unpack_def ofp_table_stats_len_def zs_ok_def codec_simps)

lemma ofp_table_stats_pack_length:
  "ofp_table_stats_pack self = Inr bs \<Longrightarrow> 0 \<notin> set (ts_name self) \<Longrightarrow> int (length bs) = 64"
  by (auto simp: ofp_table_stats_pack_def ofp_table_stats_validate_def of_const_defs  codec_dest elim!: rbindE split: if_splits)

subsection \<open>Port statistics request\<close>

record ofp_port_stats_request =
  psr_port_no :: int

definition ofp_port_stats_request_init :: ofp_port_stats_request where
  "ofp_port_stats_request_init = \<lparr>psr_port_no = OFPP_NONE\<rparr>"

definition ofp_port_stats_request_len :: "ofp_port_stats_request \<Rightarrow> int" where
  "ofp_port_stats_request_len self = 8"

definition ofp_port_stats_request_pack :: "ofp_port_stats_request \<Rightarrow> bytes res" where
  "ofp_port_stats_request_pack self =
     rbind (struct_pack [FH] [psr_port_no self]) (\<lambda>p1.
       Inr (p1 @ pad 6))"

definition ofp_port_stats_request_unpack :: "ofp_port_stats_request \<Rightarrow> bytes \<Rightarrow> int \<Rightarrow> (ofp_port_stats_request \<times> int) res" where
  "ofp_port_stats_request_unpack self raw offset0 =
     rbind (of_unpack [FH] raw offset0) (\<lambda>(offset, vs). tup1 vs (\<lambda>port_no.
     rbind (of_skip raw offset 6) (\<lambda>offset.
       let self = self\<lparr>psr_port_no := port_no\<rparr>
       in if offset - offset0 = ofp_port_stats_request_len self then Inr (self, offset) else Inl AssertionError)))"

definition ofp_port_stats_request_eq :: "ofp_port_stats_request \<Rightarrow> ofp_port_stats_request \<Rightarrow> bool" where
  "ofp_port_stats_request_eq a b \<longleftrightarrow>
     psr_port_no a = psr_port_no b"

lemma ofp_port_stats_request_unpack_pack [codec_simps]:
  "ofp_port_stats_request_pack self = Inr bs \<Longrightarrow> chunk raw off bs \<Longrightarrow>
   ofp_port_stats_request_unpack fresh raw off = Inr (self, off + 8)"
  by (clarsimp simp: ofp_port_stats_request_pack_def codec_dest elim!: rbindE)
    (simp add: ofp_port_stats_request_unpack_def ofp_port_stats_request_len_def codec_simps)

lemma ofp_port_stats_request_pack_length:
  "ofp_port_stats_request_pack self = Inr bs \<Longrightarrow> int (length bs) = 8"
  by (auto simp: ofp_port_stats_request_pack_def  codec_dest elim!: rbindE)

subsection \<open>Port statistics\<close>

record ofp_port_stats =
  pst_port_no :: int
  pst_rx_packets :: int
  pst_tx_packets :: int
  pst_rx_bytes :: int
  pst_tx_bytes :: int
  pst_rx_dropped :: int
  pst_tx_dropped :: int
  pst_rx_errors :: int
  pst_tx_errors :: int
  pst_rx_frame_err :: int
  pst_rx_over_err :: int
  pst_rx_crc_err :: int
  pst_collisions :: int

definition ofp_port_stats_init :: ofp_port_stats where
  "ofp_port_stats_init = \<lparr>pst_port_no = OFPP_NONE, pst_rx_packets = 0, pst_tx_packets = 0, pst_rx_bytes = 0,
      pst_tx_bytes = 0, pst_rx_dropped = 0, pst_tx_dropped = 0, pst_rx_errors = 0, pst_tx_errors =
      0, pst_rx_frame_err = 0, pst_rx_over_err = 0, pst_rx_crc_err = 0, pst_collisions = 0\<rparr>"

definition ofp_port_stats_len :: "ofp_port_stats \<Rightarrow> int" where
  "ofp_port_stats_len self = 104"

definition ofp_port_stats_pack :: "ofp_port_stats \<Rightarrow> bytes res" where
  "ofp_port_stats_pack self =
     rbind (struct_pack [FH] [pst_port_no self]) (\<lambda>p1.
     rbind (struct_pack [FQ, FQ, FQ, FQ, FQ, FQ, FQ, FQ, FQ, FQ, FQ, FQ] [pst_rx_packets self,
       pst_tx_packets self, pst_rx_bytes self, pst_tx_bytes self, pst_rx_dropped self,
       pst_tx_dropped self, pst_rx_errors self, pst_tx_errors self, pst_rx_frame_err self,
       pst_rx_over_err self, pst_rx_crc_err self, pst_collisions self]) (\<lambda>p2.
       Inr (p1 @ pad 6 @ p2)))"

definition ofp_port_stats_unpack :: "ofp_port_stats \<Rightarrow> bytes \<Rightarrow> int \<Rightarrow> (ofp_port_stats \<times> int) res" where
  "ofp_port_stats_unpack self raw offset0 =
     rbind (of_unpack [FH] raw offset0) (\<lambda>(offset, vs). tup1 vs (\<lambda>port_no.
     rbind (of_skip raw offset 6) (\<lambda>offset.
     rbind (of_unpack [FQ, FQ, FQ, FQ, FQ, FQ, FQ, FQ, FQ, FQ, FQ, FQ] raw offset)
       (\<lambda>(offset, vs). tup12 vs (\<lambda>rx_packets tx_packets rx_bytes tx_bytes rx_dropped tx_dropped
       rx_errors tx_errors rx_frame_err rx_over_err rx_crc_err collisions.
       let self = self\<lparr>pst_port_no := port_no, pst_rx_packets := rx_packets, pst_tx_packets := tx_packets,
            pst_rx_bytes := rx_bytes, pst_tx_bytes := tx_bytes, pst_rx_dropped := rx_dropped,
            pst_tx_dropped := tx_dropped, pst_rx_errors := rx_errors, pst_tx_errors := tx_errors,
            pst_rx_frame_err := rx_frame_err, pst_rx_over_err := rx_over_err, pst_rx_crc_err :=
            rx_crc_err, pst_collisions := collisions\<rparr>
       in if offset - offset0 = ofp_port_stats_len self then Inr (self, offset) else Inl AssertionError)))))"

definition ofp_port_stats_eq :: "ofp_port_stats \<Rightarrow> ofp_port_stats \<Rightarrow> bool" where
  "ofp_port_stats_eq a b \<longleftrightarrow>
     pst_port_no a = pst_port_no b \<and> pst_rx_packets a = pst_rx_packets b \<and> pst_tx_packets a =
     pst_tx_packets b \<and> pst_rx_bytes a = pst_rx_bytes b \<and> pst_tx_bytes a = pst_tx_bytes b \<and>
     pst_rx_dropped a = pst_rx_dropped b \<and> pst_tx_dropped a = pst_tx_dropped b \<and> pst_rx_errors a =
     pst_rx_errors b \<and> pst_tx_errors a = pst_tx_errors b \<and> pst_rx_frame_err a = pst_rx_frame_err b
     \<and> pst_rx_over_err a = pst_rx_over_err b \<and> pst_rx_crc_err a = pst_rx_crc_err b \<and> pst_collisions
     a = pst_collisions b"

text \<open>\<^verbatim>\<open>__add__\<close>: the sums of the counters, the port only when it is the same.\<close>

definition ofp_port_stats_add :: "ofp_port_stats \<Rightarrow> ofp_port_stats \<Rightarrow> ofp_port_stats" where
  "ofp_port_stats_add a b =
     \<lparr>pst_port_no = (if pst_port_no a = pst_port_no b then pst_port_no a else OFPP_NONE),
      pst_rx_packets = pst_rx_packets a + pst_rx_packets b,
      pst_tx_packets = pst_tx_packets a + pst_tx_packets b,
      pst_rx_bytes = pst_rx_bytes a + pst_rx_bytes b,
      pst_tx_bytes = pst_tx_bytes a + pst_tx_bytes b,
      pst_rx_dropped = pst_rx_dropped a + pst_rx_dropped b,
      pst_tx_dropped = pst_tx_dropped a + pst_tx_dropped b,
      pst_rx_errors = pst_rx_errors a + pst_rx_errors b,
      pst_tx_errors = pst_tx_errors a + pst_tx_errors b,
      pst_rx_frame_err = pst_rx_frame_err a + pst_rx_frame_err b,
      pst_rx_over_err = pst_rx_over_err a + pst_rx_over_err b,
      pst_rx_crc_err = pst_rx_crc_err a + pst_rx_crc_err b,
      pst_collisions = pst_collisions a + pst_collisions b\<rparr>"

lemma ofp_port_stats_unpack_pack [codec_simps]:
  "ofp_port_stats_pack self = Inr bs \<Longrightarrow> chunk raw off bs \<Longrightarrow>
   ofp_port_stats_unpack fresh raw off = Inr (self, off + 104)"
  by (clarsimp simp: ofp_port_stats_pack_def codec_dest elim!: rbindE)
    (simp add: ofp_port_stats_unpack_def ofp_port_stats_len_def codec_simps)

lemma ofp_port_stats_pack_length:
  "ofp_port_stats_pack self = Inr bs \<Longrightarrow> int (length bs) = 104"
  by (auto simp: ofp_port_stats_pack_def  codec_dest elim!: rbindE)

lemma int_to_be_2_zero: "int_to_be 2 0 = pad 2"
  by (simp add: pad_def numeral_2_eq_2)

lemma queue_head_bytes:
  "struct_bytes [FH, FH, FL] [a, 0, b] = struct_bytes [FH] [a] @ pad 2 @ struct_bytes [FL] [b]"
  "struct_bytes [FH, FH, FL, FQ, FQ, FQ] [a, 0, b, c, d, e] =
     struct_bytes [FH] [a] @ pad 2 @ struct_bytes [FL, FQ, FQ, FQ] [b, c, d, e]"
  by (simp_all add: struct_bytes.simps int_to_be_2_zero)

lemma of_unpack_queue_head [codec_simps]:
  "chunk raw off (struct_bytes [FH] [a]) \<Longrightarrow> chunk raw (off + 2) (pad 2) \<Longrightarrow>
   chunk raw (4 + off) (struct_bytes [FL] [b]) \<Longrightarrow> list_all2 code_range [FH, FL] [a, b] \<Longrightarrow>
   of_unpack [FH, FH, FL] raw off = Inr (off + 8, [a, 0, b])"
  "chunk raw off (struct_bytes [FH] [a]) \<Longrightarrow> chunk raw (off + 2) (pad 2) \<Longrightarrow>
   chunk raw (4 + off) (struct_bytes [FL, FQ, FQ, FQ] [b, c, d, e]) \<Longrightarrow>
   list_all2 code_range [FH, FL, FQ, FQ, FQ] [a, b, c, d, e] \<Longrightarrow>
   of_unpack [FH, FH, FL, FQ, FQ, FQ] raw off = Inr (off + 32, [a, 0, b, c, d, e])"
  using of_unpack_chunk [of raw off "[FH, FH, FL]" "[a, 0, b]"]
    of_unpack_chunk [of raw off "[FH, FH, FL, FQ, FQ, FQ]" "[a, 0, b, c, d, e]"]
  by (simp_all add: queue_head_bytes chunk_append)

subsection \<open>Queue statistics request\<close>

record ofp_queue_stats_request =
  qsr_port_no :: int
  qsr_queue_id :: int

definition ofp_queue_stats_request_init :: ofp_queue_stats_request where
  "ofp_queue_stats_request_init = \<lparr>qsr_port_no = OFPP_ALL, qsr_queue_id = OFPQ_ALL\<rparr>"

definition ofp_queue_stats_request_len :: "ofp_queue_stats_request \<Rightarrow> int" where
  "ofp_queue_stats_request_len self = 8"

definition ofp_queue_stats_request_pack :: "ofp_queue_stats_request \<Rightarrow> bytes res" where
  "ofp_queue_stats_request_pack self =
     rbind (struct_pack [FH] [qsr_port_no self]) (\<lambda>p1.
     rbind (struct_pack [FL] [qsr_queue_id self]) (\<lambda>p2.
       Inr (p1 @ pad 2 @ p2)))"

definition ofp_queue_stats_request_unpack :: "ofp_queue_stats_request \<Rightarrow> bytes \<Rightarrow> int \<Rightarrow> (ofp_queue_stats_request \<times> int) res" where
  "ofp_queue_stats_request_unpack self raw offset0 =
     rbind (of_unpack [FH, FH, FL] raw offset0) (\<lambda>(offset, vs). tup3 vs (\<lambda>port_no pad1 queue_id.
     if pad1 \<noteq> 0 then Inl AssertionError else
       let self = self\<lparr>qsr_port_no := port_no, qsr_queue_id := queue_id\<rparr>
       in if offset - offset0 = ofp_queue_stats_request_len self then Inr (self, offset) else Inl AssertionError))"

definition ofp_queue_stats_request_eq :: "ofp_queue_stats_request \<Rightarrow> ofp_queue_stats_request \<Rightarrow> bool" where
  "ofp_queue_stats_request_eq a b \<longleftrightarrow>
     qsr_port_no a = qsr_port_no b \<and> qsr_queue_id a = qsr_queue_id b"

lemma ofp_queue_stats_request_unpack_pack [codec_simps]:
  "ofp_queue_stats_request_pack self = Inr bs \<Longrightarrow> chunk raw off bs \<Longrightarrow>
   ofp_queue_stats_request_unpack fresh raw off = Inr (self, off + 8)"
  by (clarsimp simp: ofp_queue_stats_request_pack_def codec_dest elim!: rbindE)
    (simp add: ofp_queue_stats_request_unpack_def ofp_queue_stats_request_len_def codec_simps)

lemma ofp_queue_stats_request_pack_length:
  "ofp_queue_stats_request_pack self = Inr bs \<Longrightarrow> int (length bs) = 8"
  by (auto simp: ofp_queue_stats_request_pack_def  codec_dest elim!: rbindE)

subsection \<open>Queue statistics\<close>

record ofp_queue_stats =
  qst_port_no :: int
  qst_queue_id :: int
  qst_tx_bytes :: int
  qst_tx_packets :: int
  qst_tx_errors :: int

definition ofp_queue_stats_init :: ofp_queue_stats where
  "ofp_queue_stats_init = \<lparr>qst_port_no = 0, qst_queue_id = 0, qst_tx_bytes = 0, qst_tx_packets = 0, qst_tx_errors = 0\<rparr>"

definition ofp_queue_stats_len :: "ofp_queue_stats \<Rightarrow> int" where
  "ofp_queue_stats_len self = 32"

definition ofp_queue_stats_pack :: "ofp_queue_stats \<Rightarrow> bytes res" where
  "ofp_queue_stats_pack self =
     rbind (struct_pack [FH] [qst_port_no self]) (\<lambda>p1.
     rbind (struct_pack [FL, FQ, FQ, FQ] [qst_queue_id self, qst_tx_bytes self, qst_tx_packets
       self, qst_tx_errors self]) (\<lambda>p2.
       Inr (p1 @ pad 2 @ p2)))"

definition ofp_queue_stats_unpack :: "ofp_queue_stats \<Rightarrow> bytes \<Rightarrow> int \<Rightarrow> (ofp_queue_stats \<times> int) res" where
  "ofp_queue_stats_unpack self raw offset0 =
     rbind (of_unpack [FH, FH, FL, FQ, FQ, FQ] raw offset0) (\<lambda>(offset, vs). tup6 vs
       (\<lambda>port_no pad1 queue_id tx_bytes tx_packets tx_errors.
       let self = self\<lparr>qst_port_no := port_no, qst_queue_id := queue_id, qst_tx_bytes := tx_bytes,
            qst_tx_packets := tx_packets, qst_tx_errors := tx_errors\<rparr>
       in if offset - offset0 = ofp_queue_stats_len self then Inr (self, offset) else Inl AssertionError))"

definition ofp_queue_stats_eq :: "ofp_queue_stats \<Rightarrow> ofp_queue_stats \<Rightarrow> bool" where
  "ofp_queue_stats_eq a b \<longleftrightarrow>
     qst_port_no a = qst_port_no b \<and> qst_queue_id a = qst_queue_id b \<and> qst_tx_bytes a = qst_tx_bytes
     b \<and> qst_tx_packets a = qst_tx_packets b \<and> qst_tx_errors a = qst_tx_errors b"

lemma ofp_queue_stats_unpack_pack [codec_simps]:
  "ofp_queue_stats_pack self = Inr bs \<Longrightarrow> chunk raw off bs \<Longrightarrow>
   ofp_queue_stats_unpack fresh raw off = Inr (self, off + 32)"
  by (clarsimp simp: ofp_queue_stats_pack_def codec_dest elim!: rbindE)
    (simp add: ofp_queue_stats_unpack_def ofp_queue_stats_len_def codec_simps)

lemma ofp_queue_stats_pack_length:
  "ofp_queue_stats_pack self = Inr bs \<Longrightarrow> int (length bs) = 32"
  by (auto simp: ofp_queue_stats_pack_def  codec_dest elim!: rbindE)

subsection \<open>Flow statistics\<close>

record ofp_flow_stats =
  fs_table_id :: int
  fs_match :: ofp_match
  fs_duration_sec :: int
  fs_duration_nsec :: int
  fs_priority :: int
  fs_idle_timeout :: int
  fs_hard_timeout :: int
  fs_cookie :: int
  fs_packet_count :: int
  fs_byte_count :: int
  fs_actions :: "ofp_action list"

definition ofp_flow_stats_init :: ofp_flow_stats where
  "ofp_flow_stats_init =
     \<lparr>fs_table_id = 0, fs_match = ofp_match_init, fs_duration_sec = 0, fs_duration_nsec = 0,
      fs_priority = OFP_DEFAULT_PRIORITY, fs_idle_timeout = 0, fs_hard_timeout = 0, fs_cookie = 0,
      fs_packet_count = 0, fs_byte_count = 0, fs_actions = []\<rparr>"

definition ofp_flow_stats_len :: "ofp_flow_stats \<Rightarrow> int" where
  "ofp_flow_stats_len self = 48 + ofp_match_len + actions_len (fs_actions self)"

definition ofp_flow_stats_pack :: "ofp_flow_stats \<Rightarrow> (bytes \<times> ofp_flow_stats) res" where
  "ofp_flow_stats_pack self =
     rbind (struct_pack [FH, FB, FB] [ofp_flow_stats_len self, fs_table_id self, 0]) (\<lambda>p1.
     rbind (ofp_match_pack False (fs_match self)) (\<lambda>p2.
     rbind (struct_pack [FL, FL, FH, FH, FH]
       [fs_duration_sec self, fs_duration_nsec self, fs_priority self, fs_idle_timeout self,
        fs_hard_timeout self]) (\<lambda>p3.
     rbind (struct_pack [FQ, FQ, FQ] [fs_cookie self, fs_packet_count self, fs_byte_count self]) (\<lambda>p4.
     rbind (pack_list action_pack (fs_actions self)) (\<lambda>(p5, xs).
       Inr (p1 @ p2 @ p3 @ pad 6 @ p4 @ p5, self\<lparr>fs_actions := xs\<rparr>))))))"

definition ofp_flow_stats_unpack ::
  "ofp_flow_stats \<Rightarrow> bytes \<Rightarrow> int \<Rightarrow> (ofp_flow_stats \<times> int) res"
where
  "ofp_flow_stats_unpack self raw offset0 =
     rbind (of_unpack [FH, FB, FB] raw offset0) (\<lambda>(offset, vs). tup3 vs (\<lambda>len table_id pad1.
     if pad1 \<noteq> 0 then Inl AssertionError else
     rbind (ofp_match_unpack False (fs_match self) raw offset) (\<lambda>(match, offset).
     rbind (of_unpack [FL, FL, FH, FH, FH] raw offset) (\<lambda>(offset, vs).
       tup5 vs (\<lambda>duration_sec duration_nsec priority idle_timeout hard_timeout.
     rbind (of_skip raw offset 6) (\<lambda>offset.
     rbind (of_unpack [FQ, FQ, FQ] raw offset) (\<lambda>(offset, vs). tup3 vs (\<lambda>cookie packet_count byte_count.
     if offset - offset0 \<noteq> 48 + ofp_match_len then Inl AssertionError else
     rbind (unpack_actions raw (len - (48 + ofp_match_len)) offset) (\<lambda>(offset, actions).
       let self = \<lparr>fs_table_id = table_id, fs_match = match, fs_duration_sec = duration_sec,
             fs_duration_nsec = duration_nsec, fs_priority = priority, fs_idle_timeout = idle_timeout,
             fs_hard_timeout = hard_timeout, fs_cookie = cookie, fs_packet_count = packet_count,
             fs_byte_count = byte_count, fs_actions = actions\<rparr>
       in if offset - offset0 = ofp_flow_stats_len self then Inr (self, offset) else Inl AssertionError)))))))))"

definition ofp_flow_stats_eq :: "ofp_flow_stats \<Rightarrow> ofp_flow_stats \<Rightarrow> bool" where
  "ofp_flow_stats_eq a b \<longleftrightarrow>
     ofp_flow_stats_len a = ofp_flow_stats_len b \<and> fs_table_id a = fs_table_id b \<and>
     ofp_match_eq (fs_match a) (fs_match b) \<and> fs_duration_sec a = fs_duration_sec b \<and>
     fs_duration_nsec a = fs_duration_nsec b \<and> fs_priority a = fs_priority b \<and>
     fs_idle_timeout a = fs_idle_timeout b \<and> fs_hard_timeout a = fs_hard_timeout b \<and>
     fs_cookie a = fs_cookie b \<and> fs_packet_count a = fs_packet_count b \<and>
     fs_byte_count a = fs_byte_count b \<and> list_all2 action_eq (fs_actions a) (fs_actions b)"

definition flow_stats_wf :: "ofp_flow_stats \<Rightarrow> bool" where
  "flow_stats_wf self \<longleftrightarrow> match_wf (fs_match self) \<and> list_all action_wf (fs_actions self)"

definition flow_stats_received :: "ofp_flow_stats \<Rightarrow> ofp_flow_stats" where
  "flow_stats_received self = self\<lparr>fs_match := match_received False ofp_match_init (fs_match self)\<rparr>"

lemma ofp_flow_stats_unpack_pack:
  assumes "ofp_flow_stats_pack self = Inr (bs, self')" "flow_stats_wf self" "chunk raw off bs"
  shows "ofp_flow_stats_unpack ofp_flow_stats_init raw off =
      Inr (flow_stats_received self', off + int (length bs)) \<and> int (length bs) = ofp_flow_stats_len self' \<and>
    ofp_flow_stats_len self = ofp_flow_stats_len self'"
proof -
  have w: "match_wf (fs_match self)" "list_all action_wf (fs_actions self)"
    using assms(2) by (simp_all add: flow_stats_wf_def)
  from assms(1) obtain ms as xs where m: "ofp_match_pack False (fs_match self) = Inr ms"
    and p: "pack_list action_pack (fs_actions self) = Inr (as, xs)"
    and s': "self' = self\<lparr>fs_actions := xs\<rparr>"
    and r: "list_all2 code_range [FH, FB, FB] [ofp_flow_stats_len self, fs_table_id self, 0]"
      "list_all2 code_range [FL, FL, FH, FH, FH]
       [fs_duration_sec self, fs_duration_nsec self, fs_priority self, fs_idle_timeout self, fs_hard_timeout self]"
      "list_all2 code_range [FQ, FQ, FQ] [fs_cookie self, fs_packet_count self, fs_byte_count self]"
    and bs: "bs = struct_bytes [FH, FB, FB] [ofp_flow_stats_len self, fs_table_id self, 0] @ ms @
      struct_bytes [FL, FL, FH, FH, FH]
       [fs_duration_sec self, fs_duration_nsec self, fs_priority self, fs_idle_timeout self, fs_hard_timeout self] @
      pad 6 @ struct_bytes [FQ, FQ, FQ] [fs_cookie self, fs_packet_count self, fs_byte_count self] @ as"
    by (clarsimp simp: ofp_flow_stats_pack_def codec_dest elim!: rbindE)
  have lm: "length ms = 40" by (rule ofp_match_pack_length [OF m w(1)])
  have la: "int (length as) = actions_len xs" "actions_len xs = actions_len (fs_actions self)"
    using actions_pack_length [OF p w(2)] actions_len_pack [OF p] by simp_all
  note sl = struct_bytes_length [OF r(1)] struct_bytes_length [OF r(2)] struct_bytes_length [OF r(3)]
  note c = assms(3) [unfolded bs chunk_append sl lm]
  have "of_unpack [FH, FB, FB] raw off = Inr (off + 4, [ofp_flow_stats_len self, fs_table_id self, 0])"
    using of_unpack_chunk [OF _ r(1), of raw off] c by simp
  moreover have "ofp_match_unpack False ofp_match_init raw (off + 4) =
      Inr (match_received False ofp_match_init (fs_match self), off + 44)"
    using ofp_match_unpack_pack [OF m w(1), of raw "off + 4"] c by simp
  moreover have "of_unpack [FL, FL, FH, FH, FH] raw (off + 44) = Inr (off + 58,
       [fs_duration_sec self, fs_duration_nsec self, fs_priority self, fs_idle_timeout self, fs_hard_timeout self])"
    using of_unpack_chunk [OF _ r(2), of raw "off + 44"] c by (simp add: add.commute)
  moreover have "of_skip raw (off + 58) 6 = Inr (off + 64)"
    using of_skip_pad [of raw "off + 58" 6 6] c by (simp add: add.commute)
  moreover have "of_unpack [FQ, FQ, FQ] raw (off + 64) =
      Inr (off + 88, [fs_cookie self, fs_packet_count self, fs_byte_count self])"
    using of_unpack_chunk [OF _ r(3), of raw "off + 64"] c by (simp add: add.commute)
  moreover have "unpack_actions raw (int (length as)) (off + 88) = Inr (off + 88 + int (length as), xs)"
    by (rule unpack_actions_pack [OF p w(2)]) (use c in \<open>auto simp: add.commute\<close>)
  ultimately show ?thesis
    using s' la lm sl
    by (simp add: ofp_flow_stats_unpack_def ofp_flow_stats_len_def ofp_match_len_def ofp_flow_stats_init_def
        flow_stats_received_def bs)
qed

subsection \<open>Vendor and generic bodies\<close>

record ofp_vendor_stats_generic =
  vs_vendor :: "int option"
  vs_data :: bytes

definition ofp_vendor_stats_generic_init :: ofp_vendor_stats_generic where
  "ofp_vendor_stats_generic_init = \<lparr>vs_vendor = None, vs_data = []\<rparr>"

definition ofp_vendor_stats_generic_pack :: "ofp_vendor_stats_generic \<Rightarrow> bytes res" where
  "ofp_vendor_stats_generic_pack self =
     rbind (need (vs_vendor self)) (\<lambda>vendor.
     rbind (struct_pack [FL] [vendor]) (\<lambda>packed. Inr (packed @ vs_data self)))"

definition ofp_vendor_stats_generic_unpack ::
  "ofp_vendor_stats_generic \<Rightarrow> bytes \<Rightarrow> int \<Rightarrow> int \<Rightarrow> (ofp_vendor_stats_generic \<times> int) res"
where
  "ofp_vendor_stats_generic_unpack self raw offset avail =
     rbind (of_unpack [FL] raw offset) (\<lambda>(offset, vs). tup1 vs (\<lambda>vendor.
     rbind (of_read raw offset (avail - 4)) (\<lambda>(offset, data).
       Inr (self\<lparr>vs_vendor := Some vendor, vs_data := data\<rparr>, offset))))"

text \<open>Both \<^verbatim>\<open>__len__\<close> methods below are static and read \<^verbatim>\<open>self\<close>: NameError.\<close>

definition ofp_vendor_stats_generic_len :: "ofp_vendor_stats_generic \<Rightarrow> int res" where
  "ofp_vendor_stats_generic_len self = Inl NameError"

definition ofp_vendor_stats_generic_eq :: "ofp_vendor_stats_generic \<Rightarrow> ofp_vendor_stats_generic \<Rightarrow> bool" where
  "ofp_vendor_stats_generic_eq a b \<longleftrightarrow> vs_vendor a = vs_vendor b \<and> vs_data a = vs_data b"

record ofp_generic_stats_body =
  gs_data :: bytes

definition ofp_generic_stats_body_init :: ofp_generic_stats_body where
  "ofp_generic_stats_body_init = \<lparr>gs_data = []\<rparr>"

text \<open>\<^verbatim>\<open>pack\<close> adds to the local \<^verbatim>\<open>packed\<close> before it has a value: UnboundLocalError, a NameError.\<close>

definition ofp_generic_stats_body_pack :: "ofp_generic_stats_body \<Rightarrow> bytes res" where
  "ofp_generic_stats_body_pack self = Inl NameError"

definition ofp_generic_stats_body_unpack ::
  "ofp_generic_stats_body \<Rightarrow> bytes \<Rightarrow> int \<Rightarrow> int \<Rightarrow> (ofp_generic_stats_body \<times> int) res"
where
  "ofp_generic_stats_body_unpack self raw offset avail =
     rbind (of_read raw offset avail) (\<lambda>(offset, data). Inr (self\<lparr>gs_data := data\<rparr>, offset))"

section \<open>Requests\<close>

text \<open>The body of a request: plain bytes or an object of one of the body classes.\<close>

datatype stats_req_body =
    RBytes bytes
  | RDesc
  | RTable
  | RFlow ofp_flow_stats_request
  | RAggregate ofp_aggregate_stats_request
  | RPort ofp_port_stats_request
  | RQueue ofp_queue_stats_request
  | RVendor ofp_vendor_stats_generic
  | RGeneric ofp_generic_stats_body

fun req_body_pack :: "stats_req_body \<Rightarrow> bytes res" where
  "req_body_pack (RBytes b) = Inr b"
| "req_body_pack RDesc = Inr []"
| "req_body_pack RTable = Inr []"
| "req_body_pack (RFlow b) = ofp_flow_stats_request_pack b"
| "req_body_pack (RAggregate b) = ofp_aggregate_stats_request_pack b"
| "req_body_pack (RPort b) = ofp_port_stats_request_pack b"
| "req_body_pack (RQueue b) = ofp_queue_stats_request_pack b"
| "req_body_pack (RVendor b) = ofp_vendor_stats_generic_pack b"
| "req_body_pack (RGeneric b) = ofp_generic_stats_body_pack b"

text \<open>The class attribute \<^verbatim>\<open>_type\<close>; \<open>None\<close> outside for what is not a body object.\<close>

fun req_body_type :: "stats_req_body \<Rightarrow> int option option" where
  "req_body_type (RBytes b) = None"
| "req_body_type RDesc = Some (Some 0)"
| "req_body_type RTable = Some (Some 3)"
| "req_body_type (RFlow b) = Some (Some 1)"
| "req_body_type (RAggregate b) = Some (Some 2)"
| "req_body_type (RPort b) = Some (Some 4)"
| "req_body_type (RQueue b) = Some (Some 5)"
| "req_body_type (RVendor b) = Some (Some 65535)"
| "req_body_type (RGeneric b) = Some None"

text \<open>A fresh body for a type number, and its \<^verbatim>\<open>unpack(body, 0, len(body))\<close>.\<close>

definition empty_stats_unpack :: "stats_req_body \<Rightarrow> int \<Rightarrow> stats_req_body res" where
  "empty_stats_unpack b avail = (if avail \<noteq> 0 then Inl RuntimeError else Inr b)"

definition req_body_unpack :: "int \<Rightarrow> bytes \<Rightarrow> stats_req_body res" where
  "req_body_unpack t body =
     (if t = 0 then empty_stats_unpack RDesc (int (length body))
      else if t = 1 then rbind (ofp_flow_stats_request_unpack ofp_flow_stats_request_init body 0) (\<lambda>(b, _). Inr (RFlow b))
      else if t = 2 then rbind (ofp_aggregate_stats_request_unpack ofp_aggregate_stats_request_init body 0) (\<lambda>(b, _). Inr (RAggregate b))
      else if t = 3 then empty_stats_unpack RTable (int (length body))
      else if t = 4 then rbind (ofp_port_stats_request_unpack ofp_port_stats_request_init body 0) (\<lambda>(b, _). Inr (RPort b))
      else if t = 5 then rbind (ofp_queue_stats_request_unpack ofp_queue_stats_request_init body 0) (\<lambda>(b, _). Inr (RQueue b))
      else if t = 65535 then
        rbind (ofp_vendor_stats_generic_unpack ofp_vendor_stats_generic_init body 0 (int (length body))) (\<lambda>(b, _). Inr (RVendor b))
      else rbind (ofp_generic_stats_body_unpack ofp_generic_stats_body_init body 0 (int (length body))) (\<lambda>(b, _). Inr (RGeneric b)))"

record ofp_stats_request = ofp_header +
  sr_type :: "int option"
  sr_flags :: int
  sr_body :: stats_req_body
  sr_body_packed :: "bytes option"

definition ofp_stats_request_init :: ofp_stats_request where
  "ofp_stats_request_init =
     \<lparr>hdr_version = OFP_VERSION, hdr_type = 16, hdr_xid = None, sr_type = None, sr_flags = 0,
      sr_body = RBytes [], sr_body_packed = None\<rparr>"

text \<open>\<^verbatim>\<open>_pack_body\<close> fills the cache; the \<^verbatim>\<open>body\<close> setter resets an attribute that nothing reads.\<close>

definition ofp_stats_request_pack_body :: "ofp_stats_request \<Rightarrow> (bytes \<times> ofp_stats_request) res" where
  "ofp_stats_request_pack_body self =
     (case sr_body_packed self of
        Some b \<Rightarrow> Inr (b, self)
      | None \<Rightarrow> rbind (req_body_pack (sr_body self)) (\<lambda>b. Inr (b, self\<lparr>sr_body_packed := Some b\<rparr>)))"

definition ofp_stats_request_set_body :: "stats_req_body \<Rightarrow> ofp_stats_request \<Rightarrow> ofp_stats_request" where
  "ofp_stats_request_set_body d self = self\<lparr>sr_body := d\<rparr>"

definition ofp_stats_request_len :: "ofp_stats_request \<Rightarrow> (int \<times> ofp_stats_request) res" where
  "ofp_stats_request_len self =
     rbind (ofp_stats_request_pack_body self) (\<lambda>(b, self). Inr (12 + int (length b), self))"

definition ofp_stats_request_pack ::
  "xid_gen \<Rightarrow> ofp_stats_request \<Rightarrow> (bytes \<times> ofp_stats_request \<times> xid_gen) res"
where
  "ofp_stats_request_pack g self =
     rbind (case sr_type self of
              Some t \<Rightarrow> Inr self
            | None \<Rightarrow> (case req_body_type (sr_body self) of
                None \<Rightarrow> Inl RuntimeError
              | Some t \<Rightarrow> Inr (self\<lparr>sr_type := t\<rparr>))) (\<lambda>self.
     if \<not> ofp_header_validate self then Inl RuntimeError else
     rbind (ofp_stats_request_len self) (\<lambda>(len, self).
     rbind (ofp_header_pack (ofp_header_validate self) len g self) (\<lambda>(p0, self, g).
     rbind (need (sr_type self)) (\<lambda>type.
     rbind (struct_pack [FH, FH] [type, sr_flags self]) (\<lambda>p1.
     rbind (ofp_stats_request_pack_body self) (\<lambda>(p2, self).
       Inr (p0 @ p1 @ p2, self, g)))))))"

definition ofp_stats_request_unpack ::
  "ofp_stats_request \<Rightarrow> bytes \<Rightarrow> int \<Rightarrow> (ofp_stats_request \<times> int \<times> int) res"
where
  "ofp_stats_request_unpack self raw offset =
     rbind (ofp_unpack_header self raw offset) (\<lambda>(self, offset, len).
     rbind (of_unpack [FH, FH] raw offset) (\<lambda>(offset, vs). tup2 vs (\<lambda>type flags.
     rbind (of_read raw offset (len - 12)) (\<lambda>(offset, body).
     rbind (req_body_unpack type body) (\<lambda>b.
     let self = ofp_stats_request_set_body b (self\<lparr>sr_type := Some type, sr_flags := flags\<rparr>) in
     rbind (ofp_stats_request_len self) (\<lambda>(n, self).
       if len = n then Inr (self, offset, len) else Inl AssertionError))))))"

section \<open>Replies\<close>

datatype stats_part =
    SBytes bytes
  | SDesc ofp_desc_stats
  | SFlow ofp_flow_stats
  | SAggregate ofp_aggregate_stats
  | STable ofp_table_stats
  | SPort ofp_port_stats
  | SQueue ofp_queue_stats
  | SVendor ofp_vendor_stats_generic

datatype stats_rep_body = BOne stats_part | BList "stats_part list"

fun part_pack :: "stats_part \<Rightarrow> (bytes \<times> stats_part) res" where
  "part_pack (SBytes b) = Inr (b, SBytes b)"
| "part_pack (SDesc b) = rbind (ofp_desc_stats_pack b) (\<lambda>bs. Inr (bs, SDesc b))"
| "part_pack (SFlow b) = rbind (ofp_flow_stats_pack b) (\<lambda>(bs, b). Inr (bs, SFlow b))"
| "part_pack (SAggregate b) = rbind (ofp_aggregate_stats_pack b) (\<lambda>bs. Inr (bs, SAggregate b))"
| "part_pack (STable b) = rbind (ofp_table_stats_pack b) (\<lambda>bs. Inr (bs, STable b))"
| "part_pack (SPort b) = rbind (ofp_port_stats_pack b) (\<lambda>bs. Inr (bs, SPort b))"
| "part_pack (SQueue b) = rbind (ofp_queue_stats_pack b) (\<lambda>bs. Inr (bs, SQueue b))"
| "part_pack (SVendor b) = rbind (ofp_vendor_stats_generic_pack b) (\<lambda>bs. Inr (bs, SVendor b))"

fun part_len :: "stats_part \<Rightarrow> int res" where
  "part_len (SBytes b) = Inr (int (length b))"
| "part_len (SDesc b) = Inr (ofp_desc_stats_len b)"
| "part_len (SFlow b) = Inr (ofp_flow_stats_len b)"
| "part_len (SAggregate b) = Inr (ofp_aggregate_stats_len b)"
| "part_len (STable b) = Inr (ofp_table_stats_len b)"
| "part_len (SPort b) = Inr (ofp_port_stats_len b)"
| "part_len (SQueue b) = Inr (ofp_queue_stats_len b)"
| "part_len (SVendor b) = ofp_vendor_stats_generic_len b"

fun part_type :: "stats_part \<Rightarrow> int option" where
  "part_type (SBytes b) = None"
| "part_type (SDesc b) = Some 0"
| "part_type (SFlow b) = Some 1"
| "part_type (SAggregate b) = Some 2"
| "part_type (STable b) = Some 3"
| "part_type (SPort b) = Some 4"
| "part_type (SQueue b) = Some 5"
| "part_type (SVendor b) = Some 65535"

text \<open>
  \<^verbatim>\<open>_stats_type_to_class_info\<close>: a fresh reply object for a type number and whether replies of the
  type are lists.
\<close>

definition part_new :: "int \<Rightarrow> (stats_part \<times> bool) option" where
  "part_new t =
     (if t = 0 then Some (SDesc ofp_desc_stats_init, False)
      else if t = 1 then Some (SFlow ofp_flow_stats_init, True)
      else if t = 2 then Some (SAggregate ofp_aggregate_stats_init, False)
      else if t = 3 then Some (STable ofp_table_stats_init, True)
      else if t = 4 then Some (SPort ofp_port_stats_init, True)
      else if t = 5 then Some (SQueue ofp_queue_stats_init, True)
      else if t = 65535 then Some (SVendor ofp_vendor_stats_generic_init, False)
      else None)"

fun part_unpack :: "stats_part \<Rightarrow> bytes \<Rightarrow> (stats_part \<times> int) res" where
  "part_unpack (SBytes b) raw = Inl AttributeError"
| "part_unpack (SDesc b) raw = rbind (ofp_desc_stats_unpack b raw 0) (\<lambda>(b, off). Inr (SDesc b, off))"
| "part_unpack (SFlow b) raw = rbind (ofp_flow_stats_unpack b raw 0) (\<lambda>(b, off). Inr (SFlow b, off))"
| "part_unpack (SAggregate b) raw = rbind (ofp_aggregate_stats_unpack b raw 0) (\<lambda>(b, off). Inr (SAggregate b, off))"
| "part_unpack (STable b) raw = rbind (ofp_table_stats_unpack b raw 0) (\<lambda>(b, off). Inr (STable b, off))"
| "part_unpack (SPort b) raw = rbind (ofp_port_stats_unpack b raw 0) (\<lambda>(b, off). Inr (SPort b, off))"
| "part_unpack (SQueue b) raw = rbind (ofp_queue_stats_unpack b raw 0) (\<lambda>(b, off). Inr (SQueue b, off))"
| "part_unpack (SVendor b) raw =
     rbind (ofp_vendor_stats_generic_unpack b raw 0 (int (length raw))) (\<lambda>(b, off). Inr (SVendor b, off))"

record ofp_stats_reply = ofp_header +
  sp_type :: "int option"
  sp_flags :: int
  sp_body :: stats_rep_body
  sp_body_data :: "bytes option"

definition ofp_stats_reply_init :: ofp_stats_reply where
  "ofp_stats_reply_init =
     \<lparr>hdr_version = OFP_VERSION, hdr_type = 17, hdr_xid = None, sp_type = None, sp_flags = 0,
      sp_body = BOne (SBytes []), sp_body_data = None\<rparr>"

definition ofp_stats_reply_is_last_reply :: "ofp_stats_reply \<Rightarrow> bool" where
  "ofp_stats_reply_is_last_reply self \<longleftrightarrow> sp_flags self AND 1 = 0"

definition ofp_stats_reply_set_is_last_reply :: "bool \<Rightarrow> ofp_stats_reply \<Rightarrow> ofp_stats_reply" where
  "ofp_stats_reply_set_is_last_reply v self =
     (let self = self\<lparr>sp_flags := sp_flags self AND 65534\<rparr>
      in if \<not> v then self\<lparr>sp_flags := sp_flags self OR 1\<rparr> else self)"

text \<open>
  \<^verbatim>\<open>body_data\<close> keeps the packed bytes as long as \<^verbatim>\<open>self.body\<close> is the same object; assigning another
  body makes it pack again. The objects packed may change (output actions), so the body comes
  back.
\<close>

definition rep_body_pack :: "stats_rep_body \<Rightarrow> (bytes \<times> stats_rep_body) res" where
  "rep_body_pack b =
     (case b of
        BOne p \<Rightarrow> rbind (part_pack p) (\<lambda>(bs, p). Inr (bs, BOne p))
      | BList ps \<Rightarrow> rbind (pack_list part_pack ps) (\<lambda>(bs, ps). Inr (bs, BList ps)))"

definition ofp_stats_reply_body_data :: "ofp_stats_reply \<Rightarrow> (bytes \<times> ofp_stats_reply) res" where
  "ofp_stats_reply_body_data self =
     (case sp_body_data self of
        Some d \<Rightarrow> Inr (d, self)
      | None \<Rightarrow> rbind (rep_body_pack (sp_body self)) (\<lambda>(d, b).
          Inr (d, self\<lparr>sp_body := b, sp_body_data := Some d\<rparr>)))"

definition ofp_stats_reply_set_body :: "stats_rep_body \<Rightarrow> ofp_stats_reply \<Rightarrow> ofp_stats_reply" where
  "ofp_stats_reply_set_body b self = self\<lparr>sp_body := b, sp_body_data := None\<rparr>"

definition ofp_stats_reply_len :: "ofp_stats_reply \<Rightarrow> int res" where
  "ofp_stats_reply_len self =
     (case sp_body self of
        BList ps \<Rightarrow> rbind (mapM part_len ps) (\<lambda>ls. Inr (12 + sum_list ls))
      | BOne p \<Rightarrow> rbind (part_len p) (\<lambda>l. Inr (12 + l)))"

definition ofp_stats_reply_guess_type :: "ofp_stats_reply \<Rightarrow> int option" where
  "ofp_stats_reply_guess_type self =
     (case sp_body self of
        BList [] \<Rightarrow> None
      | BList (p # _) \<Rightarrow> part_type p
      | BOne p \<Rightarrow> part_type p)"

definition ofp_stats_reply_pack ::
  "xid_gen \<Rightarrow> ofp_stats_reply \<Rightarrow> (bytes \<times> ofp_stats_reply \<times> xid_gen) res"
where
  "ofp_stats_reply_pack g self =
     rbind (case sp_type self of
              Some t \<Rightarrow> Inr self
            | None \<Rightarrow> (case ofp_stats_reply_guess_type self of
                None \<Rightarrow> Inl RuntimeError
              | Some t \<Rightarrow> Inr (self\<lparr>sp_type := Some t\<rparr>))) (\<lambda>self.
     if \<not> ofp_header_validate self then Inl RuntimeError else
     rbind (ofp_stats_reply_len self) (\<lambda>len.
     rbind (ofp_header_pack (ofp_header_validate self) len g self) (\<lambda>(p0, self, g).
     rbind (need (sp_type self)) (\<lambda>type.
     rbind (struct_pack [FH, FH] [type, sp_flags self]) (\<lambda>p1.
     rbind (ofp_stats_reply_body_data self) (\<lambda>(p2, self).
       Inr (p0 @ p1 @ p2, self, g)))))))"

lemma length_py_slice: "length (py_slice xs i j) \<le> length xs"
  by (simp add: py_slice_def Let_def)

function unpack_parts :: "stats_part \<Rightarrow> bytes \<Rightarrow> stats_part list res" where
  "unpack_parts fresh packed =
     (if packed = [] then Inr [] else
      rbind (part_unpack fresh packed) (\<lambda>(part, off).
      let rest = py_slice packed off (int (length packed)) in
      if length rest = length packed then Inl AssertionError else
      rbind (unpack_parts fresh rest) (\<lambda>parts. Inr (part # parts))))"
  by pat_completeness auto
termination
  by (relation "measure (\<lambda>(fresh, packed). length packed)") (auto simp: length_py_slice order_less_le)

declare unpack_parts.simps [simp del]

definition rep_body_unpack :: "int \<Rightarrow> bytes \<Rightarrow> stats_rep_body res" where
  "rep_body_unpack t packed =
     (case part_new t of
        None \<Rightarrow> Inr (BOne (SBytes packed))
      | Some (fresh, is_list) \<Rightarrow>
          if \<not> is_list then rbind (part_unpack fresh packed) (\<lambda>(p, _). Inr (BOne p))
          else rbind (unpack_parts fresh packed) (\<lambda>ps. Inr (BList ps)))"

definition ofp_stats_reply_unpack ::
  "ofp_stats_reply \<Rightarrow> bytes \<Rightarrow> int \<Rightarrow> (ofp_stats_reply \<times> int \<times> int) res"
where
  "ofp_stats_reply_unpack self raw offset =
     rbind (ofp_unpack_header self raw offset) (\<lambda>(self, offset, len).
     rbind (of_unpack [FH, FH] raw offset) (\<lambda>(offset, vs). tup2 vs (\<lambda>type flags.
     rbind (of_read raw offset (len - 12)) (\<lambda>(offset, packed).
     rbind (rep_body_unpack type packed) (\<lambda>b.
     let self = ofp_stats_reply_set_body b (self\<lparr>sp_type := Some type, sp_flags := flags\<rparr>) in
     rbind (ofp_stats_reply_len self) (\<lambda>n.
       if len = n then Inr (self, offset, len) else Inl AssertionError))))))"

section \<open>Round trips\<close>

subsection \<open>A received match packs to the same bytes\<close>

lemma received_plain:
  assumes "match_wf m"
  shows "m_wildcards (match_received False fresh m) = m_wildcards m"
    "or0 (get_in_port (match_received False fresh m)) = or0 (get_in_port m)"
    "eth_or_empty (get_dl_src (match_received False fresh m)) = eth_or_empty (get_dl_src m)"
    "eth_or_empty (get_dl_dst (match_received False fresh m)) = eth_or_empty (get_dl_dst m)"
    "or0 (get_dl_vlan (match_received False fresh m)) = or0 (get_dl_vlan m)"
    "or0 (get_dl_vlan_pcp (match_received False fresh m)) = or0 (get_dl_vlan_pcp m)"
    "get_dl_type (match_received False fresh m) = get_dl_type m"
proof -
  show w: "m_wildcards (match_received False fresh m) = m_wildcards m"
    using assms by (simp add: match_received_def match_wf_def Let_def normalize_normal)
  show "or0 (get_in_port (match_received False fresh m)) = or0 (get_in_port m)"
    "eth_or_empty (get_dl_src (match_received False fresh m)) = eth_or_empty (get_dl_src m)"
    "eth_or_empty (get_dl_dst (match_received False fresh m)) = eth_or_empty (get_dl_dst m)"
    "or0 (get_dl_vlan (match_received False fresh m)) = or0 (get_dl_vlan m)"
    "or0 (get_dl_vlan_pcp (match_received False fresh m)) = or0 (get_dl_vlan_pcp m)"
    "get_dl_type (match_received False fresh m) = get_dl_type m"
    by (simp_all add: get_bit w) (simp_all add: match_received_def Let_def or0_def eth_dflt_def get_bit)
qed

lemma received_plain_nw:
  assumes "match_wf m"
  shows "check_ip (match_received False fresh m) (or0 (get_nw_tos (match_received False fresh m))) =
      check_ip m (or0 (get_nw_tos m))"
    "check_ip_or_arp (match_received False fresh m) (or0 (get_nw_proto (match_received False fresh m))) =
      check_ip_or_arp m (or0 (get_nw_proto m))"
    "check_ip_or_arp (match_received False fresh m) (ip_or0 (get_nw_src (match_received False fresh m))) =
      check_ip_or_arp m (ip_or0 (get_nw_src m))"
    "check_ip_or_arp (match_received False fresh m) (ip_or0 (get_nw_dst (match_received False fresh m))) =
      check_ip_or_arp m (ip_or0 (get_nw_dst m))"
    "check_tp (match_received False fresh m) (or0 (get_tp_src (match_received False fresh m))) =
      check_tp m (or0 (get_tp_src m))"
    "check_tp (match_received False fresh m) (or0 (get_tp_dst (match_received False fresh m))) =
      check_tp m (or0 (get_tp_dst m))"
proof -
  note w = received_plain(1,7) [OF assms, of fresh]
  have ips: "ip_wf (m_nw_src m)" "ip_wf (m_nw_dst m)" using assms by (simp_all add: match_wf_def)
  show "check_ip (match_received False fresh m) (or0 (get_nw_tos (match_received False fresh m))) =
      check_ip m (or0 (get_nw_tos m))"
    by (simp add: check_ip_def w, simp add: get_bit(10) w) (simp add: match_received_def Let_def or0_def check_ip_def get_bit(10))
  show pr: "check_ip_or_arp (match_received False fresh m) (or0 (get_nw_proto (match_received False fresh m))) =
      check_ip_or_arp m (or0 (get_nw_proto m))"
    by (simp add: check_ip_or_arp_def w, simp add: get_bit(6) w)
      (simp add: match_received_def Let_def or0_def check_ip_or_arp_def get_bit(6))
  show "check_ip_or_arp (match_received False fresh m) (ip_or0 (get_nw_src (match_received False fresh m))) =
      check_ip_or_arp m (ip_or0 (get_nw_src m))"
    "check_ip_or_arp (match_received False fresh m) (ip_or0 (get_nw_dst (match_received False fresh m))) =
      check_ip_or_arp m (ip_or0 (get_nw_dst m))"
    by (simp_all add: check_ip_or_arp_def w, simp_all add: get_nw_bit w)
      (simp_all add: match_received_def Let_def ip_or0_def check_ip_or_arp_def get_nw_bit ip_of_toUnsigned ips)
  have ip: "get_dl_type m = Some 2048 \<Longrightarrow> get_nw_proto (match_received False fresh m) = get_nw_proto m"
    by (simp add: get_bit(6) w) (simp add: match_received_def Let_def or0_def check_ip_or_arp_def get_bit(6))
  show "check_tp (match_received False fresh m) (or0 (get_tp_src (match_received False fresh m))) =
      check_tp m (or0 (get_tp_src m))"
    "check_tp (match_received False fresh m) (or0 (get_tp_dst (match_received False fresh m))) =
      check_tp m (or0 (get_tp_dst m))"
    by (auto simp: check_tp_def w ip, simp_all add: get_bit(7,8) w)
      (auto simp: match_received_def Let_def or0_def check_tp_def get_bit(7,8))
qed

lemma match_repack: "match_wf m \<Longrightarrow> ofp_match_pack False (match_received False fresh m) = ofp_match_pack False m"
  by (simp add: ofp_match_pack_def received_plain received_plain_nw Let_def)

subsection \<open>Requests\<close>

definition req_body_wf :: "stats_req_body \<Rightarrow> bool" where
  "req_body_wf b =
     (case b of RBytes _ \<Rightarrow> False | RGeneric _ \<Rightarrow> False | RFlow r \<Rightarrow> match_wf (fq1_match r)
      | RAggregate r \<Rightarrow> match_wf (fq2_match r) | _ \<Rightarrow> True)"

definition req_body_received :: "stats_req_body \<Rightarrow> stats_req_body" where
  "req_body_received b =
     (case b of
        RFlow r \<Rightarrow> RFlow (r\<lparr>fq1_match := match_received False ofp_match_init (fq1_match r)\<rparr>)
      | RAggregate r \<Rightarrow> RAggregate (r\<lparr>fq2_match := match_received False ofp_match_init (fq2_match r)\<rparr>)
      | _ \<Rightarrow> b)"

lemma ofp_vendor_stats_generic_unpack_pack:
  "ofp_vendor_stats_generic_pack self = Inr bs \<Longrightarrow>
   ofp_vendor_stats_generic_unpack fresh bs 0 (int (length bs)) = Inr (self, int (length bs))"
  using chunk_whole [of bs]
  by (auto simp: ofp_vendor_stats_generic_pack_def ofp_vendor_stats_generic_unpack_def codec_dest
      of_read_chunk [of _ _ "vs_data self"] codec_simps elim!: rbindE)

lemma req_body_unpack_pack:
  assumes "req_body_pack b = Inr bs" "req_body_wf b" "req_body_type b = Some (Some t)"
  shows "req_body_unpack t bs = Inr (req_body_received b)" "req_body_pack (req_body_received b) = Inr bs"
proof -
  show "req_body_unpack t bs = Inr (req_body_received b)"
    using assms chunk_whole [of bs]
    by (cases b) (auto simp: req_body_unpack_def req_body_received_def req_body_wf_def empty_stats_unpack_def
        ofp_flow_stats_request_unpack_pack ofp_aggregate_stats_request_unpack_pack
        ofp_port_stats_request_unpack_pack ofp_queue_stats_request_unpack_pack
        ofp_vendor_stats_generic_unpack_pack ofp_flow_stats_request_init_def ofp_aggregate_stats_request_init_def)
  show "req_body_pack (req_body_received b) = Inr bs"
    using assms by (cases b) (simp_all add: req_body_received_def req_body_wf_def
        ofp_flow_stats_request_pack_def ofp_aggregate_stats_request_pack_def match_repack)
qed

definition stats_request_wf :: "ofp_stats_request \<Rightarrow> bool" where
  "stats_request_wf self \<longleftrightarrow>
     req_body_wf (sr_body self) \<and> sr_body_packed self = None \<and>
     (sr_type self = None \<or> req_body_type (sr_body self) = Some (sr_type self))"

definition stats_request_received :: "ofp_stats_request \<Rightarrow> ofp_stats_request" where
  "stats_request_received self = self\<lparr>sr_body := req_body_received (sr_body self)\<rparr>"

lemma req_body_wf_type: "req_body_wf b \<Longrightarrow> \<exists>t. req_body_type b = Some (Some t)"
  by (cases b) (simp_all add: req_body_wf_def)

lemma ofp_stats_request_pack_Inr:
  assumes "ofp_stats_request_pack g self = Inr (bs, self', g')" "stats_request_wf self"
  shows "\<exists>t b x. req_body_type (sr_body self) = Some (Some t) \<and> req_body_pack (sr_body self) = Inr b \<and>
    self' = self\<lparr>sr_type := Some t, sr_body_packed := Some b, hdr_xid := Some x\<rparr> \<and>
    list_all2 code_range [FB, FB, FH, FL] [hdr_version self, hdr_type self, 12 + int (length b), x] \<and>
    list_all2 code_range [FH, FH] [t, sr_flags self] \<and>
    bs = struct_bytes [FB, FB, FH, FL] [hdr_version self, hdr_type self, 12 + int (length b), x] @
      struct_bytes [FH, FH] [t, sr_flags self] @ b"
proof -
  from assms(2) obtain t where t: "req_body_type (sr_body self) = Some (Some t)" and nc: "sr_body_packed self = None"
    using req_body_wf_type by (auto simp: stats_request_wf_def)
  have "(case sr_type self of Some t \<Rightarrow> Inr self
    | None \<Rightarrow> (case req_body_type (sr_body self) of None \<Rightarrow> Inl RuntimeError
        | Some t \<Rightarrow> Inr (self\<lparr>sr_type := t\<rparr>))) = Inr (self\<lparr>sr_type := Some t\<rparr>)"
    using assms(2) t by (cases self) (auto simp: stats_request_wf_def)
  with assms(1) t nc show ?thesis
    by (clarsimp simp: ofp_stats_request_pack_def ofp_stats_request_len_def
      ofp_stats_request_pack_body_def codec_dest elim!: rbindE dest!: ofp_header_xid_eq split: if_splits) blast
qed

lemma ofp_stats_request_unpack_pack:
  assumes "ofp_stats_request_pack g self = Inr (bs, self', g')" "stats_request_wf self" "chunk raw off bs"
  shows "ofp_stats_request_unpack ofp_stats_request_init raw off =
    Inr (stats_request_received self', off + int (length bs), int (length bs))"
proof -
  from ofp_stats_request_pack_Inr [OF assms(1,2)] obtain t b x where
    t: "req_body_type (sr_body self) = Some (Some t)" and b: "req_body_pack (sr_body self) = Inr b"
    and s': "self' = self\<lparr>sr_type := Some t, sr_body_packed := Some b, hdr_xid := Some x\<rparr>"
    and r: "list_all2 code_range [FB, FB, FH, FL] [hdr_version self, hdr_type self, 12 + int (length b), x]"
      "list_all2 code_range [FH, FH] [t, sr_flags self]"
    and bs: "bs = struct_bytes [FB, FB, FH, FL] [hdr_version self, hdr_type self, 12 + int (length b), x] @
      struct_bytes [FH, FH] [t, sr_flags self] @ b"
    by blast
  have wf: "req_body_wf (sr_body self)" using assms(2) by (simp add: stats_request_wf_def)
  note c = assms(3) [unfolded bs chunk_append struct_bytes_length [OF r(1)] struct_bytes_length [OF r(2)]]
  have l: "int (length bs) = 12 + int (length b)"
    using struct_bytes_length [OF r(1)] struct_bytes_length [OF r(2)] by (simp add: bs)
  have "ofp_unpack_header ofp_stats_request_init raw off =
      Inr (ofp_stats_request_init\<lparr>hdr_version := hdr_version self, hdr_type := hdr_type self, hdr_xid := Some x\<rparr>,
        off + 8, 12 + int (length b))"
    using of_unpack_chunk [OF _ r(1)] c by (simp add: ofp_unpack_header_def)
  moreover have "of_unpack [FH, FH] raw (off + 8) = Inr (off + 12, [t, sr_flags self])"
    using of_unpack_chunk [OF _ r(2), of raw "off + 8"] c by (simp add: add.commute)
  moreover have "of_read raw (off + 12) (int (length b)) = Inr (off + 12 + int (length b), b)"
    by (rule of_read_chunk) (use c in \<open>simp_all add: add.commute\<close>)
  ultimately show ?thesis
    using req_body_unpack_pack [OF b wf t] l s'
    by (simp add: ofp_stats_request_unpack_def ofp_stats_request_set_body_def ofp_stats_request_len_def
        ofp_stats_request_pack_body_def ofp_stats_request_init_def stats_request_received_def Let_def)
qed

subsection \<open>Replies\<close>

definition part_wf :: "stats_part \<Rightarrow> bool" where
  "part_wf p =
     (case p of SBytes _ \<Rightarrow> False | SVendor _ \<Rightarrow> False | SDesc d \<Rightarrow> ofp_desc_stats_wf d
      | SFlow f \<Rightarrow> flow_stats_wf f | STable s \<Rightarrow> 0 \<notin> set (ts_name s) | _ \<Rightarrow> True)"

definition part_received :: "stats_part \<Rightarrow> stats_part" where
  "part_received p = (case p of SFlow f \<Rightarrow> SFlow (flow_stats_received f) | _ \<Rightarrow> p)"

lemma actions_len_nonneg: "0 \<le> actions_len xs"
  using action_len_pos by (induction xs) (auto simp: actions_len_def intro: add_nonneg_nonneg less_imp_le)

lemma part_len_pos: "part_len p = Inr n \<Longrightarrow> part_type p = Some t \<Longrightarrow> 0 < n"
  using actions_len_nonneg
  by (cases p) (auto simp: ofp_desc_stats_len_def ofp_aggregate_stats_len_def ofp_table_stats_len_def
      ofp_port_stats_len_def ofp_queue_stats_len_def ofp_flow_stats_len_def ofp_match_len_def
      ofp_vendor_stats_generic_len_def intro: add_pos_nonneg)

lemma part_pack_kept:
  assumes "part_pack p = Inr (bs, p')" "part_wf p"
  shows "part_type p' = part_type p \<and> part_len p = Inr (int (length bs)) \<and> part_len p' = Inr (int (length bs)) \<and>
    part_len (part_received p') = Inr (int (length bs))"
  using assms
  by (cases p)
    (auto simp: part_wf_def part_received_def ofp_desc_stats_len_def ofp_aggregate_stats_len_def
      ofp_table_stats_len_def ofp_port_stats_len_def ofp_queue_stats_len_def flow_stats_received_def
      ofp_flow_stats_len_def
      dest: ofp_desc_stats_pack_length ofp_aggregate_stats_pack_length ofp_table_stats_pack_length
        ofp_port_stats_pack_length ofp_queue_stats_pack_length
      dest!: ofp_flow_stats_unpack_pack [OF _ _ chunk_whole] elim!: rbindE)

lemma part_unpack_pack:
  assumes "part_pack p = Inr (bs, p')" "part_wf p" "part_type p = Some t" "part_new t = Some (fresh, l)"
  shows "part_unpack fresh (bs @ rest) = Inr (part_received p', int (length bs))" "bs \<noteq> []"
proof -
  have c: "chunk (bs @ rest) 0 bs" using chunk_middle [of "[]" bs rest] by simp
  show "bs \<noteq> []" using part_pack_kept [OF assms(1,2)] part_len_pos [of p' 0 t] assms(3) by auto
  show "part_unpack fresh (bs @ rest) = Inr (part_received p', int (length bs))"
    using assms c part_pack_kept [OF assms(1,2)]
    by (cases p)
      (auto simp: part_wf_def part_received_def part_new_def ofp_desc_stats_unpack_pack
        ofp_aggregate_stats_unpack_pack ofp_table_stats_unpack_pack ofp_port_stats_unpack_pack
        ofp_queue_stats_unpack_pack ofp_desc_stats_len_def ofp_aggregate_stats_len_def
        ofp_table_stats_len_def ofp_port_stats_len_def ofp_queue_stats_len_def
        dest: ofp_flow_stats_unpack_pack elim!: rbindE split: if_splits)
qed

text \<open>A list of parts of one class, read back by the loop.\<close>

lemma unpack_parts_pack:
  "pack_list part_pack ps = Inr (bs, ps') \<Longrightarrow> list_all (\<lambda>p. part_wf p \<and> part_type p = Some t) ps \<Longrightarrow>
   part_new t = Some (fresh, l) \<Longrightarrow>
   unpack_parts fresh bs = Inr (map part_received ps') \<and>
   (\<exists>ls. mapM part_len ps = Inr ls \<and> sum_list ls = int (length bs)) \<and>
   (\<exists>ls. mapM part_len (map part_received ps') = Inr ls \<and> sum_list ls = int (length bs))"
proof (induction ps arbitrary: bs ps')
  case Nil
  then show ?case by (simp add: unpack_parts.simps)
next
  case (Cons p ps)
  then obtain b p1 bs1 ps1 where p: "part_pack p = Inr (b, p1)" "pack_list part_pack ps = Inr (bs1, ps1)"
    and eq: "bs = b @ bs1" "ps' = p1 # ps1"
    by (auto simp: rbind_Inr_iff)
  have wf: "part_wf p" "part_type p = Some t" "list_all (\<lambda>p. part_wf p \<and> part_type p = Some t) ps"
    using Cons.prems(2) by simp_all
  note u = part_unpack_pack(1) [OF p(1) wf(1,2) Cons.prems(3), of bs1] part_unpack_pack(2) [OF p(1) wf(1,2) Cons.prems(3)]
    and k = part_pack_kept [OF p(1) wf(1)]
  have "py_slice (b @ bs1) (int (length b)) (int (length (b @ bs1))) = bs1"
    by (simp add: py_slice_nonneg)
  then have "unpack_parts fresh (b @ bs1) = rbind (unpack_parts fresh bs1) (\<lambda>parts. Inr (part_received p1 # parts))"
    using u by (subst unpack_parts.simps) (simp add: Let_def)
  with Cons.IH [OF p(2) wf(3) Cons.prems(3)] k show ?case by (auto simp: eq)
qed

text \<open>
  A reply whose body can be read back: one object of a class whose replies are single, or a list
  of objects of one class whose replies are lists; no vendor bodies (their length raises).
\<close>

definition stats_reply_wf :: "ofp_stats_reply \<Rightarrow> bool" where
  "stats_reply_wf self \<longleftrightarrow> sp_body_data self = None \<and>
     (case sp_body self of
        BOne p \<Rightarrow> part_wf p \<and> (part_type p = Some 0 \<or> part_type p = Some 2) \<and>
          (sp_type self = None \<or> sp_type self = part_type p)
      | BList ps \<Rightarrow>
          (case ps of
             [] \<Rightarrow> sp_type self = Some 1 \<or> sp_type self = Some 3 \<or> sp_type self = Some 4 \<or> sp_type self = Some 5
           | p # _ \<Rightarrow> list_all (\<lambda>q. part_wf q \<and> part_type q = part_type p) ps \<and>
               part_type p \<noteq> Some 0 \<and> part_type p \<noteq> Some 2 \<and>
               (sp_type self = None \<or> sp_type self = part_type p)))"

definition rep_body_received :: "stats_rep_body \<Rightarrow> stats_rep_body" where
  "rep_body_received b = (case b of BOne p \<Rightarrow> BOne (part_received p) | BList ps \<Rightarrow> BList (map part_received ps))"

definition stats_reply_received :: "ofp_stats_reply \<Rightarrow> ofp_stats_reply" where
  "stats_reply_received self = ofp_stats_reply_set_body (rep_body_received (sp_body self)) self"

lemma part_wf_type: "part_wf p \<Longrightarrow> \<exists>t fresh l. part_type p = Some t \<and> part_new t = Some (fresh, l) \<and> l = (t \<noteq> 0 \<and> t \<noteq> 2)"
  by (cases p) (simp_all add: part_wf_def part_new_def)

text \<open>The type number a well-formed reply is sent with, and that its body is read back under it.\<close>

definition reply_type :: "ofp_stats_reply \<Rightarrow> int option" where
  "reply_type self = (case sp_type self of None \<Rightarrow> ofp_stats_reply_guess_type self | Some t \<Rightarrow> Some t)"

lemma rep_body_unpack_pack:
  assumes wf: "stats_reply_wf self" and p: "rep_body_pack (sp_body self) = Inr (bs, b)"
    and t: "reply_type self = Some t"
  shows "rep_body_unpack t bs = Inr (rep_body_received b)"
    "ofp_stats_reply_len self = Inr (12 + int (length bs))"
    "ofp_stats_reply_len (s\<lparr>sp_body := rep_body_received b\<rparr>) = Inr (12 + int (length bs))"
proof -
  have "rep_body_unpack t bs = Inr (rep_body_received b) \<and>
    ofp_stats_reply_len self = Inr (12 + int (length bs)) \<and>
    ofp_stats_reply_len (s\<lparr>sp_body := rep_body_received b\<rparr>) = Inr (12 + int (length bs))"
  proof (cases "sp_body self")
    case (BOne q)
    with wf have q: "part_wf q" "part_type q = Some 0 \<or> part_type q = Some 2" "part_type q = Some t"
      using t by (auto simp: stats_reply_wf_def reply_type_def ofp_stats_reply_guess_type_def split: option.splits)
    obtain q1 where q1: "part_pack q = Inr (bs, q1)" "b = BOne q1"
      using p BOne by (auto simp: rep_body_pack_def elim!: rbindE)
    from part_wf_type [OF q(1)] q obtain fresh where n: "part_new t = Some (fresh, False)" by auto
    show ?thesis
      using part_unpack_pack(1) [OF q1(1) q(1,3) n, of "[]"] part_pack_kept [OF q1(1) q(1)] n q1 BOne
      by (simp add: rep_body_unpack_def rep_body_received_def ofp_stats_reply_len_def)
  next
    case (BList ps)
    have ps: "list_all (\<lambda>p. part_wf p \<and> part_type p = Some t) ps" "\<exists>fresh. part_new t = Some (fresh, True)"
    proof (atomize (full), cases ps)
      case Nil
      with BList wf t show "list_all (\<lambda>p. part_wf p \<and> part_type p = Some t) ps \<and> (\<exists>fresh. part_new t = Some (fresh, True))"
        by (auto simp: stats_reply_wf_def reply_type_def part_new_def)
    next
      case (Cons q qs)
      with BList wf t have "part_type q = Some t" "part_wf q" "t \<noteq> 0" "t \<noteq> 2"
        by (auto simp: stats_reply_wf_def reply_type_def ofp_stats_reply_guess_type_def split: option.splits)
      with Cons BList wf part_wf_type [of q]
      show "list_all (\<lambda>p. part_wf p \<and> part_type p = Some t) ps \<and> (\<exists>fresh. part_new t = Some (fresh, True))"
        by (auto simp: stats_reply_wf_def)
    qed
    obtain ps1 where p1: "pack_list part_pack ps = Inr (bs, ps1)" "b = BList ps1"
      using p BList by (auto simp: rep_body_pack_def elim!: rbindE)
    from ps(2) obtain fresh where n: "part_new t = Some (fresh, True)" by blast
    show ?thesis
      using unpack_parts_pack [OF p1(1) ps(1) n] n p1 BList
      by (auto simp: rep_body_unpack_def rep_body_received_def ofp_stats_reply_len_def)
  qed
  then show "rep_body_unpack t bs = Inr (rep_body_received b)"
    "ofp_stats_reply_len self = Inr (12 + int (length bs))"
    "ofp_stats_reply_len (s\<lparr>sp_body := rep_body_received b\<rparr>) = Inr (12 + int (length bs))"
    by blast+
qed

lemma ofp_stats_reply_pack_Inr:
  assumes "ofp_stats_reply_pack g self = Inr (bs, self', g')" "stats_reply_wf self"
  shows "\<exists>t d b n x. reply_type self = Some t \<and> rep_body_pack (sp_body self) = Inr (d, b) \<and>
    ofp_stats_reply_len self = Inr n \<and>
    self' = self\<lparr>sp_type := Some t, hdr_xid := Some x, sp_body := b, sp_body_data := Some d\<rparr> \<and>
    list_all2 code_range [FB, FB, FH, FL] [hdr_version self, hdr_type self, n, x] \<and>
    list_all2 code_range [FH, FH] [t, sp_flags self] \<and>
    bs = struct_bytes [FB, FB, FH, FL] [hdr_version self, hdr_type self, n, x] @
      struct_bytes [FH, FH] [t, sp_flags self] @ d"
proof -
  have nc: "sp_body_data self = None" using assms(2) by (simp add: stats_reply_wf_def)
  have ln: "ofp_stats_reply_len (self\<lparr>sp_type := u\<rparr>) = ofp_stats_reply_len self" for u
    by (simp add: ofp_stats_reply_len_def)
  have "\<exists>t. reply_type self = Some t"
    using assms(1) by (auto simp: ofp_stats_reply_pack_def reply_type_def elim!: rbindE split: option.splits)
  then obtain t where t: "reply_type self = Some t" by blast
  then have "(case sp_type self of Some t \<Rightarrow> Inr self
    | None \<Rightarrow> (case ofp_stats_reply_guess_type self of None \<Rightarrow> Inl RuntimeError
        | Some t \<Rightarrow> Inr (self\<lparr>sp_type := Some t\<rparr>))) = Inr (self\<lparr>sp_type := Some t\<rparr>)"
    by (cases self) (auto simp: reply_type_def split: option.splits)
  with assms(1) t nc show ?thesis
    by (clarsimp simp: ofp_stats_reply_pack_def ofp_stats_reply_body_data_def codec_dest ln
        elim!: rbindE dest!: ofp_header_xid_eq split: if_splits) blast
qed

lemma ofp_stats_reply_unpack_pack:
  assumes "ofp_stats_reply_pack g self = Inr (bs, self', g')" "stats_reply_wf self" "chunk raw off bs"
  shows "ofp_stats_reply_unpack ofp_stats_reply_init raw off =
    Inr (stats_reply_received self', off + int (length bs), int (length bs))"
proof -
  from ofp_stats_reply_pack_Inr [OF assms(1,2)] obtain t d b n x where
    t: "reply_type self = Some t" and d: "rep_body_pack (sp_body self) = Inr (d, b)"
    and n: "ofp_stats_reply_len self = Inr n"
    and s': "self' = self\<lparr>sp_type := Some t, hdr_xid := Some x, sp_body := b, sp_body_data := Some d\<rparr>"
    and r: "list_all2 code_range [FB, FB, FH, FL] [hdr_version self, hdr_type self, n, x]"
      "list_all2 code_range [FH, FH] [t, sp_flags self]"
    and bs: "bs = struct_bytes [FB, FB, FH, FL] [hdr_version self, hdr_type self, n, x] @
      struct_bytes [FH, FH] [t, sp_flags self] @ d"
    by blast
  note u = rep_body_unpack_pack [OF assms(2) d t]
  note c = assms(3) [unfolded bs chunk_append struct_bytes_length [OF r(1)] struct_bytes_length [OF r(2)]]
  have l: "n = 12 + int (length d)" "int (length bs) = 12 + int (length d)"
    using u(2) n struct_bytes_length [OF r(1)] struct_bytes_length [OF r(2)] by (simp_all add: bs)
  have "ofp_unpack_header ofp_stats_reply_init raw off =
      Inr (ofp_stats_reply_init\<lparr>hdr_version := hdr_version self, hdr_type := hdr_type self, hdr_xid := Some x\<rparr>,
        off + 8, n)"
    using of_unpack_chunk [OF _ r(1)] c by (simp add: ofp_unpack_header_def)
  moreover have "of_unpack [FH, FH] raw (off + 8) = Inr (off + 12, [t, sp_flags self])"
    using of_unpack_chunk [OF _ r(2), of raw "off + 8"] c by (simp add: add.commute)
  moreover have "of_read raw (off + 12) (int (length d)) = Inr (off + 12 + int (length d), d)"
    by (rule of_read_chunk) (use c in \<open>simp_all add: add.commute\<close>)
  moreover have "ofp_stats_reply_len (ofp_stats_reply_set_body (rep_body_received b) z) = Inr (12 + int (length d))" for z
    using u(3) [of z] by (simp add: ofp_stats_reply_set_body_def ofp_stats_reply_len_def)
  ultimately show ?thesis
    using u(1) l s'
    by (simp add: ofp_stats_reply_unpack_def Let_def stats_reply_received_def)
      (simp add: ofp_stats_reply_set_body_def ofp_stats_reply_init_def)
qed

end
