(* ===== verification/OF_Codec.thy ===== *)
theory OF_Codec
  imports OF_Stats
begin

text \<open>
  All messages together: the object a connection sends or receives is one of the twenty-two
  registered classes, and \<^verbatim>\<open>make_type_to_unpacker_table\<close> of \<^verbatim>\<open>openflow/util.py\<close> maps a type byte to
  the \<^verbatim>\<open>unpack_new\<close> of its class. The round trip of every class is put together here.
\<close>

section \<open>Any message\<close>

datatype ofp_message =
    MHello ofp_hello
  | MError ofp_error
  | MEchoRequest ofp_echo_request
  | MEchoReply ofp_echo_reply
  | MVendor ofp_vendor_generic
  | MFeaturesRequest ofp_features_request
  | MFeaturesReply ofp_features_reply
  | MGetConfigRequest ofp_get_config_request
  | MGetConfigReply ofp_get_config_reply
  | MSetConfig ofp_set_config
  | MPacketIn ofp_packet_in
  | MFlowRemoved ofp_flow_removed
  | MPortStatus ofp_port_status
  | MPacketOut ofp_packet_out
  | MFlowMod ofp_flow_mod
  | MPortMod ofp_port_mod
  | MStatsRequest ofp_stats_request
  | MStatsReply ofp_stats_reply
  | MBarrierRequest ofp_barrier_request
  | MBarrierReply ofp_barrier_reply
  | MQueueConfigRequest ofp_queue_get_config_request
  | MQueueConfigReply ofp_queue_get_config_reply

fun message_type :: "ofp_message \<Rightarrow> int" where
  "message_type (MHello m) = hdr_type m"
| "message_type (MError m) = hdr_type m"
| "message_type (MEchoRequest m) = hdr_type m"
| "message_type (MEchoReply m) = hdr_type m"
| "message_type (MVendor m) = hdr_type m"
| "message_type (MFeaturesRequest m) = hdr_type m"
| "message_type (MFeaturesReply m) = hdr_type m"
| "message_type (MGetConfigRequest m) = hdr_type m"
| "message_type (MGetConfigReply m) = hdr_type m"
| "message_type (MSetConfig m) = hdr_type m"
| "message_type (MPacketIn m) = hdr_type m"
| "message_type (MFlowRemoved m) = hdr_type m"
| "message_type (MPortStatus m) = hdr_type m"
| "message_type (MPacketOut m) = hdr_type m"
| "message_type (MFlowMod m) = hdr_type m"
| "message_type (MPortMod m) = hdr_type m"
| "message_type (MStatsRequest m) = hdr_type m"
| "message_type (MStatsReply m) = hdr_type m"
| "message_type (MBarrierRequest m) = hdr_type m"
| "message_type (MBarrierReply m) = hdr_type m"
| "message_type (MQueueConfigRequest m) = hdr_type m"
| "message_type (MQueueConfigReply m) = hdr_type m"

fun message_pack :: "xid_gen \<Rightarrow> ofp_message \<Rightarrow> (bytes \<times> ofp_message \<times> xid_gen) res" where
  "message_pack g (MHello m) = rbind (ofp_hello_pack g m) (\<lambda>(bs, m, g). Inr (bs, MHello m, g))"
| "message_pack g (MError m) = rbind (ofp_error_pack g m) (\<lambda>(bs, m, g). Inr (bs, MError m, g))"
| "message_pack g (MEchoRequest m) = rbind (ofp_echo_request_pack g m) (\<lambda>(bs, m, g). Inr (bs, MEchoRequest m, g))"
| "message_pack g (MEchoReply m) = rbind (ofp_echo_reply_pack g m) (\<lambda>(bs, m, g). Inr (bs, MEchoReply m, g))"
| "message_pack g (MVendor m) = rbind (ofp_vendor_generic_pack g m) (\<lambda>(bs, m, g). Inr (bs, MVendor m, g))"
| "message_pack g (MFeaturesRequest m) = rbind (ofp_features_request_pack g m) (\<lambda>(bs, m, g). Inr (bs, MFeaturesRequest m, g))"
| "message_pack g (MFeaturesReply m) = rbind (ofp_features_reply_pack g m) (\<lambda>(bs, m, g). Inr (bs, MFeaturesReply m, g))"
| "message_pack g (MGetConfigRequest m) = rbind (ofp_get_config_request_pack g m) (\<lambda>(bs, m, g). Inr (bs, MGetConfigRequest m, g))"
| "message_pack g (MGetConfigReply m) = rbind (ofp_get_config_reply_pack g m) (\<lambda>(bs, m, g). Inr (bs, MGetConfigReply m, g))"
| "message_pack g (MSetConfig m) = rbind (ofp_set_config_pack g m) (\<lambda>(bs, m, g). Inr (bs, MSetConfig m, g))"
| "message_pack g (MPacketIn m) = rbind (ofp_packet_in_pack g m) (\<lambda>(bs, m, g). Inr (bs, MPacketIn m, g))"
| "message_pack g (MFlowRemoved m) = rbind (ofp_flow_removed_pack g m) (\<lambda>(bs, m, g). Inr (bs, MFlowRemoved m, g))"
| "message_pack g (MPortStatus m) = rbind (ofp_port_status_pack g m) (\<lambda>(bs, m, g). Inr (bs, MPortStatus m, g))"
| "message_pack g (MPacketOut m) = rbind (ofp_packet_out_pack g m) (\<lambda>(bs, m, g). Inr (bs, MPacketOut m, g))"
| "message_pack g (MFlowMod m) = rbind (ofp_flow_mod_pack g m) (\<lambda>(bs, m, g). Inr (bs, MFlowMod m, g))"
| "message_pack g (MPortMod m) = rbind (ofp_port_mod_pack g m) (\<lambda>(bs, m, g). Inr (bs, MPortMod m, g))"
| "message_pack g (MStatsRequest m) = rbind (ofp_stats_request_pack g m) (\<lambda>(bs, m, g). Inr (bs, MStatsRequest m, g))"
| "message_pack g (MStatsReply m) = rbind (ofp_stats_reply_pack g m) (\<lambda>(bs, m, g). Inr (bs, MStatsReply m, g))"
| "message_pack g (MBarrierRequest m) = rbind (ofp_barrier_request_pack g m) (\<lambda>(bs, m, g). Inr (bs, MBarrierRequest m, g))"
| "message_pack g (MBarrierReply m) = rbind (ofp_barrier_reply_pack g m) (\<lambda>(bs, m, g). Inr (bs, MBarrierReply m, g))"
| "message_pack g (MQueueConfigRequest m) = rbind (ofp_queue_get_config_request_pack g m) (\<lambda>(bs, m, g). Inr (bs, MQueueConfigRequest m, g))"
| "message_pack g (MQueueConfigReply m) = rbind (ofp_queue_get_config_reply_pack g m) (\<lambda>(bs, m, g). Inr (bs, MQueueConfigReply m, g))"

text \<open>\<^verbatim>\<open>cls.unpack_new\<close> for the class behind a constructor.\<close>

definition msg_unpack_new ::
  "('m \<Rightarrow> ofp_message) \<Rightarrow> 'm \<Rightarrow> ('m \<Rightarrow> bytes \<Rightarrow> int \<Rightarrow> ('m \<times> int \<times> int) res) \<Rightarrow>
   bytes \<Rightarrow> int \<Rightarrow> (int \<times> ofp_message) res"
where
  "msg_unpack_new C fresh upk raw offset =
     rbind (unpack_new fresh upk raw offset) (\<lambda>(r, m). Inr (r, C m))"

text \<open>One unpacker per message type, in the order of the type numbers.\<close>

definition make_type_to_unpacker_table :: "(bytes \<Rightarrow> int \<Rightarrow> (int \<times> ofp_message) res) list" where
  "make_type_to_unpacker_table =
     [msg_unpack_new MHello ofp_hello_init ofp_hello_unpack,
      msg_unpack_new MError ofp_error_init ofp_error_unpack,
      msg_unpack_new MEchoRequest ofp_echo_request_init ofp_echo_request_unpack,
      msg_unpack_new MEchoReply ofp_echo_reply_init ofp_echo_reply_unpack,
      msg_unpack_new MVendor ofp_vendor_generic_init ofp_vendor_generic_unpack,
      msg_unpack_new MFeaturesRequest ofp_features_request_init ofp_features_request_unpack,
      msg_unpack_new MFeaturesReply ofp_features_reply_init ofp_features_reply_unpack,
      msg_unpack_new MGetConfigRequest ofp_get_config_request_init ofp_get_config_request_unpack,
      msg_unpack_new MGetConfigReply ofp_get_config_reply_init ofp_get_config_reply_unpack,
      msg_unpack_new MSetConfig ofp_set_config_init ofp_set_config_unpack,
      msg_unpack_new MPacketIn ofp_packet_in_init ofp_packet_in_unpack,
      msg_unpack_new MFlowRemoved ofp_flow_removed_init ofp_flow_removed_unpack,
      msg_unpack_new MPortStatus ofp_port_status_init ofp_port_status_unpack,
      msg_unpack_new MPacketOut ofp_packet_out_init ofp_packet_out_unpack,
      msg_unpack_new MFlowMod ofp_flow_mod_init ofp_flow_mod_unpack,
      msg_unpack_new MPortMod ofp_port_mod_init ofp_port_mod_unpack,
      msg_unpack_new MStatsRequest ofp_stats_request_init ofp_stats_request_unpack,
      msg_unpack_new MStatsReply ofp_stats_reply_init ofp_stats_reply_unpack,
      msg_unpack_new MBarrierRequest ofp_barrier_request_init ofp_barrier_request_unpack,
      msg_unpack_new MBarrierReply ofp_barrier_reply_init ofp_barrier_reply_unpack,
      msg_unpack_new MQueueConfigRequest ofp_queue_get_config_request_init ofp_queue_get_config_request_unpack,
      msg_unpack_new MQueueConfigReply ofp_queue_get_config_reply_init ofp_queue_get_config_reply_unpack]"

text \<open>The well-formedness each class needs to be read back, and what is read back.\<close>

fun message_wf :: "ofp_message \<Rightarrow> bool" where
  "message_wf (MHello m) \<longleftrightarrow> hdr_type m = 0"
| "message_wf (MError m) \<longleftrightarrow> hdr_type m = 1"
| "message_wf (MEchoRequest m) \<longleftrightarrow> hdr_type m = 2"
| "message_wf (MEchoReply m) \<longleftrightarrow> hdr_type m = 3"
| "message_wf (MVendor m) \<longleftrightarrow> hdr_type m = 4"
| "message_wf (MFeaturesRequest m) \<longleftrightarrow> hdr_type m = 5"
| "message_wf (MFeaturesReply m) \<longleftrightarrow> hdr_type m = 6 \<and> list_all phy_port_wf (fr_ports m)"
| "message_wf (MGetConfigRequest m) \<longleftrightarrow> hdr_type m = 7"
| "message_wf (MGetConfigReply m) \<longleftrightarrow> hdr_type m = 8"
| "message_wf (MSetConfig m) \<longleftrightarrow> hdr_type m = 9"
| "message_wf (MPacketIn m) \<longleftrightarrow> hdr_type m = 10"
| "message_wf (MFlowRemoved m) \<longleftrightarrow> hdr_type m = 11 \<and> match_wf (frm_match m)"
| "message_wf (MPortStatus m) \<longleftrightarrow> hdr_type m = 12 \<and> phy_port_wf (ps_desc m)"
| "message_wf (MPacketOut m) \<longleftrightarrow> hdr_type m = 13 \<and> packet_out_wf m"
| "message_wf (MFlowMod m) \<longleftrightarrow> hdr_type m = 14 \<and> flow_mod_wf m \<and> fm_data m = None"
| "message_wf (MPortMod m) \<longleftrightarrow> hdr_type m = 15 \<and> eth_wf (pm_hw_addr m)"
| "message_wf (MStatsRequest m) \<longleftrightarrow> hdr_type m = 16 \<and> stats_request_wf m"
| "message_wf (MStatsReply m) \<longleftrightarrow> hdr_type m = 17 \<and> stats_reply_wf m"
| "message_wf (MBarrierRequest m) \<longleftrightarrow> hdr_type m = 18"
| "message_wf (MBarrierReply m) \<longleftrightarrow> hdr_type m = 19"
| "message_wf (MQueueConfigRequest m) \<longleftrightarrow> hdr_type m = 20"
| "message_wf (MQueueConfigReply m) \<longleftrightarrow> hdr_type m = 21 \<and> list_all packet_queue_wf (qp_queues m)"

fun message_received :: "ofp_message \<Rightarrow> ofp_message" where
  "message_received (MHello m) = MHello m"
| "message_received (MError m) = MError m"
| "message_received (MEchoRequest m) = MEchoRequest m"
| "message_received (MEchoReply m) = MEchoReply m"
| "message_received (MVendor m) = MVendor m"
| "message_received (MFeaturesRequest m) = MFeaturesRequest m"
| "message_received (MFeaturesReply m) = MFeaturesReply m"
| "message_received (MGetConfigRequest m) = MGetConfigRequest m"
| "message_received (MGetConfigReply m) = MGetConfigReply m"
| "message_received (MSetConfig m) = MSetConfig m"
| "message_received (MPacketIn m) = MPacketIn (m\<lparr>pi_total_len := Some (ofp_packet_in_total_len m)\<rparr>)"
| "message_received (MFlowRemoved m) = MFlowRemoved (m\<lparr>frm_match := match_received False ofp_match_init (frm_match m)\<rparr>)"
| "message_received (MPortStatus m) = MPortStatus m"
| "message_received (MPacketOut m) = MPacketOut m"
| "message_received (MFlowMod m) = MFlowMod (m\<lparr>fm_match := match_received True ofp_match_init (fm_match m)\<rparr>)"
| "message_received (MPortMod m) = MPortMod m"
| "message_received (MStatsRequest m) = MStatsRequest (stats_request_received m)"
| "message_received (MStatsReply m) = MStatsReply (stats_reply_received m)"
| "message_received (MBarrierRequest m) = MBarrierRequest m"
| "message_received (MBarrierReply m) = MBarrierReply m"
| "message_received (MQueueConfigRequest m) = MQueueConfigRequest m"
| "message_received (MQueueConfigReply m) = MQueueConfigReply m"

section \<open>Round trip of every message\<close>

lemma msg_unpack_newI:
  "upk fresh raw off = Inr (m, off + int (length bs), int (length bs)) \<Longrightarrow>
   msg_unpack_new C fresh upk raw off = Inr (off + int (length bs), C m)"
  by (simp add: msg_unpack_new_def unpack_new_def)

lemmas msg_pack_lengths =
  ofp_hello_pack_length
  ofp_error_pack_length
  ofp_echo_request_pack_length
  ofp_echo_reply_pack_length
  ofp_vendor_generic_pack_length
  ofp_features_request_pack_length
  ofp_features_reply_pack_length
  ofp_get_config_request_pack_length
  ofp_get_config_reply_pack_length
  ofp_set_config_pack_length
  ofp_packet_in_pack_length
  ofp_flow_removed_pack_length
  ofp_port_status_pack_length
  ofp_port_mod_pack_length
  ofp_barrier_request_pack_length
  ofp_barrier_reply_pack_length
  ofp_queue_get_config_request_pack_length

lemmas msg_unpack_packs =
  ofp_hello_unpack_pack
  ofp_error_unpack_pack
  ofp_echo_request_unpack_pack
  ofp_echo_reply_unpack_pack
  ofp_vendor_generic_unpack_pack
  ofp_features_request_unpack_pack
  ofp_features_reply_unpack_pack
  ofp_get_config_request_unpack_pack
  ofp_get_config_reply_unpack_pack
  ofp_set_config_unpack_pack
  ofp_packet_in_unpack_pack
  ofp_flow_removed_unpack_pack
  ofp_port_status_unpack_pack
  ofp_port_mod_unpack_pack
  ofp_barrier_request_unpack_pack
  ofp_barrier_reply_unpack_pack
  ofp_queue_get_config_request_unpack_pack

lemma ofp_hello_new:
  assumes p: "ofp_hello_pack g m = Inr (bs, m', g')" and c: "chunk raw off bs"
  shows "msg_unpack_new MHello ofp_hello_init ofp_hello_unpack raw off = Inr (off + int (length bs), MHello (m'))"
  by (rule msg_unpack_newI)
    (use ofp_hello_unpack_pack [OF p c] ofp_hello_pack_length [OF p] in simp)

lemma ofp_error_new:
  assumes p: "ofp_error_pack g m = Inr (bs, m', g')" and c: "chunk raw off bs"
  shows "msg_unpack_new MError ofp_error_init ofp_error_unpack raw off = Inr (off + int (length bs), MError (m'))"
  by (rule msg_unpack_newI)
    (use ofp_error_unpack_pack [OF p c] ofp_error_pack_length [OF p] in simp)

lemma ofp_echo_request_new:
  assumes p: "ofp_echo_request_pack g m = Inr (bs, m', g')" and c: "chunk raw off bs"
  shows "msg_unpack_new MEchoRequest ofp_echo_request_init ofp_echo_request_unpack raw off = Inr (off + int (length bs), MEchoRequest (m'))"
  by (rule msg_unpack_newI)
    (use ofp_echo_request_unpack_pack [OF p c] ofp_echo_request_pack_length [OF p] in simp)

lemma ofp_echo_reply_new:
  assumes p: "ofp_echo_reply_pack g m = Inr (bs, m', g')" and c: "chunk raw off bs"
  shows "msg_unpack_new MEchoReply ofp_echo_reply_init ofp_echo_reply_unpack raw off = Inr (off + int (length bs), MEchoReply (m'))"
  by (rule msg_unpack_newI)
    (use ofp_echo_reply_unpack_pack [OF p c] ofp_echo_reply_pack_length [OF p] in simp)

lemma ofp_vendor_generic_new:
  assumes p: "ofp_vendor_generic_pack g m = Inr (bs, m', g')" and c: "chunk raw off bs"
  shows "msg_unpack_new MVendor ofp_vendor_generic_init ofp_vendor_generic_unpack raw off = Inr (off + int (length bs), MVendor (m'))"
  by (rule msg_unpack_newI)
    (use ofp_vendor_generic_unpack_pack [OF p c] ofp_vendor_generic_pack_length [OF p] in simp)

lemma ofp_features_request_new:
  assumes p: "ofp_features_request_pack g m = Inr (bs, m', g')" and c: "chunk raw off bs"
  shows "msg_unpack_new MFeaturesRequest ofp_features_request_init ofp_features_request_unpack raw off = Inr (off + int (length bs), MFeaturesRequest (m'))"
  by (rule msg_unpack_newI)
    (use ofp_features_request_unpack_pack [OF p c] ofp_features_request_pack_length [OF p] in simp)

lemma ofp_features_reply_new:
  assumes p: "ofp_features_reply_pack g m = Inr (bs, m', g')" and c: "chunk raw off bs"
    and wf: "list_all phy_port_wf (fr_ports m)"
  shows "msg_unpack_new MFeaturesReply ofp_features_reply_init ofp_features_reply_unpack raw off = Inr (off + int (length bs), MFeaturesReply (m'))"
  by (rule msg_unpack_newI)
    (use ofp_features_reply_unpack_pack [OF p wf c] ofp_features_reply_pack_length [OF p wf] in simp)

lemma ofp_get_config_request_new:
  assumes p: "ofp_get_config_request_pack g m = Inr (bs, m', g')" and c: "chunk raw off bs"
  shows "msg_unpack_new MGetConfigRequest ofp_get_config_request_init ofp_get_config_request_unpack raw off = Inr (off + int (length bs), MGetConfigRequest (m'))"
  by (rule msg_unpack_newI)
    (use ofp_get_config_request_unpack_pack [OF p c] ofp_get_config_request_pack_length [OF p] in simp)

lemma ofp_get_config_reply_new:
  assumes p: "ofp_get_config_reply_pack g m = Inr (bs, m', g')" and c: "chunk raw off bs"
  shows "msg_unpack_new MGetConfigReply ofp_get_config_reply_init ofp_get_config_reply_unpack raw off = Inr (off + int (length bs), MGetConfigReply (m'))"
  by (rule msg_unpack_newI)
    (use ofp_get_config_reply_unpack_pack [OF p c] ofp_get_config_reply_pack_length [OF p] in simp)

lemma ofp_set_config_new:
  assumes p: "ofp_set_config_pack g m = Inr (bs, m', g')" and c: "chunk raw off bs"
  shows "msg_unpack_new MSetConfig ofp_set_config_init ofp_set_config_unpack raw off = Inr (off + int (length bs), MSetConfig (m'))"
  by (rule msg_unpack_newI)
    (use ofp_set_config_unpack_pack [OF p c] ofp_set_config_pack_length [OF p] in simp)

lemma ofp_packet_in_new:
  assumes p: "ofp_packet_in_pack g m = Inr (bs, m', g')" and c: "chunk raw off bs"
  shows "msg_unpack_new MPacketIn ofp_packet_in_init ofp_packet_in_unpack raw off = Inr (off + int (length bs), MPacketIn (m'\<lparr>pi_total_len := Some (ofp_packet_in_total_len m')\<rparr>))"
proof (rule msg_unpack_newI)
  have "pi_data m' = pi_data m" "ofp_packet_in_total_len m' = ofp_packet_in_total_len m"
    using p by (auto simp: ofp_packet_in_pack_def codec_dest elim!: rbindE dest!: ofp_header_xid_eq)
  with ofp_packet_in_unpack_pack [OF p c] ofp_packet_in_pack_length [OF p] show "ofp_packet_in_unpack ofp_packet_in_init raw off = Inr (m'\<lparr>pi_total_len := Some (ofp_packet_in_total_len m')\<rparr>, off + int (length bs), int (length bs))" by simp
qed

lemma ofp_flow_removed_new:
  assumes p: "ofp_flow_removed_pack g m = Inr (bs, m', g')" and c: "chunk raw off bs"
    and wf: "match_wf (frm_match m)"
  shows "msg_unpack_new MFlowRemoved ofp_flow_removed_init ofp_flow_removed_unpack raw off = Inr (off + int (length bs), MFlowRemoved (m'\<lparr>frm_match := match_received False ofp_match_init (frm_match m')\<rparr>))"
proof (rule msg_unpack_newI)
  have "frm_match m' = frm_match m"
    using p by (auto simp: ofp_flow_removed_pack_def codec_dest elim!: rbindE dest!: ofp_header_xid_eq)
  with ofp_flow_removed_unpack_pack [OF p wf c, of ofp_flow_removed_init] ofp_flow_removed_pack_length [OF p wf]
  show "ofp_flow_removed_unpack ofp_flow_removed_init raw off = Inr (m'\<lparr>frm_match := match_received False ofp_match_init (frm_match m')\<rparr>, off + int (length bs), int (length bs))" by (simp add: ofp_flow_removed_init_def)
qed

lemma ofp_port_status_new:
  assumes p: "ofp_port_status_pack g m = Inr (bs, m', g')" and c: "chunk raw off bs"
    and wf: "phy_port_wf (ps_desc m)"
  shows "msg_unpack_new MPortStatus ofp_port_status_init ofp_port_status_unpack raw off = Inr (off + int (length bs), MPortStatus (m'))"
  by (rule msg_unpack_newI)
    (use ofp_port_status_unpack_pack [OF p wf c] ofp_port_status_pack_length [OF p wf] in simp)

lemma ofp_packet_out_new:
  assumes p: "ofp_packet_out_pack g m = Inr (bs, m', g')" and c: "chunk raw off bs"
    and wf: "packet_out_wf m"
  shows "msg_unpack_new MPacketOut ofp_packet_out_init ofp_packet_out_unpack raw off = Inr (off + int (length bs), MPacketOut (m'))"
  by (rule msg_unpack_newI)
    (use ofp_packet_out_unpack_pack [OF p wf c] ofp_packet_out_pack_length [OF p wf] in simp)

lemma ofp_flow_mod_plain:
  assumes p: "ofp_flow_mod_pack g m = Inr (bs, m', g')" and wf: "fm_data m = None" "flow_mod_wf m"
  shows "flow_mod_data m = Inr (fm_buffer_id m, None, m) \<and> fm_data m' = None \<and>
    fm_buffer_id m' = fm_buffer_id m \<and> int (length bs) = ofp_flow_mod_len m'"
proof -
  have d: "flow_mod_data m = Inr (fm_buffer_id m, None, m)"
    using wf(1) by (simp add: flow_mod_data_def buffer_id_set_def buffer_id_get_def)
  from ofp_flow_mod_pack_Inr [OF p] obtain x ms as xs where
    m: "ofp_match_pack True (fm_match m) = Inr ms" and a: "pack_list action_pack (fm_actions m) = Inr (as, xs)"
    and m': "m' = m\<lparr>fm_actions := xs, hdr_xid := Some x\<rparr>"
    and r: "list_all2 code_range [FB, FB, FH, FL] [hdr_version m, hdr_type m, ofp_flow_mod_len m, x]"
      "list_all2 code_range [FQ, FH, FH, FH, FH, FL, FH, FH]
        [fm_cookie m, fm_command m, fm_idle_timeout m, fm_hard_timeout m, fm_priority m,
         fm_buffer_id m, fm_out_port m, fm_flags m]"
    and bs: "bs = struct_bytes [FB, FB, FH, FL] [hdr_version m, hdr_type m, ofp_flow_mod_len m, x] @ ms @
      struct_bytes [FQ, FH, FH, FH, FH, FL, FH, FH]
        [fm_cookie m, fm_command m, fm_idle_timeout m, fm_hard_timeout m, fm_priority m,
         fm_buffer_id m, fm_out_port m, fm_flags m] @ as"
    by (auto simp: d)
  have "length ms = 40" "int (length as) = actions_len xs"
    using ofp_match_pack_length [OF m] actions_pack_length [OF a] wf(2) by (simp_all add: flow_mod_wf_def)
  then show ?thesis
    using d m' wf(1) struct_bytes_length [OF r(1)] struct_bytes_length [OF r(2)]
    by (simp add: bs ofp_flow_mod_len_def ofp_match_len_def)
qed

lemma flow_mod_received_plain:
  "fm_data m = None \<Longrightarrow> fm_buffer_id m = b \<Longrightarrow>
   flow_mod_received b m = m\<lparr>fm_match := match_received True ofp_match_init (fm_match m)\<rparr>"
  by (cases m) (simp add: flow_mod_received_def)

lemma ofp_flow_mod_new:
  assumes p: "ofp_flow_mod_pack g m = Inr (bs, m', g')" and c: "chunk raw off bs"
    and wf: "flow_mod_wf m \<and> fm_data m = None"
  shows "msg_unpack_new MFlowMod ofp_flow_mod_init ofp_flow_mod_unpack raw off = Inr (off + int (length bs), MFlowMod (m'\<lparr>fm_match := match_received True ofp_match_init (fm_match m')\<rparr>))"
proof (rule msg_unpack_newI)
  have wf': "flow_mod_wf m" "fm_data m = None" using wf by simp_all
  note q = ofp_flow_mod_plain [OF p wf'(2,1)]
  from ofp_flow_mod_unpack_pack [OF p wf'(1) c] q show "ofp_flow_mod_unpack ofp_flow_mod_init raw off = Inr (m'\<lparr>fm_match := match_received True ofp_match_init (fm_match m')\<rparr>, off + int (length bs), int (length bs))"
    by (simp add: flow_mod_received_plain)
qed

lemma ofp_port_mod_new:
  assumes p: "ofp_port_mod_pack g m = Inr (bs, m', g')" and c: "chunk raw off bs"
    and wf: "eth_wf (pm_hw_addr m)"
  shows "msg_unpack_new MPortMod ofp_port_mod_init ofp_port_mod_unpack raw off = Inr (off + int (length bs), MPortMod (m'))"
  by (rule msg_unpack_newI)
    (use ofp_port_mod_unpack_pack [OF p wf c] ofp_port_mod_pack_length [OF p wf] in simp)

lemma ofp_stats_request_new:
  assumes p: "ofp_stats_request_pack g m = Inr (bs, m', g')" and c: "chunk raw off bs"
    and wf: "stats_request_wf m"
  shows "msg_unpack_new MStatsRequest ofp_stats_request_init ofp_stats_request_unpack raw off = Inr (off + int (length bs), MStatsRequest (stats_request_received m'))"
  by (rule msg_unpack_newI)
    (use ofp_stats_request_unpack_pack [OF p wf c] in simp)

lemma ofp_stats_reply_new:
  assumes p: "ofp_stats_reply_pack g m = Inr (bs, m', g')" and c: "chunk raw off bs"
    and wf: "stats_reply_wf m"
  shows "msg_unpack_new MStatsReply ofp_stats_reply_init ofp_stats_reply_unpack raw off = Inr (off + int (length bs), MStatsReply (stats_reply_received m'))"
  by (rule msg_unpack_newI)
    (use ofp_stats_reply_unpack_pack [OF p wf c] in simp)

lemma ofp_barrier_request_new:
  assumes p: "ofp_barrier_request_pack g m = Inr (bs, m', g')" and c: "chunk raw off bs"
  shows "msg_unpack_new MBarrierRequest ofp_barrier_request_init ofp_barrier_request_unpack raw off = Inr (off + int (length bs), MBarrierRequest (m'))"
  by (rule msg_unpack_newI)
    (use ofp_barrier_request_unpack_pack [OF p c] ofp_barrier_request_pack_length [OF p] in simp)

lemma ofp_barrier_reply_new:
  assumes p: "ofp_barrier_reply_pack g m = Inr (bs, m', g')" and c: "chunk raw off bs"
  shows "msg_unpack_new MBarrierReply ofp_barrier_reply_init ofp_barrier_reply_unpack raw off = Inr (off + int (length bs), MBarrierReply (m'))"
  by (rule msg_unpack_newI)
    (use ofp_barrier_reply_unpack_pack [OF p c] ofp_barrier_reply_pack_length [OF p] in simp)

lemma ofp_queue_get_config_request_new:
  assumes p: "ofp_queue_get_config_request_pack g m = Inr (bs, m', g')" and c: "chunk raw off bs"
  shows "msg_unpack_new MQueueConfigRequest ofp_queue_get_config_request_init ofp_queue_get_config_request_unpack raw off = Inr (off + int (length bs), MQueueConfigRequest (m'))"
  by (rule msg_unpack_newI)
    (use ofp_queue_get_config_request_unpack_pack [OF p c] ofp_queue_get_config_request_pack_length [OF p] in simp)

lemma ofp_queue_get_config_reply_new:
  assumes p: "ofp_queue_get_config_reply_pack g m = Inr (bs, m', g')" and c: "chunk raw off bs"
    and wf: "list_all packet_queue_wf (qp_queues m)"
  shows "msg_unpack_new MQueueConfigReply ofp_queue_get_config_reply_init ofp_queue_get_config_reply_unpack raw off = Inr (off + int (length bs), MQueueConfigReply (m'))"
  by (rule msg_unpack_newI)
    (use ofp_queue_get_config_reply_unpack_pack [OF p wf c] in simp)

text \<open>Every packed message starts with the version, its type and its own length.\<close>

definition head_ok :: "int \<Rightarrow> int \<Rightarrow> bytes \<Rightarrow> bool" where
  "head_ok v t bs \<longleftrightarrow> 8 \<le> length bs \<and>
     list_all2 code_range [FB, FB, FH] [v, t, int (length bs)] \<and>
     take 4 bs = struct_bytes [FB, FB, FH] [v, t, int (length bs)]"

lemma head_bytes:
  assumes "list_all2 code_range [FB, FB, FH, FL] [v, t, n, x]"
    "int (length (struct_bytes [FB, FB, FH, FL] [v, t, n, x] @ rest)) = n"
  shows "head_ok v t (struct_bytes [FB, FB, FH, FL] [v, t, n, x] @ rest)"
proof -
  have "take 4 (struct_bytes [FB, FB, FH, FL] [v, t, n, x]) = struct_bytes [FB, FB, FH] [v, t, n]"
    by (simp add: struct_bytes.simps)
  with assms struct_bytes_length [OF assms(1)] show ?thesis by (simp add: head_ok_def)
qed

lemma head_of:
  assumes "ofp_header_pack valid n g m = Inr (p0, m1, g1)" "int (length (p0 @ rest)) = n"
  shows "head_ok (hdr_version m) (hdr_type m) (p0 @ rest)"
proof -
  from assms(1) obtain x where r: "list_all2 code_range [FB, FB, FH, FL] [hdr_version m, hdr_type m, n, x]"
    and p: "p0 = struct_bytes [FB, FB, FH, FL] [hdr_version m, hdr_type m, n, x]"
    by (auto simp: codec_dest dest!: ofp_header_xid_eq)
  show ?thesis unfolding p by (rule head_bytes [OF r assms(2) [unfolded p]])
qed

lemmas head_only = head_of [where rest = "[]", simplified]

lemma ofp_hello_head:
  assumes p: "ofp_hello_pack g m = Inr (bs, m', g')"
  shows "head_ok (hdr_version m) (hdr_type m) bs"
  using p ofp_hello_pack_length [OF p]
  by (auto simp: ofp_hello_pack_def ofp_hello_len_def elim!: rbindE intro!: head_only)

lemma ofp_error_head:
  assumes p: "ofp_error_pack g m = Inr (bs, m', g')"
  shows "head_ok (hdr_version m) (hdr_type m) bs"
  using p ofp_error_pack_length [OF p]
  by (auto simp: ofp_error_pack_def ofp_error_len_def elim!: rbindE intro!: head_of)

lemma ofp_echo_request_head:
  assumes p: "ofp_echo_request_pack g m = Inr (bs, m', g')"
  shows "head_ok (hdr_version m) (hdr_type m) bs"
  using p ofp_echo_request_pack_length [OF p]
  by (auto simp: ofp_echo_request_pack_def ofp_echo_request_len_def elim!: rbindE intro!: head_of)

lemma ofp_echo_reply_head:
  assumes p: "ofp_echo_reply_pack g m = Inr (bs, m', g')"
  shows "head_ok (hdr_version m) (hdr_type m) bs"
  using p ofp_echo_reply_pack_length [OF p]
  by (auto simp: ofp_echo_reply_pack_def ofp_echo_reply_len_def elim!: rbindE intro!: head_of)

lemma ofp_vendor_generic_head:
  assumes p: "ofp_vendor_generic_pack g m = Inr (bs, m', g')"
  shows "head_ok (hdr_version m) (hdr_type m) bs"
  using p ofp_vendor_generic_pack_length [OF p]
  by (auto simp: ofp_vendor_generic_pack_def ofp_vendor_generic_len_def elim!: rbindE intro!: head_of)

lemma ofp_features_request_head:
  assumes p: "ofp_features_request_pack g m = Inr (bs, m', g')"
  shows "head_ok (hdr_version m) (hdr_type m) bs"
  using p ofp_features_request_pack_length [OF p]
  by (auto simp: ofp_features_request_pack_def ofp_features_request_len_def elim!: rbindE intro!: head_only)

lemma ofp_features_reply_head:
  assumes p: "ofp_features_reply_pack g m = Inr (bs, m', g')" and wf: "list_all phy_port_wf (fr_ports m)"
  shows "head_ok (hdr_version m) (hdr_type m) bs"
  using p ofp_features_reply_pack_length [OF p wf]
  by (auto simp: ofp_features_reply_pack_def ofp_features_reply_len_def elim!: rbindE intro!: head_of)

lemma ofp_get_config_request_head:
  assumes p: "ofp_get_config_request_pack g m = Inr (bs, m', g')"
  shows "head_ok (hdr_version m) (hdr_type m) bs"
  using p ofp_get_config_request_pack_length [OF p]
  by (auto simp: ofp_get_config_request_pack_def ofp_get_config_request_len_def elim!: rbindE intro!: head_only)

lemma ofp_get_config_reply_head:
  assumes p: "ofp_get_config_reply_pack g m = Inr (bs, m', g')"
  shows "head_ok (hdr_version m) (hdr_type m) bs"
  using p ofp_get_config_reply_pack_length [OF p]
  by (auto simp: ofp_get_config_reply_pack_def ofp_get_config_reply_len_def elim!: rbindE intro!: head_of)

lemma ofp_set_config_head:
  assumes p: "ofp_set_config_pack g m = Inr (bs, m', g')"
  shows "head_ok (hdr_version m) (hdr_type m) bs"
  using p ofp_set_config_pack_length [OF p]
  by (auto simp: ofp_set_config_pack_def ofp_set_config_len_def elim!: rbindE intro!: head_of)

lemma ofp_packet_in_head:
  assumes p: "ofp_packet_in_pack g m = Inr (bs, m', g')"
  shows "head_ok (hdr_version m) (hdr_type m) bs"
  using p ofp_packet_in_pack_length [OF p]
  by (auto simp: ofp_packet_in_pack_def ofp_packet_in_len_def elim!: rbindE intro!: head_of)

lemma ofp_flow_removed_head:
  assumes p: "ofp_flow_removed_pack g m = Inr (bs, m', g')" and wf: "match_wf (frm_match m)"
  shows "head_ok (hdr_version m) (hdr_type m) bs"
  using p ofp_flow_removed_pack_length [OF p wf]
  by (auto simp: ofp_flow_removed_pack_def ofp_flow_removed_len_def ofp_match_len_def elim!: rbindE intro!: head_of)

lemma ofp_port_status_head:
  assumes p: "ofp_port_status_pack g m = Inr (bs, m', g')" and wf: "phy_port_wf (ps_desc m)"
  shows "head_ok (hdr_version m) (hdr_type m) bs"
  using p ofp_port_status_pack_length [OF p wf]
  by (auto simp: ofp_port_status_pack_def ofp_port_status_len_def elim!: rbindE intro!: head_of)

lemma ofp_port_mod_head:
  assumes p: "ofp_port_mod_pack g m = Inr (bs, m', g')" and wf: "eth_wf (pm_hw_addr m)"
  shows "head_ok (hdr_version m) (hdr_type m) bs"
  using p ofp_port_mod_pack_length [OF p wf]
  by (auto simp: ofp_port_mod_pack_def ofp_port_mod_len_def elim!: rbindE intro!: head_of)

lemma ofp_barrier_request_head:
  assumes p: "ofp_barrier_request_pack g m = Inr (bs, m', g')"
  shows "head_ok (hdr_version m) (hdr_type m) bs"
  using p ofp_barrier_request_pack_length [OF p]
  by (auto simp: ofp_barrier_request_pack_def ofp_barrier_request_len_def elim!: rbindE intro!: head_only)

lemma ofp_barrier_reply_head:
  assumes p: "ofp_barrier_reply_pack g m = Inr (bs, m', g')"
  shows "head_ok (hdr_version m) (hdr_type m) bs"
  using p ofp_barrier_reply_pack_length [OF p]
  by (auto simp: ofp_barrier_reply_pack_def ofp_barrier_reply_len_def elim!: rbindE intro!: head_only)

lemma ofp_queue_get_config_request_head:
  assumes p: "ofp_queue_get_config_request_pack g m = Inr (bs, m', g')"
  shows "head_ok (hdr_version m) (hdr_type m) bs"
  using p ofp_queue_get_config_request_pack_length [OF p]
  by (auto simp: ofp_queue_get_config_request_pack_def ofp_queue_get_config_request_len_def elim!: rbindE intro!: head_of)

lemma ofp_packet_out_head:
  assumes p: "ofp_packet_out_pack g m = Inr (bs, m', g')" and wf: "packet_out_wf m"
  shows "head_ok (hdr_version m) (hdr_type m) bs"
  using ofp_packet_out_pack_Inr [OF p wf] ofp_packet_out_pack_length [OF p wf]
  by (elim exE conjE) (simp only:, rule head_bytes)

lemma ofp_flow_mod_head:
  assumes p: "ofp_flow_mod_pack g m = Inr (bs, m', g')" and wf: "flow_mod_wf m \<and> fm_data m = None"
  shows "head_ok (hdr_version m) (hdr_type m) bs"
proof -
  have q: "flow_mod_data m = Inr (fm_buffer_id m, None, m)" "int (length bs) = ofp_flow_mod_len m'"
    using ofp_flow_mod_plain [OF p] wf by auto
  from ofp_flow_mod_pack_Inr [OF p] obtain x as xs rest where
    a: "pack_list action_pack (fm_actions m) = Inr (as, xs)" "m' = m\<lparr>fm_actions := xs, hdr_xid := Some x\<rparr>"
    and r: "list_all2 code_range [FB, FB, FH, FL] [hdr_version m, hdr_type m, ofp_flow_mod_len m, x]"
    and bs: "bs = struct_bytes [FB, FB, FH, FL] [hdr_version m, hdr_type m, ofp_flow_mod_len m, x] @ rest"
    by (auto simp: q)
  have "ofp_flow_mod_len m' = ofp_flow_mod_len m"
    using actions_len_pack [OF a(1)] by (simp add: a(2) ofp_flow_mod_len_def)
  with head_bytes [OF r, of rest] q bs show ?thesis by simp
qed

lemma ofp_stats_request_head:
  assumes p: "ofp_stats_request_pack g m = Inr (bs, m', g')" and wf: "stats_request_wf m"
  shows "head_ok (hdr_version m) (hdr_type m) bs"
proof -
  from ofp_stats_request_pack_Inr [OF p wf] obtain t b x where
    r: "list_all2 code_range [FB, FB, FH, FL] [hdr_version m, hdr_type m, 12 + int (length b), x]"
      "list_all2 code_range [FH, FH] [t, sr_flags m]"
    and bs: "bs = struct_bytes [FB, FB, FH, FL] [hdr_version m, hdr_type m, 12 + int (length b), x] @
      struct_bytes [FH, FH] [t, sr_flags m] @ b"
    by blast
  show ?thesis
    unfolding bs by (rule head_bytes [OF r(1)])
      (use struct_bytes_length [OF r(1)] struct_bytes_length [OF r(2)] in simp)
qed

lemma ofp_stats_reply_head:
  assumes p: "ofp_stats_reply_pack g m = Inr (bs, m', g')" and wf: "stats_reply_wf m"
  shows "head_ok (hdr_version m) (hdr_type m) bs"
proof -
  from ofp_stats_reply_pack_Inr [OF p wf] obtain t d b n x where
    t: "reply_type m = Some t" and d: "rep_body_pack (sp_body m) = Inr (d, b)"
    and n: "ofp_stats_reply_len m = Inr n"
    and r: "list_all2 code_range [FB, FB, FH, FL] [hdr_version m, hdr_type m, n, x]"
      "list_all2 code_range [FH, FH] [t, sp_flags m]"
    and bs: "bs = struct_bytes [FB, FB, FH, FL] [hdr_version m, hdr_type m, n, x] @
      struct_bytes [FH, FH] [t, sp_flags m] @ d"
    by blast
  show ?thesis
    unfolding bs by (rule head_bytes [OF r(1)])
      (use struct_bytes_length [OF r(1)] struct_bytes_length [OF r(2)] rep_body_unpack_pack(2) [OF wf d t] n in simp)
qed

lemma ofp_queue_get_config_reply_head:
  assumes p: "ofp_queue_get_config_reply_pack g m = Inr (bs, m', g')"
    and wf: "list_all packet_queue_wf (qp_queues m)"
  shows "head_ok (hdr_version m) (hdr_type m) bs"
proof -
  from p obtain n x b qs where n: "ofp_queue_get_config_reply_len m = Inr n"
    and q: "pack_list ofp_packet_queue_pack (qp_queues m) = Inr (b, qs)"
    and r: "list_all2 code_range [FB, FB, FH, FL] [hdr_version m, hdr_type m, n, x]"
      "list_all2 code_range [FH] [qp_port m]"
    and bs: "bs = struct_bytes [FB, FB, FH, FL] [hdr_version m, hdr_type m, n, x] @
      struct_bytes [FH] [qp_port m] @ pad 6 @ b"
    by (clarsimp simp: ofp_queue_get_config_reply_pack_def codec_dest elim!: rbindE
        dest!: ofp_header_xid_eq split: if_splits)
  show ?thesis
    unfolding bs by (rule head_bytes [OF r(1)])
      (use struct_bytes_length [OF r(1)] struct_bytes_length [OF r(2)] unpack_queues_pack [OF q wf chunk_whole] n
        in \<open>auto simp: ofp_queue_get_config_reply_len_def\<close>)
qed

fun message_version :: "ofp_message \<Rightarrow> int" where
  "message_version (MHello m) = hdr_version m"
| "message_version (MError m) = hdr_version m"
| "message_version (MEchoRequest m) = hdr_version m"
| "message_version (MEchoReply m) = hdr_version m"
| "message_version (MVendor m) = hdr_version m"
| "message_version (MFeaturesRequest m) = hdr_version m"
| "message_version (MFeaturesReply m) = hdr_version m"
| "message_version (MGetConfigRequest m) = hdr_version m"
| "message_version (MGetConfigReply m) = hdr_version m"
| "message_version (MSetConfig m) = hdr_version m"
| "message_version (MPacketIn m) = hdr_version m"
| "message_version (MFlowRemoved m) = hdr_version m"
| "message_version (MPortStatus m) = hdr_version m"
| "message_version (MPacketOut m) = hdr_version m"
| "message_version (MFlowMod m) = hdr_version m"
| "message_version (MPortMod m) = hdr_version m"
| "message_version (MStatsRequest m) = hdr_version m"
| "message_version (MStatsReply m) = hdr_version m"
| "message_version (MBarrierRequest m) = hdr_version m"
| "message_version (MBarrierReply m) = hdr_version m"
| "message_version (MQueueConfigRequest m) = hdr_version m"
| "message_version (MQueueConfigReply m) = hdr_version m"

lemmas message_heads =
  ofp_hello_head
  ofp_error_head
  ofp_echo_request_head
  ofp_echo_reply_head
  ofp_vendor_generic_head
  ofp_features_request_head
  ofp_features_reply_head
  ofp_get_config_request_head
  ofp_get_config_reply_head
  ofp_set_config_head
  ofp_packet_in_head
  ofp_flow_removed_head
  ofp_port_status_head
  ofp_packet_out_head
  ofp_flow_mod_head
  ofp_port_mod_head
  ofp_stats_request_head
  ofp_stats_reply_head
  ofp_barrier_request_head
  ofp_barrier_reply_head
  ofp_queue_get_config_request_head
  ofp_queue_get_config_reply_head

lemmas message_news =
  ofp_hello_new
  ofp_error_new
  ofp_echo_request_new
  ofp_echo_reply_new
  ofp_vendor_generic_new
  ofp_features_request_new
  ofp_features_reply_new
  ofp_get_config_request_new
  ofp_get_config_reply_new
  ofp_set_config_new
  ofp_packet_in_new
  ofp_flow_removed_new
  ofp_port_status_new
  ofp_packet_out_new
  ofp_flow_mod_new
  ofp_port_mod_new
  ofp_stats_request_new
  ofp_stats_reply_new
  ofp_barrier_request_new
  ofp_barrier_reply_new
  ofp_queue_get_config_request_new
  ofp_queue_get_config_reply_new

lemma message_pack_head:
  "message_pack g m = Inr (bs, m', g') \<Longrightarrow> message_wf m \<Longrightarrow> head_ok (message_version m) (message_type m) bs"
  by (cases m) (auto elim!: rbindE dest: message_heads)

lemma message_type_range: "message_wf m \<Longrightarrow> 0 \<le> message_type m \<and> message_type m < 22"
  by (cases m) auto

lemma message_unpack_pack:
  assumes "message_pack g m = Inr (bs, m', g')" "message_wf m" "chunk raw off bs"
  shows "(make_type_to_unpacker_table ! nat (message_type m)) raw off =
    Inr (off + int (length bs), message_received m')"
  using assms unfolding make_type_to_unpacker_table_def
  by (cases m) (auto elim!: rbindE simp: message_news)

section \<open>Properties\<close>

text \<open>
  C2. Whatever well-formed message of any of the twenty-two classes is packed, the unpacker that the
  table holds for its type byte reads it back from any place in any buffer, consumes exactly
  its bytes, and returns the object that \<^verbatim>\<open>pack\<close> left behind, its matches as they survive the wire.
\<close>

theorem message_roundtrip:
  assumes "message_wf m" "message_pack g m = Inr (bs, m', g')"
  shows "(make_type_to_unpacker_table ! nat (message_type m)) (pre @ bs @ post) (int (length pre)) =
    Inr (int (length pre) + int (length bs), message_received m')"
  by (rule message_unpack_pack [OF assms(2,1) chunk_middle])

definition sample_flow_mod :: ofp_flow_mod where
  "sample_flow_mod = ofp_flow_mod_init\<lparr>fm_match := sample_match, fm_priority := 1000, fm_idle_timeout := 60,
     fm_actions := sample_actions\<rparr>"

definition sample_flow_mod_bytes :: bytes where
  "sample_flow_mod_bytes =
     [1, 14, 0, 104, 0, 0, 0, 1, 0, 50, 32, 79, 0, 0, 0, 0, 0, 0, 0, 0, 0, 0, 0, 0, 0, 0, 0, 0, 0, 0,
      8, 0, 0, 6, 0, 0, 0, 0, 0, 0, 10, 1, 2, 0, 0, 0, 0, 80,
      0, 0, 0, 0, 0, 0, 0, 0, 0, 0, 0, 60, 0, 0, 3, 232, 255, 255, 255, 255, 255, 255, 0, 0,
      0, 5, 0, 16, 2, 0, 0, 0, 0, 7, 0, 0, 0, 0, 0, 0, 0, 6, 0, 8, 10, 0, 0, 1, 0, 0, 0, 8, 0, 3, 0, 0]"

lemma sample_flow_mod_pack:
  "\<exists>m'. message_pack xid_generator (MFlowMod sample_flow_mod) =
     Inr (sample_flow_mod_bytes, MFlowMod m', \<lparr>xg_i = 2, xg_start = 1, xg_stop = 2147483647\<rparr>) \<and>
     fm_priority m' = 1000 \<and> fm_command m' = OFPFC_ADD"
  apply (rule exI [of _ "sample_flow_mod\<lparr>hdr_xid := Some 1, fm_actions :=
     [ADlAddr (ofp_action_dl_addr_set_dst (EthAddr [2, 0, 0, 0, 0, 7])),
      ANwAddr (ofp_action_nw_addr_set_src (IPAddr 16777226)),
      AOutput (ofp_action_output_init\<lparr>ao_port := Some 3, ao_max_len := 0\<rparr>)]\<rparr>"])
  apply code_simp
  done

theorem message_roundtrip_witness:
  "\<exists>m'. (make_type_to_unpacker_table ! 14) (sample_flow_mod_bytes @ [1, 0]) 0 = Inr (104, MFlowMod m') \<and>
     fm_priority m' = 1000"
proof -
  obtain m' where p: "message_pack xid_generator (MFlowMod sample_flow_mod) =
     Inr (sample_flow_mod_bytes, MFlowMod m', \<lparr>xg_i = 2, xg_start = 1, xg_stop = 2147483647\<rparr>)"
    "fm_priority m' = 1000"
    using sample_flow_mod_pack by blast
  have wf: "message_wf (MFlowMod sample_flow_mod)" by code_simp
  have t: "hdr_type sample_flow_mod = 14" and l: "length sample_flow_mod_bytes = 104"
    by code_simp+
  show ?thesis
    using message_roundtrip [OF wf p(1), of "[]" "[1, 0]"] p(2) by (simp add: t l)
qed

lemma ofp_flow_mod_core:
  assumes "ofp_flow_mod_pack g m = Inr (bs, m', g')" "flow_mod_wf m" "flow_mod_data m = Inr (b, Some p, m1)"
  shows "\<exists>b1 r1 q1 g1 g2 r2 q2. bs = b1 @ r1 @ r2 \<and> int (length b1) = ofp_flow_mod_len m' \<and>
    fm_priority m' = fm_priority m \<and> hdr_type m' = hdr_type m \<and>
    ofp_barrier_request_pack g1 ofp_barrier_request_init = Inr (r1, q1, g2) \<and>
    ofp_packet_out_pack g2 p = Inr (r2, q2, g')"
proof -
  from ofp_flow_mod_pack_Inr [OF assms(1)] obtain x ms as xs g1 r1 q1 g2 r2 q2 where
    m: "ofp_match_pack True (fm_match m) = Inr ms" and a: "pack_list action_pack (fm_actions m) = Inr (as, xs)"
    and m': "m' = m1\<lparr>fm_actions := xs, hdr_xid := Some x\<rparr>"
    and r: "list_all2 code_range [FB, FB, FH, FL] [hdr_version m, hdr_type m, ofp_flow_mod_len m, x]"
      "list_all2 code_range [FQ, FH, FH, FH, FH, FL, FH, FH]
        [fm_cookie m, fm_command m, fm_idle_timeout m, fm_hard_timeout m, fm_priority m,
         b, fm_out_port m, fm_flags m]"
    and bs: "bs = (struct_bytes [FB, FB, FH, FL] [hdr_version m, hdr_type m, ofp_flow_mod_len m, x] @ ms @
      struct_bytes [FQ, FH, FH, FH, FH, FL, FH, FH]
        [fm_cookie m, fm_command m, fm_idle_timeout m, fm_hard_timeout m, fm_priority m,
         b, fm_out_port m, fm_flags m] @ as) @ r1 @ r2"
    and p: "ofp_barrier_request_pack g1 ofp_barrier_request_init = Inr (r1, q1, g2)"
      "ofp_packet_out_pack g2 p = Inr (r2, q2, g')"
    using assms(3) by (auto simp del: append_assoc)
  obtain k where "m1 = m\<lparr>fm_buffer_id := k\<rparr>" using flow_mod_data_kept [OF assms(3)] by blast
  moreover have "length ms = 40" "int (length as) = actions_len xs"
    using ofp_match_pack_length [OF m] actions_pack_length [OF a] assms(2) by (simp_all add: flow_mod_wf_def)
  ultimately show ?thesis
    using p m' struct_bytes_length [OF r(1)] struct_bytes_length [OF r(2)]
    by (intro exI conjI) (rule bs, simp_all add: ofp_flow_mod_len_def ofp_match_len_def)
qed

text \<open>
  A flow-mod given an unbuffered, complete packet-in as its data packs to three messages that read
  back one after the other: the flow-mod without a buffer, a barrier, and a packet-out carrying
  the packet, its port and a single action that sends it through the table.
\<close>

theorem flow_mod_data_burst:
  assumes "flow_mod_wf m" "hdr_type m = 14" "fm_data m = Some d" "pi_buffer_id d = NO_BUFFER"
    "int (length (pi_data d)) = ofp_packet_in_total_len d" "ofp_flow_mod_pack g m = Inr (bs, m', g')"
  shows "\<exists>n k fm br po.
    (make_type_to_unpacker_table ! 14) bs 0 = Inr (n, MFlowMod fm) \<and>
    (make_type_to_unpacker_table ! 18) bs n = Inr (n + k, MBarrierRequest br) \<and>
    (make_type_to_unpacker_table ! 13) bs (n + k) = Inr (int (length bs), MPacketOut po) \<and>
    fm_buffer_id fm = NO_BUFFER \<and> fm_priority fm = fm_priority m \<and>
    po_data po = pi_data d \<and> po_in_port po = pi_in_port d \<and>
    po_actions po = [AOutput (ofp_action_output_init\<lparr>ao_port := Some OFPP_TABLE, ao_max_len := 0\<rparr>)]"
proof -
  define po where "po = ofp_packet_out_init\<lparr>po_data := pi_data d, po_in_port := pi_in_port d,
    po_actions := [AOutput (ofp_action_output_init\<lparr>ao_port := Some OFPP_TABLE\<rparr>)]\<rparr>"
  have d: "flow_mod_data m = Inr (NO_BUFFER, Some po, m\<lparr>fm_buffer_id := NO_BUFFER\<rparr>)"
    using assms(3-5)
    by (simp add: flow_mod_data_def ofp_packet_in_is_complete_def buffer_id_get_def buffer_id_set_def Let_def
        ofp_packet_out_set_data_def po_def ofp_packet_out_init_def)
  from ofp_flow_mod_core [OF assms(6,1) d] obtain b1 r1 q1 g1 g2 r2 q2 where
    b: "bs = b1 @ r1 @ r2" and b1: "int (length b1) = ofp_flow_mod_len m'"
    and m': "fm_priority m' = fm_priority m"
    and p1: "ofp_barrier_request_pack g1 ofp_barrier_request_init = Inr (r1, q1, g2)"
    and p2: "ofp_packet_out_pack g2 po = Inr (r2, q2, g')"
    by blast
  have c: "chunk bs (int (length b1)) r1" "chunk bs (int (length b1) + int (length r1)) r2"
    using chunk_middle [of b1 r1 r2] chunk_middle [of "b1 @ r1" r2 "[]"] by (simp_all add: b)
  have wf: "packet_out_wf po" by (simp add: packet_out_wf_def po_def ofp_action_output_init_def)
  have "(make_type_to_unpacker_table ! 14) bs 0 = Inr (int (length b1), MFlowMod (flow_mod_received NO_BUFFER m'))"
    using ofp_flow_mod_unpack_pack [OF assms(6,1) chunk_whole] d b1
    by (simp add: make_type_to_unpacker_table_def msg_unpack_new_def unpack_new_def)
  moreover have "(make_type_to_unpacker_table ! 18) bs (int (length b1)) =
      Inr (int (length b1) + int (length r1), MBarrierRequest q1)"
    using ofp_barrier_request_new [OF p1 c(1)] by (simp add: make_type_to_unpacker_table_def)
  moreover have "(make_type_to_unpacker_table ! 13) bs (int (length b1) + int (length r1)) =
      Inr (int (length bs), MPacketOut q2)"
    using ofp_packet_out_new [OF p2 c(2) wf] by (simp add: make_type_to_unpacker_table_def b)
  moreover have "po_data q2 = pi_data d \<and> po_in_port q2 = pi_in_port d \<and>
      po_actions q2 = [AOutput (ofp_action_output_init\<lparr>ao_port := Some OFPP_TABLE, ao_max_len := 0\<rparr>)]"
    using ofp_packet_out_pack_Inr [OF p2 wf]
    by (auto simp: po_def ofp_action_output_pack_def Let_def OFPP_TABLE_def OFPP_CONTROLLER_def codec_dest elim!: rbindE)
  moreover have "fm_buffer_id (flow_mod_received NO_BUFFER m') = NO_BUFFER"
    "fm_priority (flow_mod_received NO_BUFFER m') = fm_priority m"
    by (simp_all add: flow_mod_received_def m')
  ultimately show ?thesis by blast
qed

definition sample_packet_in :: ofp_packet_in where
  "sample_packet_in = ofp_packet_in_init\<lparr>pi_in_port := 2, pi_data := [1, 2, 3]\<rparr>"

theorem flow_mod_data_burst_witness:
  "\<exists>bs m' g' n k fm br po.
    ofp_flow_mod_pack xid_generator (ofp_flow_mod_init\<lparr>fm_data := Some sample_packet_in\<rparr>) = Inr (bs, m', g') \<and>
    (make_type_to_unpacker_table ! 14) bs 0 = Inr (n, MFlowMod fm) \<and>
    (make_type_to_unpacker_table ! 18) bs n = Inr (n + k, MBarrierRequest br) \<and>
    (make_type_to_unpacker_table ! 13) bs (n + k) = Inr (int (length bs), MPacketOut po) \<and>
    po_data po = [1, 2, 3] \<and> po_in_port po = 2"
proof -
  let ?m = "ofp_flow_mod_init\<lparr>fm_data := Some sample_packet_in\<rparr>"
  have "\<not> isl (ofp_flow_mod_pack xid_generator ?m)" by code_simp
  then obtain bs m' g' where p: "ofp_flow_mod_pack xid_generator ?m = Inr (bs, m', g')"
    by (cases "ofp_flow_mod_pack xid_generator ?m") auto
  have "flow_mod_wf ?m" "hdr_type ?m = 14" "fm_data ?m = Some sample_packet_in"
    "pi_buffer_id sample_packet_in = NO_BUFFER"
    "int (length (pi_data sample_packet_in)) = ofp_packet_in_total_len sample_packet_in"
    "pi_data sample_packet_in = [1, 2, 3]" "pi_in_port sample_packet_in = 2"
    by code_simp+
  with flow_mod_data_burst [OF _ _ _ _ _ p] p show ?thesis by metis
qed

lemma stats_request_pack_state:
  assumes "ofp_stats_request_pack g m = Inr (bs, m', g')"
  shows "\<exists>t b x. sr_type m' = Some t \<and> sr_body_packed m' = Some b \<and> hdr_xid m' = Some x \<and>
    ofp_header_validate m' \<and> hdr_version m' = hdr_version m \<and> hdr_type m' = hdr_type m \<and>
    list_all2 code_range [FB, FB, FH, FL] [hdr_version m', hdr_type m', 12 + int (length b), x] \<and>
    list_all2 code_range [FH, FH] [t, sr_flags m'] \<and>
    bs = struct_bytes [FB, FB, FH, FL] [hdr_version m', hdr_type m', 12 + int (length b), x] @
      struct_bytes [FH, FH] [t, sr_flags m'] @ b"
  using assms
  by (auto simp: ofp_stats_request_pack_def ofp_stats_request_len_def ofp_stats_request_pack_body_def
      ofp_header_validate_def codec_dest elim!: rbindE dest!: ofp_header_xid_eq split: option.splits if_splits)

text \<open>
  The body setter of a statistics request does not reset the cache that \<^verbatim>\<open>pack\<close> uses: after one
  \<^verbatim>\<open>pack\<close>, a request given another body of the same type number packs to exactly the same bytes,
  the old body included.
\<close>

theorem stats_request_stale_body:
  assumes "ofp_stats_request_pack g m = Inr (bs, m', g')"
  shows "\<exists>m''. ofp_stats_request_pack g' (ofp_stats_request_set_body b m') = Inr (bs, m'', g')"
proof -
  from stats_request_pack_state [OF assms] obtain t body x where
    "sr_type m' = Some t" "sr_body_packed m' = Some body" "hdr_xid m' = Some x" "ofp_header_validate m'"
    "list_all2 code_range [FB, FB, FH, FL] [hdr_version m', hdr_type m', 12 + int (length body), x]"
    "list_all2 code_range [FH, FH] [t, sr_flags m']"
    "bs = struct_bytes [FB, FB, FH, FL] [hdr_version m', hdr_type m', 12 + int (length body), x] @
      struct_bytes [FH, FH] [t, sr_flags m'] @ body"
    by blast
  then show ?thesis
    by (simp add: ofp_stats_request_pack_def ofp_stats_request_set_body_def ofp_stats_request_len_def
        ofp_stats_request_pack_body_def ofp_header_validate_def ofp_header_pack_def ofp_header_xid_def need_def
        struct_pack_def)
qed

text \<open>A port request that was packed, then given the body of another port.\<close>

theorem stats_request_stale_body_witness:
  "\<exists>bs m' g' m''.
    ofp_stats_request_pack xid_generator
      (ofp_stats_request_init\<lparr>sr_body := RPort (ofp_port_stats_request_init\<lparr>psr_port_no := 1\<rparr>)\<rparr>) = Inr (bs, m', g') \<and>
    ofp_stats_request_pack g'
      (ofp_stats_request_set_body (RPort (ofp_port_stats_request_init\<lparr>psr_port_no := 2\<rparr>)) m') = Inr (bs, m'', g')"
proof -
  let ?m = "ofp_stats_request_init\<lparr>sr_body := RPort (ofp_port_stats_request_init\<lparr>psr_port_no := 1\<rparr>)\<rparr>"
  have "\<not> isl (ofp_stats_request_pack xid_generator ?m)" by code_simp
  then obtain bs m' g' where "ofp_stats_request_pack xid_generator ?m = Inr (bs, m', g')"
    by (cases "ofp_stats_request_pack xid_generator ?m") auto
  with stats_request_stale_body [OF this] show ?thesis by blast
qed

end
