(* ===== verification/Tcp_Options.thy ===== *)
theory Tcp_Options
  imports OF_Base
begin

text \<open>
  The TCP options of \<^verbatim>\<open>pox/lib/packet/tcp.py\<close>: \<^verbatim>\<open>tcp_opt\<close>, the multipath options below \<^verbatim>\<open>mptcp_opt\<close>, and the
  loop of \<^verbatim>\<open>tcp.parse_options\<close>. Attributes that start as None are options; packing one that is still None
  raises what Python raises there.
\<close>

section \<open>Option objects\<close>

datatype opt_val = VNone | VInt int | VPair int int | VPairs "(int \<times> int) list" | VBytes bytes

record tcp_opt =
  to_type :: int
  to_val :: opt_val

record mp_capable_opt =
  mc_type :: int
  mc_subtype :: int
  mc_version :: int
  mc_flags :: int
  mc_skey :: "bytes option"
  mc_rkey :: "bytes option"

record mp_join_opt =
  mj_type :: int
  mj_subtype :: int
  mj_flags :: int
  mj_address_id :: "int option"
  mj_rtoken :: "bytes option"
  mj_srand :: "bytes option"
  mj_shmac :: "bytes option"
  mj_phase :: "int option"

record mp_dss_opt =
  md_type :: int
  md_subtype :: int
  md_flags :: int
  md_ack :: "int option"
  md_dsn :: "int option"
  md_seq :: "int option"
  md_length :: "int option"
  md_csum :: "int option"

record mp_unknown =
  mu_type :: int
  mu_data :: bytes

datatype any_opt =
    OTcp tcp_opt
  | OCapable mp_capable_opt
  | OJoin mp_join_opt
  | ODss mp_dss_opt
  | OUnknown mp_unknown

definition mp_capable_opt_init :: mp_capable_opt where
  "mp_capable_opt_init = \<lparr>mc_type = 30, mc_subtype = 0, mc_version = 0, mc_flags = 0, mc_skey = None, mc_rkey = None\<rparr>"

definition mp_join_opt_init :: mp_join_opt where
  "mp_join_opt_init = \<lparr>mj_type = 30, mj_subtype = 1, mj_flags = 0, mj_address_id = None, mj_rtoken = None,
     mj_srand = None, mj_shmac = None, mj_phase = None\<rparr>"

text \<open>The constructor does not set \<^verbatim>\<open>flags\<close>; the objects here come from \<^verbatim>\<open>unpack_new\<close>, which does.\<close>

definition mp_dss_opt_init :: "int \<Rightarrow> mp_dss_opt" where
  "mp_dss_opt_init flags = \<lparr>md_type = 30, md_subtype = 2, md_flags = flags, md_ack = None, md_dsn = None,
     md_seq = None, md_length = None, md_csum = None\<rparr>"

section \<open>Reading\<close>

text \<open>\<^verbatim>\<open>ord(buf[i])\<close> at an offset that is not negative.\<close>

definition py_ord :: "bytes \<Rightarrow> int \<Rightarrow> int res" where
  "py_ord buf i = (if 0 \<le> i \<and> i < int (length buf) then Inr (uint (buf ! nat i)) else Inl IndexError)"

definition mp_capable_unpack_new :: "bytes \<Rightarrow> int \<Rightarrow> (int \<times> any_opt) res" where
  "mp_capable_unpack_new buf offset =
     rbind (struct_unpack_from [FB, FB, FB, FB] buf offset) (\<lambda>vs. tup4 vs (\<lambda>t len subver flags.
       let o1 = mp_capable_opt_init\<lparr>mc_type := t, mc_flags := flags,
             mc_subtype := drop_bit 4 (subver AND 240), mc_version := subver AND 15\<rparr> in
       if len \<noteq> 12 \<and> len \<noteq> 20 then Inl RuntimeError
       else let offset = offset + 4;
                o1 = o1\<lparr>mc_skey := Some (py_slice buf offset (offset + 8))\<rparr>;
                offset = offset + 8
            in if len = 20
               then Inr (offset + 8, OCapable (o1\<lparr>mc_rkey := Some (py_slice buf offset (offset + 8))\<rparr>))
               else Inr (offset, OCapable o1)))"

definition mp_join_unpack_new :: "bytes \<Rightarrow> int \<Rightarrow> (int \<times> any_opt) res" where
  "mp_join_unpack_new buf offset =
     rbind (struct_unpack_from [FB, FB, FB, FB] buf offset) (\<lambda>vs. tup4 vs (\<lambda>t len subflag address_id.
       let o1 = mp_join_opt_init\<lparr>mj_type := t, mj_address_id := Some address_id,
             mj_subtype := drop_bit 4 (subflag AND 240), mj_flags := subflag AND 15\<rparr>;
           offset = offset + 4 in
       if len = 12 then
         Inr (offset + 8, OJoin (o1\<lparr>mj_phase := Some 1, mj_rtoken := Some (py_slice buf offset (offset + 4)),
           mj_srand := Some (py_slice buf (offset + 4) (offset + 8))\<rparr>))
       else if len = 16 then
         Inr (offset + 12, OJoin (o1\<lparr>mj_phase := Some 2, mj_shmac := Some (py_slice buf offset (offset + 8)),
           mj_srand := Some (py_slice buf (offset + 8) (offset + 12))\<rparr>))
       else if len = 24 then
         Inr (offset + 20, OJoin (o1\<lparr>mj_phase := Some 3, mj_shmac := Some (py_slice buf offset (offset + 20))\<rparr>))
       else Inl RuntimeError))"

definition dss_has_ack :: "int \<Rightarrow> bool" where "dss_has_ack flags \<longleftrightarrow> flags AND 1 \<noteq> 0"
definition dss_has_dsn :: "int \<Rightarrow> bool" where "dss_has_dsn flags \<longleftrightarrow> flags AND 4 \<noteq> 0"

definition dss_ack_length :: "int \<Rightarrow> int" where
  "dss_ack_length flags = (if \<not> dss_has_ack flags then 0 else if flags AND 2 \<noteq> 0 then 8 else 4)"

definition dss_dsn_length :: "int \<Rightarrow> int" where
  "dss_dsn_length flags = (if \<not> dss_has_dsn flags then 0 else if flags AND 8 \<noteq> 0 then 8 else 4)"

definition dss_good_len :: "int \<Rightarrow> int" where
  "dss_good_len flags =
     4 + dss_ack_length flags + dss_dsn_length flags + (if dss_has_dsn flags then 4 + 2 + 2 else 0)"

definition dss_read_ack :: "bytes \<Rightarrow> int \<Rightarrow> mp_dss_opt \<Rightarrow> (int \<times> mp_dss_opt) res" where
  "dss_read_ack buf off o1 =
     (let n = dss_ack_length (md_flags o1) in
      if dss_has_ack (md_flags o1)
      then rbind (struct_unpack_from (if n = 4 then [FL] else [FQ]) buf off) (\<lambda>vs.
           tup1 vs (\<lambda>a. Inr (off + n, o1\<lparr>md_ack := Some a\<rparr>)))
      else Inr (off, o1))"

text \<open>After the data sequence number the code advances by the length of the acknowledgement.\<close>

definition dss_read_dsn :: "bytes \<Rightarrow> int \<Rightarrow> mp_dss_opt \<Rightarrow> (int \<times> mp_dss_opt) res" where
  "dss_read_dsn buf off o1 =
     (if dss_has_dsn (md_flags o1)
      then rbind (struct_unpack_from (if dss_dsn_length (md_flags o1) = 4 then [FL] else [FQ]) buf off) (\<lambda>vs.
           tup1 vs (\<lambda>d.
           let off = off + dss_ack_length (md_flags o1) in
           rbind (struct_unpack_from [FL, FH, FH] buf off) (\<lambda>vs. tup3 vs (\<lambda>seq len csum.
             Inr (off + 8, o1\<lparr>md_dsn := Some d, md_seq := Some seq, md_length := Some len, md_csum := Some csum\<rparr>)))))
      else Inr (off, o1))"

definition mp_dss_unpack_new :: "bytes \<Rightarrow> int \<Rightarrow> (int \<times> any_opt) res" where
  "mp_dss_unpack_new buf offset =
     rbind (struct_unpack_from [FB, FB, FB, FB] buf offset) (\<lambda>vs. tup4 vs (\<lambda>t len subver flags.
       let o1 = (mp_dss_opt_init flags)\<lparr>md_type := t, md_subtype := drop_bit 4 (subver AND 240)\<rparr> in
       if md_subtype o1 \<noteq> 2 then Inl AssertionError
       else if len \<noteq> dss_good_len flags then Inl RuntimeError
       else rbind (dss_read_ack buf (offset + 4) o1) (\<lambda>(off, o1).
            rbind (dss_read_dsn buf off o1) (\<lambda>(off, o1). Inr (off, ODss o1)))))"

text \<open>Reading the subtype there names an unbound variable; the exception is caught and nothing is stored.\<close>

definition mp_unknown_unpack_new :: "bytes \<Rightarrow> int \<Rightarrow> (int \<times> any_opt) res" where
  "mp_unknown_unpack_new buf offset =
     rbind (py_ord buf offset) (\<lambda>t.
     rbind (py_ord buf (offset + 1)) (\<lambda>len.
       Inr (offset + len, OUnknown \<lparr>mu_type = t, mu_data = py_slice buf (offset + 2) (offset + 2 + len)\<rparr>)))"

definition mptcp_opt_unpack_new :: "bytes \<Rightarrow> int \<Rightarrow> (int \<times> any_opt) res" where
  "mptcp_opt_unpack_new buf offset =
     rbind (py_ord buf offset) (\<lambda>t.
       if t \<noteq> 30 then Inl AssertionError
       else rbind (py_ord buf (offset + 2)) (\<lambda>b.
         let st = drop_bit 4 (b AND 240) in
         if st = 0 then mp_capable_unpack_new buf offset
         else if st = 1 then mp_join_unpack_new buf offset
         else if st = 2 then mp_dss_unpack_new buf offset
         else mp_unknown_unpack_new buf offset))"

fun pairs_of :: "int list \<Rightarrow> (int \<times> int) list" where
  "pairs_of (x # y # r) = (x, y) # pairs_of r"
| "pairs_of _ = []"

definition tcp_opt_unpack_new :: "bytes \<Rightarrow> int \<Rightarrow> (int \<times> any_opt) res" where
  "tcp_opt_unpack_new buf offset =
     rbind (py_ord buf offset) (\<lambda>t.
     rbind (py_ord buf (offset + 1)) (\<lambda>len.
       let i = offset; done = (\<lambda>v. Inr (offset + len, OTcp \<lparr>to_type = t, to_val = v\<rparr>)) in
       if t = 0 \<or> t = 1 then Inl AssertionError
       else if t = 2 then
         (if len \<noteq> 4 then Inl RuntimeError
          else rbind (struct_unpack [FH] (py_slice buf (i + 2) (i + 4))) (\<lambda>vs. tup1 vs (\<lambda>v. done (VInt v))))
       else if t = 3 then
         (if len \<noteq> 3 then Inl RuntimeError else rbind (py_ord buf (i + 2)) (\<lambda>v. done (VInt v)))
       else if t = 4 then (if len \<noteq> 2 then Inl RuntimeError else done VNone)
       else if t = 5 then
         (if len \<ge> 2 \<and> (len - 2) mod 8 = 0
          then rbind (struct_unpack (concat (replicate (nat ((len - 2) div 8)) [FL, FL]))
                 (py_slice buf (i + 2) (int (length buf)))) (\<lambda>vs. done (VPairs (pairs_of vs)))
          else Inl RuntimeError)
       else if t = 8 then
         (if len \<noteq> 10 then Inl RuntimeError
          else rbind (struct_unpack [FL, FL] (py_slice buf (i + 2) (i + 10))) (\<lambda>vs. tup2 vs (\<lambda>a b. done (VPair a b))))
       else if t = 30 then mptcp_opt_unpack_new buf offset
       else done (VBytes (py_slice buf (i + 2) (i + 2 + len)))))"

section \<open>Writing\<close>

definition tcp_opt_pack :: "tcp_opt \<Rightarrow> bytes res" where
  "tcp_opt_pack self =
     (let t = to_type self in
      if t = 0 \<or> t = 1 then struct_pack [FB] [t]
      else if t = 2 then (case to_val self of VInt v \<Rightarrow> struct_pack [FB, FB, FH] [t, 4, v] | _ \<Rightarrow> Inl StructError)
      else if t = 3 then (case to_val self of VInt v \<Rightarrow> struct_pack [FB, FB, FB] [t, 3, v] | _ \<Rightarrow> Inl StructError)
      else if t = 4 then struct_pack [FB, FB] [t, 2]
      else if t = 5 then
        (case to_val self of
           VPairs ps \<Rightarrow> struct_pack (concat (replicate (length ps) [FL, FL])) (concat (map (\<lambda>(x, y). [x, y]) ps))
         | _ \<Rightarrow> Inl TypeError)
      else if t = 8 then
        (case to_val self of VPair a b \<Rightarrow> struct_pack [FB, FB, FL, FL] [t, 10, a, b] | _ \<Rightarrow> Inl TypeError)
      else (case to_val self of
              VBytes v \<Rightarrow> rbind (struct_pack [FB, FB] [t, 2 + int (length v)]) (\<lambda>p. Inr (p @ v))
            | _ \<Rightarrow> Inl TypeError))"

definition len_is :: "bytes option \<Rightarrow> nat list \<Rightarrow> bytes res" where
  "len_is b ns = (case b of None \<Rightarrow> Inl TypeError | Some b \<Rightarrow> if length b \<in> set ns then Inr b else Inl AssertionError)"

definition mp_capable_pack :: "mp_capable_opt \<Rightarrow> bytes res" where
  "mp_capable_pack self =
     (let has_rkey = (mc_rkey self \<noteq> None \<and> mc_rkey self \<noteq> Some []);
          len = (if has_rkey then 20 else 12);
          subver = push_bit 4 (mc_subtype self) OR mc_version self in
      rbind (len_is (mc_skey self) [8]) (\<lambda>skey.
      rbind (if has_rkey then len_is (mc_rkey self) [8] else Inr []) (\<lambda>rkey.
      rbind (struct_pack [FB, FB, FB, FB] [mc_type self, len, subver, mc_flags self]) (\<lambda>r.
        Inr (r @ skey @ rkey)))))"

definition mp_join_pack :: "mp_join_opt \<Rightarrow> bytes res" where
  "mp_join_pack self =
     rbind (case mj_phase self of
              Some p \<Rightarrow> if p = 1 then Inr (12 :: int) else if p = 2 then Inr 16 else if p = 3 then Inr 24 else Inl KeyError
            | None \<Rightarrow> Inl KeyError) (\<lambda>len.
     rbind (need (mj_address_id self)) (\<lambda>aid.
     rbind (struct_pack [FB, FB, FB, FB] [mj_type self, len, push_bit 4 (mj_subtype self) OR mj_flags self, aid]) (\<lambda>r.
       if len = 12 then
         rbind (len_is (mj_rtoken self) [4]) (\<lambda>rt. rbind (len_is (mj_srand self) [4]) (\<lambda>sr. Inr (r @ rt @ sr)))
       else if len = 16 then
         rbind (len_is (mj_shmac self) [8, 20]) (\<lambda>h. rbind (len_is (mj_srand self) [4]) (\<lambda>sr. Inr (r @ take 8 h @ sr)))
       else rbind (len_is (mj_shmac self) [20]) (\<lambda>h. Inr (r @ h)))))"

text \<open>With a data sequence number the code calls \<^verbatim>\<open>struct.unpack_from\<close> on an integer, which raises TypeError.\<close>

definition mp_dss_pack :: "mp_dss_opt \<Rightarrow> bytes res" where
  "mp_dss_pack self =
     (let flags = md_flags self in
      rbind (struct_pack [FB, FB, FB, FB] [md_type self, dss_good_len flags, push_bit 4 (md_subtype self), flags]) (\<lambda>r.
      rbind (if dss_has_ack flags
             then rbind (need (md_ack self)) (\<lambda>a.
                  rbind (struct_pack (if dss_ack_length flags = 4 then [FL] else [FQ]) [a]) (\<lambda>p. Inr (r @ p)))
             else Inr r) (\<lambda>r.
        if dss_has_dsn flags then Inl TypeError
        else if int (length r) = dss_good_len flags then Inr r else Inl AssertionError)))"

definition mp_unknown_pack :: "mp_unknown \<Rightarrow> bytes res" where
  "mp_unknown_pack self =
     rbind (struct_pack [FB, FB] [mu_type self, 2 + int (length (mu_data self))]) (\<lambda>p. Inr (p @ mu_data self))"

fun opt_pack :: "any_opt \<Rightarrow> bytes res" where
  "opt_pack (OTcp x) = tcp_opt_pack x"
| "opt_pack (OCapable x) = mp_capable_pack x"
| "opt_pack (OJoin x) = mp_join_pack x"
| "opt_pack (ODss x) = mp_dss_pack x"
| "opt_pack (OUnknown x) = mp_unknown_pack x"

section \<open>The options of a segment\<close>

lemma unpack_progress_mp:
  "mp_capable_unpack_new buf i = Inr (j, x) \<Longrightarrow> i < j"
  "mp_join_unpack_new buf i = Inr (j, x) \<Longrightarrow> i < j"
  by (auto simp: mp_capable_unpack_new_def mp_join_unpack_new_def rbind_Inr_iff tup_Inr_iff Let_def
      split: if_splits)

lemma dss_ack_length_nonneg: "0 \<le> dss_ack_length flags"
  by (simp add: dss_ack_length_def)

lemma dss_read_mono:
  "dss_read_ack buf off o1 = Inr (off', o2) \<Longrightarrow> off \<le> off'"
  "dss_read_dsn buf off o1 = Inr (off', o2) \<Longrightarrow> off \<le> off'"
  using dss_ack_length_nonneg [of "md_flags o1"]
  by (auto simp: dss_read_ack_def dss_read_dsn_def rbind_Inr_iff tup_Inr_iff Let_def split: if_splits)

lemma unpack_progress_dss: "mp_dss_unpack_new buf i = Inr (j, x) \<Longrightarrow> i < j"
  by (auto simp: mp_dss_unpack_new_def rbind_Inr_iff tup_Inr_iff Let_def split: if_splits
      dest!: dss_read_mono)

lemma tcp_opt_unpack_progress:
  assumes "tcp_opt_unpack_new buf i = Inr (j, x)" "py_ord buf (i + 1) = Inr n" "2 \<le> n"
  shows "i < j"
proof -
  have u: "mp_unknown_unpack_new buf i = Inr (j, x) \<Longrightarrow> i < j"
    using assms(2,3) by (auto simp: mp_unknown_unpack_new_def rbind_Inr_iff)
  have "mptcp_opt_unpack_new buf i = Inr (j, x) \<Longrightarrow> i < j"
    using u unpack_progress_mp unpack_progress_dss
    by (auto simp: mptcp_opt_unpack_new_def rbind_Inr_iff Let_def split: if_splits)
  with assms show ?thesis
    by (auto simp: tcp_opt_unpack_new_def rbind_Inr_iff Let_def tup_Inr_iff split: if_splits)
qed

text \<open>
  The loop of \<^verbatim>\<open>parse_options\<close>. The options found so far stay in the object when it raises, so they are
  returned beside the result.
\<close>

function parse_options :: "bytes \<Rightarrow> int \<Rightarrow> int \<Rightarrow> any_opt list \<Rightarrow> any_opt list \<times> int res" where
  "parse_options arr hdr_len i options =
     (if i < hdr_len then
        (case py_ord arr i of
           Inl e \<Rightarrow> (options, Inl e)
         | Inr t \<Rightarrow>
             if t = 0 then (options, Inr i)
             else if t = 1 then parse_options arr hdr_len (i + 1) (options @ [OTcp \<lparr>to_type = 1, to_val = VNone\<rparr>])
             else if i + 2 > int (length arr) then (options, Inl RuntimeError)
             else case py_ord arr (i + 1) of
                    Inl e \<Rightarrow> (options, Inl e)
                  | Inr n \<Rightarrow>
                      if i + n > int (length arr) then (options, Inl RuntimeError)
                      else if n < 2 then (options, Inl RuntimeError)
                      else case tcp_opt_unpack_new arr i of
                             Inl e \<Rightarrow> (options, Inl e)
                           | Inr (j, opt) \<Rightarrow> parse_options arr hdr_len j (options @ [opt]))
      else (options, Inr i))"
  by pat_completeness auto

termination parse_options
  by (relation "measure (\<lambda>(arr, hdr_len, i, options). nat (hdr_len - i))")
     (auto dest: tcp_opt_unpack_progress)

declare parse_options.simps [simp del]

text \<open>\<^verbatim>\<open>b"".join(opt.pack() for opt in self.options)\<close>, padded to a multiple of four bytes.\<close>

definition options_packed :: "any_opt list \<Rightarrow> bytes res" where
  "options_packed options =
     rbind (mapM opt_pack options) (\<lambda>ps.
       let p = concat ps; hdr_len = 20 + length p in
       Inr (if hdr_len mod 4 \<noteq> 0 then p @ replicate (4 - hdr_len mod 4) 0 else p))"

section \<open>Round trip\<close>

lemma py_ord_chunk: "chunk raw off [b] \<Longrightarrow> py_ord raw off = Inr (uint b)"
proof -
  assume c: "chunk raw off [b]"
  then have "take 1 (drop (nat off) raw) = [b]" by (simp add: chunk_def)
  with c show ?thesis
    by (auto simp: chunk_def py_ord_def hd_drop_conv_nth take_Suc)
qed

lemma int_to_be_1: "int_to_be 1 v = [word_of_int v]" by simp

text \<open>Options that survive a round trip.\<close>

fun opt_wf :: "any_opt \<Rightarrow> bool" where
  "opt_wf (OTcp x) \<longleftrightarrow>
     (to_type x = 1 \<and> to_val x = VNone \<or>
      (to_type x = 2 \<or> to_type x = 3) \<and> (case to_val x of VInt _ \<Rightarrow> True | _ \<Rightarrow> False) \<or>
      to_type x = 4 \<and> to_val x = VNone \<or>
      to_type x = 8 \<and> (case to_val x of VPair _ _ \<Rightarrow> True | _ \<Rightarrow> False))"
| "opt_wf (OCapable x) \<longleftrightarrow> mc_type x = 30 \<and> mc_subtype x = 0 \<and> mc_version x \<in> {0..15} \<and> mc_rkey x \<noteq> Some []"
| "opt_wf _ \<longleftrightarrow> False"

lemma slice_chunk: "chunk raw off bs \<Longrightarrow> j = off + int (length bs) \<Longrightarrow> py_slice raw off j = bs"
  using chunk_slice [of raw off bs] by simp

lemma unpack_FH: "code_range FH v \<Longrightarrow> struct_unpack [FH] (int_to_be 2 v) = Inr [v]"
  using struct_unpack_pack [of "[FH]" "[v]"] by (simp add: struct_pack_def struct_bytes.simps)

lemma unpack_FL_FL:
  "code_range FL v \<Longrightarrow> code_range FL w \<Longrightarrow> struct_unpack [FL, FL] (int_to_be 4 v @ int_to_be 4 w) = Inr [v, w]"
  using struct_unpack_pack [of "[FL, FL]" "[v, w]"] by (simp add: struct_pack_def struct_bytes.simps)

lemma head2:
  assumes "chunk raw off (struct_bytes [FB, FB] [t, n] @ r)" "code_range FB t" "code_range FB n"
  shows "py_ord raw off = Inr t" "py_ord raw (off + 1) = Inr n" "chunk raw (off + 2) r"
proof -
  have c: "chunk raw off [word_of_int t]" "chunk raw (off + 1) [word_of_int n]" "chunk raw (off + 1 + 1) r"
  proof -
    have "struct_bytes [FB, FB] [t, n] @ r = [word_of_int t] @ [word_of_int n] @ r" by (simp add: struct_bytes.simps)
    with assms(1) have "chunk raw off ([word_of_int t] @ [word_of_int n] @ r)" by simp
    then show "chunk raw off [word_of_int t]" "chunk raw (off + 1) [word_of_int n]" "chunk raw (off + 1 + 1) r"
      unfolding chunk_append by simp_all
  qed
  show "py_ord raw off = Inr t" "py_ord raw (off + 1) = Inr n"
    using c assms by (auto simp: py_ord_chunk uint_byte_of_int)
  show "chunk raw (off + 2) r" using c(3) by (simp add: add.assoc)
qed

lemma tcp_opt_roundtrip:
  assumes "tcp_opt_pack x = Inr bs" "opt_wf (OTcp x)" "to_type x \<noteq> 1" "chunk raw off bs"
  shows "tcp_opt_unpack_new raw off = Inr (off + int (length bs), OTcp x) \<and>
    (\<exists>n. py_ord raw (off + 1) = Inr n \<and> 2 \<le> n \<and> n = int (length bs)) \<and> py_ord raw off = Inr (to_type x)"
proof -
  consider (mss) v where "x = \<lparr>to_type = 2, to_val = VInt v\<rparr>" | (ws) v where "x = \<lparr>to_type = 3, to_val = VInt v\<rparr>"
    | (perm) "x = \<lparr>to_type = 4, to_val = VNone\<rparr>" | (ts) a b where "x = \<lparr>to_type = 8, to_val = VPair a b\<rparr>"
    using assms(2,3) by (cases x) (auto split: opt_val.splits)
  then show ?thesis
  proof cases
    case mss
    with assms have r: "code_range FH v" and bs: "bs = struct_bytes [FB, FB] [2, 4] @ struct_bytes [FH] [v]"
      by (auto simp: tcp_opt_pack_def struct_pack_Inr_iff struct_bytes.simps)
    note h = head2 [OF assms(4) [unfolded bs], simplified]
    have "py_slice raw (off + 2) (off + 4) = int_to_be 2 v"
      using h(3) by (intro slice_chunk) (simp_all add: struct_bytes.simps)
    with h r mss bs show ?thesis by (simp add: tcp_opt_unpack_new_def unpack_FH struct_bytes.simps)
  next
    case ws
    with assms have r: "code_range FB v" and bs: "bs = struct_bytes [FB, FB] [3, 3] @ [word_of_int v]"
      by (auto simp: tcp_opt_pack_def struct_pack_Inr_iff struct_bytes.simps)
    note h = head2 [OF assms(4) [unfolded bs], simplified]
    with r have "py_ord raw (off + 2) = Inr v" by (simp add: py_ord_chunk uint_byte_of_int)
    with h r ws bs show ?thesis by (simp add: tcp_opt_unpack_new_def struct_bytes.simps)
  next
    case perm
    with assms have bs: "bs = struct_bytes [FB, FB] [4, 2] @ []"
      by (auto simp: tcp_opt_pack_def struct_pack_Inr_iff)
    note h = head2 [OF assms(4) [unfolded bs], simplified]
    with perm bs show ?thesis by (simp add: tcp_opt_unpack_new_def struct_bytes.simps)
  next
    case ts
    with assms have r: "code_range FL a" "code_range FL b"
      and bs: "bs = struct_bytes [FB, FB] [8, 10] @ int_to_be 4 a @ int_to_be 4 b"
      by (auto simp: tcp_opt_pack_def struct_pack_Inr_iff struct_bytes.simps)
    note h = head2 [OF assms(4) [unfolded bs], simplified]
    have "py_slice raw (off + 2) (off + 10) = int_to_be 4 a @ int_to_be 4 b"
      using h(3) by (intro slice_chunk) simp_all
    with h r ts bs show ?thesis by (simp add: tcp_opt_unpack_new_def unpack_FL_FL struct_bytes.simps)
  qed
qed

lemma struct_unpack_from_chunk:
  "chunk raw off (struct_bytes cs vs) \<Longrightarrow> list_all2 code_range cs vs \<Longrightarrow> struct_unpack_from cs raw off = Inr vs"
  by (simp add: struct_unpack_from_def slice_chunk length_struct_bytes list_all2_lengthD struct_unpack_def
      struct_ints_bytes)

lemma version_bits: "v \<in> {0..15} \<Longrightarrow> drop_bit 4 (v AND 240) = (0 :: int) \<and> v AND 15 = v"
proof -
  have "\<forall>v \<in> {0..15 :: int}. drop_bit 4 (v AND 240) = 0 \<and> v AND 15 = v" by code_simp
  then show "v \<in> {0..15} \<Longrightarrow> ?thesis" by blast
qed

lemma mp_capable_roundtrip:
  assumes p: "mp_capable_pack x = Inr bs" and wf: "opt_wf (OCapable x)" and c: "chunk raw off bs"
  shows "tcp_opt_unpack_new raw off = Inr (off + int (length bs), OCapable x) \<and>
    py_ord raw (off + 1) = Inr (int (length bs)) \<and> 2 \<le> length bs \<and> py_ord raw off = Inr 30"
proof -
  define len where "len = (if mc_rkey x = None then 12 else 20 :: int)"
  from p wf obtain sk rk where sk: "mc_skey x = Some sk" "length sk = 8"
    and rk: "mc_rkey x = None \<and> rk = [] \<or> mc_rkey x = Some rk \<and> length rk = 8"
    and r: "list_all2 code_range [FB, FB, FB, FB] [30, len, mc_version x, mc_flags x]"
    and bs: "bs = struct_bytes [FB, FB, FB, FB] [30, len, mc_version x, mc_flags x] @ sk @ rk"
    by (auto simp: mp_capable_pack_def len_is_def struct_pack_Inr_iff rbind_Inr_iff Let_def len_def
        split: if_splits option.splits)
  have lb: "int (length bs) = len" using bs sk rk by (auto simp: length_struct_bytes len_def)
  have h: "struct_unpack_from [FB, FB, FB, FB] raw off = Inr [30, len, mc_version x, mc_flags x]"
      "chunk raw (off + 4) sk" "chunk raw (off + 12) rk"
    using c r sk unfolding bs chunk_append
    by (simp_all add: struct_unpack_from_chunk length_struct_bytes add.commute)
  have s: "struct_bytes [FB, FB, FB, FB] [30, len, mc_version x, mc_flags x] =
      [word_of_int 30] @ [word_of_int len] @ [word_of_int (mc_version x)] @ [word_of_int (mc_flags x)]"
    by (simp add: struct_bytes.simps)
  have o: "py_ord raw off = Inr 30" "py_ord raw (off + 1) = Inr len" "py_ord raw (off + 2) = Inr (mc_version x)"
  proof -
    have c: "chunk raw off [word_of_int 30]" "chunk raw (off + 1) [word_of_int len]"
        "chunk raw (off + 2) [word_of_int (mc_version x)]"
      using c unfolding bs s append_assoc chunk_append by (simp_all add: add.commute)
    show "py_ord raw off = Inr 30" "py_ord raw (off + 1) = Inr len" "py_ord raw (off + 2) = Inr (mc_version x)"
      using c r by (auto simp: py_ord_chunk uint_byte_of_int)
  qed
  note v = version_bits [of "mc_version x"]
  have "mp_capable_unpack_new raw off = Inr (off + len, OCapable x)"
    using h v wf rk sk slice_chunk [of raw "off + 12" rk "off + 20"]
    by (cases x) (auto simp: mp_capable_unpack_new_def Let_def slice_chunk mp_capable_opt_init_def len_def add.commute)
  moreover have "2 \<le> length bs" using lb by (simp add: len_def split: if_splits)
  ultimately show ?thesis using o v wf lb by (auto simp: tcp_opt_unpack_new_def mptcp_opt_unpack_new_def Let_def len_def)
qed

lemma opt_roundtrip:
  assumes "opt_pack x = Inr bs" "opt_wf x" "x \<noteq> OTcp \<lparr>to_type = 1, to_val = VNone\<rparr>" "chunk raw off bs"
  shows "tcp_opt_unpack_new raw off = Inr (off + int (length bs), x)"
    "py_ord raw (off + 1) = Inr (int (length bs))" "2 \<le> length bs"
    "\<exists>t. py_ord raw off = Inr t \<and> t \<noteq> 0 \<and> t \<noteq> 1"
proof -
  have "tcp_opt_unpack_new raw off = Inr (off + int (length bs), x) \<and>
    py_ord raw (off + 1) = Inr (int (length bs)) \<and> 2 \<le> length bs \<and> (\<exists>t. py_ord raw off = Inr t \<and> t \<noteq> 0 \<and> t \<noteq> 1)"
  proof (cases x)
    case (OTcp y)
    with assms have "to_type y \<noteq> 1" by (cases y) auto
    with OTcp assms show ?thesis using tcp_opt_roundtrip [of y bs raw off] by auto
  qed (use assms mp_capable_roundtrip in fastforce)+
  then show "tcp_opt_unpack_new raw off = Inr (off + int (length bs), x)"
    "py_ord raw (off + 1) = Inr (int (length bs))" "2 \<le> length bs"
    "\<exists>t. py_ord raw off = Inr t \<and> t \<noteq> 0 \<and> t \<noteq> 1" by blast+
qed

text \<open>One turn of the loop reads one packed option.\<close>

lemma parse_options_step:
  assumes "opt_pack x = Inr bs" "opt_wf x" "chunk raw off bs" "off + int (length bs) \<le> hdr_len"
  shows "parse_options raw hdr_len off acc = parse_options raw hdr_len (off + int (length bs)) (acc @ [x])"
proof (cases "x = OTcp \<lparr>to_type = 1, to_val = VNone\<rparr>")
  case True
  with assms have bs: "bs = [1]" by (auto simp: tcp_opt_pack_def struct_pack_Inr_iff struct_bytes.simps)
  with assms have "py_ord raw off = Inr 1" by (simp add: py_ord_chunk)
  with True bs assms show ?thesis by (subst parse_options.simps) simp
next
  case False
  note o = opt_roundtrip [OF assms(1,2) False assms(3)]
  from assms(3) have "off + int (length bs) \<le> int (length raw)" using chunk_avail [OF assms(3)] by simp
  with o assms(4) show ?thesis by (subst parse_options.simps) auto
qed

lemma parse_options_stop:
  assumes "chunk raw off (replicate k 0)" "hdr_len = off + int k"
  shows "\<exists>r. parse_options raw hdr_len off acc = (acc, Inr r)"
proof (cases k)
  case 0
  with assms show ?thesis by (subst parse_options.simps) simp
next
  case (Suc n)
  with assms have "chunk raw off ([0] @ replicate n 0)" by simp
  then have "py_ord raw off = Inr 0" unfolding chunk_append using py_ord_chunk [of raw off 0] by simp
  with assms Suc show ?thesis by (subst parse_options.simps) simp
qed

lemma parse_options_all:
  assumes "mapM opt_pack xs = Inr ps" "list_all opt_wf xs" "chunk raw off (concat ps @ replicate k 0)"
    "hdr_len = off + int (length (concat ps)) + int k"
  shows "\<exists>r. parse_options raw hdr_len off acc = (acc @ xs, Inr r)"
  using assms
proof (induction xs arbitrary: ps off acc)
  case Nil
  then show ?case using parse_options_stop [of raw off k hdr_len acc] by simp
next
  case (Cons x xs)
  then obtain p ps' where ps: "opt_pack x = Inr p" "mapM opt_pack xs = Inr ps'" "ps = p # ps'"
    by (auto simp: rbind_Inr_iff)
  with Cons.prems have c: "chunk raw off p" "chunk raw (off + int (length p)) (concat ps' @ replicate k 0)"
    by (simp_all add: chunk_append)
  with ps Cons.prems have "parse_options raw hdr_len off acc = parse_options raw hdr_len (off + int (length p)) (acc @ [x])"
    by (intro parse_options_step) auto
  moreover have "\<exists>r. parse_options raw hdr_len (off + int (length p)) (acc @ [x]) = ((acc @ [x]) @ xs, Inr r)"
    using ps Cons.prems c by (intro Cons.IH) auto
  ultimately show ?case by simp
qed

lemma options_packed_shape:
  assumes "options_packed xs = Inr p"
  obtains ps k where "mapM opt_pack xs = Inr ps" "p = concat ps @ replicate k 0" "length p mod 4 = 0"
proof -
  from assms obtain ps where ps: "mapM opt_pack xs = Inr ps"
    and p: "p = concat ps @ (if (20 + length (concat ps)) mod 4 \<noteq> 0
                 then replicate (4 - (20 + length (concat ps)) mod 4) 0 else [])"
    by (auto simp: options_packed_def rbind_Inr_iff Let_def split: if_splits)
  define n k where "n = length (concat ps)" and "k = (if (20 + n) mod 4 \<noteq> 0 then 4 - (20 + n) mod 4 else 0)"
  have pk: "p = concat ps @ replicate k 0" unfolding p k_def n_def by simp
  have "(20 + n) mod 4 = n mod 4" using mod_mult_self4 [of 4 5 n] by simp
  moreover have "n + (4 - n mod 4) = 4 * (n div 4 + 1)"
  proof -
    define q r where "q = n div 4" and "r = n mod 4"
    then have "n = 4 * q + r" "r < 4" by simp_all
    then show ?thesis unfolding q_def [symmetric] r_def [symmetric] by simp
  qed
  then have "(n + (4 - n mod 4)) mod 4 = 0" by simp
  ultimately have "(n + k) mod 4 = 0" unfolding k_def by (cases "n mod 4 = 0") simp_all
  then have "length p mod 4 = 0" unfolding pk length_append length_replicate n_def .
  with ps pk show ?thesis by (rule that)
qed

lemma options_read_back:
  assumes "options_packed xs = Inr p" "list_all opt_wf xs" "length hdr = 20"
  shows "\<exists>r. parse_options (hdr @ p @ payload) (20 + int (length p)) 20 [] = (xs, Inr r) \<and> length p mod 4 = 0"
proof -
  from assms(1) obtain ps k where ps: "mapM opt_pack xs = Inr ps" "p = concat ps @ replicate k 0" "length p mod 4 = 0"
    by (rule options_packed_shape)
  moreover have "chunk (hdr @ p @ payload) 20 p" using chunk_middle [of hdr p payload] assms(3) by simp
  ultimately show ?thesis
    using parse_options_all [OF ps(1) assms(2), of "hdr @ p @ payload" 20 k "20 + int (length p)" "[]"]
    by (simp add: add.assoc)
qed

section \<open>Properties\<close>

text \<open>
  The option bytes of a segment header, padded to four bytes, are read back option by option when they are
  no-operation, MSS, window scale, SACK permitted, time stamps or MP_CAPABLE options; the loop ends without an
  exception.
\<close>

theorem tcp_options_roundtrip:
  assumes "options_packed xs = Inr p" "list_all opt_wf xs" "length hdr = 20"
  shows "\<exists>r. parse_options (hdr @ p @ payload) (20 + int (length p)) 20 [] = (xs, Inr r) \<and> length p mod 4 = 0"
  using assms by (rule options_read_back)

theorem tcp_options_roundtrip_witness:
  "\<exists>r. parse_options (replicate 20 0 @ [2, 4, 5, 180, 1, 3, 3, 7] @ [65]) 28 20 [] =
     ([OTcp \<lparr>to_type = 2, to_val = VInt 1460\<rparr>, OTcp \<lparr>to_type = 1, to_val = VNone\<rparr>,
       OTcp \<lparr>to_type = 3, to_val = VInt 7\<rparr>], Inr r)"
proof -
  have "options_packed [OTcp \<lparr>to_type = 2, to_val = VInt 1460\<rparr>, OTcp \<lparr>to_type = 1, to_val = VNone\<rparr>,
       OTcp \<lparr>to_type = 3, to_val = VInt 7\<rparr>] = Inr [2, 4, 5, 180, 1, 3, 3, 7]"
    by code_simp
  from tcp_options_roundtrip [OF this, of "replicate 20 0" "[65]"] show ?thesis by simp
qed

text \<open>
  An option of a type the library does not know keeps two bytes too many when it is read, so packing it again
  gives an option two bytes longer that has swallowed the start of what follows it.
\<close>

lemma unknown_option_grows:
  assumes "t \<notin> {0, 1, 2, 3, 4, 5, 8, 30}" "code_range FB t" "length v \<le> 249" "length w = 2"
    "raw = struct_bytes [FB, FB] [t, 2 + int (length v)] @ v @ w @ rest"
  shows "\<exists>x. tcp_opt_unpack_new raw 0 = Inr (2 + int (length v), OTcp x) \<and>
    tcp_opt_pack x = Inr (struct_bytes [FB, FB] [t, 4 + int (length v)] @ v @ w)"
proof -
  have c: "chunk raw 0 (struct_bytes [FB, FB] [t, 2 + int (length v)] @ (v @ w))"
    using chunk_middle [of "[]" "struct_bytes [FB, FB] [t, 2 + int (length v)] @ v @ w" rest] assms(5) by simp
  have "code_range FB (2 + int (length v))" using assms(3) by simp
  note h = head2 [OF c assms(2) this]
  have "py_slice raw 2 (4 + int (length v)) = v @ w"
    using h(3) assms(4) by (intro slice_chunk) simp_all
  with h assms show ?thesis
    by (intro exI [of _ "\<lparr>to_type = t, to_val = VBytes (v @ w)\<rparr>"])
       (auto simp: tcp_opt_unpack_new_def tcp_opt_pack_def Let_def struct_pack_def add.commute)
qed

lemma unknown_option_grows_witness:
  "\<exists>x. tcp_opt_unpack_new [254, 4, 10, 11, 1, 0, 9] 0 = Inr (4, OTcp x) \<and>
    tcp_opt_pack x = Inr [254, 6, 10, 11, 1, 0]"
  using unknown_option_grows [of 254 "[10, 11]" "[1, 0]" "[254, 4, 10, 11, 1, 0, 9]" "[9]"]
  by (simp add: struct_bytes.simps)

text \<open>A data-sequence-signal option that carries a data sequence number can be read but never packed.\<close>

lemma dss_with_dsn_never_packs:
  assumes "dss_has_dsn (md_flags x)"
  shows "\<exists>e. mp_dss_pack x = Inl e"
  using assms by (cases "mp_dss_pack x") (auto simp: mp_dss_pack_def rbind_Inr_iff Let_def)

lemma dss_with_dsn_never_packs_witness:
  "\<exists>e. mp_dss_pack ((mp_dss_opt_init 4)\<lparr>md_dsn := Some 1, md_seq := Some 2, md_length := Some 3, md_csum := Some 4\<rparr>) = Inl e"
  by (rule dss_with_dsn_never_packs) code_simp

end
