(* ===== verification/Packet.thy ===== *)
theory Packet
  imports OF_Match Tcp_Options
begin

text \<open>
  Packets as the objects of \<^verbatim>\<open>pox/lib/packet\<close>: an Ethernet frame with a chain of payloads, finding a layer, the
  effective Ethernet type, and \<^verbatim>\<open>ofp_match.from_packet\<close>, which reads the twelve match fields off such a chain.
  Parsing and packing are in \<^verbatim>\<open>Packet_Codec\<close>. An object of a class outside the model (IPv6, LLDP, EAPOL,
  MPLS, DHCP, DNS, RIP) is an \<open>POther\<close>: its class, the bytes it was made from and whether they parsed. The record
  \<open>pk_ext\<close> holds what those classes do, a parameter of the functions that meet such an object.
\<close>

section \<open>Headers\<close>

record vlan =
  v_pcp :: int
  v_cfi :: int
  v_id :: int
  v_eth_type :: int
  v_parsed :: bool
  v_raw :: "bytes option"

definition vlan_init :: vlan where
  "vlan_init = \<lparr>v_pcp = 0, v_cfi = 0, v_id = 0, v_eth_type = 0, v_parsed = False, v_raw = None\<rparr>"

record llc =
  llc_length :: int
  llc_dsap :: "int option"
  llc_ssap :: "int option"
  llc_control :: "int option"
  llc_oui :: "bytes option"
  llc_eth_type :: int
  llc_parsed :: bool
  llc_raw :: "bytes option"

definition llc_init :: llc where
  "llc_init = \<lparr>llc_length = 3, llc_dsap = None, llc_ssap = None, llc_control = None, llc_oui = None,
     llc_eth_type = 65535, llc_parsed = False, llc_raw = None\<rparr>"

record arp =
  arp_hwtype :: int
  arp_prototype :: int
  arp_hwsrc :: EthAddr
  arp_hwdst :: EthAddr
  arp_hwlen :: int
  arp_opcode :: int
  arp_protolen :: int
  arp_protosrc :: IPAddr
  arp_protodst :: IPAddr
  arp_parsed :: bool
  arp_raw :: "bytes option"

definition arp_init :: arp where
  "arp_init = \<lparr>arp_hwtype = 1, arp_prototype = 2048, arp_hwsrc = EMPTY_ETH, arp_hwdst = EMPTY_ETH, arp_hwlen = 6,
     arp_opcode = 0, arp_protolen = 4, arp_protosrc = IPAddr 0, arp_protodst = IPAddr 0, arp_parsed = False,
     arp_raw = None\<rparr>"

record ipv4 =
  ip_v :: int
  ip_hl :: int
  ip_tos :: int
  ip_iplen :: int
  ip_id :: int
  ip_flags :: int
  ip_frag :: int
  ip_ttl :: int
  ip_protocol :: int
  ip_csum :: int
  ip_srcip :: IPAddr
  ip_dstip :: IPAddr
  ip_parsed :: bool
  ip_raw_data :: "bytes option"

text \<open>\<open>i\<close> is the value of the class's identification counter, which starts from the clock.\<close>

definition ipv4_init :: "int \<Rightarrow> ipv4" where
  "ipv4_init i = \<lparr>ip_v = 4, ip_hl = 5, ip_tos = 0, ip_iplen = 20, ip_id = i, ip_flags = 0, ip_frag = 0, ip_ttl = 64,
     ip_protocol = 0, ip_csum = 0, ip_srcip = IPAddr 0, ip_dstip = IPAddr 0, ip_parsed = False, ip_raw_data = None\<rparr>"

record udp =
  udp_srcport :: int
  udp_dstport :: int
  udp_len :: int
  udp_csum :: int
  udp_parsed :: bool
  udp_raw :: "bytes option"

definition udp_init :: udp where
  "udp_init = \<lparr>udp_srcport = 0, udp_dstport = 0, udp_len = 8, udp_csum = 0, udp_parsed = False, udp_raw = None\<rparr>"

record tcp =
  tcp_srcport :: int
  tcp_dstport :: int
  tcp_seq :: int
  tcp_ack :: int
  tcp_off :: int
  tcp_res :: int
  tcp_flags :: int
  tcp_win :: int
  tcp_csum :: int
  tcp_urg :: int
  tcp_options :: "any_opt list"
  tcp_parsed :: bool
  tcp_raw :: "bytes option"

definition tcp_init :: tcp where
  "tcp_init = \<lparr>tcp_srcport = 0, tcp_dstport = 0, tcp_seq = 0, tcp_ack = 0, tcp_off = 0, tcp_res = 0, tcp_flags = 0,
     tcp_win = 0, tcp_csum = 0, tcp_urg = 0, tcp_options = [], tcp_parsed = False, tcp_raw = None\<rparr>"

text \<open>The \<^verbatim>\<open>parse\<close> of the ICMP class never stores the raw bytes.\<close>

record icmp =
  icmp_type :: int
  icmp_code :: int
  icmp_csum :: int
  icmp_parsed :: bool

definition icmp_init :: icmp where
  "icmp_init = \<lparr>icmp_type = 0, icmp_code = 0, icmp_csum = 0, icmp_parsed = False\<rparr>"

text \<open>The constructor draws a random identifier.\<close>

record echo =
  echo_id :: int
  echo_seq :: int
  echo_parsed :: bool
  echo_raw :: "bytes option"

definition echo_init :: "int \<Rightarrow> echo" where
  "echo_init r = \<lparr>echo_id = r, echo_seq = 0, echo_parsed = False, echo_raw = None\<rparr>"

record unreach =
  un_unused :: int
  un_next_mtu :: int
  un_parsed :: bool
  un_raw :: "bytes option"

definition unreach_init :: unreach where
  "unreach_init = \<lparr>un_unused = 0, un_next_mtu = 0, un_parsed = False, un_raw = None\<rparr>"

record time_exceeded =
  tx_unused :: int
  tx_parsed :: bool
  tx_raw :: "bytes option"

definition time_exceeded_init :: time_exceeded where
  "time_exceeded_init = \<lparr>tx_unused = 0, tx_parsed = False, tx_raw = None\<rparr>"

record igmp =
  ig_ver_and_type :: int
  ig_max_response_time :: int
  ig_csum :: int
  ig_address :: "IPAddr option"
  ig_extra :: bytes
  ig_parsed :: bool
  ig_raw :: "bytes option"

definition igmp_init :: igmp where
  "igmp_init = \<lparr>ig_ver_and_type = 0, ig_max_response_time = 0, ig_csum = 0, ig_address = None, ig_extra = [],
     ig_parsed = False, ig_raw = None\<rparr>"

text \<open>\<^verbatim>\<open>packet_base.next\<close>: nothing, bytes, or another packet object with its own \<^verbatim>\<open>next\<close>.\<close>

datatype payload =
    PNone
  | PBytes bytes
  | PVlan vlan payload
  | PLlc llc payload
  | PArp arp payload
  | PIpv4 ipv4 payload
  | PUdp udp payload
  | PTcp tcp payload
  | PIcmp icmp payload
  | PEcho echo payload
  | PUnreach unreach payload
  | PTimeExceeded time_exceeded payload
  | PIgmp igmp payload
  | POther string bytes bool

record ethernet =
  e_dst :: EthAddr
  e_src :: EthAddr
  e_type :: int
  e_payload :: payload
  e_parsed :: bool
  e_raw :: "bytes option"

definition ethernet_init :: ethernet where
  "ethernet_init = \<lparr>e_dst = EMPTY_ETH, e_src = EMPTY_ETH, e_type = 0, e_payload = PBytes [], e_parsed = False, e_raw = None\<rparr>"

text \<open>
  The classes outside the model, given the class name and the bytes: making an object (it may raise; the answer is
  whether the bytes parsed), packing it, and finding an IPv4 layer in it.
\<close>

record pk_ext =
  x_parse :: "string \<Rightarrow> bytes \<Rightarrow> bool res"
  x_pack :: "string \<Rightarrow> bytes \<Rightarrow> bytes res"
  x_find_ipv4 :: "string \<Rightarrow> bytes \<Rightarrow> ipv4 option"

definition VLAN_TYPE :: int where "VLAN_TYPE = 33024"
definition INVALID_TYPE :: int where "INVALID_TYPE = 65535"
definition MF_FLAG :: int where "MF_FLAG = 1"

definition llc_has_snap :: "llc \<Rightarrow> bool" where
  "llc_has_snap p \<longleftrightarrow> llc_oui p \<noteq> None"

section \<open>Finding a layer\<close>

text \<open>
  \<^verbatim>\<open>find(ipv4)\<close>: a layer that was not parsed is neither found nor descended into (its truth
  value is \<^verbatim>\<open>parsed\<close>).
\<close>

fun find_ipv4 :: "pk_ext \<Rightarrow> payload \<Rightarrow> ipv4 option" where
  "find_ipv4 x PNone = None"
| "find_ipv4 x (PBytes b) = None"
| "find_ipv4 x (PVlan h p) = (if v_parsed h then find_ipv4 x p else None)"
| "find_ipv4 x (PLlc h p) = (if llc_parsed h then find_ipv4 x p else None)"
| "find_ipv4 x (PArp h p) = (if arp_parsed h then find_ipv4 x p else None)"
| "find_ipv4 x (PIpv4 h p) = (if ip_parsed h then Some h else None)"
| "find_ipv4 x (PUdp h p) = (if udp_parsed h then find_ipv4 x p else None)"
| "find_ipv4 x (PTcp h p) = (if tcp_parsed h then find_ipv4 x p else None)"
| "find_ipv4 x (PIcmp h p) = (if icmp_parsed h then find_ipv4 x p else None)"
| "find_ipv4 x (PEcho h p) = (if echo_parsed h then find_ipv4 x p else None)"
| "find_ipv4 x (PUnreach h p) = (if un_parsed h then find_ipv4 x p else None)"
| "find_ipv4 x (PTimeExceeded h p) = (if tx_parsed h then find_ipv4 x p else None)"
| "find_ipv4 x (PIgmp h p) = (if ig_parsed h then find_ipv4 x p else None)"
| "find_ipv4 x (POther c raw pd) = (if pd then x_find_ipv4 x c raw else None)"

section \<open>The effective Ethernet type\<close>

text \<open>Only VLAN and LLC payloads have the attribute; any other payload makes the lookup raise, which is caught.\<close>

definition is_llc :: "payload \<Rightarrow> bool" where
  "is_llc p = (case p of PLlc _ _ \<Rightarrow> True | _ \<Rightarrow> False)"

fun payload_ethertype :: "payload \<Rightarrow> int option" where
  "payload_ethertype (PVlan h p) =
     Some (if \<not> v_parsed h then INVALID_TYPE
           else if v_eth_type h = VLAN_TYPE \<or> is_llc p
           then (case payload_ethertype p of Some t \<Rightarrow> t | None \<Rightarrow> INVALID_TYPE)
           else v_eth_type h)"
| "payload_ethertype (PLlc h p) =
     Some (if \<not> llc_parsed h then INVALID_TYPE
           else if llc_eth_type h = VLAN_TYPE \<or> is_llc p
           then (case payload_ethertype p of Some t \<Rightarrow> t | None \<Rightarrow> INVALID_TYPE)
           else llc_eth_type h)"
| "payload_ethertype _ = None"

definition effective_ethertype :: "ethernet \<Rightarrow> int" where
  "effective_ethertype self =
     (if \<not> e_parsed self then INVALID_TYPE
      else if e_type self = VLAN_TYPE \<or> is_llc (e_payload self)
      then (case payload_ethertype (e_payload self) of Some t \<Rightarrow> t | None \<Rightarrow> INVALID_TYPE)
      else e_type self)"

section \<open>The match of a packet\<close>

text \<open>
  The three stages of \<^verbatim>\<open>from_packet\<close> on an Ethernet object: link layer and VLAN, then network, then
  transport. Each attribute write goes through the setter of the match.
\<close>

definition from_packet_tp :: "payload \<Rightarrow> ofp_match \<Rightarrow> ofp_match res" where
  "from_packet_tp p match =
     (case p of
        PUdp u _ \<Rightarrow> rbind (set_tp_src (Some (udp_srcport u)) match) (set_tp_dst (Some (udp_dstport u)))
      | PTcp t _ \<Rightarrow> rbind (set_tp_src (Some (tcp_srcport t)) match) (set_tp_dst (Some (tcp_dstport t)))
      | PIcmp i _ \<Rightarrow> rbind (set_tp_src (Some (icmp_type i)) match) (set_tp_dst (Some (icmp_code i)))
      | _ \<Rightarrow> Inr match)"

definition from_packet_nw :: "bool \<Rightarrow> payload \<Rightarrow> ofp_match \<Rightarrow> ofp_match res" where
  "from_packet_nw spec_frags p match =
     (case p of
        PIpv4 h p \<Rightarrow>
          rbind (set_nw_src (Some (ip_srcip h, None)) match) (\<lambda>match.
          rbind (set_nw_dst (Some (ip_dstip h, None)) match) (\<lambda>match.
          rbind (set_nw_proto (Some (ip_protocol h)) match) (\<lambda>match.
          rbind (set_nw_tos (Some (ip_tos h)) match) (\<lambda>match.
          if spec_frags \<and> (ip_flags h AND MF_FLAG \<noteq> 0 \<or> ip_frag h \<noteq> 0)
          then rbind (set_tp_src (Some 0) match) (set_tp_dst (Some 0))
          else from_packet_tp p match))))
      | PArp a _ \<Rightarrow>
          if arp_opcode a \<le> 255
          then rbind (set_nw_proto (Some (arp_opcode a)) match) (\<lambda>match.
               rbind (set_nw_src (Some (arp_protosrc a, None)) match) (\<lambda>match.
               set_nw_dst (Some (arp_protodst a, None)) match))
          else Inr match
      | _ \<Rightarrow> Inr match)"

text \<open>A SNAP header with a zero OUI is looked through; a VLAN header gives type, id and priority.\<close>

definition from_packet_snap :: "payload \<Rightarrow> ofp_match \<Rightarrow> (ofp_match \<times> payload) res" where
  "from_packet_snap p match =
     (case p of
        PLlc l q \<Rightarrow>
          if llc_has_snap l \<and> llc_oui l = Some [0, 0, 0]
          then rbind (set_dl_type (Some (llc_eth_type l)) match) (\<lambda>match. Inr (match, q))
          else Inr (match, p)
      | _ \<Rightarrow> Inr (match, p))"

definition from_packet_vlan :: "payload \<Rightarrow> ofp_match \<Rightarrow> (ofp_match \<times> payload) res" where
  "from_packet_vlan p match =
     (case p of
        PVlan v q \<Rightarrow>
          rbind (set_dl_type (Some (v_eth_type v)) match) (\<lambda>match.
          rbind (set_dl_vlan (Some (v_id v)) match) (\<lambda>match.
          rbind (set_dl_vlan_pcp (Some (v_pcp v)) match) (\<lambda>match. Inr (match, q))))
      | _ \<Rightarrow>
          rbind (set_dl_vlan (Some OFP_VLAN_NONE) match) (\<lambda>match.
          rbind (set_dl_vlan_pcp (Some 0) match) (\<lambda>match. Inr (match, p))))"

text \<open>The link layer; the type of a short frame is replaced.\<close>

definition from_packet_dl :: "ethernet \<Rightarrow> ofp_match \<Rightarrow> (ofp_match \<times> payload) res" where
  "from_packet_dl packet match =
     rbind (set_dl_src (Some (e_src packet)) match) (\<lambda>match.
     rbind (set_dl_dst (Some (e_dst packet)) match) (\<lambda>match.
     rbind (set_dl_type (Some (e_type packet)) match) (\<lambda>match.
     rbind (if e_type packet < 1536 then set_dl_type (Some OFP_DL_TYPE_NOT_ETH_TYPE) match else Inr match)
       (\<lambda>match.
     rbind (from_packet_snap (e_payload packet) match) (\<lambda>(match, p).
     from_packet_vlan p match)))))"

definition from_packet :: "ethernet \<Rightarrow> int option \<Rightarrow> bool \<Rightarrow> ofp_match res" where
  "from_packet packet in_port spec_frags =
     rbind (case in_port of None \<Rightarrow> Inr ofp_match_init | Some n \<Rightarrow> set_in_port (Some n) ofp_match_init) (\<lambda>match.
     rbind (from_packet_dl packet match) (\<lambda>(match, p).
     from_packet_nw spec_frags p match))"

section \<open>The match of a packet always exists\<close>

lemma set_unlocked:
  "\<not> m_locked m \<Longrightarrow> \<exists>m'. set_in_port x m = Inr m' \<and> \<not> m_locked m'"
  "\<not> m_locked m \<Longrightarrow> \<exists>m'. set_dl_src e m = Inr m' \<and> \<not> m_locked m'"
  "\<not> m_locked m \<Longrightarrow> \<exists>m'. set_dl_dst e m = Inr m' \<and> \<not> m_locked m'"
  "\<not> m_locked m \<Longrightarrow> \<exists>m'. set_dl_vlan x m = Inr m' \<and> \<not> m_locked m'"
  "\<not> m_locked m \<Longrightarrow> \<exists>m'. set_dl_vlan_pcp x m = Inr m' \<and> \<not> m_locked m'"
  "\<not> m_locked m \<Longrightarrow> \<exists>m'. set_dl_type x m = Inr m' \<and> \<not> m_locked m'"
  "\<not> m_locked m \<Longrightarrow> \<exists>m'. set_nw_tos x m = Inr m' \<and> \<not> m_locked m'"
  "\<not> m_locked m \<Longrightarrow> \<exists>m'. set_nw_proto x m = Inr m' \<and> \<not> m_locked m'"
  "\<not> m_locked m \<Longrightarrow> \<exists>m'. set_nw_src a m = Inr m' \<and> \<not> m_locked m'"
  "\<not> m_locked m \<Longrightarrow> \<exists>m'. set_nw_dst a m = Inr m' \<and> \<not> m_locked m'"
  "\<not> m_locked m \<Longrightarrow> \<exists>m'. set_tp_src x m = Inr m' \<and> \<not> m_locked m'"
  "\<not> m_locked m \<Longrightarrow> \<exists>m'. set_tp_dst x m = Inr m' \<and> \<not> m_locked m'"
  by (simp_all add: set_in_port_def set_dl_src_def set_dl_dst_def set_dl_vlan_def set_dl_vlan_pcp_def
      set_dl_type_def set_nw_tos_def set_nw_proto_def set_nw_src_def set_nw_dst_def set_tp_src_def
      set_tp_dst_def match_write_def split: option.splits)

text \<open>Sequencing steps that succeed on an unlocked match.\<close>

definition ok_step :: "ofp_match res \<Rightarrow> bool" where
  "ok_step r \<longleftrightarrow> (\<exists>m. r = Inr m \<and> \<not> m_locked m)"

lemma ok_rbind: "ok_step r \<Longrightarrow> (\<And>m. \<not> m_locked m \<Longrightarrow> ok_step (f m)) \<Longrightarrow> ok_step (rbind r f)"
  by (auto simp: ok_step_def)

lemma ok_set:
  assumes "\<not> m_locked m"
  shows "ok_step (set_in_port x m)" "ok_step (set_dl_src e m)" "ok_step (set_dl_dst e m)"
    "ok_step (set_dl_vlan x m)" "ok_step (set_dl_vlan_pcp x m)" "ok_step (set_dl_type x m)"
    "ok_step (set_nw_tos x m)" "ok_step (set_nw_proto x m)" "ok_step (set_nw_src a m)"
    "ok_step (set_nw_dst a m)" "ok_step (set_tp_src x m)" "ok_step (set_tp_dst x m)" "ok_step (Inr m)"
  using set_unlocked [OF assms] assms by (simp_all add: ok_step_def)

definition ok_pair :: "(ofp_match \<times> payload) res \<Rightarrow> bool" where
  "ok_pair r \<longleftrightarrow> (\<exists>m p. r = Inr (m, p) \<and> \<not> m_locked m)"

lemma ok_rbind_pair: "ok_step r \<Longrightarrow> (\<And>m. \<not> m_locked m \<Longrightarrow> ok_pair (f m)) \<Longrightarrow> ok_pair (rbind r f)"
  by (auto simp: ok_step_def)

lemma ok_pair_rbind: "ok_pair r \<Longrightarrow> (\<And>m p. \<not> m_locked m \<Longrightarrow> ok_pair (f (m, p))) \<Longrightarrow> ok_pair (rbind r f)"
  by (auto simp: ok_pair_def)

lemma ok_pair_Inr: "\<not> m_locked m \<Longrightarrow> ok_pair (Inr (m, p))"
  by (simp add: ok_pair_def)

lemma ok_tp: "\<not> m_locked m \<Longrightarrow> ok_step (from_packet_tp p m)"
  unfolding from_packet_tp_def by (cases p) (auto intro!: ok_rbind ok_set)

lemma ok_nw: "\<not> m_locked m \<Longrightarrow> ok_step (from_packet_nw s p m)"
  unfolding from_packet_nw_def by (cases p) (auto intro!: ok_rbind ok_set ok_tp)

lemma ok_snap: "\<not> m_locked m \<Longrightarrow> ok_pair (from_packet_snap p m)"
  unfolding from_packet_snap_def by (cases p) (auto intro!: ok_rbind_pair ok_pair_Inr ok_set)

lemma ok_vlan: "\<not> m_locked m \<Longrightarrow> ok_pair (from_packet_vlan p m)"
  unfolding from_packet_vlan_def by (cases p) (auto intro!: ok_rbind_pair ok_pair_Inr ok_set)

lemma ok_dl: "\<not> m_locked m \<Longrightarrow> ok_pair (from_packet_dl e m)"
  unfolding from_packet_dl_def
  by (intro ok_rbind_pair ok_pair_rbind ok_snap) (auto intro!: ok_set ok_vlan)

lemma from_packet_total: "\<exists>m. from_packet e n s = Inr m \<and> \<not> m_locked m"
proof -
  have "ok_step (case n of None \<Rightarrow> Inr ofp_match_init | Some n \<Rightarrow> set_in_port (Some n) ofp_match_init)"
    using ok_set(1,13) [of ofp_match_init] by (auto simp: ofp_match_init_def split: option.splits)
  then obtain m where m: "(case n of None \<Rightarrow> Inr ofp_match_init | Some n \<Rightarrow> set_in_port (Some n) ofp_match_init) = Inr m"
    "\<not> m_locked m"
    by (auto simp: ok_step_def)
  obtain m' p where "from_packet_dl e m = Inr (m', p)" "\<not> m_locked m'"
    using ok_dl [OF m(2), of e] unfolding ok_pair_def by blast
  with m ok_nw [of m' s p] show ?thesis by (simp add: from_packet_def ok_step_def)
qed

end
