(* ===== verification/FlowTable.thy ===== *)
theory FlowTable
  imports Packet OF_Stats "HOL-Library.Multiset" "HOL-Library.Sublist"
begin

text \<open>
  \<^verbatim>\<open>openflow/flow_table.py\<close>: table entries and the flow table of a switch. The table is a list kept in
  descending order of effective priority; entries are compared by object identity, which a
  number per entry stands for. Time is counted in nanoseconds. An operation that raises a
  \<^verbatim>\<open>FlowTableModification\<close> returns it beside the new table. The order of the table is used through
  the interface \<open>priority_table\<close>.
\<close>

section \<open>Table entries\<close>

definition OFPRR_IDLE_TIMEOUT :: int where "OFPRR_IDLE_TIMEOUT = 0"
definition OFPRR_HARD_TIMEOUT :: int where "OFPRR_HARD_TIMEOUT = 1"
definition OFPRR_DELETE :: int where "OFPRR_DELETE = 2"

record TableEntry =
  te_id :: nat
  te_created :: int
  te_last_touched :: int
  te_byte_count :: int
  te_packet_count :: int
  te_priority :: int
  te_cookie :: int
  te_idle_timeout :: int
  te_hard_timeout :: int
  te_flags :: int
  te_match :: ofp_match
  te_actions :: "ofp_action list"
  te_buffer_id :: "int option"

text \<open>A new object \<open>i\<close> made from a flow-mod at time \<open>now\<close>.\<close>

definition from_flow_mod :: "nat \<Rightarrow> int \<Rightarrow> ofp_flow_mod \<Rightarrow> TableEntry" where
  "from_flow_mod i now flow_mod =
     \<lparr>te_id = i, te_created = now, te_last_touched = now, te_byte_count = 0, te_packet_count = 0,
      te_priority = fm_priority flow_mod, te_cookie = fm_cookie flow_mod,
      te_idle_timeout = fm_idle_timeout flow_mod, te_hard_timeout = fm_hard_timeout flow_mod,
      te_flags = fm_flags flow_mod, te_match = fm_match flow_mod, te_actions = fm_actions flow_mod,
      te_buffer_id = buffer_id_get (fm_buffer_id flow_mod)\<rparr>"

definition to_flow_mod :: "TableEntry \<Rightarrow> int option \<Rightarrow> ofp_flow_mod" where
  "to_flow_mod self flags = ofp_flow_mod_init
     \<lparr>fm_priority := te_priority self, fm_cookie := te_cookie self, fm_match := te_match self,
      fm_idle_timeout := te_idle_timeout self, fm_hard_timeout := te_hard_timeout self,
      fm_actions := te_actions self, fm_buffer_id := buffer_id_set (te_buffer_id self),
      fm_flags := case flags of None \<Rightarrow> te_flags self | Some f \<Rightarrow> f\<rparr>"

text \<open>An exact match has, in effect, infinite priority.\<close>

definition effective_priority :: "TableEntry \<Rightarrow> int" where
  "effective_priority self =
     (if is_wildcarded (te_match self) then te_priority self else push_bit 16 1 + 1)"

definition outputs_to :: "int \<Rightarrow> ofp_action \<Rightarrow> bool" where
  "outputs_to out_port a = (case a of AOutput x \<Rightarrow> ao_port x = Some out_port | _ \<Rightarrow> False)"

definition is_matched_by ::
  "TableEntry \<Rightarrow> ofp_match \<Rightarrow> int option \<Rightarrow> bool \<Rightarrow> int option \<Rightarrow> bool res"
where
  "is_matched_by self match priority strict out_port =
     (let port_matches = (case out_port of None \<Rightarrow> True | Some p \<Rightarrow> list_ex (outputs_to p) (te_actions self)) in
      if strict
      then Inr (port_matches \<and> ofp_match_eq (te_match self) match \<and> Some (te_priority self) = priority)
      else if port_matches then matches_with_wildcards match (te_match self) True
      else Inr False)"

definition touch_packet :: "TableEntry \<Rightarrow> int \<Rightarrow> int \<Rightarrow> TableEntry" where
  "touch_packet self byte_count now =
     self\<lparr>te_byte_count := te_byte_count self + byte_count, te_packet_count := te_packet_count self + 1,
          te_last_touched := now\<rparr>"

definition nsec :: int where "nsec = 1000000000"

definition is_idle_timed_out :: "TableEntry \<Rightarrow> int \<Rightarrow> bool" where
  "is_idle_timed_out self now \<longleftrightarrow>
     te_idle_timeout self > 0 \<and> now - te_last_touched self > te_idle_timeout self * nsec"

definition is_hard_timed_out :: "TableEntry \<Rightarrow> int \<Rightarrow> bool" where
  "is_hard_timed_out self now \<longleftrightarrow>
     te_hard_timeout self > 0 \<and> now - te_created self > te_hard_timeout self * nsec"

definition is_expired :: "TableEntry \<Rightarrow> int \<Rightarrow> bool" where
  "is_expired self now \<longleftrightarrow> is_idle_timed_out self now \<or> is_hard_timed_out self now"

text \<open>\<^verbatim>\<open>math.modf\<close> of a duration: the parts below and above a second, both with the sign of the duration.\<close>

definition modf_ns :: "int \<Rightarrow> int \<times> int" where
  "modf_ns d = (sgn d * (\<bar>d\<bar> mod nsec), sgn d * (\<bar>d\<bar> div nsec))"

definition entry_flow_stats :: "TableEntry \<Rightarrow> int \<Rightarrow> ofp_flow_stats" where
  "entry_flow_stats self now =
     (let (dur_nsec, dur_sec) = modf_ns (now - te_created self) in
      ofp_flow_stats_init
        \<lparr>fs_match := te_match self, fs_duration_sec := dur_sec, fs_duration_nsec := dur_nsec,
         fs_priority := te_priority self, fs_idle_timeout := te_idle_timeout self,
         fs_hard_timeout := te_hard_timeout self, fs_cookie := te_cookie self,
         fs_packet_count := te_packet_count self, fs_byte_count := te_byte_count self,
         fs_actions := te_actions self\<rparr>)"

text \<open>The attribute \<^verbatim>\<open>hard_timeout\<close> that the code also sets on the message is no field of it and is never packed.\<close>

definition to_flow_removed :: "TableEntry \<Rightarrow> int \<Rightarrow> int \<Rightarrow> ofp_flow_removed" where
  "to_flow_removed self now reason =
     (let (dur_nsec, dur_sec) = modf_ns (now - te_created self) in
      ofp_flow_removed_init
        \<lparr>frm_match := te_match self, frm_cookie := te_cookie self, frm_priority := te_priority self,
         frm_reason := reason, frm_duration_sec := dur_sec, frm_duration_nsec := dur_nsec,
         frm_idle_timeout := te_idle_timeout self, frm_packet_count := te_packet_count self,
         frm_byte_count := te_byte_count self\<rparr>)"

section \<open>The table\<close>

type_synonym FlowTable = "TableEntry list"

record FlowTableModification =
  ev_added :: "TableEntry list"
  ev_removed :: "TableEntry list"
  ev_reason :: "int option"

text \<open>The binary search for the first place where the priority is not below the entry there.\<close>

function search_loop :: "int \<Rightarrow> FlowTable \<Rightarrow> nat \<Rightarrow> nat \<Rightarrow> nat" where
  "search_loop priority table low high =
     (if low < high then
        (let middle = (low + high) div 2 in
         if priority \<ge> effective_priority (table ! middle)
         then search_loop priority table low middle
         else search_loop priority table (middle + 1) high)
      else low)"
  by pat_completeness auto

termination search_loop
  by (relation "measure (\<lambda>(p, t, low, high). high - low)") auto

declare search_loop.simps [simp del]

definition add_entry :: "TableEntry \<Rightarrow> FlowTable \<Rightarrow> FlowTable \<times> FlowTableModification" where
  "add_entry entry table =
     (let low = search_loop (effective_priority entry) table 0 (length table) in
      (take low table @ entry # drop low table, \<lparr>ev_added = [entry], ev_removed = [], ev_reason = None\<rparr>))"

text \<open>\<^verbatim>\<open>list.remove\<close> takes out the first occurrence or raises.\<close>

fun remove_object :: "nat \<Rightarrow> FlowTable \<Rightarrow> FlowTable res" where
  "remove_object i [] = Inl ValueError"
| "remove_object i (e # es) =
     (if te_id e = i then Inr es else rbind (remove_object i es) (\<lambda>es. Inr (e # es)))"

definition remove_entry ::
  "TableEntry \<Rightarrow> int option \<Rightarrow> FlowTable \<Rightarrow> (FlowTable \<times> FlowTableModification) res"
where
  "remove_entry entry reason table =
     rbind (remove_object (te_id entry) table) (\<lambda>table.
       Inr (table, \<lparr>ev_added = [], ev_removed = [entry], ev_reason = reason\<rparr>))"

fun filterM :: "('a \<Rightarrow> bool res) \<Rightarrow> 'a list \<Rightarrow> 'a list res" where
  "filterM p [] = Inr []"
| "filterM p (x # xs) =
     rbind (p x) (\<lambda>b. rbind (filterM p xs) (\<lambda>ys. Inr (if b then x # ys else ys)))"

definition matching_entries ::
  "FlowTable \<Rightarrow> ofp_match \<Rightarrow> int option \<Rightarrow> bool \<Rightarrow> int option \<Rightarrow> TableEntry list res"
where
  "matching_entries table match priority strict out_port =
     filterM (\<lambda>e. is_matched_by e match priority strict out_port) table"

definition table_flow_stats :: "FlowTable \<Rightarrow> ofp_match \<Rightarrow> int option \<Rightarrow> int \<Rightarrow> ofp_flow_stats list res" where
  "table_flow_stats table match out_port now =
     rbind (matching_entries table match (Some 0) False out_port) (\<lambda>mc_es.
       Inr (map (\<lambda>e. entry_flow_stats e now) mc_es))"

definition aggregate_stats :: "FlowTable \<Rightarrow> ofp_match \<Rightarrow> int option \<Rightarrow> ofp_aggregate_stats res" where
  "aggregate_stats table match out_port =
     rbind (matching_entries table match (Some 0) False out_port) (\<lambda>mc_es.
       Inr (foldl (\<lambda>s e. s\<lparr>ags_packet_count := ags_packet_count s + te_packet_count e,
                           ags_byte_count := ags_byte_count s + te_byte_count e,
                           ags_flow_count := ags_flow_count s + 1\<rparr>)
              ofp_aggregate_stats_init mc_es))"

text \<open>The removal loop: index \<open>i\<close>, the identities still to remove, in-place deletion.\<close>

function remove_loop :: "FlowTable \<Rightarrow> nat \<Rightarrow> nat set \<Rightarrow> FlowTable \<times> nat set" where
  "remove_loop table i remove_flows =
     (if i < length table then
        (let entry = table ! i in
         if te_id entry \<in> remove_flows then
           (let table = take i table @ drop (i + 1) table;
                remove_flows = remove_flows - {te_id entry} in
            if remove_flows = {} then (table, remove_flows)
            else remove_loop table i remove_flows)
         else remove_loop table (i + 1) remove_flows)
      else (table, remove_flows))"
  by pat_completeness auto

termination remove_loop
  by (relation "measure (\<lambda>(t, i, r). length t - i)") auto

declare remove_loop.simps [simp del]

definition remove_specific_entries ::
  "TableEntry list \<Rightarrow> int option \<Rightarrow> FlowTable \<Rightarrow> (FlowTable \<times> FlowTableModification list) res"
where
  "remove_specific_entries flows reason table =
     (if flows = [] then Inr (table, [])
      else let (table, rest) = remove_loop table 0 (set (map te_id flows)) in
           if rest = {}
           then Inr (table, [\<lparr>ev_added = [], ev_removed = flows, ev_reason = reason\<rparr>])
           else Inl AssertionError)"

text \<open>The loop that sorts the timed-out entries into the idle and the hard ones.\<close>

definition idle_entries :: "int \<Rightarrow> FlowTable \<Rightarrow> TableEntry list" where
  "idle_entries now table = filter (\<lambda>e. is_idle_timed_out e now) table"

definition hard_entries :: "int \<Rightarrow> FlowTable \<Rightarrow> TableEntry list" where
  "hard_entries now table = filter (\<lambda>e. \<not> is_idle_timed_out e now \<and> is_hard_timed_out e now) table"

definition remove_expired_entries :: "int \<Rightarrow> FlowTable \<Rightarrow> (FlowTable \<times> FlowTableModification list) res" where
  "remove_expired_entries now table =
     (let idle = idle_entries now table; hard = hard_entries now table in
      rbind (remove_specific_entries idle (Some OFPRR_IDLE_TIMEOUT) table) (\<lambda>(table, ev1).
      rbind (remove_specific_entries hard (Some OFPRR_HARD_TIMEOUT) table) (\<lambda>(table, ev2).
      Inr (table, ev1 @ ev2))))"

definition remove_matching_entries ::
  "ofp_match \<Rightarrow> int option \<Rightarrow> bool \<Rightarrow> int option \<Rightarrow> int option \<Rightarrow> FlowTable \<Rightarrow>
   (TableEntry list \<times> FlowTable \<times> FlowTableModification list) res"
where
  "remove_matching_entries match priority strict out_port reason table =
     rbind (matching_entries table match priority strict out_port) (\<lambda>remove_flows.
     rbind (remove_specific_entries remove_flows reason table) (\<lambda>(table, ev).
     Inr (remove_flows, table, ev)))"

fun first_matching :: "ofp_match \<Rightarrow> FlowTable \<Rightarrow> TableEntry option res" where
  "first_matching packet_match [] = Inr None"
| "first_matching packet_match (entry # es) =
     rbind (matches_with_wildcards (te_match entry) packet_match False) (\<lambda>b.
       if b then Inr (Some entry) else first_matching packet_match es)"

definition entry_for_packet :: "FlowTable \<Rightarrow> ethernet \<Rightarrow> int \<Rightarrow> TableEntry option res" where
  "entry_for_packet table packet in_port =
     rbind (from_packet packet (Some in_port) True) (\<lambda>packet_match. first_matching packet_match table)"

fun overlap_loop :: "int \<Rightarrow> TableEntry \<Rightarrow> FlowTable \<Rightarrow> bool res" where
  "overlap_loop priority in_entry [] = Inr False"
| "overlap_loop priority in_entry (e # es) =
     (if effective_priority e < priority then Inr False
      else if effective_priority e > priority then overlap_loop priority in_entry es
      else
        rbind (is_matched_by e (te_match in_entry) None False None) (\<lambda>b.
        if b then Inr True
        else rbind (is_matched_by in_entry (te_match e) None False None) (\<lambda>b.
             if b then Inr True else overlap_loop priority in_entry es)))"

definition check_for_overlapping_entry :: "FlowTable \<Rightarrow> TableEntry \<Rightarrow> bool res" where
  "check_for_overlapping_entry table in_entry =
     overlap_loop (effective_priority in_entry) in_entry table"

text \<open>Writing through a reference to an entry of the table.\<close>

definition update_entry :: "nat \<Rightarrow> (TableEntry \<Rightarrow> TableEntry) \<Rightarrow> FlowTable \<Rightarrow> FlowTable" where
  "update_entry i f table = map (\<lambda>e. if te_id e = i then f e else e) table"

section \<open>Tables in priority order\<close>

definition ordered :: "('e \<Rightarrow> int) \<Rightarrow> 'e list \<Rightarrow> bool" where
  "ordered key xs \<longleftrightarrow> sorted_wrt (\<lambda>x y. key y \<le> key x) xs"

lemma ordered_simps [simp]:
  "ordered key []"
  "ordered key (x # xs) \<longleftrightarrow> (\<forall>y\<in>set xs. key y \<le> key x) \<and> ordered key xs"
  by (simp_all add: ordered_def)

lemma ordered_append:
  "ordered key (xs @ ys) \<longleftrightarrow> ordered key xs \<and> ordered key ys \<and> (\<forall>x\<in>set xs. \<forall>y\<in>set ys. key y \<le> key x)"
  by (auto simp: ordered_def sorted_wrt_append)

lemma ordered_filter [intro]: "ordered key xs \<Longrightarrow> ordered key (filter P xs)"
  by (simp add: ordered_def sorted_wrt_filter)

lemma ordered_map_cong: "(\<And>x. key (f x) = key x) \<Longrightarrow> ordered key (map f xs) \<longleftrightarrow> ordered key xs"
  by (simp add: ordered_def sorted_wrt_map)

lemma ordered_nth: "ordered key xs \<Longrightarrow> i \<le> j \<Longrightarrow> j < length xs \<Longrightarrow> key (xs ! j) \<le> key (xs ! i)"
  by (cases "i = j") (auto simp: ordered_def sorted_wrt_iff_nth_less)

lemma ordered_sorted: "ordered key xs \<Longrightarrow> sorted (map (\<lambda>x. - key x) xs)"
  by (simp add: ordered_def sorted_map)

lemma find_mem: "find P xs = Some x \<Longrightarrow> x \<in> set xs \<and> P x"
  by (induction xs) (auto split: if_splits)

text \<open>
  What the users of the table rely on: an operation that inserts an entry into an ordered list
  at the first place where no entry with a higher key is left.
\<close>

locale priority_table =
  fixes key :: "'e \<Rightarrow> int" and ins :: "'e \<Rightarrow> 'e list \<Rightarrow> 'e list"
  assumes ins_place:
    "ordered key xs \<Longrightarrow>
     ins e xs = takeWhile (\<lambda>x. key e < key x) xs @ e # dropWhile (\<lambda>x. key e < key x) xs"
begin

lemma ins_sort:
  assumes "ordered key xs"
  shows "ins e xs = sort_key (\<lambda>x. - key x) (e # xs)"
proof -
  have "insort_key (\<lambda>x. - key x) e xs =
      takeWhile (\<lambda>x. key e < key x) xs @ e # dropWhile (\<lambda>x. key e < key x) xs"
    by (induction xs) auto
  then show ?thesis
    using ins_place [OF assms] sort_key_id_if_sorted [OF ordered_sorted [OF assms]] by simp
qed

lemma ins_ordered: "ordered key xs \<Longrightarrow> ordered key (ins e xs)"
proof -
  assume "ordered key xs"
  moreover have "sorted_wrt (\<lambda>x y. key y \<le> key x) (sort_key (\<lambda>x. - key x) (e # xs))"
    using sorted_sort_key [of "\<lambda>x. - key x" "e # xs"] unfolding sorted_map by simp
  ultimately show ?thesis using ins_sort unfolding ordered_def by simp
qed

lemma mset_ins: "ordered key xs \<Longrightarrow> mset (ins e xs) = add_mset e (mset xs)"
  by (simp add: ins_sort del: sort_key_simps)

lemma set_ins: "ordered key xs \<Longrightarrow> set (ins e xs) = insert e (set xs)"
  using mset_ins [of xs e] by (metis set_mset_add_mset_insert set_mset_mset)

lemma distinct_ins: "ordered key xs \<Longrightarrow> distinct (map f (ins e xs)) \<longleftrightarrow> distinct (map f (e # xs))"
proof -
  assume "ordered key xs"
  then have "mset (map f (ins e xs)) = mset (map f (e # xs))"
    using mset_ins [of xs e] by simp
  then show ?thesis by (rule mset_eq_imp_distinct_iff)
qed

text \<open>A scan from the front finds an element of the greatest key that qualifies.\<close>

lemma find_greatest:
  assumes "ordered key xs" "find P xs = Some e" "x \<in> set xs" "P x"
  shows "key x \<le> key e"
  using assms by (induction xs) (auto split: if_splits)

text \<open>Among entries of one key the scan finds the newest one.\<close>

lemma find_ins:
  assumes "ordered key xs" "P e" "\<And>x. x \<in> set xs \<Longrightarrow> P x \<Longrightarrow> key x \<le> key e"
  shows "find P (ins e xs) = Some e"
proof -
  have "find P (takeWhile (\<lambda>x. key e < key x) xs @ ys) = find P ys" for ys
    using assms(3) by (induction xs) fastforce+
  with assms show ?thesis by (simp add: ins_place)
qed

text \<open>Entries with a lower key do not change what a scan for higher ones finds.\<close>

lemma find_ins_below:
  assumes "ordered key xs" "find P xs = Some x" "key e < key x"
  shows "find P (ins e xs) = Some x"
proof -
  have "find P (takeWhile (\<lambda>x. key e < key x) xs @ ys) = Some x" for ys
    using assms find_mem by (induction xs) (fastforce split: if_splits)+
  with assms show ?thesis by (simp add: ins_place)
qed

end

section \<open>Insertion by binary search\<close>

lemma search_loop_place:
  assumes "ordered effective_priority table" "low \<le> high" "high \<le> length table"
    "\<And>i. i < low \<Longrightarrow> p < effective_priority (table ! i)"
    "\<And>i. high \<le> i \<Longrightarrow> i < length table \<Longrightarrow> effective_priority (table ! i) \<le> p"
  shows "search_loop p table low high \<le> length table \<and>
    (\<forall>i < search_loop p table low high. p < effective_priority (table ! i)) \<and>
    (\<forall>i. search_loop p table low high \<le> i \<longrightarrow> i < length table \<longrightarrow> effective_priority (table ! i) \<le> p)"
  using assms
proof (induction p table low high rule: search_loop.induct)
  case (1 p table low high)
  let ?m = "(low + high) div 2"
  show ?case
  proof (cases "low < high")
    case True
    then have m: "low \<le> ?m" "?m < high" by auto
    have ord: "\<And>i j. i \<le> j \<Longrightarrow> j < length table \<Longrightarrow>
        effective_priority (table ! j) \<le> effective_priority (table ! i)"
      using "1.prems"(1) by (rule ordered_nth)
    show ?thesis
    proof (cases "effective_priority (table ! ?m) \<le> p")
      case le: True
      have eq: "search_loop p table low high = search_loop p table low ?m"
        using True le by (subst search_loop.simps) (simp add: Let_def)
      have "effective_priority (table ! i) \<le> p" if "?m \<le> i" "i < length table" for i
        using ord [OF that] le by simp
      with m "1.prems" show ?thesis
        unfolding eq by (intro "1.IH"(1) [OF True refl le]) auto
    next
      case gt: False
      have eq: "search_loop p table low high = search_loop p table (?m + 1) high"
        using True gt by (subst search_loop.simps) (simp add: Let_def)
      have "p < effective_priority (table ! i)" if "i < ?m + 1" for i
        using ord [of i ?m] that gt m "1.prems"(3) by simp
      with m "1.prems" show ?thesis
        unfolding eq by (intro "1.IH"(2) [OF True refl gt]) auto
    qed
  next
    case False
    with "1.prems" show ?thesis using search_loop.simps [of p table low high] by simp
  qed
qed

lemma add_entry_place:
  assumes "ordered effective_priority table"
  shows "fst (add_entry e table) =
    takeWhile (\<lambda>x. effective_priority e < effective_priority x) table @
    e # dropWhile (\<lambda>x. effective_priority e < effective_priority x) table"
proof -
  let ?P = "\<lambda>x. effective_priority e < effective_priority x"
  define r where "r = search_loop (effective_priority e) table 0 (length table)"
  have r: "r \<le> length table" "\<And>i. i < r \<Longrightarrow> ?P (table ! i)"
    "\<And>i. r \<le> i \<Longrightarrow> i < length table \<Longrightarrow> \<not> ?P (table ! i)"
    using search_loop_place [OF assms, of 0 "length table" "effective_priority e"]
    unfolding r_def by (auto simp: not_less)
  then have "takeWhile ?P table = take r table"
    by (intro takeWhile_eq_take_P_nth) auto
  moreover have "dropWhile ?P table = drop r table"
    using r calculation by (metis append_take_drop_id takeWhile_dropWhile_id append_same_eq same_append_eq)
  ultimately show ?thesis by (simp add: add_entry_def Let_def r_def)
qed

interpretation ft: priority_table effective_priority "\<lambda>e t. fst (add_entry e t)"
  by unfold_locales (rule add_entry_place)

section \<open>Selecting entries\<close>

definition matched :: "ofp_match \<Rightarrow> int option \<Rightarrow> bool \<Rightarrow> int option \<Rightarrow> TableEntry \<Rightarrow> bool" where
  "matched match priority strict out_port e \<longleftrightarrow> is_matched_by e match priority strict out_port = Inr True"

definition takes_packet :: "ofp_match \<Rightarrow> TableEntry \<Rightarrow> bool" where
  "takes_packet packet_match e \<longleftrightarrow> matches_with_wildcards (te_match e) packet_match False = Inr True"

lemma is_matched_by_total:
  "is_matched_by e match priority strict out_port = Inr (matched match priority strict out_port e)"
  by (auto simp: matched_def is_matched_by_def matches_iff Let_def)

lemma takes_packet_total:
  "matches_with_wildcards (te_match e) packet_match False = Inr (takes_packet packet_match e)"
  by (auto simp: takes_packet_def matches_iff)

lemma filterM_pure: "(\<And>x. p x = Inr (q x)) \<Longrightarrow> filterM p xs = Inr (filter q xs)"
  by (induction xs) simp_all

lemma matching_entries_filter:
  "matching_entries table match priority strict out_port =
     Inr (filter (matched match priority strict out_port) table)"
  unfolding matching_entries_def by (rule filterM_pure) (rule is_matched_by_total)

lemma first_matching_find: "first_matching pm table = Inr (find (takes_packet pm) table)"
  by (induction table) (simp_all add: takes_packet_total)

lemma entry_for_packet_find:
  "\<exists>pm. from_packet packet (Some in_port) True = Inr pm \<and>
        entry_for_packet table packet in_port = Inr (find (takes_packet pm) table)"
  using from_packet_total [of packet "Some in_port" True]
  by (auto simp: entry_for_packet_def first_matching_find)

section \<open>Removing entries\<close>

definition table_wf :: "FlowTable \<Rightarrow> bool" where
  "table_wf table \<longleftrightarrow> ordered effective_priority table \<and> distinct (map te_id table)"

lemma table_wf_filter [intro]: "table_wf table \<Longrightarrow> table_wf (filter P table)"
  by (auto simp: table_wf_def distinct_map_filter)

lemma remove_loop_done: "remove_loop (pre @ e # es) (length pre) R =
   (if te_id e \<in> R then
      (if R - {te_id e} = {} then (pre @ es, {}) else remove_loop (pre @ es) (length pre) (R - {te_id e}))
    else remove_loop ((pre @ [e]) @ es) (length (pre @ [e])) R)"
  by (subst remove_loop.simps) (simp add: Let_def)

lemma filter_absent: "(\<And>x. x \<in> set xs \<Longrightarrow> f x \<notin> R) \<Longrightarrow> filter (\<lambda>x. f x \<notin> R) xs = xs"
  by (simp add: filter_id_conv)

lemma remove_loop_filter:
  assumes "distinct (map te_id suf)" "R \<noteq> {}" "R \<subseteq> te_id ` set suf"
  shows "remove_loop (pre @ suf) (length pre) R = (pre @ filter (\<lambda>e. te_id e \<notin> R) suf, {})"
  using assms
proof (induction suf arbitrary: pre R)
  case Nil
  then show ?case by simp
next
  case (Cons e es)
  show ?case
  proof (cases "te_id e \<in> R")
    case True
    then have eq: "filter (\<lambda>x. te_id x \<notin> R) (e # es) = filter (\<lambda>x. te_id x \<notin> R - {te_id e}) es"
      using Cons.prems(1) by (auto intro!: filter_cong) (metis image_eqI)
    show ?thesis
    proof (cases "R - {te_id e} = {}")
      case sole: True
      then have "filter (\<lambda>x. te_id x \<notin> R - {te_id e}) es = es" by (simp only: sole) simp
      with sole show ?thesis unfolding eq remove_loop_done using True by simp
    next
      case False
      moreover have "R - {te_id e} \<subseteq> te_id ` set es" using Cons.prems(3) by auto
      ultimately show ?thesis
        unfolding eq remove_loop_done using True Cons.IH [of "R - {te_id e}" pre] Cons.prems(1) by simp
    qed
  next
    case False
    moreover have "R \<subseteq> te_id ` set es" using False Cons.prems(3) by auto
    ultimately show ?thesis
      unfolding remove_loop_done using Cons.IH [of R "pre @ [e]"] Cons.prems by simp
  qed
qed

definition removal :: "TableEntry list \<Rightarrow> int option \<Rightarrow> FlowTableModification list" where
  "removal flows reason =
     (if flows = [] then [] else [\<lparr>ev_added = [], ev_removed = flows, ev_reason = reason\<rparr>])"

lemma remove_specific_ids:
  assumes "distinct (map te_id table)" "te_id ` set flows \<subseteq> te_id ` set table"
  shows "remove_specific_entries flows reason table =
    Inr (filter (\<lambda>e. te_id e \<notin> te_id ` set flows) table, removal flows reason)"
proof (cases "flows = []")
  case False
  with assms show ?thesis
    using remove_loop_filter [of table "te_id ` set flows" "[]"]
    by (simp add: remove_specific_entries_def removal_def)
qed (simp add: remove_specific_entries_def removal_def filter_absent)

lemma distinct_id_eq:
  "distinct (map te_id table) \<Longrightarrow> x \<in> set table \<Longrightarrow> y \<in> set table \<Longrightarrow> te_id x = te_id y \<Longrightarrow> x = y"
  by (metis distinct_map inj_onD)

text \<open>Entries picked from the table by a predicate are removed, all of them and no others.\<close>

lemma remove_specific_filter:
  assumes "distinct (map te_id table)"
  shows "remove_specific_entries (filter P table) reason table =
    Inr (filter (\<lambda>e. \<not> P e) table, removal (filter P table) reason)"
proof -
  have "te_id e \<notin> te_id ` set (filter P table) \<longleftrightarrow> \<not> P e" if "e \<in> set table" for e
    using that assms distinct_id_eq by fastforce
  then have "filter (\<lambda>e. te_id e \<notin> te_id ` set (filter P table)) table = filter (\<lambda>e. \<not> P e) table"
    by (rule filter_cong [OF refl])
  then show ?thesis
    using remove_specific_ids [OF assms, of "filter P table" reason] by auto
qed

lemma remove_matching_eq:
  assumes "distinct (map te_id table)"
  shows "remove_matching_entries match priority strict out_port reason table =
    (let hit = matched match priority strict out_port in
     Inr (filter hit table, filter (\<lambda>e. \<not> hit e) table, removal (filter hit table) reason))"
  by (simp add: remove_matching_entries_def matching_entries_filter remove_specific_filter [OF assms] Let_def)

lemma remove_expired_eq:
  assumes "distinct (map te_id table)"
  shows "remove_expired_entries now table =
    Inr (filter (\<lambda>e. \<not> is_expired e now) table,
         removal (idle_entries now table) (Some OFPRR_IDLE_TIMEOUT) @
         removal (hard_entries now table) (Some OFPRR_HARD_TIMEOUT))"
proof -
  let ?I = "\<lambda>e. is_idle_timed_out e now" and ?H = "\<lambda>e. is_hard_timed_out e now"
  define t1 where "t1 = filter (\<lambda>e. \<not> ?I e) table"
  have d: "distinct (map te_id t1)" unfolding t1_def using assms by (rule distinct_map_filter)
  have "hard_entries now table = filter ?H t1"
    by (auto simp: hard_entries_def t1_def intro!: filter_cong)
  moreover have "filter (\<lambda>e. \<not> ?H e) t1 = filter (\<lambda>e. \<not> is_expired e now) table"
    by (auto simp: t1_def is_expired_def intro!: filter_cong)
  ultimately show ?thesis
    using remove_specific_filter [OF assms, of ?I] remove_specific_filter [OF d, of ?H]
    by (simp add: remove_expired_entries_def idle_entries_def t1_def Let_def)
qed

lemma remove_object_split:
  "remove_object i table = Inr t \<Longrightarrow> \<exists>pre e suf. table = pre @ e # suf \<and> te_id e = i \<and> t = pre @ suf"
proof (induction table arbitrary: t)
  case (Cons e es)
  show ?case
  proof (cases "te_id e = i")
    case True
    with Cons.prems show ?thesis by (intro exI [of _ "[]"]) auto
  next
    case False
    with Cons.prems obtain t' where t': "remove_object i es = Inr t'" "t = e # t'"
      by (auto simp: rbind_Inr_iff)
    with Cons.IH obtain pre x suf where "es = pre @ x # suf" "te_id x = i" "t' = pre @ suf" by blast
    with t' show ?thesis by (intro exI [of _ "e # pre"]) auto
  qed
qed simp

section \<open>The table as a state machine\<close>

text \<open>
  Everything the switch does to its table: adding a new entry object, the removals, expiry, and
  writing the counters or the actions of an entry through a reference.
\<close>

inductive table_step :: "FlowTable \<Rightarrow> FlowTable \<Rightarrow> bool" where
  add: "te_id e \<notin> te_id ` set t \<Longrightarrow> table_step t (fst (add_entry e t))"
| remove: "remove_entry e reason t = Inr (t', ev) \<Longrightarrow> table_step t t'"
| remove_specific: "remove_specific_entries flows reason t = Inr (t', evs) \<Longrightarrow> table_step t t'"
| remove_matching:
    "remove_matching_entries m priority strict out_port reason t = Inr (fl, t', evs) \<Longrightarrow> table_step t t'"
| expire: "remove_expired_entries now t = Inr (t', evs) \<Longrightarrow> table_step t t'"
| touch: "table_step t (update_entry i (\<lambda>e. touch_packet e n now) t)"
| set_actions: "table_step t (map (\<lambda>e. if P e then e\<lparr>te_actions := acts\<rparr> else e) t)"

lemma remove_loop_subseq: "subseq (fst (remove_loop table i R)) table"
proof (induction table i R rule: remove_loop.induct)
  case (1 table i R)
  have drop_one: "subseq (take i table @ drop (i + 1) table) table" if "i < length table"
    by (metis Suc_eq_plus1 id_take_nth_drop list_emb_append_mono subseq_Cons' subseq_order.refl that)
  show ?case
  proof (cases "i < length table \<and> te_id (table ! i) \<in> R \<and> R - {te_id (table ! i)} \<noteq> {}")
    case True
    then show ?thesis
      using subseq_order.trans [OF 1(1) [OF _ refl _ refl refl] drop_one]
      by (subst remove_loop.simps) (simp add: Let_def)
  qed (use 1(2) drop_one in \<open>subst remove_loop.simps, auto simp: Let_def\<close>)
qed

lemma subseq_set_mono: "subseq xs ys \<Longrightarrow> set xs \<subseteq> set ys"
  by (induction rule: list_emb.induct) auto

lemma table_wf_subseq: "subseq t' t \<Longrightarrow> table_wf t \<Longrightarrow> table_wf t'"
  unfolding table_wf_def
  by (induction rule: list_emb.induct) (auto dest: subseq_set_mono)

lemma remove_specific_subseq:
  "remove_specific_entries flows reason t = Inr (t', evs) \<Longrightarrow> subseq t' t"
  using remove_loop_subseq [of t 0 "set (map te_id flows)"]
  by (auto simp: remove_specific_entries_def Let_def split: if_splits prod.splits)

inductive_cases table_stepE: "table_step t t'"

lemma update_entry_wf:
  assumes "\<And>e. te_id (f e) = te_id e" "\<And>e. effective_priority (f e) = effective_priority e" "table_wf t"
  shows "table_wf (update_entry i f t)"
proof -
  let ?g = "\<lambda>e. if te_id e = i then f e else e"
  have "te_id \<circ> ?g = te_id" using assms(1) by (auto simp: fun_eq_iff)
  with assms show ?thesis by (simp add: table_wf_def update_entry_def ordered_map_cong)
qed

lemma table_wf_step:
  assumes "table_step t t'" "table_wf t"
  shows "table_wf t'"
  using assms
proof (induction rule: table_step.induct)
  case (add e t)
  then show ?case using ft.ins_ordered [of t e] ft.distinct_ins [of t te_id e] by (simp add: table_wf_def)
next
  case (remove e reason t t' ev)
  then obtain pre x suf where "t = pre @ x # suf" "t' = pre @ suf"
    using remove_object_split by (fastforce simp: remove_entry_def rbind_Inr_iff)
  with remove.prems show ?case by (auto simp: table_wf_def ordered_append)
next
  case (remove_specific flows reason t t' evs)
  then show ?case by (blast intro: table_wf_subseq dest: remove_specific_subseq)
next
  case (remove_matching m priority strict out_port reason t fl t' evs)
  then show ?case
    using remove_matching_eq [of t m priority strict out_port reason]
    by (auto simp: table_wf_def Let_def distinct_map_filter)
next
  case (expire now t t' evs)
  then show ?case using remove_expired_eq [of t now] by (auto simp: table_wf_def distinct_map_filter)
next
  case (set_actions t P acts)
  let ?f = "\<lambda>e. if P e then e\<lparr>te_actions := acts\<rparr> else e"
  have "te_id \<circ> ?f = te_id" "\<And>e. effective_priority (?f e) = effective_priority e"
    by (auto simp: fun_eq_iff effective_priority_def)
  with set_actions show ?case by (simp add: table_wf_def ordered_map_cong)
qed (simp add: update_entry_wf touch_packet_def effective_priority_def)

lemma table_wf_steps: "table_step\<^sup>*\<^sup>* t t' \<Longrightarrow> table_wf t \<Longrightarrow> table_wf t'"
  by (induction rule: rtranclp_induct) (auto intro: table_wf_step)

section \<open>Properties\<close>

text \<open>
  In every table the operations can produce from the empty one, the entries stand in descending order
  of effective priority and no entry object occurs twice.
\<close>

theorem reachable_table_ordered:
  assumes "table_step\<^sup>*\<^sup>* [] t"
  shows "ordered effective_priority t \<and> distinct (map te_id t)"
  using table_wf_steps [OF assms] by (simp add: table_wf_def)

definition sample_entry :: "nat \<Rightarrow> int \<Rightarrow> ofp_match \<Rightarrow> TableEntry" where
  "sample_entry i p m = from_flow_mod i 0 (ofp_flow_mod_init\<lparr>fm_priority := p, fm_match := m, fm_idle_timeout := 10\<rparr>)"

lemma sample_table_reachable:
  "table_step\<^sup>*\<^sup>* [] [sample_entry 2 90 sample_match, sample_entry 1 5 sample_wide]"
proof -
  have "table_step [] (fst (add_entry (sample_entry 1 5 sample_wide) []))" by (rule table_step.add) simp
  moreover have "fst (add_entry (sample_entry 1 5 sample_wide) []) = [sample_entry 1 5 sample_wide]"
    by (simp add: add_entry_def search_loop.simps)
  moreover have "table_step [sample_entry 1 5 sample_wide]
      (fst (add_entry (sample_entry 2 90 sample_match) [sample_entry 1 5 sample_wide]))"
    by (rule table_step.add) (simp add: sample_entry_def from_flow_mod_def)
  moreover have "effective_priority (sample_entry 1 5 sample_wide) = 5"
      "effective_priority (sample_entry 2 90 sample_match) = 90"
    by code_simp+
  then have "fst (add_entry (sample_entry 2 90 sample_match) [sample_entry 1 5 sample_wide]) =
      [sample_entry 2 90 sample_match, sample_entry 1 5 sample_wide]"
    by (simp add: add_entry_place)
  ultimately show ?thesis by (metis converse_rtranclp_into_rtranclp rtranclp.rtrancl_refl)
qed

theorem reachable_table_ordered_witness:
  "ordered effective_priority [sample_entry 2 90 sample_match, sample_entry 1 5 sample_wide] \<and>
   distinct (map te_id [sample_entry 2 90 sample_match, sample_entry 1 5 sample_wide])"
  by (rule reachable_table_ordered [OF sample_table_reachable])

text \<open>
  C14. Inserting by binary search gives the same table as putting the entry in front and sorting the whole
  table by descending effective priority with a stable sort.
\<close>

theorem add_entry_is_stable_sort:
  assumes "ordered effective_priority t"
  shows "add_entry e t =
    (sort_key (\<lambda>x. - effective_priority x) (e # t), \<lparr>ev_added = [e], ev_removed = [], ev_reason = None\<rparr>)"
  using ft.ins_sort [OF assms, of e] by (simp add: add_entry_def Let_def)

theorem add_entry_is_stable_sort_witness:
  "add_entry (sample_entry 2 90 sample_match) [sample_entry 1 5 sample_wide] =
     (sort_key (\<lambda>x. - effective_priority x) [sample_entry 2 90 sample_match, sample_entry 1 5 sample_wide],
      \<lparr>ev_added = [sample_entry 2 90 sample_match], ev_removed = [], ev_reason = None\<rparr>)"
  by (rule add_entry_is_stable_sort) simp

text \<open>What a lookup owes: nothing when nothing matches, else an entry of the greatest effective priority.\<close>

definition highest_match :: "FlowTable \<Rightarrow> ofp_match \<Rightarrow> TableEntry option \<Rightarrow> bool" where
  "highest_match t pm r =
     (case r of
        None \<Rightarrow> \<forall>x\<in>set t. matches_with_wildcards (te_match x) pm False = Inr False
      | Some e \<Rightarrow> e \<in> set t \<and> matches_with_wildcards (te_match e) pm False = Inr True \<and>
          (\<forall>x\<in>set t. matches_with_wildcards (te_match x) pm False = Inr True \<longrightarrow>
             effective_priority x \<le> effective_priority e))"

text \<open>
  C15. Looking up a packet never raises. The answer is None only when no entry of the table matches the
  packet; otherwise it is an entry that matches and no matching entry has a higher effective priority.
\<close>

theorem entry_for_packet_highest:
  assumes "table_step\<^sup>*\<^sup>* [] t"
  shows "\<exists>pm r. from_packet packet (Some in_port) True = Inr pm \<and>
    entry_for_packet t packet in_port = Inr r \<and> highest_match t pm r"
proof -
  obtain pm where pm: "from_packet packet (Some in_port) True = Inr pm"
    "entry_for_packet t packet in_port = Inr (find (takes_packet pm) t)"
    using entry_for_packet_find by blast
  have "ordered effective_priority t" using table_wf_steps [OF assms] by (simp add: table_wf_def)
  then have "highest_match t pm (find (takes_packet pm) t)"
    using ft.find_greatest [of t "takes_packet pm"]
    by (auto simp: highest_match_def takes_packet_total find_None_iff dest: find_mem split: option.split)
  with pm show ?thesis by blast
qed

definition sample_frame :: ethernet where
  "sample_frame = ethernet_init\<lparr>e_type := 2048, e_parsed := True, e_payload :=
     PIpv4 ((ipv4_init 7)\<lparr>ip_iplen := 40, ip_protocol := 6, ip_srcip := IPAddr 16777226, ip_dstip := IPAddr 151126282,
              ip_parsed := True\<rparr>)
       (PTcp (tcp_init\<lparr>tcp_srcport := 4000, tcp_dstport := 80, tcp_off := 5, tcp_flags := 2, tcp_parsed := True\<rparr>)
         (PBytes []))\<rparr>"

lemma sample_frame_match: "from_packet sample_frame (Some 3) True = Inr sample_packet"
  by code_simp

theorem entry_for_packet_highest_witness:
  "\<exists>pm r. from_packet sample_frame (Some 3) True = Inr pm \<and>
    entry_for_packet [sample_entry 2 90 sample_match, sample_entry 1 5 sample_wide] sample_frame 3 = Inr r \<and>
    highest_match [sample_entry 2 90 sample_match, sample_entry 1 5 sample_wide] pm r"
  by (rule entry_for_packet_highest [OF sample_table_reachable])

text \<open>
  A new entry takes every packet it matches from the entries of its own effective priority and below:
  if no matching entry stands higher, the lookup after the insertion returns it.
\<close>

theorem newest_entry_wins:
  assumes "ordered effective_priority t" "from_packet packet (Some in_port) True = Inr pm"
    "matches_with_wildcards (te_match e) pm False = Inr True"
    "\<And>x. x \<in> set t \<Longrightarrow> matches_with_wildcards (te_match x) pm False = Inr True \<Longrightarrow>
       effective_priority x \<le> effective_priority e"
  shows "entry_for_packet (fst (add_entry e t)) packet in_port = Inr (Some e)"
  using assms ft.find_ins [OF assms(1), of "takes_packet pm" e]
  by (simp add: entry_for_packet_def first_matching_find takes_packet_total)

theorem newest_entry_wins_witness:
  "entry_for_packet (fst (add_entry (sample_entry 3 90 sample_wide) [sample_entry 2 90 sample_match])) sample_frame 3 =
     Inr (Some (sample_entry 3 90 sample_wide))"
proof (rule newest_entry_wins [OF _ sample_frame_match])
  show "matches_with_wildcards (te_match (sample_entry 3 90 sample_wide)) sample_packet False = Inr True"
    by code_simp
  have "effective_priority (sample_entry 2 90 sample_match) \<le> effective_priority (sample_entry 3 90 sample_wide)"
    by code_simp
  then show "effective_priority x \<le> effective_priority (sample_entry 3 90 sample_wide)"
    if "x \<in> set [sample_entry 2 90 sample_match]" for x
    using that by simp
qed simp

text \<open>
  Removing the entries that match returns exactly those entries, leaves exactly the others in their order,
  and raises one modification event when there was anything to remove and none otherwise. The final assertion
  of the removal loop never fails.
\<close>

theorem remove_matching_partitions:
  assumes "table_step\<^sup>*\<^sup>* [] t"
  shows "\<exists>hit. (\<forall>e. is_matched_by e m priority strict out_port = Inr (hit e)) \<and>
    remove_matching_entries m priority strict out_port reason t =
      Inr (filter hit t, filter (\<lambda>e. \<not> hit e) t,
           if filter hit t = [] then []
           else [\<lparr>ev_added = [], ev_removed = filter hit t, ev_reason = reason\<rparr>])"
  using table_wf_steps [OF assms] remove_matching_eq [of t m priority strict out_port reason]
  by (intro exI [of _ "matched m priority strict out_port"])
     (auto simp: is_matched_by_total table_wf_def Let_def removal_def)

theorem remove_matching_partitions_witness:
  "\<exists>hit. (\<forall>e. is_matched_by e sample_wide (Some 0) False None = Inr (hit e)) \<and>
    remove_matching_entries sample_wide (Some 0) False None (Some OFPRR_DELETE)
        [sample_entry 2 90 sample_match, sample_entry 1 5 sample_wide] =
      Inr (filter hit [sample_entry 2 90 sample_match, sample_entry 1 5 sample_wide],
           filter (\<lambda>e. \<not> hit e) [sample_entry 2 90 sample_match, sample_entry 1 5 sample_wide],
           if filter hit [sample_entry 2 90 sample_match, sample_entry 1 5 sample_wide] = [] then []
           else [\<lparr>ev_added = [], ev_removed = filter hit [sample_entry 2 90 sample_match, sample_entry 1 5 sample_wide],
                  ev_reason = Some OFPRR_DELETE\<rparr>])"
  by (rule remove_matching_partitions [OF sample_table_reachable])

text \<open>
  Expiry removes exactly the entries that have timed out; the entries that were idle too long are reported
  with the idle reason, the others with the hard reason.
\<close>

theorem remove_expired_exact:
  assumes "table_step\<^sup>*\<^sup>* [] t"
  shows "\<exists>evs. remove_expired_entries now t = Inr (filter (\<lambda>e. \<not> is_expired e now) t, evs) \<and>
    concat (map ev_removed evs) =
      filter (\<lambda>e. is_idle_timed_out e now) t @
      filter (\<lambda>e. \<not> is_idle_timed_out e now \<and> is_hard_timed_out e now) t \<and>
    (\<forall>ev\<in>set evs. \<forall>e\<in>set (ev_removed ev).
       ev_reason ev = Some (if is_idle_timed_out e now then OFPRR_IDLE_TIMEOUT else OFPRR_HARD_TIMEOUT))"
  using table_wf_steps [OF assms] remove_expired_eq [of t now]
  by (auto simp: table_wf_def removal_def idle_entries_def hard_entries_def)

theorem remove_expired_exact_witness:
  "\<exists>evs. remove_expired_entries (11 * nsec) [sample_entry 2 90 sample_match, sample_entry 1 5 sample_wide] =
      Inr (filter (\<lambda>e. \<not> is_expired e (11 * nsec)) [sample_entry 2 90 sample_match, sample_entry 1 5 sample_wide], evs)"
  using remove_expired_exact [OF sample_table_reachable, of "11 * nsec"] by blast

text \<open>
  C38. Stopping the overlap check at the first entry of lower priority loses nothing: on an ordered table the
  answer is whether any entry of the same effective priority covers the new one or is covered by it.
\<close>

theorem overlap_check_complete:
  assumes "ordered effective_priority t"
  shows "check_for_overlapping_entry t e =
    Inr (\<exists>x\<in>set t. effective_priority x = effective_priority e \<and>
      (matches_with_wildcards (te_match e) (te_match x) True = Inr True \<or>
       matches_with_wildcards (te_match x) (te_match e) True = Inr True))"
proof -
  have m: "is_matched_by a m None False None = matches_with_wildcards m (te_match a) True" for a m
    by (simp add: is_matched_by_def)
  have "overlap_loop p e t = Inr (\<exists>x\<in>set t. effective_priority x = p \<and>
      (matches_with_wildcards (te_match e) (te_match x) True = Inr True \<or>
       matches_with_wildcards (te_match x) (te_match e) True = Inr True))" for p
    using assms
  proof (induction t)
    case (Cons a t)
    show ?case
    proof (cases "effective_priority a < p")
      case True
      with Cons.prems show ?thesis by fastforce
    next
      case False
      with Cons show ?thesis by (auto simp: m matches_iff)
    qed
  qed simp
  then show ?thesis by (simp add: check_for_overlapping_entry_def)
qed

theorem overlap_check_complete_witness:
  "check_for_overlapping_entry [sample_entry 1 90 sample_wide] (sample_entry 2 90 sample_match) = Inr True"
proof -
  have "effective_priority (sample_entry 1 90 sample_wide) = effective_priority (sample_entry 2 90 sample_match)"
      "matches_with_wildcards (te_match (sample_entry 1 90 sample_wide)) (te_match (sample_entry 2 90 sample_match)) True
        = Inr True"
    by code_simp+
  then show ?thesis
    by (subst overlap_check_complete) simp_all
qed

definition cross_port :: ofp_match where
  "cross_port = ofp_match_init\<lparr>m_wildcards := m_wildcards ofp_match_init AND NOT OFPFW_IN_PORT, m_in_port := 3\<rparr>"

definition cross_type :: ofp_match where
  "cross_type = ofp_match_init\<lparr>m_wildcards := m_wildcards ofp_match_init AND NOT OFPFW_DL_TYPE, m_dl_type := 2048\<rparr>"

text \<open>
  The overlap check only sees containment: two entries of one priority whose matches cross, one on the input
  port and the other on the Ethernet type, pass it although a single packet matches both.
\<close>

theorem overlap_check_misses_crossing:
  "matches_with_wildcards cross_port sample_packet False = Inr True \<and>
   matches_with_wildcards cross_type sample_packet False = Inr True \<and>
   effective_priority (sample_entry 1 90 cross_port) = effective_priority (sample_entry 2 90 cross_type) \<and>
   check_for_overlapping_entry [sample_entry 1 90 cross_port] (sample_entry 2 90 cross_type) = Inr False"
  by code_simp

end
