(* ===== verification/Checksum.thy ===== *)
theory Checksum
  imports Pox_Prelude
begin

text \<open>
  The Internet checksum of \<^verbatim>\<open>pox/lib/packet/packet_utils.py\<close>. The code adds the words in the byte order of the host
  (\<^verbatim>\<open>array('H')\<close>), folds twice and brings the complement into network order. It is shown that the result is the same on
  every host, the one's complement of the one's complement sum of the big-endian words, and that a receiver who sums the
  data with the checksum in its place gets zero. The packet classes use the little-endian instance.
\<close>

text \<open>\<^verbatim>\<open>array.array('H', data)\<close> of an even number of bytes, on a big-endian host or not, and the words in network order.\<close>

definition host_word :: "bool \<Rightarrow> int \<Rightarrow> int \<Rightarrow> int" where
  "host_word big a b = (if big then 256 * a + b else a + 256 * b)"

fun host_array :: "bool \<Rightarrow> bytes \<Rightarrow> int list" where
  "host_array big (a # b # r) = host_word big (uint a) (uint b) # host_array big r"
| "host_array big _ = []"

fun net_words :: "bytes \<Rightarrow> int list" where
  "net_words (a # b # r) = (256 * uint a + uint b) # net_words r"
| "net_words [a] = [256 * uint a]"
| "net_words [] = []"

definition swap16 :: "int \<Rightarrow> int" where
  "swap16 v = 256 * (v mod 256) + v div 256 mod 256"

text \<open>\<^verbatim>\<open>socket.ntohs\<close>\<close>

definition host_ntohs :: "bool \<Rightarrow> int \<Rightarrow> int" where
  "host_ntohs big v = (if big then v else swap16 v)"

text \<open>The loop over the words; \<open>i\<close> is the index of the first one.\<close>

fun sum_words :: "int \<Rightarrow> int \<Rightarrow> int option \<Rightarrow> int list \<Rightarrow> int" where
  "sum_words start i skip_word [] = start"
| "sum_words start i skip_word (w # ws) =
     sum_words (if skip_word = Some i then start else start + w) (i + 1) skip_word ws"

definition host_checksum :: "bool \<Rightarrow> bytes \<Rightarrow> int \<Rightarrow> int option \<Rightarrow> int" where
  "host_checksum big data start skip_word =
     (let arr = host_array big (if odd (length data) then butlast data else data);
          start = sum_words start 0 skip_word arr;
          start = (if odd (length data) then start + host_word big (uint (last data)) 0 else start);
          start = drop_bit 16 start + (start AND 65535);
          start = start + drop_bit 16 start
      in host_ntohs big (NOT start AND 65535))"

lemma host_word_simps [simp]: "host_word False a b = a + 256 * b" "host_word True a b = 256 * a + b"
  by (simp_all add: host_word_def)

text \<open>The little-endian host.\<close>

abbreviation host_words :: "bytes \<Rightarrow> int list" where
  "host_words \<equiv> host_array False"

abbreviation ntohs :: "int \<Rightarrow> int" where
  "ntohs \<equiv> swap16"

definition checksum :: "bytes \<Rightarrow> int \<Rightarrow> int option \<Rightarrow> int" where
  "checksum = host_checksum False"

section \<open>Folding\<close>

lemma and_16: "(v :: int) AND 65535 = v mod 65536"
  using take_bit_eq_mask [of 16 v] by (simp add: take_bit_eq_mod mask_eq_exp_minus_1)

definition fold_sum :: "int \<Rightarrow> int" where
  "fold_sum s = (let t = s div 65536 + s mod 65536 in (t + t div 65536) mod 65536)"

lemma not_mod_16: "NOT (v :: int) mod 65536 = 65535 - v mod 65536"
proof -
  define q r where "q = v div 65536" and "r = v mod 65536"
  then have "v = 65536 * q + r" by simp
  then have "NOT v = (65535 - r) + 65536 * (- q - 1)" unfolding not_int_def by simp
  then have "NOT v mod 65536 = (65535 - v mod 65536) mod 65536" unfolding r_def by (metis mod_mult_self2)
  moreover have "v mod 65536 < 65536" "0 \<le> v mod 65536" by simp_all
  ultimately show ?thesis by simp
qed

lemma checksum_fold:
  "checksum data start skip_word =
     ntohs (65535 - fold_sum (sum_words start 0 skip_word
       (host_words (if odd (length data) then butlast data else data)) +
       (if odd (length data) then uint (last data) else 0)))"
  by (auto simp: checksum_def host_checksum_def host_ntohs_def host_word_def Let_def not_mod_16 and_16 fold_sum_def drop_bit_eq_div)

lemma fold_sum_props:
  assumes "0 \<le> s" "s < 4294967296"
  shows "0 \<le> fold_sum s" "fold_sum s \<le> 65535" "fold_sum s mod 65535 = s mod 65535"
    "fold_sum s = 0 \<longleftrightarrow> s = 0"
proof -
  define a b where "a = s div 65536" and "b = s mod 65536"
  have s: "s = 65536 * a + b" by (simp add: a_def b_def)
  have ab: "0 \<le> a" "a \<le> 65535" "0 \<le> b" "b \<le> 65535"
    using assms by (auto simp: a_def b_def)
  have f: "fold_sum s = (if a + b < 65536 then a + b else a + b - 65535)"
  proof (cases "a + b < 65536")
    case True
    then show ?thesis using ab by (simp add: fold_sum_def Let_def a_def b_def)
  next
    case False
    then have "(a + b) div 65536 = 1" using ab by simp
    then have "fold_sum s = (a + b - 65535 + 65536) mod 65536"
      by (simp add: fold_sum_def Let_def a_def [symmetric] b_def [symmetric] add.commute)
    also have "\<dots> = (a + b - 65535) mod 65536" by (rule mod_add_self2)
    finally show ?thesis using ab False by simp
  qed
  show "0 \<le> fold_sum s" "fold_sum s \<le> 65535" using f ab by auto
  have "s = (a + b) + 65535 * a" using s by simp
  then have "s mod 65535 = (a + b) mod 65535" by (metis mod_mult_self2)
  moreover have "fold_sum s mod 65535 = (a + b) mod 65535"
    using f by (simp add: mod_diff_right_eq [symmetric])
  ultimately show "fold_sum s mod 65535 = s mod 65535" by simp
  have "s = 0 \<longleftrightarrow> a + b = 0" using s ab by (cases "a = 0") auto
  then show "fold_sum s = 0 \<longleftrightarrow> s = 0" using f ab by auto
qed

lemma ntohs_mod: "0 \<le> v \<Longrightarrow> v < 65536 \<Longrightarrow> ntohs v mod 65535 = 256 * v mod 65535"
proof -
  assume v: "0 \<le> v" "v < 65536"
  have "v div 256 mod 256 = v div 256" using v by simp
  then have "256 * v = ntohs v + 65535 * (v div 256)"
    using mult_div_mod_eq [of 256 v] unfolding swap16_def by linarith
  then show ?thesis by simp
qed

lemma ntohs_bounds: "0 \<le> ntohs v" "ntohs v < 65536"
  by (simp_all add: swap16_def)

lemma ntohs_65535_minus: "0 \<le> f \<Longrightarrow> f \<le> 65535 \<Longrightarrow> ntohs (65535 - f) = 0 \<longleftrightarrow> f = 65535"
proof -
  assume "0 \<le> f" "f \<le> 65535"
  moreover define x where "x = 65535 - f"
  ultimately have x: "0 \<le> x" "x < 65536" by auto
  then have "x div 256 mod 256 = x div 256" "0 \<le> x div 256" "0 \<le> x mod 256" by auto
  then have "ntohs x = 0 \<longleftrightarrow> x = 0"
    using mult_div_mod_eq [of 256 x] unfolding swap16_def by linarith
  then show ?thesis by (auto simp: x_def)
qed

section \<open>Words\<close>

lemma net_host_words:
  "even (length data) \<Longrightarrow> sum_list (net_words data) mod 65535 = 256 * sum_list (host_words data) mod 65535"
proof (induction data rule: net_words.induct)
  case (1 a b r)
  have "256 * uint a + uint b + 65535 * uint b = 256 * (uint a + 256 * uint b)" by simp
  then have "(256 * uint a + uint b) mod 65535 = 256 * (uint a + 256 * uint b) mod 65535"
    by (metis mod_mult_self2)
  from mod_add_cong [OF this 1(1)] "1.prems" show ?case by (simp add: distrib_left)
qed auto

lemma host_words_append:
  "even (length a) \<Longrightarrow> host_words (a @ b) = host_words a @ host_words b"
  by (induction a rule: net_words.induct) auto

lemma net_words_append: "even (length a) \<Longrightarrow> net_words (a @ b) = net_words a @ net_words b"
  by (induction a rule: net_words.induct) auto

lemma host_words_bounds: "w \<in> set (host_words data) \<Longrightarrow> 0 \<le> w \<and> w \<le> 65535"
proof (induction data rule: net_words.induct)
  case (1 a b r)
  then show ?case using uint_lt2p [of a] uint_lt2p [of b] by auto
qed auto

lemma length_host_words: "length (host_words data) = length data div 2"
  by (induction data rule: net_words.induct) auto

lemma sum_words_None: "sum_words start i None ws = start + sum_list ws"
  by (induction ws arbitrary: start i) simp_all

lemma sum_words_skip:
  "i \<le> k \<Longrightarrow> sum_words start i (Some k) ws =
     start + sum_list ws - (if nat (k - i) < length ws then ws ! nat (k - i) else 0)"
proof (induction ws arbitrary: start i)
  case (Cons w ws)
  show ?case
  proof (cases "k = i")
    case True
    have past: "i < j \<Longrightarrow> sum_words s j (Some i) ws = s + sum_list ws" for s j
      by (induction ws arbitrary: s j) auto
    with True show ?thesis by simp
  next
    case False
    with Cons.prems have "nat (k - i) = Suc (nat (k - (i + 1)))" by simp
    with False Cons.prems Cons.IH [of "i + 1" "start + w"] show ?thesis by simp
  qed
qed simp

text \<open>The sum the code folds, for data of any length: an odd last byte is a word of its own.\<close>

definition host_sum :: "bytes \<Rightarrow> int" where
  "host_sum data = sum_list (host_words (if odd (length data) then butlast data else data)) +
     (if odd (length data) then uint (last data) else 0)"

lemma host_sum_append: "even (length a) \<Longrightarrow> host_sum (a @ b) = host_sum a + host_sum b"
proof (cases "b = []")
  case False
  assume "even (length a)"
  with False show ?thesis by (simp add: host_sum_def butlast_append host_words_append)
qed (simp add: host_sum_def)

lemma host_sum_net: "sum_list (net_words data) mod 65535 = 256 * host_sum data mod 65535"
proof (cases "odd (length data)")
  case True
  then have ne: "data \<noteq> []" by auto
  then have d: "data = butlast data @ [last data]" by simp
  from True ne have ev: "even (length (butlast data))" by simp
  have "sum_list (net_words data) = sum_list (net_words (butlast data)) + 256 * uint (last data)"
    using net_words_append [OF ev, of "[last data]"] d by simp
  with mod_add_cong [OF net_host_words [OF ev] refl, of "256 * uint (last data)"] True show ?thesis
    by (simp add: host_sum_def distrib_left)
next
  case False
  with net_host_words [of data] show ?thesis by (simp add: host_sum_def)
qed

lemma sum_list_bound: "(\<And>w. w \<in> set ws \<Longrightarrow> 0 \<le> w \<and> w \<le> (c :: int)) \<Longrightarrow> 0 \<le> sum_list ws \<and> sum_list ws \<le> c * int (length ws)"
  by (induction ws) (force simp: distrib_left)+

lemma host_sum_bounds: "length data \<le> 131072 \<Longrightarrow> 0 \<le> host_sum data \<and> host_sum data < 4294967296"
proof -
  assume len: "length data \<le> 131072"
  let ?d = "if odd (length data) then butlast data else data"
  have b: "0 \<le> sum_list (host_words ?d)" "sum_list (host_words ?d) \<le> 65535 * int (length (host_words ?d))"
    using sum_list_bound [of "host_words ?d" 65535] host_words_bounds [of _ ?d] by auto
  have l: "int (length (host_words ?d)) \<le> 65536" using len by (auto simp: length_host_words)
  have "uint (last data) < 256" "0 \<le> uint (last data)" using uint_lt2p [of "last data"] by auto
  moreover have "sum_list (host_words ?d) \<le> 4294901760" using b l by linarith
  ultimately show ?thesis using b(1) unfolding host_sum_def by (cases "odd (length data)") auto
qed

lemma checksum_host_sum: "checksum data 0 None = ntohs (65535 - fold_sum (host_sum data))"
  by (simp add: checksum_fold sum_words_None host_sum_def)

text \<open>A checksum of zero is the receiver's test: the sum is a positive multiple of 65535.\<close>

lemma checksum_zero_iff:
  assumes "length data \<le> 131072"
  shows "checksum data 0 None = 0 \<longleftrightarrow> 0 < host_sum data \<and> host_sum data mod 65535 = 0"
proof -
  note b = host_sum_bounds [OF assms] and p = fold_sum_props [of "host_sum data"]
  have "checksum data 0 None = 0 \<longleftrightarrow> fold_sum (host_sum data) = 65535"
    using b p by (simp add: checksum_host_sum ntohs_65535_minus)
  also have "\<dots> \<longleftrightarrow> 0 < fold_sum (host_sum data) \<and> fold_sum (host_sum data) mod 65535 = 0"
  proof -
    have "f mod 65535 = 0 \<longleftrightarrow> f = 65535" if "0 < f" "f \<le> 65535" for f :: int
      using that by (cases "f = 65535") auto
    then show ?thesis using p(1,2) b by (metis less_le zero_neq_numeral)
  qed
  finally show ?thesis using p b by auto
qed

text \<open>Storing the checksum, in network order, over the word it left out.\<close>

lemma host_sum_be2: "0 \<le> c \<Longrightarrow> c < 65536 \<Longrightarrow> host_sum (int_to_be 2 c) = ntohs c"
  by (simp add: host_sum_def numeral_2_eq_2 swap16_def uint_byte_of_int)

lemma checksum_stored:
  assumes even_pre: "even (length pre)" and len: "length pre + length post + 2 \<le> 131072"
    and c: "c = ntohs (65535 - fold_sum (host_sum pre + host_sum post)) \<or>
            c = 65535 \<and> ntohs (65535 - fold_sum (host_sum pre + host_sum post)) = 0"
  shows "checksum (pre @ int_to_be 2 c @ post) 0 None = 0"
proof -
  let ?s = "host_sum pre + host_sum post"
  have s: "0 \<le> ?s" "?s < 4294967296"
    using host_sum_bounds [of "pre @ post"] even_pre len by (auto simp: host_sum_append)
  note p = fold_sum_props [OF s]
  have nn: "ntohs (ntohs v) = v" if "0 \<le> v" "v < 65536" for v
    using that by (simp add: swap16_def) 
  have sum: "host_sum (pre @ int_to_be 2 c @ post) = ?s + ntohs c"
    using even_pre c ntohs_bounds by (auto simp: host_sum_append host_sum_be2)
  have pos: "0 < ?s + ntohs c \<and> (?s + ntohs c) mod 65535 = 0"
  proof (cases "c = ntohs (65535 - fold_sum ?s)")
    case True
    with nn p have nc: "ntohs c = 65535 - fold_sum ?s" by simp
    have "(?s + (65535 - fold_sum ?s)) mod 65535 = 0"
    proof -
      have "65535 dvd ?s - fold_sum ?s" using p(3) [symmetric] by (simp only: mod_eq_dvd_iff)
      then have "65535 dvd (?s - fold_sum ?s) + 65535" by (rule dvd_add) simp
      then show ?thesis by (simp add: algebra_simps)
    qed
    moreover have "0 < ?s + (65535 - fold_sum ?s)" using p s by auto
    ultimately show ?thesis by (simp add: nc)
  next
    case False
    with c have c': "c = 65535" "fold_sum ?s = 65535" using p by (auto simp: ntohs_65535_minus)
    then have "?s mod 65535 = 0" using p(3) by simp
    with c' s show ?thesis by (auto simp: swap16_def)
  qed
  then show ?thesis
    using checksum_zero_iff [of "pre @ int_to_be 2 c @ post"] len sum by simp
qed

text \<open>Leaving a word out, by storing zero in it or by skipping its index.\<close>

lemma checksum_zeroed:
  assumes "even (length pre)"
  shows "checksum (pre @ int_to_be 2 0 @ post) 0 None = ntohs (65535 - fold_sum (host_sum pre + host_sum post))"
  using assms by (simp add: checksum_host_sum host_sum_append host_sum_be2 swap16_def)

lemma checksum_skipped:
  assumes "even (length pre)" "k = int (length pre div 2)"
  shows "checksum (pre @ int_to_be 2 0 @ post) 0 (Some k) = ntohs (65535 - fold_sum (host_sum pre + host_sum post))"
proof -
  let ?d = "pre @ int_to_be 2 0 @ post"
  let ?e = "if odd (length ?d) then butlast ?d else ?d"
  have w: "int_to_be 2 0 = [0, 0]" by (simp add: numeral_2_eq_2)
  have e: "\<exists>q. ?e = pre @ int_to_be 2 0 @ q"
  proof (cases "odd (length ?d)")
    case True
    with assms have "post \<noteq> []" by (auto simp: w)
    then show ?thesis using True by (auto simp: butlast_append w)
  qed auto
  then obtain q where q: "?e = pre @ int_to_be 2 0 @ q" by blast
  have hw: "host_words ?e ! (length pre div 2) = 0" "length pre div 2 < length (host_words ?e)"
    unfolding q using assms by (simp_all add: host_words_append w nth_append length_host_words)
  have "sum_words 0 0 (Some k) (host_words ?e) = sum_list (host_words ?e)"
    using hw assms(2) by (simp add: sum_words_skip)
  then have "checksum ?d 0 (Some k) = checksum ?d 0 None"
    by (simp add: checksum_fold sum_words_None)
  then show ?thesis using checksum_zeroed [OF assms(1)] by simp
qed

lemmas checksum_fill = checksum_stored [OF _ _ disjI1]

section \<open>The same on every host\<close>

text \<open>The one's complement sum: carries are added at the other side.\<close>

definition ones_sum :: "int \<Rightarrow> int" where
  "ones_sum s = (if s = 0 then 0 else (s - 1) mod 65535 + 1)"

lemma ones_sum_fold:
  assumes "0 \<le> s" "s < 4294967296"
  shows "fold_sum s = ones_sum s"
proof (cases "s = 0")
  case False
  note p = fold_sum_props [OF assms]
  have "(fold_sum s - 1) mod 65535 = (s - 1) mod 65535" using p(3) by (rule mod_diff_cong) simp
  moreover have "0 < fold_sum s" using p False by auto
  then have "(fold_sum s - 1) mod 65535 = fold_sum s - 1" using p(2) by (intro mod_pos_pos_trivial) simp_all
  ultimately show ?thesis using False by (simp add: ones_sum_def)
qed (simp add: fold_sum_props ones_sum_def)

lemma swap16_complement:
  assumes "0 \<le> f" "f \<le> 65535"
  shows "swap16 (65535 - f) = 65535 - swap16 f"
proof -
  define h l where "h = f div 256" and "l = f mod 256"
  have f: "f = 256 * h + l" "0 \<le> l" "l < 256" "0 \<le> h" "h < 256" using assms by (auto simp: h_def l_def)
  have w: "swap16 (256 * x + y) = 256 * y + x" if "0 \<le> y" "y < 256" "0 \<le> x" "x < 256" for x y
    using that by (simp add: swap16_def)
  have "65535 - f = 256 * (255 - h) + (255 - l)" using f(1) by simp
  then have "swap16 (65535 - f) = 256 * (255 - l) + (255 - h)" using w [of "255 - l" "255 - h"] f by (simp only:)
  then show ?thesis using w [of l h] f by simp
qed

text \<open>The words of the two kinds of hosts, an odd last byte among them.\<close>

definition words_on :: "bool \<Rightarrow> bytes \<Rightarrow> int list" where
  "words_on big data = host_array big (if odd (length data) then butlast data else data) @
     (if odd (length data) then [host_word big (uint (last data)) 0] else [])"

lemma words_on_big: "words_on True data = net_words data"
  by (induction data rule: net_words.induct) (auto simp: words_on_def)

lemma words_on_step: "words_on big (a # b # r) = host_word big (uint a) (uint b) # words_on big r"
  by (auto simp: words_on_def)

lemma words_on_Nil: "words_on big [] = []" "words_on big [a] = [host_word big (uint a) 0]"
  by (simp_all add: words_on_def)

definition same_word :: "int \<Rightarrow> int \<Rightarrow> bool" where
  "same_word v w \<longleftrightarrow> 0 \<le> v \<and> v \<le> 65535 \<and> 0 \<le> w \<and> w \<le> 65535 \<and> (v = 0 \<longleftrightarrow> w = 0) \<and> v mod 65535 = 256 * w mod 65535"

lemma same_words: "list_all2 same_word (words_on True data) (words_on False data)"
proof (induction data rule: net_words.induct)
  case (1 a b r)
  have "256 * uint a + uint b + 65535 * uint b = 256 * (uint a + 256 * uint b)" by simp
  then have "(256 * uint a + uint b) mod 65535 = 256 * (uint a + 256 * uint b) mod 65535"
    by (metis mod_mult_self2)
  then have "same_word (256 * uint a + uint b) (uint a + 256 * uint b)"
    using uint_lt2p [of a] uint_lt2p [of b] uint_ge_0 [of a] uint_ge_0 [of b] unfolding same_word_def by (simp; linarith)
  with 1 show ?case by (simp add: words_on_step)
next
  case (2 a)
  show ?case using uint_lt2p [of a] by (auto simp: words_on_Nil same_word_def)
qed (simp add: words_on_Nil)

text \<open>Sums of the words, with one left out, agree up to the byte order.\<close>

lemma same_sums:
  assumes "list_all2 same_word vs ws" "0 \<le> t" "s = 0 \<longleftrightarrow> t = 0" "0 \<le> s" "s mod 65535 = 256 * t mod 65535"
  shows "0 \<le> sum_words s i k vs \<and> 0 \<le> sum_words t i k ws \<and> (sum_words s i k vs = 0 \<longleftrightarrow> sum_words t i k ws = 0) \<and>
    sum_words s i k vs mod 65535 = 256 * sum_words t i k ws mod 65535 \<and>
    sum_words s i k vs \<le> s + 65535 * int (length vs) \<and> sum_words t i k ws \<le> t + 65535 * int (length ws)"
  using assms
proof (induction vs ws arbitrary: s t i rule: list_all2_induct)
  case (Cons v vs w ws)
  show ?case
  proof (cases "k = Some i")
    case True
    then show ?thesis using Cons.IH [of t s "i + 1"] Cons.prems by (simp add: distrib_left; linarith)
  next
    case False
    have "(s + v) mod 65535 = (256 * t + 256 * w) mod 65535"
      using Cons.hyps(1) Cons.prems(4) by (intro mod_add_cong) (simp_all add: same_word_def)
    then have "(s + v) mod 65535 = 256 * (t + w) mod 65535" by (simp add: distrib_left)
    moreover have "s + v = 0 \<longleftrightarrow> t + w = 0" "0 \<le> s + v" "0 \<le> t + w" "v \<le> 65535" "w \<le> 65535"
      using Cons.hyps(1) Cons.prems by (auto simp: same_word_def)
    ultimately show ?thesis using Cons.IH [of "t + w" "s + v" "i + 1"] False by (simp add: distrib_left; linarith)
  qed
qed simp

lemma sum_words_append: "sum_words s i k (vs @ ws) = sum_words (sum_words s i k vs) (i + int (length vs)) k ws"
  by (induction vs arbitrary: s i) (simp_all add: ac_simps)

lemma length_host_array: "length (host_array big data) = length data div 2"
  by (induction data rule: net_words.induct) auto

lemma host_checksum_eq:
  assumes "skip_word \<noteq> Some (int (length data div 2))"
  shows "host_checksum big data 0 skip_word = host_ntohs big (65535 - fold_sum (sum_words 0 0 skip_word (words_on big data)))"
proof -
  have "odd (length data) \<Longrightarrow> (length data - Suc 0) div 2 = length data div 2" by (cases data) auto
  then show ?thesis using assms
    by (auto simp: host_checksum_def words_on_def sum_words_append length_host_array Let_def not_mod_16 and_16 fold_sum_def drop_bit_eq_div)
qed

section \<open>Property\<close>

text \<open>
  C36. For up to 131072 bytes, folding twice is enough and the byte order of the host does not show: on a little-endian and
  on a big-endian host the result is the complement of the one's complement sum of the big-endian words, an odd last
  byte padded with zero, and the word that is skipped left out; the word to skip is one of the data, not an odd last byte.
\<close>

theorem checksum_network_order:
  assumes "length data \<le> 131072" "skip_word \<noteq> Some (int (length data div 2))"
  shows "host_checksum big data 0 skip_word = 65535 - ones_sum (sum_words 0 0 skip_word (net_words data))"
proof -
  define s where "s = sum_words 0 0 skip_word (words_on True data)"
  define t where "t = sum_words 0 0 skip_word (words_on False data)"
  have "length (words_on b data) \<le> 65536" for b using assms(1) by (auto simp: words_on_def length_host_array)
  then have l: "int (length (words_on b data)) \<le> 65536" for b by (metis of_nat_le_iff of_nat_numeral)
  note f = same_sums [OF same_words order_refl, of 0 0 skip_word data, folded s_def t_def, simplified]
  have s: "0 \<le> s" "s < 4294967296" "0 \<le> t" "t < 4294967296" using f l [of True] l [of False] by linarith+
  note p = fold_sum_props [OF s(1,2)] and q = fold_sum_props [OF s(3,4)]
  have "swap16 (65535 - fold_sum t) = 65535 - fold_sum s"
  proof -
    have b: "0 \<le> swap16 (fold_sum t)" "swap16 (fold_sum t) \<le> 65535" using ntohs_bounds [of "fold_sum t"] by simp_all
    have "swap16 (fold_sum t) mod 65535 = 256 * fold_sum t mod 65535" using q by (intro ntohs_mod) simp_all
    also have "\<dots> = 256 * t mod 65535" using q(3) by (intro mod_mult_cong) simp_all
    also have "\<dots> = fold_sum s mod 65535" using f p(3) by simp
    finally have m: "swap16 (fold_sum t) mod 65535 = fold_sum s mod 65535" .
    have "swap16 (fold_sum t) = 0 \<longleftrightarrow> fold_sum t = 0"
      using swap16_complement [OF q(1,2)] ntohs_65535_minus [of "65535 - fold_sum t"] q(1,2)
      by (auto simp: swap16_def)
    then have z: "swap16 (fold_sum t) = 0 \<longleftrightarrow> fold_sum s = 0" using p(4) q(4) f by simp
    have u: "v = w" if "v mod 65535 = w mod 65535" "0 < v" "v \<le> 65535" "0 < w" "w \<le> 65535" for v w :: int
      using that by (cases "v = 65535"; cases "w = 65535") auto
    have "swap16 (fold_sum t) = fold_sum s"
    proof (cases "fold_sum s = 0")
      case False
      then show ?thesis using u [OF m] b z p(1,2) by linarith
    qed (use z in simp)
    then show ?thesis using swap16_complement [OF q(1,2)] by simp
  qed
  then show ?thesis
    using host_checksum_eq [OF assms(2), of big] ones_sum_fold [OF s(1,2)] words_on_big [of data]
    by (cases big) (simp_all add: host_ntohs_def s_def t_def)
qed

theorem checksum_network_order_witness:
  "host_checksum True [69, 0, 0, 40, 7] 0 (Some 1) = 46079 \<and> host_checksum False [69, 0, 0, 40, 7] 0 (Some 1) = 46079"
proof -
  have "65535 - ones_sum (sum_words 0 0 (Some 1) (net_words [69, 0, 0, 40, 7])) = 46079" by code_simp
  then show ?thesis using checksum_network_order [of "[69, 0, 0, 40, 7]" "Some 1"] by simp
qed

end
