(* ===== verification/Packet_Codec.thy ===== *)
theory Packet_Codec
  imports Packet Checksum
begin

text \<open>
  Parsing and packing of the packet classes: \<^verbatim>\<open>ethernet\<close>, \<^verbatim>\<open>vlan\<close>, \<^verbatim>\<open>llc\<close>, \<^verbatim>\<open>arp\<close>, \<^verbatim>\<open>ipv4\<close>, \<^verbatim>\<open>udp\<close>, \<^verbatim>\<open>tcp\<close>, \<^verbatim>\<open>icmp\<close> with
  its three bodies, and \<^verbatim>\<open>igmp\<close>. A constructor \<open>*_new\<close> is \<^verbatim>\<open>__init__\<close> with raw bytes: it returns the header object and
  what \<^verbatim>\<open>next\<close> is after \<^verbatim>\<open>parse\<close>. It raises only where a class outside the model does. \<open>*_hdr\<close> is \<^verbatim>\<open>hdr\<close>, which
  updates lengths and checksums in the object, so the object is returned. The \<^verbatim>\<open>prev\<close> link, which the UDP and TCP
  checksums follow, is the enclosing IPv4 header.
\<close>

section \<open>Parsing\<close>

subsection \<open>ARP, IGMP, UDP, TCP, echo\<close>

definition arp_new :: "bytes \<Rightarrow> (arp \<times> payload) res" where
  "arp_new raw =
     (let self = arp_init\<lparr>arp_raw := Some raw\<rparr> in
      if length raw < 28 then Inr (self, PNone)
      else rbind (struct_unpack [FH, FH, FB, FB, FH] (py_slice raw 0 8)) (\<lambda>vs.
        tup5 vs (\<lambda>hwtype prototype hwlen protolen opcode.
        let self = self\<lparr>arp_hwtype := hwtype, arp_prototype := prototype, arp_hwlen := hwlen,
              arp_protolen := protolen, arp_opcode := opcode\<rparr> in
        if hwtype \<noteq> 1 then Inr (self, PNone)
        else if hwlen \<noteq> 6 then Inr (self, PNone)
        else
          rbind (EthAddr_init (EthStr (py_slice raw 8 14))) (\<lambda>hwsrc.
          rbind (EthAddr_init (EthStr (py_slice raw 18 24))) (\<lambda>hwdst.
          let self = self\<lparr>arp_hwsrc := hwsrc, arp_hwdst := hwdst\<rparr> in
          if prototype \<noteq> 2048 then Inr (self, PNone)
          else if protolen \<noteq> 4 then Inr (self, PNone)
          else
            rbind (struct_unpack [FL] (py_slice raw 14 18)) (\<lambda>vs. tup1 vs (\<lambda>src.
            rbind (struct_unpack [FL] (py_slice raw 24 28)) (\<lambda>vs. tup1 vs (\<lambda>dst.
            Inr (self\<lparr>arp_protosrc := IPAddr_of_int src, arp_protodst := IPAddr_of_int dst, arp_parsed := True\<rparr>,
                 PBytes (drop 28 raw)))))))))))"

definition igmp_body :: "igmp \<Rightarrow> int \<Rightarrow> bytes res" where
  "igmp_body self csum =
     (case ig_address self of
        None \<Rightarrow> Inl AttributeError
      | Some ip \<Rightarrow>
          rbind (struct_pack [FB, FB, FH, Fl] [ig_ver_and_type self, ig_max_response_time self, csum, ip_toSigned ip False])
            (\<lambda>s. Inr (s @ ig_extra self)))"

definition igmp_new :: "bytes \<Rightarrow> igmp res" where
  "igmp_new raw =
     (let self = igmp_init\<lparr>ig_raw := Some raw\<rparr> in
      if length raw < 8 then Inr self
      else rbind (struct_unpack [FB, FB, FH, Fl] (py_slice raw 0 8)) (\<lambda>vs. tup4 vs (\<lambda>vt mrt csum ip.
        let self = self\<lparr>ig_ver_and_type := vt, ig_max_response_time := mrt, ig_csum := csum,
              ig_extra := drop 8 raw, ig_address := Some (IPAddr_of_int ip)\<rparr> in
        rbind (igmp_body self 0) (\<lambda>s.
        Inr (if checksum s 0 None \<noteq> csum then self else self\<lparr>ig_parsed := True\<rparr>)))))"

definition udp_class :: "int \<Rightarrow> int \<Rightarrow> string option" where
  "udp_class srcport dstport =
     (if dstport = 67 \<or> dstport = 68 then Some ''dhcp''
      else if dstport = 53 \<or> srcport = 53 then Some ''dns''
      else if dstport = 5353 \<or> srcport = 5353 then Some ''dns''
      else if dstport = 520 \<or> srcport = 520 then Some ''rip''
      else None)"

definition other_new :: "pk_ext \<Rightarrow> string \<Rightarrow> bytes \<Rightarrow> payload res" where
  "other_new x c raw = rbind (x_parse x c raw) (\<lambda>pd. Inr (POther c raw pd))"

definition udp_new :: "pk_ext \<Rightarrow> bytes \<Rightarrow> (udp \<times> payload) res" where
  "udp_new x raw =
     (let self = udp_init\<lparr>udp_raw := Some raw\<rparr> in
      if length raw < 8 then Inr (self, PNone)
      else rbind (struct_unpack [FH, FH, FH, FH] (py_slice raw 0 8)) (\<lambda>vs. tup4 vs (\<lambda>srcport dstport len csum.
        let self = self\<lparr>udp_srcport := srcport, udp_dstport := dstport, udp_len := len, udp_csum := csum,
              udp_parsed := True\<rparr> in
        if len < 8 then Inr (self, PNone)
        else case udp_class srcport dstport of
               Some c \<Rightarrow> rbind (other_new x c (drop 8 raw)) (\<lambda>p. Inr (self, p))
             | None \<Rightarrow> if int (length raw) < len then Inr (self, PNone) else Inr (self, PBytes (drop 8 raw)))))"

definition tcp_new :: "bytes \<Rightarrow> (tcp \<times> payload) res" where
  "tcp_new raw =
     (let self = tcp_init\<lparr>tcp_raw := Some raw\<rparr> in
      if length raw < 20 then Inr (self, PNone)
      else rbind (struct_unpack [FH, FH, FL, FL, FB, FB, FH, FH, FH] (py_slice raw 0 20)) (\<lambda>vs.
        tup9 vs (\<lambda>srcport dstport seq ack offres flags win csum urg.
        let off = drop_bit 4 offres; hdr_len = off * 4;
            self = self\<lparr>tcp_srcport := srcport, tcp_dstport := dstport, tcp_seq := seq, tcp_ack := ack, tcp_off := off,
              tcp_res := offres AND 15, tcp_flags := flags, tcp_win := win, tcp_csum := csum, tcp_urg := urg\<rparr> in
        if off * 4 < 20 \<or> off * 4 > int (length raw) then Inr (self, PNone)
        else let (options, r) = parse_options raw hdr_len 20 []; self = self\<lparr>tcp_options := options\<rparr> in
          case r of
            Inl e \<Rightarrow> Inr (self, PNone)
          | Inr i \<Rightarrow> Inr (self\<lparr>tcp_parsed := True\<rparr>, PBytes (drop (nat hdr_len) raw)))))"

text \<open>The random identifier of an echo object that is too short to parse is never packed; 0 stands for it.\<close>

definition echo_new :: "bytes \<Rightarrow> (echo \<times> payload) res" where
  "echo_new raw =
     (let self = (echo_init 0)\<lparr>echo_raw := Some raw\<rparr> in
      if length raw < 4 then Inr (self, PNone)
      else rbind (struct_unpack [FH, FH] (py_slice raw 0 4)) (\<lambda>vs. tup2 vs (\<lambda>i seq.
        Inr (self\<lparr>echo_id := i, echo_seq := seq, echo_parsed := True\<rparr>, PBytes (drop 4 raw)))))"

subsection \<open>IPv4 and ICMP\<close>

text \<open>
  The header part of \<^verbatim>\<open>ipv4.parse\<close>; the flag says that the checks passed and the payload is looked at. The counter
  value of an object that is too short to parse is never packed; 0 stands for it.
\<close>

definition ipv4_parse_hdr :: "bytes \<Rightarrow> (ipv4 \<times> bool) res" where
  "ipv4_parse_hdr raw =
     (let self = (ipv4_init 0)\<lparr>ip_raw_data := Some raw\<rparr>; dlen = int (length raw) in
      if dlen < 20 then Inr (self, False)
      else rbind (struct_unpack [FB, FB, FH, FH, FH, FB, FB, FH, FL, FL] (py_slice raw 0 20)) (\<lambda>vs.
        tup10 vs (\<lambda>vhl tos iplen i frag ttl protocol csum srcip dstip.
        let self = self\<lparr>ip_tos := tos, ip_iplen := iplen, ip_id := i, ip_ttl := ttl, ip_protocol := protocol,
              ip_csum := csum, ip_v := drop_bit 4 vhl, ip_hl := vhl AND 15, ip_flags := drop_bit 13 frag,
              ip_frag := frag AND 8191, ip_dstip := IPAddr_of_int dstip, ip_srcip := IPAddr_of_int srcip\<rparr> in
        if ip_v self \<noteq> 4 then Inr (self, False)
        else if ip_hl self < 5 then Inr (self, False)
        else if iplen < 20 then Inr (self, False)
        else if ip_hl self * 4 > iplen then Inr (self, False)
        else if ip_hl self * 4 > dlen then Inr (self, False)
        else Inr (self\<lparr>ip_parsed := True\<rparr>, True))))"

definition ipv4_body :: "ipv4 \<Rightarrow> bytes \<Rightarrow> bytes" where
  "ipv4_body self raw =
     (let dlen = int (length raw); len = (if ip_iplen self > dlen then dlen else ip_iplen self)
      in py_slice raw (ip_hl self * 4) len)"

lemma ipv4_parse_hdr_ok:
  assumes "ipv4_parse_hdr raw = Inr (self, True)"
  shows "20 \<le> length raw" "5 \<le> ip_hl self" "ip_hl self * 4 \<le> int (length raw)" "ip_parsed self"
  using assms
  by (auto simp: ipv4_parse_hdr_def Let_def rbind_Inr_iff tup_Inr_iff split: if_splits)

lemma ipv4_body_shorter:
  assumes "ipv4_parse_hdr raw = Inr (self, True)"
  shows "length (ipv4_body self raw) < length raw"
  using ipv4_parse_hdr_ok [OF assms]
  by (auto simp: ipv4_body_def Let_def py_slice_def py_bound_def)

function ipv4_new :: "pk_ext \<Rightarrow> bytes \<Rightarrow> (ipv4 \<times> payload) res"
  and icmp_new :: "pk_ext \<Rightarrow> bytes \<Rightarrow> (icmp \<times> payload) res"
  and unreach_new :: "pk_ext \<Rightarrow> bytes \<Rightarrow> (unreach \<times> payload) res"
  and time_exceeded_new :: "pk_ext \<Rightarrow> bytes \<Rightarrow> (time_exceeded \<times> payload) res"
where
  "ipv4_new x raw =
     rbind (ipv4_parse_hdr raw) (\<lambda>(self, ok).
       if \<not> ok then Inr (self, PNone)
       else
         let body = ipv4_body self raw in
         if ip_protocol self = 17 then
           rbind (udp_new x body) (\<lambda>(h, p). Inr (self, if udp_parsed h then PUdp h p else PBytes body))
         else if ip_protocol self = 6 then
           rbind (tcp_new body) (\<lambda>(h, p). Inr (self, if tcp_parsed h then PTcp h p else PBytes body))
         else if ip_protocol self = 1 then
           rbind (icmp_new x body) (\<lambda>(h, p). Inr (self, if icmp_parsed h then PIcmp h p else PBytes body))
         else if ip_protocol self = 2 then
           rbind (igmp_new body) (\<lambda>h. Inr (self, if ig_parsed h then PIgmp h PNone else PBytes body))
         else if int (length raw) < ip_iplen self then Inr (self, PNone)
         else Inr (self, PBytes body))"
| "icmp_new x raw =
     (if length raw < 4 then Inr (icmp_init, PNone)
      else rbind (struct_unpack [FB, FB, FH] (py_slice raw 0 4)) (\<lambda>vs. tup3 vs (\<lambda>t code csum.
        let self = icmp_init\<lparr>icmp_type := t, icmp_code := code, icmp_csum := csum, icmp_parsed := True\<rparr> in
        if t = 8 \<or> t = 0 then rbind (echo_new (drop 4 raw)) (\<lambda>(h, p). Inr (self, PEcho h p))
        else if t = 3 then rbind (unreach_new x (drop 4 raw)) (\<lambda>(h, p). Inr (self, PUnreach h p))
        else if t = 11 then rbind (time_exceeded_new x (drop 4 raw)) (\<lambda>(h, p). Inr (self, PTimeExceeded h p))
        else Inr (self, PBytes (drop 4 raw)))))"
| "unreach_new x raw =
     (let self = unreach_init\<lparr>un_raw := Some raw\<rparr> in
      if length raw < 4 then Inr (self, PNone)
      else rbind (struct_unpack [FH, FH] (py_slice raw 0 4)) (\<lambda>vs. tup2 vs (\<lambda>unused next_mtu.
        let self = self\<lparr>un_unused := unused, un_next_mtu := next_mtu, un_parsed := True\<rparr> in
        if length raw \<ge> 28 then rbind (ipv4_new x (drop 4 raw)) (\<lambda>(h, p). Inr (self, PIpv4 h p))
        else Inr (self, PBytes (drop 4 raw)))))"
| "time_exceeded_new x raw =
     (let self = time_exceeded_init\<lparr>tx_raw := Some raw\<rparr> in
      if length raw < 4 then Inr (self, PNone)
      else rbind (struct_unpack [FL] (py_slice raw 0 4)) (\<lambda>vs. tup1 vs (\<lambda>unused.
        let self = self\<lparr>tx_unused := unused, tx_parsed := True\<rparr> in
        if length raw \<ge> 28 then rbind (ipv4_new x (drop 4 raw)) (\<lambda>(h, p). Inr (self, PIpv4 h p))
        else Inr (self, PBytes (drop 4 raw)))))"
  by pat_completeness auto

termination
  by (relation "measure (\<lambda>a. case a of
        Inl (Inl (_, r)) \<Rightarrow> length r | Inl (Inr (_, r)) \<Rightarrow> length r
      | Inr (Inl (_, r)) \<Rightarrow> length r | Inr (Inr (_, r)) \<Rightarrow> length r)")
     (auto dest: ipv4_body_shorter)

declare ipv4_new.simps [simp del] icmp_new.simps [simp del] unreach_new.simps [simp del]
  time_exceeded_new.simps [simp del]

subsection \<open>Link layer\<close>

definition vlan_parse_hdr :: "bytes \<Rightarrow> (vlan \<times> bool) res" where
  "vlan_parse_hdr raw =
     (let self = vlan_init\<lparr>v_raw := Some raw\<rparr> in
      if length raw < 4 then Inr (self, False)
      else rbind (struct_unpack [FH, FH] (py_slice raw 0 4)) (\<lambda>vs. tup2 vs (\<lambda>pcpid eth_type.
        Inr (self\<lparr>v_eth_type := eth_type, v_pcp := drop_bit 13 pcpid, v_cfi := pcpid AND 4096,
                  v_id := pcpid AND 4095, v_parsed := True\<rparr>, True))))"

text \<open>The SNAP part of \<^verbatim>\<open>llc.parse\<close>, reached with both service access points set.\<close>

definition llc_snap :: "llc \<Rightarrow> bytes \<Rightarrow> (llc \<times> bool) res" where
  "llc_snap self raw =
     (if int (length raw) < llc_length self + 5 then Inr (self, False)
      else let len = llc_length self;
               self = self\<lparr>llc_oui := Some (py_slice raw len (len + 3)), llc_length := len + 3\<rparr>;
               len = len + 3 in
        rbind (struct_unpack [FH] (py_slice raw len (len + 2))) (\<lambda>vs. tup1 vs (\<lambda>t.
          Inr (self\<lparr>llc_eth_type := t, llc_length := len + 2, llc_parsed := True\<rparr>, True))))"

definition llc_parse_hdr :: "bytes \<Rightarrow> (llc \<times> bool) res" where
  "llc_parse_hdr raw =
     (let self = llc_init\<lparr>llc_raw := Some raw\<rparr>; dlen = int (length raw) in
      if dlen < 3 then Inr (self, False)
      else rbind (struct_unpack [FB, FB, FB] (py_slice raw 0 3)) (\<lambda>vs. tup3 vs (\<lambda>dsap ssap control.
        let self = self\<lparr>llc_length := 3, llc_dsap := Some dsap, llc_ssap := Some ssap, llc_control := Some control\<rparr>;
            two = (control AND 1 = 0 \<or> control AND 3 = 2) in
        if two \<and> dlen < 4 then Inr (self, False)
        else
          let self = (if two
                then self\<lparr>llc_control := Some (control OR push_bit 8 (uint (raw ! 3))), llc_length := 4\<rparr> else self) in
          if ssap AND 254 = 170 \<and> dsap AND 254 = 170 then llc_snap self raw
          else Inr (self\<lparr>llc_parsed := True\<rparr>, True))))"

lemma llc_parse_hdr_ok:
  assumes "llc_parse_hdr raw = Inr (self, True)"
  shows "3 \<le> length raw" "3 \<le> llc_length self"
  using assms
  by (auto simp: llc_parse_hdr_def llc_snap_def Let_def rbind_Inr_iff tup_Inr_iff split: if_splits)

lemma llc_rest_shorter:
  assumes "llc_parse_hdr raw = Inr (self, True)"
  shows "Suc (2 * (length raw - nat (llc_length self))) < 2 * length raw"
  using llc_parse_hdr_ok [OF assms] by linarith

lemma vlan_parse_hdr_ok: "vlan_parse_hdr raw = Inr (self, True) \<Longrightarrow> 4 \<le> length raw"
  by (auto simp: vlan_parse_hdr_def Let_def split: if_splits)

text \<open>\<^verbatim>\<open>ethernet.parse_next\<close> on the bytes from the offset on, with the parsers it dispatches to.\<close>

function parse_next :: "pk_ext \<Rightarrow> int \<Rightarrow> bytes \<Rightarrow> bool \<Rightarrow> payload res"
  and vlan_new :: "pk_ext \<Rightarrow> bytes \<Rightarrow> (vlan \<times> payload) res"
  and llc_new :: "pk_ext \<Rightarrow> bytes \<Rightarrow> (llc \<times> payload) res"
where
  "parse_next x typelen raw allow_llc =
     (if typelen = 33024 then rbind (vlan_new x raw) (\<lambda>(h, p). Inr (PVlan h p))
      else if typelen = 2054 \<or> typelen = 32821 then rbind (arp_new raw) (\<lambda>(h, p). Inr (PArp h p))
      else if typelen = 2048 then rbind (ipv4_new x raw) (\<lambda>(h, p). Inr (PIpv4 h p))
      else if typelen = 34525 then other_new x ''ipv6'' raw
      else if typelen = 35020 then other_new x ''lldp'' raw
      else if typelen = 34958 then other_new x ''eapol'' raw
      else if typelen = 34887 \<or> typelen = 34888 then other_new x ''mpls'' raw
      else if typelen < 1536 \<and> allow_llc then rbind (llc_new x raw) (\<lambda>(h, p). Inr (PLlc h p))
      else Inr (PBytes raw))"
| "vlan_new x raw =
     rbind (vlan_parse_hdr raw) (\<lambda>(self, ok).
       if \<not> ok then Inr (self, PNone)
       else rbind (parse_next x (v_eth_type self) (drop 4 raw) True) (\<lambda>p. Inr (self, p)))"
| "llc_new x raw =
     rbind (llc_parse_hdr raw) (\<lambda>(self, ok).
       if \<not> ok then Inr (self, PNone)
       else if llc_oui self = Some [0, 0, 0]
       then rbind (parse_next x (llc_eth_type self) (drop (nat (llc_length self)) raw) False) (\<lambda>p. Inr (self, p))
       else Inr (self, PBytes (drop (nat (llc_length self)) raw)))"
  by pat_completeness auto

termination
  by (relation "measure (\<lambda>a. case a of
        Inl (_, _, r, _) \<Rightarrow> 2 * length r + 1 | Inr (Inl (_, r)) \<Rightarrow> 2 * length r | Inr (Inr (_, r)) \<Rightarrow> 2 * length r)")
     (auto dest: vlan_parse_hdr_ok llc_rest_shorter)

declare parse_next.simps [simp del] vlan_new.simps [simp del] llc_new.simps [simp del]

definition ethernet_new :: "pk_ext \<Rightarrow> bytes \<Rightarrow> ethernet res" where
  "ethernet_new x raw =
     (let self = ethernet_init\<lparr>e_payload := PNone, e_raw := Some raw\<rparr> in
      if length raw < 14 then Inr self
      else
        rbind (EthAddr_init (EthStr (py_slice raw 0 6))) (\<lambda>dst.
        rbind (EthAddr_init (EthStr (py_slice raw 6 12))) (\<lambda>src.
        rbind (struct_unpack [FH] (py_slice raw 12 14)) (\<lambda>vs. tup1 vs (\<lambda>t.
        rbind (parse_next x t (drop 14 raw) True) (\<lambda>p.
        Inr (self\<lparr>e_dst := dst, e_src := src, e_type := t, e_payload := p, e_parsed := True\<rparr>)))))))"

section \<open>Packing\<close>

definition vlan_hdr :: "vlan \<Rightarrow> bytes res" where
  "vlan_hdr self =
     struct_pack [FH, FH] [push_bit 13 (v_pcp self) OR push_bit 12 (v_cfi self) OR v_id self, v_eth_type self]"

definition llc_hdr :: "llc \<Rightarrow> bytes res" where
  "llc_hdr self =
     rbind (need (llc_dsap self)) (\<lambda>dsap.
     rbind (need (llc_ssap self)) (\<lambda>ssap.
     rbind (struct_pack [FB, FB] [dsap, ssap]) (\<lambda>r.
     rbind (if llc_length self = 3 \<or> llc_length self = 8
            then rbind (need (llc_control self)) (\<lambda>c. struct_pack [FB] [c])
            else case llc_control self of
                   None \<Rightarrow> Inl TypeError
                 | Some c \<Rightarrow> Inr [word_of_int (c AND 255), word_of_int (drop_bit 8 c AND 255)]) (\<lambda>r2.
     case llc_oui self of
       None \<Rightarrow> Inr (r @ r2)
     | Some oui \<Rightarrow> rbind (struct_pack [FH] [llc_eth_type self]) (\<lambda>r3. Inr (r @ r2 @ oui @ r3))))))"

definition arp_hdr :: "arp \<Rightarrow> bytes res" where
  "arp_hdr self =
     rbind (struct_pack [FH, FH, FB, FB, FH]
       [arp_hwtype self, arp_prototype self, arp_hwlen self, arp_protolen self, arp_opcode self]) (\<lambda>b1.
     rbind (struct_pack [FL] [ip_toUnsigned (arp_protosrc self) False]) (\<lambda>b2.
     rbind (struct_pack [FL] [ip_toUnsigned (arp_protodst self) False]) (\<lambda>b3.
     Inr (b1 @ eth_toRaw (arp_hwsrc self) @ b2 @ eth_toRaw (arp_hwdst self) @ b3))))"

definition ipv4_struct :: "ipv4 \<Rightarrow> int \<Rightarrow> bytes res" where
  "ipv4_struct self csum =
     struct_pack [FB, FB, FH, FH, FH, FB, FB, FH, FL, FL]
       [push_bit 4 (ip_v self) + ip_hl self, ip_tos self, ip_iplen self, ip_id self,
        push_bit 13 (ip_flags self) OR ip_frag self, ip_ttl self, ip_protocol self, csum,
        ip_toUnsigned (ip_srcip self) False, ip_toUnsigned (ip_dstip self) False]"

definition ipv4_checksum :: "ipv4 \<Rightarrow> int res" where
  "ipv4_checksum self = rbind (ipv4_struct self 0) (\<lambda>data. Inr (checksum data 0 None))"

definition ipv4_hdr :: "ipv4 \<Rightarrow> bytes \<Rightarrow> (bytes \<times> ipv4) res" where
  "ipv4_hdr self payload =
     (let self = self\<lparr>ip_iplen := ip_hl self * 4 + int (length payload)\<rparr> in
      rbind (ipv4_checksum self) (\<lambda>c.
      let self = self\<lparr>ip_csum := c\<rparr> in
      rbind (ipv4_struct self c) (\<lambda>b. Inr (b, self))))"

definition pseudo_hdr :: "ipv4 \<Rightarrow> nat \<Rightarrow> bytes res" where
  "pseudo_hdr prev payload_len =
     struct_pack [FL, FL, FB, FB, FH]
       [ip_toUnsigned (ip_srcip prev) False, ip_toUnsigned (ip_dstip prev) False, 0, ip_protocol prev, int payload_len]"

text \<open>\<^verbatim>\<open>udp.checksum\<close> packs \<^verbatim>\<open>next\<close> once more, which gives the same bytes again.\<close>

definition udp_checksum :: "ipv4 option \<Rightarrow> udp \<Rightarrow> bytes \<Rightarrow> int res" where
  "udp_checksum prev self payload =
     (case prev of
        None \<Rightarrow> Inr 0
      | Some ip \<Rightarrow>
          let payload_len = 8 + length payload in
          rbind (struct_pack [FH, FH, FH, FH] [udp_srcport self, udp_dstport self, int payload_len, 0]) (\<lambda>myhdr.
          rbind (pseudo_hdr ip payload_len) (\<lambda>ph.
          let r = checksum (ph @ myhdr @ payload) 0 (Some 9)
          in Inr (if r = 0 then 65535 else r))))"

definition udp_hdr :: "ipv4 option \<Rightarrow> udp \<Rightarrow> bytes \<Rightarrow> (bytes \<times> udp) res" where
  "udp_hdr prev self payload =
     (let self = self\<lparr>udp_len := int (length payload) + 8\<rparr> in
      rbind (udp_checksum prev self payload) (\<lambda>c.
      let self = self\<lparr>udp_csum := c\<rparr> in
      rbind (struct_pack [FH, FH, FH, FH] [udp_srcport self, udp_dstport self, udp_len self, udp_csum self]) (\<lambda>b.
      Inr (b, self))))"

text \<open>\<^verbatim>\<open>tcp.hdr\<close> behind the checksum; it recomputes the data offset.\<close>

definition tcp_head :: "tcp \<Rightarrow> int \<Rightarrow> (bytes \<times> tcp) res" where
  "tcp_head self csum =
     rbind (options_packed (tcp_options self)) (\<lambda>p.
     let self = self\<lparr>tcp_off := (20 + int (length p)) div 4\<rparr> in
     rbind (struct_pack [FH, FH, FL, FL, FB, FB, FH, FH, FH]
       [tcp_srcport self, tcp_dstport self, tcp_seq self, tcp_ack self,
        push_bit 4 (tcp_off self) OR tcp_res self, tcp_flags self, tcp_win self, csum, tcp_urg self]) (\<lambda>b.
     Inr (b @ p, self)))"

definition tcp_checksum :: "ipv4 option \<Rightarrow> tcp \<Rightarrow> bytes \<Rightarrow> (int \<times> tcp) res" where
  "tcp_checksum prev self payload =
     (case prev of
        None \<Rightarrow> Inr (0, self)
      | Some ip \<Rightarrow>
          rbind (tcp_head self 0) (\<lambda>(b, self).
          let payload = b @ payload in
          rbind (pseudo_hdr ip (length payload)) (\<lambda>ph.
          Inr (checksum (ph @ payload) 0 (Some 14), self))))"

definition tcp_hdr :: "ipv4 option \<Rightarrow> tcp \<Rightarrow> bytes \<Rightarrow> (bytes \<times> tcp) res" where
  "tcp_hdr prev self payload =
     rbind (tcp_checksum prev self payload) (\<lambda>(c, self). tcp_head (self\<lparr>tcp_csum := c\<rparr>) c)"

definition icmp_hdr :: "icmp \<Rightarrow> bytes \<Rightarrow> (bytes \<times> icmp) res" where
  "icmp_hdr self payload =
     rbind (struct_pack [FB, FB, FH] [icmp_type self, icmp_code self, 0]) (\<lambda>b.
     let c = checksum (b @ payload) 0 None in
     rbind (struct_pack [FB, FB, FH] [icmp_type self, icmp_code self, c]) (\<lambda>b. Inr (b, self\<lparr>icmp_csum := c\<rparr>)))"

definition igmp_hdr :: "igmp \<Rightarrow> (bytes \<times> igmp) res" where
  "igmp_hdr self =
     rbind (igmp_body self 0) (\<lambda>s.
     let c = checksum s 0 None in
     rbind (igmp_body self c) (\<lambda>s. Inr (s, self\<lparr>ig_csum := c\<rparr>)))"

definition echo_hdr :: "echo \<Rightarrow> bytes res" where
  "echo_hdr self = struct_pack [FH, FH] [echo_id self, echo_seq self]"

definition unreach_hdr :: "unreach \<Rightarrow> bytes res" where
  "unreach_hdr self = struct_pack [FH, FH] [un_unused self, un_next_mtu self]"

definition time_exceeded_hdr :: "time_exceeded \<Rightarrow> bytes res" where
  "time_exceeded_hdr self = struct_pack [FL] [tx_unused self]"

definition ethernet_hdr :: "ethernet \<Rightarrow> bytes res" where
  "ethernet_hdr self =
     rbind (struct_pack [FH] [e_type self]) (\<lambda>t.
     Inr (take 6 (ljust0 (eth_toRaw (e_dst self)) 6) @ take 6 (ljust0 (eth_toRaw (e_src self)) 6) @ t))"

text \<open>
  \<^verbatim>\<open>packet_base.pack\<close>: an object that was not parsed and has no payload is its raw bytes; otherwise the payload is
  packed first and the header is computed over it. \<open>k\<close> is what the class does with the packed payload.
\<close>

definition pack_base ::
  "bool \<Rightarrow> bytes option \<Rightarrow> payload \<Rightarrow> payload \<Rightarrow> (bytes \<times> payload) res \<Rightarrow>
   (bytes \<Rightarrow> payload \<Rightarrow> (bytes \<times> payload) res) \<Rightarrow> (bytes \<times> payload) res"
where
  "pack_base parsed raw self p rest k =
     (case raw of
        Some b \<Rightarrow> if \<not> parsed \<and> p = PNone then Inr (b, self) else rbind rest (\<lambda>(r, p). k r p)
      | None \<Rightarrow> rbind rest (\<lambda>(r, p). k r p))"

fun payload_pack :: "pk_ext \<Rightarrow> ipv4 option \<Rightarrow> payload \<Rightarrow> (bytes \<times> payload) res" where
  "payload_pack x prev PNone = Inr ([], PNone)"
| "payload_pack x prev (PBytes b) = Inr (b, PBytes b)"
| "payload_pack x prev (PVlan h p) = pack_base (v_parsed h) (v_raw h) (PVlan h p) p (payload_pack x None p) (\<lambda>r p.
     rbind (vlan_hdr h) (\<lambda>b. Inr (b @ r, PVlan h p)))"
| "payload_pack x prev (PLlc h p) = pack_base (llc_parsed h) (llc_raw h) (PLlc h p) p (payload_pack x None p) (\<lambda>r p.
     rbind (llc_hdr h) (\<lambda>b. Inr (b @ r, PLlc h p)))"
| "payload_pack x prev (PArp h p) = pack_base (arp_parsed h) (arp_raw h) (PArp h p) p (payload_pack x None p) (\<lambda>r p.
     rbind (arp_hdr h) (\<lambda>b. Inr (b @ r, PArp h p)))"
| "payload_pack x prev (PIpv4 h p) =
     pack_base (ip_parsed h) (ip_raw_data h) (PIpv4 h p) p (payload_pack x (Some h) p) (\<lambda>r p.
     rbind (ipv4_hdr h r) (\<lambda>(b, h). Inr (b @ r, PIpv4 h p)))"
| "payload_pack x prev (PUdp h p) = pack_base (udp_parsed h) (udp_raw h) (PUdp h p) p (payload_pack x None p) (\<lambda>r p.
     rbind (udp_hdr prev h r) (\<lambda>(b, h). Inr (b @ r, PUdp h p)))"
| "payload_pack x prev (PTcp h p) = pack_base (tcp_parsed h) (tcp_raw h) (PTcp h p) p (payload_pack x None p) (\<lambda>r p.
     rbind (tcp_hdr prev h r) (\<lambda>(b, h). Inr (b @ r, PTcp h p)))"
| "payload_pack x prev (PIcmp h p) = pack_base (icmp_parsed h) None (PIcmp h p) p (payload_pack x None p) (\<lambda>r p.
     rbind (icmp_hdr h r) (\<lambda>(b, h). Inr (b @ r, PIcmp h p)))"
| "payload_pack x prev (PEcho h p) = pack_base (echo_parsed h) (echo_raw h) (PEcho h p) p (payload_pack x None p) (\<lambda>r p.
     rbind (echo_hdr h) (\<lambda>b. Inr (b @ r, PEcho h p)))"
| "payload_pack x prev (PUnreach h p) = pack_base (un_parsed h) (un_raw h) (PUnreach h p) p (payload_pack x None p) (\<lambda>r p.
     rbind (unreach_hdr h) (\<lambda>b. Inr (b @ r, PUnreach h p)))"
| "payload_pack x prev (PTimeExceeded h p) =
     pack_base (tx_parsed h) (tx_raw h) (PTimeExceeded h p) p (payload_pack x None p) (\<lambda>r p.
     rbind (time_exceeded_hdr h) (\<lambda>b. Inr (b @ r, PTimeExceeded h p)))"
| "payload_pack x prev (PIgmp h p) = pack_base (ig_parsed h) (ig_raw h) (PIgmp h p) p (payload_pack x None p) (\<lambda>r p.
     rbind (igmp_hdr h) (\<lambda>(b, h). Inr (b @ r, PIgmp h p)))"
| "payload_pack x prev (POther c raw pd) = rbind (x_pack x c raw) (\<lambda>b. Inr (b, POther c raw pd))"

definition ethernet_pack :: "pk_ext \<Rightarrow> ethernet \<Rightarrow> (bytes \<times> ethernet) res" where
  "ethernet_pack x self =
     (let go = rbind (payload_pack x None (e_payload self)) (\<lambda>(r, p).
            rbind (ethernet_hdr self) (\<lambda>b. Inr (b @ r, self\<lparr>e_payload := p\<rparr>))) in
      case e_raw self of
        Some b \<Rightarrow> if \<not> e_parsed self \<and> e_payload self = PNone then Inr (b, self) else go
      | None \<Rightarrow> go)"

section \<open>Checksums on the wire\<close>

lemma length_int_to_be_2 [simp]: "length (int_to_be 2 v) = 2"
  by simp

lemma struct_bytes_cons: "struct_bytes (c # cs) (v # vs) = int_to_be (code_size c) v @ struct_bytes cs vs"
  by (simp add: struct_bytes.simps)

lemma struct_bytes_nil: "struct_bytes [] [] = []"
  by (simp add: struct_bytes.simps)

lemmas struct_bytes_eqs = struct_bytes_cons struct_bytes_nil code_size.simps

text \<open>A header packed with a zero checksum, and the same header with another one.\<close>

lemma struct_pack_word:
  assumes "struct_pack (cs @ FH # ds) (vs @ 0 # ws) = Inr b0" "struct_pack (cs @ FH # ds) (vs @ c # ws) = Inr b"
    "length cs = length vs"
  obtains pre post where "b0 = pre @ int_to_be 2 0 @ post" "b = pre @ int_to_be 2 c @ post"
    "length pre = calcsize cs" "length post = calcsize ds"
proof -
  have app: "struct_bytes (cs @ fs) (vs @ us) = struct_bytes cs vs @ struct_bytes fs us" for fs us
    using assms(3) by (induction cs vs rule: list_induct2) (simp_all add: struct_bytes.simps)
  have len: "length ds = length ws"
    using assms(1,3) by (auto simp: struct_pack_Inr_iff dest!: list_all2_lengthD)
  show ?thesis
  proof (rule that)
    show "b0 = struct_bytes cs vs @ int_to_be 2 0 @ struct_bytes ds ws"
      using assms(1) by (simp add: struct_pack_Inr_iff app struct_bytes.simps)
    show "b = struct_bytes cs vs @ int_to_be 2 c @ struct_bytes ds ws"
      using assms(2) by (simp add: struct_pack_Inr_iff app struct_bytes.simps)
  qed (simp_all add: length_struct_bytes assms(3) len)
qed

lemma ipv4_hdr_checksum:
  assumes "ipv4_hdr h payload = Inr (b, h')"
  shows "checksum b 0 None = 0" "length b = 20"
proof -
  define g where "g = h\<lparr>ip_iplen := ip_hl h * 4 + int (length payload)\<rparr>"
  let ?vs = "[push_bit 4 (ip_v g) + ip_hl g, ip_tos g, ip_iplen g, ip_id g, push_bit 13 (ip_flags g) OR ip_frag g,
    ip_ttl g, ip_protocol g]"
  let ?ws = "[ip_toUnsigned (ip_srcip g) False, ip_toUnsigned (ip_dstip g) False]"
  from assms obtain b0 where
    b0: "struct_pack ([FB, FB, FH, FH, FH, FB, FB] @ FH # [FL, FL]) (?vs @ 0 # ?ws) = Inr b0" and
    b: "struct_pack ([FB, FB, FH, FH, FH, FB, FB] @ FH # [FL, FL]) (?vs @ checksum b0 0 None # ?ws) = Inr b"
    by (auto simp: ipv4_hdr_def ipv4_checksum_def ipv4_struct_def Let_def rbind_Inr_iff g_def)
  from struct_pack_word [OF b0 b] obtain pre post where
    p: "b0 = pre @ int_to_be 2 0 @ post" "b = pre @ int_to_be 2 (checksum b0 0 None) @ post"
      "length pre = 10" "length post = 8"
    by auto
  show "length b = 20" using p by simp
  have "checksum b0 0 None = ntohs (65535 - fold_sum (host_sum pre + host_sum post))"
    unfolding p(1) using p(3) by (intro checksum_zeroed) simp
  then show "checksum b 0 None = 0"
    unfolding p(2) using p(3,4) by (intro checksum_fill) simp_all
qed

lemma icmp_hdr_checksum:
  assumes "icmp_hdr h payload = Inr (b, h')" "length payload \<le> 131000"
  shows "checksum (b @ payload) 0 None = 0"
proof -
  from assms obtain b0 where
    b0: "struct_pack ([FB, FB] @ FH # []) ([icmp_type h, icmp_code h] @ 0 # []) = Inr b0" and
    b: "struct_pack ([FB, FB] @ FH # []) ([icmp_type h, icmp_code h] @ checksum (b0 @ payload) 0 None # []) = Inr b"
    by (auto simp: icmp_hdr_def Let_def rbind_Inr_iff)
  from struct_pack_word [OF b0 b] obtain pre where
    p: "b0 = pre @ int_to_be 2 0" "b = pre @ int_to_be 2 (checksum (b0 @ payload) 0 None)" "length pre = 2"
    by (auto simp: numeral_2_eq_2)
  have "checksum (b0 @ payload) 0 None = ntohs (65535 - fold_sum (host_sum pre + host_sum payload))"
    unfolding p(1) append_assoc using p(3) by (intro checksum_zeroed) simp
  then show ?thesis
    unfolding p(2) append_assoc using p(3) assms(2) by (intro checksum_fill) simp_all
qed

lemma pseudo_hdr_length: "pseudo_hdr ip n = Inr ph \<Longrightarrow> length ph = 12 \<and> n \<le> 65535"
  by (auto simp: pseudo_hdr_def struct_pack_Inr_iff length_struct_bytes)

lemma udp_hdr_checksum:
  assumes "udp_hdr (Some ip) h payload = Inr (b, h')"
  shows "\<exists>ph. pseudo_hdr ip (length (b @ payload)) = Inr ph \<and> checksum (ph @ b @ payload) 0 None = 0"
proof -
  let ?vs = "[udp_srcport h, udp_dstport h, 8 + int (length payload)]"
  from assms obtain b0 ph r where
    b0: "struct_pack ([FH, FH, FH] @ FH # []) (?vs @ 0 # []) = Inr b0" and
    ph: "pseudo_hdr ip (8 + length payload) = Inr ph" and
    r: "r = checksum (ph @ b0 @ payload) 0 (Some 9)" and
    b: "struct_pack ([FH, FH, FH] @ FH # []) (?vs @ (if r = 0 then 65535 else r) # []) = Inr b"
    by (auto simp: udp_hdr_def udp_checksum_def Let_def rbind_Inr_iff add.commute)
  from struct_pack_word [OF b0 b] obtain pre where
    p: "b0 = pre @ int_to_be 2 0" "b = pre @ int_to_be 2 (if r = 0 then 65535 else r)" "length pre = 6"
    by auto
  note len = pseudo_hdr_length [OF ph]
  have r': "r = ntohs (65535 - fold_sum (host_sum (ph @ pre) + host_sum payload))"
    unfolding r p(1) append_assoc
    using checksum_skipped [of "ph @ pre" 9 payload] len p(3) by simp
  have "checksum ((ph @ pre) @ int_to_be 2 (if r = 0 then 65535 else r) @ payload) 0 None = 0"
    by (rule checksum_stored) (use len p(3) r' in auto)
  moreover have "length (b @ payload) = 8 + length payload" using p by simp
  ultimately show ?thesis using ph p(2) by simp
qed

lemma tcp_head_struct:
  assumes "tcp_head h c = Inr (b, h')"
  obtains p where "options_packed (tcp_options h) = Inr p" "h' = h\<lparr>tcp_off := (20 + int (length p)) div 4\<rparr>"
    "\<exists>hd. b = hd @ p \<and>
       struct_pack ([FH, FH, FL, FL, FB, FB, FH] @ FH # [FH])
         ([tcp_srcport h, tcp_dstport h, tcp_seq h, tcp_ack h, push_bit 4 (tcp_off h') OR tcp_res h, tcp_flags h,
           tcp_win h] @ c # [tcp_urg h]) = Inr hd"
  using assms by (auto simp: tcp_head_def Let_def rbind_Inr_iff)

lemma tcp_hdr_checksum:
  assumes "tcp_hdr (Some ip) h payload = Inr (b, h')"
  shows "\<exists>ph. pseudo_hdr ip (length (b @ payload)) = Inr ph \<and> checksum (ph @ b @ payload) 0 None = 0"
proof -
  from assms obtain b0 h0 ph c where
    b0: "tcp_head h 0 = Inr (b0, h0)" and
    ph: "pseudo_hdr ip (length (b0 @ payload)) = Inr ph" and
    c: "c = checksum (ph @ b0 @ payload) 0 (Some 14)" and
    b: "tcp_head (h0\<lparr>tcp_csum := c\<rparr>) c = Inr (b, h')"
    by (auto simp: tcp_hdr_def tcp_checksum_def Let_def rbind_Inr_iff)
  from b0 obtain p hd0 where p: "options_packed (tcp_options h) = Inr p"
    "h0 = h\<lparr>tcp_off := (20 + int (length p)) div 4\<rparr>" "b0 = hd0 @ p" and
    s0: "struct_pack ([FH, FH, FL, FL, FB, FB, FH] @ FH # [FH])
         ([tcp_srcport h, tcp_dstport h, tcp_seq h, tcp_ack h, push_bit 4 (tcp_off h0) OR tcp_res h, tcp_flags h,
           tcp_win h] @ 0 # [tcp_urg h]) = Inr hd0"
    by (elim tcp_head_struct) auto
  from b p obtain hd1 where b1: "b = hd1 @ p" and
    s1: "struct_pack ([FH, FH, FL, FL, FB, FB, FH] @ FH # [FH])
         ([tcp_srcport h, tcp_dstport h, tcp_seq h, tcp_ack h, push_bit 4 (tcp_off h0) OR tcp_res h, tcp_flags h,
           tcp_win h] @ c # [tcp_urg h]) = Inr hd1"
    by (elim tcp_head_struct) auto
  from struct_pack_word [OF s0 s1] obtain pre post where
    q: "hd0 = pre @ int_to_be 2 0 @ post" "hd1 = pre @ int_to_be 2 c @ post" "length pre = 16" "length post = 2"
    by auto
  note len = pseudo_hdr_length [OF ph]
  have "c = ntohs (65535 - fold_sum (host_sum (ph @ pre) + host_sum (post @ p @ payload)))"
    unfolding c p(3) q(1) append_assoc
    using checksum_skipped [of "ph @ pre" 14 "post @ p @ payload"] len q(3) by simp
  then have "checksum ((ph @ pre) @ int_to_be 2 c @ (post @ p @ payload)) 0 None = 0"
    by (intro checksum_fill) (use len q p(3) in simp_all)
  then have "checksum (ph @ b @ payload) 0 None = 0" using b1 q(2) by simp
  moreover have eq: "length (b @ payload) = length (b0 @ payload)" using b1 p(3) q by simp
  ultimately show ?thesis unfolding eq using ph by blast
qed

end
