(* ===== verification/Packet_Roundtrip.thy ===== *)
theory Packet_Roundtrip
  imports Packet_Codec
begin

text \<open>
  Frames that are packed and parsed again. A parsed object remembers the bytes it came from; \<open>forget\<close> drops them, so
  that objects are compared by what they say.
\<close>

section \<open>Objects without their raw bytes\<close>

fun forget :: "payload \<Rightarrow> payload" where
  "forget (PVlan h p) = PVlan (h\<lparr>v_raw := None\<rparr>) (forget p)"
| "forget (PLlc h p) = PLlc (h\<lparr>llc_raw := None\<rparr>) (forget p)"
| "forget (PArp h p) = PArp (h\<lparr>arp_raw := None\<rparr>) (forget p)"
| "forget (PIpv4 h p) = PIpv4 (h\<lparr>ip_raw_data := None\<rparr>) (forget p)"
| "forget (PUdp h p) = PUdp (h\<lparr>udp_raw := None\<rparr>) (forget p)"
| "forget (PTcp h p) = PTcp (h\<lparr>tcp_raw := None\<rparr>) (forget p)"
| "forget (PIcmp h p) = PIcmp h (forget p)"
| "forget (PEcho h p) = PEcho (h\<lparr>echo_raw := None\<rparr>) (forget p)"
| "forget (PUnreach h p) = PUnreach (h\<lparr>un_raw := None\<rparr>) (forget p)"
| "forget (PTimeExceeded h p) = PTimeExceeded (h\<lparr>tx_raw := None\<rparr>) (forget p)"
| "forget (PIgmp h p) = PIgmp (h\<lparr>ig_raw := None\<rparr>) (forget p)"
| "forget p = p"

definition forget_frame :: "ethernet \<Rightarrow> ethernet" where
  "forget_frame e = e\<lparr>e_raw := None, e_payload := forget (e_payload e)\<rparr>"

section \<open>Well-formed frames\<close>

fun transport_wf :: "int \<Rightarrow> payload \<Rightarrow> bool" where
  "transport_wf proto (PUdp h (PBytes b)) \<longleftrightarrow>
     proto = 17 \<and> udp_parsed h \<and> udp_class (udp_srcport h) (udp_dstport h) = None"
| "transport_wf proto (PTcp h (PBytes b)) \<longleftrightarrow>
     proto = 6 \<and> tcp_parsed h \<and> 0 \<le> tcp_res h \<and> tcp_res h < 16 \<and> list_all opt_wf (tcp_options h)"
| "transport_wf proto (PIcmp h (PEcho e (PBytes b))) \<longleftrightarrow>
     proto = 1 \<and> icmp_parsed h \<and> (icmp_type h = 8 \<or> icmp_type h = 0) \<and> echo_parsed e"
| "transport_wf proto (PIcmp h (PBytes b)) \<longleftrightarrow>
     proto = 1 \<and> icmp_parsed h \<and> icmp_type h \<notin> {0, 3, 8, 11}"
| "transport_wf proto (PBytes b) \<longleftrightarrow> proto \<notin> {1, 2, 6, 17}"
| "transport_wf proto p \<longleftrightarrow> False"

definition ipv4_wf :: "ipv4 \<Rightarrow> bool" where
  "ipv4_wf h \<longleftrightarrow> ip_parsed h \<and> ip_v h = 4 \<and> ip_hl h = 5 \<and> 0 \<le> ip_flags h \<and> 0 \<le> ip_frag h \<and> ip_frag h < 8192 \<and>
     ip_wf (ip_srcip h) \<and> ip_wf (ip_dstip h)"

definition arp_wf :: "arp \<Rightarrow> bool" where
  "arp_wf h \<longleftrightarrow> arp_parsed h \<and> arp_hwtype h = 1 \<and> arp_prototype h = 2048 \<and> arp_hwlen h = 6 \<and> arp_protolen h = 4 \<and>
     eth_wf (arp_hwsrc h) \<and> eth_wf (arp_hwdst h) \<and> ip_wf (arp_protosrc h) \<and> ip_wf (arp_protodst h)"

text \<open>A payload that fits the Ethernet type in front of it. The canonical format indicator has to be clear.\<close>

fun payload_wf :: "int \<Rightarrow> payload \<Rightarrow> bool" where
  "payload_wf t (PVlan h p) \<longleftrightarrow>
     t = 33024 \<and> v_parsed h \<and> 0 \<le> v_pcp h \<and> v_cfi h = 0 \<and> 0 \<le> v_id h \<and> v_id h < 4096 \<and> payload_wf (v_eth_type h) p"
| "payload_wf t (PArp h (PBytes b)) \<longleftrightarrow> (t = 2054 \<or> t = 32821) \<and> arp_wf h"
| "payload_wf t (PIpv4 h p) \<longleftrightarrow> t = 2048 \<and> ipv4_wf h \<and> transport_wf (ip_protocol h) p"
| "payload_wf t (PBytes b) \<longleftrightarrow> 1536 \<le> t \<and> t \<notin> {33024, 2054, 32821, 2048, 34525, 35020, 34958, 34887, 34888}"
| "payload_wf t p \<longleftrightarrow> False"

definition frame_wf :: "ethernet \<Rightarrow> bool" where
  "frame_wf e \<longleftrightarrow> e_parsed e \<and> eth_wf (e_dst e) \<and> eth_wf (e_src e) \<and> payload_wf (e_type e) (e_payload e)"

section \<open>Layer by layer\<close>

lemma pack_base_parsed [simp]: "pack_base True raw self p rest k = rbind rest (\<lambda>(r, p). k r p)"
  by (simp add: pack_base_def split: option.split)

lemma slice_prefix: "n = int (length b) \<Longrightarrow> py_slice (b @ r) 0 n = b"
  by (simp add: py_slice_nonneg)

lemma slice_middle: "i = int (length a) \<Longrightarrow> j = i + int (length b) \<Longrightarrow> py_slice (a @ b @ r) i j = b"
  by (simp add: py_slice_nonneg nat_add_distrib)

lemma struct_pack_length: "struct_pack cs vs = Inr b \<Longrightarrow> length b = calcsize cs"
  by (auto simp: struct_pack_Inr_iff length_struct_bytes list_all2_lengthD)

lemma unpack_head:
  assumes "struct_pack cs vs = Inr b"
  shows "struct_unpack cs (py_slice (b @ r) 0 (int (calcsize cs))) = Inr vs"
  using struct_pack_length [OF assms] assms by (simp add: slice_prefix struct_unpack_pack)

lemma join_bits:
  assumes "0 \<le> (b :: int)" "b < 2 ^ k"
  shows "drop_bit k (push_bit k a OR b) = a" "(push_bit k a OR b) AND mask k = b"
proof -
  have "take_bit k b = b" using assms by (simp add: take_bit_int_eq_self)
  moreover have "drop_bit k b = 0" using assms by (simp add: drop_bit_eq_div)
  moreover have "drop_bit k (push_bit k a) = a" by (rule bit_eqI) (simp add: bit_simps)
  ultimately show "drop_bit k (push_bit k a OR b) = a" "(push_bit k a OR b) AND mask k = b"
    by (simp_all add: take_bit_push_bit flip: take_bit_eq_mask)
qed

lemma udp_roundtrip:
  assumes "udp_hdr prev h r = Inr (b, h')" "udp_class (udp_srcport h) (udp_dstport h) = None"
  shows "udp_new x (b @ r) = Inr (h'\<lparr>udp_parsed := True, udp_raw := Some (b @ r)\<rparr>, PBytes r)"
proof -
  from assms(1) have s: "struct_pack [FH, FH, FH, FH] [udp_srcport h', udp_dstport h', udp_len h', udp_csum h'] = Inr b"
    and f: "udp_srcport h' = udp_srcport h" "udp_dstport h' = udp_dstport h" "udp_len h' = int (length r) + 8"
    by (auto simp: udp_hdr_def Let_def rbind_Inr_iff)
  note u = unpack_head [OF s, of r, simplified] struct_pack_length [OF s]
  show ?thesis using u f assms(2) by (cases h') (simp add: udp_new_def udp_init_def)
qed

lemma tcp_checksum_keeps:
  "tcp_checksum prev h r = Inr (c, h1) \<Longrightarrow> tcp_options h1 = tcp_options h \<and> tcp_res h1 = tcp_res h"
  by (auto simp: tcp_checksum_def tcp_head_def Let_def rbind_Inr_iff split: option.splits)

lemma tcp_roundtrip:
  assumes "tcp_hdr prev h r = Inr (b, h')" "0 \<le> tcp_res h" "tcp_res h < 16" "list_all opt_wf (tcp_options h)"
  shows "tcp_new (b @ r) = Inr (h'\<lparr>tcp_parsed := True, tcp_raw := Some (b @ r)\<rparr>, PBytes r)"
proof -
  from assms(1) obtain c h1 where h1: "tcp_checksum prev h r = Inr (c, h1)"
    and hd: "tcp_head (h1\<lparr>tcp_csum := c\<rparr>) c = Inr (b, h')"
    by (auto simp: tcp_hdr_def rbind_Inr_iff)
  define h0 where "h0 = h1\<lparr>tcp_csum := c\<rparr>"
  with tcp_checksum_keeps [OF h1] hd have h0: "tcp_options h0 = tcp_options h" "tcp_res h0 = tcp_res h"
      "tcp_csum h0 = c" and hd: "tcp_head h0 c = Inr (b, h')"
    by simp_all
  from hd obtain p hb where p: "options_packed (tcp_options h0) = Inr p"
    and h': "h' = h0\<lparr>tcp_off := (20 + int (length p)) div 4\<rparr>" and b: "b = hb @ p"
    and s: "struct_pack [FH, FH, FL, FL, FB, FB, FH, FH, FH]
         [tcp_srcport h', tcp_dstport h', tcp_seq h', tcp_ack h', push_bit 4 (tcp_off h') OR tcp_res h', tcp_flags h',
           tcp_win h', tcp_csum h', tcp_urg h'] = Inr hb"
    using h0(3) by (auto simp: tcp_head_def Let_def rbind_Inr_iff)
  note u = unpack_head [OF s, of "p @ r", simplified] struct_pack_length [OF s]
  have len: "length hb = 20" using u(2) by simp
  obtain i where o: "parse_options (hb @ p @ r) (20 + int (length p)) 20 [] = (tcp_options h, Inr i)"
    and m: "length p mod 4 = 0"
    using options_read_back [OF p] assms(4) h0(1) len by metis
  have off: "tcp_off h' * 4 = 20 + int (length p)"
  proof -
    from m obtain k where "length p = 4 * k" by (auto elim: dvdE simp: mod_eq_0_iff_dvd)
    with h' show ?thesis by simp
  qed
  have bits: "drop_bit 4 (push_bit 4 (tcp_off h') OR tcp_res h') = tcp_off h'"
    "(push_bit 4 (tcp_off h') OR tcp_res h') AND 15 = tcp_res h'"
    using join_bits [of "tcp_res h'" 4 "tcp_off h'"] assms(2,3) h0(2) h' by (simp_all add: mask_eq_exp_minus_1)
  show ?thesis
    using u o off len bits b h0(1) h' assms
    by (cases h') (simp add: tcp_new_def tcp_init_def Let_def nat_add_distrib)
qed

lemma echo_roundtrip:
  assumes "echo_hdr h = Inr b"
  shows "echo_new (b @ r) = Inr (h\<lparr>echo_parsed := True, echo_raw := Some (b @ r)\<rparr>, PBytes r)"
  using unpack_head [OF assms [unfolded echo_hdr_def], of r] struct_pack_length [OF assms [unfolded echo_hdr_def]]
  by (cases h) (simp add: echo_new_def echo_init_def)

lemma icmp_hdr_struct:
  assumes "icmp_hdr h r = Inr (b, h')"
  shows "struct_pack [FB, FB, FH] [icmp_type h', icmp_code h', icmp_csum h'] = Inr b"
    "icmp_type h' = icmp_type h" "icmp_parsed h' = icmp_parsed h"
  using assms by (auto simp: icmp_hdr_def Let_def rbind_Inr_iff)

lemma icmp_roundtrip:
  assumes "icmp_hdr h r = Inr (b, h')"
  shows "icmp_new x (b @ r) =
    (let self = h'\<lparr>icmp_parsed := True\<rparr> in
     if icmp_type h' = 8 \<or> icmp_type h' = 0 then rbind (echo_new r) (\<lambda>(h, p). Inr (self, PEcho h p))
     else if icmp_type h' = 3 then rbind (unreach_new x r) (\<lambda>(h, p). Inr (self, PUnreach h p))
     else if icmp_type h' = 11 then rbind (time_exceeded_new x r) (\<lambda>(h, p). Inr (self, PTimeExceeded h p))
     else Inr (self, PBytes r))"
proof -
  note s = icmp_hdr_struct(1) [OF assms]
  have "struct_unpack [FB, FB, FH] (py_slice (b @ r) 0 4) = Inr [icmp_type h', icmp_code h', icmp_csum h']" "length b = 4"
    using unpack_head [OF s, of r] struct_pack_length [OF s] by simp_all
  moreover have i: "icmp_init\<lparr>icmp_type := icmp_type h', icmp_code := icmp_code h', icmp_csum := icmp_csum h', icmp_parsed := True\<rparr>
      = h'\<lparr>icmp_parsed := True\<rparr>"
    by (cases h') (simp add: icmp_init_def)
  ultimately show ?thesis by (subst icmp_new.simps) (simp only: rbind_simps tup_simps Let_def i, simp)
qed

lemma ipv4_hdr_roundtrip:
  assumes "ipv4_hdr h r = Inr (b, h')" "ipv4_wf h"
  shows "ipv4_parse_hdr (b @ r) = Inr (h'\<lparr>ip_raw_data := Some (b @ r)\<rparr>, True)" "ipv4_body h' (b @ r) = r"
    "ip_protocol h' = ip_protocol h" "ip_iplen h' = int (length (b @ r))" "length b = 20"
proof -
  from assms(1) have h': "h' = h\<lparr>ip_iplen := ip_hl h * 4 + int (length r), ip_csum := ip_csum h'\<rparr>"
    and s: "struct_pack [FB, FB, FH, FH, FH, FB, FB, FH, FL, FL]
       [push_bit 4 (ip_v h') + ip_hl h', ip_tos h', ip_iplen h', ip_id h',
        push_bit 13 (ip_flags h') OR ip_frag h', ip_ttl h', ip_protocol h', ip_csum h',
        ip_toUnsigned (ip_srcip h') False, ip_toUnsigned (ip_dstip h') False] = Inr b"
    by (auto simp: ipv4_hdr_def ipv4_struct_def Let_def rbind_Inr_iff)
  have f: "ip_v h' = 4" "ip_hl h' = 5" "ip_iplen h' = 20 + int (length r)" "0 \<le> ip_frag h'" "ip_frag h' < 8192"
      "ip_parsed h'" "ip_wf (ip_srcip h')" "ip_wf (ip_dstip h')"
    using assms(2) by (subst h', simp add: ipv4_wf_def)+
  show "ip_protocol h' = ip_protocol h" by (subst h') simp
  have len: "length b = 20" using struct_pack_length [OF s] by simp
  then show "length b = 20" "ip_iplen h' = int (length (b @ r))" using f(3) by simp_all
  have bits: "drop_bit 13 (push_bit 13 (ip_flags h') OR ip_frag h') = ip_flags h'"
      "(push_bit 13 (ip_flags h') OR ip_frag h') AND 8191 = ip_frag h'"
    using join_bits [of "ip_frag h'" 13 "ip_flags h'"] f(4,5) by (simp_all add: mask_eq_exp_minus_1)
  have vhl: "drop_bit 4 (69 :: int) = 4" "69 AND 15 = (5 :: int)" by code_simp+
  show "ipv4_parse_hdr (b @ r) = Inr (h'\<lparr>ip_raw_data := Some (b @ r)\<rparr>, True)"
    using unpack_head [OF s, of r] f bits vhl len
    by (cases h') (simp add: ipv4_parse_hdr_def ipv4_init_def Let_def ip_of_toUnsigned)
  show "ipv4_body h' (b @ r) = r"
    using f len by (simp add: ipv4_body_def Let_def py_slice_nonneg)
qed

lemma hdr_keeps_parsed:
  "udp_hdr prev u r = Inr (b, u') \<Longrightarrow> udp_parsed u' = udp_parsed u"
  "tcp_hdr prev t r = Inr (b, t') \<Longrightarrow> tcp_parsed t' = tcp_parsed t"
  by (auto simp: udp_hdr_def tcp_hdr_def tcp_checksum_def tcp_head_def Let_def rbind_Inr_iff split: option.splits)

text \<open>What stands behind an IPv4 header is packed and parsed back.\<close>

definition transport_new :: "pk_ext \<Rightarrow> int \<Rightarrow> bytes \<Rightarrow> payload res" where
  "transport_new x proto r =
     (if proto = 17 then rbind (udp_new x r) (\<lambda>(g, p). Inr (if udp_parsed g then PUdp g p else PBytes r))
      else if proto = 6 then rbind (tcp_new r) (\<lambda>(g, p). Inr (if tcp_parsed g then PTcp g p else PBytes r))
      else if proto = 1 then rbind (icmp_new x r) (\<lambda>(g, p). Inr (if icmp_parsed g then PIcmp g p else PBytes r))
      else if proto = 2 then rbind (igmp_new r) (\<lambda>g. Inr (if ig_parsed g then PIgmp g PNone else PBytes r))
      else Inr (PBytes r))"

lemma ipv4_new_transport:
  assumes "ipv4_parse_hdr raw = Inr (h, True)" "ip_iplen h \<le> int (length raw)"
  shows "ipv4_new x raw = rbind (transport_new x (ip_protocol h) (ipv4_body h raw)) (\<lambda>q. Inr (h, q))"
  using assms by (simp add: ipv4_new.simps transport_new_def Let_def rbind_assoc split_def)

lemma transport_roundtrip:
  assumes "payload_pack x (Some ip) p = Inr (r, p')" "transport_wf proto p"
  shows "\<exists>q. transport_new x proto r = Inr q \<and> forget q = forget p'"
proof -
  consider (udp) u b where "p = PUdp u (PBytes b)" | (tcp) t b where "p = PTcp t (PBytes b)"
    | (echo) i e b where "p = PIcmp i (PEcho e (PBytes b))" | (icmp) i b where "p = PIcmp i (PBytes b)"
    | (bytes) b where "p = PBytes b"
    using assms(2) by (cases "(proto, p)" rule: transport_wf.cases) auto
  then show ?thesis
  proof cases
    case udp
    with assms obtain b1 u' where u: "udp_hdr (Some ip) u b = Inr (b1, u')" "r = b1 @ b" "p' = PUdp u' (PBytes b)"
      by (auto simp: rbind_Inr_iff)
    with udp assms(2) udp_roundtrip [OF u(1), of x] hdr_keeps_parsed(1) [OF u(1)] show ?thesis
      by (simp add: transport_new_def)
  next
    case tcp
    with assms obtain b1 t' where u: "tcp_hdr (Some ip) t b = Inr (b1, t')" "r = b1 @ b" "p' = PTcp t' (PBytes b)"
      by (auto simp: rbind_Inr_iff)
    with tcp assms(2) tcp_roundtrip [OF u(1)] hdr_keeps_parsed(2) [OF u(1)] show ?thesis
      by (simp add: transport_new_def)
  next
    case echo
    with assms obtain b1 b2 i' where e: "echo_hdr e = Inr b1" "icmp_hdr i (b1 @ b) = Inr (b2, i')"
        "r = b2 @ b1 @ b" "p' = PIcmp i' (PEcho e (PBytes b))"
      by (auto simp: rbind_Inr_iff)
    with echo assms(2) echo_roundtrip [OF e(1)] icmp_roundtrip [OF e(2), of x] icmp_hdr_struct [OF e(2)]
    show ?thesis by (auto simp: transport_new_def Let_def)
  next
    case icmp
    with assms obtain b2 i' where e: "icmp_hdr i b = Inr (b2, i')" "r = b2 @ b" "p' = PIcmp i' (PBytes b)"
      by (auto simp: rbind_Inr_iff)
    with icmp assms(2) icmp_roundtrip [OF e(1), of x] icmp_hdr_struct [OF e(1)]
    show ?thesis by (auto simp: transport_new_def Let_def)
  next
    case bytes
    with assms show ?thesis by (auto simp: transport_new_def)
  qed
qed

lemma ipv4_roundtrip:
  assumes "payload_pack x prev (PIpv4 h p) = Inr (b, p')" "ipv4_wf h" "transport_wf (ip_protocol h) p"
  shows "\<exists>h1 q. ipv4_new x b = Inr (h1, q) \<and> forget (PIpv4 h1 q) = forget p'"
proof -
  from assms(1,2) obtain r p1 b1 h' where r: "payload_pack x (Some h) p = Inr (r, p1)" "ipv4_hdr h r = Inr (b1, h')"
      "b = b1 @ r" "p' = PIpv4 h' p1"
    by (auto simp: ipv4_wf_def rbind_Inr_iff)
  note t = ipv4_hdr_roundtrip [OF r(2) assms(2)]
  from transport_roundtrip [OF r(1) assms(3)] obtain q where
    q: "transport_new x (ip_protocol h) r = Inr q" "forget q = forget p1" by blast
  have body: "ipv4_body (h'\<lparr>ip_raw_data := Some b\<rparr>) b = r"
  proof -
    have "ipv4_body (h'\<lparr>ip_raw_data := Some b\<rparr>) b = ipv4_body h' b"
      by (simp add: ipv4_body_def Let_def cong: if_cong)
    with t(2) r(3) show ?thesis by simp
  qed
  have "ipv4_new x b = Inr (h'\<lparr>ip_raw_data := Some b\<rparr>, q)"
    using ipv4_new_transport [of b "h'\<lparr>ip_raw_data := Some b\<rparr>" x] t r(3) q body by simp
  with q r(4) show ?thesis by simp
qed

lemma arp_roundtrip:
  assumes "arp_hdr h = Inr b" "arp_wf h"
  shows "arp_new (b @ r) = Inr (h\<lparr>arp_raw := Some (b @ r)\<rparr>, PBytes r)"
proof -
  let ?vs = "[arp_hwtype h, arp_prototype h, arp_hwlen h, arp_protolen h, arp_opcode h]"
  from assms obtain b1 b2 b3 where b: "b = b1 @ eth_toRaw (arp_hwsrc h) @ b2 @ eth_toRaw (arp_hwdst h) @ b3"
    and s: "struct_pack [FH, FH, FB, FB, FH] ?vs = Inr b1"
    and s2: "struct_pack [FL] [ip_toUnsigned (arp_protosrc h) False] = Inr b2"
    and s3: "struct_pack [FL] [ip_toUnsigned (arp_protodst h) False] = Inr b3"
    by (auto simp: arp_hdr_def rbind_Inr_iff)
  define e1 e2 where "e1 = eth_toRaw (arp_hwsrc h)" and "e2 = eth_toRaw (arp_hwdst h)"
  have l: "length b1 = 8" "length b2 = 4" "length b3 = 4" "length e1 = 6" "length e2 = 6"
    using struct_pack_length [OF s] struct_pack_length [OF s2] struct_pack_length [OF s3] assms(2)
    by (simp_all add: e1_def e2_def arp_wf_def eth_wf_def eth_toRaw_def)
  have sl: "py_slice (b @ r) 8 14 = e1" "py_slice (b @ r) 14 18 = b2" "py_slice (b @ r) 18 24 = e2"
      "py_slice (b @ r) 24 28 = b3"
    unfolding b e1_def [symmetric] e2_def [symmetric] append_assoc
    using slice_middle [of 8 b1 14 e1 "b2 @ e2 @ b3 @ r"] slice_middle [of 14 "b1 @ e1" 18 b2 "e2 @ b3 @ r"]
      slice_middle [of 18 "b1 @ e1 @ b2" 24 e2 "b3 @ r"] slice_middle [of 24 "b1 @ e1 @ b2 @ e2" 28 b3 r] l
    by simp_all
  have "EthAddr_init (EthStr e1) = Inr (arp_hwsrc h)" "EthAddr_init (EthStr e2) = Inr (arp_hwdst h)"
    using l(4,5) by (simp_all add: EthAddr_init_def e1_def e2_def eth_toRaw_def)
  moreover have "struct_unpack [FH, FH, FB, FB, FH] (py_slice (b @ r) 0 8) = Inr ?vs"
    using unpack_head [OF s, of "e1 @ b2 @ e2 @ b3 @ r"] unfolding b e1_def e2_def by simp
  moreover have "length b = 28" using l by (simp add: b e1_def e2_def)
  ultimately show ?thesis
    using sl struct_unpack_pack [OF s2] struct_unpack_pack [OF s3] assms(2)
    by (cases h) (simp add: arp_new_def arp_init_def arp_wf_def ip_of_toUnsigned)
qed

lemma vlan_bits:
  assumes "v_cfi h = 0" "0 \<le> v_pcp h" "0 \<le> v_id h" "v_id h < 4096"
  defines "w \<equiv> push_bit 13 (v_pcp h) OR push_bit 12 (v_cfi h) OR v_id h"
  shows "drop_bit 13 w = v_pcp h" "w AND 4096 = 0" "w AND 4095 = v_id h"
proof -
  have w: "w = push_bit 13 (v_pcp h) OR v_id h" using assms(1) by (simp add: w_def)
  have tb: "take_bit 12 (v_id h) = v_id h" using assms by (simp add: take_bit_int_eq_self)
  show "drop_bit 13 w = v_pcp h" unfolding w using assms by (intro join_bits) simp_all
  have "bit w 12 = False" unfolding w
    using bit_take_bit_iff [of 12 "v_id h" 12] by (simp add: bit_simps tb)
  then show "w AND 4096 = 0"
    using and_exp_eq_0_iff_not_bit [of w 12] by simp
  have "take_bit 12 w = v_id h" unfolding w by (simp add: take_bit_or take_bit_push_bit tb)
  then show "w AND 4095 = v_id h" by (simp add: take_bit_eq_mask mask_eq_exp_minus_1)
qed

lemma vlan_roundtrip:
  assumes "vlan_hdr h = Inr b" "v_parsed h" "v_cfi h = 0" "0 \<le> v_pcp h" "0 \<le> v_id h" "v_id h < 4096"
  shows "vlan_parse_hdr (b @ r) = Inr (h\<lparr>v_raw := Some (b @ r)\<rparr>, True)" "length b = 4"
proof -
  note s = assms(1) [unfolded vlan_hdr_def]
  show l: "length b = 4" using struct_pack_length [OF s] by simp
  show "vlan_parse_hdr (b @ r) = Inr (h\<lparr>v_raw := Some (b @ r)\<rparr>, True)"
    using unpack_head [OF s, of r] l vlan_bits [OF assms(3-6)] assms(2,3)
    by (cases h) (simp add: vlan_parse_hdr_def vlan_init_def)
qed

lemma payload_roundtrip:
  assumes "payload_pack x prev p = Inr (b, p')" "payload_wf t p"
  shows "\<exists>q. parse_next x t b True = Inr q \<and> forget q = forget p'"
  using assms
proof (induction t p arbitrary: b p' prev rule: payload_wf.induct)
  case (1 t h p)
  then obtain r p1 b1 where r: "payload_pack x None p = Inr (r, p1)" "vlan_hdr h = Inr b1" "b = b1 @ r" "p' = PVlan h p1"
    by (auto simp: rbind_Inr_iff)
  with 1 obtain q where q: "parse_next x (v_eth_type h) r True = Inr q" "forget q = forget p1" by fastforce
  have "vlan_new x b = Inr (h\<lparr>v_raw := Some b\<rparr>, q)"
    using vlan_roundtrip(1) [OF r(2), of r] vlan_roundtrip(2) [OF r(2)] 1(3) r(3) q by (simp add: vlan_new.simps)
  with 1(3) q r show ?case by (simp add: parse_next.simps)
next
  case (2 t h c)
  then obtain b1 where r: "arp_hdr h = Inr b1" "b = b1 @ c" "p' = PArp h (PBytes c)"
    by (auto simp: rbind_Inr_iff arp_wf_def)
  with 2 arp_roundtrip [OF r(1), of c] show ?case by (auto simp: parse_next.simps)
next
  case (3 t h p)
  then obtain h1 q where "ipv4_new x b = Inr (h1, q)" "forget (PIpv4 h1 q) = forget p'"
    using ipv4_roundtrip [of x prev h p b p'] by auto
  with 3(2) show ?case by (simp add: parse_next.simps)
next
  case (4 t c)
  then show ?case by (auto simp: parse_next.simps)
qed auto

section \<open>Properties\<close>

text \<open>
  C17. A well-formed frame is read back. It is made of Ethernet, any number of VLAN tags with the canonical format indicator clear,
  and below them ARP for IPv4 over Ethernet, or IPv4 without options carrying UDP (between ports no class is registered for),
  TCP with options of the kinds that are read back, ICMP echoes, ICMP of a type without a class or data of a protocol without a
  class, or data of an Ethernet type without a class. When such a frame packs, parsing the bytes gives the same objects, with the
  lengths and checksums that packing filled in; only the raw bytes that parsed objects remember are not compared.
\<close>

theorem frame_roundtrip:
  assumes "frame_wf e" "ethernet_pack x e = Inr (bs, e')"
  shows "\<exists>e2. ethernet_new x bs = Inr e2 \<and> forget_frame e2 = forget_frame e'"
proof -
  from assms obtain r p hb where r: "payload_pack x None (e_payload e) = Inr (r, p)" "ethernet_hdr e = Inr hb"
      "bs = hb @ r" "e' = e\<lparr>e_payload := p\<rparr>"
    by (auto simp: ethernet_pack_def frame_wf_def Let_def rbind_Inr_iff split: option.splits)
  from r(2) obtain tb where t: "struct_pack [FH] [e_type e] = Inr tb" and
      hb: "hb = eth_toRaw (e_dst e) @ eth_toRaw (e_src e) @ tb"
    using assms(1) by (auto simp: ethernet_hdr_def frame_wf_def eth_wf_def eth_toRaw_def ljust0_def rbind_Inr_iff)
  define d s where "d = eth_toRaw (e_dst e)" and "s = eth_toRaw (e_src e)"
  have l: "length d = 6" "length s = 6" "length tb = 2"
    using assms(1) struct_pack_length [OF t] by (simp_all add: d_def s_def frame_wf_def eth_wf_def eth_toRaw_def)
  have sl: "py_slice bs 0 6 = d" "py_slice bs 6 12 = s" "py_slice bs 12 14 = tb"
    unfolding r(3) hb d_def [symmetric] s_def [symmetric] append_assoc
    using slice_prefix [of 6 d "s @ tb @ r"] slice_middle [of 6 d 12 s "tb @ r"] slice_middle [of 12 "d @ s" 14 tb r] l
    by simp_all
  have dr: "drop 14 bs = r" "14 \<le> length bs" using l by (simp_all add: r(3) hb flip: d_def s_def)
  have ei: "EthAddr_init (EthStr d) = Inr (e_dst e)" "EthAddr_init (EthStr s) = Inr (e_src e)"
    using l by (simp_all add: EthAddr_init_def d_def s_def eth_toRaw_def)
  from payload_roundtrip [OF r(1)] assms(1) obtain q where
    q: "parse_next x (e_type e) r True = Inr q" "forget q = forget p"
    by (auto simp: frame_wf_def)
  have "ethernet_new x bs = Inr (e\<lparr>e_payload := q, e_raw := Some bs\<rparr>)"
    using sl dr ei q struct_unpack_pack [OF t] assms(1)
    by (cases e) (simp add: ethernet_new_def ethernet_init_def frame_wf_def)
  with q r(4) show ?thesis by (simp add: forget_frame_def)
qed

definition no_ext :: pk_ext where
  "no_ext = \<lparr>x_parse = \<lambda>_ _. Inr False, x_pack = \<lambda>_ b. Inr b, x_find_ipv4 = \<lambda>_ _. None\<rparr>"

definition sample_ping :: ethernet where
  "sample_ping = ethernet_init\<lparr>e_dst := EthAddr [2, 0, 0, 0, 0, 1], e_src := EthAddr [2, 0, 0, 0, 0, 2], e_type := 33024,
     e_parsed := True, e_payload := PVlan (vlan_init\<lparr>v_pcp := 5, v_id := 100, v_eth_type := 2048, v_parsed := True\<rparr>)
       (PIpv4 ((ipv4_init 1)\<lparr>ip_protocol := 1, ip_parsed := True\<rparr>)
         (PIcmp (icmp_init\<lparr>icmp_type := 8, icmp_parsed := True\<rparr>)
           (PEcho ((echo_init 9)\<lparr>echo_parsed := True\<rparr>) (PBytes [1, 2, 3]))))\<rparr>"

theorem frame_roundtrip_witness:
  "\<exists>bs e' e2. ethernet_pack no_ext sample_ping = Inr (bs, e') \<and> ethernet_new no_ext bs = Inr e2 \<and>
     forget_frame e2 = forget_frame e'"
proof -
  have "\<exists>bs e'. ethernet_pack no_ext sample_ping = Inr (bs, e')"
    by (cases "ethernet_pack no_ext sample_ping") (simp, code_simp, auto)
  moreover have "frame_wf sample_ping" by code_simp
  ultimately show ?thesis using frame_roundtrip by blast
qed

text \<open>
  Every IPv4 header the library packs carries a checksum that a receiver accepts: the checksum of the twenty bytes
  with it in place is zero.
\<close>

theorem ipv4_checksum_accepted:
  assumes "ipv4_hdr h payload = Inr (b, h')"
  shows "checksum b 0 None = 0 \<and> length b = 20"
  using ipv4_hdr_checksum [OF assms] by simp

theorem ipv4_checksum_accepted_witness:
  "\<exists>b h'. ipv4_hdr (ipv4_init 7) [1, 2, 3] = Inr (b, h') \<and> checksum b 0 None = 0 \<and> length b = 20"
proof -
  have "ipv4_hdr (ipv4_init 7) [1, 2, 3] = Inr
      ([69, 0, 0, 23, 0, 7, 0, 0, 64, 0, 122, 225, 0, 0, 0, 0, 0, 0, 0, 0], (ipv4_init 7)\<lparr>ip_iplen := 23, ip_csum := 31457\<rparr>)"
    by code_simp
  from ipv4_checksum_accepted [OF this] this show ?thesis by blast
qed

text \<open>
  C37. A UDP or TCP segment packed behind an IPv4 header carries a checksum that verifies over the pseudo header and the
  whole segment, also where UDP replaces a zero checksum by its other representation.
\<close>

theorem transport_checksum_accepted:
  assumes "udp_hdr (Some ip) u payload = Inr (b, u') \<or> tcp_hdr (Some ip) t payload = Inr (b, t')"
  shows "\<exists>ph. pseudo_hdr ip (length (b @ payload)) = Inr ph \<and> checksum (ph @ b @ payload) 0 None = 0"
  using assms udp_hdr_checksum tcp_hdr_checksum by blast

theorem transport_checksum_accepted_witness:
  "\<exists>b u' ph. udp_hdr (Some (ipv4_init 7)) (udp_init\<lparr>udp_srcport := 1000, udp_dstport := 2000\<rparr>) [104, 105, 33] = Inr (b, u') \<and>
     pseudo_hdr (ipv4_init 7) (length (b @ [104, 105, 33])) = Inr ph \<and> checksum (ph @ b @ [104, 105, 33]) 0 None = 0"
proof -
  have "udp_hdr (Some (ipv4_init 7)) (udp_init\<lparr>udp_srcport := 1000, udp_dstport := 2000\<rparr>) [104, 105, 33] \<noteq> Inl e" for e
    by (cases e) code_simp+
  then obtain b u' where
    "udp_hdr (Some (ipv4_init 7)) (udp_init\<lparr>udp_srcport := 1000, udp_dstport := 2000\<rparr>) [104, 105, 33] = Inr (b, u')"
    by (metis sumE surj_pair)
  with transport_checksum_accepted [OF disjI1, of _ _ _ b u'] show ?thesis by blast
qed

text \<open>
  A VLAN tag whose canonical format indicator is set parses to an object that cannot be packed: parsing keeps the bit
  where it stands in the tag, and packing shifts it up by another twelve places.
\<close>

lemma vlan_cfi_unpackable:
  assumes "vlan_parse_hdr raw = Inr (h, True)" "v_cfi h \<noteq> 0"
  shows "vlan_hdr h = Inl StructError"
proof -
  from assms(1) obtain w t where h: "v_cfi h = w AND 4096" "v_pcp h = drop_bit 13 w" "v_id h = w AND 4095"
      and u: "struct_unpack [FH, FH] (py_slice raw 0 4) = Inr [w, t]"
    by (auto simp: vlan_parse_hdr_def Let_def rbind_Inr_iff tup_Inr_iff split: if_splits)
  have b: "bit w 12" using assms(2) h(1) and_exp_eq_0_iff_not_bit [of w 12] by simp
  have cfi: "v_cfi h = 2 ^ 12" using h(1) and_exp_eq [of w 12] b by simp
  define v where "v = push_bit 13 (v_pcp h) OR push_bit 12 (v_cfi h) OR v_id h"
  have "bit v 24" unfolding v_def cfi by (simp add: bit_simps)
  have "\<not> v < 65536"
  proof
    assume "v < 65536"
    moreover have "0 \<le> v"
    proof -
      have "0 \<le> w" using u struct_ints_range [of "[FH, FH]" "py_slice raw 0 4"]
        by (auto simp: struct_unpack_def split: if_splits)
      then show ?thesis unfolding v_def h by simp
    qed
    ultimately have "v = take_bit 16 v" by (simp add: take_bit_int_eq_self)
    with \<open>bit v 24\<close> show False by (metis bit_take_bit_iff numeral_less_iff semiring_norm(76) semiring_norm(78) semiring_norm(80) semiring_norm(81) not_less_iff_gr_or_eq)
  qed
  then show ?thesis by (simp add: vlan_hdr_def struct_pack_def v_def)
qed

lemma vlan_cfi_unpackable_witness:
  "\<exists>h. vlan_parse_hdr [16, 5, 8, 0] = Inr (h, True) \<and> vlan_hdr h = Inl StructError"
proof -
  have "vlan_parse_hdr [16, 5, 8, 0] =
    Inr (vlan_init\<lparr>v_cfi := 4096, v_id := 5, v_eth_type := 2048, v_parsed := True, v_raw := Some [16, 5, 8, 0]\<rparr>, True)"
    by code_simp
  from vlan_cfi_unpackable [OF this] this show ?thesis by (auto simp: vlan_init_def)
qed

text \<open>
  Packing an IPv4 header drops its options but keeps the header length field: for a parsed header longer than twenty
  bytes the packed length field exceeds the bytes of the packet by the length of the lost options.
\<close>

theorem ipv4_options_lost:
  assumes "ipv4_parse_hdr raw = Inr (h, True)" "ipv4_hdr h payload = Inr (b, h')"
  shows "ip_iplen h' = int (length (b @ payload)) + (ip_hl h * 4 - 20) \<and> ip_hl h' = ip_hl h"
  using assms ipv4_hdr_checksum [OF assms(2)] by (auto simp: ipv4_hdr_def Let_def rbind_Inr_iff)

theorem ipv4_options_lost_witness:
  "\<exists>h b h'. ipv4_parse_hdr [70, 0, 0, 24, 0, 1, 0, 0, 64, 99, 0, 0, 10, 0, 0, 1, 10, 0, 0, 2, 1, 1, 1, 0] = Inr (h, True) \<and>
     ipv4_hdr h [] = Inr (b, h') \<and> ip_iplen h' = int (length (b @ [])) + (ip_hl h * 4 - 20) \<and> ip_hl h' = ip_hl h"
proof -
  let ?raw = "[70, 0, 0, 24, 0, 1, 0, 0, 64, 99, 0, 0, 10, 0, 0, 1, 10, 0, 0, 2, 1, 1, 1, 0] :: bytes"
  let ?h = "(ipv4_init 1)\<lparr>ip_hl := 6, ip_iplen := 24, ip_protocol := 99, ip_srcip := IPAddr 16777226, ip_dstip := IPAddr 33554442,
     ip_parsed := True, ip_raw_data := Some ?raw\<rparr>"
  have p: "ipv4_parse_hdr ?raw = Inr (?h, True)" by code_simp
  have "ipv4_hdr ?h [] \<noteq> Inl e" for e by (cases e) code_simp+
  then obtain b h' where "ipv4_hdr ?h [] = Inr (b, h')" by (metis sumE surj_pair)
  with ipv4_options_lost [OF p this] p show ?thesis by blast
qed

end
