(* ===== verification/Effects.thy ===== *)
theory Effects
  imports Pox_Prelude
begin

text \<open>
  Code that changes state and may raise: a state goes in, a result or an exception comes out together with the state,
  so that what was changed before an exception stays changed.
\<close>

type_synonym ('s, 'a) st = "'s \<Rightarrow> 'a res \<times> 's"

definition ret :: "'a \<Rightarrow> ('s, 'a) st" where
  "ret x s = (Inr x, s)"

definition raise :: "py_error \<Rightarrow> ('s, 'a) st" where
  "raise e s = (Inl e, s)"

definition sbind :: "('s, 'a) st \<Rightarrow> ('a \<Rightarrow> ('s, 'b) st) \<Rightarrow> ('s, 'b) st" where
  "sbind m f s = (case m s of (Inl e, s) \<Rightarrow> (Inl e, s) | (Inr x, s) \<Rightarrow> f x s)"

definition gets :: "('s \<Rightarrow> 'a) \<Rightarrow> ('s, 'a) st" where
  "gets f s = (Inr (f s), s)"

definition modify :: "('s \<Rightarrow> 's) \<Rightarrow> ('s, unit) st" where
  "modify f s = (Inr (), f s)"

definition lift :: "'a res \<Rightarrow> ('s, 'a) st" where
  "lift r s = (r, s)"

definition try_catch :: "('s, 'a) st \<Rightarrow> (py_error \<Rightarrow> ('s, 'a) st) \<Rightarrow> ('s, 'a) st" where
  "try_catch m h s = (case m s of (Inl e, s) \<Rightarrow> h e s | r \<Rightarrow> r)"

fun for_each :: "('a \<Rightarrow> ('s, unit) st) \<Rightarrow> 'a list \<Rightarrow> ('s, unit) st" where
  "for_each f [] = ret ()"
| "for_each f (x # xs) = sbind (f x) (\<lambda>_. for_each f xs)"

text \<open>\<^verbatim>\<open>try: ... except: pass\<close>\<close>

definition ignore_errors :: "('s, unit) st \<Rightarrow> ('s, unit) st" where
  "ignore_errors m s = (Inr (), snd (m s))"

end
