(* ===== verification/OF_Constants.thy ===== *)
theory OF_Constants
  imports Main
begin

text \<open>Constants of \<^verbatim>\<open>openflow/libopenflow_01.py\<close> that the switch and the controller share.\<close>

definition OFPFF_SEND_FLOW_REM :: int where "OFPFF_SEND_FLOW_REM = 1"
definition OFPFF_CHECK_OVERLAP :: int where "OFPFF_CHECK_OVERLAP = 2"
definition OFPFF_EMERG :: int where "OFPFF_EMERG = 4"
definition OFPPC_PORT_DOWN :: int where "OFPPC_PORT_DOWN = 1"
definition OFPPC_NO_STP :: int where "OFPPC_NO_STP = 2"
definition OFPPC_NO_RECV :: int where "OFPPC_NO_RECV = 4"
definition OFPPC_NO_RECV_STP :: int where "OFPPC_NO_RECV_STP = 8"
definition OFPPC_NO_FLOOD :: int where "OFPPC_NO_FLOOD = 16"
definition OFPPC_NO_FWD :: int where "OFPPC_NO_FWD = 32"
definition OFPPC_NO_PACKET_IN :: int where "OFPPC_NO_PACKET_IN = 64"
definition OFPPS_LINK_DOWN :: int where "OFPPS_LINK_DOWN = 1"
definition OFPC_FRAG_DROP :: int where "OFPC_FRAG_DROP = 1"
definition OFPC_FRAG_MASK :: int where "OFPC_FRAG_MASK = 3"
definition OFPR_NO_MATCH :: int where "OFPR_NO_MATCH = 0"
definition OFPR_ACTION :: int where "OFPR_ACTION = 1"
definition OFPPR_ADD :: int where "OFPPR_ADD = 0"
definition OFPPR_DELETE :: int where "OFPPR_DELETE = 1"
definition OFPPR_MODIFY :: int where "OFPPR_MODIFY = 2"
definition OFPET_HELLO_FAILED :: int where "OFPET_HELLO_FAILED = 0"
definition OFPET_BAD_REQUEST :: int where "OFPET_BAD_REQUEST = 1"
definition OFPET_BAD_ACTION :: int where "OFPET_BAD_ACTION = 2"
definition OFPET_FLOW_MOD_FAILED :: int where "OFPET_FLOW_MOD_FAILED = 3"
definition OFPET_PORT_MOD_FAILED :: int where "OFPET_PORT_MOD_FAILED = 4"
definition OFPET_QUEUE_OP_FAILED :: int where "OFPET_QUEUE_OP_FAILED = 5"
definition OFPHFC_INCOMPATIBLE :: int where "OFPHFC_INCOMPATIBLE = 0"
definition OFPBRC_BAD_TYPE :: int where "OFPBRC_BAD_TYPE = 1"
definition OFPBRC_BAD_STAT :: int where "OFPBRC_BAD_STAT = 2"
definition OFPBRC_BAD_VENDOR :: int where "OFPBRC_BAD_VENDOR = 3"
definition OFPBRC_BAD_LEN :: int where "OFPBRC_BAD_LEN = 6"
definition OFPBAC_BAD_TYPE :: int where "OFPBAC_BAD_TYPE = 0"
definition OFPFMFC_ALL_TABLES_FULL :: int where "OFPFMFC_ALL_TABLES_FULL = 0"
definition OFPFMFC_OVERLAP :: int where "OFPFMFC_OVERLAP = 1"
definition OFPFMFC_EPERM :: int where "OFPFMFC_EPERM = 2"
definition OFPFMFC_BAD_EMERG_TIMEOUT :: int where "OFPFMFC_BAD_EMERG_TIMEOUT = 3"
definition OFPPMFC_BAD_PORT :: int where "OFPPMFC_BAD_PORT = 0"
definition OFPPMFC_BAD_HW_ADDR :: int where "OFPPMFC_BAD_HW_ADDR = 1"
definition OFPQOFC_BAD_QUEUE :: int where "OFPQOFC_BAD_QUEUE = 1"

end
