(* ===== verification/Switch.thy ===== *)
theory Switch
  imports OF_Codec FlowTable Packet_Roundtrip Effects OF_Constants
begin

text \<open>
  \<^verbatim>\<open>datapaths/switch.py\<close>: the software switch. Its state is one record, with the packet objects in a store (buffers
  and action lists refer to a packet, and a later action changes the packet that is buffered), the xid generator of the
  OpenFlow library, the clock and the counter that gives table entries their identity. Everything the switch sends to
  the controller or out of a port is appended to a trace. A method is a function of the state that returns a result or an
  exception and the state: what was changed before an exception stays changed.
\<close>

definition STP_MAC :: EthAddr where "STP_MAC = EthAddr [1, 128, 194, 0, 0, 0]"

section \<open>Features\<close>

text \<open>The attributes \<^verbatim>\<open>cap_*\<close> and \<^verbatim>\<open>act_*\<close>, by the value of the capability and by the action type.\<close>

record SwitchFeatures =
  sf_caps :: "(int \<times> bool) list"
  sf_acts :: "(int \<times> bool) list"

definition SwitchFeatures_init :: SwitchFeatures where
  "SwitchFeatures_init =
     \<lparr>sf_caps = map (\<lambda>v. (v, False)) [1, 2, 4, 8, 16, 32, 64, 128],
      sf_acts = map (\<lambda>v. (v, False)) [0, 1, 2, 3, 4, 5, 6, 7, 8, 9, 10, 11, 65535]\<rparr>"

definition set_feature :: "int \<Rightarrow> (int \<times> bool) list \<Rightarrow> (int \<times> bool) list res" where
  "set_feature v fs = (if v \<in> fst ` set fs then Inr (map (\<lambda>(w, b). (w, if w = v then True else b)) fs) else Inl AttributeError)"

definition capability_bits :: "SwitchFeatures \<Rightarrow> int" where
  "capability_bits self = sum_list (map (\<lambda>(v, on). if on then v else 0) (sf_caps self))"

definition action_bits :: "SwitchFeatures \<Rightarrow> int" where
  "action_bits self = sum_list (map (\<lambda>(v, on). if on then push_bit (nat v) 1 else 0) (sf_acts self))"

text \<open>The features a switch gives itself: flow, table and port statistics, and every action but the vendor one.\<close>

definition default_features :: SwitchFeatures where
  "default_features =
     \<lparr>sf_caps = map (\<lambda>v. (v, v \<in> {1, 2, 4})) [1, 2, 4, 8, 16, 32, 64, 128],
      sf_acts = map (\<lambda>v. (v, v \<noteq> 65535)) [0, 1, 2, 3, 4, 5, 6, 7, 8, 9, 10, 11, 65535]\<rparr>"

section \<open>State\<close>

datatype out_event =
    Sent bytes
  | DpPacketOut ethernet int

text \<open>
  A port map lists its ports in the order the dictionary iterates over them. \<open>sw_ext\<close> is what the packet classes outside
  the model do, \<open>sw_class_name\<close> is the name of the class of the object, \<open>sw_hw_desc\<close> and \<open>sw_sw_desc\<close> what the core reports about itself.
\<close>

record switch =
  sw_dpid :: int
  sw_max_buffers :: int
  sw_max_entries :: int
  sw_miss_send_len :: int
  sw_config_flags :: int
  sw_has_sent_hello :: bool
  sw_table :: FlowTable
  sw_lookup_count :: int
  sw_matched_count :: int
  sw_connected :: bool
  sw_buffer :: "(nat \<times> int) option list"
  sw_ports :: "(int \<times> ofp_phy_port) list"
  sw_port_stats :: "(int \<times> ofp_port_stats) list"
  sw_features :: SwitchFeatures
  sw_packets :: "ethernet list"
  sw_xid :: xid_gen
  sw_now :: int
  sw_next_id :: nat
  sw_out :: "out_event list"
  sw_ext :: pk_ext
  sw_class_name :: bytes
  sw_hw_desc :: bytes
  sw_sw_desc :: bytes

type_synonym 'a sw = "(switch, 'a) st"

text \<open>Packet objects: a reference is an index into the store.\<close>

definition get_packet :: "nat \<Rightarrow> ethernet sw" where
  "get_packet r s = (if r < length (sw_packets s) then (Inr (sw_packets s ! r), s) else (Inl KeyError, s))"

definition set_packet :: "nat \<Rightarrow> ethernet \<Rightarrow> unit sw" where
  "set_packet r e = modify (\<lambda>s. s\<lparr>sw_packets := (sw_packets s)[r := e]\<rparr>)"

definition new_packet :: "ethernet \<Rightarrow> nat sw" where
  "new_packet e s = (Inr (length (sw_packets s)), s\<lparr>sw_packets := sw_packets s @ [e]\<rparr>)"

text \<open>\<^verbatim>\<open>packet.pack()\<close> on the object behind a reference; lengths and checksums in it are filled in.\<close>

definition pack_packet :: "nat \<Rightarrow> bytes sw" where
  "pack_packet r =
     sbind (get_packet r) (\<lambda>e.
     sbind (gets sw_ext) (\<lambda>x.
     sbind (lift (ethernet_pack x e)) (\<lambda>(b, e).
     sbind (set_packet r e) (\<lambda>_. ret b))))"

section \<open>Sending\<close>

fun message_xid :: "xid_gen \<Rightarrow> ofp_message \<Rightarrow> int \<times> ofp_message \<times> xid_gen" where
  "message_xid g (MHello m) = (let (x, m, g) = ofp_header_xid g m in (x, MHello m, g))"
| "message_xid g (MError m) = (let (x, m, g) = ofp_header_xid g m in (x, MError m, g))"
| "message_xid g (MEchoRequest m) = (let (x, m, g) = ofp_header_xid g m in (x, MEchoRequest m, g))"
| "message_xid g (MEchoReply m) = (let (x, m, g) = ofp_header_xid g m in (x, MEchoReply m, g))"
| "message_xid g (MVendor m) = (let (x, m, g) = ofp_header_xid g m in (x, MVendor m, g))"
| "message_xid g (MFeaturesRequest m) = (let (x, m, g) = ofp_header_xid g m in (x, MFeaturesRequest m, g))"
| "message_xid g (MFeaturesReply m) = (let (x, m, g) = ofp_header_xid g m in (x, MFeaturesReply m, g))"
| "message_xid g (MGetConfigRequest m) = (let (x, m, g) = ofp_header_xid g m in (x, MGetConfigRequest m, g))"
| "message_xid g (MGetConfigReply m) = (let (x, m, g) = ofp_header_xid g m in (x, MGetConfigReply m, g))"
| "message_xid g (MSetConfig m) = (let (x, m, g) = ofp_header_xid g m in (x, MSetConfig m, g))"
| "message_xid g (MPacketIn m) = (let (x, m, g) = ofp_header_xid g m in (x, MPacketIn m, g))"
| "message_xid g (MFlowRemoved m) = (let (x, m, g) = ofp_header_xid g m in (x, MFlowRemoved m, g))"
| "message_xid g (MPortStatus m) = (let (x, m, g) = ofp_header_xid g m in (x, MPortStatus m, g))"
| "message_xid g (MPacketOut m) = (let (x, m, g) = ofp_header_xid g m in (x, MPacketOut m, g))"
| "message_xid g (MFlowMod m) = (let (x, m, g) = ofp_header_xid g m in (x, MFlowMod m, g))"
| "message_xid g (MPortMod m) = (let (x, m, g) = ofp_header_xid g m in (x, MPortMod m, g))"
| "message_xid g (MStatsRequest m) = (let (x, m, g) = ofp_header_xid g m in (x, MStatsRequest m, g))"
| "message_xid g (MStatsReply m) = (let (x, m, g) = ofp_header_xid g m in (x, MStatsReply m, g))"
| "message_xid g (MBarrierRequest m) = (let (x, m, g) = ofp_header_xid g m in (x, MBarrierRequest m, g))"
| "message_xid g (MBarrierReply m) = (let (x, m, g) = ofp_header_xid g m in (x, MBarrierReply m, g))"
| "message_xid g (MQueueConfigRequest m) = (let (x, m, g) = ofp_header_xid g m in (x, MQueueConfigRequest m, g))"
| "message_xid g (MQueueConfigReply m) = (let (x, m, g) = ofp_header_xid g m in (x, MQueueConfigReply m, g))"

text \<open>\<^verbatim>\<open>OFConnection.send\<close> packs the message and hands the bytes to the I/O worker.\<close>

definition connection_send :: "ofp_message \<Rightarrow> unit sw" where
  "connection_send message s =
     (case message_pack (sw_xid s) message of
        Inl e \<Rightarrow> (Inl e, s)
      | Inr (bs, _, g) \<Rightarrow> (Inr (), s\<lparr>sw_xid := g, sw_out := sw_out s @ [Sent bs]\<rparr>))"

definition send :: "ofp_message \<Rightarrow> unit sw" where
  "send message = sbind (gets sw_connected) (\<lambda>c. if c then connection_send message else ret ())"

definition msg_xid :: "ofp_message \<Rightarrow> (int \<times> ofp_message) sw" where
  "msg_xid m s = (let (x, m, g) = message_xid (sw_xid s) m in (Inr (x, m), s\<lparr>sw_xid := g\<rparr>))"

definition msg_pack :: "ofp_message \<Rightarrow> bytes sw" where
  "msg_pack m s =
     (case message_pack (sw_xid s) m of Inl e \<Rightarrow> (Inl e, s) | Inr (bs, _, g) \<Rightarrow> (Inr bs, s\<lparr>sw_xid := g\<rparr>))"

text \<open>The \<^verbatim>\<open>data\<close> argument of \<^verbatim>\<open>send_error\<close> is not used by any caller.\<close>

definition send_error :: "int \<Rightarrow> int \<Rightarrow> ofp_message option \<Rightarrow> unit sw" where
  "send_error typ code ofp =
     (let err = ofp_error_init\<lparr>er_type := typ, er_code := code\<rparr> in
      case ofp of
        Some m \<Rightarrow>
          sbind (msg_xid m) (\<lambda>(x, m).
          sbind (msg_pack m) (\<lambda>d.
          send (MError (err\<lparr>hdr_xid := Some x, er_data := d\<rparr>))))
      | None \<Rightarrow> send (MError (err\<lparr>hdr_xid := Some 0\<rparr>)))"

definition send_hello :: "bool \<Rightarrow> unit sw" where
  "send_hello force =
     sbind (gets sw_has_sent_hello) (\<lambda>sent.
     if sent \<and> \<not> force then ret ()
     else sbind (modify (\<lambda>s. s\<lparr>sw_has_sent_hello := True\<rparr>)) (\<lambda>_.
          send (MHello (ofp_hello_init\<lparr>hdr_xid := Some 0\<rparr>))))"

definition send_packet_in :: "int \<Rightarrow> int option \<Rightarrow> bytes \<Rightarrow> int \<Rightarrow> int option \<Rightarrow> unit sw" where
  "send_packet_in in_port buffer_id packet reason data_length =
     (let packet = (case data_length of
                      Some n \<Rightarrow> if int (length packet) > n \<and> buffer_id \<noteq> None then py_slice packet 0 n else packet
                    | None \<Rightarrow> packet)
      in send (MPacketIn (ofp_packet_in_init\<lparr>hdr_xid := Some 0, pi_in_port := in_port,
           pi_buffer_id := buffer_id_set buffer_id, pi_reason := reason, pi_data := packet\<rparr>)))"

definition send_port_status :: "ofp_phy_port \<Rightarrow> int \<Rightarrow> unit sw" where
  "send_port_status port reason =
     (if reason \<in> {OFPPR_ADD, OFPPR_DELETE, OFPPR_MODIFY}
      then send (MPortStatus (ofp_port_status_init\<lparr>ps_desc := port, ps_reason := reason\<rparr>))
      else raise AssertionError)"

section \<open>The flow table of the switch\<close>

text \<open>The listener: removed entries that asked for it are announced to the controller.\<close>

definition wants_removed :: "TableEntry \<Rightarrow> bool" where
  "wants_removed e \<longleftrightarrow> te_flags e AND OFPFF_SEND_FLOW_REM \<noteq> 0 \<and> te_flags e AND OFPFF_EMERG = 0"

definition handle_FlowTableModification :: "FlowTableModification \<Rightarrow> unit sw" where
  "handle_FlowTableModification event =
     (case ev_reason event of
        None \<Rightarrow> ret ()
      | Some reason \<Rightarrow>
          if reason \<in> {OFPRR_IDLE_TIMEOUT, OFPRR_HARD_TIMEOUT, OFPRR_DELETE}
          then for_each (\<lambda>entry.
                 if wants_removed entry
                 then sbind (gets sw_now) (\<lambda>now. send (MFlowRemoved (to_flow_removed entry now reason)))
                 else ret ()) (ev_removed event)
          else ret ())"

definition table_remove :: "TableEntry list \<Rightarrow> int option \<Rightarrow> unit sw" where
  "table_remove flows reason =
     sbind (gets sw_table) (\<lambda>t.
     sbind (lift (remove_specific_entries flows reason t)) (\<lambda>(t, evs).
     sbind (modify (\<lambda>s. s\<lparr>sw_table := t\<rparr>)) (\<lambda>_.
     for_each handle_FlowTableModification evs)))"

definition table_remove_matching :: "ofp_match \<Rightarrow> int \<Rightarrow> bool \<Rightarrow> int option \<Rightarrow> int option \<Rightarrow> unit sw" where
  "table_remove_matching match priority strict out_port reason =
     sbind (gets sw_table) (\<lambda>t.
     sbind (lift (matching_entries t match (Some priority) strict out_port)) (\<lambda>flows.
     table_remove flows reason))"

definition table_add :: "TableEntry \<Rightarrow> unit sw" where
  "table_add entry =
     sbind (gets sw_table) (\<lambda>t. let (t, ev) = add_entry entry t in
     sbind (modify (\<lambda>s. s\<lparr>sw_table := t\<rparr>)) (\<lambda>_. handle_FlowTableModification ev))"

text \<open>The timer of \<^verbatim>\<open>ExpireMixin\<close> calls \<^verbatim>\<open>remove_expired_entries\<close>; both lists are made before anything is removed.\<close>

definition expire_timer :: "unit sw" where
  "expire_timer =
     sbind (gets sw_now) (\<lambda>now.
     sbind (gets sw_table) (\<lambda>t.
     sbind (table_remove (idle_entries now t) (Some OFPRR_IDLE_TIMEOUT)) (\<lambda>_.
     table_remove (hard_entries now t) (Some OFPRR_HARD_TIMEOUT))))"

definition flow_mod_failed :: "int \<Rightarrow> ofp_flow_mod \<Rightarrow> unit sw" where
  "flow_mod_failed code flow_mod = send_error OFPET_FLOW_MOD_FAILED code (Some (MFlowMod flow_mod))"

definition new_entry_id :: "nat sw" where
  "new_entry_id s = (Inr (sw_next_id s), s\<lparr>sw_next_id := sw_next_id s + 1\<rparr>)"

definition flow_mod_add :: "ofp_flow_mod \<Rightarrow> unit sw" where
  "flow_mod_add flow_mod =
     (if fm_flags flow_mod AND OFPFF_EMERG \<noteq> 0 then
        (if fm_idle_timeout flow_mod \<noteq> 0 \<or> fm_hard_timeout flow_mod \<noteq> 0
         then flow_mod_failed OFPFMFC_BAD_EMERG_TIMEOUT flow_mod
         else if fm_flags flow_mod AND OFPFF_SEND_FLOW_REM \<noteq> 0
         then flow_mod_failed OFPFMFC_EPERM flow_mod
         else flow_mod_failed OFPFMFC_ALL_TABLES_FULL flow_mod)
      else
        sbind new_entry_id (\<lambda>i.
        sbind (gets sw_now) (\<lambda>now.
        let new_entry = from_flow_mod i now flow_mod in
        sbind (gets sw_table) (\<lambda>t.
        sbind (if fm_flags flow_mod AND OFPFF_CHECK_OVERLAP \<noteq> 0
               then lift (check_for_overlapping_entry t new_entry) else ret False) (\<lambda>overlaps.
        if overlaps then flow_mod_failed OFPFMFC_OVERLAP flow_mod
        else
          sbind (if fm_command flow_mod = OFPFC_ADD
                 then table_remove_matching (fm_match flow_mod) (fm_priority flow_mod) True None None
                 else ret ()) (\<lambda>_.
          sbind (gets (\<lambda>s. int (length (sw_table s)) \<ge> sw_max_entries s)) (\<lambda>is_full.
          if is_full then flow_mod_failed OFPFMFC_ALL_TABLES_FULL flow_mod
          else table_add new_entry)))))))"

text \<open>The loop sets the actions as it goes and says whether it found an entry; an exception keeps what it did so far.\<close>

fun modify_loop :: "bool \<Rightarrow> ofp_flow_mod \<Rightarrow> FlowTable \<Rightarrow> FlowTable \<times> bool res" where
  "modify_loop strict flow_mod [] = ([], Inr False)"
| "modify_loop strict flow_mod (entry # entries) =
     (case is_matched_by entry (fm_match flow_mod) (Some (fm_priority flow_mod)) strict None of
        Inl x \<Rightarrow> (entry # entries, Inl x)
      | Inr hit \<Rightarrow>
          let (rest, modified) = modify_loop strict flow_mod entries in
          ((if hit then entry\<lparr>te_actions := fm_actions flow_mod\<rparr> else entry) # rest,
           rbind modified (\<lambda>m. Inr (hit \<or> m))))"

definition flow_mod_modify :: "bool \<Rightarrow> ofp_flow_mod \<Rightarrow> unit sw" where
  "flow_mod_modify strict flow_mod =
     sbind (gets sw_table) (\<lambda>t. let (t, r) = modify_loop strict flow_mod t in
     sbind (modify (\<lambda>s. s\<lparr>sw_table := t\<rparr>)) (\<lambda>_.
     sbind (lift r) (\<lambda>modified.
     if \<not> modified then flow_mod_add flow_mod else ret ())))"

definition flow_mod_delete :: "bool \<Rightarrow> ofp_flow_mod \<Rightarrow> unit sw" where
  "flow_mod_delete strict flow_mod =
     (let out_port = (if fm_out_port flow_mod = OFPP_NONE then None else Some (fm_out_port flow_mod)) in
      table_remove_matching (fm_match flow_mod) (fm_priority flow_mod) strict out_port (Some OFPRR_DELETE))"

section \<open>Buffers\<close>

fun first_empty :: "nat \<Rightarrow> 'a option list \<Rightarrow> nat option" where
  "first_empty i [] = None"
| "first_empty i (v # vs) = (case v of None \<Rightarrow> Some i | Some _ \<Rightarrow> first_empty (i + 1) vs)"

definition buffer_packet :: "nat \<Rightarrow> int \<Rightarrow> int option sw" where
  "buffer_packet packet in_port s =
     (case first_empty 0 (sw_buffer s) of
        Some i \<Rightarrow> (Inr (Some (int i + 1)), s\<lparr>sw_buffer := (sw_buffer s)[i := Some (packet, in_port)]\<rparr>)
      | None \<Rightarrow>
          if int (length (sw_buffer s)) \<ge> sw_max_buffers s then (Inr None, s)
          else (Inr (Some (int (length (sw_buffer s)) + 1)),
                s\<lparr>sw_buffer := sw_buffer s @ [Some (packet, in_port)]\<rparr>))"

section \<open>Output\<close>

definition upd_assoc :: "'k \<Rightarrow> ('v \<Rightarrow> 'v) \<Rightarrow> ('k \<times> 'v) list \<Rightarrow> ('k \<times> 'v) list" where
  "upd_assoc k f kvs = map (\<lambda>(k', v). (k', if k' = k then f v else v)) kvs"

definition bump_stats :: "int \<Rightarrow> (ofp_port_stats \<Rightarrow> ofp_port_stats) \<Rightarrow> unit sw" where
  "bump_stats port_no f =
     sbind (gets sw_port_stats) (\<lambda>st.
     if map_of st port_no = None then raise KeyError
     else modify (\<lambda>s. s\<lparr>sw_port_stats := upd_assoc port_no f (sw_port_stats s)\<rparr>))"

definition real_send :: "nat \<Rightarrow> int \<Rightarrow> int \<Rightarrow> bool \<Rightarrow> unit sw" where
  "real_send packet in_port port_no allow_in_port =
     (if port_no = in_port \<and> \<not> allow_in_port then ret ()
      else sbind (gets sw_ports) (\<lambda>ports.
        case map_of ports port_no of
          None \<Rightarrow> ret ()
        | Some p \<Rightarrow>
            if pp_config p AND OFPPC_NO_FWD \<noteq> 0 then ret ()
            else if pp_config p AND OFPPC_PORT_DOWN \<noteq> 0 then ret ()
            else if pp_state p AND OFPPS_LINK_DOWN \<noteq> 0 then ret ()
            else
              sbind (bump_stats port_no (\<lambda>st. st\<lparr>pst_tx_packets := pst_tx_packets st + 1\<rparr>)) (\<lambda>_.
              sbind (pack_packet packet) (\<lambda>b.
              sbind (bump_stats port_no (\<lambda>st. st\<lparr>pst_tx_bytes := pst_tx_bytes st + int (length b)\<rparr>)) (\<lambda>_.
              sbind (get_packet packet) (\<lambda>e.
              modify (\<lambda>s. s\<lparr>sw_out := sw_out s @ [DpPacketOut e port_no]\<rparr>)))))))"

text \<open>\<open>rx\<close> is \<^verbatim>\<open>rx_packet\<close>, which the table port calls back.\<close>

definition output_packet :: "(nat \<Rightarrow> int \<Rightarrow> unit sw) \<Rightarrow> nat \<Rightarrow> int \<Rightarrow> int \<Rightarrow> int option \<Rightarrow> unit sw" where
  "output_packet rx packet out_port in_port max_len =
     (if out_port < OFPP_MAX then real_send packet in_port out_port False
      else if out_port = OFPP_IN_PORT then real_send packet in_port in_port True
      else if out_port = OFPP_FLOOD then
        sbind (gets sw_ports) (for_each (\<lambda>(no, port).
          if no = in_port then ret ()
          else if pp_config port AND OFPPC_NO_FLOOD \<noteq> 0 then ret ()
          else real_send packet in_port (pp_port_no port) False))
      else if out_port = OFPP_ALL then
        sbind (gets sw_ports) (for_each (\<lambda>(no, port).
          if no = in_port then ret () else real_send packet in_port (pp_port_no port) False))
      else if out_port = OFPP_CONTROLLER then
        sbind (buffer_packet packet in_port) (\<lambda>buffer_id.
        sbind (pack_packet packet) (\<lambda>b.
        send_packet_in in_port buffer_id b OFPR_ACTION max_len))
      else if out_port = OFPP_TABLE then rx packet in_port
      else ret ())"

section \<open>Actions\<close>

text \<open>Header rewriting. \<^verbatim>\<open>payload\<close> cannot be set to None, which a frame without parsed payload would need.\<close>

definition push_vlan :: "ethernet \<Rightarrow> ethernet res" where
  "push_vlan e =
     (case e_payload e of
        PVlan _ _ \<Rightarrow> Inr e
      | PNone \<Rightarrow> Inl TypeError
      | p \<Rightarrow> Inr (e\<lparr>e_type := VLAN_TYPE, e_payload := PVlan (vlan_init\<lparr>v_eth_type := e_type e\<rparr>) p\<rparr>))"

definition map_vlan :: "(vlan \<Rightarrow> vlan) \<Rightarrow> ethernet \<Rightarrow> ethernet" where
  "map_vlan f e = (case e_payload e of PVlan h p \<Rightarrow> e\<lparr>e_payload := PVlan (f h) p\<rparr> | _ \<Rightarrow> e)"

definition act_set_vlan_vid :: "int \<Rightarrow> ethernet \<Rightarrow> ethernet res" where
  "act_set_vlan_vid vid e = rbind (push_vlan e) (\<lambda>e. Inr (map_vlan (\<lambda>h. h\<lparr>v_id := vid\<rparr>) e))"

definition act_set_vlan_pcp :: "int \<Rightarrow> ethernet \<Rightarrow> ethernet res" where
  "act_set_vlan_pcp pcp e = rbind (push_vlan e) (\<lambda>e. Inr (map_vlan (\<lambda>h. h\<lparr>v_pcp := pcp\<rparr>) e))"

definition map_nw :: "(ipv4 \<Rightarrow> payload \<Rightarrow> payload) \<Rightarrow> ethernet \<Rightarrow> ethernet" where
  "map_nw f e =
     (case e_payload e of
        PVlan v (PIpv4 h p) \<Rightarrow> e\<lparr>e_payload := PVlan v (f h p)\<rparr>
      | PIpv4 h p \<Rightarrow> e\<lparr>e_payload := f h p\<rparr>
      | _ \<Rightarrow> e)"

definition act_set_nw_src :: "IPAddr \<Rightarrow> ethernet \<Rightarrow> ethernet" where
  "act_set_nw_src a = map_nw (\<lambda>h p. PIpv4 (h\<lparr>ip_srcip := a\<rparr>) p)"

definition act_set_nw_dst :: "IPAddr \<Rightarrow> ethernet \<Rightarrow> ethernet" where
  "act_set_nw_dst a = map_nw (\<lambda>h p. PIpv4 (h\<lparr>ip_dstip := a\<rparr>) p)"

definition act_set_nw_tos :: "int \<Rightarrow> ethernet \<Rightarrow> ethernet" where
  "act_set_nw_tos t = map_nw (\<lambda>h p. PIpv4 (h\<lparr>ip_tos := t\<rparr>) p)"

definition act_set_tp_src :: "int \<Rightarrow> ethernet \<Rightarrow> ethernet" where
  "act_set_tp_src port = map_nw (\<lambda>h p. PIpv4 h
     (case p of PUdp u q \<Rightarrow> PUdp (u\<lparr>udp_srcport := port\<rparr>) q | PTcp t q \<Rightarrow> PTcp (t\<lparr>tcp_srcport := port\<rparr>) q | _ \<Rightarrow> p))"

definition act_set_tp_dst :: "int \<Rightarrow> ethernet \<Rightarrow> ethernet" where
  "act_set_tp_dst port = map_nw (\<lambda>h p. PIpv4 h
     (case p of PUdp u q \<Rightarrow> PUdp (u\<lparr>udp_dstport := port\<rparr>) q | PTcp t q \<Rightarrow> PTcp (t\<lparr>tcp_dstport := port\<rparr>) q | _ \<Rightarrow> p))"

definition change_packet :: "nat \<Rightarrow> (ethernet \<Rightarrow> ethernet res) \<Rightarrow> unit sw" where
  "change_packet packet f = sbind (get_packet packet) (\<lambda>e. sbind (lift (f e)) (set_packet packet))"

text \<open>The Ethernet type is set before the payload, so that it stays set when the payload is None and the setter raises.\<close>

definition act_strip_vlan :: "nat \<Rightarrow> unit sw" where
  "act_strip_vlan packet =
     sbind (get_packet packet) (\<lambda>e.
     case e_payload e of
       PVlan h p \<Rightarrow>
         sbind (set_packet packet (e\<lparr>e_type := v_eth_type h\<rparr>)) (\<lambda>_.
         if p = PNone then raise TypeError
         else set_packet packet (e\<lparr>e_type := v_eth_type h, e_payload := p\<rparr>))
     | _ \<Rightarrow> ret ())"

definition action_type :: "ofp_action \<Rightarrow> int option" where
  "action_type a =
     (case a of
        AGeneric x \<Rightarrow> ag_type x | AOutput x \<Rightarrow> Some (ao_type x) | AEnqueue x \<Rightarrow> Some (ae_type x)
      | AStripVlan x \<Rightarrow> Some (asv_type x) | AVlanVid x \<Rightarrow> Some (avv_type x) | AVlanPcp x \<Rightarrow> Some (avp_type x)
      | ADlAddr x \<Rightarrow> ada_type x | ANwAddr x \<Rightarrow> ana_type x | ANwTos x \<Rightarrow> Some (ant_type x)
      | ATpPort x \<Rightarrow> atp_type x | AVendor x \<Rightarrow> Some (avg_type x))"

text \<open>
  The handlers by action type; there is none for the vendor type. An action object whose class does not have the
  attribute a handler reads makes it raise. \<^verbatim>\<open>_action_enqueue\<close> reads \<^verbatim>\<open>tp_port\<close>, which an enqueue action does not have.
\<close>

definition action_handler :: "(nat \<Rightarrow> int \<Rightarrow> unit sw) \<Rightarrow> int \<Rightarrow> ofp_action \<Rightarrow> nat \<Rightarrow> int \<Rightarrow> unit sw" where
  "action_handler rx t action packet in_port =
     (if t = OFPAT_OUTPUT then
        (case action of
           AOutput x \<Rightarrow> (case ao_port x of
               Some p \<Rightarrow> output_packet rx packet p in_port (Some (ao_max_len x))
             | None \<Rightarrow> ret ())
         | _ \<Rightarrow> raise AttributeError)
      else if t = OFPAT_SET_VLAN_VID then
        (case action of AVlanVid x \<Rightarrow> change_packet packet (act_set_vlan_vid (avv_vlan_vid x)) | _ \<Rightarrow> raise AttributeError)
      else if t = OFPAT_SET_VLAN_PCP then
        (case action of AVlanPcp x \<Rightarrow> change_packet packet (act_set_vlan_pcp (avp_vlan_pcp x)) | _ \<Rightarrow> raise AttributeError)
      else if t = OFPAT_STRIP_VLAN then act_strip_vlan packet
      else if t = OFPAT_SET_DL_SRC then
        (case action of ADlAddr x \<Rightarrow> change_packet packet (\<lambda>e. Inr (e\<lparr>e_src := ada_dl_addr x\<rparr>)) | _ \<Rightarrow> raise AttributeError)
      else if t = OFPAT_SET_DL_DST then
        (case action of ADlAddr x \<Rightarrow> change_packet packet (\<lambda>e. Inr (e\<lparr>e_dst := ada_dl_addr x\<rparr>)) | _ \<Rightarrow> raise AttributeError)
      else if t = OFPAT_SET_NW_SRC then
        (case action of ANwAddr x \<Rightarrow> change_packet packet (\<lambda>e. Inr (act_set_nw_src (ana_nw_addr x) e)) | _ \<Rightarrow> raise AttributeError)
      else if t = OFPAT_SET_NW_DST then
        (case action of ANwAddr x \<Rightarrow> change_packet packet (\<lambda>e. Inr (act_set_nw_dst (ana_nw_addr x) e)) | _ \<Rightarrow> raise AttributeError)
      else if t = OFPAT_SET_NW_TOS then
        (case action of ANwTos x \<Rightarrow> change_packet packet (\<lambda>e. Inr (act_set_nw_tos (ant_nw_tos x) e)) | _ \<Rightarrow> raise AttributeError)
      else if t = OFPAT_SET_TP_SRC then
        (case action of ATpPort x \<Rightarrow> change_packet packet (\<lambda>e. Inr (act_set_tp_src (atp_tp_port x) e)) | _ \<Rightarrow> raise AttributeError)
      else if t = OFPAT_SET_TP_DST then
        (case action of ATpPort x \<Rightarrow> change_packet packet (\<lambda>e. Inr (act_set_tp_dst (atp_tp_port x) e)) | _ \<Rightarrow> raise AttributeError)
      else
        (case action of ATpPort x \<Rightarrow> output_packet rx packet (atp_tp_port x) in_port None | _ \<Rightarrow> raise AttributeError))"

definition has_handler :: "SwitchFeatures \<Rightarrow> int \<Rightarrow> bool" where
  "has_handler fs t \<longleftrightarrow> t \<in> set [0, 1, 2, 3, 4, 5, 6, 7, 8, 9, 10, 11] \<and> map_of (sf_acts fs) t = Some True"

fun process_actions :: "(nat \<Rightarrow> int \<Rightarrow> unit sw) \<Rightarrow> ofp_action list \<Rightarrow> nat \<Rightarrow> int \<Rightarrow> ofp_message option \<Rightarrow> unit sw" where
  "process_actions rx [] packet in_port ofp = ret ()"
| "process_actions rx (action # actions) packet in_port ofp =
     (case action_type action of
        None \<Rightarrow> raise TypeError
      | Some t \<Rightarrow>
          sbind (gets sw_features) (\<lambda>fs.
          if \<not> has_handler fs t then send_error OFPET_BAD_ACTION OFPBAC_BAD_TYPE ofp
          else sbind (action_handler rx t action packet in_port) (\<lambda>_. process_actions rx actions packet in_port ofp)))"

section \<open>A packet arrives\<close>

definition fragment_dropped :: "switch \<Rightarrow> ethernet \<Rightarrow> bool" where
  "fragment_dropped s e \<longleftrightarrow>
     sw_config_flags s AND OFPC_FRAG_MASK \<noteq> 0 \<and>
     (case find_ipv4 (sw_ext s) (e_payload e) of
        None \<Rightarrow> False
      | Some h \<Rightarrow> (ip_flags h AND MF_FLAG \<noteq> 0 \<or> ip_frag h \<noteq> 0) \<and> sw_config_flags s AND OFPC_FRAG_MASK = OFPC_FRAG_DROP)"

definition rx_packet_body :: "(nat \<Rightarrow> int \<Rightarrow> unit sw) \<Rightarrow> nat \<Rightarrow> int \<Rightarrow> bytes option \<Rightarrow> unit sw" where
  "rx_packet_body rx packet in_port packet_data =
     sbind (gets sw_ports) (\<lambda>ports.
     case map_of ports in_port of
       None \<Rightarrow> ret ()
     | Some port \<Rightarrow>
         sbind (get_packet packet) (\<lambda>e.
         let is_stp = (e_dst e = STP_MAC) in
         if pp_config port AND OFPPC_NO_RECV \<noteq> 0 \<and> \<not> is_stp then ret ()
         else if pp_config port AND OFPPC_NO_RECV_STP \<noteq> 0 \<and> is_stp then ret ()
         else sbind (gets (\<lambda>s. fragment_dropped s e)) (\<lambda>drop_it.
         if drop_it then ret ()
         else
           sbind (bump_stats in_port (\<lambda>st. st\<lparr>pst_rx_packets := pst_rx_packets st + 1\<rparr>)) (\<lambda>_.
           sbind (case packet_data of Some b \<Rightarrow> ret b | None \<Rightarrow> pack_packet packet) (\<lambda>b.
           sbind (bump_stats in_port (\<lambda>st. st\<lparr>pst_rx_bytes := pst_rx_bytes st + int (length b)\<rparr>)) (\<lambda>_.
           sbind (modify (\<lambda>s. s\<lparr>sw_lookup_count := sw_lookup_count s + 1\<rparr>)) (\<lambda>_.
           sbind (get_packet packet) (\<lambda>e.
           sbind (gets sw_table) (\<lambda>t.
           sbind (lift (entry_for_packet t e in_port)) (\<lambda>entry.
           case entry of
             Some entry \<Rightarrow>
               sbind (modify (\<lambda>s. s\<lparr>sw_matched_count := sw_matched_count s + 1\<rparr>)) (\<lambda>_.
               sbind (pack_packet packet) (\<lambda>b.
               sbind (modify (\<lambda>s. s\<lparr>sw_table :=
                 update_entry (te_id entry) (\<lambda>e. touch_packet e (int (length b)) (sw_now s)) (sw_table s)\<rparr>)) (\<lambda>_.
               process_actions rx (te_actions entry) packet in_port None)))
           | None \<Rightarrow>
               if pp_config port AND OFPPC_NO_PACKET_IN \<noteq> 0 then ret ()
               else
                 sbind (buffer_packet packet in_port) (\<lambda>buffer_id.
                 sbind (case packet_data of Some b \<Rightarrow> ret b | None \<Rightarrow> pack_packet packet) (\<lambda>b.
                 sbind (gets sw_miss_send_len) (\<lambda>n.
                 send_packet_in in_port buffer_id b OFPR_NO_MATCH (Some n))))))))))))))"

text \<open>
  A flow that outputs to the table port calls \<^verbatim>\<open>rx_packet\<close> again, and may do so for ever: the interpreter then raises
  RuntimeError. \<open>depth\<close> is how many nested calls it allows.
\<close>

fun rx_nested :: "nat \<Rightarrow> nat \<Rightarrow> int \<Rightarrow> unit sw" where
  "rx_nested 0 packet in_port = raise RuntimeError"
| "rx_nested (Suc depth) packet in_port = rx_packet_body (rx_nested depth) packet in_port None"

definition rx_packet :: "nat \<Rightarrow> ethernet \<Rightarrow> int \<Rightarrow> bytes option \<Rightarrow> unit sw" where
  "rx_packet depth e in_port packet_data =
     sbind (new_packet e) (\<lambda>packet. rx_packet_body (rx_nested depth) packet in_port packet_data)"

definition process_actions_for_bytes :: "nat \<Rightarrow> ofp_action list \<Rightarrow> bytes \<Rightarrow> int \<Rightarrow> ofp_message option \<Rightarrow> unit sw" where
  "process_actions_for_bytes depth actions data in_port ofp =
     sbind (gets sw_ext) (\<lambda>x.
     sbind (lift (ethernet_new x data)) (\<lambda>e.
     sbind (new_packet e) (\<lambda>packet. process_actions (rx_nested depth) actions packet in_port ofp)))"

definition process_actions_from_buffer :: "nat \<Rightarrow> ofp_action list \<Rightarrow> int \<Rightarrow> ofp_message option \<Rightarrow> unit sw" where
  "process_actions_from_buffer depth actions buffer_id ofp =
     sbind (gets sw_buffer) (\<lambda>buf.
     let i = buffer_id - 1 in
     if i \<ge> int (length buf) \<or> i < 0 then ret ()
     else case buf ! nat i of
            None \<Rightarrow> ret ()
          | Some (packet, in_port) \<Rightarrow>
              sbind (process_actions (rx_nested depth) actions packet in_port ofp) (\<lambda>_.
              modify (\<lambda>s. s\<lparr>sw_buffer := (sw_buffer s)[nat i := None]\<rparr>)))"

end
