(* ===== verification/Switch_Control.thy ===== *)
theory Switch_Control
  imports Switch
begin

text \<open>
  The control side of \<^verbatim>\<open>datapaths/switch.py\<close>: the handlers of the messages of the controller, the statistics, the ports,
  and the operations a switch object offers, as the steps of a transition system. The connection a message came from is
  the switch's own. Messages are logged with \<^verbatim>\<open>show()\<close>, which is left out.
\<close>

section \<open>Ports\<close>

definition OFPPF_10MB_HD :: int where "OFPPF_10MB_HD = 1"

text \<open>\<^verbatim>\<open>'%0<w>x' % n\<close> for a number that is not negative.\<close>

definition hex_pad :: "nat \<Rightarrow> int \<Rightarrow> bytes" where
  "hex_pad w n = (let h = hex_digits n in replicate (w - length h) 48 @ h)"

definition dpid_to_str :: "int \<Rightarrow> bool \<Rightarrow> bytes res" where
  "dpid_to_str dpid alwaysLong =
     rbind (struct_pack [FQ] [dpid]) (\<lambda>d.
     let r = py_join [45] (map (\<lambda>x. hex02 (uint x)) (drop 2 d)) in
     if alwaysLong \<or> take 2 d \<noteq> [0, 0]
     then rbind (struct_unpack [FH] (take 2 d)) (\<lambda>v. Inr (r @ [124] @ py_str_int (hd v)))
     else Inr r)"

definition gen_port_name :: "int \<Rightarrow> int \<Rightarrow> bytes res" where
  "gen_port_name dpid port_no =
     rbind (dpid_to_str dpid True) (\<lambda>d. Inr (take 12 (filter (\<lambda>c. c \<noteq> 45) d) @ [46] @ py_str_int port_no))"

definition gen_ethaddr :: "int \<Rightarrow> int \<Rightarrow> EthAddr res" where
  "gen_ethaddr dpid port_no =
     EthAddr_init (EthStr ([48, 50] @ hex_pad 6 (dpid mod 65535) @ hex_pad 4 (port_no mod 65535)))"

definition generate_port :: "int \<Rightarrow> int \<Rightarrow> bytes option \<Rightarrow> eth_init option \<Rightarrow> ofp_phy_port res" where
  "generate_port dpid port_no name ethaddr =
     rbind (case ethaddr of None \<Rightarrow> gen_ethaddr dpid port_no | Some a \<Rightarrow> EthAddr_init a) (\<lambda>hw.
     rbind (case name of None \<Rightarrow> gen_port_name dpid port_no | Some n \<Rightarrow> Inr n) (\<lambda>nm.
     Inr (ofp_phy_port_init\<lparr>pp_port_no := port_no, pp_hw_addr := hw, pp_name := nm, pp_config := OFPPC_NO_STP,
       pp_curr := OFPPF_10MB_HD, pp_advertised := OFPPF_10MB_HD, pp_supported := OFPPF_10MB_HD,
       pp_peer := OFPPF_10MB_HD\<rparr>)))"

text \<open>
  Ports are added as \<^verbatim>\<open>ofp_phy_port\<close> objects (the number form of \<^verbatim>\<open>add_port\<close> gives the port the datapath id as its
  name). Statistics of a removed port stay, and are replaced when the number is used again.
\<close>

definition add_port :: "ofp_phy_port \<Rightarrow> unit sw" where
  "add_port port =
     sbind (gets sw_ports) (\<lambda>ports. let port_no = pp_port_no port in
     if map_of ports port_no \<noteq> None then raise RuntimeError
     else
       sbind (modify (\<lambda>s. s\<lparr>sw_ports := sw_ports s @ [(port_no, port)]\<rparr>)) (\<lambda>_.
       sbind (modify (\<lambda>s. s\<lparr>sw_port_stats := filter (\<lambda>(k, _). k \<noteq> port_no) (sw_port_stats s)
         @ [(port_no, ofp_port_stats_init\<lparr>pst_port_no := port_no\<rparr>)]\<rparr>)) (\<lambda>_.
       send_port_status port OFPPR_ADD)))"

definition delete_port :: "int \<Rightarrow> ofp_phy_port sw" where
  "delete_port port_no =
     sbind (gets sw_ports) (\<lambda>ports.
     case map_of ports port_no of
       None \<Rightarrow> raise KeyError
     | Some port \<Rightarrow>
         sbind (send_port_status port OFPPR_DELETE) (\<lambda>_.
         sbind (modify (\<lambda>s. s\<lparr>sw_ports := filter (\<lambda>(k, _). k \<noteq> port_no) (sw_ports s)\<rparr>)) (\<lambda>_. ret port)))"

definition set_port :: "int \<Rightarrow> (ofp_phy_port \<Rightarrow> ofp_phy_port) \<Rightarrow> unit sw" where
  "set_port port_no f = modify (\<lambda>s. s\<lparr>sw_ports := upd_assoc port_no f (sw_ports s)\<rparr>)"

definition get_port :: "int \<Rightarrow> ofp_phy_port sw" where
  "get_port port_no =
     sbind (gets sw_ports) (\<lambda>ports. case map_of ports port_no of None \<Rightarrow> raise KeyError | Some p \<Rightarrow> ret p)"

definition link_state :: "ofp_phy_port \<Rightarrow> ofp_phy_port" where
  "link_state port =
     (let state = pp_state port AND NOT OFPPS_LINK_DOWN in
      port\<lparr>pp_state := if pp_config port AND OFPPC_PORT_DOWN \<noteq> 0 then state OR OFPPS_LINK_DOWN else state\<rparr>)"

text \<open>The first half of the result; the second half only chooses a log message.\<close>

definition set_port_config_bit :: "int \<Rightarrow> int \<Rightarrow> int \<Rightarrow> bool sw" where
  "set_port_config_bit port_no b val =
     (if b = OFPPC_NO_STP then ret True
      else if b \<notin> {OFPPC_PORT_DOWN, OFPPC_NO_STP, OFPPC_NO_RECV, OFPPC_NO_RECV_STP, OFPPC_NO_FLOOD, OFPPC_NO_FWD,
                     OFPPC_NO_PACKET_IN} then ret False
      else
        sbind (get_port port_no) (\<lambda>port. let (changed, port) = phy_port_set_config val b port in
        sbind (set_port port_no (\<lambda>_. port)) (\<lambda>_.
        if changed \<noteq> 0 \<and> b = OFPPC_PORT_DOWN then
          let old_state = pp_state port AND OFPPS_LINK_DOWN; port = link_state port;
              new_state = pp_state port AND OFPPS_LINK_DOWN in
          sbind (set_port port_no (\<lambda>_. port)) (\<lambda>_.
          sbind (if old_state \<noteq> new_state then send_port_status port OFPPR_MODIFY else ret ()) (\<lambda>_. ret True))
        else ret True)))"

section \<open>Messages from the controller\<close>

definition rx_hello :: "ofp_hello \<Rightarrow> unit sw" where
  "rx_hello ofp = send_hello False"

definition rx_echo_request :: "ofp_echo_request \<Rightarrow> unit sw" where
  "rx_echo_request ofp =
     sbind (msg_xid (MEchoRequest ofp)) (\<lambda>(x, _).
     send (MEchoReply (ofp_echo_reply_init\<lparr>hdr_xid := Some x, ep_body := eq_body ofp\<rparr>)))"

definition rx_echo_reply :: "ofp_echo_reply \<Rightarrow> unit sw" where
  "rx_echo_reply ofp = ret ()"

definition rx_features_request :: "ofp_features_request \<Rightarrow> unit sw" where
  "rx_features_request ofp =
     sbind (msg_xid (MFeaturesRequest ofp)) (\<lambda>(x, _).
     sbind (gets (\<lambda>s. ofp_features_reply_init\<lparr>hdr_xid := Some x, fr_datapath_id := sw_dpid s,
       fr_n_buffers := sw_max_buffers s, fr_n_tables := 1, fr_capabilities := capability_bits (sw_features s),
       fr_actions := action_bits (sw_features s), fr_ports := map snd (sw_ports s)\<rparr>)) (\<lambda>m.
     send (MFeaturesReply m)))"

text \<open>An unknown command runs into the name \<^verbatim>\<open>command\<close>, which nothing binds.\<close>

definition rx_flow_mod :: "nat \<Rightarrow> ofp_flow_mod \<Rightarrow> unit sw" where
  "rx_flow_mod depth ofp =
     sbind (if fm_command ofp = OFPFC_ADD then flow_mod_add ofp
            else if fm_command ofp = OFPFC_MODIFY then flow_mod_modify False ofp
            else if fm_command ofp = OFPFC_MODIFY_STRICT then flow_mod_modify True ofp
            else if fm_command ofp = OFPFC_DELETE then flow_mod_delete False ofp
            else if fm_command ofp = OFPFC_DELETE_STRICT then flow_mod_delete True ofp
            else raise NameError) (\<lambda>_.
     case buffer_id_get (fm_buffer_id ofp) of
       None \<Rightarrow> ret ()
     | Some b \<Rightarrow> process_actions_from_buffer depth (fm_actions ofp) b (Some (MFlowMod ofp)))"

definition rx_packet_out :: "nat \<Rightarrow> ofp_packet_out \<Rightarrow> unit sw" where
  "rx_packet_out depth ofp =
     (if po_data ofp \<noteq> []
      then process_actions_for_bytes depth (po_actions ofp) (po_data ofp) (po_in_port ofp) (Some (MPacketOut ofp))
      else case buffer_id_get (po_buffer_id ofp) of
             Some b \<Rightarrow> process_actions_from_buffer depth (po_actions ofp) b (Some (MPacketOut ofp))
           | None \<Rightarrow> ret ())"

definition rx_barrier_request :: "ofp_barrier_request \<Rightarrow> unit sw" where
  "rx_barrier_request ofp =
     sbind (msg_xid (MBarrierRequest ofp)) (\<lambda>(x, _).
     send (MBarrierReply (ofp_barrier_reply_init\<lparr>hdr_xid := Some x\<rparr>)))"

definition rx_get_config_request :: "ofp_get_config_request \<Rightarrow> unit sw" where
  "rx_get_config_request ofp =
     sbind (msg_xid (MGetConfigRequest ofp)) (\<lambda>(x, _).
     sbind (gets (\<lambda>s. ofp_get_config_reply_init\<lparr>hdr_xid := Some x, gr_miss_send_len := sw_miss_send_len s,
       gr_flags := sw_config_flags s\<rparr>)) (\<lambda>m.
     send (MGetConfigReply m)))"

definition rx_set_config :: "ofp_set_config \<Rightarrow> unit sw" where
  "rx_set_config config =
     modify (\<lambda>s. s\<lparr>sw_miss_send_len := sc_miss_send_len config, sw_config_flags := sc_flags config\<rparr>)"

definition rx_port_mod :: "ofp_port_mod \<Rightarrow> unit sw" where
  "rx_port_mod port_mod =
     sbind (gets sw_ports) (\<lambda>ports. let port_no = pm_port_no port_mod in
     case map_of ports port_no of
       None \<Rightarrow> send_error OFPET_PORT_MOD_FAILED OFPPMFC_BAD_PORT (Some (MPortMod port_mod))
     | Some port \<Rightarrow>
         if pp_hw_addr port \<noteq> pm_hw_addr port_mod
         then send_error OFPET_PORT_MOD_FAILED OFPPMFC_BAD_HW_ADDR (Some (MPortMod port_mod))
         else for_each (\<lambda>i. let bit = push_bit i 1 in
                if pm_mask port_mod AND bit \<noteq> 0
                then sbind (set_port_config_bit port_no bit (pm_config port_mod AND bit)) (\<lambda>_. ret ())
                else ret ()) [0..<32])"

definition rx_vendor :: "ofp_vendor_generic \<Rightarrow> unit sw" where
  "rx_vendor vendor = send_error OFPET_BAD_REQUEST OFPBRC_BAD_VENDOR (Some (MVendor vendor))"

definition rx_queue_get_config_request :: "ofp_queue_get_config_request \<Rightarrow> unit sw" where
  "rx_queue_get_config_request ofp =
     sbind (msg_xid (MQueueConfigRequest ofp)) (\<lambda>(x, _).
     send (MQueueConfigReply (ofp_queue_get_config_reply_init\<lparr>hdr_xid := Some x, qp_port := qr_port ofp,
       qp_queues := []\<rparr>)))"

section \<open>Statistics\<close>

text \<open>A body object without the attribute a handler reads makes it raise; \<open>None\<close> is a handler that answered itself.\<close>

definition stats_desc :: "stats_rep_body option sw" where
  "stats_desc =
     gets (\<lambda>s. Some (BOne (SDesc (ofp_desc_stats_init\<lparr>ds_mfr_desc := [80, 79, 88], ds_hw_desc := sw_hw_desc s,
       ds_sw_desc := sw_sw_desc s, ds_serial_num := py_str_int (sw_dpid s), ds_dp_desc := sw_class_name s\<rparr>))))"

definition no_filter :: "int \<Rightarrow> int option" where
  "no_filter out_port = (if out_port = OFPP_NONE then None else Some out_port)"

definition flow_request :: "stats_req_body \<Rightarrow> (int \<times> ofp_match \<times> int) res" where
  "flow_request body =
     (case body of
        RFlow r \<Rightarrow> Inr (fq1_table_id r, fq1_match r, fq1_out_port r)
      | RAggregate r \<Rightarrow> Inr (fq2_table_id r, fq2_match r, fq2_out_port r)
      | _ \<Rightarrow> Inl AttributeError)"

definition stats_flow :: "ofp_stats_request \<Rightarrow> stats_rep_body option sw" where
  "stats_flow ofp =
     sbind (lift (flow_request (sr_body ofp))) (\<lambda>(table_id, match, out_port).
     if table_id \<notin> {TABLE_ALL, 0} then ret (Some (BList []))
     else
       sbind (gets sw_table) (\<lambda>t. sbind (gets sw_now) (\<lambda>now.
       sbind (lift (table_flow_stats t match (no_filter out_port) now)) (\<lambda>l. ret (Some (BList (map SFlow l)))))))"

definition stats_aggregate :: "ofp_stats_request \<Rightarrow> stats_rep_body option sw" where
  "stats_aggregate ofp =
     sbind (lift (flow_request (sr_body ofp))) (\<lambda>(table_id, match, out_port).
     if table_id \<notin> {TABLE_ALL, 0} then ret (Some (BList []))
     else
       sbind (gets sw_table) (\<lambda>t.
       sbind (lift (aggregate_stats t match (no_filter out_port))) (\<lambda>a. ret (Some (BOne (SAggregate a))))))"

definition stats_table :: "stats_rep_body option sw" where
  "stats_table =
     gets (\<lambda>s. Some (BOne (STable (ofp_table_stats_init\<lparr>ts_table_id := 0,
       ts_name := [68, 101, 102, 97, 117, 108, 116], ts_wildcards := OFPFW_ALL,
       ts_max_entries := sw_max_entries s, ts_active_count := int (length (sw_table s)),
       ts_lookup_count := sw_lookup_count s, ts_matched_count := sw_matched_count s\<rparr>))))"

definition stats_port :: "ofp_stats_request \<Rightarrow> stats_rep_body option sw" where
  "stats_port ofp =
     sbind (lift (case sr_body ofp of RPort r \<Rightarrow> Inr (psr_port_no r) | RQueue r \<Rightarrow> Inr (qsr_port_no r)
                  | _ \<Rightarrow> Inl AttributeError)) (\<lambda>port_no.
     sbind (gets sw_port_stats) (\<lambda>st.
     if port_no = OFPP_NONE then ret (Some (BList (map (SPort \<circ> snd) st)))
     else case map_of st port_no of None \<Rightarrow> raise KeyError | Some p \<Rightarrow> ret (Some (BOne (SPort p)))))"

definition stats_queue :: "ofp_stats_request \<Rightarrow> stats_rep_body option sw" where
  "stats_queue ofp =
     sbind (lift (case sr_body ofp of RQueue r \<Rightarrow> Inr (qsr_queue_id r) | _ \<Rightarrow> Inl AttributeError)) (\<lambda>queue_id.
     if queue_id = OFPQ_ALL then ret (Some (BList []))
     else sbind (send_error OFPET_QUEUE_OP_FAILED OFPQOFC_BAD_QUEUE (Some (MStatsRequest ofp))) (\<lambda>_. ret None))"

definition rx_stats_request :: "ofp_stats_request \<Rightarrow> unit sw" where
  "rx_stats_request ofp =
     (if sr_type ofp \<notin> {Some 0, Some 1, Some 2, Some 3, Some 4, Some 5}
      then send_error OFPET_BAD_REQUEST OFPBRC_BAD_STAT (Some (MStatsRequest ofp))
      else
        sbind (if sr_type ofp = Some 0 then stats_desc
               else if sr_type ofp = Some 1 then stats_flow ofp
               else if sr_type ofp = Some 2 then stats_aggregate ofp
               else if sr_type ofp = Some 3 then stats_table
               else if sr_type ofp = Some 4 then stats_port ofp
               else stats_queue ofp) (\<lambda>body.
        case body of
          None \<Rightarrow> ret ()
        | Some b \<Rightarrow>
            sbind (msg_xid (MStatsRequest ofp)) (\<lambda>(x, _).
            send (MStatsReply (ofp_stats_reply_init\<lparr>hdr_xid := Some x, sp_type := sr_type ofp, sp_body := b\<rparr>)))))"

section \<open>Dispatch\<close>

fun rx_message :: "nat \<Rightarrow> ofp_message \<Rightarrow> unit sw" where
  "rx_message depth (MHello m) = rx_hello m"
| "rx_message depth (MEchoRequest m) = rx_echo_request m"
| "rx_message depth (MEchoReply m) = rx_echo_reply m"
| "rx_message depth (MVendor m) = rx_vendor m"
| "rx_message depth (MFeaturesRequest m) = rx_features_request m"
| "rx_message depth (MGetConfigRequest m) = rx_get_config_request m"
| "rx_message depth (MSetConfig m) = rx_set_config m"
| "rx_message depth (MPacketOut m) = rx_packet_out depth m"
| "rx_message depth (MFlowMod m) = rx_flow_mod depth m"
| "rx_message depth (MPortMod m) = rx_port_mod m"
| "rx_message depth (MStatsRequest m) = rx_stats_request m"
| "rx_message depth (MBarrierRequest m) = rx_barrier_request m"
| "rx_message depth (MQueueConfigRequest m) = rx_queue_get_config_request m"
| "rx_message depth _ = raise RuntimeError"

definition set_connection :: "unit sw" where
  "set_connection = modify (\<lambda>s. s\<lparr>sw_has_sent_hello := False, sw_connected := True\<rparr>)"

end
