(* ===== verification/Switch_Steps.thy ===== *)
theory Switch_Steps
  imports Switch_Control
begin

text \<open>
  The switch as a transition system. \<open>dp_step\<close> and \<open>cp_step\<close> are the elementary changes the data path and the control
  path make to the state, each with the condition under which the code makes it; every method is shown to be a sequence
  of such changes, so that an invariant is proved once, by rule induction over the elementary changes.
\<close>

section \<open>Sequences of elementary changes\<close>

definition stable :: "(switch \<Rightarrow> switch \<Rightarrow> bool) \<Rightarrow> (switch \<Rightarrow> bool) \<Rightarrow> bool" where
  "stable R P \<longleftrightarrow> (\<forall>s t. R s t \<longrightarrow> P s \<longrightarrow> P t)"

definition runs :: "(switch \<Rightarrow> switch \<Rightarrow> bool) \<Rightarrow> (switch \<Rightarrow> bool) \<Rightarrow> 'a sw \<Rightarrow> bool" where
  "runs R P m \<longleftrightarrow> (\<forall>s. P s \<longrightarrow> R\<^sup>*\<^sup>* s (snd (m s)))"

named_theorems runs_intro \<open>methods as sequences of elementary changes\<close>

lemma stable_steps: "stable R P \<Longrightarrow> R\<^sup>*\<^sup>* s t \<Longrightarrow> P s \<Longrightarrow> P t"
  by (rotate_tac 1, induction rule: rtranclp_induct) (auto simp: stable_def)

lemma stable_conj: "stable R P \<Longrightarrow> stable R Q \<Longrightarrow> stable R (\<lambda>s. P s \<and> Q s)"
  by (auto simp: stable_def)

lemma runs_pure [runs_intro]:
  "runs R P (ret x)" "runs R P (raise e)" "runs R P (gets f)" "runs R P (lift v)" "runs R P (get_packet r)"
  by (simp_all add: runs_def ret_def raise_def gets_def lift_def get_packet_def)

lemma runs_step: "(\<And>s. P s \<Longrightarrow> R s (snd (m s))) \<Longrightarrow> runs R P m"
  by (auto simp: runs_def)

lemma runs_sbind [runs_intro]:
  "stable R P \<Longrightarrow> runs R P m \<Longrightarrow> (\<And>x. runs R P (f x)) \<Longrightarrow> runs R P (sbind m f)"
  unfolding runs_def sbind_def
  by (auto split: prod.splits sum.splits) (metis rtranclp_trans snd_conv stable_steps)+

lemma runs_seq:
  assumes "runs R P m" "\<And>s x t. P s \<Longrightarrow> m s = (Inr x, t) \<Longrightarrow> Q t" "\<And>x. runs R Q (f x)"
  shows "runs R P (sbind m f)"
  using assms unfolding runs_def sbind_def
  by (auto split: prod.splits sum.splits) (metis rtranclp_trans snd_conv)+

lemma runs_gets: "(\<And>x. runs R (\<lambda>s. P s \<and> f s = x) (g x)) \<Longrightarrow> runs R P (sbind (gets f) g)"
  by (auto simp: runs_def sbind_def gets_def)

lemma runs_if [runs_intro]:
  "(b \<Longrightarrow> runs R P m) \<Longrightarrow> (\<not> b \<Longrightarrow> runs R P m') \<Longrightarrow> runs R P (if b then m else m')"
  by simp

lemma runs_option [runs_intro]:
  "runs R P m \<Longrightarrow> (\<And>x. runs R P (f x)) \<Longrightarrow> runs R P (case v of None \<Rightarrow> m | Some x \<Rightarrow> f x)"
  by (cases v) auto

lemma runs_prod [runs_intro]: "(\<And>a b. runs R P (f a b)) \<Longrightarrow> runs R P (case v of (a, b) \<Rightarrow> f a b)"
  by (cases v) auto

lemma runs_let [runs_intro]: "runs R P (f x) \<Longrightarrow> runs R P (let y = x in f y)"
  by simp

lemma runs_for_each [runs_intro]: "stable R P \<Longrightarrow> (\<And>x. runs R P (f x)) \<Longrightarrow> runs R P (for_each f xs)"
  by (induction xs) (auto intro: runs_intro)

lemma runs_weaken: "runs R P m \<Longrightarrow> (\<And>s. Q s \<Longrightarrow> P s) \<Longrightarrow> (\<And>s t. R s t \<Longrightarrow> S s t) \<Longrightarrow> runs S Q m"
  unfolding runs_def by (blast intro: rtranclp_mono [THEN predicate2D, of R S])

section \<open>The data path\<close>

definition open_port :: "switch \<Rightarrow> int \<Rightarrow> bool" where
  "open_port s p =
     (case map_of (sw_ports s) p of
        None \<Rightarrow> False
      | Some q \<Rightarrow> pp_config q AND OFPPC_NO_FWD = 0 \<and> pp_config q AND OFPPC_PORT_DOWN = 0 \<and> pp_state q AND OFPPS_LINK_DOWN = 0)"

text \<open>\<open>A\<close> are the ports that may be sent to.\<close>

inductive dp_step :: "int set \<Rightarrow> switch \<Rightarrow> switch \<Rightarrow> bool" for A where
  sent: "dp_step A s (s\<lparr>sw_xid := g, sw_out := sw_out s @ map Sent bss\<rparr>)"
| write_packet: "dp_step A s (s\<lparr>sw_packets := (sw_packets s)[r := e]\<rparr>)"
| make_packet: "dp_step A s (s\<lparr>sw_packets := sw_packets s @ [e]\<rparr>)"
| count_port: "dp_step A s (s\<lparr>sw_port_stats := upd_assoc p f (sw_port_stats s)\<rparr>)"
| count_table: "dp_step A s (s\<lparr>sw_lookup_count := l, sw_matched_count := m\<rparr>)"
| touch: "dp_step A s (s\<lparr>sw_table := update_entry i (\<lambda>e. touch_packet e n (sw_now s)) (sw_table s)\<rparr>)"
| buffered: "r < length (sw_packets s) \<Longrightarrow> dp_step A s (snd (buffer_packet r p s))"
| released: "dp_step A s (s\<lparr>sw_buffer := (sw_buffer s)[i := None]\<rparr>)"
| transmit: "p \<in> A \<Longrightarrow> open_port s p \<Longrightarrow> dp_step A s (s\<lparr>sw_out := sw_out s @ [DpPacketOut e p]\<rparr>)"

inductive_cases dp_stepE: "dp_step A s t"

definition has_packet :: "nat \<Rightarrow> switch \<Rightarrow> bool" where
  "has_packet r s \<longleftrightarrow> r < length (sw_packets s)"

lemma buffer_packet_frame:
  "sw_packets (snd (buffer_packet r p s)) = sw_packets s" "sw_ports (snd (buffer_packet r p s)) = sw_ports s"
  "sw_out (snd (buffer_packet r p s)) = sw_out s" "sw_table (snd (buffer_packet r p s)) = sw_table s"
  "sw_next_id (snd (buffer_packet r p s)) = sw_next_id s" "sw_port_stats (snd (buffer_packet r p s)) = sw_port_stats s"
  "sw_max_buffers (snd (buffer_packet r p s)) = sw_max_buffers s"
  by (auto simp: buffer_packet_def split: option.splits)

lemma stable_has_packet [runs_intro]: "stable (dp_step A) (has_packet r)"
  by (auto simp: stable_def has_packet_def buffer_packet_frame elim!: dp_stepE)

lemma dp_step_ports: "dp_step A s t \<Longrightarrow> sw_ports t = sw_ports s"
  by (erule dp_stepE) (auto simp: buffer_packet_frame)

lemma stable_open [runs_intro]: "stable (dp_step A) (\<lambda>s. has_packet r s \<and> open_port s p)"
  using stable_has_packet [of A r] by (auto simp: stable_def open_port_def dest: dp_step_ports)

text \<open>Sending to the controller.\<close>

lemma runs_connection_send: "runs (dp_step A) P (connection_send m)"
proof (rule runs_step)
  fix s
  show "dp_step A s (snd (connection_send m s))"
    using dp_step.sent [where g = "sw_xid s" and bss = "[]" and s = s] dp_step.sent [where bss = "[_]" and s = s]
    by (auto simp: connection_send_def split: sum.splits)
qed

lemma runs_xid: "runs (dp_step A) P (msg_xid m)" "runs (dp_step A) P (msg_pack m)"
proof -
  have "dp_step A s (s\<lparr>sw_xid := g\<rparr>)" for s g using dp_step.sent [where g = g and bss = "[]"] by simp
  from this [of s "sw_xid s" for s] this show "runs (dp_step A) P (msg_xid m)" "runs (dp_step A) P (msg_pack m)"
    by (auto simp: msg_xid_def msg_pack_def intro!: runs_step split: sum.splits prod.splits)
qed

lemma stable_True [runs_intro]: "stable R (\<lambda>_. True)"
  by (simp add: stable_def)

lemma runs_send0: "runs (dp_step A) (\<lambda>_. True) (send m)" "runs (dp_step A) (\<lambda>_. True) (send_error t c ofp)"
  "runs (dp_step A) (\<lambda>_. True) (send_packet_in p b d r l)" "runs (dp_step A) (\<lambda>_. True) (send_port_status q r)"
  unfolding send_def send_error_def send_packet_in_def send_port_status_def Let_def
  by (auto intro!: runs_intro runs_connection_send runs_xid split: option.split)

lemma runs_send [runs_intro]: "runs (dp_step A) P (send m)" "runs (dp_step A) P (send_error t c ofp)"
  "runs (dp_step A) P (send_packet_in p b d r l)" "runs (dp_step A) P (send_port_status q r)"
  by (rule runs_weaken [OF runs_send0(1)] runs_weaken [OF runs_send0(2)] runs_weaken [OF runs_send0(3)]
    runs_weaken [OF runs_send0(4)]; simp)+

text \<open>Packets, counters and buffers.\<close>

lemma runs_set_packet [runs_intro]: "runs (dp_step A) P (set_packet r e)"
  by (rule runs_step) (simp add: set_packet_def modify_def dp_step.write_packet)

lemma runs_new_packet [runs_intro]: "runs (dp_step A) P (new_packet e)"
  by (rule runs_step) (simp add: new_packet_def dp_step.make_packet)

lemma runs_pack_packet [runs_intro]: "stable (dp_step A) P \<Longrightarrow> runs (dp_step A) P (pack_packet r)"
  unfolding pack_packet_def by (auto intro!: runs_intro)

lemma runs_bump_stats [runs_intro]: "stable (dp_step A) P \<Longrightarrow> runs (dp_step A) P (bump_stats p f)"
  unfolding bump_stats_def
  by (auto intro!: runs_intro) (rule runs_step, simp add: modify_def dp_step.count_port)

lemma runs_count_table [runs_intro]:
  "runs (dp_step A) P (modify (\<lambda>s. s\<lparr>sw_lookup_count := sw_lookup_count s + 1\<rparr>))"
  "runs (dp_step A) P (modify (\<lambda>s. s\<lparr>sw_matched_count := sw_matched_count s + 1\<rparr>))"
proof -
  have "dp_step A s (s\<lparr>sw_lookup_count := l\<rparr>)" "dp_step A s (s\<lparr>sw_matched_count := m\<rparr>)" for s l m
    using dp_step.count_table [where s = s and m = "sw_matched_count s" and l = l]
      dp_step.count_table [where s = s and l = "sw_lookup_count s" and m = m] by simp_all
  then show "runs (dp_step A) P (modify (\<lambda>s. s\<lparr>sw_lookup_count := sw_lookup_count s + 1\<rparr>))"
    "runs (dp_step A) P (modify (\<lambda>s. s\<lparr>sw_matched_count := sw_matched_count s + 1\<rparr>))"
    by (auto simp: modify_def intro: runs_step)
qed

lemma runs_touch [runs_intro]:
  "runs (dp_step A) P (modify (\<lambda>s. s\<lparr>sw_table := update_entry i (\<lambda>e. touch_packet e n (sw_now s)) (sw_table s)\<rparr>))"
  by (rule runs_step) (simp add: modify_def dp_step.touch)

lemma runs_buffer_packet [runs_intro]: "runs (dp_step A) (has_packet r) (buffer_packet r p)"
  by (rule runs_step) (simp add: has_packet_def dp_step.buffered)

lemma runs_change_packet [runs_intro]: "stable (dp_step A) P \<Longrightarrow> runs (dp_step A) P (change_packet r f)"
  unfolding change_packet_def by (auto intro!: runs_intro)

lemma runs_act_strip_vlan [runs_intro]: "stable (dp_step A) P \<Longrightarrow> runs (dp_step A) P (act_strip_vlan r)"
  unfolding act_strip_vlan_def by (auto intro!: runs_intro split: payload.split)

text \<open>Sending out of a port: only ports of the switch that are up and forward.\<close>

lemma runs_transmit:
  "p \<in> A \<Longrightarrow> runs (dp_step A) (\<lambda>s. has_packet r s \<and> open_port s p) (modify (\<lambda>s. s\<lparr>sw_out := sw_out s @ [DpPacketOut e p]\<rparr>))"
  by (rule runs_step) (simp add: modify_def dp_step.transmit)

lemma runs_real_send:
  assumes "allow \<or> p \<noteq> in_port \<Longrightarrow> p \<in> A"
  shows "runs (dp_step A) (has_packet r) (real_send r in_port p allow)"
proof (cases "p = in_port \<and> \<not> allow")
  case True
  then show ?thesis by (simp add: real_send_def runs_pure)
next
  case False
  then have A: "p \<in> A" using assms by auto
  let ?go = "sbind (bump_stats p (\<lambda>st. st\<lparr>pst_tx_packets := pst_tx_packets st + 1\<rparr>)) (\<lambda>_.
      sbind (pack_packet r) (\<lambda>b.
      sbind (bump_stats p (\<lambda>st. st\<lparr>pst_tx_bytes := pst_tx_bytes st + int (length b)\<rparr>)) (\<lambda>_.
      sbind (get_packet r) (\<lambda>e. modify (\<lambda>s. s\<lparr>sw_out := sw_out s @ [DpPacketOut e p]\<rparr>)))))"
  have go: "runs (dp_step A) (\<lambda>s. has_packet r s \<and> open_port s p) ?go"
    by (auto intro!: runs_intro runs_transmit A)
  show ?thesis
    unfolding real_send_def using False
    by (auto simp: runs_pure open_port_def intro!: runs_gets runs_weaken [OF go] split: option.split)
qed

lemma runs_output:
  assumes "\<And>r p. runs (dp_step A) (has_packet r) (rx r p)"
    and "out_port = OFPP_IN_PORT \<Longrightarrow> in_port \<in> A" and "- {in_port} \<subseteq> A"
  shows "runs (dp_step A) (has_packet r) (output_packet rx r out_port in_port max_len)"
proof -
  have "runs (dp_step A) (has_packet r) (real_send r in_port p False)" for p
    using assms(3) by (intro runs_real_send) auto
  moreover have "out_port = OFPP_IN_PORT \<Longrightarrow> runs (dp_step A) (has_packet r) (real_send r in_port in_port True)"
    using assms(2) by (intro runs_real_send) auto
  ultimately show ?thesis
    unfolding output_packet_def using assms(1) by (auto intro!: runs_intro)
qed

section \<open>Actions and arriving packets\<close>

lemmas runs_output_any = runs_output [where A = UNIV, simplified]

lemma runs_action_handler:
  assumes "\<And>r p. runs (dp_step UNIV) (has_packet r) (rx r p)"
  shows "runs (dp_step UNIV) (has_packet r) (action_handler rx t action r in_port)"
proof -
  have out: "runs (dp_step UNIV) (has_packet r) (output_packet rx r p in_port m)" for p m
    using assms by (rule runs_output_any)
  show ?thesis
    unfolding action_handler_def by (cases action) (simp_all only: ofp_action.case, (intro runs_intro out)+)
qed

lemma runs_process_actions:
  assumes "\<And>r p. runs (dp_step UNIV) (has_packet r) (rx r p)"
  shows "runs (dp_step UNIV) (has_packet r) (process_actions rx actions r in_port ofp)"
  by (induction actions) (auto intro!: runs_intro runs_action_handler assms split: option.split)

lemma runs_rx_packet_body:
  assumes "\<And>r p. runs (dp_step UNIV) (has_packet r) (rx r p)"
  shows "runs (dp_step UNIV) (has_packet r) (rx_packet_body rx r in_port d)"
  unfolding rx_packet_body_def Let_def
  by (intro runs_intro runs_process_actions assms)

lemma runs_rx_nested [runs_intro]: "runs (dp_step UNIV) (has_packet r) (rx_nested depth r in_port)"
  by (induction depth arbitrary: r in_port) (auto intro!: runs_intro runs_rx_packet_body)

lemma runs_new_packet_then:
  assumes "\<And>r. runs (dp_step A) (has_packet r) (f r)"
  shows "runs (dp_step A) (\<lambda>_. True) (sbind (new_packet e) f)"
proof (unfold runs_def, intro allI impI)
  fix s :: switch
  let ?t = "s\<lparr>sw_packets := sw_packets s @ [e]\<rparr>" and ?r = "length (sw_packets s)"
  have "(dp_step A)\<^sup>*\<^sup>* ?t (snd (f ?r ?t))" using assms [of ?r] by (simp add: runs_def has_packet_def)
  then show "(dp_step A)\<^sup>*\<^sup>* s (snd (sbind (new_packet e) f s))"
    using dp_step.make_packet [of A s e] by (simp add: sbind_def new_packet_def)
qed

lemma runs_rx_packet: "runs (dp_step UNIV) (\<lambda>_. True) (rx_packet depth e in_port d)"
  unfolding rx_packet_def by (auto intro!: runs_new_packet_then runs_rx_packet_body runs_intro)

lemma runs_for_bytes: "runs (dp_step UNIV) (\<lambda>_. True) (process_actions_for_bytes depth actions d in_port ofp)"
  unfolding process_actions_for_bytes_def by (auto intro!: runs_new_packet_then runs_process_actions runs_intro)

end
