(* ===== verification/Switch_Invariants.thy ===== *)
theory Switch_Invariants
  imports Switch_Steps
begin

text \<open>
  The control path as elementary changes, the step relation of a whole switch, the invariants of its state and the
  properties that follow: what the switch may transmit, that its table is one a flow table can reach, and that buffers,
  ports and counters stay consistent.
\<close>

section \<open>The control path\<close>

inductive cp_step :: "switch \<Rightarrow> switch \<Rightarrow> bool" where
  dp: "dp_step UNIV s t \<Longrightarrow> cp_step s t"
| remove: "remove_specific_entries flows reason (sw_table s) = Inr (t, evs) \<Longrightarrow> cp_step s (s\<lparr>sw_table := t\<rparr>)"
| draw_id: "cp_step s (s\<lparr>sw_next_id := sw_next_id s + 1\<rparr>)"
| add: "te_id e < sw_next_id s \<Longrightarrow> te_id e \<notin> te_id ` set (sw_table s) \<Longrightarrow>
    cp_step s (s\<lparr>sw_table := fst (add_entry e (sw_table s))\<rparr>)"
| set_actions: "cp_step s (s\<lparr>sw_table := map (\<lambda>e. if P e then e\<lparr>te_actions := acts\<rparr> else e) (sw_table s)\<rparr>)"
| hello: "cp_step s (s\<lparr>sw_has_sent_hello := b\<rparr>)"
| connect: "cp_step s (s\<lparr>sw_has_sent_hello := False, sw_connected := True\<rparr>)"
| config: "cp_step s (s\<lparr>sw_miss_send_len := n, sw_config_flags := f\<rparr>)"
| new_port: "map_of (sw_ports s) (pp_port_no p) = None \<Longrightarrow>
    cp_step s (s\<lparr>sw_ports := sw_ports s @ [(pp_port_no p, p)],
      sw_port_stats := filter (\<lambda>(k, _). k \<noteq> pp_port_no p) (sw_port_stats s) @ [(pp_port_no p, st)]\<rparr>)"
| drop_port: "cp_step s (s\<lparr>sw_ports := filter (\<lambda>(k, _). k \<noteq> n) (sw_ports s)\<rparr>)"
| change_port: "map_of (sw_ports s) n = Some q \<Longrightarrow> pp_port_no p = pp_port_no q \<Longrightarrow>
    cp_step s (s\<lparr>sw_ports := upd_assoc n (\<lambda>_. p) (sw_ports s)\<rparr>)"

inductive_cases cp_stepE: "cp_step s t"

text \<open>What the methods rely on: entry objects are older than the next one, buffered packets exist.\<close>

definition ids_below :: "switch \<Rightarrow> bool" where
  "ids_below s \<longleftrightarrow> (\<forall>e\<in>set (sw_table s). te_id e < sw_next_id s)"

definition buffers_ok :: "switch \<Rightarrow> bool" where
  "buffers_ok s \<longleftrightarrow> (\<forall>r p. Some (r, p) \<in> set (sw_buffer s) \<longrightarrow> has_packet r s)"

definition refs_ok :: "switch \<Rightarrow> bool" where
  "refs_ok s \<longleftrightarrow> ids_below s \<and> buffers_ok s"

lemma first_empty_less: "first_empty i xs = Some j \<Longrightarrow> i \<le> j \<and> j < i + length xs"
  by (induction xs arbitrary: i) (fastforce split: option.splits)+

lemma buffer_packet_cases:
  obtains i where "i < length (sw_buffer s)" "sw_buffer (snd (buffer_packet r p s)) = (sw_buffer s)[i := Some (r, p)]"
  | "int (length (sw_buffer s)) < sw_max_buffers s" "sw_buffer (snd (buffer_packet r p s)) = sw_buffer s @ [Some (r, p)]"
  | "sw_buffer (snd (buffer_packet r p s)) = sw_buffer s"
proof (cases "first_empty 0 (sw_buffer s)")
  case None
  then show thesis using that(2, 3) by (cases "int (length (sw_buffer s)) < sw_max_buffers s") (simp_all add: buffer_packet_def)
next
  case (Some i)
  then show thesis using that(1) [of i] first_empty_less [of 0 "sw_buffer s" i] by (simp add: buffer_packet_def)
qed

lemma set_buffer_packet: "set (sw_buffer (snd (buffer_packet r p s))) \<subseteq> insert (Some (r, p)) (set (sw_buffer s))"
  by (rule buffer_packet_cases [of s r p]) (auto dest: set_update_subset_insert [THEN subsetD])

lemma set_add_entry: "set (fst (add_entry e t)) = insert e (set t)"
proof -
  have "set (take n t @ e # drop n t) = insert e (set t)" for n
    by (metis append_take_drop_id insert_is_Un list.simps(15) set_append sup_left_commute)
  then show ?thesis by (simp only: add_entry_def Let_def fst_conv)
qed

lemma ids_touch: "map te_id (update_entry i (\<lambda>e. touch_packet e n now) t) = map te_id t"
  by (simp add: update_entry_def touch_packet_def)

lemma dp_step_table:
  "dp_step A s t \<Longrightarrow> sw_table t = sw_table s \<or> (\<exists>i n. sw_table t = update_entry i (\<lambda>e. touch_packet e n (sw_now s)) (sw_table s))"
  by (erule dp_stepE) (auto simp: buffer_packet_frame)

lemma dp_step_next_id: "dp_step A s t \<Longrightarrow> sw_next_id t = sw_next_id s"
  by (erule dp_stepE) (auto simp: buffer_packet_frame)

lemma dp_step_ids: "dp_step A s t \<Longrightarrow> te_id ` set (sw_table t) = te_id ` set (sw_table s)"
  by (drule dp_step_table) (metis ids_touch set_map)

lemma remove_specific_subset: "remove_specific_entries flows reason t = Inr (t', evs) \<Longrightarrow> set t' \<subseteq> set t"
  by (blast dest: remove_specific_subseq subseq_set_mono)

lemma cp_step_ids_below: "cp_step s t \<Longrightarrow> ids_below s \<Longrightarrow> ids_below t"
proof (induction rule: cp_step.induct)
  case (dp s t)
  then show ?case using dp_step_ids [OF dp(1)] dp_step_next_id [OF dp(1)] 
    by (metis (no_types, lifting) ids_below_def image_iff)
qed (auto simp: ids_below_def set_add_entry dest: remove_specific_subset)

lemma dp_step_buffers_ok: "dp_step A s t \<Longrightarrow> buffers_ok s \<Longrightarrow> buffers_ok t"
proof (induction rule: dp_step.induct)
  case (buffered r s p)
  then show ?case
    using set_buffer_packet [of r p s] by (auto simp: buffers_ok_def has_packet_def buffer_packet_frame)
next
  case (released s i)
  then show ?case
    using set_update_subset_insert [of "sw_buffer s" i None] by (auto simp: buffers_ok_def has_packet_def)
qed (auto simp: buffers_ok_def has_packet_def)

lemma cp_step_buffers_ok: "cp_step s t \<Longrightarrow> buffers_ok s \<Longrightarrow> buffers_ok t"
  by (induction rule: cp_step.induct) (auto simp: dp_step_buffers_ok, auto simp: buffers_ok_def has_packet_def)

lemma stable_refs_ok [runs_intro]: "stable cp_step refs_ok"
  by (auto simp: stable_def refs_ok_def cp_step_ids_below cp_step_buffers_ok)

text \<open>Whatever the data path does, the control path may do.\<close>

lemma runs_dp: "runs (dp_step UNIV) (\<lambda>_. True) m \<Longrightarrow> runs cp_step P m"
  by (erule runs_weaken) (auto intro: cp_step.dp)

lemmas runs_cp_send [runs_intro] = runs_send [where A = UNIV and P = "\<lambda>_. True", THEN runs_dp]

lemmas runs_cp_xid [runs_intro] = runs_xid [where A = UNIV and P = "\<lambda>_. True", THEN runs_dp]

subsection \<open>Changes to the table\<close>

text \<open>Announcing and removing entries, while a new entry object waits to be added.\<close>

inductive rm_step :: "switch \<Rightarrow> switch \<Rightarrow> bool" where
  notify: "rm_step s (s\<lparr>sw_xid := g, sw_out := sw_out s @ map Sent bss\<rparr>)"
| remove: "remove_specific_entries flows reason (sw_table s) = Inr (t, evs) \<Longrightarrow> rm_step s (s\<lparr>sw_table := t\<rparr>)"

inductive_cases rm_stepE: "rm_step s t"

lemma rm_step_cp: "rm_step s t \<Longrightarrow> cp_step s t"
  by (erule rm_stepE) (auto intro: cp_step.intros dp_step.sent)

definition waiting :: "nat \<Rightarrow> switch \<Rightarrow> bool" where
  "waiting i s \<longleftrightarrow> refs_ok s \<and> i < sw_next_id s \<and> i \<notin> te_id ` set (sw_table s)"

lemma stable_waiting: "stable rm_step (waiting i)"
  unfolding stable_def
proof (intro allI impI)
  fix s t assume st: "rm_step s t" and w: "waiting i s"
  have "refs_ok t" using stable_refs_ok rm_step_cp [OF st] w by (auto simp: stable_def waiting_def)
  moreover have "set (sw_table t) \<subseteq> set (sw_table s)" "sw_next_id t = sw_next_id s"
    using st by (auto elim!: rm_stepE dest: remove_specific_subset [THEN subsetD])
  ultimately show "waiting i t" using w by (auto simp: waiting_def)
qed

lemma runs_rm_send: "runs rm_step P (send m)"
proof -
  have "rm_step s (snd (connection_send m s))" for s
    using rm_step.notify [where s = s and g = "sw_xid s" and bss = "[]"] rm_step.notify [where s = s and bss = "[_]"]
    by (auto simp: connection_send_def split: sum.split)
  then show ?thesis by (auto simp: send_def runs_def sbind_def gets_def ret_def)
qed

lemma runs_modification: "stable rm_step P \<Longrightarrow> runs rm_step P (handle_FlowTableModification ev)"
  unfolding handle_FlowTableModification_def by (auto intro!: runs_intro runs_rm_send)

lemma runs_table_remove: "stable rm_step P \<Longrightarrow> runs rm_step P (table_remove flows reason)"
proof (unfold runs_def, intro allI impI)
  fix s assume P: "stable rm_step P" "P s"
  show "rm_step\<^sup>*\<^sup>* s (snd (table_remove flows reason s))"
  proof (cases "remove_specific_entries flows reason (sw_table s)")
    case (Inl e)
    then show ?thesis by (simp add: table_remove_def sbind_def gets_def lift_def)
  next
    case (Inr r)
    obtain t evs where r: "r = (t, evs)" by fastforce
    let ?s = "s\<lparr>sw_table := t\<rparr>"
    have st: "rm_step s ?s" using Inr r by (simp add: rm_step.remove)
    then have "P ?s" using P by (auto simp: stable_def)
    then have "rm_step\<^sup>*\<^sup>* ?s (snd (for_each handle_FlowTableModification evs ?s))"
      using runs_for_each [OF P(1), of handle_FlowTableModification, OF runs_modification [OF P(1)]]
      by (auto simp: runs_def)
    with st show ?thesis
      using Inr r by (simp add: table_remove_def sbind_def gets_def lift_def modify_def converse_rtranclp_into_rtranclp)
  qed
qed

lemma runs_table_remove_matching:
  "stable rm_step P \<Longrightarrow> runs rm_step P (table_remove_matching m pr strict out_port reason)"
  unfolding table_remove_matching_def by (auto intro!: runs_intro runs_table_remove)

lemma runs_rm: "runs rm_step (\<lambda>_. True) m \<Longrightarrow> runs cp_step P m"
  by (erule runs_weaken) (auto intro: rm_step_cp)

lemmas runs_cp_remove [runs_intro] =
  runs_rm [OF runs_table_remove [OF stable_True]]
  runs_rm [OF runs_table_remove_matching [OF stable_True]]
  runs_rm [OF runs_modification [OF stable_True]]

lemma runs_expire_timer [runs_intro]: "runs cp_step refs_ok expire_timer"
  unfolding expire_timer_def by (intro runs_intro)

lemma runs_flow_mod_failed [runs_intro]: "runs cp_step P (flow_mod_failed code fm)"
  unfolding flow_mod_failed_def by (rule runs_intro)

lemma runs_table_add: "runs cp_step (waiting (te_id e)) (table_add e)"
proof (unfold runs_def, intro allI impI)
  fix s assume w: "waiting (te_id e) s"
  let ?s = "s\<lparr>sw_table := fst (add_entry e (sw_table s))\<rparr>"
  have "cp_step s ?s" using w by (auto simp: waiting_def intro: cp_step.add)
  moreover have "cp_step\<^sup>*\<^sup>* ?s (snd (handle_FlowTableModification ev ?s))" for ev
    using runs_cp_remove(3) [of "\<lambda>_. True" ev] by (simp add: runs_def)
  ultimately show "cp_step\<^sup>*\<^sup>* s (snd (table_add e s))"
    by (auto simp: table_add_def sbind_def gets_def modify_def Let_def split: prod.split
        intro: converse_rtranclp_into_rtranclp)
qed

text \<open>Two stages: what keeps the new entry waiting, then the rest.\<close>

lemma runs_stage:
  assumes "stable rm_step P" "runs rm_step P m" "\<And>x. runs cp_step P (f x)"
  shows "runs cp_step P (sbind m f)"
proof (unfold runs_def, intro allI impI)
  fix s assume "P s"
  then have m: "rm_step\<^sup>*\<^sup>* s (snd (m s))" using assms(2) by (simp add: runs_def)
  then have "cp_step\<^sup>*\<^sup>* s (snd (m s))" by (rule rtranclp_mono [THEN predicate2D, rotated]) (auto intro: rm_step_cp)
  moreover have "cp_step\<^sup>*\<^sup>* (snd (m s)) (snd (f x (snd (m s))))" for x
    using assms(3) stable_steps [OF assms(1) m \<open>P s\<close>] by (simp add: runs_def)
  ultimately show "cp_step\<^sup>*\<^sup>* s (snd (sbind m f s))"
    by (auto simp: sbind_def split: prod.splits sum.splits) (metis rtranclp_trans snd_conv)+
qed

lemma runs_new_entry:
  assumes "\<And>i. runs cp_step (waiting i) (f i)"
  shows "runs cp_step refs_ok (sbind new_entry_id f)"
proof (unfold runs_def, intro allI impI)
  fix s assume ok: "refs_ok s"
  let ?s = "s\<lparr>sw_next_id := sw_next_id s + 1\<rparr>"
  have st: "cp_step s ?s" by (rule cp_step.draw_id)
  then have "waiting (sw_next_id s) ?s"
    using ok stable_refs_ok by (auto simp: waiting_def stable_def refs_ok_def ids_below_def)
  then show "cp_step\<^sup>*\<^sup>* s (snd (sbind new_entry_id f s))"
    using st assms [of "sw_next_id s"]
    by (simp add: sbind_def new_entry_id_def runs_def converse_rtranclp_into_rtranclp)
qed

lemma from_flow_mod_id [simp]: "te_id (from_flow_mod i now fm) = i"
  by (simp add: from_flow_mod_def)

lemma runs_flow_mod_add [runs_intro]: "runs cp_step refs_ok (flow_mod_add fm)"
  unfolding flow_mod_add_def Let_def
  by (intro runs_if runs_flow_mod_failed runs_new_entry runs_stage [OF stable_waiting] runs_pure
      runs_table_remove_matching [OF stable_waiting])
    (metis from_flow_mod_id runs_table_add)

lemma modify_loop_map:
  "modify_loop strict fm t =
     (let hit = matched (fm_match fm) (Some (fm_priority fm)) strict None in
      (map (\<lambda>e. if hit e then e\<lparr>te_actions := fm_actions fm\<rparr> else e) t, Inr (\<exists>e\<in>set t. hit e)))"
  by (induction t) (auto simp: is_matched_by_total Let_def)

lemma flow_mod_modify_eq:
  "flow_mod_modify strict fm s =
     (let hit = matched (fm_match fm) (Some (fm_priority fm)) strict None in
      if \<exists>e\<in>set (sw_table s). hit e
      then (Inr (), s\<lparr>sw_table := map (\<lambda>e. if hit e then e\<lparr>te_actions := fm_actions fm\<rparr> else e) (sw_table s)\<rparr>)
      else flow_mod_add fm s)"
proof -
  let ?hit = "matched (fm_match fm) (Some (fm_priority fm)) strict None"
  have "\<not> (\<exists>e\<in>set (sw_table s). ?hit e) \<Longrightarrow>
      map (\<lambda>e. if ?hit e then e\<lparr>te_actions := fm_actions fm\<rparr> else e) (sw_table s) = sw_table s"
    by (rule map_idI) auto
  then show ?thesis
    by (simp add: flow_mod_modify_def modify_loop_map sbind_def lift_def gets_def modify_def ret_def Let_def)
qed

lemma runs_flow_mod_modify [runs_intro]: "runs cp_step refs_ok (flow_mod_modify strict fm)"
  using runs_flow_mod_add [of fm] cp_step.set_actions
  by (auto simp: runs_def flow_mod_modify_eq Let_def)

lemma runs_flow_mod_delete [runs_intro]: "runs cp_step refs_ok (flow_mod_delete strict fm)"
  unfolding flow_mod_delete_def Let_def by (rule runs_intro)

subsection \<open>Buffers and packets\<close>

lemma cp_step_has_packet: "cp_step s t \<Longrightarrow> has_packet r s \<Longrightarrow> has_packet r t"
  by (induction rule: cp_step.induct) (use stable_has_packet in \<open>auto simp: stable_def has_packet_def\<close>)

lemma stable_packet [runs_intro]: "stable cp_step (\<lambda>s. refs_ok s \<and> has_packet r s)"
  using stable_refs_ok by (auto simp: stable_def cp_step_has_packet)

lemma runs_release [runs_intro]: "runs cp_step P (modify (\<lambda>s. s\<lparr>sw_buffer := (sw_buffer s)[i := None]\<rparr>))"
  by (rule runs_step) (simp add: modify_def cp_step.dp dp_step.released)

lemma runs_from_buffer [runs_intro]: "runs cp_step refs_ok (process_actions_from_buffer depth actions b ofp)"
proof -
  have body: "runs cp_step (\<lambda>s. refs_ok s \<and> has_packet r s)
      (sbind (process_actions (rx_nested depth) actions r p ofp) (\<lambda>_. modify (\<lambda>s. s\<lparr>sw_buffer := (sw_buffer s)[i := None]\<rparr>)))"
    for r p i
    by (intro runs_sbind stable_packet runs_release
        runs_weaken [OF runs_process_actions [of "rx_nested depth", OF runs_rx_nested]]) (auto intro: cp_step.dp)
  have "refs_ok s \<and> has_packet r s" if "refs_ok s" "sw_buffer s ! nat i = Some (r, p)" "0 \<le> i" "i < int (length (sw_buffer s))"
    for s r p i
    using that nth_mem [of "nat i" "sw_buffer s"] by (auto simp: refs_ok_def buffers_ok_def nat_less_iff)
  with body show ?thesis
    unfolding runs_def process_actions_from_buffer_def Let_def
    by (auto simp: sbind_def [of "gets sw_buffer"] gets_def ret_def split: option.split)
qed

subsection \<open>Ports and messages\<close>

lemma runs_control [runs_intro]:
  "runs cp_step P (modify (\<lambda>s. s\<lparr>sw_has_sent_hello := b\<rparr>))"
  "runs cp_step P (modify (\<lambda>s. s\<lparr>sw_miss_send_len := n, sw_config_flags := f\<rparr>))"
  "runs cp_step P set_connection"
  "runs cp_step P (modify (\<lambda>s. s\<lparr>sw_ports := filter (\<lambda>(k, _). k \<noteq> m) (sw_ports s)\<rparr>))"
  by (auto simp: modify_def set_connection_def
      intro!: runs_step cp_step.hello cp_step.config cp_step.connect cp_step.drop_port)

lemma runs_send_hello [runs_intro]: "runs cp_step refs_ok (send_hello force)"
  unfolding send_hello_def by (intro runs_intro)

lemma runs_add_port [runs_intro]: "runs cp_step refs_ok (add_port p)"
proof (unfold runs_def, intro allI impI)
  fix s :: switch
  let ?n = "pp_port_no p"
  let ?s = "s\<lparr>sw_ports := sw_ports s @ [(?n, p)], sw_port_stats := filter (\<lambda>(k, _). k \<noteq> ?n) (sw_port_stats s)
    @ [(?n, ofp_port_stats_init\<lparr>pst_port_no := ?n\<rparr>)]\<rparr>"
  have "cp_step\<^sup>*\<^sup>* ?s (snd (send_port_status p OFPPR_ADD ?s))"
    using runs_cp_send(4) [of "\<lambda>_. True" p OFPPR_ADD] by (simp add: runs_def)
  moreover have "map_of (sw_ports s) ?n = None \<Longrightarrow> cp_step s ?s" by (rule cp_step.new_port)
  ultimately show "cp_step\<^sup>*\<^sup>* s (snd (add_port p s))"
    by (auto simp: add_port_def sbind_def gets_def modify_def raise_def Let_def intro: converse_rtranclp_into_rtranclp)
qed

lemma runs_delete_port [runs_intro]: "runs cp_step refs_ok (delete_port n)"
  unfolding delete_port_def by (intro runs_intro)

lemma map_of_upd_assoc: "map_of (upd_assoc n f ps) k = map_option (if k = n then f else id) (map_of ps k)"
  by (induction ps) (auto simp: upd_assoc_def)

definition port_known :: "int \<Rightarrow> int \<Rightarrow> switch \<Rightarrow> bool" where
  "port_known n m s \<longleftrightarrow> map_option pp_port_no (map_of (sw_ports s) n) = Some m"

lemma runs_set_port: "pp_port_no p = m \<Longrightarrow> runs cp_step (port_known n m) (set_port n (\<lambda>_. p))"
  by (rule runs_step) (auto simp: set_port_def modify_def port_known_def intro: cp_step.change_port)

lemma set_port_known: "pp_port_no p = m \<Longrightarrow> port_known n m s \<Longrightarrow> set_port n (\<lambda>_. p) s = (Inr x, t) \<Longrightarrow> port_known n m t"
  by (auto simp: set_port_def modify_def port_known_def map_of_upd_assoc)

lemma set_config_port_no: "phy_port_set_config c b p = (ch, q) \<Longrightarrow> pp_port_no q = pp_port_no p"
  by (auto simp: phy_port_set_config_def Let_def)

lemma link_state_port_no [simp]: "pp_port_no (link_state p) = pp_port_no p"
  by (simp add: link_state_def Let_def)

lemma runs_set_port_then:
  assumes "pp_port_no p = m" "\<And>x. runs cp_step (port_known n m) (f x)"
  shows "runs cp_step (port_known n m) (sbind (set_port n (\<lambda>_. p)) f)"
  by (rule runs_seq [OF runs_set_port [OF assms(1)], where Q = "port_known n m"]) (auto intro: set_port_known [OF assms(1)] assms(2))

lemma runs_get_port:
  "(\<And>q. runs cp_step (port_known n (pp_port_no q)) (f q)) \<Longrightarrow> runs cp_step P (sbind (get_port n) f)"
  by (auto simp: runs_def get_port_def sbind_def gets_def ret_def raise_def port_known_def split: option.split)

lemma runs_set_port_config_bit [runs_intro]: "runs cp_step P (set_port_config_bit n b v)"
proof -
  have tail: "runs cp_step Q (sbind (if c then send_port_status p OFPPR_MODIFY else ret ()) (\<lambda>_. ret True))" for Q c p
    by (rule runs_weaken [of cp_step "\<lambda>_. True"]) (intro runs_intro, auto)
  have rest: "runs cp_step (port_known n (pp_port_no q)) (let (changed, port) = phy_port_set_config v b q in
        sbind (set_port n (\<lambda>_. port)) (\<lambda>_.
        if changed \<noteq> 0 \<and> b = OFPPC_PORT_DOWN then
          let old_state = pp_state port AND OFPPS_LINK_DOWN; port = link_state port;
              new_state = pp_state port AND OFPPS_LINK_DOWN in
          sbind (set_port n (\<lambda>_. port)) (\<lambda>_.
          sbind (if old_state \<noteq> new_state then send_port_status port OFPPR_MODIFY else ret ()) (\<lambda>_. ret True))
        else ret True))" for q
    unfolding Let_def
    by (cases "phy_port_set_config v b q") (simp only: prod.case, intro runs_set_port_then runs_if runs_pure tail,
        auto dest: set_config_port_no)
  show ?thesis
    unfolding set_port_config_bit_def by (intro runs_if runs_pure runs_get_port rest)
qed

lemma runs_handlers [runs_intro]:
  "runs cp_step refs_ok (rx_hello a)" "runs cp_step refs_ok (rx_echo_request b)" "runs cp_step refs_ok (rx_echo_reply c)"
  "runs cp_step refs_ok (rx_features_request d)" "runs cp_step refs_ok (rx_barrier_request e)"
  "runs cp_step refs_ok (rx_get_config_request f)" "runs cp_step refs_ok (rx_set_config g)"
  "runs cp_step refs_ok (rx_vendor h)" "runs cp_step refs_ok (rx_queue_get_config_request i)"
  unfolding rx_hello_def rx_echo_request_def rx_echo_reply_def rx_features_request_def rx_barrier_request_def
    rx_get_config_request_def rx_set_config_def rx_vendor_def rx_queue_get_config_request_def
  by (intro runs_intro)+

lemma runs_rx_port_mod [runs_intro]: "runs cp_step refs_ok (rx_port_mod m)"
  unfolding rx_port_mod_def Let_def by (intro runs_intro)

lemma runs_rx_flow_mod [runs_intro]: "runs cp_step refs_ok (rx_flow_mod depth m)"
  unfolding rx_flow_mod_def by (intro runs_intro)

lemma runs_rx_packet_out [runs_intro]: "runs cp_step refs_ok (rx_packet_out depth m)"
  unfolding rx_packet_out_def by (intro runs_if runs_option runs_pure runs_from_buffer runs_dp [OF runs_for_bytes])

lemma runs_stats [runs_intro]:
  "runs cp_step refs_ok stats_desc" "runs cp_step refs_ok (stats_flow m)" "runs cp_step refs_ok (stats_aggregate m)"
  "runs cp_step refs_ok stats_table" "runs cp_step refs_ok (stats_port m)" "runs cp_step refs_ok (stats_queue m)"
  unfolding stats_desc_def stats_flow_def stats_aggregate_def stats_table_def stats_port_def stats_queue_def
  by (intro runs_intro)+

lemma runs_rx_stats_request [runs_intro]: "runs cp_step refs_ok (rx_stats_request m)"
  unfolding rx_stats_request_def by (intro runs_intro)

lemma runs_rx_message: "runs cp_step refs_ok (rx_message depth m)"
  by (cases m) (simp_all add: runs_intro)

section \<open>A switch and its steps\<close>

text \<open>
  \<^verbatim>\<open>SoftwareSwitchBase.__init__\<close>: the ports are added one by one, before there is a connection. The feature object and the
  descriptions are arguments, \<open>g\<close> is the xid generator as it stands, \<open>now\<close> the clock.
\<close>

definition blank_switch ::
  "int \<Rightarrow> int \<Rightarrow> int \<Rightarrow> int \<Rightarrow> SwitchFeatures option \<Rightarrow> pk_ext \<Rightarrow> bytes \<Rightarrow> bytes \<Rightarrow> bytes \<Rightarrow> xid_gen \<Rightarrow> int \<Rightarrow> switch"
where
  "blank_switch dpid miss_send_len max_buffers max_entries features x cls hw sw g now =
     \<lparr>sw_dpid = dpid, sw_max_buffers = max_buffers, sw_max_entries = max_entries, sw_miss_send_len = miss_send_len,
      sw_config_flags = 0, sw_has_sent_hello = False, sw_table = [], sw_lookup_count = 0, sw_matched_count = 0,
      sw_connected = False, sw_buffer = [], sw_ports = [], sw_port_stats = [],
      sw_features = (case features of None \<Rightarrow> default_features | Some f \<Rightarrow> f), sw_packets = [], sw_xid = g,
      sw_now = now, sw_next_id = 0, sw_out = [], sw_ext = x, sw_class_name = cls, sw_hw_desc = hw, sw_sw_desc = sw\<rparr>"

definition default_ports :: "int \<Rightarrow> nat \<Rightarrow> ofp_phy_port list res" where
  "default_ports dpid n = mapM (\<lambda>i. generate_port dpid (int i) None None) [1..<n + 1]"

inductive switch_step :: "nat \<Rightarrow> switch \<Rightarrow> switch \<Rightarrow> bool" for depth where
  message: "switch_step depth s (snd (rx_message depth m s))"
| packet: "switch_step depth s (snd (rx_packet depth e in_port d s))"
| expire: "switch_step depth s (snd (expire_timer s))"
| add_port: "switch_step depth s (snd (add_port p s))"
| delete_port: "switch_step depth s (snd (delete_port n s))"
| connect: "switch_step depth s (snd (set_connection s))"
| tick: "0 \<le> d \<Longrightarrow> switch_step depth s (s\<lparr>sw_now := sw_now s + d\<rparr>)"

inductive_cases switch_stepE: "switch_step depth s t"

lemma switch_step_runs:
  assumes "switch_step depth s t" "refs_ok s"
  shows "cp_step\<^sup>*\<^sup>* s t \<or> (\<exists>d\<ge>0. t = s\<lparr>sw_now := sw_now s + d\<rparr>)"
  using assms(1)
proof cases
  case (packet e in_port d)
  then show ?thesis using runs_dp [OF runs_rx_packet [of depth e in_port d], of "\<lambda>_. True"] by (simp add: runs_def)
next
  case connect
  then show ?thesis using runs_control(3) [of "\<lambda>_. True"] by (simp add: runs_def)
qed (use runs_rx_message [of depth] runs_expire_timer runs_add_port runs_delete_port assms(2) in \<open>auto simp: runs_def\<close>)

text \<open>An invariant of the elementary changes that does not look at the clock is an invariant of the switch.\<close>

locale switch_invariant =
  fixes inv :: "switch \<Rightarrow> bool"
  assumes refs: "inv s \<Longrightarrow> refs_ok s"
    and keeps: "cp_step s t \<Longrightarrow> inv s \<Longrightarrow> inv t"
    and clock: "inv s \<Longrightarrow> inv (s\<lparr>sw_now := d\<rparr>)"
    and start: "inv (blank_switch dpid n b e f x cls hw sw g now)"
begin

lemma step_inv: "switch_step depth s t \<Longrightarrow> inv s \<Longrightarrow> inv t"
proof -
  assume st: "switch_step depth s t" and i: "inv s"
  have "cp_step\<^sup>*\<^sup>* s t \<Longrightarrow> inv s \<Longrightarrow> inv t" by (induction rule: rtranclp_induct) (auto intro: keeps)
  then show "inv t" using switch_step_runs [OF st refs [OF i]] i clock by auto
qed

lemma steps_inv: "(switch_step depth)\<^sup>*\<^sup>* (blank_switch dpid n b e f x cls hw sw g now) s \<Longrightarrow> inv s"
  by (induction rule: rtranclp_induct) (auto intro: step_inv start)

end

section \<open>Invariants of a switch\<close>

lemma refs_ok_step: "cp_step s t \<Longrightarrow> refs_ok s \<Longrightarrow> refs_ok t"
  using stable_refs_ok by (auto simp: stable_def)

lemma blank_refs: "refs_ok (blank_switch dpid n b e f x cls hw sw g now)"
  by (simp add: blank_switch_def refs_ok_def ids_below_def buffers_ok_def)

lemma clock_refs: "refs_ok s \<Longrightarrow> refs_ok (s\<lparr>sw_now := d\<rparr>)"
  by (simp add: refs_ok_def ids_below_def buffers_ok_def has_packet_def)

subsection \<open>The table\<close>

lemma dp_step_table_step: "dp_step A s t \<Longrightarrow> table_step\<^sup>*\<^sup>* (sw_table s) (sw_table t)"
  by (drule dp_step_table, elim disjE exE) (simp, simp, rule r_into_rtranclp, rule table_step.touch)

text \<open>Every change of the switch's table is an operation of the flow table.\<close>

lemma cp_step_table_step: "cp_step s t \<Longrightarrow> table_step\<^sup>*\<^sup>* (sw_table s) (sw_table t)"
proof (induction rule: cp_step.induct)
  case (remove flows reason s t evs)
  then show ?case by (auto intro: table_step.remove_specific)
next
  case (add e s)
  then show ?case by (auto intro: table_step.add)
next
  case (set_actions s P acts)
  then show ?case by (auto intro: table_step.set_actions)
qed (simp_all add: dp_step_table_step)

interpretation tbl: switch_invariant "\<lambda>s. refs_ok s \<and> table_step\<^sup>*\<^sup>* [] (sw_table s)"
proof unfold_locales
  fix s t assume "cp_step s t" "refs_ok s \<and> table_step\<^sup>*\<^sup>* [] (sw_table s)"
  then show "refs_ok t \<and> table_step\<^sup>*\<^sup>* [] (sw_table t)"
    using refs_ok_step cp_step_table_step [of s t] by (meson rtranclp_trans)
qed (auto simp: blank_refs clock_refs, simp add: blank_switch_def)

subsection \<open>The packet buffers\<close>

definition buffers_bounded :: "switch \<Rightarrow> bool" where
  "buffers_bounded s \<longleftrightarrow> length (sw_buffer s) \<le> nat (sw_max_buffers s)"

lemma dp_step_bounded: "dp_step A s t \<Longrightarrow> buffers_bounded s \<Longrightarrow> buffers_bounded t"
proof (induction rule: dp_step.induct)
  case (buffered r s p)
  show ?case
    by (rule buffer_packet_cases [of s r p])
       (use buffered in \<open>auto simp: buffers_bounded_def buffer_packet_frame\<close>)
qed (auto simp: buffers_bounded_def)

lemma cp_step_bounded: "cp_step s t \<Longrightarrow> buffers_bounded s \<Longrightarrow> buffers_bounded t"
  by (induction rule: cp_step.induct) (auto simp: dp_step_bounded, auto simp: buffers_bounded_def)

interpretation buf: switch_invariant "\<lambda>s. refs_ok s \<and> buffers_bounded s"
  by unfold_locales
    (auto simp: blank_refs clock_refs refs_ok_step cp_step_bounded, auto simp: blank_switch_def buffers_bounded_def)

subsection \<open>The ports\<close>

definition ports_ok :: "switch \<Rightarrow> bool" where
  "ports_ok s \<longleftrightarrow>
     distinct (map fst (sw_ports s)) \<and> (\<forall>(k, p)\<in>set (sw_ports s). pp_port_no p = k) \<and>
     distinct (map fst (sw_port_stats s)) \<and> fst ` set (sw_ports s) \<subseteq> fst ` set (sw_port_stats s)"

lemma keys_upd_assoc [simp]: "map fst (upd_assoc k f ps) = map fst ps"
  by (simp add: upd_assoc_def comp_def case_prod_beta)

lemma dom_upd_assoc [simp]: "fst ` set (upd_assoc k f ps) = fst ` set ps"
  by (metis keys_upd_assoc set_map)

lemma dp_step_stats: "dp_step A s t \<Longrightarrow> map fst (sw_port_stats t) = map fst (sw_port_stats s)"
  by (erule dp_stepE) (auto simp: buffer_packet_frame)

lemma dp_step_ports_ok: "dp_step A s t \<Longrightarrow> ports_ok s \<Longrightarrow> ports_ok t"
proof -
  assume st: "dp_step A s t"
  then have "fst ` set (sw_port_stats t) = fst ` set (sw_port_stats s)" by (metis dp_step_stats set_map)
  then show "ports_ok s \<Longrightarrow> ports_ok t"
    using dp_step_ports [OF st] dp_step_stats [OF st] by (simp add: ports_ok_def)
qed

lemma dom_filter_key: "fst ` set (filter (\<lambda>(k, _). k \<noteq> n) ps) = fst ` set ps - {n}"
  by force

lemma cp_step_ports_ok: "cp_step s t \<Longrightarrow> ports_ok s \<Longrightarrow> ports_ok t"
proof (induction rule: cp_step.induct)
  case (new_port s p st)
  let ?st = "filter (\<lambda>(k, _). k \<noteq> pp_port_no p) (sw_port_stats s)"
  have "distinct (map fst ?st)" "fst ` set ?st = fst ` set (sw_port_stats s) - {pp_port_no p}"
    using new_port by (simp add: ports_ok_def distinct_map_filter) (rule dom_filter_key)
  moreover have "pp_port_no p \<notin> fst ` set (sw_ports s)" using new_port by (simp add: map_of_eq_None_iff)
  ultimately show ?case using new_port by (simp add: ports_ok_def) blast
next
  case (drop_port s n)
  then show ?case by (auto simp: ports_ok_def distinct_map_filter)
next
  case (change_port s n q p)
  then have "pp_port_no q = n" by (auto simp: ports_ok_def dest: map_of_SomeD)
  moreover have "\<forall>(k, q)\<in>set (upd_assoc n (\<lambda>_. p) (sw_ports s)). pp_port_no q = k"
    using change_port calculation by (auto simp: upd_assoc_def ports_ok_def)
  ultimately show ?case using change_port by (simp add: ports_ok_def)
qed (auto simp: dp_step_ports_ok, auto simp: ports_ok_def)

interpretation prt: switch_invariant "\<lambda>s. refs_ok s \<and> ports_ok s"
  by unfold_locales (auto simp: blank_refs clock_refs refs_ok_step cp_step_ports_ok, auto simp: blank_switch_def ports_ok_def)

end
