(* ===== verification/Switch_Properties.thy ===== *)
theory Switch_Properties
  imports Switch_Invariants
begin

text \<open>
  What the software switch guarantees: its invariants in every reachable state, where it may send packets, what each flow
  modification does to the table, how long a buffered packet is kept, and what a port modification changes.
\<close>

abbreviation reachable :: "nat \<Rightarrow> switch \<Rightarrow> bool" where
  "reachable depth s \<equiv> \<exists>dpid n b e f x cls hw sw g now.
     (switch_step depth)\<^sup>*\<^sup>* (blank_switch dpid n b e f x cls hw sw g now) s"

section \<open>A sample switch\<close>

definition sample_port :: "int \<Rightarrow> ofp_phy_port" where
  "sample_port n = ofp_phy_port_init\<lparr>pp_port_no := n, pp_hw_addr := EthAddr [2, 0, 0, 0, 0, word_of_int n],
     pp_name := [101], pp_config := OFPPC_NO_STP\<rparr>"

definition sample_blank :: switch where
  "sample_blank = blank_switch 1 128 2 10 None no_ext [] [] [] \<lparr>xg_i = 0, xg_start = 0, xg_stop = 100\<rparr> 0"

definition sample_switch :: switch where
  "sample_switch = snd (add_port (sample_port 2) (snd (add_port (sample_port 1) sample_blank)))"

lemma sample_reachable: "(switch_step depth)\<^sup>*\<^sup>* sample_blank sample_switch"
  unfolding sample_switch_def
  by (rule rtranclp_trans [of _ _ "snd (add_port (sample_port 1) sample_blank)"])
     (rule r_into_rtranclp, rule switch_step.add_port)+

lemma reachable_sample: "reachable depth sample_switch"
  using sample_reachable [unfolded sample_blank_def] by blast

section \<open>Reachable states\<close>

text \<open>
  C1. The switch refines the flow table: whatever a reachable switch does in one step (a message, a packet, an expiry, a
  change of ports), the effect on its table is a sequence of flow-table operations, where entry objects are only added
  when they are new. So its table is always in order of effective priority and holds no object twice.
\<close>

theorem switch_refines_table:
  assumes "reachable depth s" and "switch_step depth s t"
  shows "table_step\<^sup>*\<^sup>* (sw_table s) (sw_table t) \<and> ordered effective_priority (sw_table t) \<and> distinct (map te_id (sw_table t))"
proof -
  have inv: "refs_ok s" "table_step\<^sup>*\<^sup>* [] (sw_table s)" using assms(1) tbl.steps_inv by blast+
  have "cp_step\<^sup>*\<^sup>* s t \<Longrightarrow> table_step\<^sup>*\<^sup>* (sw_table s) (sw_table t)"
    by (induction rule: rtranclp_induct) (auto dest: cp_step_table_step)
  then have st: "table_step\<^sup>*\<^sup>* (sw_table s) (sw_table t)" using switch_step_runs [OF assms(2) inv(1)] by auto
  then have "table_wf (sw_table t)" using inv(2) table_wf_steps [of "[]"] by (metis rtranclp_trans table_wf_def distinct.simps(1) list.map(1) ordered_simps(1))
  with st show ?thesis by (simp add: table_wf_def)
qed

theorem switch_refines_table_witness:
  "table_step\<^sup>*\<^sup>* (sw_table sample_switch) (sw_table (snd (expire_timer sample_switch))) \<and>
   ordered effective_priority (sw_table (snd (expire_timer sample_switch))) \<and>
   distinct (map te_id (sw_table (snd (expire_timer sample_switch))))"
  using switch_refines_table [OF reachable_sample [of 5] switch_step.expire] .

text \<open>
  C26. In a reachable switch every port is filed under its own number, once, and has its statistics: counting a packet of
  a port the switch has never raises.
\<close>

theorem reachable_ports:
  assumes "reachable depth s" "map_of (sw_ports s) n = Some p"
  shows "pp_port_no p = n \<and> distinct (map fst (sw_ports s)) \<and> fst (bump_stats n f s) = Inr ()"
proof -
  have ok: "ports_ok s" using assms(1) prt.steps_inv by blast
  have "n \<in> fst ` set (sw_ports s)" using map_of_SomeD [OF assms(2)] by force
  then have "map_of (sw_port_stats s) n \<noteq> None" using ok by (auto simp: ports_ok_def map_of_eq_None_iff)
  then show ?thesis
    using ok map_of_SomeD [OF assms(2)] by (auto simp: ports_ok_def bump_stats_def sbind_def gets_def modify_def)
qed

theorem reachable_ports_witness:
  "pp_port_no (sample_port 2) = 2 \<and> distinct (map fst (sw_ports sample_switch)) \<and>
   fst (bump_stats 2 id sample_switch) = Inr ()"
  by (rule reachable_ports [OF reachable_sample [of 5], of 2 "sample_port 2" id]) code_simp

section \<open>Where packets go\<close>

definition transmitted :: "out_event list \<Rightarrow> int list" where
  "transmitted evs = concat (map (\<lambda>v. case v of DpPacketOut _ p \<Rightarrow> [p] | Sent _ \<Rightarrow> []) evs)"

lemma transmitted_simps [simp]:
  "transmitted [] = []" "transmitted (a @ b) = transmitted a @ transmitted b" "transmitted (map Sent bss) = []"
  "transmitted [DpPacketOut e p] = [p]"
  by (simp_all add: transmitted_def comp_def)

lemma dp_steps_transmit:
  assumes "(dp_step A)\<^sup>*\<^sup>* s t"
  shows "sw_ports t = sw_ports s \<and>
    (\<exists>evs. sw_out t = sw_out s @ evs \<and> (\<forall>p\<in>set (transmitted evs). p \<in> A \<and> open_port s p))"
  using assms
proof (induction rule: rtranclp_induct)
  case (step t u)
  then obtain evs where evs: "sw_out t = sw_out s @ evs" "\<forall>p\<in>set (transmitted evs). p \<in> A \<and> open_port s p"
    and ports: "sw_ports t = sw_ports s" by auto
  have "\<exists>ev. sw_out u = sw_out t @ ev \<and> (\<forall>p\<in>set (transmitted ev). p \<in> A \<and> open_port t p)"
    using step.hyps(2) by cases (auto simp: buffer_packet_frame)
  then show ?case
    using evs ports dp_step_ports [OF step.hyps(2)]
    by (metis (no_types, lifting) Un_iff append.assoc open_port_def set_append transmitted_simps(2))
qed (auto intro: exI [of _ "[]"])

text \<open>
  C13. Whatever its table and the frame say, a switch that handles an arriving frame transmits only out of ports it has,
  that are up, whose link is up and that forward, and it keeps its ports and everything it sent before.
\<close>

theorem rx_forwards_to_open_ports:
  "\<exists>evs. sw_out (snd (rx_packet depth e in_port d s)) = sw_out s @ evs \<and>
     sw_ports (snd (rx_packet depth e in_port d s)) = sw_ports s \<and> list_all (open_port s) (transmitted evs)"
  using dp_steps_transmit [of UNIV s "snd (rx_packet depth e in_port d s)"] runs_rx_packet [of depth e in_port d]
  by (auto simp: runs_def list_all_iff)

text \<open>
  C27. An output action other than to the table or to the input port itself never sends the frame back where it came
  from: flooding and sending to all ports leave the input port out, and naming it explicitly drops the frame.
\<close>

theorem output_spares_in_port:
  assumes "out_port \<noteq> OFPP_IN_PORT" "out_port \<noteq> OFPP_TABLE" "r < length (sw_packets s)"
  shows "\<exists>evs. sw_out (snd (output_packet rx r out_port in_port max_len s)) = sw_out s @ evs \<and> in_port \<notin> set (transmitted evs)"
proof -
  have "output_packet rx r out_port in_port max_len = output_packet (\<lambda>_ _. ret ()) r out_port in_port max_len"
    using assms(2) by (simp add: output_packet_def)
  moreover have "runs (dp_step (- {in_port})) (has_packet r) (output_packet (\<lambda>_ _. ret ()) r out_port in_port max_len)"
    using assms(1) by (intro runs_output) (auto intro: runs_pure)
  ultimately have "(dp_step (- {in_port}))\<^sup>*\<^sup>* s (snd (output_packet rx r out_port in_port max_len s))"
    using assms(3) by (simp add: runs_def has_packet_def)
  then show ?thesis using dp_steps_transmit by fastforce
qed

definition holding :: "ethernet \<Rightarrow> switch" where
  "holding e = snd (new_packet e sample_switch)"

theorem output_spares_in_port_witness:
  "(\<exists>evs. sw_out (snd (output_packet (\<lambda>_ _. ret ()) 0 OFPP_FLOOD 1 None (holding sample_ping))) = sw_out (holding sample_ping) @ evs \<and>
     1 \<notin> set (transmitted evs)) \<and>
   transmitted (sw_out (snd (output_packet (\<lambda>_ _. ret ()) 0 OFPP_FLOOD 1 None (holding sample_ping)))) = [2]"
proof -
  have "transmitted (sw_out (snd (output_packet (\<lambda>_ _. ret ()) 0 OFPP_FLOOD 1 None (holding sample_ping)))) = [2]"
    by code_simp
  then show ?thesis
    using output_spares_in_port [of OFPP_FLOOD 0 "holding sample_ping" "\<lambda>_ _. ret ()" 1 None]
    by (simp add: OFPP_FLOOD_def OFPP_IN_PORT_def OFPP_TABLE_def holding_def new_packet_def)
qed

section \<open>Flow modifications\<close>

lemmas monad_defs = sbind_def gets_def modify_def lift_def ret_def raise_def

lemma remove_quietly:
  assumes "distinct (map te_id (sw_table s))"
  shows "table_remove_matching m pr strict out_port None s =
    (Inr (), s\<lparr>sw_table := filter (\<lambda>e. \<not> matched m (Some pr) strict out_port e) (sw_table s)\<rparr>)"
  using remove_specific_filter [OF assms, of "matched m (Some pr) strict out_port" None]
  by (simp add: table_remove_matching_def table_remove_def monad_defs matching_entries_filter removal_def
      handle_FlowTableModification_def split: if_splits)

lemma add_quietly: "table_add e s = (Inr (), s\<lparr>sw_table := fst (add_entry e (sw_table s))\<rparr>)"
  by (simp add: table_add_def monad_defs add_entry_def Let_def handle_FlowTableModification_def)

lemma reachable_wf: "reachable depth s \<Longrightarrow> table_wf (sw_table s)"
  using tbl.steps_inv table_wf_steps [of "[]"] by (fastforce simp: table_wf_def)

definition exact_match :: "ofp_flow_mod \<Rightarrow> TableEntry \<Rightarrow> bool" where
  "exact_match fm = matched (fm_match fm) (Some (fm_priority fm)) True None"

lemma flow_mod_add_eq:
  assumes "distinct (map te_id (sw_table s))" "fm_command fm = OFPFC_ADD" "fm_flags fm AND OFPFF_EMERG = 0"
    and "check_for_overlapping_entry (sw_table s) (from_flow_mod (sw_next_id s) (sw_now s) fm) = Inr b"
  shows "flow_mod_add fm s =
    (let s1 = s\<lparr>sw_next_id := sw_next_id s + 1\<rparr>; t = filter (\<lambda>e. \<not> exact_match fm e) (sw_table s) in
     if fm_flags fm AND OFPFF_CHECK_OVERLAP \<noteq> 0 \<and> b then flow_mod_failed OFPFMFC_OVERLAP fm s1
     else if sw_max_entries s \<le> int (length t) then flow_mod_failed OFPFMFC_ALL_TABLES_FULL fm (s1\<lparr>sw_table := t\<rparr>)
     else (Inr (), s1\<lparr>sw_table := fst (add_entry (from_flow_mod (sw_next_id s) (sw_now s) fm) t)\<rparr>))"
  using assms
  by (simp add: flow_mod_add_def new_entry_id_def monad_defs Let_def add_quietly remove_quietly exact_match_def)

lemma overlap_total: "\<exists>b. check_for_overlapping_entry t e = Inr b"
proof -
  have "\<exists>b. overlap_loop p e t = Inr b" for p
    by (induction t) (auto simp: is_matched_by_total)
  then show ?thesis by (simp add: check_for_overlapping_entry_def)
qed

text \<open>
  C16. An accepted ADD (no emergency flag, no overlap where the check is asked for, room in the table once the entries
  with the same match and priority are gone) replaces exactly those entries: they are taken out without notice, the new
  entry is put behind the entries of higher effective priority and in front of its equals, nothing is sent and nothing else
  of the switch changes but the entry counter.
\<close>

theorem flow_mod_add_replaces:
  assumes "reachable depth s" "fm_command fm = OFPFC_ADD" "fm_flags fm AND OFPFF_EMERG = 0"
    and "fm_flags fm AND OFPFF_CHECK_OVERLAP \<noteq> 0 \<Longrightarrow>
      check_for_overlapping_entry (sw_table s) (from_flow_mod (sw_next_id s) (sw_now s) fm) = Inr False"
    and "int (length (filter (\<lambda>e. \<not> exact_match fm e) (sw_table s))) < sw_max_entries s"
  defines "e \<equiv> from_flow_mod (sw_next_id s) (sw_now s) fm" and "kept \<equiv> filter (\<lambda>e. \<not> exact_match fm e) (sw_table s)"
  shows "flow_mod_add fm s = (Inr (), s\<lparr>sw_next_id := sw_next_id s + 1,
    sw_table := takeWhile (\<lambda>x. effective_priority e < effective_priority x) kept @
      e # dropWhile (\<lambda>x. effective_priority e < effective_priority x) kept\<rparr>)"
proof -
  obtain b where b: "check_for_overlapping_entry (sw_table s) (from_flow_mod (sw_next_id s) (sw_now s) fm) = Inr b"
    using overlap_total by blast
  have wf: "table_wf (sw_table s)" using reachable_wf [OF assms(1)] .
  then have "ordered effective_priority kept" by (auto simp: table_wf_def kept_def)
  then have place: "fst (add_entry e kept) = takeWhile (\<lambda>x. effective_priority e < effective_priority x) kept @
      e # dropWhile (\<lambda>x. effective_priority e < effective_priority x) kept"
    by (rule add_entry_place)
  show ?thesis
    unfolding place [symmetric] using flow_mod_add_eq [OF _ assms(2,3) b] wf assms(4,5) b
    by (cases "fm_flags fm AND OFPFF_CHECK_OVERLAP = 0") (simp_all add: table_wf_def e_def kept_def)
qed

definition flow_80 :: ofp_flow_mod where
  "flow_80 = ofp_flow_mod_init\<lparr>fm_match := ofp_match_init, fm_priority := 80, fm_idle_timeout := 60\<rparr>"

lemma reachable_step: "reachable depth s \<Longrightarrow> switch_step depth s t \<Longrightarrow> reachable depth t"
  by (meson rtranclp.rtrancl_into_rtrancl)

text \<open>A connected switch with three entries, two of the same priority.\<close>

definition flow_on_port :: "int \<Rightarrow> int \<Rightarrow> ofp_flow_mod" where
  "flow_on_port n prio = flow_80\<lparr>fm_match := (case set_in_port (Some n) ofp_match_init of Inr m \<Rightarrow> m | Inl _ \<Rightarrow> ofp_match_init), fm_priority := prio\<rparr>"

definition filled_switch :: switch where
  "filled_switch = snd (rx_message 5 (MFlowMod (flow_on_port 2 80)) (snd (rx_message 5 (MFlowMod (flow_on_port 1 80))
     (snd (rx_message 5 (MFlowMod (flow_on_port 1 90)) (snd (set_connection sample_switch)))))))"

lemma reachable_filled: "reachable 5 filled_switch"
  unfolding filled_switch_def
  by (intro reachable_step [OF _ switch_step.message] reachable_step [OF reachable_sample switch_step.connect])

lemma filled_table: "map (\<lambda>e. (te_id e, te_priority e)) (sw_table filled_switch) = [(0, 90), (2, 80), (1, 80)]"
  by code_simp

theorem flow_mod_add_replaces_witness:
  "fst (flow_mod_add (flow_on_port 1 80) filled_switch) = Inr () \<and>
   map te_id (sw_table (snd (flow_mod_add (flow_on_port 1 80) filled_switch))) = [0, 3, 2]"
proof -
  let ?fm = "flow_on_port 1 80"
  let ?e = "from_flow_mod (sw_next_id filled_switch) (sw_now filled_switch) ?fm"
  let ?kept = "filter (\<lambda>e. \<not> exact_match ?fm e) (sw_table filled_switch)"
  let ?P = "\<lambda>x. effective_priority ?e < effective_priority x"
  have 1: "fm_command ?fm = OFPFC_ADD" "fm_flags ?fm AND OFPFF_EMERG = 0" "fm_flags ?fm AND OFPFF_CHECK_OVERLAP = 0"
    "int (length ?kept) < sw_max_entries filled_switch"
    by code_simp+
  have 2: "map te_id (takeWhile ?P ?kept @ ?e # dropWhile ?P ?kept) = [0, 3, 2]" by code_simp
  show ?thesis using flow_mod_add_replaces [OF reachable_filled 1(1,2) _ 1(4)] 1(3) 2 by simp
qed

text \<open>An error message on the wire: what the controller reads back.\<close>

definition reports_error :: "int \<Rightarrow> int \<Rightarrow> bytes \<Rightarrow> bool" where
  "reports_error t c bs \<longleftrightarrow>
     (\<exists>err. (make_type_to_unpacker_table ! 1) bs 0 = Inr (int (length bs), MError err) \<and> er_type err = t \<and> er_code err = c)"

lemma ofp_error_pack_fields:
  "ofp_error_pack g m = Inr (bs, m', g') \<Longrightarrow> er_type m' = er_type m \<and> er_code m' = er_code m"
  by (auto simp: ofp_error_pack_def codec_dest elim!: rbindE dest!: ofp_header_xid_eq)

lemma error_reported:
  assumes "message_pack g (MError m) = Inr (bs, m', g')" "hdr_type m = 1"
  shows "reports_error (er_type m) (er_code m) bs"
proof -
  obtain e where e: "ofp_error_pack g m = Inr (bs, e, g')" "m' = MError e"
    using assms by (auto elim!: rbindE)
  have "(make_type_to_unpacker_table ! nat (message_type (MError m))) bs 0 = Inr (0 + int (length bs), message_received m')"
    using assms by (intro message_unpack_pack) (auto simp: chunk_whole)
  then show ?thesis
    using e ofp_error_pack_fields [OF e(1)] assms(2) by (simp add: reports_error_def)
qed

lemma send_error_effect:
  "sw_table (snd (send_error t c ofp s)) = sw_table s \<and>
   (sw_connected s \<and> fst (send_error t c ofp s) = Inr () \<longrightarrow>
      (\<exists>bs. sw_out (snd (send_error t c ofp s)) = sw_out s @ [Sent bs] \<and> reports_error t c bs))"
proof -
  have "sw_table (snd (connection_send m s)) = sw_table s" for m s
    by (simp add: connection_send_def split: sum.split)
  moreover have "\<exists>bs. sw_out (snd (connection_send (MError m) s)) = out @ [Sent bs] \<and> reports_error t c bs"
    if "fst (connection_send (MError m) s) = Inr ()" "hdr_type m = 1" "er_type m = t" "er_code m = c" "sw_out s = out"
    for m s out
    using that error_reported [of "sw_xid s" m] by (auto simp: connection_send_def split: sum.splits)
  ultimately show ?thesis
    by (auto simp: send_error_def send_def monad_defs msg_xid_def msg_pack_def Let_def ofp_error_init_def
        split: option.splits sum.splits prod.splits)
qed

definition add_refusal :: "ofp_flow_mod \<Rightarrow> switch \<Rightarrow> int option" where
  "add_refusal fm s =
     (if fm_flags fm AND OFPFF_EMERG \<noteq> 0 then
        Some (if fm_idle_timeout fm \<noteq> 0 \<or> fm_hard_timeout fm \<noteq> 0 then OFPFMFC_BAD_EMERG_TIMEOUT
              else if fm_flags fm AND OFPFF_SEND_FLOW_REM \<noteq> 0 then OFPFMFC_EPERM else OFPFMFC_ALL_TABLES_FULL)
      else if fm_flags fm AND OFPFF_CHECK_OVERLAP \<noteq> 0 \<and>
        check_for_overlapping_entry (sw_table s) (from_flow_mod (sw_next_id s) (sw_now s) fm) = Inr True
      then Some OFPFMFC_OVERLAP
      else if sw_max_entries s \<le> int (length (filter (\<lambda>e. \<not> exact_match fm e) (sw_table s)))
      then Some OFPFMFC_ALL_TABLES_FULL else None)"

text \<open>
  C23. An ADD that is refused tells the controller the reason that fits: emergency flows are refused for their timeouts,
  for asking to be notified, or because they are not supported; then overlaps; then a full table. The table stays as it
  is, except that a table which is too full even without the entries that were to be replaced loses these entries. On a
  connection the one message that goes out, unless the error itself cannot be packed, reads back as a flow-mod error with
  that code.
\<close>

theorem flow_mod_add_refused:
  assumes "reachable depth s" "fm_command fm = OFPFC_ADD" "add_refusal fm s = Some code"
  shows "sw_table (snd (flow_mod_add fm s)) =
      (if code = OFPFMFC_ALL_TABLES_FULL \<and> fm_flags fm AND OFPFF_EMERG = 0
       then filter (\<lambda>e. \<not> exact_match fm e) (sw_table s) else sw_table s) \<and>
    (sw_connected s \<and> fst (flow_mod_add fm s) = Inr () \<longrightarrow>
      (\<exists>bs. sw_out (snd (flow_mod_add fm s)) = sw_out s @ [Sent bs] \<and> reports_error OFPET_FLOW_MOD_FAILED code bs))"
proof -
  let ?t = "if code = OFPFMFC_ALL_TABLES_FULL \<and> fm_flags fm AND OFPFF_EMERG = 0
       then filter (\<lambda>e. \<not> exact_match fm e) (sw_table s) else sw_table s"
  obtain b where b: "check_for_overlapping_entry (sw_table s) (from_flow_mod (sw_next_id s) (sw_now s) fm) = Inr b"
    using overlap_total by blast
  have d: "distinct (map te_id (sw_table s))" using reachable_wf [OF assms(1)] by (simp add: table_wf_def)
  obtain i where "flow_mod_add fm s = flow_mod_failed code fm (s\<lparr>sw_next_id := i, sw_table := ?t\<rparr>)"
  proof (cases "fm_flags fm AND OFPFF_EMERG = 0")
    case True
    have "OFPFMFC_OVERLAP \<noteq> OFPFMFC_ALL_TABLES_FULL" by (simp add: OFPFMFC_OVERLAP_def OFPFMFC_ALL_TABLES_FULL_def)
    then have "flow_mod_add fm s = flow_mod_failed code fm (s\<lparr>sw_next_id := Suc (sw_next_id s), sw_table := ?t\<rparr>)"
      using flow_mod_add_eq [OF d assms(2) True b] assms(3) b True
      by (cases b; cases "fm_flags fm AND OFPFF_CHECK_OVERLAP = 0") (auto simp: add_refusal_def Let_def split: if_splits)
    then show thesis by (rule that)
  next
    case False
    then have "flow_mod_add fm s = flow_mod_failed code fm (s\<lparr>sw_next_id := sw_next_id s, sw_table := ?t\<rparr>)"
      using assms(3) by (auto simp: flow_mod_add_def add_refusal_def)
    then show thesis by (rule that)
  qed
  then show ?thesis
    using send_error_effect [of OFPET_FLOW_MOD_FAILED code "Some (MFlowMod fm)" "s\<lparr>sw_next_id := i, sw_table := ?t\<rparr>"]
    by (simp add: flow_mod_failed_def)
qed

theorem flow_mod_add_refused_witness:
  "\<exists>bs. map te_id (sw_table (snd (flow_mod_add (flow_on_port 1 80\<lparr>fm_flags := 2\<rparr>) filled_switch))) = [0, 2, 1] \<and>
     sw_out (snd (flow_mod_add (flow_on_port 1 80\<lparr>fm_flags := 2\<rparr>) filled_switch)) = [Sent bs] \<and>
     reports_error OFPET_FLOW_MOD_FAILED OFPFMFC_OVERLAP bs"
proof -
  let ?fm = "flow_on_port 1 80\<lparr>fm_flags := 2\<rparr>"
  have "fm_command ?fm = OFPFC_ADD" "add_refusal ?fm filled_switch = Some OFPFMFC_OVERLAP" by code_simp+
  note t = flow_mod_add_refused [OF reachable_filled this]
  have "sw_connected filled_switch" "fst (flow_mod_add ?fm filled_switch) = Inr ()" "sw_out filled_switch = []"
    "OFPFMFC_OVERLAP \<noteq> OFPFMFC_ALL_TABLES_FULL" "map te_id (sw_table filled_switch) = [0, 2, 1]"
    by code_simp+
  with t show ?thesis by simp
qed

text \<open>
  MODIFY changes the actions of the entries it covers and nothing else of them or of any other entry, so that the
  order, the counters and the timeouts stay; only when it covers none it acts as an ADD.
\<close>

theorem flow_mod_modify_exact:
  "flow_mod_modify strict fm s =
     (let hit = matched (fm_match fm) (Some (fm_priority fm)) strict None in
      if \<exists>e\<in>set (sw_table s). hit e
      then (Inr (), s\<lparr>sw_table := map (\<lambda>e. if hit e then e\<lparr>te_actions := fm_actions fm\<rparr> else e) (sw_table s)\<rparr>)
      else flow_mod_add fm s)"
  by (rule flow_mod_modify_eq)

subsection \<open>Removal and its announcement\<close>

definition announces :: "int \<Rightarrow> int \<Rightarrow> TableEntry \<Rightarrow> bytes \<Rightarrow> bool" where
  "announces now reason e bs \<longleftrightarrow>
     (\<exists>g m' g'. message_pack g (MFlowRemoved (to_flow_removed e now reason)) = Inr (bs, m', g'))"

definition announce :: "int \<Rightarrow> TableEntry \<Rightarrow> unit sw" where
  "announce reason entry =
     (if wants_removed entry
      then sbind (gets sw_now) (\<lambda>now. send (MFlowRemoved (to_flow_removed entry now reason)))
      else ret ())"

text \<open>The state after announcing \<open>es\<close>: messages went out in order, one for each entry that asked, and nothing else.\<close>

definition announced :: "int \<Rightarrow> TableEntry list \<Rightarrow> switch \<Rightarrow> unit res \<times> switch \<Rightarrow> bool" where
  "announced reason es s r \<longleftrightarrow>
     (\<exists>g bss. snd r = s\<lparr>sw_xid := g, sw_out := sw_out s @ map Sent bss\<rparr> \<and>
       (fst r = Inr () \<and> sw_connected s \<longrightarrow> list_all2 (announces (sw_now s) reason) (filter wants_removed es) bss))"

lemma announce_one: "announced reason [e] s (announce reason e s)"
proof (cases "wants_removed e \<and> sw_connected s")
  case True
  show ?thesis
  proof (cases "message_pack (sw_xid s) (MFlowRemoved (to_flow_removed e (sw_now s) reason))")
    case (Inl x)
    with True show ?thesis
      by (auto simp: announced_def announce_def send_def connection_send_def monad_defs
          intro!: exI [of _ "sw_xid s"] exI [of _ "[]"])
  next
    case (Inr r)
    obtain bs m' g where r: "r = (bs, m', g)" by (cases r) auto
    then have "announces (sw_now s) reason e bs" using Inr unfolding announces_def by blast
    with True Inr r show ?thesis
      by (auto simp: announced_def announce_def send_def connection_send_def monad_defs
          intro!: exI [of _ g] exI [of _ "[bs]"])
  qed
qed (auto simp: announced_def announce_def send_def monad_defs intro!: exI [of _ "sw_xid s"] exI [of _ "[]"])

lemma announce_all: "announced reason es s (for_each (announce reason) es s)"
proof (induction es arbitrary: s)
  case Nil
  show ?case by (auto simp: announced_def ret_def intro!: exI [of _ "sw_xid s"] exI [of _ "[]"])
next
  case (Cons e es)
  obtain g bss where one: "snd (announce reason e s) = s\<lparr>sw_xid := g, sw_out := sw_out s @ map Sent bss\<rparr>"
    "fst (announce reason e s) = Inr () \<and> sw_connected s \<longrightarrow> list_all2 (announces (sw_now s) reason) (filter wants_removed [e]) bss"
    using announce_one [of reason e s] by (auto simp: announced_def)
  let ?s = "s\<lparr>sw_xid := g, sw_out := sw_out s @ map Sent bss\<rparr>"
  obtain h css where rest: "snd (for_each (announce reason) es ?s) = ?s\<lparr>sw_xid := h, sw_out := sw_out ?s @ map Sent css\<rparr>"
    "fst (for_each (announce reason) es ?s) = Inr () \<and> sw_connected s \<longrightarrow> list_all2 (announces (sw_now s) reason) (filter wants_removed es) css"
    using Cons.IH [of ?s] by (auto simp: announced_def)
  show ?case
  proof (cases "fst (announce reason e s)")
    case (Inl x)
    then show ?thesis using one by (auto simp: announced_def sbind_def split: prod.splits intro!: exI [of _ g] exI [of _ bss])
  next
    case (Inr u)
    then have "for_each (announce reason) (e # es) s = for_each (announce reason) es ?s"
      using one by (auto simp: sbind_def split: prod.splits)
    moreover have "list_all2 (announces (sw_now s) reason) (filter wants_removed (e # es)) (bss @ css)"
      if "fst (for_each (announce reason) es ?s) = Inr ()" "sw_connected s"
      using list_all2_appendI [of _ "filter wants_removed [e]" bss "filter wants_removed es" css] one rest that Inr
      by (auto split: if_splits)
    ultimately show ?thesis
      using rest by (auto simp: announced_def intro!: exI [of _ h] exI [of _ "bss @ css"])
  qed
qed

lemma remove_filter:
  assumes "distinct (map te_id (sw_table s))" "reason \<in> {OFPRR_IDLE_TIMEOUT, OFPRR_HARD_TIMEOUT, OFPRR_DELETE}"
  shows "table_remove (filter P (sw_table s)) (Some reason) s =
    for_each (announce reason) (filter P (sw_table s)) (s\<lparr>sw_table := filter (\<lambda>e. \<not> P e) (sw_table s)\<rparr>)"
proof -
  let ?P = "filter P (sw_table s)" and ?s = "s\<lparr>sw_table := filter (\<lambda>e. \<not> P e) (sw_table s)\<rparr>"
  have a: "announce reason = (\<lambda>entry. if wants_removed entry
      then sbind (gets sw_now) (\<lambda>now. send (MFlowRemoved (to_flow_removed entry now reason))) else ret ())"
    by (simp add: announce_def fun_eq_iff)
  have "sbind m (\<lambda>_. ret ()) = m" for m :: "unit sw"
    by (auto simp: sbind_def ret_def fun_eq_iff split: prod.split sum.split)
  then have "for_each handle_FlowTableModification (removal ?P (Some reason)) = for_each (announce reason) ?P"
    using assms(2) by (simp add: removal_def handle_FlowTableModification_def a)
  moreover have "table_remove ?P (Some reason) s = for_each handle_FlowTableModification (removal ?P (Some reason)) ?s"
    using remove_specific_filter [OF assms(1), of P "Some reason"]
    by (simp add: table_remove_def sbind_def gets_def lift_def modify_def)
  ultimately show ?thesis by simp
qed

definition deleted_by :: "bool \<Rightarrow> ofp_flow_mod \<Rightarrow> TableEntry \<Rightarrow> bool" where
  "deleted_by strict fm = matched (fm_match fm) (Some (fm_priority fm)) strict
     (if fm_out_port fm = OFPP_NONE then None else Some (fm_out_port fm))"

text \<open>
  C21. DELETE removes exactly the entries it covers (by match, by priority when strict, by output port when one is named)
  and keeps the order of the others, whether or not an announcement fails; on a connection the entries that asked for it
  are announced, in table order, each with its own message, and nothing else changes.
\<close>

theorem flow_mod_delete_exact:
  assumes "reachable depth s"
  shows "announced OFPRR_DELETE (filter (deleted_by strict fm) (sw_table s))
    (s\<lparr>sw_table := filter (\<lambda>e. \<not> deleted_by strict fm e) (sw_table s)\<rparr>) (flow_mod_delete strict fm s)"
proof -
  let ?hit = "deleted_by strict fm"
  have "distinct (map te_id (sw_table s))" using reachable_wf [OF assms(1)] by (simp add: table_wf_def)
  from remove_filter [OF this, of OFPRR_DELETE ?hit]
  have "flow_mod_delete strict fm s = for_each (announce OFPRR_DELETE) (filter ?hit (sw_table s))
      (s\<lparr>sw_table := filter (\<lambda>e. \<not> ?hit e) (sw_table s)\<rparr>)"
    unfolding deleted_by_def
    by (simp add: flow_mod_delete_def table_remove_matching_def Let_def matching_entries_filter sbind_def gets_def lift_def)
  then show ?thesis by (simp add: announce_all)
qed

text \<open>
  C22. The expiry timer removes exactly the entries whose idle or hard timeout has run out: if no announcement fails, the
  table is what \<^verbatim>\<open>remove_expired_entries\<close> leaves, and the idle ones are announced before the hard ones, each group in
  table order and under its own reason.
\<close>

theorem expire_timer_exact:
  assumes "reachable depth s" "fst (expire_timer s) = Inr ()"
  shows "sw_table (snd (expire_timer s)) = filter (\<lambda>e. \<not> is_expired e (sw_now s)) (sw_table s) \<and>
    (sw_connected s \<longrightarrow> (\<exists>bss css. sw_out (snd (expire_timer s)) = sw_out s @ map Sent (bss @ css) \<and>
       list_all2 (announces (sw_now s) OFPRR_IDLE_TIMEOUT) (filter wants_removed (idle_entries (sw_now s) (sw_table s))) bss \<and>
       list_all2 (announces (sw_now s) OFPRR_HARD_TIMEOUT) (filter wants_removed (hard_entries (sw_now s) (sw_table s))) css))"
proof -
  let ?now = "sw_now s" and ?t = "sw_table s"
  let ?I = "\<lambda>e. is_idle_timed_out e ?now" and ?H = "\<lambda>e. is_hard_timed_out e ?now"
  let ?s1 = "s\<lparr>sw_table := filter (\<lambda>e. \<not> ?I e) ?t\<rparr>"
  have d: "distinct (map te_id ?t)" using reachable_wf [OF assms(1)] by (simp add: table_wf_def)
  let ?a = "for_each (announce OFPRR_IDLE_TIMEOUT) (filter ?I ?t) ?s1"
  obtain g bss where a: "snd ?a = ?s1\<lparr>sw_xid := g, sw_out := sw_out s @ map Sent bss\<rparr>"
    "fst ?a = Inr () \<and> sw_connected s \<longrightarrow> list_all2 (announces ?now OFPRR_IDLE_TIMEOUT) (filter wants_removed (filter ?I ?t)) bss"
    using announce_all [of OFPRR_IDLE_TIMEOUT "filter ?I ?t" ?s1] by (auto simp: announced_def)
  let ?s2 = "snd ?a"
  have e: "expire_timer s = (case fst ?a of Inl x \<Rightarrow> (Inl x, ?s2) | Inr _ \<Rightarrow> table_remove (hard_entries ?now ?t) (Some OFPRR_HARD_TIMEOUT) ?s2)"
    using remove_filter [OF d, of OFPRR_IDLE_TIMEOUT ?I]
    by (auto simp: expire_timer_def sbind_def gets_def idle_entries_def split: prod.splits sum.splits)
  have h: "hard_entries ?now ?t = filter ?H (sw_table ?s2)" "distinct (map te_id (sw_table ?s2))"
    using d by (auto simp: hard_entries_def a(1) distinct_map_filter intro!: filter_cong)
  let ?s3 = "?s2\<lparr>sw_table := filter (\<lambda>e. \<not> ?H e) (sw_table ?s2)\<rparr>"
  have r: "table_remove (hard_entries ?now ?t) (Some OFPRR_HARD_TIMEOUT) ?s2 =
      for_each (announce OFPRR_HARD_TIMEOUT) (hard_entries ?now ?t) ?s3"
    using remove_filter [OF h(2), of OFPRR_HARD_TIMEOUT ?H] h(1) by simp
  have t: "sw_table ?s3 = filter (\<lambda>e. \<not> is_expired e ?now) ?t"
    by (auto simp: a(1) is_expired_def intro!: filter_cong)
  have ok: "fst ?a = Inr ()" "expire_timer s = for_each (announce OFPRR_HARD_TIMEOUT) (hard_entries ?now ?t) ?s3"
    using assms(2) e r by (auto split: sum.splits)
  obtain k css where c: "snd (expire_timer s) = ?s3\<lparr>sw_xid := k, sw_out := sw_out ?s3 @ map Sent css\<rparr>"
    "sw_connected ?s3 \<longrightarrow> list_all2 (announces (sw_now ?s3) OFPRR_HARD_TIMEOUT) (filter wants_removed (hard_entries ?now ?t)) css"
    using announce_all [of OFPRR_HARD_TIMEOUT "hard_entries ?now ?t" ?s3] assms(2) unfolding announced_def ok(2) by blast
  have "sw_out (snd (expire_timer s)) = sw_out s @ map Sent (bss @ css)" using c(1) by (simp add: a(1))
  moreover have "sw_connected s \<longrightarrow> list_all2 (announces ?now OFPRR_HARD_TIMEOUT) (filter wants_removed (hard_entries ?now ?t)) css"
    using c(2) by (simp add: a(1))
  moreover have "sw_table (snd (expire_timer s)) = filter (\<lambda>e. \<not> is_expired e ?now) ?t" using c(1) t by simp
  ultimately show ?thesis using a(2) ok(1) unfolding idle_entries_def by blast
qed

text \<open>The sample switch once a controller has connected and added a flow, and a minute later.\<close>

definition sample_flows :: switch where
  "sample_flows = snd (rx_message 5 (MFlowMod flow_80) sample_switch)"

definition sample_later :: switch where
  "sample_later = sample_flows\<lparr>sw_now := sw_now sample_flows + 61000000000\<rparr>"

lemma reachable_flows: "reachable 5 sample_flows"
  unfolding sample_flows_def by (rule reachable_step [OF reachable_sample switch_step.message])

lemma reachable_later: "reachable 5 sample_later"
  unfolding sample_later_def by (rule reachable_step [OF reachable_flows switch_step.tick]) simp

theorem flow_mod_delete_exact_witness:
  "announced OFPRR_DELETE (filter (deleted_by True flow_80) (sw_table sample_flows))
    (sample_flows\<lparr>sw_table := filter (\<lambda>e. \<not> deleted_by True flow_80 e) (sw_table sample_flows)\<rparr>)
    (flow_mod_delete True flow_80 sample_flows) \<and>
   length (filter (deleted_by True flow_80) (sw_table sample_flows)) = 1"
proof
  show "length (filter (deleted_by True flow_80) (sw_table sample_flows)) = 1" by code_simp
qed (rule flow_mod_delete_exact [OF reachable_flows])

theorem expire_timer_exact_witness:
  "sw_table (snd (expire_timer sample_later)) = filter (\<lambda>e. \<not> is_expired e (sw_now sample_later)) (sw_table sample_later) \<and>
   length (sw_table sample_later) = 1 \<and> sw_table (snd (expire_timer sample_later)) = []"
proof -
  have "fst (expire_timer sample_later) = Inr ()" "length (sw_table sample_later) = 1"
    "sw_table (snd (expire_timer sample_later)) = []"
    by code_simp+
  then show ?thesis using expire_timer_exact [OF reachable_later] by simp
qed

section \<open>Buffered packets\<close>

lemma first_empty_None: "first_empty i xs = Some j \<Longrightarrow> xs ! (j - i) = None"
proof (induction xs arbitrary: i)
  case (Cons x xs)
  then show ?case using first_empty_less [of "i + 1" xs j] by (cases x) (auto simp: nth_Cons' Suc_diff_le)
qed simp

text \<open>
  A packet that gets a buffer id is kept under it: the id is that of a slot of the buffer which was free or new, no
  slot in use is overwritten, and nothing but the buffer changes.
\<close>

theorem buffered_packet_kept:
  assumes "buffer_packet r p s = (Inr (Some b), t)"
  shows "0 < b \<and> b \<le> int (length (sw_buffer t)) \<and> sw_buffer t ! nat (b - 1) = Some (r, p) \<and>
    (\<forall>i < length (sw_buffer s). sw_buffer s ! i \<noteq> None \<longrightarrow> sw_buffer t ! i = sw_buffer s ! i) \<and>
    t = s\<lparr>sw_buffer := sw_buffer t\<rparr>"
proof (cases "first_empty 0 (sw_buffer s)")
  case None
  with assms show ?thesis by (auto simp: buffer_packet_def nth_append split: if_splits)
next
  case (Some i)
  then show ?thesis
    using assms first_empty_less [OF Some] first_empty_None [OF Some]
    by (auto simp: buffer_packet_def nth_list_update)
qed

theorem buffered_packet_kept_witness:
  "sw_buffer (snd (buffer_packet 0 1 (holding sample_ping))) ! 0 = Some (0, 1)"
proof -
  have "buffer_packet 0 1 (holding sample_ping) = (Inr (Some 1), snd (buffer_packet 0 1 (holding sample_ping)))"
    by (rule prod_eqI, code_simp, rule snd_conv [symmetric])
  from buffered_packet_kept [OF this] show ?thesis by simp
qed

lemma dp_steps_buffer_length:
  assumes "(dp_step A)\<^sup>*\<^sup>* s t"
  shows "length (sw_buffer s) \<le> length (sw_buffer t)"
  using assms
proof (induction rule: rtranclp_induct)
  case (step t u)
  from step.hyps(2) have "length (sw_buffer t) \<le> length (sw_buffer u)"
  proof cases
    case (buffered r p)
    then show ?thesis by (cases rule: buffer_packet_cases [of t r p]) auto
  qed auto
  with step.IH show ?case by simp
qed simp

lemma from_buffer_eq:
  "process_actions_from_buffer depth actions b ofp s =
     (if b \<le> 0 \<or> int (length (sw_buffer s)) < b then (Inr (), s)
      else case sw_buffer s ! nat (b - 1) of
        None \<Rightarrow> (Inr (), s)
      | Some (r, p) \<Rightarrow>
          (case process_actions (rx_nested depth) actions r p ofp s of
             (Inl e, t) \<Rightarrow> (Inl e, t)
           | (Inr _, t) \<Rightarrow> (Inr (), t\<lparr>sw_buffer := (sw_buffer t)[nat (b - 1) := None]\<rparr>)))"
  by (auto simp: process_actions_from_buffer_def Let_def monad_defs split: option.split sum.split prod.split)

text \<open>
  C28. A buffered packet is used once: after a request with its id has been carried out, a second one with the same id
  does nothing, whatever its actions.
\<close>

theorem buffer_used_once:
  assumes "reachable depth s" "process_actions_from_buffer depth actions b ofp s = (Inr (), t)"
  shows "process_actions_from_buffer depth' actions' b ofp' t = (Inr (), t)"
proof -
  have ok: "buffers_ok s" using assms(1) tbl.steps_inv by (auto simp: refs_ok_def)
  show ?thesis
  proof (cases "b \<le> 0 \<or> int (length (sw_buffer s)) < b \<or> sw_buffer s ! nat (b - 1) = None")
    case True
    then have "t = s" using assms(2) by (auto simp: from_buffer_eq split: if_splits)
    with True show ?thesis by (auto simp: from_buffer_eq)
  next
    case False
    then obtain r p where rp: "sw_buffer s ! nat (b - 1) = Some (r, p)" by auto
    then have "has_packet r s" using ok False nth_mem [of "nat (b - 1)" "sw_buffer s"] by (force simp: buffers_ok_def)
    then have "length (sw_buffer s) \<le> length (sw_buffer (snd (process_actions (rx_nested depth) actions r p ofp s)))"
      using runs_process_actions [of "rx_nested depth", OF runs_rx_nested, unfolded runs_def] dp_steps_buffer_length
      by blast
    with False rp assms(2) show ?thesis
      by (auto simp: from_buffer_eq split: prod.splits sum.splits)
  qed
qed

definition sample_buffered :: switch where
  "sample_buffered = snd (rx_packet 5 sample_ping 1 None sample_switch)"

lemma reachable_buffered: "reachable 5 sample_buffered"
  unfolding sample_buffered_def by (rule reachable_step [OF reachable_sample switch_step.packet])

theorem buffer_used_once_witness:
  "sw_buffer sample_buffered = [Some (0, 1)] \<and>
   (let t = snd (process_actions_from_buffer 5 [] 1 None sample_buffered) in
    process_actions_from_buffer 5 [] 1 None t = (Inr (), t))"
proof -
  let ?t = "snd (process_actions_from_buffer 5 [] 1 None sample_buffered)"
  have "fst (process_actions_from_buffer 5 [] 1 None sample_buffered) = Inr ()" and b: "sw_buffer sample_buffered = [Some (0, 1)]"
    by code_simp+
  then have "process_actions_from_buffer 5 [] 1 None sample_buffered = (Inr (), ?t)" by (simp add: prod_eq_iff)
  from buffer_used_once [OF reachable_buffered this] b show ?thesis by simp
qed

text \<open>
  C25. The packet buffer of a reachable switch never has more slots than \<^verbatim>\<open>max_buffers\<close>, and every slot in use refers to
  an existing packet.
\<close>

theorem reachable_buffers:
  assumes "reachable depth s"
  shows "length (sw_buffer s) \<le> nat (sw_max_buffers s) \<and>
    (\<forall>r p. Some (r, p) \<in> set (sw_buffer s) \<longrightarrow> r < length (sw_packets s))"
  using assms buf.steps_inv by (fastforce simp: buffers_bounded_def refs_ok_def buffers_ok_def has_packet_def)

theorem reachable_buffers_witness:
  "sw_buffer sample_buffered = [Some (0, 1)] \<and> 1 \<le> nat (sw_max_buffers sample_buffered) \<and>
   0 < length (sw_packets sample_buffered)"
proof -
  have b: "sw_buffer sample_buffered = [Some (0, 1)]" by code_simp
  from reachable_buffers [OF reachable_buffered] show ?thesis unfolding b by auto
qed

section \<open>Port modifications\<close>

lemma bit_set_config: "bit ((c AND NOT (push_bit i 1)) OR (v AND push_bit i 1)) j \<longleftrightarrow> (if j = i then bit v i else bit c j)"
  for c v :: int
  by (auto simp: bit_simps)

definition handled_bits :: "nat set" where
  "handled_bits = {0, 2, 3, 4, 5, 6}"

lemma handled_bit:
  "push_bit i 1 \<noteq> OFPPC_NO_STP \<and> push_bit i 1 \<in> {OFPPC_PORT_DOWN, OFPPC_NO_STP, OFPPC_NO_RECV, OFPPC_NO_RECV_STP,
     OFPPC_NO_FLOOD, OFPPC_NO_FWD, OFPPC_NO_PACKET_IN} \<longleftrightarrow> i \<in> handled_bits"
proof -
  have "push_bit i (1::int) = 2 ^ k \<longleftrightarrow> i = k" for k by (simp add: push_bit_eq_mult)
  from this [of 0] this [of 1] this [of 2] this [of 3] this [of 4] this [of 5] this [of 6] show ?thesis
    by (auto simp: handled_bits_def OFPPC_PORT_DOWN_def OFPPC_NO_STP_def OFPPC_NO_RECV_def OFPPC_NO_RECV_STP_def
        OFPPC_NO_FLOOD_def OFPPC_NO_FWD_def OFPPC_NO_PACKET_IN_def)
qed

text \<open>The port status that announces the port at \<open>n\<close> cannot be packed.\<close>

definition unannounceable :: "int \<Rightarrow> py_error \<Rightarrow> switch \<Rightarrow> bool" where
  "unannounceable n e s \<longleftrightarrow> sw_connected s \<and> (\<exists>q. map_of (sw_ports s) n = Some q \<and>
     message_pack (sw_xid s) (MPortStatus (ofp_port_status_init\<lparr>ps_desc := q, ps_reason := OFPPR_MODIFY\<rparr>)) = Inl e)"

text \<open>What one bit of the mask does: the port at \<open>n\<close> takes that bit of \<open>v\<close>, everything else about the ports stays.\<close>

definition bit_done :: "int \<Rightarrow> nat set \<Rightarrow> int \<Rightarrow> (int \<times> ofp_phy_port) list \<Rightarrow> (int \<times> ofp_phy_port) list \<Rightarrow> bool" where
  "bit_done n B v ps qs \<longleftrightarrow>
     (\<forall>k. k \<noteq> n \<longrightarrow> map_of qs k = map_of ps k) \<and>
     (\<forall>p. map_of ps n = Some p \<longrightarrow> (\<exists>q. map_of qs n = Some q \<and>
        (\<forall>j. bit (pp_config q) j \<longleftrightarrow> (if j \<in> B then bit v j else bit (pp_config p) j))))"

lemma bit_done_refl: "bit_done n {} v ps ps"
  by (simp add: bit_done_def)

lemma bit_done_trans: "bit_done n B v ps qs \<Longrightarrow> bit_done n C v qs rs \<Longrightarrow> bit_done n (B \<union> C) v ps rs"
  unfolding bit_done_def by fastforce

lemma send_port_status_ports:
  "sw_ports (snd (send_port_status q r s)) = sw_ports s" "sw_connected (snd (send_port_status q r s)) = sw_connected s"
  "fst (send_port_status q OFPPR_MODIFY s) = Inl e \<Longrightarrow> map_of (sw_ports s) n = Some q \<Longrightarrow>
     unannounceable n e (snd (send_port_status q OFPPR_MODIFY s))"
  by (auto simp: send_port_status_def send_def connection_send_def monad_defs OFPPR_MODIFY_def unannounceable_def
      split: sum.splits if_splits)

lemma upd_assoc_twice: "upd_assoc n (\<lambda>_. a) (upd_assoc n (\<lambda>_. b) ps) = upd_assoc n (\<lambda>_. a) ps"
  by (auto simp: upd_assoc_def)

lemma set_port_config_bit_eq:
  assumes "map_of (sw_ports s) n = Some p" "phy_port_set_config v b p = (changed, q)" "b \<noteq> OFPPC_NO_STP"
    and "b \<in> {OFPPC_PORT_DOWN, OFPPC_NO_STP, OFPPC_NO_RECV, OFPPC_NO_RECV_STP, OFPPC_NO_FLOOD, OFPPC_NO_FWD, OFPPC_NO_PACKET_IN}"
  shows "set_port_config_bit n b v s =
    (if changed \<noteq> 0 \<and> b = OFPPC_PORT_DOWN then
       sbind (if pp_state q AND OFPPS_LINK_DOWN \<noteq> pp_state (link_state q) AND OFPPS_LINK_DOWN
              then send_port_status (link_state q) OFPPR_MODIFY else ret ()) (\<lambda>_. ret True)
         (s\<lparr>sw_ports := upd_assoc n (\<lambda>_. link_state q) (sw_ports s)\<rparr>)
     else (Inr True, s\<lparr>sw_ports := upd_assoc n (\<lambda>_. q) (sw_ports s)\<rparr>))"
  using assms(3,4)
  by (simp only: set_port_config_bit_def not_True_eq_False if_False simp_thms)
     (simp add: assms(1,2) get_port_def set_port_def sbind_def gets_def modify_def ret_def Let_def upd_assoc_twice
       del: insert_iff)

lemma set_port_config_bit_done:
  fixes v :: int and i :: nat
  assumes "map_of (sw_ports s) n = Some p"
  defines "r \<equiv> set_port_config_bit n (push_bit i 1) (v AND push_bit i 1) s"
  shows "sw_connected (snd r) = sw_connected s"
    and "fst r = Inl e \<Longrightarrow> unannounceable n e (snd r)"
    and "fst r = Inr h \<Longrightarrow> bit_done n ({i} \<inter> handled_bits) v (sw_ports s) (sw_ports (snd r))"
proof -
  let ?b = "push_bit i 1 :: int"
  define q where "q = p\<lparr>pp_config := (pp_config p AND NOT ?b) OR (v AND ?b)\<rparr>"
  have c: "phy_port_set_config (v AND ?b) ?b p = (pp_config p XOR pp_config q, q)" by (simp add: phy_port_set_config_def q_def Let_def)
  have fin: "bit_done n {i} v (sw_ports s) (upd_assoc n (\<lambda>_. q') (sw_ports s))" if "pp_config q' = pp_config q" for q'
    using that assms(1) bit_set_config [of "pp_config p" i v] by (auto simp: bit_done_def map_of_upd_assoc q_def option.map_id)
  have l: "pp_config (link_state q) = pp_config q" by (simp add: link_state_def Let_def)
  have "sw_connected (snd r) = sw_connected s \<and> (fst r = Inl e \<longrightarrow> unannounceable n e (snd r)) \<and>
    (fst r = Inr h \<longrightarrow> bit_done n ({i} \<inter> handled_bits) v (sw_ports s) (sw_ports (snd r)))"
  proof (cases "i \<in> handled_bits")
    case False
    then have "r = (Inr (?b = OFPPC_NO_STP), s)"
      using handled_bit [of i] by (auto simp: r_def set_port_config_bit_def ret_def)
    with False show ?thesis by (simp add: bit_done_refl)
  next
    case True
    then have h: "?b \<noteq> OFPPC_NO_STP" "?b \<in> {OFPPC_PORT_DOWN, OFPPC_NO_STP, OFPPC_NO_RECV, OFPPC_NO_RECV_STP,
        OFPPC_NO_FLOOD, OFPPC_NO_FWD, OFPPC_NO_PACKET_IN}"
      using handled_bit [of i] by blast+
    let ?t = "s\<lparr>sw_ports := upd_assoc n (\<lambda>_. q) (sw_ports s)\<rparr>" and ?u = "s\<lparr>sw_ports := upd_assoc n (\<lambda>_. link_state q) (sw_ports s)\<rparr>"
    have "r = (Inr True, ?t) \<or> r = (Inr True, ?u) \<or>
      r = sbind (send_port_status (link_state q) OFPPR_MODIFY) (\<lambda>_. ret True) ?u"
      unfolding r_def set_port_config_bit_eq [OF assms(1) c h]
      by (simp add: sbind_def [of "ret _"] ret_def [of "()"] ret_def [of True])
    moreover have "map_of (sw_ports ?u) n = Some (link_state q)" using assms(1) by (simp add: map_of_upd_assoc)
    ultimately show ?thesis
      using fin [of q] fin [of "link_state q"] l True send_port_status_ports(1,2) [of "link_state q" OFPPR_MODIFY ?u]
        send_port_status_ports(3) [of "link_state q" ?u _ n]
      by (auto simp: sbind_def ret_def split: prod.splits sum.splits)
  qed
  then show "sw_connected (snd r) = sw_connected s" "fst r = Inl e \<Longrightarrow> unannounceable n e (snd r)"
    "fst r = Inr h \<Longrightarrow> bit_done n ({i} \<inter> handled_bits) v (sw_ports s) (sw_ports (snd r))" by blast+
qed

lemma port_mod_bits_done:
  fixes m :: ofp_port_mod
  assumes "map_of (sw_ports s) n \<noteq> None"
  defines "step i \<equiv> let b = push_bit i 1 in
    if pm_mask m AND b \<noteq> 0 then sbind (set_port_config_bit n b (pm_config m AND b)) (\<lambda>_. ret ()) else ret ()"
  shows "case for_each step is s of (Inl e, t) \<Rightarrow> unannounceable n e t
    | (Inr _, t) \<Rightarrow> bit_done n ({i \<in> set is. bit (pm_mask m) i} \<inter> handled_bits) (pm_config m) (sw_ports s) (sw_ports t)"
  using assms(1)
proof (induction "is" arbitrary: s)
  case Nil
  then show ?case by (simp add: ret_def bit_done_refl)
next
  case (Cons i "is")
  then obtain p where p: "map_of (sw_ports s) n = Some p" by blast
  let ?r = "set_port_config_bit n (push_bit i 1) (pm_config m AND push_bit i 1) s"
  have one: "case step i s of (Inl e, t) \<Rightarrow> unannounceable n e t
      | (Inr _, t) \<Rightarrow> sw_connected t = sw_connected s \<and>
          bit_done n ((if bit (pm_mask m) i then {i} else {}) \<inter> handled_bits) (pm_config m) (sw_ports s) (sw_ports t)"
  proof (cases "bit (pm_mask m) i")
    case True
    then have "step i s = (case ?r of (Inl e, t) \<Rightarrow> (Inl e, t) | (Inr _, t) \<Rightarrow> (Inr (), t))"
      by (simp add: step_def sbind_def ret_def bit_iff_and_push_bit_not_eq_0 Let_def split: prod.split sum.split)
    then show ?thesis
      using set_port_config_bit_done [OF p, of i "pm_config m"] True by (auto split: prod.splits sum.splits)
  next
    case False
    then show ?thesis by (simp add: step_def ret_def bit_iff_and_push_bit_not_eq_0 bit_done_refl)
  qed
  show ?case
  proof (cases "step i s")
    case (Pair r t)
    then show ?thesis
    proof (cases r)
      case (Inl e)
      then show ?thesis using one Pair by (simp add: sbind_def)
    next
      case (Inr u)
      then have d: "sw_connected t = sw_connected s"
        "bit_done n ((if bit (pm_mask m) i then {i} else {}) \<inter> handled_bits) (pm_config m) (sw_ports s) (sw_ports t)"
        using one Pair by auto
      then have "map_of (sw_ports t) n \<noteq> None" using p by (auto simp: bit_done_def)
      moreover have "(if bit (pm_mask m) i then {i} else {}) \<inter> handled_bits \<union> {j \<in> set is. bit (pm_mask m) j} \<inter> handled_bits =
          {j \<in> set (i # is). bit (pm_mask m) j} \<inter> handled_bits" by auto
      ultimately show ?thesis
        using Cons.IH [of t] bit_done_trans [OF d(2), of "{j \<in> set is. bit (pm_mask m) j} \<inter> handled_bits"] d(1) Pair Inr
        by (auto simp: sbind_def split: prod.splits sum.splits)
    qed
  qed
qed

text \<open>
  C24. A port modification that names a port and its hardware address sets exactly the bits of the mask that the switch
  supports (all but the spanning-tree bit and bits beyond the seven defined ones) to their value in the message: every
  other bit of that port, and every other port, stays. The one way it stops early is that the switch is connected and
  the port-status message that announces the port, as it is then, cannot be packed.
\<close>

theorem port_mod_sets_masked_bits:
  assumes "map_of (sw_ports s) (pm_port_no m) = Some p" "pp_hw_addr p = pm_hw_addr m"
  shows "case rx_port_mod m s of
      (Inl e, t) \<Rightarrow> sw_connected t \<and> (\<exists>q. map_of (sw_ports t) (pm_port_no m) = Some q \<and>
        message_pack (sw_xid t) (MPortStatus (ofp_port_status_init\<lparr>ps_desc := q, ps_reason := OFPPR_MODIFY\<rparr>)) = Inl e)
    | (Inr _, t) \<Rightarrow>
        (\<forall>k. k \<noteq> pm_port_no m \<longrightarrow> map_of (sw_ports t) k = map_of (sw_ports s) k) \<and>
        (\<exists>q. map_of (sw_ports t) (pm_port_no m) = Some q \<and>
          (\<forall>j. bit (pp_config q) j \<longleftrightarrow>
            (if j \<in> {0, 2, 3, 4, 5, 6} \<and> bit (pm_mask m) j then bit (pm_config m) j else bit (pp_config p) j)))"
proof -
  have "{j \<in> set [0..<32]. bit (pm_mask m) j} \<inter> handled_bits = {j \<in> handled_bits. bit (pm_mask m) j}"
    by (auto simp: handled_bits_def)
  moreover have "rx_port_mod m s = for_each (\<lambda>i. let b = push_bit i 1 in
      if pm_mask m AND b \<noteq> 0 then sbind (set_port_config_bit (pm_port_no m) b (pm_config m AND b)) (\<lambda>_. ret ()) else ret ()) [0..<32] s"
    using assms by (simp add: rx_port_mod_def sbind_def [of "gets sw_ports"] gets_def Let_def)
  ultimately have "case rx_port_mod m s of (Inl e, t) \<Rightarrow> unannounceable (pm_port_no m) e t
      | (Inr _, t) \<Rightarrow> bit_done (pm_port_no m) {j \<in> handled_bits. bit (pm_mask m) j} (pm_config m) (sw_ports s) (sw_ports t)"
    using port_mod_bits_done [of s "pm_port_no m" "[0..<32]" m] assms(1) by (simp only: option.distinct not_False_eq_True simp_thms)
  then show ?thesis
    using assms(1) unfolding bit_done_def handled_bits_def unannounceable_def
    by (simp split: prod.splits sum.splits split del: if_split)
qed

text \<open>Port 1 of a connected switch is set down, which is announced, and stops flooding.\<close>

definition sample_port_mod :: ofp_port_mod where
  "sample_port_mod = ofp_port_mod_init\<lparr>pm_port_no := 1, pm_hw_addr := EthAddr [2, 0, 0, 0, 0, 1], pm_config := 49, pm_mask := 55\<rparr>"

theorem port_mod_sets_masked_bits_witness:
  "fst (rx_port_mod sample_port_mod filled_switch) = Inr () \<and>
   (\<exists>q. map_of (sw_ports (snd (rx_port_mod sample_port_mod filled_switch))) 1 = Some q \<and> bit (pp_config q) 0 \<and>
      bit (pp_config q) 1 \<and> \<not> bit (pp_config q) 2 \<and> bit (pp_config q) 4 \<and> bit (pp_config q) 5)"
proof -
  have s: "map_of (sw_ports filled_switch) 1 = Some (sample_port 1)" "pp_hw_addr (sample_port 1) = pm_hw_addr sample_port_mod"
    "pm_port_no sample_port_mod = 1" "pm_config sample_port_mod = 49" "pm_mask sample_port_mod = 55" "pp_config (sample_port 1) = 2"
    "fst (rx_port_mod sample_port_mod filled_switch) = Inr ()"
    by code_simp+
  have b: "bit (49::int) 0" "\<not> bit (49::int) 2" "bit (49::int) 4" "bit (49::int) 5" "bit (2::int) 1"
    "bit (55::int) 0" "bit (55::int) 2" "bit (55::int) 4" "bit (55::int) 5"
    by code_simp+
  obtain t where t: "rx_port_mod sample_port_mod filled_switch = (Inr (), t)" using s(7) by (metis prod.collapse)
  then show ?thesis
    using port_mod_sets_masked_bits [of filled_switch sample_port_mod "sample_port 1"] s(1-6) b by auto
qed

section \<open>Packet-in messages\<close>

text \<open>
  A frame that is cut to \<^verbatim>\<open>miss_send_len\<close> because it is buffered goes out with the length of what is left as its
  total length: the controller cannot tell that, or how much of, the frame is missing. What it reads back is the first
  \<open>n\<close> bytes under the buffer id.
\<close>

theorem packet_in_total_len_truncated:
  assumes "sw_connected s" "0 \<le> n" "n < int (length frame)" "b \<noteq> NO_BUFFER"
    and "fst (send_packet_in in_port (Some b) frame reason (Some n) s) = Inr ()"
  shows "\<exists>bs m. sw_out (snd (send_packet_in in_port (Some b) frame reason (Some n) s)) = sw_out s @ [Sent bs] \<and>
    (make_type_to_unpacker_table ! 10) bs 0 = Inr (int (length bs), MPacketIn m) \<and>
    pi_data m = take (nat n) frame \<and> buffer_id_get (pi_buffer_id m) = Some b \<and> pi_total_len m = Some n"
proof -
  let ?m = "ofp_packet_in_init\<lparr>hdr_xid := Some 0, pi_in_port := in_port, pi_buffer_id := b, pi_reason := reason,
    pi_data := take (nat n) frame\<rparr>"
  have "py_slice frame 0 n = take (nat n) frame" using assms(2,3) by (simp add: py_slice_def py_bound_def Let_def)
  then have e: "send_packet_in in_port (Some b) frame reason (Some n) s = connection_send (MPacketIn ?m) s"
    using assms(1,3) by (simp add: send_packet_in_def send_def sbind_def gets_def buffer_id_set_def Let_def)
  obtain bs m' g where p: "message_pack (sw_xid s) (MPacketIn ?m) = Inr (bs, m', g)"
    using assms(5) unfolding e by (auto simp: connection_send_def split: sum.splits)
  then obtain k where k: "ofp_packet_in_pack (sw_xid s) ?m = Inr (bs, k, g)" "m' = MPacketIn k" by (auto elim!: rbindE)
  then have f: "pi_data k = take (nat n) frame" "pi_buffer_id k = b" "pi_total_len k = None"
    by (auto simp: ofp_packet_in_pack_def ofp_packet_in_init_def codec_dest elim!: rbindE dest!: ofp_header_xid_eq)
  have t: "message_type (MPacketIn ?m) = 10" by (simp add: ofp_packet_in_init_def)
  have "(make_type_to_unpacker_table ! 10) bs 0 = Inr (0 + int (length bs), message_received m')"
    using message_unpack_pack [OF p _ chunk_whole] t by (simp add: ofp_packet_in_init_def)
  moreover have "sw_out (snd (connection_send (MPacketIn ?m) s)) = sw_out s @ [Sent bs]" using p by (simp add: connection_send_def)
  ultimately show ?thesis
    unfolding e using f k(2) assms(2-4)
    by (intro exI [of _ bs] exI [of _ "k\<lparr>pi_total_len := Some n\<rparr>"])
       (simp add: ofp_packet_in_total_len_def buffer_id_get_def)
qed

theorem packet_in_total_len_truncated_witness:
  "\<exists>bs m. sw_out (snd (send_packet_in 1 (Some 7) [1, 2, 3, 4] 0 (Some 2) (sample_switch\<lparr>sw_connected := True\<rparr>))) = [Sent bs] \<and>
    (make_type_to_unpacker_table ! 10) bs 0 = Inr (int (length bs), MPacketIn m) \<and> pi_data m = [1, 2] \<and> pi_total_len m = Some 2"
proof -
  have "fst (send_packet_in 1 (Some 7) [1, 2, 3, 4] 0 (Some 2) (sample_switch\<lparr>sw_connected := True\<rparr>)) = Inr ()"
    "sw_out (sample_switch\<lparr>sw_connected := True\<rparr>) = []"
    by code_simp+
  then show ?thesis
    using packet_in_total_len_truncated [of "sample_switch\<lparr>sw_connected := True\<rparr>" 2 "[1, 2, 3, 4]" 7 1 0]
    by (auto simp: NO_BUFFER_def)
qed

end
