(* ===== verification/IO_Worker.thy ===== *)
theory IO_Worker
  imports Pox_Prelude
begin

text \<open>
  The workers of \<^verbatim>\<open>lib/ioworker\<close>: the byte buffers between a component and the I/O loop. What a socket answers to a
  \<^verbatim>\<open>send\<close> is an argument.
\<close>

section \<open>I/O workers\<close>

record io_worker =
  io_send_buf :: bytes
  io_receive_buf :: bytes
  io_closed :: bool
  io_connecting :: bool
  io_shutdown_send :: bool

definition io_worker_init :: io_worker where
  "io_worker_init = \<lparr>io_send_buf = [], io_receive_buf = [], io_closed = False, io_connecting = False, io_shutdown_send = False\<rparr>"

definition io_available :: "io_worker \<Rightarrow> int" where
  "io_available self = int (length (io_receive_buf self))"

definition io_send :: "bytes \<Rightarrow> io_worker \<Rightarrow> io_worker" where
  "io_send data self = self\<lparr>io_send_buf := io_send_buf self @ data\<rparr>"

definition io_push :: "bytes \<Rightarrow> io_worker \<Rightarrow> io_worker" where
  "io_push data self = self\<lparr>io_receive_buf := io_receive_buf self @ data\<rparr>"

definition io_peek :: "int option \<Rightarrow> io_worker \<Rightarrow> bytes" where
  "io_peek l self = (case l of None \<Rightarrow> io_receive_buf self | Some n \<Rightarrow> py_slice (io_receive_buf self) 0 n)"

definition consume_receive_buf :: "int \<Rightarrow> io_worker \<Rightarrow> io_worker res" where
  "consume_receive_buf l self =
     (if int (length (io_receive_buf self)) < l then Inl RuntimeError
      else Inr (self\<lparr>io_receive_buf := py_slice (io_receive_buf self) l (int (length (io_receive_buf self)))\<rparr>))"

definition io_read :: "int option \<Rightarrow> io_worker \<Rightarrow> bytes \<times> io_worker" where
  "io_read l self =
     (let n = (case l of None \<Rightarrow> int (length (io_receive_buf self)) | Some n \<Rightarrow> n);
          buf = io_receive_buf self in
      (py_slice buf 0 n, self\<lparr>io_receive_buf := py_slice buf n (int (length buf))\<rparr>))"

definition io_ready_to_send :: "io_worker \<Rightarrow> bool" where
  "io_ready_to_send self \<longleftrightarrow> io_send_buf self \<noteq> [] \<or> io_connecting self"

definition consume_send_buf :: "int \<Rightarrow> io_worker \<Rightarrow> io_worker res" where
  "consume_send_buf l self =
     (if int (length (io_send_buf self)) \<ge> l
      then Inr (self\<lparr>io_send_buf := py_slice (io_send_buf self) l (int (length (io_send_buf self)))\<rparr>)
      else Inl AssertionError)"

definition io_close :: "io_worker \<Rightarrow> io_worker" where
  "io_close self = self\<lparr>io_closed := True\<rparr>"

definition io_shutdown :: "bool \<Rightarrow> io_worker \<Rightarrow> io_worker" where
  "io_shutdown flag self = self\<lparr>io_shutdown_send := (io_shutdown_send self \<or> flag)\<rparr>"

text \<open>What the socket says when it is given data: the bytes it took, that it would block, or another error.\<close>

datatype sock_result = Took nat | WouldBlock | SockError

text \<open>\<^verbatim>\<open>_do_send\<close> of a connected worker: offer the whole buffer, drop what the socket took; the flag says whether the sending side was shut down.\<close>

definition do_send :: "sock_result \<Rightarrow> io_worker \<Rightarrow> (io_worker \<times> bool) res" where
  "do_send sock self =
     (if io_send_buf self = [] then Inr (self, False)
      else case sock of
        Took l \<Rightarrow>
          if l > 0 then
            rbind (consume_send_buf (int l) self) (\<lambda>w. Inr (w, io_shutdown_send w \<and> io_send_buf w = []))
          else Inr (self, False)
      | WouldBlock \<Rightarrow> Inr (self, False)
      | SockError \<Rightarrow> Inr (io_close self, False))"

text \<open>\<^verbatim>\<open>send_fast\<close> tries the socket first. It compares what the socket took with the (empty) buffer and goes on with one byte of the data.\<close>

definition send_fast :: "sock_result \<Rightarrow> bytes \<Rightarrow> io_worker \<Rightarrow> io_worker res" where
  "send_fast sock data self =
     (if io_send_buf self = [] \<and> \<not> io_connecting self \<and> \<not> io_closed self then
        (case sock of
           Took l \<Rightarrow>
             if l = length (io_send_buf self) then Inr self
             else if l < length data then Inr (io_send [data ! l] self) else Inl IndexError
         | WouldBlock \<Rightarrow> Inr (io_send data self)
         | SockError \<Rightarrow> Inr (io_close self))
      else Inr (io_send data self))"

end
