(* ===== verification/Message_Stream.thy ===== *)
theory Message_Stream
  imports OF_Codec "HOL-Library.Sublist"
begin

text \<open>
  Framed messages on a byte stream. Both ends of a connection receive bytes in pieces and cut them into messages by the
  length in the message header. The locale \<open>frame_reader\<close> is what either end promises for one piece; from this it follows
  that a stream is delivered in order however it is cut. The locale \<open>message_stream\<close> derives the promise for a reader
  that handles one message per round of a loop. A loop may run for ever, so it is a partial function: no result means
  that it does not return.
\<close>

section \<open>Loops and pieces\<close>

partial_function (option) loop_until :: "('c \<Rightarrow> bool res \<times> 'c) \<Rightarrow> 'c \<Rightarrow> (unit res \<times> 'c) option" where
  "loop_until once c =
     (case once c of
        (Inl e, c) \<Rightarrow> Some (Inl e, c)
      | (Inr again, c) \<Rightarrow> if again then loop_until once c else Some (Inr (), c))"

text \<open>A loop with an invariant under which every round asks for another one does not return.\<close>

lemma loop_spins:
  assumes again: "\<And>c. I c \<Longrightarrow> \<exists>c'. once c = (Inr True, c') \<and> I c'" and "I c"
  shows "loop_until once c = None"
proof -
  have "f = once \<longrightarrow> \<not> I d" if "loop_until f d = Some r" for f d r
  proof (rule loop_until.raw_induct [where P = "\<lambda>f d r. f = once \<longrightarrow> \<not> I d", OF _ that], intro impI notI)
    fix loop f d r
    assume IH: "\<And>f d r. loop f d = Some r \<Longrightarrow> f = once \<longrightarrow> \<not> I d" and f: "f = once" and "I d"
      and s: "(case f d of (Inl e, d) \<Rightarrow> Some (Inl e, d)
        | (Inr again, d) \<Rightarrow> if again then loop f d else Some (Inr (), d)) = Some r"
    then obtain d' where d': "once d = (Inr True, d')" "I d'" using again by blast
    then have "loop f d' = Some r" using s f by simp
    then show False using IH d'(2) f by blast
  qed
  then show ?thesis using assms(2) by (cases "loop_until once c") auto
qed

text \<open>Pieces of data that arrive one after the other; an exception leaves the state for the next piece.\<close>

fun feed :: "(bytes \<Rightarrow> 'c \<Rightarrow> ('r \<times> 'c) option) \<Rightarrow> bytes list \<Rightarrow> 'c \<Rightarrow> 'c option" where
  "feed receive [] c = Some c"
| "feed receive (p # ps) c = (case receive p c of None \<Rightarrow> None | Some (_, c) \<Rightarrow> feed receive ps c)"

text \<open>What may stand behind the last complete message.\<close>

definition unfinished :: "('m \<Rightarrow> bytes \<Rightarrow> bool) \<Rightarrow> bytes \<Rightarrow> bool" where
  "unfinished wire r \<longleftrightarrow> r = [] \<or> (\<exists>m bs. wire m bs \<and> strict_prefix r bs)"

text \<open>A piece of a stream ends behind some of its messages, inside the next one or at its end.\<close>

lemma split_stream:
  assumes "list_all2 wire ms bss" "concat bss = a @ b"
  obtains ms1 ms2 bss1 bss2 r where "ms = ms1 @ ms2" "list_all2 wire ms1 bss1" "list_all2 wire ms2 bss2"
    "a = concat bss1 @ r" "concat bss2 = r @ b" "unfinished wire r"
  using assms
proof (induction ms bss arbitrary: a thesis rule: list_all2_induct)
  case Nil
  show ?case using Nil(1) [of "[]" "[]" "[]" "[]" "[]"] Nil(2) by (simp add: unfinished_def)
next
  case (Cons m ms bs bss)
  show ?case
  proof (cases "length bs \<le> length a")
    case True
    then obtain a' where a': "a = bs @ a'" "concat bss = a' @ b"
      using Cons.prems(2) by (auto simp: append_eq_append_conv2)
    from Cons.IH [OF _ a'(2)] obtain ms1 ms2 bss1 bss2 r where "ms = ms1 @ ms2" "list_all2 wire ms1 bss1"
      "list_all2 wire ms2 bss2" "a' = concat bss1 @ r" "concat bss2 = r @ b" "unfinished wire r" by blast
    with a' show ?thesis using Cons.prems(1) [of "m # ms1" ms2 "bs # bss1" bss2 r] Cons.hyps(1) by simp
  next
    case False
    then have "strict_prefix a bs" using Cons.prems(2) by (auto simp: append_eq_append_conv2 strict_prefix_def)
    then have "unfinished wire a" using Cons.hyps(1) by (auto simp: unfinished_def)
    then show ?thesis using Cons.prems Cons.hyps Cons.prems(1) [of "[]" "m # ms" "[]" "bs # bss" a] by simp
  qed
qed

section \<open>Readers\<close>

text \<open>
  \<open>rx\<close> is what was received and not yet handled, \<open>piece\<close> the pieces that can arrive. No message is a proper prefix of another. Whenever a piece completes some messages, they are delivered in order
  and the rest is kept.
\<close>

locale frame_reader =
  fixes receive :: "bytes \<Rightarrow> 'c \<Rightarrow> ('r \<times> 'c) option"
    and rx :: "'c \<Rightarrow> bytes"
    and set_rx :: "bytes \<Rightarrow> 'c \<Rightarrow> 'c"
    and wire :: "'m \<Rightarrow> bytes \<Rightarrow> bool"
    and deliver :: "'m \<Rightarrow> 'c \<Rightarrow> 'c"
    and ready :: "'c \<Rightarrow> bool"
    and piece :: "bytes \<Rightarrow> bool"
  assumes receives: "ready c \<Longrightarrow> piece p \<Longrightarrow> list_all2 wire ms bss \<Longrightarrow> rx c @ p = concat bss @ r \<Longrightarrow> unfinished wire r \<Longrightarrow>
      \<exists>x. receive p c = Some (x, set_rx r (fold deliver ms c))"
    and ready_deliver: "ready c \<Longrightarrow> ready (deliver m c)"
    and set_get: "rx (set_rx bs c) = bs" "set_rx (rx c) c = c" "set_rx bs (set_rx bs' c) = set_rx bs c"
    and deliver_rx: "deliver m (set_rx bs c) = set_rx bs (deliver m c)"
    and ready_rx: "ready (set_rx bs c) = ready c"
    and wire_prefix: "wire m bs \<Longrightarrow> bs \<noteq> []" "wire m bs \<Longrightarrow> wire m' bs' \<Longrightarrow> \<not> strict_prefix bs bs'"
begin

lemma rx_deliver: "rx (deliver m c) = rx c"
  by (metis deliver_rx set_get(1,2))

lemma ready_deliver_all: "ready c \<Longrightarrow> ready (fold deliver ms c)"
  by (induction ms arbitrary: c) (simp_all add: ready_deliver)

lemma deliver_all_rx: "fold deliver ms (set_rx bs c) = set_rx bs (fold deliver ms c)"
  by (induction ms arbitrary: c) (simp_all add: deliver_rx)

text \<open>Feeding the pieces of a stream one after the other.\<close>

lemma pieces_deliver:
  assumes "list_all2 wire ms bss" "ready c" "rx c @ concat pieces = concat bss" "unfinished wire (rx c)" "list_all piece pieces"
  shows "feed receive pieces c = Some (set_rx [] (fold deliver ms c))"
  using assms
proof (induction pieces arbitrary: c ms bss)
  case Nil
  have "bss = []"
  proof (cases bss)
    case (Cons b bss')
    then obtain m where m: "wire m b" using Nil(1) by (cases ms) auto
    have p: "rx c = b @ concat bss'" using Nil(3) Cons by simp
    then have "rx c \<noteq> []" using wire_prefix(1) [OF m] by simp
    then obtain m' bs' where "wire m' bs'" "strict_prefix (rx c) bs'" using Nil(4) by (auto simp: unfinished_def)
    moreover have "prefix b (rx c)" using p by simp
    ultimately have False using wire_prefix(2) [OF m] prefix_order.le_less_trans by metis
    then show ?thesis by simp
  qed simp
  then show ?case using Nil by (simp, metis set_get(2))
next
  case (Cons p pieces)
  obtain ms1 ms2 bss1 bss2 r where s: "ms = ms1 @ ms2" "list_all2 wire ms1 bss1" "list_all2 wire ms2 bss2"
    "rx c @ p = concat bss1 @ r" "concat bss2 = r @ concat pieces" "unfinished wire r"
    by (rule split_stream [OF Cons.prems(1), of "rx c @ p" "concat pieces"]) (use Cons.prems(3) in auto)
  let ?c = "set_rx r (fold deliver ms1 c)"
  obtain x where "receive p c = Some (x, ?c)" using receives [OF Cons.prems(2) _ s(2,4,6)] Cons.prems(5) by auto
  moreover have "feed receive pieces ?c = Some (set_rx [] (fold deliver ms2 ?c))"
    using s Cons.prems(2,5) by (intro Cons.IH [of ms2 bss2]) (auto simp: set_get ready_rx ready_deliver_all)
  ultimately show ?case by (simp add: s(1) deliver_all_rx set_get)
qed

end

text \<open>
  One round of a loop: hand over a complete message at the front of the buffer and drop its bytes, or wait when the
  buffer ends inside a message.
\<close>

locale message_stream =
  fixes once :: "'c \<Rightarrow> bool res \<times> 'c"
    and rx :: "'c \<Rightarrow> bytes"
    and set_rx :: "bytes \<Rightarrow> 'c \<Rightarrow> 'c"
    and wire :: "'m \<Rightarrow> bytes \<Rightarrow> bool"
    and deliver :: "'m \<Rightarrow> 'c \<Rightarrow> 'c"
    and ready :: "'c \<Rightarrow> bool"
  assumes accept: "ready c \<Longrightarrow> wire m bs \<Longrightarrow> rx c = bs @ rest \<Longrightarrow> once c = (Inr True, deliver m (set_rx rest c))"
    and wait: "ready c \<Longrightarrow> wire m bs \<Longrightarrow> strict_prefix (rx c) bs \<Longrightarrow> once c = (Inr False, c)"
    and idle: "rx c = [] \<Longrightarrow> once c = (Inr False, c)"
    and keeps_ready: "ready c \<Longrightarrow> ready (deliver m c)"
    and rx_laws: "rx (set_rx bs c) = bs" "set_rx (rx c) c = c" "set_rx bs (set_rx bs' c) = set_rx bs c"
    and deliver_set_rx: "deliver m (set_rx bs c) = set_rx bs (deliver m c)"
    and ready_set_rx: "ready (set_rx bs c) = ready c"
    and wire_frames: "wire m bs \<Longrightarrow> bs \<noteq> []" "wire m bs \<Longrightarrow> wire m' bs' \<Longrightarrow> \<not> strict_prefix bs bs'"
begin

lemma loop_stops: "ready c \<Longrightarrow> unfinished wire (rx c) \<Longrightarrow> loop_until once c = Some (Inr (), c)"
  by (subst loop_until.simps) (auto simp: unfinished_def idle wait)

lemma fold_deliver_set_rx: "fold deliver ms (set_rx bs c) = set_rx bs (fold deliver ms c)"
  by (induction ms arbitrary: c) (simp_all add: deliver_set_rx)

lemma loop_delivers:
  assumes "list_all2 wire ms bss" "ready c" "rx c = concat bss @ r" "unfinished wire r"
  shows "loop_until once c = Some (Inr (), set_rx r (fold deliver ms c))"
  using assms
proof (induction ms bss arbitrary: c rule: list_all2_induct)
  case Nil
  then show ?case using loop_stops [of c] rx_laws(2) [of c] by simp
next
  case (Cons m ms bs bss)
  let ?c = "deliver m (set_rx (concat bss @ r) c)"
  have "once c = (Inr True, ?c)" using Cons by (auto intro: accept)
  then have "loop_until once c = loop_until once ?c" by (subst loop_until.simps) simp
  also have "\<dots> = Some (Inr (), set_rx r (fold deliver ms ?c))"
    using Cons by (intro Cons.IH) (auto simp: keeps_ready ready_set_rx deliver_set_rx rx_laws)
  finally show ?case by (simp add: deliver_set_rx fold_deliver_set_rx rx_laws)
qed

end

sublocale message_stream \<subseteq> frame_reader "\<lambda>p c. loop_until once (set_rx (rx c @ p) c)" rx set_rx wire deliver ready "\<lambda>_. True"
proof unfold_locales
  fix c ms bss p r
  assume a: "ready c" "list_all2 wire ms bss" "rx c @ p = concat bss @ r" "unfinished wire r"
  have "loop_until once (set_rx (rx c @ p) c) = Some (Inr (), set_rx r (fold deliver ms c))"
    using loop_delivers [OF a(2), of "set_rx (rx c @ p) c" r] a by (simp add: rx_laws ready_set_rx fold_deliver_set_rx)
  then show "\<exists>x. loop_until once (set_rx (rx c @ p) c) = Some (x, set_rx r (fold deliver ms c))" by blast
qed (simp_all add: keeps_ready rx_laws deliver_set_rx ready_set_rx wire_frames)

section \<open>OpenFlow messages on the wire\<close>

text \<open>The message \<open>m\<close> on the wire: some object packs to these bytes and \<open>m\<close> is what is read back.\<close>

definition on_wire :: "ofp_message \<Rightarrow> bytes \<Rightarrow> bool" where
  "on_wire m bs \<longleftrightarrow> (\<exists>g m0 m' g'. message_pack g m0 = Inr (bs, m', g') \<and> message_wf m0 \<and>
     message_version m0 = OFP_VERSION \<and> m = message_received m')"

lemma head_fields:
  assumes "head_ok v t bs"
  shows "uint (bs ! 0) = v" "uint (bs ! 1) = t" "push_bit 8 (uint (bs ! 2)) OR uint (bs ! 3) = int (length bs)"
proof -
  have r: "list_all2 code_range [FB, FB, FH] [v, t, int (length bs)]" and l: "8 \<le> length bs"
    and h: "take 4 bs = struct_bytes [FB, FB, FH] [v, t, int (length bs)]"
    using assms by (auto simp: head_ok_def)
  let ?n = "int (length bs)"
  have n: "0 \<le> ?n" "?n < 65536" "0 \<le> v" "v < 256" "0 \<le> t" "t < 256" using r by auto
  have "take 4 bs = [word_of_int v, word_of_int t, word_of_int (?n div 256), word_of_int ?n]"
    unfolding h using n by (simp add: struct_bytes.simps numeral_2_eq_2)
  then have b: "bs ! 0 = word_of_int v" "bs ! 1 = word_of_int t" "bs ! 2 = word_of_int (?n div 256)" "bs ! 3 = word_of_int ?n"
    by (metis nth_take nth_Cons_0 nth_Cons_Suc One_nat_def numeral_2_eq_2 numeral_3_eq_3 zero_less_numeral
        one_less_numeral_iff numeral_less_iff semiring_norm(76,77,78,79,80,81))+
  show "uint (bs ! 0) = v" "uint (bs ! 1) = t" using n b by (simp_all add: uint_byte_of_int)
  have "uint (bs ! 2) = ?n div 256" "uint (bs ! 3) = ?n mod 256" unfolding b uint_byte_of_int using n by simp_all
  moreover have "push_bit 8 (drop_bit 8 ?n) OR take_bit 8 ?n = ?n" by (rule bit_eqI) (auto simp: bit_simps)
  then have "push_bit 8 (?n div 256) OR (?n mod 256) = ?n" by (simp add: drop_bit_eq_div take_bit_eq_mod)
  ultimately show "push_bit 8 (uint (bs ! 2)) OR uint (bs ! 3) = ?n" by simp
qed

lemma on_wire_head:
  assumes "on_wire m bs"
  obtains t where "head_ok OFP_VERSION t bs" "0 \<le> t" "t < 22"
    "\<And>pre rest. (make_type_to_unpacker_table ! nat t) (pre @ bs @ rest) (int (length pre)) = Inr (int (length pre + length bs), m)"
proof -
  obtain g m0 m' g' where p: "message_pack g m0 = Inr (bs, m', g')" "message_wf m0" "message_version m0 = OFP_VERSION"
    "m = message_received m'" using assms by (auto simp: on_wire_def)
  have "(make_type_to_unpacker_table ! nat (message_type m0)) (pre @ bs @ rest) (int (length pre)) =
      Inr (int (length pre + length bs), m)" for pre rest
    using message_unpack_pack [OF p(1,2), of "pre @ bs @ rest" "int (length pre)"] chunk_middle [of pre bs rest] p(4) by simp
  then show thesis
    using that message_pack_head [OF p(1,2)] message_type_range [OF p(2)] p(3) by auto
qed

lemma unpackers_length: "length make_type_to_unpacker_table = 22"
  by (simp add: make_type_to_unpacker_table_def)

lemma on_wire_frames:
  "on_wire m bs \<Longrightarrow> bs \<noteq> []"
  "on_wire m bs \<Longrightarrow> on_wire m' bs' \<Longrightarrow> \<not> strict_prefix bs bs'"
proof -
  assume m: "on_wire m bs"
  obtain t where t: "head_ok OFP_VERSION t bs" using on_wire_head [OF m] by metis
  then show "bs \<noteq> []" by (auto simp: head_ok_def)
  assume m': "on_wire m' bs'"
  obtain t' where t': "head_ok OFP_VERSION t' bs'" using on_wire_head [OF m'] by metis
  show "\<not> strict_prefix bs bs'"
  proof
    assume "strict_prefix bs bs'"
    then obtain r where r: "bs' = bs @ r" "r \<noteq> []" by (auto elim!: strict_prefixE')
    have "bs' ! 2 = bs ! 2" "bs' ! 3 = bs ! 3" using t by (simp_all add: r(1) nth_append head_ok_def)
    then have "length bs' = length bs" using head_fields(3) [OF t] head_fields(3) [OF t'] by simp
    then show False using r by simp
  qed
qed

lemma nth_append_head: "8 \<le> length bs \<Longrightarrow> k < 8 \<Longrightarrow> (bs @ rest) ! k = bs ! k"
  by (simp add: nth_append)

definition sample_hello :: bytes where
  "sample_hello = [1, 0, 0, 8, 0, 0, 0, 5]"

lemma sample_hello_wire: "on_wire (MHello (ofp_hello_init\<lparr>hdr_xid := Some 5\<rparr>)) sample_hello"
proof -
  let ?m = "ofp_hello_init\<lparr>hdr_xid := Some 5\<rparr>"
  have "message_pack xid_generator (MHello ?m) = Inr (sample_hello, MHello ?m, xid_generator)"
    "message_wf (MHello ?m)" "message_version (MHello ?m) = OFP_VERSION" "message_received (MHello ?m) = MHello ?m"
    by code_simp+
  then show ?thesis unfolding on_wire_def by metis
qed

end
