(* ===== verification/OF_Connection.thy ===== *)
theory OF_Connection
  imports Switch_Properties IO_Worker Message_Stream
begin

text \<open>
  The class \<^verbatim>\<open>OFConnection\<close> of \<^verbatim>\<open>datapaths/switch.py\<close>: the loop that cuts the received bytes into OpenFlow messages, answers what it cannot read, and hands the others to the switch.
  The loop may run for ever, so it is a partial function: no result means that it does not return.
\<close>

section \<open>The connection\<close>

text \<open>\<open>cn_handler\<close>: a message handler, the switch's \<^verbatim>\<open>rx_message\<close>, is set. What is sent goes to the switch's trace.\<close>

record conn =
  cn_switch :: switch
  cn_io :: io_worker
  cn_starting :: bool
  cn_handler :: bool

definition set_message_handler :: "conn \<Rightarrow> conn" where
  "set_message_handler c = c\<lparr>cn_handler := True\<rparr>"

definition extract_message_xid :: "bytes \<Rightarrow> int res" where
  "extract_message_xid message =
     (if length message \<ge> 8
      then rbind (struct_unpack [FH, FL] (take 6 (drop 2 message))) (\<lambda>vs. Inr (vs ! 1))
      else Inr 0)"

definition conn_send_error :: "int \<Rightarrow> int \<Rightarrow> bytes \<Rightarrow> conn \<Rightarrow> unit res \<times> conn" where
  "conn_send_error typ code data c =
     (case extract_message_xid (io_peek None (cn_io c)) of
        Inl e \<Rightarrow> (Inl e, c)
      | Inr x \<Rightarrow>
          (case connection_send (MError (ofp_error_init\<lparr>er_type := typ, er_code := code, hdr_xid := Some x, er_data := data\<rparr>))
              (cn_switch c) of
             (r, s) \<Rightarrow> (r, c\<lparr>cn_switch := s\<rparr>)))"

definition conn_close :: "conn \<Rightarrow> conn" where
  "conn_close c = c\<lparr>cn_io := io_shutdown True (cn_io c)\<rparr>"

text \<open>\<^verbatim>\<open>_error_handler\<close> by reason; False stops the loop. An exception of the message handler is only logged.\<close>

definition err_bad_version :: "conn \<Rightarrow> unit res \<times> conn" where
  "err_bad_version c =
     (if cn_starting c then
        (case conn_send_error OFPET_HELLO_FAILED OFPHFC_INCOMPATIBLE
           [86, 101, 114, 115, 105, 111, 110, 32, 117, 110, 115, 117, 112, 112, 111, 114, 116, 101, 100] c of
           (Inl e, c) \<Rightarrow> (Inl e, c)
         | (Inr _, c) \<Rightarrow> (Inr (), conn_close c))
      else (Inr (), conn_close c))"

definition err_no_unpacker :: "int \<Rightarrow> conn \<Rightarrow> unit res \<times> conn" where
  "err_no_unpacker message_length c =
     conn_send_error OFPET_BAD_REQUEST OFPBRC_BAD_TYPE (py_slice (io_peek None (cn_io c)) 0 message_length) c"

definition err_bad_length :: "int \<Rightarrow> conn \<Rightarrow> unit res \<times> conn" where
  "err_bad_length message_length c =
     conn_send_error OFPET_BAD_REQUEST OFPBRC_BAD_LEN (py_slice (io_peek None (cn_io c)) 0 message_length) c"

definition conn_consume :: "int \<Rightarrow> conn \<Rightarrow> bool res \<times> conn" where
  "conn_consume l c =
     (case consume_receive_buf l (cn_io c) of Inl e \<Rightarrow> (Inl e, c) | Inr w \<Rightarrow> (Inr True, c\<lparr>cn_io := w\<rparr>))"

text \<open>One round of the loop: an exception, or whether there is another round.\<close>

definition read_once :: "nat \<Rightarrow> conn \<Rightarrow> bool res \<times> conn" where
  "read_once depth c =
     (let message = io_peek None (cn_io c) in
      if length message < 4 then (Inr False, c)
      else
        let ofp_version = uint (message ! 0); ofp_type = uint (message ! 1) in
        if ofp_version \<noteq> OFP_VERSION then
          (case err_bad_version c of (Inl e, c) \<Rightarrow> (Inl e, c) | (Inr _, c) \<Rightarrow> (Inr False, c))
        else
          let message_length = (push_bit 8 (uint (message ! 2))) OR uint (message ! 3) in
          if message_length > int (length message) then (Inr False, c)
          else if \<not> ofp_type < int (length make_type_to_unpacker_table) then
            (case err_no_unpacker message_length c of
               (Inl e, c) \<Rightarrow> (Inl e, c)
             | (Inr _, c) \<Rightarrow> conn_consume message_length c)
          else
            case (make_type_to_unpacker_table ! nat ofp_type) message 0 of
              Inl e \<Rightarrow> (Inl e, c)
            | Inr (new_offset, msg_obj) \<Rightarrow>
                if new_offset \<noteq> message_length then
                  (case err_bad_length message_length c of
                     (Inl e, c) \<Rightarrow> (Inl e, c)
                   | (Inr _, c) \<Rightarrow> conn_consume message_length c)
                else
                  (case conn_consume message_length c of
                     (Inl e, c) \<Rightarrow> (Inl e, c)
                   | (Inr _, c) \<Rightarrow>
                       let c = c\<lparr>cn_starting := False\<rparr> in
                       if \<not> cn_handler c then (Inl RuntimeError, c)
                       else (Inr True, c\<lparr>cn_switch := snd (rx_message depth msg_obj (cn_switch c))\<rparr>)))"

definition conn_read :: "nat \<Rightarrow> conn \<Rightarrow> (unit res \<times> conn) option" where
  "conn_read depth c = loop_until (read_once depth) c"

text \<open>\<^verbatim>\<open>_push_receive_data\<close>: the I/O loop received bytes.\<close>

definition conn_receive :: "nat \<Rightarrow> bytes \<Rightarrow> conn \<Rightarrow> (unit res \<times> conn) option" where
  "conn_receive depth data c = conn_read depth (c\<lparr>cn_io := io_push data (cn_io c)\<rparr>)"

section \<open>The connection is a reader of a message stream\<close>

definition conn_rx :: "conn \<Rightarrow> bytes" where
  "conn_rx c = io_receive_buf (cn_io c)"

definition conn_set_rx :: "bytes \<Rightarrow> conn \<Rightarrow> conn" where
  "conn_set_rx bs c = c\<lparr>cn_io := (cn_io c)\<lparr>io_receive_buf := bs\<rparr>\<rparr>"

definition conn_deliver :: "nat \<Rightarrow> ofp_message \<Rightarrow> conn \<Rightarrow> conn" where
  "conn_deliver depth m c = c\<lparr>cn_starting := False, cn_switch := snd (rx_message depth m (cn_switch c))\<rparr>"

lemma consume_front:
  "io_receive_buf w = bs @ rest \<Longrightarrow> consume_receive_buf (int (length bs)) w = Inr (w\<lparr>io_receive_buf := rest\<rparr>)"
  by (simp add: consume_receive_buf_def py_slice_def py_bound_def Let_def)

interpretation oc: message_stream "read_once depth" conn_rx conn_set_rx on_wire "conn_deliver depth" cn_handler for depth
proof unfold_locales
  fix c :: conn and m bs rest
  assume c: "cn_handler c" "on_wire m bs" "conn_rx c = bs @ rest"
  obtain t where t: "head_ok OFP_VERSION t bs" "0 \<le> t" "t < 22"
    "\<And>pre rest. (make_type_to_unpacker_table ! nat t) (pre @ bs @ rest) (int (length pre)) = Inr (int (length pre + length bs), m)"
    using on_wire_head [OF c(2)] by metis
  have l: "8 \<le> length bs" using t(1) by (simp add: head_ok_def)
  note n = nth_append_head [OF l, of _ rest]
  show "read_once depth c = (Inr True, conn_deliver depth m (conn_set_rx rest c))"
    using c t(2,3) l head_fields [OF t(1)] t(4) [of "[]" rest] consume_front [of "cn_io c" bs rest]
    by (simp add: read_once_def io_peek_def Let_def conn_rx_def conn_consume_def conn_deliver_def conn_set_rx_def
        unpackers_length n)
next
  fix c :: conn and m bs
  assume c: "on_wire m bs" "strict_prefix (conn_rx c) bs"
  obtain t where t: "head_ok OFP_VERSION t bs" using on_wire_head [OF c(1)] by metis
  obtain r where r: "bs = conn_rx c @ r" "r \<noteq> []" using c(2) by (auto elim!: strict_prefixE')
  show "read_once depth c = (Inr False, c)"
  proof (cases "length (conn_rx c) < 4")
    case False
    then have "conn_rx c ! 0 = bs ! 0" "conn_rx c ! 2 = bs ! 2" "conn_rx c ! 3 = bs ! 3" "length (conn_rx c) < length bs"
      using r by (auto simp: nth_append)
    then show ?thesis using head_fields [OF t] False by (simp add: read_once_def io_peek_def Let_def conn_rx_def)
  qed (simp add: read_once_def io_peek_def conn_rx_def)
qed (auto simp: read_once_def io_peek_def Let_def conn_rx_def conn_set_rx_def conn_deliver_def on_wire_frames)

section \<open>Properties\<close>

lemma conn_receive_eq: "conn_receive depth p c = loop_until (read_once depth) (conn_set_rx (conn_rx c @ p) c)"
  by (simp add: conn_receive_def conn_read_def conn_set_rx_def conn_rx_def io_push_def)

lemma deliver_all_switch:
  "cn_switch (fold (conn_deliver depth) ms c) = fold (\<lambda>m s. snd (rx_message depth m s)) ms (cn_switch c)"
  by (induction ms arbitrary: c) (simp_all add: conn_deliver_def)

text \<open>
  C9. However the bytes of a sequence of well-formed messages are cut into pieces when they arrive, the connection takes
  all of them: reading returns after every piece, the switch has handled each message once and in the order in which they
  were sent, as they read back, whether or not a handler raised, and nothing stays in the buffer.
\<close>

theorem stream_delivered_in_order:
  assumes "list_all2 on_wire ms bss" "concat pieces = concat bss" "cn_handler c" "io_receive_buf (cn_io c) = []"
  shows "\<exists>c'. feed (conn_receive depth) pieces c = Some c' \<and> io_receive_buf (cn_io c') = [] \<and>
    cn_switch c' = fold (\<lambda>m s. snd (rx_message depth m s)) ms (cn_switch c)"
proof -
  have "conn_receive depth = (\<lambda>p c. loop_until (read_once depth) (conn_set_rx (conn_rx c @ p) c))"
    by (simp add: conn_receive_eq fun_eq_iff)
  then have "feed (conn_receive depth) pieces c = Some (conn_set_rx [] (fold (conn_deliver depth) ms c))"
    using oc.pieces_deliver [OF assms(1), of c pieces depth] assms by (simp add: conn_rx_def unfinished_def list_all_iff)
  then show ?thesis by (simp add: conn_set_rx_def deliver_all_switch)
qed

definition sample_conn :: conn where
  "sample_conn = \<lparr>cn_switch = sample_switch\<lparr>sw_connected := True\<rparr>, cn_io = io_worker_init, cn_starting = True, cn_handler = True\<rparr>"

theorem stream_delivered_in_order_witness:
  "\<exists>c'. feed (conn_receive 5) [[1, 0, 0], [8, 0, 0, 0, 5, 1], [0, 0, 8, 0, 0, 0, 5]] sample_conn = Some c' \<and>
     io_receive_buf (cn_io c') = [] \<and> length (sw_out (cn_switch c')) = 1"
proof -
  let ?h = "MHello (ofp_hello_init\<lparr>hdr_xid := Some 5\<rparr>)"
  let ?last = "fold (\<lambda>m s. snd (rx_message 5 m s)) [?h, ?h] (cn_switch sample_conn)"
  have "list_all2 on_wire [?h, ?h] [sample_hello, sample_hello]" using sample_hello_wire by simp
  moreover have "concat [[1, 0, 0], [8, 0, 0, 0, 5, 1], [0, 0, 8, 0, 0, 0, 5]] = concat [sample_hello, sample_hello]"
    "cn_handler sample_conn" "io_receive_buf (cn_io sample_conn) = []"
    by code_simp+
  ultimately obtain c' where "feed (conn_receive 5) [[1, 0, 0], [8, 0, 0, 0, 5, 1], [0, 0, 8, 0, 0, 0, 5]] sample_conn = Some c'"
    "io_receive_buf (cn_io c') = []" "cn_switch c' = ?last"
    using stream_delivered_in_order [of "[?h, ?h]"] by metis
  moreover have "length (sw_out ?last) = 1" by code_simp
  ultimately show ?thesis by auto
qed

subsection \<open>When the loop returns\<close>

text \<open>The head of a message of this version that claims to have no bytes.\<close>

definition zero_length_head :: "bytes \<Rightarrow> bool" where
  "zero_length_head bs \<longleftrightarrow> 4 \<le> length bs \<and> uint (bs ! 0) = OFP_VERSION \<and> bs ! 2 = 0 \<and> bs ! 3 = 0"

lemma conn_send_error_rx: "cn_io (snd (conn_send_error t k d c)) = cn_io c"
  by (auto simp: conn_send_error_def split: sum.split prod.split)

lemma consume_again: "conn_consume l c = (Inr b, d) \<Longrightarrow> b"
  by (auto simp: conn_consume_def split: sum.splits)

lemma consume_rx:
  "conn_consume l c = (Inr True, c') \<Longrightarrow> 0 < l \<Longrightarrow> conn_rx c' = drop (nat l) (conn_rx c) \<and> nat l \<le> length (conn_rx c)"
  by (auto simp: conn_consume_def consume_receive_buf_def conn_rx_def py_slice_def py_bound_def Let_def split: if_splits)

abbreviation claimed_length :: "bytes \<Rightarrow> int" where
  "claimed_length bs \<equiv> push_bit 8 (uint (bs ! 2)) OR uint (bs ! 3)"

lemma read_once_again:
  assumes "read_once depth c = (Inr True, c')"
  obtains d e where "4 \<le> length (conn_rx c)" "uint (conn_rx c ! 0) = OFP_VERSION" "conn_rx d = conn_rx c"
    "conn_consume (claimed_length (conn_rx c)) d = (Inr True, e)" "conn_rx c' = conn_rx e"
proof -
  note goal = that
  let ?m = "conn_rx c"
  let ?l = "claimed_length ?m" and ?u = "(make_type_to_unpacker_table ! nat (uint (?m ! 1))) ?m 0"
  have m: "io_peek None (cn_io c) = ?m" by (simp add: io_peek_def conn_rx_def)
  have g: "4 \<le> length ?m" "uint (?m ! 0) = OFP_VERSION" "?l \<le> int (length ?m)"
    using assms by (auto simp: read_once_def m Let_def split: if_splits prod.splits sum.splits)
  have skip: thesis if "(case conn_send_error t k x c of (Inl e, c) \<Rightarrow> (Inl e, c) | (Inr _, c) \<Rightarrow> conn_consume ?l c) = (Inr True, c')" for t k x
    using that conn_send_error_rx [of t k x c] goal [of "snd (conn_send_error t k x c)" c'] g
    by (auto simp: conn_rx_def split: prod.splits sum.splits)
  consider "\<not> uint (?m ! 1) < int (length make_type_to_unpacker_table)"
    | n k where "uint (?m ! 1) < int (length make_type_to_unpacker_table)" "?u = Inr (n, k)" "n \<noteq> ?l"
    | k where "uint (?m ! 1) < int (length make_type_to_unpacker_table)" "?u = Inr (?l, k)"
    using assms g by (cases ?u) (auto simp: read_once_def m Let_def split: if_splits)
  then show thesis
  proof cases
    case 1
    then show ?thesis using assms g skip by (simp add: read_once_def m Let_def err_no_unpacker_def)
  next
    case 2
    then show ?thesis using assms g skip by (simp add: read_once_def m Let_def err_bad_length_def)
  next
    case 3
    then show ?thesis
      using assms g goal [of c]
      by (auto simp: read_once_def m Let_def conn_rx_def split: prod.splits sum.splits if_splits dest: consume_again)
  qed
qed

lemma read_once_progress:
  assumes "read_once depth c = (Inr True, c')" "\<not> zero_length_head (conn_rx c)"
  shows "\<exists>k>0. k \<le> length (conn_rx c) \<and> conn_rx c' = drop k (conn_rx c)"
proof -
  let ?l = "claimed_length (conn_rx c)"
  obtain d e where r: "4 \<le> length (conn_rx c)" "uint (conn_rx c ! 0) = OFP_VERSION" "conn_rx d = conn_rx c"
    "conn_consume ?l d = (Inr True, e)" "conn_rx c' = conn_rx e"
    by (rule read_once_again [OF assms(1)])
  have "?l \<noteq> 0" using assms(2) r(1,2) by (auto simp: zero_length_head_def or_eq_0_iff unsigned_eq_0_iff)
  moreover have "0 \<le> ?l" by simp
  ultimately have pos: "0 < ?l" by linarith
  then show ?thesis using consume_rx [OF r(4)] r(3,5) by (intro exI [of _ "nat ?l"]) simp
qed

text \<open>
  Reading always returns, whatever the bytes are, when no message head in the buffer claims a length of zero: each
  round stops the loop or takes at least one byte away.
\<close>

theorem conn_read_returns:
  assumes "\<forall>k. \<not> zero_length_head (drop k (io_receive_buf (cn_io c)))"
  shows "\<exists>r c'. conn_read depth c = Some (r, c')"
  using assms
proof (induction "length (conn_rx c)" arbitrary: c rule: less_induct)
  case less
  show ?case
  proof (cases "\<exists>c'. read_once depth c = (Inr True, c')")
    case True
    then obtain c' where c': "read_once depth c = (Inr True, c')" by blast
    moreover obtain k where k: "0 < k" "k \<le> length (conn_rx c)" "conn_rx c' = drop k (conn_rx c)"
      using read_once_progress [OF c'] less.prems [rule_format, of 0] by (auto simp: conn_rx_def)
    moreover have "\<forall>k. \<not> zero_length_head (drop k (io_receive_buf (cn_io c')))"
      using less.prems k(3) by (simp add: conn_rx_def)
    ultimately have "\<exists>r c2. conn_read depth c' = Some (r, c2)" by (intro less.hyps) auto
    then show ?thesis using c' unfolding conn_read_def by (subst loop_until.simps) simp
  next
    case False
    then show ?thesis
      unfolding conn_read_def by (subst loop_until.simps) (auto split: prod.splits sum.splits)
  qed
qed

theorem conn_read_returns_witness:
  "\<exists>r c'. conn_read 5 (sample_conn\<lparr>cn_io := io_push [1, 77, 0, 3, 9] (cn_io sample_conn)\<rparr>) = Some (r, c')"
proof (rule conn_read_returns, rule allI)
  fix k :: nat
  let ?b = "io_receive_buf (cn_io (sample_conn\<lparr>cn_io := io_push [1, 77, 0, 3, 9] (cn_io sample_conn)\<rparr>))"
  have b: "?b = [1, 77, 0, 3, 9]" by code_simp
  consider "k = 0" | "k = 1" | "2 \<le> k" by linarith
  then show "\<not> zero_length_head (drop k ?b)"
    unfolding b by cases (auto simp: zero_length_head_def)
qed

text \<open>A message of an unknown type that claims to have no bytes.\<close>

definition spins :: "conn \<Rightarrow> bool" where
  "spins c \<longleftrightarrow> zero_length_head (conn_rx c) \<and> 22 \<le> uint (conn_rx c ! 1)"

lemma xid_range: "\<exists>x. extract_message_xid bs = Inr x \<and> 0 \<le> x \<and> x < 4294967296"
proof (cases "8 \<le> length bs")
  case True
  let ?b = "drop 2 (take 6 (drop 2 bs))"
  have "length ?b = 4" using True by simp
  then have "code_range FL (code_decode FL ?b)" using code_decode_range [of ?b FL] by simp
  then show ?thesis using True by (simp add: extract_message_xid_def struct_unpack_def)
qed (simp add: extract_message_xid_def)

lemma error_packs:
  assumes "0 \<le> x" "x < 4294967296" "0 \<le> t" "t < 65536" "0 \<le> k" "k < 65536" "length d < 65524"
  shows "\<exists>bs m g'. message_pack g (MError (ofp_error_init\<lparr>er_type := t, er_code := k, hdr_xid := Some x, er_data := d\<rparr>)) = Inr (bs, m, g')"
  using assms
  by (simp add: ofp_error_pack_def ofp_error_init_def ofp_header_pack_def ofp_error_len_def struct_pack_def rbind_def
      ofp_header_xid_def ofp_header_validate_def ofp_type_map_def OFP_VERSION_def Let_def)

lemma spins_again:
  assumes "spins c"
  obtains c' where "read_once depth c = (Inr True, c')" "spins c'"
proof -
  let ?m = "conn_rx c"
  obtain x where x: "extract_message_xid ?m = Inr x" "0 \<le> x" "x < 4294967296" using xid_range by blast
  have "conn_send_error OFPET_BAD_REQUEST OFPBRC_BAD_TYPE [] c = (Inr (), c\<lparr>cn_switch := s\<rparr>) \<Longrightarrow> thesis" for s
    using assms that [of "c\<lparr>cn_switch := s\<rparr>"] unpackers_length
    by (auto simp: spins_def zero_length_head_def conn_rx_def read_once_def io_peek_def Let_def err_no_unpacker_def
        py_slice_def py_bound_def conn_consume_def consume_receive_buf_def)
  moreover obtain bs m' g where "message_pack (sw_xid (cn_switch c)) (MError (ofp_error_init\<lparr>er_type := OFPET_BAD_REQUEST,
      er_code := OFPBRC_BAD_TYPE, hdr_xid := Some x, er_data := []\<rparr>)) = Inr (bs, m', g)"
    using error_packs [OF x(2,3), of OFPET_BAD_REQUEST OFPBRC_BAD_TYPE "[]" "sw_xid (cn_switch c)"]
    by (auto simp: OFPET_BAD_REQUEST_def OFPBRC_BAD_TYPE_def)
  ultimately show thesis
    using x(1) by (simp add: conn_send_error_def io_peek_def conn_rx_def connection_send_def)
qed

text \<open>
  A message of a type beyond the known ones that claims to have no bytes makes the connection loop for ever: each
  round sends an error, takes no byte away and starts again.
\<close>

theorem conn_read_spins:
  assumes "spins c"
  shows "conn_read depth c = None"
  unfolding conn_read_def by (rule loop_spins [where I = spins, OF _ assms], erule spins_again [of _ depth]) blast

theorem conn_read_spins_witness:
  "conn_read 5 (sample_conn\<lparr>cn_io := io_push [1, 77, 0, 0] (cn_io sample_conn)\<rparr>) = None"
proof (rule conn_read_spins)
  show "spins (sample_conn\<lparr>cn_io := io_push [1, 77, 0, 0] (cn_io sample_conn)\<rparr>)" by code_simp
qed

subsection \<open>Sending without the queue\<close>

text \<open>
  On an idle worker \<^verbatim>\<open>send_fast\<close> never does what \<^verbatim>\<open>send\<close> does: when the socket takes all of the data it raises, when the
  socket takes nothing the data is dropped, and in between one byte of the rest is queued instead of all of it.
\<close>

lemma send_fast_idle:
  assumes "io_send_buf w = []" "\<not> io_connecting w" "\<not> io_closed w" "l \<le> length data" "data \<noteq> []"
  shows "send_fast (Took l) data w =
    (if l = 0 then Inr w else if l = length data then Inl IndexError else Inr (w\<lparr>io_send_buf := [data ! l]\<rparr>))"
  using assms by (auto simp: send_fast_def io_send_def)

end
