(* ===== verification/Port_Collection.thy ===== *)
theory Port_Collection
  imports OF_Structs
begin

text \<open>
  \<^verbatim>\<open>PortCollection\<close> of \<^verbatim>\<open>openflow/of_01.py\<close>: the ports of a switch as the controller knows them. A collection has its own
  ports, a set of masked port numbers and perhaps a parent; the parent holds the ports of the features reply and the
  child the changes since then. Looked up by number, a chain of collections is shown to be a finite map that a
  \<^verbatim>\<open>_forget\<close> and an \<^verbatim>\<open>_update\<close> change at one key. A set is the list of its elements in the order of iteration.
\<close>

section \<open>The class\<close>

datatype PortCollection =
  PortCollection (pc_ports: "ofp_phy_port list") (pc_masks: "int list") (pc_chain: "PortCollection option")

definition PortCollection_init :: PortCollection where
  "PortCollection_init = PortCollection [] [] None"

definition pc_reset :: "PortCollection \<Rightarrow> PortCollection" where
  "pc_reset self = PortCollection [] [] (pc_chain self)"

definition pc_forget :: "ofp_phy_port \<Rightarrow> PortCollection \<Rightarrow> PortCollection" where
  "pc_forget port self =
     PortCollection (filter (\<lambda>p. pp_port_no p \<noteq> pp_port_no port) (pc_ports self))
       (List.insert (pp_port_no port) (pc_masks self)) (pc_chain self)"

definition pc_update :: "ofp_phy_port \<Rightarrow> PortCollection \<Rightarrow> PortCollection" where
  "pc_update port self =
     PortCollection (List.insert port (filter (\<lambda>p. pp_port_no p \<noteq> pp_port_no port) (pc_ports self)))
       (removeAll (pp_port_no port) (pc_masks self)) (pc_chain self)"

text \<open>\<^verbatim>\<open>_ports\<close> of a collection is replaced by the set of some ports.\<close>

definition pc_set_ports :: "ofp_phy_port list \<Rightarrow> PortCollection \<Rightarrow> PortCollection" where
  "pc_set_ports ports self = PortCollection (remdups ports) (pc_masks self) (pc_chain self)"

primrec pc_keys :: "PortCollection \<Rightarrow> int list" where
  "pc_keys (PortCollection ports masks chain) =
     (let k = (case map_option pc_keys chain of
                 Some ks \<Rightarrow> if ks \<noteq> [] then filter (\<lambda>n. n \<notin> set masks) ks else []
               | None \<Rightarrow> [])
      in remdups (k @ map pp_port_no ports))"

definition pc_len :: "PortCollection \<Rightarrow> nat" where
  "pc_len self = length (pc_keys self)"

text \<open>A port is looked up by its number, its address or its name.\<close>

datatype port_index = ByNumber int | ByAddr EthAddr | ByName bytes

fun is_port :: "port_index \<Rightarrow> ofp_phy_port \<Rightarrow> bool" where
  "is_port (ByNumber n) p \<longleftrightarrow> pp_port_no p = n"
| "is_port (ByAddr a) p \<longleftrightarrow> pp_hw_addr p = a"
| "is_port (ByName s) p \<longleftrightarrow> pp_name p = s"

text \<open>A collection is false when it is empty, so an empty parent is not asked.\<close>

primrec pc_getitem :: "PortCollection \<Rightarrow> port_index \<Rightarrow> ofp_phy_port res" where
  "pc_getitem (PortCollection ports masks chain) index =
     (case find (is_port index) ports of
        Some p \<Rightarrow> Inr p
      | None \<Rightarrow>
          (case map_option (\<lambda>c. (pc_keys c, pc_getitem c index)) chain of
             Some (ks, r) \<Rightarrow>
               if ks \<noteq> [] then rbind r (\<lambda>p. if pp_port_no p \<notin> set masks then Inr p else Inl IndexError)
               else Inl IndexError
           | None \<Rightarrow> Inl IndexError))"

definition pc_contains :: "PortCollection \<Rightarrow> port_index \<Rightarrow> bool" where
  "pc_contains self index = (case pc_getitem self index of Inl _ \<Rightarrow> False | Inr _ \<Rightarrow> True)"

definition pc_get :: "PortCollection \<Rightarrow> port_index \<Rightarrow> ofp_phy_port option" where
  "pc_get self index = (case pc_getitem self index of Inl _ \<Rightarrow> None | Inr p \<Rightarrow> Some p)"

definition pc_values :: "PortCollection \<Rightarrow> ofp_phy_port list res" where
  "pc_values self = mapM (\<lambda>k. pc_getitem self (ByNumber k)) (pc_keys self)"

definition pc_items :: "PortCollection \<Rightarrow> (int \<times> ofp_phy_port) list res" where
  "pc_items self = mapM (\<lambda>k. rbind (pc_getitem self (ByNumber k)) (\<lambda>p. Inr (k, p))) (pc_keys self)"

text \<open>\<^verbatim>\<open>copy\<close> builds a new collection and does not return it.\<close>

definition pc_copy :: "PortCollection \<Rightarrow> PortCollection option res" where
  "pc_copy self = rbind (pc_values self) (\<lambda>_. Inr None)"

section \<open>A collection is a map\<close>

definition port_map :: "PortCollection \<Rightarrow> int \<Rightarrow> ofp_phy_port option" where
  "port_map self n = pc_get self (ByNumber n)"

lemma find_port_no: "find (is_port (ByNumber n)) ps = Some p \<Longrightarrow> pp_port_no p = n"
  by (auto simp: find_Some_iff)

lemma getitem_port_no: "pc_getitem c (ByNumber n) = Inr p \<Longrightarrow> pp_port_no p = n"
proof (induction c arbitrary: p)
  case (PortCollection ports masks chain)
  then show ?case
    by (cases chain) (auto simp: rbind_Inr_iff find_port_no split: option.splits if_splits)
qed

lemma port_map_no: "port_map c n = Some p \<Longrightarrow> pp_port_no p = n"
  by (auto simp: port_map_def pc_get_def intro: getitem_port_no split: sum.splits)

lemma keys_getitem: "n \<in> set (pc_keys c) \<longleftrightarrow> (\<exists>p. pc_getitem c (ByNumber n) = Inr p)"
proof (induction c)
  case (PortCollection ports masks chain)
  have f: "find (is_port (ByNumber n)) ports = None \<longleftrightarrow> n \<notin> pp_port_no ` set ports" by (auto simp: find_None_iff)
  show ?case
  proof (cases chain)
    case None
    then show ?thesis using f by (auto split: option.split)
  next
    case (Some c)
    then have "n \<in> set (pc_keys c) \<longleftrightarrow> (\<exists>p. pc_getitem c (ByNumber n) = Inr p)" using PortCollection by simp
    then show ?thesis using f Some getitem_port_no [of c n]
      by (auto simp: rbind_Inr_iff split: option.split)
  qed
qed

lemma dom_port_map: "dom (port_map c) = set (pc_keys c)"
  by (auto simp: port_map_def pc_get_def keys_getitem split: sum.splits)

lemma port_map_step:
  "port_map (PortCollection ports masks chain) n =
     (case find (is_port (ByNumber n)) ports of
        Some p \<Rightarrow> Some p
      | None \<Rightarrow> if n \<in> set masks then None else case chain of None \<Rightarrow> None | Some c \<Rightarrow> port_map c n)"
proof (cases chain)
  case None
  then show ?thesis by (simp add: port_map_def pc_get_def split: option.split)
next
  case (Some c)
  show ?thesis
  proof (cases "pc_getitem c (ByNumber n)")
    case (Inl e)
    then show ?thesis using Some by (auto simp: port_map_def pc_get_def split: option.split)
  next
    case (Inr p)
    then have "pc_keys c \<noteq> []" "pp_port_no p = n" using keys_getitem [of n c] getitem_port_no by auto
    then show ?thesis using Some Inr by (auto simp: port_map_def pc_get_def split: option.split)
  qed
qed

lemma is_port_number: "is_port (ByNumber n) = (\<lambda>p. pp_port_no p = n)"
  by (simp add: fun_eq_iff)

lemma find_filter_no:
  "find (is_port (ByNumber n)) (filter (\<lambda>p. pp_port_no p \<noteq> k) ps) = (if n = k then None else find (is_port (ByNumber n)) ps)"
  unfolding is_port_number by (induction ps) auto

lemma port_map_forget: "port_map (pc_forget port c) = (port_map c)(pp_port_no port := None)"
  by (rule ext, cases c) (auto simp: pc_forget_def port_map_step find_filter_no split: option.split)

lemma find_insert_no:
  assumes "\<forall>p \<in> set ps. pp_port_no p \<noteq> pp_port_no port"
  shows "find (is_port (ByNumber n)) (List.insert port ps) = (if n = pp_port_no port then Some port else find (is_port (ByNumber n)) ps)"
  using assms by (auto simp: List.insert_def)

lemma port_map_update: "port_map (pc_update port c) = (port_map c)(pp_port_no port \<mapsto> port)"
  by (rule ext, cases c) (auto simp: pc_update_def port_map_step find_insert_no find_filter_no split: option.split)

lemma port_map_reset: "port_map (pc_reset c) = (case pc_chain c of None \<Rightarrow> Map.empty | Some d \<Rightarrow> port_map d)"
  by (rule ext, cases c) (auto simp: pc_reset_def port_map_step split: option.split)

lemma mapM_Inr: "(\<And>x. x \<in> set xs \<Longrightarrow> f x = Inr (g x)) \<Longrightarrow> mapM f xs = Inr (map g xs)"
  by (induction xs) simp_all

lemma values_eq: "pc_values c = Inr (map (\<lambda>k. the (port_map c k)) (pc_keys c))"
  unfolding pc_values_def by (rule mapM_Inr) (auto simp: keys_getitem port_map_def pc_get_def)

lemma items_eq: "pc_items c = Inr (map (\<lambda>k. (k, the (port_map c k))) (pc_keys c))"
  unfolding pc_items_def by (rule mapM_Inr) (auto simp: keys_getitem port_map_def pc_get_def)

lemma distinct_keys: "distinct (pc_keys c)"
  by (cases c) (simp add: Let_def)

section \<open>The interface of a port store\<close>

text \<open>
  What a client of a port store relies on: a lookup that sees the last change to a port number, whatever happened to the
  other numbers. From this follows what the store holds after any sequence of changes.
\<close>

datatype port_change = Changed ofp_phy_port | Removed ofp_phy_port

fun change_port :: "port_change \<Rightarrow> ofp_phy_port" where
  "change_port (Changed p) = p"
| "change_port (Removed p) = p"

fun changed_to :: "port_change \<Rightarrow> ofp_phy_port option" where
  "changed_to (Changed p) = Some p"
| "changed_to (Removed p) = None"

locale port_store =
  fixes lookup :: "'c \<Rightarrow> int \<Rightarrow> ofp_phy_port option"
    and put :: "ofp_phy_port \<Rightarrow> 'c \<Rightarrow> 'c"
    and drop :: "ofp_phy_port \<Rightarrow> 'c \<Rightarrow> 'c"
  assumes lookup_put: "lookup (put p c) = (lookup c)(pp_port_no p \<mapsto> p)"
    and lookup_drop: "lookup (drop p c) = (lookup c)(pp_port_no p := None)"
begin

definition apply_change :: "port_change \<Rightarrow> 'c \<Rightarrow> 'c" where
  "apply_change ch c = (case ch of Changed p \<Rightarrow> put p c | Removed p \<Rightarrow> drop p c)"

lemma lookup_change: "lookup (apply_change ch c) = (lookup c)(pp_port_no (change_port ch) := changed_to ch)"
  by (cases ch) (simp_all add: apply_change_def lookup_put lookup_drop)

lemma lookup_changes:
  "lookup (fold apply_change chs c) n =
     (case find (\<lambda>ch. pp_port_no (change_port ch) = n) (rev chs) of Some ch \<Rightarrow> changed_to ch | None \<Rightarrow> lookup c n)"
  by (induction chs rule: rev_induct) (auto simp: lookup_change)

end

interpretation pc: port_store port_map pc_update pc_forget
  by unfold_locales (simp_all add: port_map_update port_map_forget)

section \<open>Properties\<close>

text \<open>The collection after some \<^verbatim>\<open>_update\<close>s and \<^verbatim>\<open>_forget\<close>s.\<close>

definition pc_change :: "port_change \<Rightarrow> PortCollection \<Rightarrow> PortCollection" where
  "pc_change ch c = (case ch of Changed p \<Rightarrow> pc_update p c | Removed p \<Rightarrow> pc_forget p c)"

text \<open>
  C12. A port collection is a finite map from port numbers. After any sequence of updates and removals on a child of
  the collection \<open>orig\<close> of the original ports, a number is bound to what the last change to it says, and to the original
  port when it was never changed; the keys, the values and the items enumerate exactly this map, each key once.
\<close>

theorem port_collection_is_map:
  fixes chs :: "port_change list" and orig :: PortCollection
  defines "c \<equiv> fold pc_change chs (PortCollection [] [] (Some orig))"
  shows "port_map c n =
      (case find (\<lambda>ch. pp_port_no (change_port ch) = n) (rev chs) of Some ch \<Rightarrow> changed_to ch | None \<Rightarrow> port_map orig n) \<and>
    set (pc_keys c) = dom (port_map c) \<and> distinct (pc_keys c) \<and>
    pc_items c = Inr (map (\<lambda>k. (k, the (port_map c k))) (pc_keys c)) \<and>
    pc_values c = Inr (map (\<lambda>k. the (port_map c k)) (pc_keys c))"
proof -
  have e: "pc_change = pc.apply_change" by (simp add: fun_eq_iff pc_change_def pc.apply_change_def)
  have "port_map (PortCollection [] [] (Some orig)) n = port_map orig n" by (simp add: port_map_step)
  then show ?thesis unfolding c_def e using pc.lookup_changes [of chs "PortCollection [] [] (Some orig)" n]
    by (simp add: dom_port_map distinct_keys items_eq values_eq split: option.split)
qed

text \<open>
  Looked up by name the collection can answer with a port that is gone: when a port is renamed, its old name still
  finds the original port through the parent, with its old state, although the collection has another port under that
  number.
\<close>

theorem renamed_port_found:
  assumes "pp_name q \<noteq> pp_name p" "pp_port_no q = pp_port_no p"
  shows "pc_getitem (pc_update q (PortCollection [] [] (Some (PortCollection [p] [] None)))) (ByName (pp_name p)) = Inr p \<and>
    pc_getitem (pc_update q (PortCollection [] [] (Some (PortCollection [p] [] None)))) (ByNumber (pp_port_no p)) = Inr q"
  using assms by (simp add: pc_update_def)

theorem renamed_port_found_witness:
  "pc_getitem (pc_update (ofp_phy_port_init\<lparr>pp_name := [98]\<rparr>) (PortCollection [] []
     (Some (PortCollection [ofp_phy_port_init\<lparr>pp_name := [97]\<rparr>] [] None)))) (ByName [97]) = Inr (ofp_phy_port_init\<lparr>pp_name := [97]\<rparr>)"
  using renamed_port_found [of "ofp_phy_port_init\<lparr>pp_name := [98]\<rparr>" "ofp_phy_port_init\<lparr>pp_name := [97]\<rparr>"] by simp

end
