(* ===== verification/Controller.thy ===== *)
theory Controller
  imports Message_Stream IO_Worker Effects OF_Constants Port_Collection "HOL-Library.AList"
begin

text \<open>
  The controller's end of OpenFlow connections: \<^verbatim>\<open>openflow/of_01.py\<close> and the nexus of \<^verbatim>\<open>openflow/__init__.py\<close>. A
  connection sends bytes, with a deferred sender for what the socket does not take at once, cuts what it receives into
  messages, and hands them to the handlers of its state: those of the handshake, then those of an established connection.

  Connection objects live in a store and are named by their \<^verbatim>\<open>ID\<close>. Applications listen to the events; what the listeners
  do is the argument \<open>app\<close>, a change of the whole state with the answer whether the event is halted. What a socket answers
  to a \<^verbatim>\<open>send\<close> is \<open>ct_sock\<close>, by connection, number of the call and data. Events raised, bytes handed to a connection and
  bytes taken by a socket are recorded in a trace. Logging is left out.
\<close>

section \<open>State\<close>

text \<open>The handlers of the handshake remember whether the features were requested, and the barrier they sent.\<close>

datatype handlers = Handshake bool "ofp_barrier_request option" | Established

record connection =
  cx_nexus :: bool
  cx_buf :: bytes
  cx_dpid :: "int option"
  cx_features :: "ofp_features_reply option"
  cx_deferred_port_status :: "ofp_port_status list option"
  cx_description :: "ofp_desc_stats option"
  cx_disconnected :: bool
  cx_disconnection_raised :: bool
  cx_connect_time :: "int option"
  cx_idle_time :: int
  cx_ports :: PortCollection
  cx_handlers :: handlers
  cx_previous_stats :: "ofp_stats_reply list"

text \<open>\<open>cx_nexus\<close>: the connection has the nexus, not the dummy. The parent of \<open>cx_ports\<close> is \<^verbatim>\<open>original_ports\<close>.\<close>

definition connection_blank :: "int \<Rightarrow> connection" where
  "connection_blank now =
     \<lparr>cx_nexus = False, cx_buf = [], cx_dpid = None, cx_features = None, cx_deferred_port_status = None,
      cx_description = None, cx_disconnected = False, cx_disconnection_raised = False, cx_connect_time = None,
      cx_idle_time = now, cx_ports = PortCollection [] [] (Some PortCollection_init),
      cx_handlers = Handshake False None, cx_previous_stats = []\<rparr>"

datatype of_event =
    ConnectionIn nat
  | ConnectionHandshakeComplete nat
  | ConnectionUp nat "ofp_features_reply option"
  | ConnectionDown nat
  | FeaturesReceived nat ofp_features_reply
  | PortStatus nat ofp_port_status
  | PacketIn nat ofp_packet_in
  | ErrorIn nat ofp_error
  | BarrierIn nat ofp_barrier_reply
  | RawStatsReply nat ofp_stats_reply
  | StatsReceived nat int "ofp_stats_reply list" stats_rep_body
  | FlowRemoved nat ofp_flow_removed
  | ConfigurationReceived nat ofp_get_config_reply

datatype event_source = AtArbiter | AtNexus | AtConnection

datatype ctl_trace =
    Raised event_source of_event
  | Submitted nat bytes
  | Accepted nat bytes
  | SockShutdown nat
  | SockClosed nat

record 'a controller =
  ct_conns :: "nat \<Rightarrow> connection"
  ct_ID :: nat
  ct_sockets :: "nat list"
  ct_connections :: "(int option \<times> nat) list"
  ct_data :: "(nat \<times> bytes list) list"
  ct_sending :: bool
  ct_aborted :: int
  ct_xid :: xid_gen
  ct_now :: int
  ct_miss_send_len :: "int option"
  ct_clear_flows :: bool
  ct_request_description :: bool
  ct_fallback_nexus :: bool
  ct_pipe_buf :: nat
  ct_sock :: "nat \<Rightarrow> nat \<Rightarrow> bytes \<Rightarrow> sock_result"
  ct_calls :: nat
  ct_trace :: "ctl_trace list"
  ct_app :: 'a

type_synonym ('a, 'r) ctl = "('a controller, 'r) st"
type_synonym 'a app = "event_source \<Rightarrow> of_event \<Rightarrow> 'a controller \<Rightarrow> bool \<times> 'a controller"

definition get_conn :: "nat \<Rightarrow> (connection \<Rightarrow> 'r) \<Rightarrow> ('a, 'r) ctl" where
  "get_conn cid f = gets (\<lambda>c. f (ct_conns c cid))"

definition upd_conn :: "nat \<Rightarrow> (connection \<Rightarrow> connection) \<Rightarrow> ('a, unit) ctl" where
  "upd_conn cid f = modify (\<lambda>c. c\<lparr>ct_conns := (ct_conns c)(cid := f (ct_conns c cid))\<rparr>)"

definition emit :: "ctl_trace \<Rightarrow> ('a, unit) ctl" where
  "emit t = modify (\<lambda>c. c\<lparr>ct_trace := ct_trace c @ [t]\<rparr>)"

section \<open>Events\<close>

definition raise_event :: "'a app \<Rightarrow> event_source \<Rightarrow> of_event \<Rightarrow> ('a, bool) ctl" where
  "raise_event app src ev = sbind (emit (Raised src ev)) (\<lambda>_ c. case app src ev c of (halt, c) \<Rightarrow> (Inr halt, c))"

text \<open>\<^verbatim>\<open>con.ofnexus.raiseEventNoErrors\<close>: the dummy nexus only logs and returns None.\<close>

definition raise_nexus :: "'a app \<Rightarrow> nat \<Rightarrow> of_event \<Rightarrow> ('a, bool) ctl" where
  "raise_nexus app cid ev =
     sbind (get_conn cid cx_nexus) (\<lambda>real. if real then raise_event app AtNexus ev else ret False)"

definition raise_both :: "'a app \<Rightarrow> nat \<Rightarrow> of_event \<Rightarrow> ('a, unit) ctl" where
  "raise_both app cid ev =
     sbind (raise_nexus app cid ev) (\<lambda>halt.
       if halt then ret () else sbind (raise_event app AtConnection ev) (\<lambda>_. ret ()))"

section \<open>The nexus\<close>

definition nexus_connect :: "nat \<Rightarrow> ('a, unit) ctl" where
  "nexus_connect cid =
     sbind (get_conn cid cx_dpid) (\<lambda>dpid. modify (\<lambda>c. c\<lparr>ct_connections := AList.update dpid cid (ct_connections c)\<rparr>))"

definition nexus_disconnect :: "int option \<Rightarrow> ('a, bool) ctl" where
  "nexus_disconnect dpid c =
     (if map_of (ct_connections c) dpid \<noteq> None
      then (Inr True, c\<lparr>ct_connections := AList.delete dpid (ct_connections c)\<rparr>)
      else (Inr False, c))"

definition getConnection :: "int \<Rightarrow> 'a controller \<Rightarrow> nat option" where
  "getConnection dpid c = map_of (ct_connections c) (Some dpid)"

text \<open>The arbiter: nobody who listens to \<open>ConnectionIn\<close> picks another nexus; without one the fallback is \<^verbatim>\<open>core.openflow\<close>.\<close>

definition getNexus :: "'a app \<Rightarrow> nat \<Rightarrow> ('a, bool) ctl" where
  "getNexus app cid = sbind (raise_event app AtArbiter (ConnectionIn cid)) (\<lambda>_. gets ct_fallback_nexus)"

section \<open>Sending\<close>

text \<open>\<^verbatim>\<open>PIPE_BUF\<close> is not zero.\<close>

function sliceup :: "nat \<Rightarrow> bytes \<Rightarrow> bytes list" where
  "sliceup n data =
     (if n > 0 \<and> length data > n then take n data # sliceup n (drop n data)
      else if data \<noteq> [] then [data] else [])"
  by pat_completeness auto
termination by (relation "measure (\<lambda>(n, data). length data)") auto

declare sliceup.simps [simp del]

definition deferred_send :: "nat \<Rightarrow> bytes \<Rightarrow> ('a, unit) ctl" where
  "deferred_send cid data = modify (\<lambda>c. c\<lparr>ct_sending := True,
     ct_data := AList.update cid
       ((case map_of (ct_data c) cid of Some old \<Rightarrow> old | None \<Rightarrow> []) @ sliceup (ct_pipe_buf c) data) (ct_data c)\<rparr>)"

definition deferred_kill :: "nat \<Rightarrow> ('a, unit) ctl" where
  "deferred_kill cid = modify (\<lambda>c. c\<lparr>ct_data := AList.delete cid (ct_data c)\<rparr>)"

text \<open>One call of \<^verbatim>\<open>sock.send\<close>.\<close>

definition sock_send :: "nat \<Rightarrow> bytes \<Rightarrow> ('a, sock_result) ctl" where
  "sock_send cid data c =
     (let r = ct_sock c cid (ct_calls c) data in
      (Inr r, c\<lparr>ct_calls := ct_calls c + 1,
         ct_trace := ct_trace c @ (case r of Took l \<Rightarrow> [Accepted cid (take l data)] | _ \<Rightarrow> [])\<rparr>))"

definition disconnect :: "'a app \<Rightarrow> nat \<Rightarrow> bool \<Rightarrow> ('a, unit) ctl" where
  "disconnect app cid defer_event =
     sbind (get_conn cid cx_dpid) (\<lambda>dpid.
     sbind (if dpid = None then modify (\<lambda>c. c\<lparr>ct_aborted := ct_aborted c + 1\<rparr>) else ret ()) (\<lambda>_.
     sbind (upd_conn cid (\<lambda>k. k\<lparr>cx_disconnected := True\<rparr>)) (\<lambda>_.
     sbind (get_conn cid cx_nexus) (\<lambda>real.
     sbind (if real then sbind (nexus_disconnect dpid) (\<lambda>_. ret ()) else ret ()) (\<lambda>_.
     sbind (get_conn cid cx_disconnection_raised) (\<lambda>raised.
     sbind (if dpid \<noteq> None \<and> \<not> raised \<and> \<not> defer_event then
              sbind (upd_conn cid (\<lambda>k. k\<lparr>cx_disconnection_raised := True\<rparr>)) (\<lambda>_.
              sbind (raise_nexus app cid (ConnectionDown cid)) (\<lambda>_.
              sbind (raise_event app AtConnection (ConnectionDown cid)) (\<lambda>_. ret ())))
            else ret ()) (\<lambda>_.
     emit (SockShutdown cid))))))))"

definition con_close :: "'a app \<Rightarrow> nat \<Rightarrow> ('a, unit) ctl" where
  "con_close app cid = sbind (disconnect app cid False) (\<lambda>_. emit (SockClosed cid))"

text \<open>\<^verbatim>\<open>Connection.send\<close> of bytes; a socket error disconnects without the event (\<open>defer_event\<close>), so no listener runs.\<close>

definition quiet :: "'a app" where
  "quiet src ev c = (False, c)"

definition send_bytes :: "nat \<Rightarrow> bytes \<Rightarrow> ('a, unit) ctl" where
  "send_bytes cid data =
     sbind (get_conn cid cx_disconnected) (\<lambda>gone.
     if gone then ret ()
     else
       sbind (emit (Submitted cid data)) (\<lambda>_.
       sbind (gets ct_sending) (\<lambda>busy.
       if busy then deferred_send cid data
       else
         sbind (sock_send cid data) (\<lambda>r.
         case r of
           Took l \<Rightarrow> if l \<noteq> length data then deferred_send cid (drop l data) else ret ()
         | WouldBlock \<Rightarrow> deferred_send cid data
         | SockError \<Rightarrow> disconnect quiet cid True))))"

definition pack_msg :: "ofp_message \<Rightarrow> ('a, bytes \<times> ofp_message) ctl" where
  "pack_msg m c =
     (case message_pack (ct_xid c) m of
        Inl e \<Rightarrow> (Inl e, c)
      | Inr (bs, m, g) \<Rightarrow> (Inr (bs, m), c\<lparr>ct_xid := g\<rparr>))"

text \<open>\<^verbatim>\<open>Connection.send\<close> of a message; packing fills in the xid of the object, which is returned.\<close>

definition con_send :: "nat \<Rightarrow> ofp_message \<Rightarrow> ('a, ofp_message) ctl" where
  "con_send cid m =
     sbind (get_conn cid cx_disconnected) (\<lambda>gone.
     if gone then ret m
     else sbind (pack_msg m) (\<lambda>(bs, m). sbind (send_bytes cid bs) (\<lambda>_. ret m)))"

definition sendToDPID :: "int \<Rightarrow> bytes \<Rightarrow> ('a, bool) ctl" where
  "sendToDPID dpid data =
     sbind (gets (getConnection dpid)) (\<lambda>k.
     case k of Some cid \<Rightarrow> sbind (send_bytes cid data) (\<lambda>_. ret True) | None \<Rightarrow> ret False)"

text \<open>The deferred sender: send the slices of one connection until the socket takes no more.\<close>

fun flush :: "'a app \<Rightarrow> nat \<Rightarrow> bytes list \<Rightarrow> ('a, unit) ctl" where
  "flush app cid [] = ret ()"
| "flush app cid (data # rest) =
     sbind (sock_send cid data) (\<lambda>r.
     case r of
       Took l \<Rightarrow>
         if l \<noteq> length data
         then modify (\<lambda>c. c\<lparr>ct_data := AList.update cid (drop l data # rest) (ct_data c)\<rparr>)
         else sbind (modify (\<lambda>c. c\<lparr>ct_data := AList.update cid rest (ct_data c)\<rparr>)) (\<lambda>_. flush app cid rest)
     | WouldBlock \<Rightarrow> ret ()
     | SockError \<Rightarrow> sbind (disconnect app cid False) (\<lambda>_. deferred_kill cid))"

text \<open>One connection of \<^verbatim>\<open>wlist\<close>; the result says that nothing is left to send for anybody, which ends the round.\<close>

definition flush_one :: "'a app \<Rightarrow> nat \<Rightarrow> ('a, bool) ctl" where
  "flush_one app cid =
     sbind (gets (\<lambda>c. map_of (ct_data c) cid)) (\<lambda>d.
     case d of
       None \<Rightarrow> ret False
     | Some alldata \<Rightarrow>
         sbind (flush app cid alldata) (\<lambda>_.
         sbind (gets (\<lambda>c. map_of (ct_data c) cid)) (\<lambda>left.
         if left = Some [] then
           sbind (deferred_kill cid) (\<lambda>_.
           sbind (gets ct_data) (\<lambda>data.
           if data = [] then sbind (modify (\<lambda>c. c\<lparr>ct_sending := False\<rparr>)) (\<lambda>_. ret True) else ret False))
         else ret False)))"

fun flush_all :: "'a app \<Rightarrow> nat list \<Rightarrow> ('a, unit) ctl" where
  "flush_all app [] = ret ()"
| "flush_all app (cid # cids) = sbind (flush_one app cid) (\<lambda>stop. if stop then ret () else flush_all app cids)"

definition deferred_round :: "'a app \<Rightarrow> nat list \<Rightarrow> nat list \<Rightarrow> ('a, unit) ctl" where
  "deferred_round app elist wlist = sbind (for_each deferred_kill elist) (\<lambda>_. flush_all app wlist)"

section \<open>Statistics replies\<close>

text \<open>\<^verbatim>\<open>list.extend\<close> with the body of a reply.\<close>

definition body_items :: "stats_rep_body \<Rightarrow> stats_part list res" where
  "body_items b =
     (case b of
        BList ps \<Rightarrow> Inr ps
      | BOne (SBytes bs) \<Rightarrow> Inr (map (\<lambda>x. SBytes [x]) bs)
      | BOne _ \<Rightarrow> Inl TypeError)"

fun extend_all :: "ofp_stats_reply list \<Rightarrow> stats_part list res" where
  "extend_all [] = Inr []"
| "extend_all (p # ps) = rbind (body_items (sp_body p)) (\<lambda>xs. rbind (extend_all ps) (\<lambda>ys. Inr (xs @ ys)))"

text \<open>\<^verbatim>\<open>statsHandlerMap\<close>: descriptions and aggregates have one part, the others are put together from all parts.\<close>

definition stats_handler :: "'a app \<Rightarrow> nat \<Rightarrow> int \<Rightarrow> ofp_stats_reply list \<Rightarrow> ('a, unit) ctl" where
  "stats_handler app cid type parts =
     (if type \<in> {0, 2} then raise_both app cid (StatsReceived cid type [hd parts] (sp_body (hd parts)))
      else sbind (lift (extend_all parts)) (\<lambda>msg. raise_both app cid (StatsReceived cid type parts (BList msg))))"

text \<open>
  \<^verbatim>\<open>_incoming_stats_reply\<close>. A reply that does not continue the pending ones is reported with an attribute that does not
  exist, and a type without a handler by looking into the list that was just emptied: both raise.
\<close>

definition incoming_stats_reply :: "'a app \<Rightarrow> nat \<Rightarrow> ofp_stats_reply \<Rightarrow> ('a, unit) ctl" where
  "incoming_stats_reply app cid ofp =
     (if \<not> ofp_stats_reply_is_last_reply ofp \<and> sp_type ofp \<notin> {Some 1, Some 3, Some 4, Some 5}
      then upd_conn cid (\<lambda>k. k\<lparr>cx_previous_stats := []\<rparr>)
      else
        sbind (get_conn cid cx_previous_stats) (\<lambda>prev.
        sbind (if prev \<noteq> [] then
                 (if hdr_xid ofp = hdr_xid (hd prev) \<and> sp_type ofp = sp_type (hd prev)
                  then upd_conn cid (\<lambda>k. k\<lparr>cx_previous_stats := prev @ [ofp]\<rparr>)
                  else raise AttributeError)
               else upd_conn cid (\<lambda>k. k\<lparr>cx_previous_stats := [ofp]\<rparr>)) (\<lambda>_.
        if ofp_stats_reply_is_last_reply ofp then
          sbind (get_conn cid cx_previous_stats) (\<lambda>s.
          sbind (upd_conn cid (\<lambda>k. k\<lparr>cx_previous_stats := []\<rparr>)) (\<lambda>_.
          case sp_type (hd s) of
            Some t \<Rightarrow> if t \<in> {0, 1, 2, 3, 4, 5} then stats_handler app cid t s else raise IndexError
          | None \<Rightarrow> raise IndexError))
        else ret ())))"

section \<open>Handlers of an established connection\<close>

definition handle_PORT_STATUS :: "'a app \<Rightarrow> nat \<Rightarrow> ofp_port_status \<Rightarrow> ('a, unit) ctl" where
  "handle_PORT_STATUS app cid msg =
     sbind (if ps_reason msg = OFPPR_DELETE
            then upd_conn cid (\<lambda>k. k\<lparr>cx_ports := pc_forget (ps_desc msg) (cx_ports k)\<rparr>)
            else upd_conn cid (\<lambda>k. k\<lparr>cx_ports := pc_update (ps_desc msg) (cx_ports k)\<rparr>)) (\<lambda>_.
     raise_both app cid (PortStatus cid msg))"

definition handle_ECHO_REQUEST :: "nat \<Rightarrow> ofp_echo_request \<Rightarrow> ('a, unit) ctl" where
  "handle_ECHO_REQUEST cid msg = sbind (con_send cid (MEchoRequest (msg\<lparr>hdr_type := 3\<rparr>))) (\<lambda>_. ret ())"

text \<open>The ports of a features reply become the original ports, and the changes since then are forgotten.\<close>

definition reset_ports :: "ofp_phy_port list \<Rightarrow> PortCollection \<Rightarrow> PortCollection" where
  "reset_ports ports self =
     pc_reset (PortCollection (pc_ports self) (pc_masks self) (map_option (pc_set_ports ports) (pc_chain self)))"

definition take_features :: "nat \<Rightarrow> ofp_features_reply \<Rightarrow> ('a, unit) ctl" where
  "take_features cid msg = upd_conn cid (\<lambda>k. k\<lparr>cx_features := Some msg, cx_ports := reset_ports (fr_ports msg) (cx_ports k),
     cx_dpid := Some (fr_datapath_id msg)\<rparr>)"

definition handle_FEATURES_REPLY :: "'a app \<Rightarrow> nat \<Rightarrow> ofp_features_reply \<Rightarrow> ('a, unit) ctl" where
  "handle_FEATURES_REPLY app cid msg =
     sbind (take_features cid msg) (\<lambda>_.
     sbind (nexus_connect cid) (\<lambda>_.
     raise_both app cid (FeaturesReceived cid msg)))"

fun default_handlers :: "'a app \<Rightarrow> nat \<Rightarrow> ofp_message \<Rightarrow> ('a, unit) ctl" where
  "default_handlers app cid (MStatsReply m) =
     sbind (raise_both app cid (RawStatsReply cid m)) (\<lambda>_. incoming_stats_reply app cid m)"
| "default_handlers app cid (MPortStatus m) = handle_PORT_STATUS app cid m"
| "default_handlers app cid (MPacketIn m) = raise_both app cid (PacketIn cid m)"
| "default_handlers app cid (MError m) = raise_both app cid (ErrorIn cid m)"
| "default_handlers app cid (MBarrierReply m) = raise_both app cid (BarrierIn cid m)"
| "default_handlers app cid (MHello m) = sbind (con_send cid (MFeaturesRequest ofp_features_request_init)) (\<lambda>_. ret ())"
| "default_handlers app cid (MEchoRequest m) = handle_ECHO_REQUEST cid m"
| "default_handlers app cid (MFlowRemoved m) = raise_both app cid (FlowRemoved cid m)"
| "default_handlers app cid (MFeaturesReply m) = handle_FEATURES_REPLY app cid m"
| "default_handlers app cid (MGetConfigReply m) = raise_both app cid (ConfigurationReceived cid m)"
| "default_handlers app cid _ = ret ()"

section \<open>The handshake\<close>

definition finish_connecting :: "'a app \<Rightarrow> nat \<Rightarrow> ('a, unit) ctl" where
  "finish_connecting app cid =
     sbind (nexus_connect cid) (\<lambda>_.
     sbind (gets ct_now) (\<lambda>now.
     sbind (upd_conn cid (\<lambda>k. k\<lparr>cx_connect_time := Some now, cx_handlers := Established\<rparr>)) (\<lambda>_.
     sbind (raise_nexus app cid (ConnectionHandshakeComplete cid)) (\<lambda>_.
     sbind (get_conn cid cx_features) (\<lambda>features.
     sbind (raise_both app cid (ConnectionUp cid features)) (\<lambda>_.
     sbind (get_conn cid cx_features) (\<lambda>features.
     sbind (case features of None \<Rightarrow> ret () | Some f \<Rightarrow> raise_both app cid (FeaturesReceived cid f)) (\<lambda>_.
     sbind (get_conn cid cx_deferred_port_status) (\<lambda>early.
     case early of
       Some (m # ms) \<Rightarrow>
         sbind (for_each (handle_PORT_STATUS app cid) (m # ms)) (\<lambda>_.
         upd_conn cid (\<lambda>k. k\<lparr>cx_deferred_port_status := None\<rparr>))
     | _ \<Rightarrow> ret ())))))))))"

text \<open>The xid of the barrier, which an unsent barrier gets when it is read.\<close>

definition barrier_xid :: "nat \<Rightarrow> bool \<Rightarrow> ofp_barrier_request \<Rightarrow> ('a, int) ctl" where
  "barrier_xid cid requested b =
     sbind (gets (\<lambda>c. ofp_header_xid (ct_xid c) b)) (\<lambda>(x, b, g).
     sbind (modify (\<lambda>c. c\<lparr>ct_xid := g\<rparr>)) (\<lambda>_.
     sbind (upd_conn cid (\<lambda>k. k\<lparr>cx_handlers := Handshake requested (Some b)\<rparr>)) (\<lambda>_. ret x)))"

definition hs_BARRIER_REPLY ::
  "'a app \<Rightarrow> nat \<Rightarrow> bool \<Rightarrow> ofp_barrier_request option \<Rightarrow> ofp_barrier_reply \<Rightarrow> ('a, unit) ctl"
where
  "hs_BARRIER_REPLY app cid requested barrier msg =
     (case barrier of
        None \<Rightarrow> ret ()
      | Some b \<Rightarrow>
          sbind (barrier_xid cid requested b) (\<lambda>x.
          if hdr_xid msg \<noteq> Some x then
            sbind (upd_conn cid (\<lambda>k. k\<lparr>cx_dpid := None\<rparr>)) (\<lambda>_. disconnect app cid False)
          else finish_connecting app cid))"

definition hs_ERROR :: "'a app \<Rightarrow> nat \<Rightarrow> bool \<Rightarrow> ofp_barrier_request option \<Rightarrow> ofp_error \<Rightarrow> ('a, unit) ctl" where
  "hs_ERROR app cid requested barrier msg =
     (case barrier of
        None \<Rightarrow> ret ()
      | Some b \<Rightarrow>
          sbind (barrier_xid cid requested b) (\<lambda>x.
          if hdr_xid msg \<noteq> Some x then ret ()
          else if er_type msg \<noteq> OFPET_BAD_REQUEST then ret ()
          else if er_code msg \<noteq> OFPBRC_BAD_TYPE then ret ()
          else finish_connecting app cid))"

definition hs_HELLO :: "nat \<Rightarrow> bool \<Rightarrow> ofp_barrier_request option \<Rightarrow> ('a, unit) ctl" where
  "hs_HELLO cid requested barrier =
     (if requested then ret ()
      else
        sbind (upd_conn cid (\<lambda>k. k\<lparr>cx_handlers := Handshake True barrier\<rparr>)) (\<lambda>_.
        sbind (gets ct_request_description) (\<lambda>desc.
        if desc then
          sbind (pack_msg (MFeaturesRequest ofp_features_request_init)) (\<lambda>(fr, _).
          sbind (pack_msg (MStatsRequest (ofp_stats_request_set_body RDesc ofp_stats_request_init))) (\<lambda>(ss, _).
          send_bytes cid (fr @ ss)))
        else sbind (con_send cid (MFeaturesRequest ofp_features_request_init)) (\<lambda>_. ret ()))))"

definition hs_STATS_REPLY :: "nat \<Rightarrow> ofp_stats_reply \<Rightarrow> ('a, unit) ctl" where
  "hs_STATS_REPLY cid msg =
     (case sp_body msg of
        BOne (SDesc d) \<Rightarrow> upd_conn cid (\<lambda>k. k\<lparr>cx_description := Some d\<rparr>)
      | _ \<Rightarrow> ret ())"

definition hs_FEATURES_REPLY :: "'a app \<Rightarrow> nat \<Rightarrow> bool \<Rightarrow> ofp_features_reply \<Rightarrow> ('a, unit) ctl" where
  "hs_FEATURES_REPLY app cid requested msg =
     sbind (take_features cid msg) (\<lambda>_.
     sbind (upd_conn cid (\<lambda>k. k\<lparr>cx_deferred_port_status := Some []\<rparr>)) (\<lambda>_.
     sbind (getNexus app cid) (\<lambda>nexus.
     if \<not> nexus then disconnect app cid False
     else
       sbind (upd_conn cid (\<lambda>k. k\<lparr>cx_nexus := True\<rparr>)) (\<lambda>_.
       sbind (gets ct_miss_send_len) (\<lambda>len.
       sbind (case len of
                None \<Rightarrow> ret ()
              | Some l \<Rightarrow> sbind (con_send cid (MSetConfig (ofp_set_config_init\<lparr>sc_miss_send_len := l\<rparr>))) (\<lambda>_. ret ())) (\<lambda>_.
       sbind (gets ct_clear_flows) (\<lambda>clear.
       sbind (if clear
              then sbind (con_send cid (MFlowMod (ofp_flow_mod_init\<lparr>fm_match := ofp_match_init, fm_command := OFPFC_DELETE\<rparr>))) (\<lambda>_. ret ())
              else ret ()) (\<lambda>_.
       sbind (upd_conn cid (\<lambda>k. k\<lparr>cx_handlers := Handshake requested (Some ofp_barrier_request_init)\<rparr>)) (\<lambda>_.
       sbind (con_send cid (MBarrierRequest ofp_barrier_request_init)) (\<lambda>m.
       case m of
         MBarrierRequest b \<Rightarrow> upd_conn cid (\<lambda>k. k\<lparr>cx_handlers := Handshake requested (Some b)\<rparr>)
       | _ \<Rightarrow> ret ()))))))))))"

definition hs_PORT_STATUS :: "nat \<Rightarrow> ofp_port_status \<Rightarrow> ('a, unit) ctl" where
  "hs_PORT_STATUS cid msg =
     upd_conn cid (\<lambda>k. k\<lparr>cx_deferred_port_status := map_option (\<lambda>ms. ms @ [msg]) (cx_deferred_port_status k)\<rparr>)"

fun handshake_handlers ::
  "'a app \<Rightarrow> nat \<Rightarrow> bool \<Rightarrow> ofp_barrier_request option \<Rightarrow> ofp_message \<Rightarrow> ('a, unit) ctl"
where
  "handshake_handlers app cid requested barrier (MBarrierReply m) = hs_BARRIER_REPLY app cid requested barrier m"
| "handshake_handlers app cid requested barrier (MError m) = hs_ERROR app cid requested barrier m"
| "handshake_handlers app cid requested barrier (MHello m) = hs_HELLO cid requested barrier"
| "handshake_handlers app cid requested barrier (MEchoRequest m) = handle_ECHO_REQUEST cid m"
| "handshake_handlers app cid requested barrier (MStatsReply m) = hs_STATS_REPLY cid m"
| "handshake_handlers app cid requested barrier (MFeaturesReply m) = hs_FEATURES_REPLY app cid requested m"
| "handshake_handlers app cid requested barrier (MPortStatus m) = hs_PORT_STATUS cid m"
| "handshake_handlers app cid requested barrier _ = ret ()"

definition handle :: "'a app \<Rightarrow> nat \<Rightarrow> ofp_message \<Rightarrow> ('a, unit) ctl" where
  "handle app cid m =
     sbind (get_conn cid cx_handlers) (\<lambda>h.
     case h of
       Handshake requested barrier \<Rightarrow> handshake_handlers app cid requested barrier m
     | Established \<Rightarrow> default_handlers app cid m)"

section \<open>Reading\<close>

text \<open>
  A round of the loop in \<^verbatim>\<open>Connection.read\<close>, on the bytes before and behind the offset; a bad version ends the loop and
  throws the connection away. An exception of a handler is only logged.
\<close>

type_synonym 'a reader = "bytes \<times> bytes \<times> bool \<times> 'a controller"

definition read_msg :: "'a app \<Rightarrow> nat \<Rightarrow> 'a reader \<Rightarrow> bool res \<times> 'a reader" where
  "read_msg app cid = (\<lambda>(pre, rest, bad, c).
     if length rest < 8 then (Inr False, (pre, rest, bad, c))
     else
       let ofp_type = uint (rest ! 1) in
       if uint (rest ! 0) \<noteq> OFP_VERSION \<and> ofp_type \<noteq> 0 then (Inr False, (pre, rest, True, c))
       else
         let msg_length = push_bit 8 (uint (rest ! 2)) OR uint (rest ! 3) in
         if int (length rest) < msg_length then (Inr False, (pre, rest, bad, c))
         else if \<not> ofp_type < int (length make_type_to_unpacker_table) then (Inl IndexError, (pre, rest, bad, c))
         else
           case (make_type_to_unpacker_table ! nat ofp_type) (pre @ rest) (int (length pre)) of
             Inl e \<Rightarrow> (Inl e, (pre, rest, bad, c))
           | Inr (new_offset, msg) \<Rightarrow>
               if new_offset - int (length pre) \<noteq> msg_length then (Inl AssertionError, (pre, rest, bad, c))
               else (Inr True, (pre @ take (nat msg_length) rest, drop (nat msg_length) rest, bad, snd (handle app cid msg c))))"

text \<open>\<^verbatim>\<open>Connection.read\<close> with what \<^verbatim>\<open>recv\<close> returned (None: it raised); the result says whether to keep the connection.\<close>

definition con_read :: "'a app \<Rightarrow> nat \<Rightarrow> bytes option \<Rightarrow> 'a controller \<Rightarrow> (bool res \<times> 'a controller) option" where
  "con_read app cid d c =
     (case d of
        None \<Rightarrow> Some (Inr False, c)
      | Some data \<Rightarrow>
          if data = [] then Some (Inr False, c)
          else
            let c = snd (upd_conn cid (\<lambda>k. k\<lparr>cx_buf := cx_buf k @ data\<rparr>) c) in
            (case loop_until (read_msg app cid) ([], cx_buf (ct_conns c cid), False, c) of
               None \<Rightarrow> None
             | Some (Inl e, (pre, rest, bad, c)) \<Rightarrow> Some (Inl e, c)
             | Some (Inr _, (pre, rest, bad, c)) \<Rightarrow>
                 if bad then Some (Inr False, c)
                 else Some (Inr True, snd (upd_conn cid (\<lambda>k. k\<lparr>cx_buf := drop (length pre) (cx_buf k)\<rparr>) c))))"

section \<open>The listening task\<close>

text \<open>A new connection says hello at once.\<close>

definition Connection_init :: "('a, nat) ctl" where
  "Connection_init =
     sbind (gets (\<lambda>c. ct_ID c + 1)) (\<lambda>cid.
     sbind (modify (\<lambda>c. c\<lparr>ct_ID := cid, ct_conns := (ct_conns c)(cid := connection_blank (ct_now c))\<rparr>)) (\<lambda>_.
     sbind (con_send cid (MHello ofp_hello_init)) (\<lambda>_. ret cid)))"

definition task_accept :: "('a, nat) ctl" where
  "task_accept = sbind Connection_init (\<lambda>cid. sbind (modify (\<lambda>c. c\<lparr>ct_sockets := ct_sockets c @ [cid]\<rparr>)) (\<lambda>_. ret cid))"

definition task_close :: "'a app \<Rightarrow> nat \<Rightarrow> ('a, unit) ctl" where
  "task_close app cid = sbind (con_close app cid) (\<lambda>_. modify (\<lambda>c. c\<lparr>ct_sockets := remove1 cid (ct_sockets c)\<rparr>))"

text \<open>The socket of a connection is readable: it is closed when \<^verbatim>\<open>read\<close> returns False or raises.\<close>

definition task_readable :: "'a app \<Rightarrow> nat \<Rightarrow> bytes option \<Rightarrow> 'a controller \<Rightarrow> 'a controller option" where
  "task_readable app cid d c =
     (let c = snd (upd_conn cid (\<lambda>k. k\<lparr>cx_idle_time := ct_now c\<rparr>) c) in
      case con_read app cid d c of
        None \<Rightarrow> None
      | Some (Inr True, c) \<Rightarrow> Some c
      | Some (_, c) \<Rightarrow> Some (snd (task_close app cid c)))"

end
