(* ===== verification/Message_Progress.thy ===== *)
theory Message_Progress
  imports OF_Codec
begin

text \<open>
  How far reading a message gets. Every unpacker but one moves on by at least the length of a header; the generic vendor
  message is read without a check of its length, and one that claims to have no bytes is read where it stands.
\<close>

section \<open>Results of a reader\<close>

definition yields :: "('x \<Rightarrow> bool) \<Rightarrow> 'x res \<Rightarrow> bool" where
  "yields P m \<longleftrightarrow> (\<forall>x. m = Inr x \<longrightarrow> P x)"

named_theorems yields_intro \<open>properties of the results of readers\<close>

lemma yields_Inl [yields_intro]: "yields P (Inl e)"
  by (simp add: yields_def)

lemma yields_Inr: "yields P (Inr x) \<longleftrightarrow> P x"
  by (simp add: yields_def)

lemma yields_rbind [yields_intro]: "(\<And>x. yields P (f x)) \<Longrightarrow> yields P (rbind m f)"
  by (auto simp: yields_def rbind_Inr_iff)

lemma yields_case_prod [yields_intro]: "(\<And>a b. yields P (f a b)) \<Longrightarrow> yields P (case x of (a, b) \<Rightarrow> f a b)"
  by (cases x) simp

lemma yields_if: "(b \<Longrightarrow> P x) \<Longrightarrow> yields P (if b then Inr x else Inl e)"
  by (simp add: yields_def)

lemma yields_tup [yields_intro]:
  "(\<And>a. yields P (f1 a)) \<Longrightarrow> yields P (tup1 vs f1)"
  "(\<And>a b. yields P (f2 a b)) \<Longrightarrow> yields P (tup2 vs f2)"
  "(\<And>a b c. yields P (f3 a b c)) \<Longrightarrow> yields P (tup3 vs f3)"
  "(\<And>a b c d. yields P (f4 a b c d)) \<Longrightarrow> yields P (tup4 vs f4)"
  "(\<And>a b c d e. yields P (f5 a b c d e)) \<Longrightarrow> yields P (tup5 vs f5)"
  "(\<And>a b c d e f. yields P (f6 a b c d e f)) \<Longrightarrow> yields P (tup6 vs f6)"
  "(\<And>a b c d e f g h. yields P (f8 a b c d e f g h)) \<Longrightarrow> yields P (tup8 vs f8)"
  by (auto simp: tup1_def tup2_def tup3_def tup4_def tup5_def tup6_def tup8_def yields_Inl split: list.split)

lemma yields_then: "yields Q m \<Longrightarrow> (\<And>x. Q x \<Longrightarrow> yields P (f x)) \<Longrightarrow> yields P (rbind m f)"
  by (auto simp: yields_def rbind_Inr_iff)

lemma unpack_offset: "yields (\<lambda>(r, vs). r = off + int (calcsize fmt)) (of_unpack fmt raw off)"
  by (auto simp: yields_def of_unpack_def Let_def rbind_Inr_iff split: if_splits)

lemma header_offset: "yields (\<lambda>(s, r, len). r = off + 8) (ofp_unpack_header self raw off)"
  unfolding ofp_unpack_header_def by (rule yields_then [OF unpack_offset]) (auto simp: yields_Inl yields_Inr split: list.split)

lemma yields_header: "(\<And>s len. yields P (f (s, off + 8, len))) \<Longrightarrow> yields P (rbind (ofp_unpack_header self raw off) f)"
  by (rule yields_then [OF header_offset]) auto

section \<open>Lengths\<close>

lemma mapM_sum_nonneg: "mapM (f :: 'x \<Rightarrow> int res) xs = Inr ls \<Longrightarrow> (\<And>x l. f x = Inr l \<Longrightarrow> 0 \<le> l) \<Longrightarrow> 0 \<le> sum_list ls"
  by (induction xs arbitrary: ls) (auto simp: rbind_Inr_iff add_nonneg_nonneg)

lemma queue_len_nonneg: "ofp_packet_queue_len q = Inr l \<Longrightarrow> 0 \<le> l"
proof -
  have p: "queue_prop_len x = Inr n \<Longrightarrow> 0 \<le> n" for x n
    by (cases x) (auto simp: ofp_queue_prop_generic_len_def ofp_queue_prop_min_rate_len_def)
  show "ofp_packet_queue_len q = Inr l \<Longrightarrow> 0 \<le> l"
    using mapM_sum_nonneg [of queue_prop_len, OF _ p] by (force simp: ofp_packet_queue_len_def rbind_Inr_iff)
qed

lemma part_len_nonneg: "part_len p = Inr l \<Longrightarrow> 0 \<le> l"
  using actions_len_nonneg
  by (cases p) (auto simp: ofp_desc_stats_len_def ofp_flow_stats_len_def ofp_aggregate_stats_len_def ofp_table_stats_len_def
      ofp_port_stats_len_def ofp_queue_stats_len_def ofp_vendor_stats_generic_len_def ofp_match_len_def add_nonneg_nonneg)

section \<open>Every message but one moves on\<close>

text \<open>The length of what was read, when it is the distance the reader moved.\<close>

definition moves :: "int \<Rightarrow> 'm \<times> int \<times> int \<Rightarrow> bool" where
  "moves off = (\<lambda>(m, r, len). r - off = len \<longrightarrow> 0 < len)"

lemma moves_len: "(b \<Longrightarrow> 0 < len) \<Longrightarrow> yields (moves off) (if b then Inr (m, r, len) else Inl e)"
  by (rule yields_if) (simp add: moves_def)

lemma moves_header: "yields (moves off) (Inr (m, off + 8, len))"
  by (simp add: yields_def moves_def)

lemmas fixed_lens = ofp_set_config_len_def ofp_port_mod_len_def ofp_queue_get_config_request_len_def ofp_packet_in_len_def
  ofp_flow_removed_len_def ofp_port_status_len_def ofp_error_len_def ofp_echo_request_len_def ofp_echo_reply_len_def
  ofp_features_request_len_def ofp_get_config_reply_len_def ofp_features_reply_len_def ofp_packet_out_len_def
  ofp_flow_mod_len_def ofp_match_len_def

lemma checked_moves:
  "yields (moves off) (ofp_features_reply_unpack m_features_reply raw off)"
  "yields (moves off) (ofp_set_config_unpack m_set_config raw off)"
  "yields (moves off) (ofp_port_mod_unpack m_port_mod raw off)"
  "yields (moves off) (ofp_queue_get_config_request_unpack m_queue_get_config_request raw off)"
  "yields (moves off) (ofp_packet_in_unpack m_packet_in raw off)"
  "yields (moves off) (ofp_flow_removed_unpack m_flow_removed raw off)"
  "yields (moves off) (ofp_port_status_unpack m_port_status raw off)"
  "yields (moves off) (ofp_error_unpack m_error raw off)"
  "yields (moves off) (ofp_echo_request_unpack m_echo_request raw off)"
  "yields (moves off) (ofp_echo_reply_unpack m_echo_reply raw off)"
  "yields (moves off) (ofp_features_request_unpack m_features_request raw off)"
  "yields (moves off) (ofp_get_config_reply_unpack m_get_config_reply raw off)"
  "yields (moves off) (ofp_packet_out_unpack m_packet_out raw off)"
  "yields (moves off) (ofp_flow_mod_unpack m_flow_mod raw off)"
  unfolding ofp_features_reply_unpack_def ofp_set_config_unpack_def ofp_port_mod_unpack_def
    ofp_queue_get_config_request_unpack_def ofp_packet_in_unpack_def ofp_flow_removed_unpack_def ofp_port_status_unpack_def
    ofp_error_unpack_def ofp_echo_request_unpack_def ofp_echo_reply_unpack_def ofp_features_request_unpack_def
    ofp_get_config_reply_unpack_def ofp_packet_out_unpack_def ofp_flow_mod_unpack_def Let_def
  by (intro yields_intro moves_len; use actions_len_nonneg in \<open>simp add: fixed_lens add_pos_nonneg add_nonneg_nonneg\<close>)+

lemma bare_moves:
  "yields (moves off) (ofp_hello_unpack m_hello raw off)"
  "yields (moves off) (ofp_barrier_reply_unpack m_barrier_reply raw off)"
  "yields (moves off) (ofp_barrier_request_unpack m_barrier_request raw off)"
  "yields (moves off) (ofp_get_config_request_unpack m_get_config_request raw off)"
  unfolding ofp_hello_unpack_def ofp_barrier_reply_unpack_def ofp_barrier_request_unpack_def ofp_get_config_request_unpack_def
  by (rule yields_header, simp add: moves_header)+

lemma stats_moves:
  "yields (moves off) (ofp_stats_request_unpack m_stats_request raw off)"
  "yields (moves off) (ofp_stats_reply_unpack m_stats_reply raw off)"
  "yields (moves off) (ofp_queue_get_config_reply_unpack m_queue_get_config_reply raw off)"
proof -
  have req: "(\<And>n s. 0 < n \<Longrightarrow> yields P (f n s)) \<Longrightarrow> yields P (rbind (ofp_stats_request_len s) (\<lambda>(n, s). f n s))"
    for s f and P :: "'p \<Rightarrow> bool"
    by (auto simp: yields_def ofp_stats_request_len_def rbind_Inr_iff)
      (meson of_nat_0_le_iff add_pos_nonneg zero_less_numeral)
  have rep: "yields (\<lambda>n. 0 < n) (ofp_stats_reply_len s)" for s
    using mapM_sum_nonneg [of part_len, OF _ part_len_nonneg] part_len_nonneg
    by (force simp: yields_def ofp_stats_reply_len_def rbind_Inr_iff split: stats_rep_body.splits)
  have que: "yields (\<lambda>n. 0 < n) (ofp_queue_get_config_reply_len s)" for s
    using mapM_sum_nonneg [of ofp_packet_queue_len, OF _ queue_len_nonneg]
    by (force simp: yields_def ofp_queue_get_config_reply_len_def rbind_Inr_iff)
  show "yields (moves off) (ofp_stats_request_unpack m_stats_request raw off)"
    unfolding ofp_stats_request_unpack_def Let_def by (intro req yields_intro moves_len) (auto simp: yields_Inr yields_Inl moves_def)
  show "yields (moves off) (ofp_stats_reply_unpack m_stats_reply raw off)"
    unfolding ofp_stats_reply_unpack_def Let_def by (intro yields_then [OF rep] yields_intro moves_len) auto
  show "yields (moves off) (ofp_queue_get_config_reply_unpack m_queue_get_config_reply raw off)"
    unfolding ofp_queue_get_config_reply_unpack_def Let_def by (intro yields_then [OF que] yields_intro moves_len) auto
qed

text \<open>An unpacker of the table, by the type of the message.\<close>

lemma unpack_new_moves:
  assumes "yields (moves off) (upk fresh raw off)" "msg_unpack_new C fresh upk raw off = Inr (r, m)"
  shows "off < r"
  using assms by (force simp: msg_unpack_new_def unpack_new_def rbind_Inr_iff yields_def moves_def split: if_splits)

lemma table_nth:
  "t < 22 \<Longrightarrow> t \<noteq> 4 \<Longrightarrow> (make_type_to_unpacker_table ! t) raw off = Inr (r, m) \<Longrightarrow> off < r"
proof -
  assume t: "t < 22" "t \<noteq> 4" and u: "(make_type_to_unpacker_table ! t) raw off = Inr (r, m)"
  note moves = checked_moves bare_moves stats_moves
  from t(1) have "t \<in> set [0, 1, 2, 3, 4, 5, 6, 7, 8, 9, 10, 11, 12, 13, 14, 15, 16, 17, 18, 19, 20, 21]" by (simp, presburger)
  then show "off < r" using t(2) u
    by (simp only: set_simps insert_iff empty_iff simp_thms)
      (elim disjE; simp add: make_type_to_unpacker_table_def; (erule unpack_new_moves [rotated], rule moves))
qed

end
