(* ===== verification/Controller_Stream.thy ===== *)
theory Controller_Stream
  imports Controller Message_Progress
begin

text \<open>
  What a connection of the controller receives reaches its handlers message by message: \<^verbatim>\<open>Connection.read\<close> is a
  \<open>frame_reader\<close> for every application that does not look into the receive buffers, and it returns unless a vendor message
  claims to have no bytes.
\<close>

section \<open>Applications do not touch receive buffers\<close>

definition set_buf :: "nat \<Rightarrow> bytes \<Rightarrow> 'a controller \<Rightarrow> 'a controller" where
  "set_buf cid bs c = c\<lparr>ct_conns := (ct_conns c)(cid := (ct_conns c cid)\<lparr>cx_buf := bs\<rparr>)\<rparr>"

text \<open>An action that neither reads nor changes the receive buffers.\<close>

definition blind :: "('a, 'r) ctl \<Rightarrow> bool" where
  "blind m \<longleftrightarrow> (\<forall>cid bs c. m (set_buf cid bs c) = (fst (m c), set_buf cid bs (snd (m c))))"

named_theorems blind_intro \<open>actions that do not touch the receive buffers\<close>

lemma blindD: "blind m \<Longrightarrow> m (set_buf cid bs c) = (fst (m c), set_buf cid bs (snd (m c)))"
  by (simp add: blind_def)

lemma blind_ret [blind_intro]: "blind (ret x)"
  by (simp add: blind_def ret_def)

lemma blind_raise [blind_intro]: "blind (raise e)"
  by (simp add: blind_def raise_def)

lemma blind_lift [blind_intro]: "blind (lift r)"
  by (simp add: blind_def lift_def)

lemma blind_sbind [blind_intro]: "blind m \<Longrightarrow> (\<And>x. blind (f x)) \<Longrightarrow> blind (sbind m f)"
  unfolding blind_def sbind_def by (auto split: prod.splits sum.splits)

lemma blind_gets: "(\<And>cid bs c. f (set_buf cid bs c) = f c) \<Longrightarrow> blind (gets f)"
  by (simp add: blind_def gets_def)

lemma blind_modify: "(\<And>cid bs c. f (set_buf cid bs c) = set_buf cid bs (f c)) \<Longrightarrow> blind (modify f)"
  by (simp add: blind_def modify_def)

lemma blind_get_conn: "(\<And>k bs. f (k\<lparr>cx_buf := bs\<rparr>) = f k) \<Longrightarrow> blind (get_conn cid f)"
  unfolding get_conn_def by (rule blind_gets) (simp add: set_buf_def)

lemma blind_upd_conn: "(\<And>k bs. f (k\<lparr>cx_buf := bs\<rparr>) = (f k)\<lparr>cx_buf := bs\<rparr>) \<Longrightarrow> blind (upd_conn cid f)"
  unfolding upd_conn_def by (rule blind_modify) (auto simp: set_buf_def fun_eq_iff)

lemma blind_if [blind_intro]: "blind m \<Longrightarrow> blind n \<Longrightarrow> blind (if b then m else n)"
  by simp

lemma blind_case_option [blind_intro]: "blind m \<Longrightarrow> (\<And>x. blind (f x)) \<Longrightarrow> blind (case x of None \<Rightarrow> m | Some x \<Rightarrow> f x)"
  by (cases x) simp_all

lemma blind_case_list [blind_intro]: "blind m \<Longrightarrow> (\<And>x xs. blind (f x xs)) \<Longrightarrow> blind (case xs of [] \<Rightarrow> m | x # xs \<Rightarrow> f x xs)"
  by (cases xs) simp_all

lemma blind_case_prod [blind_intro]: "(\<And>x y. blind (f x y)) \<Longrightarrow> blind (case p of (x, y) \<Rightarrow> f x y)"
  by (cases p) simp_all

lemma blind_for_each [blind_intro]: "(\<And>x. blind (f x)) \<Longrightarrow> blind (for_each f xs)"
  by (induction xs) (auto intro: blind_intro)

lemmas blind_access = blind_get_conn blind_upd_conn blind_gets blind_modify

lemma blind_set_simps:
  "ct_connections (set_buf cid bs c) = ct_connections c" "ct_data (set_buf cid bs c) = ct_data c"
  "ct_sending (set_buf cid bs c) = ct_sending c" "ct_xid (set_buf cid bs c) = ct_xid c" "ct_now (set_buf cid bs c) = ct_now c"
  "ct_miss_send_len (set_buf cid bs c) = ct_miss_send_len c" "ct_clear_flows (set_buf cid bs c) = ct_clear_flows c"
  "ct_request_description (set_buf cid bs c) = ct_request_description c" "ct_app (set_buf cid bs c) = ct_app c"
  "ct_fallback_nexus (set_buf cid bs c) = ct_fallback_nexus c" "ct_trace (set_buf cid bs c) = ct_trace c"
  "ct_sock (set_buf cid bs c) = ct_sock c" "ct_calls (set_buf cid bs c) = ct_calls c" "ct_pipe_buf (set_buf cid bs c) = ct_pipe_buf c"
  by (simp_all add: set_buf_def)

lemma blind_emit [blind_intro]: "blind (emit t)"
  unfolding emit_def by (rule blind_modify) (simp add: set_buf_def)

lemma blind_nexus_connect [blind_intro]: "blind (nexus_connect cid)"
  unfolding nexus_connect_def by (intro blind_intro blind_access) (simp_all add: set_buf_def)

lemma blind_nexus_disconnect [blind_intro]: "blind (nexus_disconnect dpid)"
  by (simp add: blind_def nexus_disconnect_def set_buf_def)

lemma blind_deferred_send [blind_intro]: "blind (deferred_send cid data)"
  unfolding deferred_send_def by (rule blind_modify) (simp add: set_buf_def)

lemma blind_sock_send [blind_intro]: "blind (sock_send cid data)"
  by (simp add: blind_def sock_send_def set_buf_def Let_def)

lemma blind_pack_msg [blind_intro]: "blind (pack_msg m)"
  by (auto simp: blind_def pack_msg_def set_buf_def split: sum.split prod.split)

locale application =
  fixes app :: "'a app"
  assumes app_blind: "blind (\<lambda>c. case app src ev c of (halt, c) \<Rightarrow> (Inr halt, c))"
begin

lemma blind_raise_event [blind_intro]: "blind (raise_event app src ev)"
  unfolding raise_event_def by (intro blind_sbind blind_emit app_blind)

lemma blind_raise_nexus [blind_intro]: "blind (raise_nexus app cid ev)"
  unfolding raise_nexus_def by (intro blind_intro blind_access) simp

lemma blind_raise_both [blind_intro]: "blind (raise_both app cid ev)"
  unfolding raise_both_def by (intro blind_intro)

lemma blind_disconnect [blind_intro]: "blind (disconnect app cid d)"
  unfolding disconnect_def by (intro blind_intro blind_access) (simp_all add: set_buf_def)

end

interpretation qa: application quiet
  by unfold_locales (simp add: quiet_def blind_def)

lemma blind_send_bytes [blind_intro]: "blind (send_bytes cid data)"
proof -
  have "blind (case r of Took l \<Rightarrow> if l \<noteq> length data then deferred_send cid (drop l data) else ret ()
      | WouldBlock \<Rightarrow> deferred_send cid data | SockError \<Rightarrow> disconnect quiet cid True)" for r
    by (cases r) (auto intro!: blind_intro qa.blind_disconnect)
  then show ?thesis unfolding send_bytes_def
    by (intro blind_intro blind_access) (simp_all add: blind_set_simps)
qed

lemma blind_con_send [blind_intro]: "blind (con_send cid m)"
  unfolding con_send_def by (intro blind_intro blind_access) simp

lemma blind_take_features [blind_intro]: "blind (take_features cid m)"
  unfolding take_features_def by (intro blind_access) simp

lemma blind_barrier_xid [blind_intro]: "blind (barrier_xid cid r b)"
  unfolding barrier_xid_def by (intro blind_intro blind_access) (simp_all add: set_buf_def)

lemma blind_handle_ECHO_REQUEST [blind_intro]: "blind (handle_ECHO_REQUEST cid m)"
  unfolding handle_ECHO_REQUEST_def by (intro blind_intro)

lemma blind_hs_HELLO [blind_intro]: "blind (hs_HELLO cid r b)"
  unfolding hs_HELLO_def by (intro blind_intro blind_access) (simp_all add: blind_set_simps)

lemma blind_hs_STATS_REPLY [blind_intro]: "blind (hs_STATS_REPLY cid m)"
  unfolding hs_STATS_REPLY_def
  by (auto intro!: blind_intro blind_access split: stats_rep_body.split stats_part.split)

lemma blind_hs_PORT_STATUS [blind_intro]: "blind (hs_PORT_STATUS cid m)"
  unfolding hs_PORT_STATUS_def by (intro blind_access) simp

context application
begin

lemma blind_handle_PORT_STATUS [blind_intro]: "blind (handle_PORT_STATUS app cid m)"
  unfolding handle_PORT_STATUS_def by (intro blind_intro blind_access) simp_all

lemma blind_stats_handler [blind_intro]: "blind (stats_handler app cid t parts)"
  unfolding stats_handler_def by (intro blind_intro)

lemma blind_incoming_stats_reply [blind_intro]: "blind (incoming_stats_reply app cid m)"
  unfolding incoming_stats_reply_def by (intro blind_intro blind_access) simp_all

lemma blind_handle_FEATURES_REPLY [blind_intro]: "blind (handle_FEATURES_REPLY app cid m)"
  unfolding handle_FEATURES_REPLY_def by (intro blind_intro)

lemma blind_default_handlers [blind_intro]: "blind (default_handlers app cid m)"
  by (cases m) (auto intro!: blind_intro)

lemma blind_finish_connecting [blind_intro]: "blind (finish_connecting app cid)"
  unfolding finish_connecting_def by (intro blind_intro blind_access) (simp_all add: blind_set_simps)

lemma blind_getNexus [blind_intro]: "blind (getNexus app cid)"
  unfolding getNexus_def by (intro blind_intro blind_access) (simp add: blind_set_simps)

lemma blind_hs_FEATURES_REPLY [blind_intro]: "blind (hs_FEATURES_REPLY app cid r m)"
proof -
  have "blind (case x of MBarrierRequest b \<Rightarrow> upd_conn cid (\<lambda>k. k\<lparr>cx_handlers := Handshake r (Some b)\<rparr>) | _ \<Rightarrow> ret ())" for x
    by (cases x) (auto intro!: blind_intro blind_access)
  then show ?thesis unfolding hs_FEATURES_REPLY_def
    by (intro blind_intro blind_access) (simp_all add: blind_set_simps)
qed

lemma blind_handshake_handlers [blind_intro]: "blind (handshake_handlers app cid r b m)"
  by (cases m) (auto simp: hs_BARRIER_REPLY_def hs_ERROR_def intro!: blind_intro blind_access)

lemma blind_handle: "blind (handle app cid m)"
proof -
  have "blind (case h of Handshake r b \<Rightarrow> handshake_handlers app cid r b m | Established \<Rightarrow> default_handlers app cid m)" for h
    by (cases h) (auto intro!: blind_intro)
  then show ?thesis unfolding handle_def by (intro blind_intro blind_access) simp_all
qed

end

section \<open>Reading is in order\<close>

definition con_rx :: "nat \<Rightarrow> 'a controller \<Rightarrow> bytes" where
  "con_rx cid c = cx_buf (ct_conns c cid)"

definition con_deliver :: "'a app \<Rightarrow> nat \<Rightarrow> ofp_message \<Rightarrow> 'a controller \<Rightarrow> 'a controller" where
  "con_deliver app cid m c = snd (handle app cid m c)"

lemma read_msg_accept:
  assumes "on_wire m bs"
  shows "read_msg app cid (pre, bs @ rest, bad, c) = (Inr True, (pre @ bs, rest, bad, con_deliver app cid m c))"
proof -
  obtain t where t: "head_ok OFP_VERSION t bs" "0 \<le> t" "t < 22"
    "\<And>pre rest. (make_type_to_unpacker_table ! nat t) (pre @ bs @ rest) (int (length pre)) = Inr (int (length pre + length bs), m)"
    using on_wire_head [OF assms] by metis
  have l: "8 \<le> length bs" using t(1) by (simp add: head_ok_def)
  note n = nth_append_head [OF l, of _ rest]
  show ?thesis using t(2,3) l head_fields [OF t(1)] t(4) [of pre rest]
    by (simp add: read_msg_def n unpackers_length con_deliver_def)
qed

lemma read_msg_wait: "unfinished on_wire r \<Longrightarrow> read_msg app cid (pre, r, bad, c) = (Inr False, (pre, r, bad, c))"
proof -
  assume u: "unfinished on_wire r"
  show ?thesis
  proof (cases "length r < 8")
    case False
    then obtain m bs where m: "on_wire m bs" "strict_prefix r bs" using u by (auto simp: unfinished_def)
    obtain t where t: "head_ok OFP_VERSION t bs" using on_wire_head [OF m(1)] by metis
    obtain x where x: "bs = r @ x" "x \<noteq> []" using m(2) by (auto elim!: strict_prefixE')
    have "r ! 0 = bs ! 0" "r ! 1 = bs ! 1" "r ! 2 = bs ! 2" "r ! 3 = bs ! 3" "length r < length bs"
      using x False by (auto simp: nth_append)
    then show ?thesis using head_fields [OF t] False by (simp add: read_msg_def)
  qed (simp add: read_msg_def)
qed

lemma read_loop_delivers:
  assumes "list_all2 on_wire ms bss" "unfinished on_wire r"
  shows "loop_until (read_msg app cid) (pre, concat bss @ r, bad, c) =
    Some (Inr (), (pre @ concat bss, r, bad, fold (con_deliver app cid) ms c))"
  using assms
proof (induction ms bss arbitrary: pre c rule: list_all2_induct)
  case Nil
  then show ?case by (subst loop_until.simps) (simp add: read_msg_wait)
next
  case (Cons m ms bs bss)
  show ?case using read_msg_accept [OF Cons.hyps(1), of app cid pre "concat bss @ r" bad c] Cons.IH [OF Cons.prems]
    by (subst loop_until.simps) simp
qed

lemma set_buf_laws:
  "con_rx cid (set_buf cid bs c) = bs" "set_buf cid (con_rx cid c) c = c" "set_buf cid bs (set_buf cid bs' c) = set_buf cid bs c"
  by (simp_all add: con_rx_def set_buf_def)

lemma upd_conn_buf: "snd (upd_conn cid (\<lambda>k. k\<lparr>cx_buf := f (cx_buf k)\<rparr>) c) = set_buf cid (f (con_rx cid c)) c"
  by (simp add: upd_conn_def modify_def set_buf_def con_rx_def)

context application
begin

lemma deliver_set_buf: "con_deliver app cid m (set_buf cid bs c) = set_buf cid bs (con_deliver app cid m c)"
  by (simp add: con_deliver_def blindD [OF blind_handle])

lemma deliver_all_set_buf: "fold (con_deliver app cid) ms (set_buf cid bs c) = set_buf cid bs (fold (con_deliver app cid) ms c)"
  by (induction ms arbitrary: c) (simp_all add: deliver_set_buf)

lemma con_read_delivers:
  assumes "list_all2 on_wire ms bss" "unfinished on_wire r" "con_rx cid c @ p = concat bss @ r" "p \<noteq> []"
  shows "con_read app cid (Some p) c = Some (Inr True, set_buf cid r (fold (con_deliver app cid) ms c))"
proof -
  let ?c = "set_buf cid (concat bss @ r) c"
  have b: "snd (upd_conn cid (\<lambda>k. k\<lparr>cx_buf := cx_buf k @ p\<rparr>) c) = ?c"
    using upd_conn_buf [of cid "\<lambda>b. b @ p" c] assms(3) by simp
  have "cx_buf (ct_conns ?c cid) = concat bss @ r" by (simp add: set_buf_def)
  then have "con_read app cid (Some p) c = Some (Inr True,
      set_buf cid (drop (length (concat bss)) (con_rx cid (fold (con_deliver app cid) ms ?c))) (fold (con_deliver app cid) ms ?c))"
    using assms(4) read_loop_delivers [OF assms(1,2), of app cid "[]" False ?c]
      upd_conn_buf [of cid "drop (length (concat bss))" "fold (con_deliver app cid) ms ?c"]
    by (simp add: con_read_def b Let_def)
  then show ?thesis by (simp add: deliver_all_set_buf set_buf_laws)
qed

end

sublocale application \<subseteq> rd: frame_reader "\<lambda>p. con_read app cid (Some p)" "con_rx cid" "set_buf cid" on_wire
    "con_deliver app cid" "\<lambda>_. True" "\<lambda>p. p \<noteq> []" for cid
  by unfold_locales (auto intro: con_read_delivers simp: set_buf_laws deliver_set_buf on_wire_frames)

context application
begin

lemmas pieces_read = rd.pieces_deliver

end

text \<open>
  C10. However the bytes of a sequence of well-formed messages are cut into pieces when they arrive, the controller takes
  all of them: \<^verbatim>\<open>read\<close> returns after every piece, the handlers of the connection have handled each message once and in
  the order in which they were sent, and nothing stays in the receive buffer. This holds for every application that
  leaves the receive buffers alone.
\<close>

theorem controller_reads_in_order:
  assumes "application app" "list_all2 on_wire ms bss" "concat pieces = concat bss" "[] \<notin> set pieces"
    "cx_buf (ct_conns c cid) = []"
  shows "feed (\<lambda>p. con_read app cid (Some p)) pieces c =
    Some (set_buf cid [] (fold (\<lambda>m c. snd (handle app cid m c)) ms c))"
proof -
  have "con_deliver app cid = (\<lambda>m c. snd (handle app cid m c))" by (simp add: fun_eq_iff con_deliver_def)
  moreover have "list_all (\<lambda>p. p \<noteq> []) pieces" using assms(4) by (auto simp: list_all_iff)
  ultimately show ?thesis using application.pieces_read [OF assms(1,2), of cid c pieces] assms(3,5)
    by (simp add: con_rx_def unfinished_def)
qed

definition sample_controller :: "unit controller" where
  "sample_controller =
     \<lparr>ct_conns = (\<lambda>_. connection_blank 0), ct_ID = 1, ct_sockets = [1], ct_connections = [], ct_data = [], ct_sending = False,
      ct_aborted = 0, ct_xid = xid_generator, ct_now = 0, ct_miss_send_len = Some 128, ct_clear_flows = True,
      ct_request_description = False, ct_fallback_nexus = True, ct_pipe_buf = 512, ct_sock = (\<lambda>_ _ data. Took (length data)),
      ct_calls = 0, ct_trace = [], ct_app = ()\<rparr>"

theorem controller_reads_in_order_witness:
  "case feed (\<lambda>p. con_read quiet 1 (Some p)) [[1, 0, 0], [8, 0, 0, 0, 5, 1], [0, 0, 8, 0, 0, 0, 5]] sample_controller of
     None \<Rightarrow> False | Some c \<Rightarrow> cx_buf (ct_conns c 1) = [] \<and> length (ct_trace c) = 2 \<and> cx_handlers (ct_conns c 1) = Handshake True None"
proof -
  let ?h = "MHello (ofp_hello_init\<lparr>hdr_xid := Some 5\<rparr>)" and ?ps = "[[1, 0, 0], [8, 0, 0, 0, 5, 1], [0, 0, 8, 0, 0, 0, 5]] :: bytes list"
  let ?last = "fold (\<lambda>m c. snd (handle quiet 1 m c)) [?h, ?h] sample_controller"
  have "list_all2 on_wire [?h, ?h] [sample_hello, sample_hello]" using sample_hello_wire by simp
  moreover have "concat ?ps = concat [sample_hello, sample_hello]" "[] \<notin> set ?ps" "cx_buf (ct_conns sample_controller 1) = []"
    by code_simp+
  ultimately have "feed (\<lambda>p. con_read quiet 1 (Some p)) ?ps sample_controller = Some (set_buf 1 [] ?last)"
    using controller_reads_in_order [OF qa.application_axioms, of "[?h, ?h]"] by metis
  moreover have "length (ct_trace (set_buf 1 [] ?last)) = 2 \<and> cx_handlers (ct_conns (set_buf 1 [] ?last) 1) = Handshake True None \<and>
    cx_buf (ct_conns (set_buf 1 [] ?last) 1) = []" by code_simp
  ultimately show ?thesis by simp
qed

section \<open>When reading returns\<close>

text \<open>A vendor message that claims to have no bytes.\<close>

definition empty_vendor :: "bytes \<Rightarrow> bool" where
  "empty_vendor bs \<longleftrightarrow> 8 \<le> length bs \<and> bs ! 1 = 4 \<and> bs ! 2 = 0 \<and> bs ! 3 = 0"

lemma read_msg_progress:
  assumes "read_msg app cid (pre, rest, bad, c) = (Inr True, (pre', rest', bad', c'))" "\<not> empty_vendor rest"
  shows "length rest' < length rest \<and> (\<exists>k. rest' = drop k rest)"
proof -
  let ?n = "push_bit 8 (uint (rest ! 2)) OR uint (rest ! 3)" and ?t = "uint (rest ! 1)"
  have "8 \<le> length rest \<and> ?t < 22 \<and> rest' = drop (nat ?n) rest \<and>
    (\<exists>r m. (make_type_to_unpacker_table ! nat ?t) (pre @ rest) (int (length pre)) = Inr (r, m) \<and> r - int (length pre) = ?n)"
    using assms(1) by (auto simp: read_msg_def unpackers_length Let_def split: if_splits sum.splits)
  then obtain r m where l: "8 \<le> length rest" and t': "?t < 22" and n: "r - int (length pre) = ?n"
    and u: "(make_type_to_unpacker_table ! nat ?t) (pre @ rest) (int (length pre)) = Inr (r, m)"
    and rest': "rest' = drop (nat ?n) rest" by blast
  from t' have t: "nat ?t < 22" by linarith
  have "?n \<noteq> 0"
  proof (cases "nat ?t = 4")
    case True
    then have "rest ! 1 = 4" by (simp add: word_unat_eq_iff)
    then have "rest ! 2 \<noteq> 0 \<or> rest ! 3 \<noteq> 0" using assms(2) l by (auto simp: empty_vendor_def)
    then show ?thesis by (auto simp: or_eq_0_iff push_bit_eq_mult uint_0_iff)
  next
    case False
    show ?thesis using table_nth [OF t False u] n by simp
  qed
  moreover have "0 \<le> ?n" by simp
  ultimately have "0 < nat ?n" by linarith
  then show ?thesis using l unfolding rest' length_drop by (intro conjI exI [of _ "nat ?n"] diff_less) (linarith, linarith, rule refl)
qed

lemma read_loop_returns:
  assumes "\<And>k. \<not> empty_vendor (drop k rest)"
  shows "\<exists>x. loop_until (read_msg app cid) (pre, rest, bad, c) = Some x"
  using assms
proof (induction "length rest" arbitrary: pre rest bad c rule: less_induct)
  case less
  obtain x pre' rest' bad' c' where r: "read_msg app cid (pre, rest, bad, c) = (x, (pre', rest', bad', c'))"
    by (metis prod.exhaust)
  show ?case
  proof (cases "x = Inr True")
    case True
    from read_msg_progress [OF r [unfolded True]] less.prems [of 0]
    obtain k where k: "length rest' < length rest" "rest' = drop k rest" by auto
    have "\<not> empty_vendor (drop j rest')" for j using less.prems [of "j + k"] by (simp add: k(2))
    from less.hyps [OF k(1) this] show ?thesis using r True by (subst loop_until.simps) simp
  next
    case False
    then show ?thesis using r by (subst loop_until.simps) (auto split: sum.split)
  qed
qed

text \<open>
  C29. \<^verbatim>\<open>Connection.read\<close> of the controller returns, whatever the bytes, the state and the application are, unless
  somewhere in the received bytes there is a vendor message that claims to have no bytes.
\<close>

theorem con_read_returns:
  assumes "\<And>k. \<not> empty_vendor (drop k (cx_buf (ct_conns c cid) @ data))"
  shows "\<exists>r c'. con_read app cid (Some data) c = Some (r, c')"
proof -
  let ?c = "snd (upd_conn cid (\<lambda>k. k\<lparr>cx_buf := cx_buf k @ data\<rparr>) c)"
  have "cx_buf (ct_conns ?c cid) = cx_buf (ct_conns c cid) @ data" by (simp add: upd_conn_def modify_def)
  then obtain x where "loop_until (read_msg app cid) ([], cx_buf (ct_conns ?c cid), False, ?c) = Some x"
    using read_loop_returns [of "cx_buf (ct_conns c cid) @ data" app cid "[]" False ?c] assms by auto
  then show ?thesis by (auto simp: con_read_def Let_def split: prod.split sum.split)
qed

theorem con_read_returns_witness:
  "\<exists>r c'. con_read quiet 1 (Some sample_hello) sample_controller = Some (r, c')"
proof (rule con_read_returns)
  fix k
  have "cx_buf (ct_conns sample_controller 1) = []" by code_simp
  then show "\<not> empty_vendor (drop k (cx_buf (ct_conns sample_controller 1) @ sample_hello))"
    by (cases k) (auto simp: empty_vendor_def sample_hello_def)
qed

lemma vendor_stays:
  assumes "length x \<ge> 8"
  shows "\<exists>m. (make_type_to_unpacker_table ! 4) ([1, 4, 0, 0] @ x) 0 = Inr (0, MVendor m)"
proof -
  let ?r = "1 # 4 # 0 # 0 # x"
  have s: "py_slice ?r 0 8 = 1 # 4 # 0 # 0 # take 4 x" "py_slice ?r 8 12 = take 4 (drop 4 x)"
    using assms by (simp_all add: py_slice_nonneg take_drop)
  have "ofp_vendor_generic_unpack ofp_vendor_generic_init ?r 0 \<in> {Inr (m, 0, 0) | m. True}"
    using assms by (auto simp: ofp_vendor_generic_unpack_def ofp_unpack_header_def of_unpack_def of_read_def
        struct_unpack_def s code_decode_def be_to_int_def)
  then show ?thesis by (auto simp: make_type_to_unpacker_table_def msg_unpack_new_def unpack_new_def)
qed

text \<open>
  C30. A vendor message that claims to have no bytes hangs the controller: \<^verbatim>\<open>Connection.read\<close> does not return. The message
  is read, its handler does nothing, and the offset stays where it is.
\<close>

theorem con_read_spins:
  assumes "cx_buf (ct_conns c cid) = []" "length x \<ge> 8"
  shows "con_read app cid (Some ([1, 4, 0, 0] @ x)) c = None"
proof -
  let ?c = "snd (upd_conn cid (\<lambda>k. k\<lparr>cx_buf := cx_buf k @ [1, 4, 0, 0] @ x\<rparr>) c)"
  let ?s = "([], [1, 4, 0, 0] @ x, False, ?c)"
  obtain m where m: "(make_type_to_unpacker_table ! 4) ([1, 4, 0, 0] @ x) 0 = Inr (0, MVendor m)"
    using vendor_stays [OF assms(2)] by auto
  have "snd (handle app cid (MVendor m) ?c) = ?c"
    by (simp add: handle_def sbind_def get_conn_def gets_def ret_def split: handlers.split)
  then have "read_msg app cid ?s = (Inr True, ?s)"
    using m assms(2) by (simp add: read_msg_def unpackers_length OFP_VERSION_def Let_def)
  then have "loop_until (read_msg app cid) ?s = None" by (intro loop_spins [where I = "\<lambda>s. s = ?s"]) auto
  moreover have "cx_buf (ct_conns ?c cid) = [1, 4, 0, 0] @ x" using assms(1) by (simp add: upd_conn_def modify_def)
  ultimately show ?thesis by (simp add: con_read_def Let_def)
qed

theorem con_read_spins_witness:
  "con_read quiet 1 (Some ([1, 4, 0, 0] @ [0, 0, 0, 7, 0, 0, 35, 32])) sample_controller = None"
  by (rule con_read_spins) code_simp+

end
