(* ===== verification/Controller_Sending.thy ===== *)
theory Controller_Sending
  imports Controller_Stream
begin

text \<open>
  What the controller sends. Bytes that a socket does not take at once go through the deferred sender. It is shown that the
  socket of a connection still gets what was handed to the connection, in order and without gaps, and what happens to the
  nexus when a connection is closed.
\<close>

section \<open>Listeners\<close>

text \<open>What a listener may do: send messages over connections and change its own state.\<close>

inductive app_step :: "'a controller \<Rightarrow> 'a controller \<Rightarrow> bool" where
  send_message: "app_step c (snd (con_send cid m c))"
| send_raw: "app_step c (snd (send_bytes cid data c))"
| own_state: "app_step c (c\<lparr>ct_app := a\<rparr>)"

definition sends_only :: "'a app \<Rightarrow> bool" where
  "sends_only app \<longleftrightarrow> (\<forall>src ev c. app_step\<^sup>*\<^sup>* c (snd (app src ev c)))"

text \<open>
  The steps of the running controller: an application acts, a message is handled, the deferred sender (a thread of its own)
  has a round, a connection is closed. \<open>E\<close> are the connections that \<^verbatim>\<open>select\<close> ever reports an exceptional condition for.
\<close>

inductive io_step :: "'a app \<Rightarrow> nat set \<Rightarrow> 'a controller \<Rightarrow> 'a controller \<Rightarrow> bool" for app E where
  app: "app_step c c' \<Longrightarrow> io_step app E c c'"
| received: "io_step app E c (snd (handle app cid m c))"
| flush: "set elist \<subseteq> E \<Longrightarrow> io_step app E c (snd (deferred_round app elist wlist c))"
| close: "io_step app E c (snd (con_close app cid c))"

section \<open>Bytes in, bytes out\<close>

fun submits :: "nat \<Rightarrow> ctl_trace \<Rightarrow> bytes" where
  "submits cid (Submitted k data) = (if k = cid then data else [])"
| "submits cid _ = []"

fun accepts :: "nat \<Rightarrow> ctl_trace \<Rightarrow> bytes" where
  "accepts cid (Accepted k data) = (if k = cid then data else [])"
| "accepts cid _ = []"

definition submitted :: "'a controller \<Rightarrow> nat \<Rightarrow> bytes" where
  "submitted c cid = concat (map (submits cid) (ct_trace c))"

definition accepted :: "'a controller \<Rightarrow> nat \<Rightarrow> bytes" where
  "accepted c cid = concat (map (accepts cid) (ct_trace c))"

definition pending :: "'a controller \<Rightarrow> nat \<Rightarrow> bytes" where
  "pending c cid = (case map_of (ct_data c) cid of Some ds \<Rightarrow> concat ds | None \<Rightarrow> [])"

definition in_flight :: "nat set \<Rightarrow> 'a controller \<Rightarrow> bool" where
  "in_flight E c \<longleftrightarrow> (ct_data c \<noteq> [] \<longrightarrow> ct_sending c) \<and>
     (\<forall>cid. cid \<notin> E \<longrightarrow> \<not> cx_disconnected (ct_conns c cid) \<longrightarrow> accepted c cid @ pending c cid = submitted c cid)"

text \<open>The slices are the data, and none is larger than \<^verbatim>\<open>PIPE_BUF\<close>.\<close>

lemma concat_sliceup: "concat (sliceup n data) = data"
  by (induction n data rule: sliceup.induct) (subst sliceup.simps, auto)

lemma sliceup_bound: "0 < n \<Longrightarrow> list_all (\<lambda>s. s \<noteq> [] \<and> length s \<le> n) (sliceup n data)"
  by (induction n data rule: sliceup.induct) (subst sliceup.simps, auto)

lemmas ctl_simps = sbind_def ret_def gets_def modify_def raise_def emit_def get_conn_def upd_conn_def

lemma disconnect_deferred:
  "snd (disconnect app cid True c) = c\<lparr>
     ct_aborted := ct_aborted c + (if cx_dpid (ct_conns c cid) = None then 1 else 0),
     ct_conns := (ct_conns c)(cid := (ct_conns c cid)\<lparr>cx_disconnected := True\<rparr>),
     ct_connections := (if cx_nexus (ct_conns c cid) \<and> map_of (ct_connections c) (cx_dpid (ct_conns c cid)) \<noteq> None
       then AList.delete (cx_dpid (ct_conns c cid)) (ct_connections c) else ct_connections c),
     ct_trace := ct_trace c @ [SockShutdown cid]\<rparr>"
  by (simp add: disconnect_def ctl_simps nexus_disconnect_def)

lemma in_flight_other:
  assumes "in_flight E c" "ct_trace c' = ct_trace c" "ct_data c' = ct_data c" "ct_sending c' = ct_sending c"
    "\<And>k. cx_disconnected (ct_conns c' k) = cx_disconnected (ct_conns c k)"
  shows "in_flight E c'"
  using assms by (simp add: in_flight_def accepted_def submitted_def pending_def)

lemma in_flight_send_bytes: "in_flight E c \<Longrightarrow> in_flight E (snd (send_bytes cid data c))"
proof (cases "cx_disconnected (ct_conns c cid)")
  case False
  assume i: "in_flight E c"
  show ?thesis
  proof (cases "ct_sending c")
    case True
    then show ?thesis using i False
      by (auto simp: send_bytes_def ctl_simps deferred_send_def in_flight_def accepted_def submitted_def pending_def
          update_conv' concat_sliceup split: option.splits) (metis option.distinct(1))
  next
    case idle: False
    then have "ct_data c = []" using i by (auto simp: in_flight_def)
    then show ?thesis using i False idle
      by (cases "ct_sock c cid (ct_calls c) data")
        (auto simp: send_bytes_def ctl_simps deferred_send_def sock_send_def Let_def in_flight_def accepted_def submitted_def
          pending_def concat_sliceup disconnect_deferred)
  qed
qed (simp add: send_bytes_def ctl_simps)

lemma pack_msg_frame: "snd (pack_msg m c) = c\<lparr>ct_xid := ct_xid (snd (pack_msg m c))\<rparr>"
  by (auto simp: pack_msg_def split: sum.split prod.split)

lemma con_send_cases:
  obtains "snd (con_send cid m c) = c"
  | g data where "snd (con_send cid m c) = snd (send_bytes cid data (c\<lparr>ct_xid := g\<rparr>))"
proof (cases "message_pack (ct_xid c) m")
  case (Inl e)
  then show thesis using that(1) by (simp add: con_send_def ctl_simps pack_msg_def)
next
  case (Inr p)
  obtain bs m' g where p: "p = (bs, m', g)" by (cases p)
  show thesis
  proof (cases "cx_disconnected (ct_conns c cid)")
    case True
    then show thesis using that(1) by (simp add: con_send_def ctl_simps)
  next
    case False
    then have "snd (con_send cid m c) = snd (send_bytes cid bs (c\<lparr>ct_xid := g\<rparr>))" using Inr p
      by (simp add: con_send_def ctl_simps pack_msg_def split: prod.split sum.split)
    then show thesis by (rule that(2))
  qed
qed

lemma in_flight_con_send: "in_flight E c \<Longrightarrow> in_flight E (snd (con_send cid m c))"
proof -
  assume i: "in_flight E c"
  then have x: "in_flight E (c\<lparr>ct_xid := g\<rparr>)" for g by (rule in_flight_other) simp_all
  show ?thesis by (cases rule: con_send_cases [of cid m c]) (simp_all add: i x in_flight_send_bytes)
qed

lemma in_flight_app_step: "app_step c c' \<Longrightarrow> in_flight E c \<Longrightarrow> in_flight E c'"
  by (induction rule: app_step.induct) (auto simp: in_flight_con_send in_flight_send_bytes intro: in_flight_other)

text \<open>A connection stays disconnected, and nothing a listener does registers a connection.\<close>

definition gone :: "nat \<Rightarrow> 'a controller \<Rightarrow> bool" where
  "gone cid c \<longleftrightarrow> cx_disconnected (ct_conns c cid)"

definition unregistered :: "int option \<Rightarrow> 'a controller \<Rightarrow> bool" where
  "unregistered d c \<longleftrightarrow> map_of (ct_connections c) d = None"

lemma send_bytes_monotone:
  "gone k c \<Longrightarrow> gone k (snd (send_bytes cid data c))"
  "unregistered d c \<Longrightarrow> unregistered d (snd (send_bytes cid data c))"
  by (auto simp: gone_def unregistered_def send_bytes_def ctl_simps deferred_send_def sock_send_def Let_def disconnect_deferred
      delete_conv' split: sock_result.split)

lemma con_send_monotone:
  "gone k c \<Longrightarrow> gone k (snd (con_send cid m c))"
  "unregistered d c \<Longrightarrow> unregistered d (snd (con_send cid m c))"
proof -
  have x: "gone k (c\<lparr>ct_xid := g\<rparr>) = gone k c" "unregistered d (c\<lparr>ct_xid := g\<rparr>) = unregistered d c" for g
    by (simp_all add: gone_def unregistered_def)
  show "gone k c \<Longrightarrow> gone k (snd (con_send cid m c))" "unregistered d c \<Longrightarrow> unregistered d (snd (con_send cid m c))"
    by (cases rule: con_send_cases [of cid m c]; simp add: x send_bytes_monotone)+
qed

lemma app_step_monotone:
  "app_step c c' \<Longrightarrow> gone k c \<Longrightarrow> gone k c'"
  "app_step c c' \<Longrightarrow> unregistered d c \<Longrightarrow> unregistered d c'"
  by (auto elim!: app_step.cases simp: send_bytes_monotone con_send_monotone) (auto simp: gone_def unregistered_def)

lemma app_steps_keep:
  assumes "app_step\<^sup>*\<^sup>* c c'"
  shows "in_flight E c \<Longrightarrow> in_flight E c'" "gone k c \<Longrightarrow> gone k c'" "unregistered d c \<Longrightarrow> unregistered d c'"
  using assms by (induction rule: rtranclp_induct) (auto intro: in_flight_app_step app_step_monotone)

section \<open>Actions that keep a property\<close>

definition keeps :: "('s \<Rightarrow> bool) \<Rightarrow> ('s, 'r) st \<Rightarrow> bool" where
  "keeps P m \<longleftrightarrow> (\<forall>c. P c \<longrightarrow> P (snd (m c)))"

named_theorems keeps_intro \<open>actions that keep a property of the state\<close>

lemma keepsD: "keeps P m \<Longrightarrow> P c \<Longrightarrow> P (snd (m c))"
  by (simp add: keeps_def)

lemma keeps_basic [keeps_intro]: "keeps P (ret x)" "keeps P (raise e)" "keeps P (lift r)" "keeps P (gets f)"
  by (simp_all add: keeps_def ret_def raise_def lift_def gets_def)

lemma keeps_get_conn [keeps_intro]: "keeps P (get_conn cid g)"
  by (simp add: keeps_def get_conn_def gets_def)

lemma keeps_sbind [keeps_intro]: "keeps P m \<Longrightarrow> (\<And>x. keeps P (f x)) \<Longrightarrow> keeps P (sbind m f)"
  by (auto simp: keeps_def sbind_def split: prod.split sum.split)

lemma keeps_branch [keeps_intro]:
  "keeps P m \<Longrightarrow> keeps P n \<Longrightarrow> keeps P (if b then m else n)"
  "keeps P m \<Longrightarrow> (\<And>x. keeps P (f x)) \<Longrightarrow> keeps P (case y of None \<Rightarrow> m | Some x \<Rightarrow> f x)"
  "keeps P m \<Longrightarrow> (\<And>x xs. keeps P (g x xs)) \<Longrightarrow> keeps P (case ys of [] \<Rightarrow> m | x # xs \<Rightarrow> g x xs)"
  "(\<And>x y. keeps P (h x y)) \<Longrightarrow> keeps P (case p of (x, y) \<Rightarrow> h x y)"
  by (auto split: option.split list.split prod.split)

lemma keeps_for_each [keeps_intro]: "(\<And>x. keeps P (f x)) \<Longrightarrow> keeps P (for_each f xs)"
  by (induction xs) (auto intro: keeps_intro)

locale listeners =
  fixes app :: "'a app"
  assumes only_sends: "sends_only app"
begin

lemma app_steps: "app_step\<^sup>*\<^sup>* c (snd (app src ev c))"
  using only_sends by (simp add: sends_only_def)

lemma keeps_raise_event:
  assumes "\<And>c c'. app_step c c' \<Longrightarrow> P c \<Longrightarrow> P c'" "\<And>c t. P c \<Longrightarrow> P (c\<lparr>ct_trace := ct_trace c @ [Raised src ev]\<rparr>)"
  shows "keeps P (raise_event app src ev)"
proof -
  have "P c \<Longrightarrow> app_step\<^sup>*\<^sup>* c d \<Longrightarrow> P d" for c d by (rotate_tac, induction rule: rtranclp_induct) (auto intro: assms(1))
  then show ?thesis using assms(2) app_steps
    by (auto simp: keeps_def raise_event_def ctl_simps split: prod.split) (metis snd_conv)
qed

end

interpretation ql: listeners quiet
  by unfold_locales (simp add: sends_only_def quiet_def)

lemma in_flight_trace:
  "in_flight E c \<Longrightarrow> (\<And>k. submits k t = []) \<Longrightarrow> (\<And>k. accepts k t = []) \<Longrightarrow> in_flight E (c\<lparr>ct_trace := ct_trace c @ [t]\<rparr>)"
  by (simp add: in_flight_def submitted_def accepted_def pending_def)

lemma in_flight_conn:
  "in_flight E c \<Longrightarrow> (\<And>k. cx_disconnected k \<Longrightarrow> cx_disconnected (f k)) \<Longrightarrow> in_flight E (snd (upd_conn cid f c))"
  by (auto simp: in_flight_def upd_conn_def modify_def submitted_def accepted_def pending_def)

lemma keeps_in_flight_basic [keeps_intro]:
  "(\<And>k. submits k t = []) \<Longrightarrow> (\<And>k. accepts k t = []) \<Longrightarrow> keeps (in_flight E) (emit t)"
  "(\<And>k. cx_disconnected k \<Longrightarrow> cx_disconnected (f k)) \<Longrightarrow> keeps (in_flight E) (upd_conn cid f)"
  "keeps (in_flight E) (modify (\<lambda>c. c\<lparr>ct_aborted := g (ct_aborted c)\<rparr>))"
  "keeps (in_flight E) (nexus_disconnect d)"
  by (auto simp: keeps_def emit_def modify_def nexus_disconnect_def intro: in_flight_trace in_flight_conn in_flight_other)

lemma keeps_in_flight_send [keeps_intro]:
  "keeps (in_flight E) (send_bytes cid data)" "keeps (in_flight E) (con_send cid m)"
  by (simp_all add: keeps_def in_flight_send_bytes in_flight_con_send)

lemma in_flight_same:
  "in_flight E c \<Longrightarrow> in_flight E (c\<lparr>ct_xid := g\<rparr>)" "in_flight E c \<Longrightarrow> in_flight E (c\<lparr>ct_connections := x\<rparr>)"
  by (auto intro: in_flight_other)

lemma keeps_in_flight_pack [keeps_intro]: "keeps (in_flight E) (pack_msg m)"
  by (auto simp: keeps_def pack_msg_def in_flight_same split: sum.split prod.split)

lemma keeps_in_flight_nexus [keeps_intro]: "keeps (in_flight E) (nexus_connect cid)"
  by (auto simp: keeps_def nexus_connect_def ctl_simps in_flight_same)

lemma keeps_in_flight_barrier [keeps_intro]: "keeps (in_flight E) (barrier_xid cid r b)"
  unfolding barrier_xid_def
  by (intro keeps_intro) (auto simp: keeps_def modify_def in_flight_same split: prod.split intro: in_flight_conn)

context listeners
begin

lemma keeps_raise_in_flight [keeps_intro]: "keeps (in_flight E) (raise_event app src ev)"
  by (rule keeps_raise_event) (auto intro: in_flight_app_step in_flight_trace)

lemma keeps_disconnect_in_flight [keeps_intro]: "keeps (in_flight E) (disconnect app cid d)"
  unfolding disconnect_def raise_nexus_def by (intro keeps_intro) simp_all

lemma keeps_raise_gone [keeps_intro]: "keeps (gone k) (raise_event app src ev)"
  by (rule keeps_raise_event, erule (1) app_step_monotone) (simp add: gone_def)

lemma keeps_raise_unregistered [keeps_intro]: "keeps (unregistered k) (raise_event app src ev)"
  by (rule keeps_raise_event, erule (1) app_step_monotone) (simp add: unregistered_def)

end

text \<open>Disconnecting: the connection is marked and taken out of the nexus first, and then listeners may run.\<close>

definition disconnect_mark :: "nat \<Rightarrow> 'a controller \<Rightarrow> 'a controller" where
  "disconnect_mark cid c = c\<lparr>
     ct_aborted := ct_aborted c + (if cx_dpid (ct_conns c cid) = None then 1 else 0),
     ct_conns := (ct_conns c)(cid := (ct_conns c cid)\<lparr>cx_disconnected := True\<rparr>),
     ct_connections := (if cx_nexus (ct_conns c cid) \<and> map_of (ct_connections c) (cx_dpid (ct_conns c cid)) \<noteq> None
       then AList.delete (cx_dpid (ct_conns c cid)) (ct_connections c) else ct_connections c)\<rparr>"

definition disconnect_tell :: "'a app \<Rightarrow> nat \<Rightarrow> bool \<Rightarrow> ('a, unit) ctl" where
  "disconnect_tell app cid tell =
     sbind (get_conn cid cx_disconnection_raised) (\<lambda>raised.
     sbind (if tell \<and> \<not> raised then
              sbind (upd_conn cid (\<lambda>k. k\<lparr>cx_disconnection_raised := True\<rparr>)) (\<lambda>_.
              sbind (raise_nexus app cid (ConnectionDown cid)) (\<lambda>_.
              sbind (raise_event app AtConnection (ConnectionDown cid)) (\<lambda>_. ret ())))
            else ret ()) (\<lambda>_.
     emit (SockShutdown cid)))"

lemma disconnect_eq:
  "disconnect app cid d c = disconnect_tell app cid (cx_dpid (ct_conns c cid) \<noteq> None \<and> \<not> d) (disconnect_mark cid c)"
  by (auto simp: disconnect_def disconnect_tell_def disconnect_mark_def ctl_simps nexus_disconnect_def)

context listeners
begin

lemma keeps_tell_gone: "keeps (gone k) (disconnect_tell app cid b)"
  unfolding disconnect_tell_def raise_nexus_def
  by (intro keeps_intro) (simp_all add: keeps_def emit_def upd_conn_def modify_def gone_def)

lemma keeps_tell_unregistered: "keeps (unregistered k) (disconnect_tell app cid b)"
  unfolding disconnect_tell_def raise_nexus_def
  by (intro keeps_intro) (simp_all add: keeps_def emit_def upd_conn_def modify_def unregistered_def)

lemma disconnect_gone: "gone cid (snd (disconnect app cid d c))"
  unfolding disconnect_eq by (rule keepsD [OF keeps_tell_gone]) (simp add: gone_def disconnect_mark_def)

lemma disconnect_unregisters:
  "cx_nexus (ct_conns c cid) \<Longrightarrow> unregistered (cx_dpid (ct_conns c cid)) (snd (disconnect app cid d c))"
  unfolding disconnect_eq by (rule keepsD [OF keeps_tell_unregistered])
    (auto simp: unregistered_def disconnect_mark_def delete_conv')

end

section \<open>The deferred sender\<close>

lemma in_flight_kill:
  assumes "in_flight E c" "gone cid c \<or> pending c cid = [] \<or> cid \<in> E"
  shows "in_flight E (snd (deferred_kill cid c))"
proof -
  have "ct_data c \<noteq> []" if "AList.delete cid (ct_data c) \<noteq> []" using that by auto
  then show ?thesis using assms
    by (auto simp: deferred_kill_def modify_def in_flight_def gone_def accepted_def submitted_def pending_def delete_conv')
qed

lemma in_flight_sent:
  assumes "in_flight E c" "map_of (ct_data c) cid = Some ds" "concat ds = sent @ concat ds'"
  shows "in_flight E (c\<lparr>ct_calls := n, ct_trace := ct_trace c @ [Accepted cid sent], ct_data := AList.update cid ds' (ct_data c)\<rparr>)"
proof -
  have "ct_data c \<noteq> []" using assms(2) by auto
  then show ?thesis using assms
    by (auto simp: in_flight_def accepted_def submitted_def pending_def update_conv')
qed

context listeners
begin

lemma in_flight_flush: "in_flight E c \<Longrightarrow> map_of (ct_data c) cid = Some ds \<Longrightarrow> in_flight E (snd (flush app cid ds c))"
proof (induction ds arbitrary: c)
  case (Cons d ds)
  show ?case
  proof (cases "ct_sock c cid (ct_calls c) d")
    case (Took l)
    let ?c = "\<lambda>ds'. c\<lparr>ct_calls := ct_calls c + 1, ct_trace := ct_trace c @ [Accepted cid (take l d)], ct_data := AList.update cid ds' (ct_data c)\<rparr>"
    have "in_flight E (?c (drop l d # ds))" by (rule in_flight_sent [OF Cons.prems]) simp
    moreover have "in_flight E (?c ds)" if "l = length d" by (rule in_flight_sent [OF Cons.prems]) (simp add: that)
    ultimately show ?thesis using Took Cons.IH [of "?c ds"]
      by (auto simp: ctl_simps sock_send_def Let_def update_conv')
  next
    case WouldBlock
    have "in_flight E (c\<lparr>ct_calls := ct_calls c + 1\<rparr>)" by (rule in_flight_other [OF Cons.prems(1)]) simp_all
    then show ?thesis using WouldBlock by (simp add: ctl_simps sock_send_def)
  next
    case SockError
    let ?c = "c\<lparr>ct_calls := ct_calls c + 1\<rparr>"
    have "in_flight E ?c" by (rule in_flight_other [OF Cons.prems(1)]) simp_all
    then have "in_flight E (snd (disconnect app cid False ?c))" by (rule keepsD [OF keeps_disconnect_in_flight])
    then have k: "in_flight E (snd (deferred_kill cid (snd (disconnect app cid False ?c))))"
      using disconnect_gone by (intro in_flight_kill) auto
    show ?thesis
      using k SockError \<open>in_flight E (snd (disconnect app cid False ?c))\<close>
      by (auto simp: sbind_def sock_send_def Let_def split: prod.split sum.split)
  qed
qed (simp add: ret_def)

lemma in_flight_flush_one: "in_flight E c \<Longrightarrow> in_flight E (snd (flush_one app cid c))"
proof (cases "map_of (ct_data c) cid")
  case (Some ds)
  assume "in_flight E c"
  then have f: "in_flight E (snd (flush app cid ds c))" using in_flight_flush Some by blast
  let ?d = "snd (flush app cid ds c)"
  have k: "in_flight E (snd (deferred_kill cid ?d))" if "map_of (ct_data ?d) cid = Some []"
    by (rule in_flight_kill [OF f]) (simp add: pending_def that)
  have z: "in_flight E (e\<lparr>ct_sending := False\<rparr>)" if "in_flight E e" "ct_data e = []" for e
    using that by (simp add: in_flight_def accepted_def submitted_def pending_def)
  show ?thesis using f k Some z [of "snd (deferred_kill cid ?d)"]
    by (auto simp: flush_one_def ctl_simps deferred_kill_def split: prod.split sum.split)
qed (simp add: flush_one_def ctl_simps)

lemma in_flight_flush_all: "in_flight E c \<Longrightarrow> in_flight E (snd (flush_all app cids c))"
proof (induction cids arbitrary: c)
  case (Cons cid cids)
  then show ?case using in_flight_flush_one [of E c cid]
    by (auto simp: sbind_def ret_def split: prod.split sum.split)
qed (simp add: ret_def)

lemma keeps_in_flight_raise [keeps_intro]: "keeps (in_flight E) (raise_nexus app cid ev)" "keeps (in_flight E) (raise_both app cid ev)"
  unfolding raise_both_def raise_nexus_def by (intro keeps_intro)+

lemma keeps_in_flight_ports [keeps_intro]: "keeps (in_flight E) (handle_PORT_STATUS app cid m)"
  unfolding handle_PORT_STATUS_def by (intro keeps_intro) simp_all

lemma keeps_in_flight_default: "keeps (in_flight E) (default_handlers app cid m)"
  by (cases m) (auto simp: incoming_stats_reply_def stats_handler_def handle_FEATURES_REPLY_def handle_ECHO_REQUEST_def
      take_features_def intro!: keeps_intro)

lemma keeps_in_flight_finish [keeps_intro]: "keeps (in_flight E) (finish_connecting app cid)"
  unfolding finish_connecting_def by (intro keeps_intro) simp_all

lemma keeps_in_flight_features [keeps_intro]: "keeps (in_flight E) (hs_FEATURES_REPLY app cid r m)"
proof -
  have "keeps (in_flight E) (case x of MBarrierRequest b \<Rightarrow> upd_conn cid (\<lambda>k. k\<lparr>cx_handlers := Handshake r (Some b)\<rparr>) | _ \<Rightarrow> ret ())" for x
    by (cases x) (auto intro!: keeps_intro)
  then show ?thesis unfolding hs_FEATURES_REPLY_def getNexus_def take_features_def by (intro keeps_intro) simp_all
qed

lemma keeps_in_flight_handshake: "keeps (in_flight E) (handshake_handlers app cid r b m)"
  by (cases m) (auto simp: hs_BARRIER_REPLY_def hs_ERROR_def hs_HELLO_def hs_STATS_REPLY_def hs_PORT_STATUS_def
      handle_ECHO_REQUEST_def intro!: keeps_intro split: stats_rep_body.split stats_part.split)

lemma keeps_in_flight_handle: "keeps (in_flight E) (handle app cid m)"
  unfolding handle_def by (intro keeps_intro) (auto split: handlers.split simp: keeps_in_flight_default keeps_in_flight_handshake)

lemma in_flight_kill_all: "in_flight E c \<Longrightarrow> set cids \<subseteq> E \<Longrightarrow> in_flight E (snd (for_each deferred_kill cids c))"
proof (induction cids arbitrary: c)
  case (Cons cid cids)
  then have "in_flight E (snd (deferred_kill cid c))" by (intro in_flight_kill) auto
  then show ?case using Cons by (auto simp: sbind_def deferred_kill_def modify_def)
qed (simp add: ret_def)

lemma in_flight_round:
  assumes "in_flight E c" "set elist \<subseteq> E"
  shows "in_flight E (snd (deferred_round app elist wlist c))"
proof -
  have "fst (for_each deferred_kill elist c) = Inr ()"
    by (induction elist arbitrary: c) (simp_all add: sbind_def ret_def deferred_kill_def modify_def)
  then have "snd (deferred_round app elist wlist c) = snd (flush_all app wlist (snd (for_each deferred_kill elist c)))"
    by (auto simp: deferred_round_def sbind_def split: prod.split sum.split)
  then show ?thesis using in_flight_flush_all [OF in_flight_kill_all [OF assms]] by simp
qed

lemma in_flight_io_step: "io_step app E c c' \<Longrightarrow> in_flight E c \<Longrightarrow> in_flight E c'"
proof (induction rule: io_step.induct)
  case (close c cid)
  have "keeps (in_flight E) (con_close app cid)" unfolding con_close_def by (intro keeps_intro) simp_all
  then show ?case using close by (rule keepsD)
qed (auto intro: in_flight_app_step keepsD [OF keeps_in_flight_handle] in_flight_round)

lemma in_flight_io_steps: "(io_step app E)\<^sup>*\<^sup>* c c' \<Longrightarrow> in_flight E c \<Longrightarrow> in_flight E c'"
  by (induction rule: rtranclp_induct) (auto intro: in_flight_io_step)

end

end
