(* ===== verification/Controller_Properties.thy ===== *)
theory Controller_Properties
  imports Controller_Sending
begin

text \<open>
  The properties of the controller's connections: what is sent arrives in order, how the nexus loses a connection, how
  statistics replies are put together, and what a handshake does.
\<close>

section \<open>Sending\<close>

text \<open>
  C3. The bytes a connection's socket has taken, followed by the bytes the deferred sender still holds, are the bytes that
  were handed to the connection, in order, as long as the connection is not disconnected and \<^verbatim>\<open>select\<close> has not reported an
  exceptional condition for it (then the deferred sender drops what it holds): whatever the sockets take at each call,
  whatever messages are handled, whatever the listeners send, and however the rounds of the deferred sender fall between
  them, with exceptional conditions of other connections.
\<close>

theorem controller_sends_in_order:
  assumes "sends_only app" "ct_trace c0 = []" "ct_data c0 = []" "(io_step app E)\<^sup>*\<^sup>* c0 c"
    "\<not> cx_disconnected (ct_conns c cid)" "cid \<notin> E"
  shows "accepted c cid @ pending c cid = submitted c cid"
proof -
  have "in_flight E c0" using assms(2,3) by (simp add: in_flight_def accepted_def submitted_def pending_def)
  then have "in_flight E c" using listeners.in_flight_io_steps [of app E c0 c] assms(1,4) by (simp add: listeners_def)
  then show ?thesis using assms(5,6) by (simp add: in_flight_def)
qed

definition slow_controller :: "unit controller" where
  "slow_controller = sample_controller\<lparr>ct_sock := (\<lambda>_ n data. if n = 0 then Took 3 else if n = 1 then WouldBlock else Took 4)\<rparr>"

theorem controller_sends_in_order_witness:
  "\<exists>c :: unit controller. accepted c 1 @ pending c 1 = submitted c 1 \<and> length (submitted c 1) = 16 \<and> length (accepted c 1) = 7 \<and>
     length (submitted c 2) = 8 \<and> accepted c 2 = [] \<and> pending c 2 = []"
proof -
  let ?h = "MHello ofp_hello_init"
  let ?c1 = "snd (con_send 1 ?h slow_controller)"
  let ?c2 = "snd (con_send 1 ?h (snd (con_send 2 ?h ?c1)))"
  let ?c3 = "snd (deferred_round quiet [2] [1] ?c2)"
  let ?c = "snd (deferred_round quiet [] [1] ?c3)"
  have "io_step quiet {2} slow_controller ?c1" "io_step quiet {2} ?c1 (snd (con_send 2 ?h ?c1))"
    "io_step quiet {2} (snd (con_send 2 ?h ?c1)) ?c2" "io_step quiet {2} ?c2 ?c3" "io_step quiet {2} ?c3 ?c"
    by (intro io_step.app app_step.send_message io_step.flush; simp)+
  then have "(io_step quiet {2})\<^sup>*\<^sup>* slow_controller ?c" by (meson converse_rtranclp_into_rtranclp rtranclp.rtrancl_refl)
  moreover have "ct_trace slow_controller = []" "ct_data slow_controller = []" "\<not> cx_disconnected (ct_conns ?c 1)" by code_simp+
  ultimately have "accepted ?c 1 @ pending ?c 1 = submitted ?c 1"
    using controller_sends_in_order [OF ql.only_sends, of slow_controller "{2}" ?c 1] by simp
  moreover have "length (submitted ?c 1) = 16" "length (accepted ?c 1) = 7" "length (submitted ?c 2) = 8" "accepted ?c 2 = []" "pending ?c 2 = []"
    by code_simp+
  ultimately show ?thesis by blast
qed

text \<open>A connection \<^verbatim>\<open>select\<close> reported an exceptional condition for stays open, and what the deferred sender held for it is lost.\<close>

lemma exceptional_loses_bytes:
  "let c = snd (deferred_round quiet [1] [] (snd (con_send 1 (MHello ofp_hello_init) (slow_controller\<lparr>ct_sending := True\<rparr>)))) in
     \<not> cx_disconnected (ct_conns c 1) \<and> length (submitted c 1) = 8 \<and> accepted c 1 = [] \<and> pending c 1 = []"
  by code_simp

text \<open>
  C34. Closing a connection takes the switch out of the nexus, whichever connection the nexus has for it. When a switch
  has reconnected, closing the connection it had before makes the nexus lose the new one: \<^verbatim>\<open>getConnection\<close> finds nothing
  any more, although the new connection is not disconnected.
\<close>

theorem close_unregisters_newer:
  assumes "sends_only app" "cx_nexus (ct_conns c old)" "cx_dpid (ct_conns c old) = Some dpid" "getConnection dpid c = Some new"
  shows "getConnection dpid (snd (con_close app old c)) = None"
proof -
  have u: "unregistered (Some dpid) (snd (disconnect app old False c))"
    using listeners.disconnect_unregisters [of app c old False] assms(1-3) by (simp add: listeners_def)
  then show ?thesis by (auto simp: con_close_def sbind_def emit_def modify_def getConnection_def unregistered_def split: prod.split sum.split)
qed

definition reconnected :: "unit controller" where
  "reconnected = sample_controller\<lparr>ct_conns := (\<lambda>_. (connection_blank 0)\<lparr>cx_nexus := True, cx_dpid := Some 7\<rparr>),
     ct_ID := 2, ct_sockets := [1, 2], ct_connections := [(Some 7, 2)]\<rparr>"

theorem close_unregisters_newer_witness:
  "getConnection 7 reconnected = Some 2 \<and> getConnection 7 (snd (con_close quiet 1 reconnected)) = None \<and>
   \<not> cx_disconnected (ct_conns (snd (con_close quiet 1 reconnected)) 2)"
proof -
  have "cx_nexus (ct_conns reconnected 1)" "cx_dpid (ct_conns reconnected 1) = Some 7" "getConnection 7 reconnected = Some 2"
    "\<not> cx_disconnected (ct_conns (snd (con_close quiet 1 reconnected)) 2)" by code_simp+
  then show ?thesis using close_unregisters_newer [OF ql.only_sends, of reconnected 1 7 2] by simp
qed

section \<open>Statistics replies\<close>

text \<open>Listeners that only watch: they may halt an event and change nothing.\<close>

definition watch :: "(event_source \<Rightarrow> of_event \<Rightarrow> bool) \<Rightarrow> 'a app" where
  "watch h src ev c = (h src ev, c)"

interpretation wa: application "watch h" for h
  by unfold_locales (simp add: watch_def blind_def)

interpretation wl: listeners "watch h" for h
  by unfold_locales (simp add: sends_only_def watch_def)

text \<open>The events a connection with the nexus raises with watching listeners.\<close>

definition told :: "(event_source \<Rightarrow> of_event \<Rightarrow> bool) \<Rightarrow> of_event \<Rightarrow> ctl_trace list" where
  "told h ev = Raised AtNexus ev # (if h AtNexus ev then [] else [Raised AtConnection ev])"

lemma raise_both_watch:
  "cx_nexus (ct_conns c cid) \<Longrightarrow> raise_both (watch h) cid ev c = (Inr (), c\<lparr>ct_trace := ct_trace c @ told h ev\<rparr>)"
  by (simp add: raise_both_def raise_nexus_def raise_event_def ctl_simps watch_def told_def)


definition with_stats :: "nat \<Rightarrow> ofp_stats_reply list \<Rightarrow> 'a controller \<Rightarrow> 'a controller" where
  "with_stats cid ps c = c\<lparr>ct_conns := (ct_conns c)(cid := (ct_conns c cid)\<lparr>cx_previous_stats := ps\<rparr>)\<rparr>"









definition sample_part :: "int \<Rightarrow> bool \<Rightarrow> ofp_stats_reply" where
  "sample_part n final = ofp_stats_reply_init\<lparr>hdr_xid := Some 9, sp_type := Some 1, sp_flags := (if final then 0 else 1),
     sp_body := BList [SFlow (ofp_flow_stats_init\<lparr>fs_cookie := n\<rparr>)]\<rparr>"


text \<open>
  A reply that is never completed blocks the statistics of its connection: as long as parts of one reply are pending,
  every complete reply to another request is dropped with an exception, nothing is raised, and the pending parts stay.
\<close>

theorem stats_reply_blocked:
  assumes "cx_previous_stats (ct_conns c cid) = q # qs" "ofp_stats_reply_is_last_reply p" "hdr_xid p \<noteq> hdr_xid q"
  shows "incoming_stats_reply app cid p c = (Inl AttributeError, c)"
  using assms by (simp add: incoming_stats_reply_def sbind_def get_conn_def gets_def raise_def)

theorem stats_reply_blocked_witness:
  "incoming_stats_reply quiet 1 ((sample_part 3 True)\<lparr>hdr_xid := Some 10\<rparr>) (with_stats 1 [sample_part 1 False] reconnected) =
     (Inl AttributeError, with_stats 1 [sample_part 1 False] reconnected)"
  by (rule stats_reply_blocked [of _ _ "sample_part 1 False" "[]"]) code_simp+

section \<open>The handshake\<close>

definition put_conn :: "nat \<Rightarrow> connection \<Rightarrow> 'a controller \<Rightarrow> 'a controller" where
  "put_conn cid k c = c\<lparr>ct_conns := (ct_conns c)(cid := k)\<rparr>"

definition add_trace :: "ctl_trace list \<Rightarrow> 'a controller \<Rightarrow> 'a controller" where
  "add_trace ts c = c\<lparr>ct_trace := ct_trace c @ ts\<rparr>"

lemma put_conn_simps [simp]:
  "ct_conns (put_conn cid k c) cid = k" "put_conn cid k (put_conn cid k' c) = put_conn cid k c"
  "put_conn cid (ct_conns c cid) c = c" "ct_now (put_conn cid k c) = ct_now c" "ct_now (add_trace ts c) = ct_now c"
  "ct_conns (add_trace ts c) = ct_conns c" "add_trace ts (add_trace us c) = add_trace (us @ ts) c"
  "put_conn cid k (add_trace ts c) = add_trace ts (put_conn cid k c)" "add_trace [] c = c"
  "ct_trace (put_conn cid k c) = ct_trace c" "ct_trace (add_trace ts c) = ct_trace c @ ts"
  "ct_connections (put_conn cid k c) = ct_connections c" "ct_connections (add_trace ts c) = ct_connections c"
  by (simp_all add: put_conn_def add_trace_def)

lemma upd_conn_put: "upd_conn cid f c = (Inr (), put_conn cid (f (ct_conns c cid)) c)"
  by (simp add: upd_conn_def modify_def put_conn_def)

lemma raise_watch:
  "cx_nexus (ct_conns c cid) \<Longrightarrow> raise_both (watch h) cid ev c = (Inr (), add_trace (told h ev) c)"
  "cx_nexus (ct_conns c cid) \<Longrightarrow> raise_nexus (watch h) cid ev c = (Inr (h AtNexus ev), add_trace [Raised AtNexus ev] c)"
  by (simp_all add: raise_both_watch add_trace_def raise_nexus_def raise_event_def ctl_simps watch_def)

definition status_change :: "ofp_port_status \<Rightarrow> port_change" where
  "status_change m = (if ps_reason m = OFPPR_DELETE then Removed (ps_desc m) else Changed (ps_desc m))"

lemma handle_PORT_STATUS_watch:
  "cx_nexus (ct_conns c cid) \<Longrightarrow> handle_PORT_STATUS (watch h) cid m c =
     (Inr (), add_trace (told h (PortStatus cid m)) (put_conn cid ((ct_conns c cid)\<lparr>cx_ports := pc_change (status_change m) (cx_ports (ct_conns c cid))\<rparr>) c))"
  by (simp add: handle_PORT_STATUS_def sbind_def upd_conn_put raise_watch status_change_def pc_change_def)

lemma early_ports_watch:
  "cx_nexus (ct_conns c cid) \<Longrightarrow> for_each (handle_PORT_STATUS (watch h) cid) ms c =
     (Inr (), add_trace (concat (map (\<lambda>m. told h (PortStatus cid m)) ms))
        (put_conn cid ((ct_conns c cid)\<lparr>cx_ports := fold pc_change (map status_change ms) (cx_ports (ct_conns c cid))\<rparr>) c))"
  by (induction ms arbitrary: c) (simp_all add: ret_def sbind_def handle_PORT_STATUS_watch)

lemma finish_connecting_watch:
  assumes "cx_nexus (ct_conns c cid)" "cx_features (ct_conns c cid) = Some f" "cx_deferred_port_status (ct_conns c cid) = Some early"
  shows "finish_connecting (watch h) cid c = (Inr (),
    add_trace (Raised AtNexus (ConnectionHandshakeComplete cid) # told h (ConnectionUp cid (Some f)) @ told h (FeaturesReceived cid f) @
      concat (map (\<lambda>m. told h (PortStatus cid m)) early))
    (put_conn cid ((ct_conns c cid)\<lparr>cx_connect_time := Some (ct_now c), cx_handlers := Established,
        cx_ports := fold pc_change (map status_change early) (cx_ports (ct_conns c cid)),
        cx_deferred_port_status := (if early = [] then Some [] else None)\<rparr>)
      (c\<lparr>ct_connections := AList.update (cx_dpid (ct_conns c cid)) cid (ct_connections c)\<rparr>)))"
proof (cases early)
  case Nil
  then have k: "(ct_conns c cid)\<lparr>cx_connect_time := t, cx_handlers := e, cx_deferred_port_status := Some []\<rparr> =
    (ct_conns c cid)\<lparr>cx_connect_time := t, cx_handlers := e\<rparr>" for t e using assms(3) by (cases "ct_conns c cid") simp
  from Nil show ?thesis using assms
    by (simp add: finish_connecting_def sbind_def nexus_connect_def get_conn_def gets_def modify_def upd_conn_put raise_watch ret_def k)
next
  case Cons
  with assms show ?thesis
    by (simp add: finish_connecting_def sbind_def nexus_connect_def get_conn_def gets_def modify_def upd_conn_put
        raise_watch early_ports_watch handle_PORT_STATUS_watch ret_def)
qed

text \<open>
  C8. When the switch answers the barrier of the handshake, with the barrier's transaction id, the connection is
  established: it is registered in the nexus under the id of the switch, the connection time is set, the messages go to
  the other handlers from now on, and the applications are told, in this order, that the handshake is complete, that the
  connection is up, the features, and the port changes that came in meanwhile, which are now part of the ports.
\<close>

theorem handshake_completes:
  assumes "cx_handlers (ct_conns c cid) = Handshake r (Some b)" "hdr_xid b = Some x" "hdr_xid m = Some x"
    "cx_nexus (ct_conns c cid)" "cx_dpid (ct_conns c cid) = Some dpid" "cx_features (ct_conns c cid) = Some f"
    "cx_deferred_port_status (ct_conns c cid) = Some early"
  shows "let c' = snd (handle (watch h) cid (MBarrierReply m) c); k = ct_conns c' cid in
    cx_handlers k = Established \<and> cx_connect_time k = Some (ct_now c) \<and> getConnection dpid c' = Some cid \<and>
    cx_ports k = fold pc_change (map status_change early) (cx_ports (ct_conns c cid)) \<and>
    ct_trace c' = ct_trace c @ Raised AtNexus (ConnectionHandshakeComplete cid) # told h (ConnectionUp cid (Some f)) @
      told h (FeaturesReceived cid f) @ concat (map (\<lambda>m. told h (PortStatus cid m)) early)"
proof -
  have b: "ofp_header_xid g b = (x, b, g)" for g using assms(2) by (simp add: ofp_header_xid_def)
  have s: "put_conn cid ((ct_conns c cid)\<lparr>cx_handlers := Handshake r (Some b)\<rparr>) c = c"
    using assms(1) by (cases "ct_conns c cid") (simp add: put_conn_def fun_upd_idem)
  have "handle (watch h) cid (MBarrierReply m) c = finish_connecting (watch h) cid c"
    using assms(1,3) s by (simp add: handle_def sbind_def get_conn_def gets_def hs_BARRIER_REPLY_def barrier_xid_def b modify_def
        upd_conn_put ret_def)
  then show ?thesis using assms finish_connecting_watch [OF assms(4,6,7), of h]
    by (simp add: getConnection_def update_conv' Let_def)
qed

definition awaiting_barrier :: "unit controller" where
  "awaiting_barrier = put_conn 1 ((connection_blank 0)\<lparr>cx_nexus := True, cx_dpid := Some 7,
     cx_features := Some (ofp_features_reply_init\<lparr>fr_datapath_id := 7\<rparr>), cx_deferred_port_status := Some [],
     cx_handlers := Handshake True (Some (ofp_barrier_request_init\<lparr>hdr_xid := Some 5\<rparr>))\<rparr>) sample_controller"

theorem handshake_completes_witness:
  "getConnection 7 awaiting_barrier = None \<and>
   getConnection 7 (snd (handle (watch (\<lambda>_ _. False)) 1 (MBarrierReply (ofp_barrier_reply_init\<lparr>hdr_xid := Some 5\<rparr>)) awaiting_barrier)) = Some 1"
proof -
  let ?b = "ofp_barrier_request_init\<lparr>hdr_xid := Some 5\<rparr>" and ?m = "ofp_barrier_reply_init\<lparr>hdr_xid := Some 5\<rparr>"
  have "cx_handlers (ct_conns awaiting_barrier 1) = Handshake True (Some ?b)" "hdr_xid ?b = Some 5" "hdr_xid ?m = Some 5"
    "cx_nexus (ct_conns awaiting_barrier 1)" "cx_dpid (ct_conns awaiting_barrier 1) = Some 7"
    "cx_features (ct_conns awaiting_barrier 1) = Some (ofp_features_reply_init\<lparr>fr_datapath_id := 7\<rparr>)"
    "cx_deferred_port_status (ct_conns awaiting_barrier 1) = Some []"
    by (simp_all add: awaiting_barrier_def)
  note r = handshake_completes [OF this, of "\<lambda>_ _. False", unfolded Let_def]
  have "getConnection 7 awaiting_barrier = None" by code_simp
  then show ?thesis using r by blast
qed

end
