(* ===== verification/Spanning_Tree.thy ===== *)
theory Spanning_Tree
  imports Pox_Prelude "HOL-Library.AList"
begin

text \<open>
  The spanning tree of \<^verbatim>\<open>openflow/spanning_tree.py\<close> (\<^verbatim>\<open>_calc_spanning_tree\<close>), computed from the links that
  \<^verbatim>\<open>openflow/discovery.py\<close> has found. The function first keeps one link that was seen in both directions for each
  pair of switches and then searches the graph depth first. It is shown that the result is a spanning forest: its
  edges are two-way links with the right ports, it has no cycle, and it connects what the two-way links connect.

  A dictionary is the association list of its items in the order of iteration, a set the list of its elements. In
  which order Python visits the elements of a set is the argument \<open>iter\<close>.
\<close>

section \<open>Links\<close>

datatype Link = Link (dpid1: int) (port1: int) (dpid2: int) (port2: int)

definition Link_end :: "Link \<Rightarrow> (int \<times> int) \<times> (int \<times> int)" where
  "Link_end l = ((dpid1 l, port1 l), (dpid2 l, port2 l))"

definition pair_le :: "int \<times> int \<Rightarrow> int \<times> int \<Rightarrow> bool" where
  "pair_le a b \<longleftrightarrow> fst a < fst b \<or> fst a = fst b \<and> snd a \<le> snd b"

definition Link_uni :: "Link \<Rightarrow> Link" where
  "Link_uni l = (let (a, b) = Link_end l in
     if pair_le a b then Link (fst a) (snd a) (fst b) (snd b) else Link (fst b) (snd b) (fst a) (snd a))"

definition flip :: "Link \<Rightarrow> Link" where
  "flip l = Link (dpid2 l) (port2 l) (dpid1 l) (port1 l)"

text \<open>The unidirectional form forgets the direction of a link and nothing else.\<close>

lemma Link_uni_eq: "Link_uni l = Link_uni m \<longleftrightarrow> m = l \<or> m = flip l"
  by (cases l; cases m) (auto simp: Link_uni_def Link_end_def pair_le_def flip_def)

section \<open>The adjacency of switches\<close>

text \<open>
  \<^verbatim>\<open>adj[s1][s2]\<close> is first the list of the links from \<open>s1\<close> to \<open>s2\<close>, later the port of \<open>s1\<close> that leads to \<open>s2\<close>.
\<close>

datatype cell = Links "Link list" | Port int

type_synonym row = "(int \<times> cell) list"
type_synonym adj = "(int \<times> row) list"

definition adj_row :: "adj \<Rightarrow> int \<Rightarrow> row" where
  "adj_row adj v = (case map_of adj v of Some r \<Rightarrow> r | None \<Rightarrow> [])"

definition adj_get :: "adj \<Rightarrow> int \<Rightarrow> int \<Rightarrow> cell option" where
  "adj_get adj v w = map_of (adj_row adj v) w"

definition adj_set :: "int \<Rightarrow> int \<Rightarrow> cell \<Rightarrow> adj \<Rightarrow> adj" where
  "adj_set v w c adj = AList.update v (AList.update w c (adj_row adj v)) adj"

definition adj_del :: "int \<Rightarrow> int \<Rightarrow> adj \<Rightarrow> adj" where
  "adj_del v w adj = AList.update v (AList.delete w (adj_row adj v)) adj"

definition adj_append :: "Link \<Rightarrow> adj \<Rightarrow> adj" where
  "adj_append l adj =
     (let ls = (case adj_get adj (dpid1 l) (dpid2 l) of Some (Links ls) \<Rightarrow> ls | _ \<Rightarrow> [])
      in adj_set (dpid1 l) (dpid2 l) (Links (ls @ [l])) adj)"

definition add_links :: "Link list \<Rightarrow> adj \<times> int list" where
  "add_links adjacency =
     fold (\<lambda>l (adj, switches). (adj_append l adj, List.insert (dpid2 l) (List.insert (dpid1 l) switches)))
       adjacency ([], [])"

text \<open>One pair of switches: keep a link that was also seen the other way round, or drop the pair.\<close>

definition cull_pair :: "Link list \<Rightarrow> int \<Rightarrow> int \<Rightarrow> adj \<Rightarrow> adj res" where
  "cull_pair adjacency s1 s2 adj =
     (case adj_get adj s1 s2 of
        Some (Links ls) \<Rightarrow>
          if s1 = s2 then Inl AssertionError
          else (case find (\<lambda>l. flip l \<in> set adjacency) ls of
                  Some l \<Rightarrow> Inr (adj_set s2 s1 (Port (port2 l)) (adj_set s1 s2 (Port (port1 l)) adj))
                | None \<Rightarrow>
                    let adj = adj_del s1 s2 adj in
                    Inr (if adj_get adj s2 s1 \<noteq> None then adj_del s2 s1 adj else adj))
      | _ \<Rightarrow> Inr adj)"

fun cull :: "Link list \<Rightarrow> (int \<times> int) list \<Rightarrow> adj \<Rightarrow> adj res" where
  "cull adjacency [] adj = Inr adj"
| "cull adjacency ((s1, s2) # ps) adj = rbind (cull_pair adjacency s1 s2 adj) (cull adjacency ps)"

section \<open>The search\<close>

type_synonym tree = "(int \<times> (int \<times> cell) list) list"

definition tree_ports :: "tree \<Rightarrow> int \<Rightarrow> (int \<times> cell) list" where
  "tree_ports tree v = (case map_of tree v of Some ps \<Rightarrow> ps | None \<Rightarrow> [])"

definition tree_add :: "int \<Rightarrow> int \<times> cell \<Rightarrow> tree \<Rightarrow> tree" where
  "tree_add v x tree = AList.update v (List.insert x (tree_ports tree v)) tree"

definition default_cell :: "cell option \<Rightarrow> cell" where
  "default_cell c = (case c of Some c \<Rightarrow> c | None \<Rightarrow> Links [])"

text \<open>The loop over the neighbours of \<open>v\<close>.\<close>

fun visit :: "adj \<Rightarrow> int \<Rightarrow> row \<Rightarrow> tree \<times> int list \<Rightarrow> tree \<times> int list" where
  "visit adj v [] (tree, more) = (tree, more)"
| "visit adj v ((w, p) # ws) (tree, more) =
     (if map_of tree w \<noteq> None then visit adj v ws (tree, more)
      else visit adj v ws (tree_add w (v, default_cell (adj_get adj w v)) (tree_add v (w, p) tree), List.insert w more))"

function search :: "adj \<Rightarrow> int list \<Rightarrow> int list \<Rightarrow> int list \<Rightarrow> tree \<Rightarrow> tree" where
  "search adj q more done tree =
     (case sort more @ q of
        [] \<Rightarrow> tree
      | v # q \<Rightarrow>
          if v \<in> set done then search adj q [] done tree
          else case visit adj v (adj_row adj v) (tree, []) of
                 (tree, more) \<Rightarrow> search adj q more (v # done) tree)"
  by pat_completeness auto

lemma sort_append_length: "sort more @ q = v # q' \<Longrightarrow> length more + length q = Suc (length q')"
  by (metis length_append length_sort length_Cons)

lemma visit_unlinked: "map_of adj v = None \<Longrightarrow> visit adj v (adj_row adj v) (tree, []) = (tree, [])"
  by (simp add: adj_row_def)

termination search
proof (relation "measures [\<lambda>(adj, q, more, done, tree). card (fst ` set adj - set done),
    \<lambda>(adj, q, more, done, tree). length more + length q]", goal_cases)
  case (2 adj q more don tree v q')
  then show ?case using sort_append_length [of more q v q'] by simp
next
  case (3 adj q more don tree v q' tree' more')
  show ?case
  proof (cases "v \<in> fst ` set adj")
    case True
    then have "card (fst ` set adj - set (v # don)) < card (fst ` set adj - set don)"
      using 3 by (intro psubset_card_mono) auto
    then show ?thesis by simp
  next
    case False
    then have "map_of adj v = None" by (simp add: map_of_eq_None_iff)
    from visit_unlinked [OF this, of tree] 3 have "more' = []" by auto
    moreover have "fst ` set adj - set (v # don) = fst ` set adj - set don" using False by auto
    ultimately show ?thesis using 3 sort_append_length [of more q v q'] by simp
  qed
qed simp

declare search.simps [simp del]

definition calc_spanning_tree :: "(int list \<Rightarrow> int list) \<Rightarrow> Link list \<Rightarrow> tree res" where
  "calc_spanning_tree iter adjacency =
     (case add_links adjacency of
        (adj, switches) \<Rightarrow>
          rbind (cull adjacency (List.product (iter switches) (iter switches)) adj)
            (\<lambda>adj. Inr (search adj [] switches [] [])))"

section \<open>Which links are kept\<close>

lemma adj_row_update [simp]: "adj_row (AList.update v r adj) u = (if u = v then r else adj_row adj u)"
  by (simp add: adj_row_def update_conv')

lemma adj_get_set [simp]: "adj_get (adj_set v w c adj) a b = (if a = v \<and> b = w then Some c else adj_get adj a b)"
  by (simp add: adj_get_def adj_set_def update_conv')

lemma adj_get_del [simp]: "adj_get (adj_del v w adj) a b = (if a = v \<and> b = w then None else adj_get adj a b)"
  by (simp add: adj_get_def adj_del_def delete_conv')

definition rows_ok :: "adj \<Rightarrow> bool" where
  "rows_ok adj \<longleftrightarrow> (\<forall>v. distinct (map fst (adj_row adj v)))"

lemma rows_ok_Nil [simp]: "rows_ok []"
  by (simp add: rows_ok_def adj_row_def)

lemma rows_ok_set [simp]: "rows_ok adj \<Longrightarrow> rows_ok (adj_set v w c adj)"
  by (simp add: rows_ok_def adj_set_def distinct_update)

lemma rows_ok_del [simp]: "rows_ok adj \<Longrightarrow> rows_ok (adj_del v w adj)"
  by (simp add: rows_ok_def adj_del_def delete_keys distinct_removeAll)

lemma rows_ok_item: "rows_ok adj \<Longrightarrow> (w, c) \<in> set (adj_row adj v) \<longleftrightarrow> adj_get adj v w = Some c"
  by (simp add: rows_ok_def adj_get_def)

definition raw_cell :: "Link list \<Rightarrow> int \<Rightarrow> int \<Rightarrow> cell option" where
  "raw_cell L v w = (let ls = filter (\<lambda>l. dpid1 l = v \<and> dpid2 l = w) L in if ls = [] then None else Some (Links ls))"

lemma add_links_result:
  "case add_links L of (adj, switches) \<Rightarrow>
     rows_ok adj \<and> (\<forall>v w. adj_get adj v w = raw_cell L v w) \<and> distinct switches \<and>
     set switches = dpid1 ` set L \<union> dpid2 ` set L"
proof (induction L rule: rev_induct)
  case Nil
  show ?case by (simp add: add_links_def raw_cell_def adj_get_def adj_row_def)
next
  case (snoc l L)
  obtain adj switches where a: "add_links L = (adj, switches)" by (cases "add_links L")
  then have s: "add_links (L @ [l]) = (adj_append l adj, List.insert (dpid2 l) (List.insert (dpid1 l) switches))"
    by (simp add: add_links_def)
  have r: "rows_ok (adj_append l adj)" using snoc a by (simp add: adj_append_def Let_def)
  have g: "adj_get (adj_append l adj) v w = raw_cell (L @ [l]) v w" for v w
    using snoc a by (auto simp: adj_append_def raw_cell_def Let_def)
  show ?case using snoc a r g by (auto simp: s distinct_insert)
qed

definition two_way :: "Link list \<Rightarrow> int \<Rightarrow> int \<Rightarrow> int \<Rightarrow> int \<Rightarrow> bool" where
  "two_way L v p w q \<longleftrightarrow> Link v p w q \<in> set L \<and> Link w q v p \<in> set L"

definition linked :: "Link list \<Rightarrow> int \<Rightarrow> int \<Rightarrow> bool" where
  "linked L v w \<longleftrightarrow> (\<exists>p q. two_way L v p w q)"

definition no_self_links :: "Link list \<Rightarrow> bool" where
  "no_self_links L \<longleftrightarrow> (\<forall>l \<in> set L. dpid1 l \<noteq> dpid2 l)"

text \<open>What a pair of switches has after it was culled, and before.\<close>

definition culled :: "Link list \<Rightarrow> adj \<Rightarrow> int \<Rightarrow> int \<Rightarrow> bool" where
  "culled L adj v w \<longleftrightarrow>
     (\<exists>p q. two_way L v p w q \<and> adj_get adj v w = Some (Port p) \<and> adj_get adj w v = Some (Port q)) \<or>
     \<not> linked L v w \<and> adj_get adj v w = None \<and> adj_get adj w v = None"

definition uncut :: "Link list \<Rightarrow> adj \<Rightarrow> int \<Rightarrow> int \<Rightarrow> bool" where
  "uncut L adj v w \<longleftrightarrow> adj_get adj v w = raw_cell L v w \<and> adj_get adj w v = raw_cell L w v"

lemma linked_sym: "linked L v w \<longleftrightarrow> linked L w v"
  by (auto simp: linked_def two_way_def)

lemma culled_sym: "culled L adj v w \<longleftrightarrow> culled L adj w v"
  using linked_sym [of L v w] by (auto simp: culled_def two_way_def)

lemma uncut_sym: "uncut L adj v w \<longleftrightarrow> uncut L adj w v"
  by (auto simp: uncut_def)

lemma raw_cell_None: "raw_cell L v w = None \<Longrightarrow> \<not> linked L v w"
  by (force simp: raw_cell_def linked_def two_way_def Let_def filter_empty_conv split: if_splits)

lemma raw_cell_Some:
  "raw_cell L v w = Some c \<Longrightarrow> \<exists>ls. c = Links ls \<and> (\<forall>l. l \<in> set ls \<longleftrightarrow> l \<in> set L \<and> dpid1 l = v \<and> dpid2 l = w)"
  by (auto simp: raw_cell_def Let_def split: if_splits)

text \<open>A visited pair is culled, or there is nothing to cull in this direction.\<close>

definition visited :: "Link list \<Rightarrow> adj \<Rightarrow> int \<Rightarrow> int \<Rightarrow> bool" where
  "visited L adj v w \<longleftrightarrow> culled L adj v w \<or> uncut L adj v w \<and> raw_cell L v w = None"

lemma find_two_way:
  assumes "\<And>l. l \<in> set ls \<longleftrightarrow> l \<in> set L \<and> dpid1 l = v \<and> dpid2 l = w"
  shows "case find (\<lambda>l. flip l \<in> set L) ls of Some l \<Rightarrow> two_way L v (port1 l) w (port2 l) | None \<Rightarrow> \<not> linked L v w"
proof (cases "find (\<lambda>l. flip l \<in> set L) ls")
  case None
  have "\<not> two_way L v p w q" for p q
  proof
    assume "two_way L v p w q"
    then have "Link v p w q \<in> set ls" "flip (Link v p w q) \<in> set L" using assms by (auto simp: two_way_def flip_def)
    then show False using None by (auto simp: find_None_iff)
  qed
  then show ?thesis using None by (simp add: linked_def)
next
  case (Some l)
  then have "l \<in> set ls" "flip l \<in> set L" by (auto simp: find_Some_iff)
  then have "l \<in> set L" "dpid1 l = v" "dpid2 l = w" "flip l \<in> set L" using assms [of l] by simp_all
  moreover have "Link (dpid1 l) (port1 l) (dpid2 l) (port2 l) = l" by simp
  ultimately show ?thesis using Some by (simp add: two_way_def flip_def)
qed

lemma cull_pair_step:
  assumes "s1 \<noteq> s2" "culled L adj s1 s2 \<or> uncut L adj s1 s2" "rows_ok adj"
  shows "\<exists>adj'. cull_pair L s1 s2 adj = Inr adj' \<and> rows_ok adj' \<and> visited L adj' s1 s2 \<and>
    (culled L adj' s1 s2 \<or> adj' = adj) \<and>
    (\<forall>a b. (a, b) \<noteq> (s1, s2) \<and> (a, b) \<noteq> (s2, s1) \<longrightarrow> adj_get adj' a b = adj_get adj a b)"
proof (cases "culled L adj s1 s2")
  case True
  then show ?thesis using assms(3) by (auto simp: cull_pair_def culled_def visited_def)
next
  case False
  then have un: "uncut L adj s1 s2" using assms(2) by blast
  then have u: "adj_get adj s1 s2 = raw_cell L s1 s2" by (simp add: uncut_def)
  show ?thesis
  proof (cases "raw_cell L s1 s2")
    case None
    then show ?thesis using un u assms(3) by (simp add: cull_pair_def visited_def)
  next
    case (Some c)
    then obtain ls where c: "c = Links ls" and ls: "\<And>l. l \<in> set ls \<longleftrightarrow> l \<in> set L \<and> dpid1 l = s1 \<and> dpid2 l = s2"
      using raw_cell_Some by blast
    show ?thesis
    proof (cases "find (\<lambda>l. flip l \<in> set L) ls")
      case None
      then have "\<not> linked L s1 s2" using find_two_way [OF ls] by simp
      then show ?thesis using assms(1,3) u Some c None
        by (auto simp: cull_pair_def Let_def culled_def visited_def)
    next
      case (Some l)
      then have "two_way L s1 (port1 l) s2 (port2 l)" using find_two_way [OF ls] by simp
      then show ?thesis using assms(1,3) u \<open>raw_cell L s1 s2 = Some c\<close> c Some
        by (auto simp: cull_pair_def culled_def visited_def)
    qed
  qed
qed

lemma culled_cong: "adj_get adj' v w = adj_get adj v w \<Longrightarrow> adj_get adj' w v = adj_get adj w v \<Longrightarrow>
    culled L adj' v w = culled L adj v w \<and> uncut L adj' v w = uncut L adj v w \<and> visited L adj' v w = visited L adj v w"
  by (simp add: culled_def uncut_def visited_def)

lemma no_self_raw: "no_self_links L \<Longrightarrow> raw_cell L v v = None"
  by (auto simp: raw_cell_def no_self_links_def filter_empty_conv)

lemma cull_result:
  assumes "no_self_links L" "rows_ok adj" "\<forall>v w. culled L adj v w \<or> uncut L adj v w"
  shows "\<exists>adj'. cull L ps adj = Inr adj' \<and> rows_ok adj' \<and> (\<forall>v w. culled L adj' v w \<or> uncut L adj' v w) \<and>
    (\<forall>v w. (v, w) \<in> set ps \<or> visited L adj v w \<longrightarrow> visited L adj' v w)"
  using assms(2,3)
proof (induction ps arbitrary: adj)
  case Nil
  then show ?case by simp
next
  case (Cons x ps)
  obtain s1 s2 where x: "x = (s1, s2)" by (cases x)
  have "\<exists>adj1. cull_pair L s1 s2 adj = Inr adj1 \<and> rows_ok adj1 \<and> (\<forall>v w. culled L adj1 v w \<or> uncut L adj1 v w) \<and>
    visited L adj1 s1 s2 \<and> (\<forall>v w. visited L adj v w \<longrightarrow> visited L adj1 v w)"
  proof (cases "s1 = s2")
    case True
    have "raw_cell L s2 s2 = None" using assms(1) by (rule no_self_raw)
    then have n: "adj_get adj s2 s2 = None" and v: "visited L adj s2 s2"
      using Cons.prems(2) raw_cell_None by (force simp: culled_def uncut_def visited_def linked_def)+
    show ?thesis using True Cons.prems n v by (simp add: cull_pair_def)
  next
    case False
    from cull_pair_step [OF False _ Cons.prems(1)] Cons.prems(2)
    obtain adj1 where a: "cull_pair L s1 s2 adj = Inr adj1" "rows_ok adj1" "visited L adj1 s1 s2"
      "culled L adj1 s1 s2 \<or> adj1 = adj"
      "\<And>a b. (a, b) \<noteq> (s1, s2) \<and> (a, b) \<noteq> (s2, s1) \<Longrightarrow> adj_get adj1 a b = adj_get adj a b" by blast
    have other: "culled L adj1 v w = culled L adj v w \<and> uncut L adj1 v w = uncut L adj v w \<and>
        visited L adj1 v w = visited L adj v w" if "(v, w) \<noteq> (s1, s2)" "(v, w) \<noteq> (s2, s1)" for v w
      by (rule culled_cong) (use a(5) that in auto)
    have "culled L adj1 v w \<or> uncut L adj1 v w" for v w
      using other [of v w] a(4) Cons.prems(2) culled_sym [of L adj1 s1 s2] by auto
    moreover have "visited L adj1 v w" if "visited L adj v w" for v w
      using other [of v w] a(4) that culled_sym [of L adj1 s1 s2] by (auto simp: visited_def)
    ultimately show ?thesis using a(1-3) by blast
  qed
  then obtain adj1 where a: "cull_pair L s1 s2 adj = Inr adj1" "rows_ok adj1"
    "\<forall>v w. culled L adj1 v w \<or> uncut L adj1 v w" "visited L adj1 s1 s2" "\<forall>v w. visited L adj v w \<longrightarrow> visited L adj1 v w"
    by blast
  from Cons.IH [OF a(2,3)] a x show ?case by auto
qed

text \<open>All pairs together.\<close>

definition iterates :: "(int list \<Rightarrow> int list) \<Rightarrow> bool" where
  "iterates iter \<longleftrightarrow> (\<forall>xs. distinct xs \<longrightarrow> distinct (iter xs) \<and> set (iter xs) = set xs)"

lemma visited_both: "visited L adj v w \<Longrightarrow> visited L adj w v \<Longrightarrow> culled L adj v w"
  using culled_sym [of L adj v w] raw_cell_None [of L v w]
  by (auto simp: visited_def culled_def uncut_def)

lemma cull_all:
  assumes "no_self_links L" "iterates iter" "add_links L = (adj, switches)"
  shows "\<exists>adj'. cull L (List.product (iter switches) (iter switches)) adj = Inr adj' \<and> rows_ok adj' \<and> (\<forall>v w. culled L adj' v w)"
proof -
  have l: "rows_ok adj" "\<And>v w. adj_get adj v w = raw_cell L v w" "distinct switches"
    "set switches = dpid1 ` set L \<union> dpid2 ` set L" using add_links_result [of L] assms(3) by auto
  have it: "set (iter switches) = set switches" using assms(2) l(3) by (simp add: iterates_def)
  have un: "uncut L adj v w" for v w by (simp add: uncut_def l(2))
  from cull_result [OF assms(1) l(1), of "List.product (iter switches) (iter switches)"] un
  obtain adj' where a: "cull L (List.product (iter switches) (iter switches)) adj = Inr adj'" "rows_ok adj'"
    "\<And>v w. v \<in> set switches \<Longrightarrow> w \<in> set switches \<Longrightarrow> visited L adj' v w"
    "\<And>v w. visited L adj v w \<Longrightarrow> visited L adj' v w" by (auto simp: it)
  have "visited L adj' v w" for v w
  proof (cases "v \<in> set switches \<and> w \<in> set switches")
    case False
    then have "raw_cell L v w = None" by (auto simp: l(4) raw_cell_def Let_def filter_empty_conv)
    then have "visited L adj v w" using un by (simp add: visited_def)
    then show ?thesis by (rule a(4))
  qed (use a(3) in blast)
  then show ?thesis using a(1,2) visited_both by blast
qed

section \<open>Forests\<close>

text \<open>A graph that grows by isolated vertices and by leaves.\<close>

inductive forest :: "'a set \<Rightarrow> ('a \<times> 'a) set \<Rightarrow> bool" where
  empty: "forest {} {}"
| root: "forest V E \<Longrightarrow> v \<notin> V \<Longrightarrow> forest (insert v V) E"
| leaf: "forest V E \<Longrightarrow> v \<in> V \<Longrightarrow> w \<notin> V \<Longrightarrow> forest (insert w V) (E \<union> {(v, w), (w, v)})"

definition is_cycle :: "('a \<times> 'a) set \<Rightarrow> 'a list \<Rightarrow> bool" where
  "is_cycle E vs \<longleftrightarrow> 3 \<le> length vs \<and> distinct vs \<and> (\<forall>i < length vs. (vs ! i, vs ! (Suc i mod length vs)) \<in> E)"

lemma forest_edges: "forest V E \<Longrightarrow> E \<subseteq> V \<times> V"
  by (induction rule: forest.induct) auto

lemma no_cycle_through_leaf:
  assumes "is_cycle (E \<union> {(v, w), (w, v)}) vs" "E \<subseteq> V \<times> V" "w \<notin> V"
  shows "w \<notin> set vs"
proof
  let ?n = "length vs"
  assume "w \<in> set vs"
  then obtain i where i: "i < ?n" "vs ! i = w" by (auto simp: in_set_conv_nth)
  let ?j = "if i = 0 then ?n - 1 else i - 1" and ?k = "Suc i mod ?n"
  have n: "3 \<le> ?n" and d: "distinct vs" and e: "\<And>i. i < ?n \<Longrightarrow> (vs ! i, vs ! (Suc i mod ?n)) \<in> E \<union> {(v, w), (w, v)}"
    using assms(1) by (auto simp: is_cycle_def)
  have lt: "?j < ?n" "?k < ?n" using i n by (auto, intro mod_less_divisor, linarith)
  have sj: "Suc ?j mod ?n = i" using i n by auto
  have "vs ! ?j = v" using e [OF lt(1)] assms(2,3) i by (auto simp: sj)
  moreover have "vs ! ?k = v" using e [OF i(1)] assms(2,3) i by auto
  ultimately have "?j = ?k" using nth_eq_iff_index_eq [OF d lt] by simp
  moreover have "?k = (if Suc i = ?n then 0 else Suc i)" using i by (simp add: mod_Suc)
  ultimately show False using i(1) n by (simp split: if_splits)
qed

lemma forest_acyclic: "forest V E \<Longrightarrow> \<not> is_cycle E vs"
proof (induction rule: forest.induct)
  case empty
  then show ?case by (fastforce simp: is_cycle_def)
next
  case (leaf V E v w)
  show ?case
  proof
    assume c: "is_cycle (E \<union> {(v, w), (w, v)}) vs"
    then have "w \<notin> set vs" using no_cycle_through_leaf forest_edges [OF leaf.hyps(1)] leaf.hyps(3) by metis
    moreover have "vs ! i \<in> set vs \<and> vs ! (Suc i mod length vs) \<in> set vs" if "i < length vs" for i
      using that mod_less_divisor [of "length vs" "Suc i"] by (metis gr_zeroI not_less_zero nth_mem)
    ultimately have "is_cycle E vs" using c by (fastforce simp: is_cycle_def)
    then show False using leaf.IH by blast
  qed
qed

section \<open>The search builds a forest\<close>

definition tree_edges :: "tree \<Rightarrow> (int \<times> int) set" where
  "tree_edges tree = {(v, w). \<exists>c. (w, c) \<in> set (tree_ports tree v)}"

definition tree_ok :: "adj \<Rightarrow> tree \<Rightarrow> bool" where
  "tree_ok adj tree \<longleftrightarrow> forest (dom (map_of tree)) (tree_edges tree) \<and>
     (\<forall>v w c. (w, c) \<in> set (tree_ports tree v) \<longrightarrow> adj_get adj v w = Some c) \<and> sym (tree_edges tree)"

definition symmetric_adj :: "adj \<Rightarrow> bool" where
  "symmetric_adj adj \<longleftrightarrow> rows_ok adj \<and> (\<forall>v w. adj_get adj v w \<noteq> None \<longrightarrow> v \<noteq> w \<and> adj_get adj w v \<noteq> None)"

lemma tree_ports_add [simp]:
  "tree_ports (tree_add v x tree) u = (if u = v then List.insert x (tree_ports tree v) else tree_ports tree u)"
  by (simp add: tree_ports_def tree_add_def update_conv')

lemma dom_tree_add [simp]: "dom (map_of (tree_add v x tree)) = insert v (dom (map_of tree))"
  by (simp add: tree_add_def update_conv')

lemma tree_edges_add [simp]: "tree_edges (tree_add v (w, c) tree) = insert (v, w) (tree_edges tree)"
  by (auto simp: tree_edges_def split: if_splits)

lemma tree_grow:
  assumes "symmetric_adj adj" "tree_ok adj tree" "adj_get adj v w = Some c" "map_of tree w = None"
  shows "tree_ok adj (tree_add w (v, default_cell (adj_get adj w v)) (tree_add v (w, c) tree))"
proof -
  have ne: "v \<noteq> w" and b: "adj_get adj w v \<noteq> None" using assms(1,3) by (auto simp: symmetric_adj_def)
  have f: "forest (dom (map_of tree)) (tree_edges tree)" using assms(2) by (simp add: tree_ok_def)
  have w: "w \<notin> insert v (dom (map_of tree))" using assms(4) ne by auto
  have "forest (insert v (dom (map_of tree))) (tree_edges tree)"
    using f forest.root [OF f] by (cases "v \<in> dom (map_of tree)") (auto simp: insert_absorb)
  from forest.leaf [OF this insertI1 w]
  have "forest (insert w (insert v (dom (map_of tree)))) (insert (w, v) (insert (v, w) (tree_edges tree)))"
    by (simp add: insert_commute)
  moreover have "tree_ports tree w = []" using assms(4) by (simp add: tree_ports_def)
  ultimately show ?thesis using assms(2,3) ne b
    by (auto simp: tree_ok_def default_cell_def sym_def List.insert_def split: if_splits)
qed

lemma visit_result:
  assumes "symmetric_adj adj" "tree_ok adj tree" "\<And>w c. (w, c) \<in> set ws \<Longrightarrow> adj_get adj v w = Some c"
    and "visit adj v ws (tree, more) = (tree', more')"
  defines "new \<equiv> fst ` set ws - dom (map_of tree)"
  shows "tree_ok adj tree' \<and> dom (map_of tree') = dom (map_of tree) \<union> new \<union> (if new = {} then {} else {v}) \<and>
    tree_edges tree \<subseteq> tree_edges tree' \<and> set more' = set more \<union> new \<and> (\<forall>w \<in> new. (v, w) \<in> tree_edges tree')"
  using assms(2-4) unfolding new_def
proof (induction ws arbitrary: tree more)
  case Nil
  then show ?case by auto
next
  case (Cons x ws)
  obtain w c where x: "x = (w, c)" by (cases x)
  have g: "adj_get adj v w = Some c" using Cons.prems(2) x by simp
  then have ne: "v \<noteq> w" using assms(1) by (auto simp: symmetric_adj_def)
  have nv: "v \<notin> fst ` set ws" using Cons.prems(2) assms(1) by (fastforce simp: symmetric_adj_def)
  show ?case
  proof (cases "map_of tree w")
    case (Some y)
    have v: "visit adj v ws (tree, more) = (tree', more')" using Cons.prems(3) x Some by simp
    have "fst ` set (x # ws) - dom (map_of tree) = fst ` set ws - dom (map_of tree)" using x Some by auto
    then show ?thesis using Cons.IH [OF Cons.prems(1) _ v] Cons.prems(2) by simp
  next
    case None
    let ?t = "tree_add w (v, default_cell (adj_get adj w v)) (tree_add v (w, c) tree)"
    have v: "visit adj v ws (?t, List.insert w more) = (tree', more')" using Cons.prems(3) x None by simp
    have t: "tree_ok adj ?t" by (rule tree_grow [OF assms(1) Cons.prems(1) g None])
    have n: "fst ` set ws - dom (map_of ?t) = fst ` set ws - dom (map_of tree) - {w}" using nv by auto
    have n': "fst ` set (x # ws) - dom (map_of tree) = insert w (fst ` set ws - dom (map_of tree))"
      using x None by auto
    from Cons.IH [OF t _ v] Cons.prems(2) have IH: "tree_ok adj tree' \<and>
      dom (map_of tree') = dom (map_of ?t) \<union> (fst ` set ws - dom (map_of ?t)) \<union>
        (if fst ` set ws - dom (map_of ?t) = {} then {} else {v}) \<and>
      tree_edges ?t \<subseteq> tree_edges tree' \<and> set more' = set (List.insert w more) \<union> (fst ` set ws - dom (map_of ?t)) \<and>
      (\<forall>w \<in> fst ` set ws - dom (map_of ?t). (v, w) \<in> tree_edges tree')" by simp
    then show ?thesis unfolding n n' by auto
  qed
qed

text \<open>
  Switches in the tree that are not done stand in front of the queue and are connected with each other; what is done is
  connected with its neighbours.
\<close>

definition search_inv :: "adj \<Rightarrow> int set \<Rightarrow> int list \<Rightarrow> int set \<Rightarrow> tree \<Rightarrow> bool" where
  "search_inv adj sws q don tree \<longleftrightarrow> tree_ok adj tree \<and> sws \<subseteq> don \<union> set q \<and>
     (\<forall>v \<in> don. \<forall>w. adj_get adj v w \<noteq> None \<longrightarrow> {v, w} \<subseteq> dom (map_of tree) \<and> (v, w) \<in> (tree_edges tree)\<^sup>*) \<and>
     (\<forall>v \<in> dom (map_of tree) - don. \<forall>w \<in> dom (map_of tree) - don. (v, w) \<in> (tree_edges tree)\<^sup>*) \<and>
     (\<exists>front rest. q = front @ rest \<and> set front \<subseteq> dom (map_of tree) \<and> dom (map_of tree) - don \<subseteq> set front)"

lemma search_inv_skip: "search_inv adj sws (v # q) don tree \<Longrightarrow> v \<in> don \<Longrightarrow> search_inv adj sws q don tree"
proof -
  assume i: "search_inv adj sws (v # q) don tree" and v: "v \<in> don"
  then obtain front rest where f: "v # q = front @ rest" "set front \<subseteq> dom (map_of tree)" "dom (map_of tree) - don \<subseteq> set front"
    by (auto simp: search_inv_def)
  have "\<exists>front rest. q = front @ rest \<and> set front \<subseteq> dom (map_of tree) \<and> dom (map_of tree) - don \<subseteq> set front"
  proof (cases front)
    case Nil
    then show ?thesis using f v by (intro exI [of _ "[]"] exI [of _ q]) auto
  next
    case (Cons a list)
    then show ?thesis using f v by (intro exI [of _ list] exI [of _ rest]) auto
  qed
  then show ?thesis using i v by (auto simp: search_inv_def)
qed

lemma sym_rtrancl_swap: "sym E \<Longrightarrow> (v, w) \<in> E\<^sup>* \<Longrightarrow> (w, v) \<in> E\<^sup>*"
  by (metis sym_rtrancl symD)

text \<open>When \<open>v\<close> is taken up, every neighbour that is in the tree already is connected with it.\<close>

lemma search_inv_front:
  assumes a: "symmetric_adj adj" and i: "search_inv adj sws (v # q) don tree" and v: "v \<notin> don"
    and w: "adj_get adj v w \<noteq> None" "w \<in> dom (map_of tree)"
  shows "v \<in> dom (map_of tree) \<and> (v, w) \<in> (tree_edges tree)\<^sup>*"
proof (cases "w \<in> don")
  case True
  have "adj_get adj w v \<noteq> None" using a w by (auto simp: symmetric_adj_def)
  then have "{w, v} \<subseteq> dom (map_of tree)" "(w, v) \<in> (tree_edges tree)\<^sup>*" using i True by (auto simp: search_inv_def)
  then show ?thesis using sym_rtrancl_swap i by (auto simp: search_inv_def tree_ok_def)
next
  case False
  obtain front rest where f: "v # q = front @ rest" "set front \<subseteq> dom (map_of tree)" "dom (map_of tree) - don \<subseteq> set front"
    using i by (auto simp: search_inv_def)
  have "front \<noteq> []" using f(3) w(2) False by auto
  then have "v \<in> dom (map_of tree)" using f by (cases front) auto
  then show ?thesis using i v False w(2) by (auto simp: search_inv_def)
qed

lemma search_inv_visit:
  assumes a: "symmetric_adj adj" and i: "search_inv adj sws (v # q) don tree" and v: "v \<notin> don"
    and vis: "visit adj v (adj_row adj v) (tree, []) = (tree', more')"
  shows "search_inv adj sws (sort more' @ q) (insert v don) tree'"
proof -
  let ?T = "dom (map_of tree)" and ?T' = "dom (map_of tree')" and ?E = "tree_edges tree'"
  define new where "new = fst ` set (adj_row adj v) - ?T"
  have ok: "tree_ok adj tree" using i by (simp add: search_inv_def)
  have row: "\<And>w c. (w, c) \<in> set (adj_row adj v) \<longleftrightarrow> adj_get adj v w = Some c"
    using a rows_ok_item by (simp add: symmetric_adj_def)
  from visit_result [OF a ok _ vis] row have r: "tree_ok adj tree'" "?T' = ?T \<union> new \<union> (if new = {} then {} else {v})"
    "tree_edges tree \<subseteq> ?E" "set more' = new" "\<And>w. w \<in> new \<Longrightarrow> (v, w) \<in> ?E" by (simp_all add: new_def)
  have mono: "(x, y) \<in> ?E\<^sup>*" if "(x, y) \<in> (tree_edges tree)\<^sup>*" for x y using that rtrancl_mono [OF r(3)] by blast
  have swap: "(x, y) \<in> ?E\<^sup>* \<Longrightarrow> (y, x) \<in> ?E\<^sup>*" for x y using r(1) sym_rtrancl_swap by (auto simp: tree_ok_def)
  have nb: "{v, w} \<subseteq> ?T' \<and> (v, w) \<in> ?E\<^sup>*" if w: "adj_get adj v w \<noteq> None" for w
  proof (cases "w \<in> ?T")
    case True
    from search_inv_front [OF a i v w True] mono show ?thesis using r(2) True by auto
  next
    case False
    then have "w \<in> new" using w row by (force simp: new_def image_iff)
    then show ?thesis using r(2,5) by (auto split: if_splits)
  qed
  have old: "{x, w} \<subseteq> ?T' \<and> (x, w) \<in> ?E\<^sup>*" if "x \<in> don" "adj_get adj x w \<noteq> None" for x w
    using i that mono r(2) by (auto simp: search_inv_def)
  have toV: "(v, x) \<in> ?E\<^sup>*" if x: "x \<in> ?T' - insert v don" for x
  proof (cases "x \<in> new")
    case False
    then have xT: "x \<in> ?T" "x \<notin> don" using x r(2) by (auto split: if_splits)
    obtain front rest where f: "v # q = front @ rest" "set front \<subseteq> ?T" "?T - don \<subseteq> set front"
      using i by (auto simp: search_inv_def)
    have "front \<noteq> []" using f(3) xT by auto
    then have "v \<in> ?T" using f by (cases front) auto
    then show ?thesis using i v xT mono by (auto simp: search_inv_def)
  qed (use r(5) in blast)
  have "\<exists>front rest. sort more' @ q = front @ rest \<and> set front \<subseteq> ?T' \<and> ?T' - insert v don \<subseteq> set front"
  proof -
    obtain front rest where f: "v # q = front @ rest" "set front \<subseteq> ?T" "?T - don \<subseteq> set front"
      using i by (auto simp: search_inv_def)
    show ?thesis
    proof (cases front)
      case Nil
      then show ?thesis using f r(2,4) by (intro exI [of _ "sort more'"] exI [of _ q]) (auto split: if_splits)
    next
      case (Cons x xs)
      then show ?thesis using f r(2,4) by (intro exI [of _ "sort more' @ xs"] exI [of _ rest]) (auto split: if_splits)
    qed
  qed
  moreover have "sws \<subseteq> insert v don \<union> set (sort more' @ q)" using i by (auto simp: search_inv_def)
  moreover have "(x, y) \<in> ?E\<^sup>*" if "x \<in> ?T' - insert v don" "y \<in> ?T' - insert v don" for x y
    using toV swap that rtrancl_trans by metis
  ultimately show ?thesis using r(1) nb old unfolding search_inv_def by blast
qed

lemma search_correct:
  assumes "symmetric_adj adj" "search_inv adj sws (sort more @ q) (set don) tree"
  shows "tree_ok adj (search adj q more don tree) \<and>
    (\<forall>v \<in> sws. \<forall>w. adj_get adj v w \<noteq> None \<longrightarrow> (v, w) \<in> (tree_edges (search adj q more don tree))\<^sup>*)"
  using assms
proof (induction adj q more don tree rule: search.induct)
  case (1 adj q more don tree)
  show ?case
  proof (cases "sort more @ q")
    case Nil
    then show ?thesis using 1(4) by (subst (1 2) search.simps) (auto simp: search_inv_def)
  next
    case (Cons v q')
    show ?thesis
    proof (cases "v \<in> set don")
      case True
      with 1(1) [OF Cons True 1(3)] 1(4) search_inv_skip [of adj sws v q' "set don" tree] Cons show ?thesis
        by (subst (1 2) search.simps) simp
    next
      case False
      obtain tree' more' where v: "visit adj v (adj_row adj v) (tree, []) = (tree', more')" by fastforce
      with 1(2) [OF Cons False v [symmetric] 1(3)] search_inv_visit [OF 1(3) _ False v] 1(4) Cons False show ?thesis
        by (subst (1 2) search.simps) simp
    qed
  qed
qed

section \<open>The spanning tree\<close>

lemma culled_symmetric:
  assumes "no_self_links L" "rows_ok adj" "\<forall>v w. culled L adj v w"
  shows "symmetric_adj adj" "adj_get adj v w \<noteq> None \<longleftrightarrow> linked L v w"
proof -
  have ns: "\<not> linked L v v" for v using assms(1) by (auto simp: linked_def two_way_def no_self_links_def)
  have l: "adj_get adj v w \<noteq> None \<longleftrightarrow> linked L v w" for v w
  proof -
    have "culled L adj v w" using assms(3) by blast
    then show ?thesis unfolding culled_def linked_def by auto
  qed
  then have "adj_get adj v w \<noteq> None \<longrightarrow> v \<noteq> w \<and> adj_get adj w v \<noteq> None" for v w
    using ns linked_sym by metis
  then show "symmetric_adj adj" using assms(2) by (simp add: symmetric_adj_def)
  show "adj_get adj v w \<noteq> None \<longleftrightarrow> linked L v w" by (rule l)
qed

text \<open>
  C4. The spanning tree is a spanning forest of the network: unless a switch is linked to itself the function returns;
  every edge of the result is a link that was seen in both directions, listed at both ends with the ports it has there;
  there is no cycle; and two switches that are linked in both directions are connected in the result. This holds for any
  order in which Python visits the elements of a set.
\<close>

theorem spanning_tree_correct:
  assumes "iterates iter" "no_self_links L"
  shows "\<exists>tree. calc_spanning_tree iter L = Inr tree \<and>
    (\<forall>v w c. (w, c) \<in> set (tree_ports tree v) \<longrightarrow>
       (\<exists>p q. c = Port p \<and> two_way L v p w q \<and> (v, Port q) \<in> set (tree_ports tree w))) \<and>
    (\<forall>vs. \<not> is_cycle (tree_edges tree) vs) \<and>
    (\<forall>v w. linked L v w \<longrightarrow> (v, w) \<in> (tree_edges tree)\<^sup>*)"
proof -
  obtain adj0 switches where add: "add_links L = (adj0, switches)" by fastforce
  obtain adj where adj: "cull L (List.product (iter switches) (iter switches)) adj0 = Inr adj" "rows_ok adj"
    "\<forall>v w. culled L adj v w" using cull_all [OF assms(2,1) add] by blast
  note sym = culled_symmetric [OF assms(2) adj(2,3)]
  define tree where "tree = search adj [] switches [] []"
  have "search_inv adj (set switches) (sort switches @ []) (set []) []"
    by (auto simp: search_inv_def tree_ok_def tree_edges_def tree_ports_def sym_def intro: forest.empty)
  from search_correct [OF sym(1) this]
  have ok: "tree_ok adj tree" and conn: "\<And>v w. v \<in> set switches \<Longrightarrow> adj_get adj v w \<noteq> None \<Longrightarrow> (v, w) \<in> (tree_edges tree)\<^sup>*"
    by (auto simp: tree_def)
  have "\<exists>p q. c = Port p \<and> two_way L v p w q \<and> (v, Port q) \<in> set (tree_ports tree w)"
    if "(w, c) \<in> set (tree_ports tree v)" for v w c
  proof -
    have "adj_get adj v w = Some c" using ok that by (simp add: tree_ok_def)
    moreover have "culled L adj v w" using adj(3) by blast
    ultimately obtain p q where p: "c = Port p" "two_way L v p w q" "adj_get adj w v = Some (Port q)"
      by (auto simp: culled_def)
    have "(v, w) \<in> tree_edges tree" using that by (auto simp: tree_edges_def)
    then have "(w, v) \<in> tree_edges tree" using ok by (simp add: tree_ok_def symD)
    then obtain d where "(v, d) \<in> set (tree_ports tree w)" by (auto simp: tree_edges_def)
    then show ?thesis using p ok by (force simp: tree_ok_def)
  qed
  moreover have "v \<in> set switches" if "linked L v w" for v w
    using that add_links_result [of L] add by (force simp: linked_def two_way_def)
  moreover have "\<not> is_cycle (tree_edges tree) vs" for vs using ok forest_acyclic by (auto simp: tree_ok_def)
  ultimately show ?thesis using conn sym(2) add adj(1) by (auto simp: calc_spanning_tree_def tree_def)
qed

definition sample_links :: "Link list" where
  "sample_links = concat (map (\<lambda>l. [l, flip l])
     [Link 1 1 2 1, Link 2 2 3 1, Link 3 2 1 2, Link 3 3 4 1]) @ [Link 4 2 5 1]"

theorem spanning_tree_correct_witness:
  "case calc_spanning_tree id sample_links of
     Inl _ \<Rightarrow> False
   | Inr tree \<Rightarrow> \<not> is_cycle (tree_edges tree) [1, 2, 3] \<and> (2, 4) \<in> (tree_edges tree)\<^sup>* \<and>
       tree_ports tree 1 = [(3, Port 2), (2, Port 1)] \<and> tree_ports tree 2 = [(1, Port 1)]"
proof -
  have "iterates id" by (simp add: iterates_def)
  moreover have "no_self_links sample_links" by code_simp
  ultimately obtain tree where t: "calc_spanning_tree id sample_links = Inr tree"
    "\<forall>vs. \<not> is_cycle (tree_edges tree) vs" "\<forall>v w. linked sample_links v w \<longrightarrow> (v, w) \<in> (tree_edges tree)\<^sup>*"
    using spanning_tree_correct [of id sample_links] by blast
  have "linked sample_links 2 3" "linked sample_links 3 4"
    unfolding linked_def two_way_def by (rule exI [of _ 2] exI [of _ 3], rule exI [of _ 1], code_simp)+
  then have "(2, 4) \<in> (tree_edges tree)\<^sup>*" using t(3) rtrancl_trans by metis
  moreover have "map_sum id (\<lambda>t. (tree_ports t 1, tree_ports t 2)) (calc_spanning_tree id sample_links) =
    Inr ([(3, Port 2), (2, Port 1)], [(1, Port 1)])" by code_simp
  ultimately show ?thesis using t(1,2) by simp
qed

lemma cull_pair_other: "s1 \<noteq> s2 \<Longrightarrow> \<exists>adj'. cull_pair L s1 s2 adj = Inr adj' \<and> (\<forall>s. adj_get adj' s s = adj_get adj s s)"
  by (cases "adj_get adj s1 s2" rule: option.exhaust; cases "the (adj_get adj s1 s2)")
    (auto simp: cull_pair_def Let_def split: option.split)

lemma cull_self: "(s, s) \<in> set ps \<Longrightarrow> adj_get adj s s = Some (Links ls) \<Longrightarrow> cull L ps adj = Inl AssertionError"
proof (induction ps arbitrary: adj)
  case (Cons x ps)
  obtain s1 s2 where x: "x = (s1, s2)" by (cases x)
  show ?case
  proof (cases "s1 = s2")
    case True
    then show ?thesis using Cons x by (cases "adj_get adj s2 s2" rule: option.exhaust; cases "the (adj_get adj s2 s2)")
      (auto simp: cull_pair_def)
  next
    case False
    from cull_pair_other [OF this, of L adj] obtain adj' where "cull_pair L s1 s2 adj = Inr adj'" "adj_get adj' s s = adj_get adj s s"
      by blast
    then show ?thesis using Cons x False by auto
  qed
qed simp

text \<open>
  C35. A cable that connects two ports of one switch makes the computation fail: \<^verbatim>\<open>_calc_spanning_tree\<close> stops at its
  assertion, and the tree is not updated, whenever discovery knows a link from a switch to itself.
\<close>

theorem spanning_tree_self_link:
  assumes "iterates iter" "l \<in> set L" "dpid1 l = dpid2 l"
  shows "calc_spanning_tree iter L = Inl AssertionError"
proof -
  obtain adj switches where add: "add_links L = (adj, switches)" by fastforce
  then have l: "adj_get adj (dpid1 l) (dpid1 l) = raw_cell L (dpid1 l) (dpid1 l)" "distinct switches" "dpid1 l \<in> set switches"
    using add_links_result [of L] assms(2) by auto
  moreover have "raw_cell L (dpid1 l) (dpid1 l) \<noteq> None" using assms(2,3) by (auto simp: raw_cell_def Let_def filter_empty_conv)
  ultimately obtain ls where "adj_get adj (dpid1 l) (dpid1 l) = Some (Links ls)" using raw_cell_Some by fastforce
  moreover have "(dpid1 l, dpid1 l) \<in> set (List.product (iter switches) (iter switches))"
    using assms(1) l(2,3) by (simp add: iterates_def)
  ultimately show ?thesis using cull_self add by (simp add: calc_spanning_tree_def)
qed

theorem spanning_tree_self_link_witness:
  "calc_spanning_tree id (Link 7 1 7 2 # sample_links) = Inl AssertionError"
  by (rule spanning_tree_self_link [of id "Link 7 1 7 2"]) (simp_all add: iterates_def)

end
