(* ===== verification/LLDP.thy ===== *)
theory LLDP
  imports Tcp_Options
begin

text \<open>
  Link layer discovery packets: \<^verbatim>\<open>lib/packet/lldp.py\<close>. A packet is a list of TLVs (type, length, value), one class per
  type; a class is a constructor of \<open>tlv\<close>. An attribute that is unset before it is assigned is an option. Parsing
  stops with the TLVs found so far when something is missing, and raises where a TLV does. \<^verbatim>\<open>MalformedException\<close> and
  \<^verbatim>\<open>TruncatedException\<close> are \<^verbatim>\<open>RuntimeError\<close>s.
\<close>

unbundle bit_operations_syntax

section \<open>TLVs\<close>

datatype tlv =
    ChassisId int "bytes option"
  | PortId int "bytes option"
  | TtlTlv int
  | EndTlv
  | SystemDescription "bytes option"
  | ManagementAddress int bytes int int bytes
  | SystemName "bytes option"
  | OrganizationallySpecific bytes int bytes
  | PortDescription "bytes option"
  | SystemCapabilities "bool list" "bool list"
  | UnknownTlv "int option" "bytes option"

fun tlv_type :: "tlv \<Rightarrow> int option" where
  "tlv_type (ChassisId _ _) = Some 1"
| "tlv_type (PortId _ _) = Some 2"
| "tlv_type (TtlTlv _) = Some 3"
| "tlv_type EndTlv = Some 0"
| "tlv_type (SystemDescription _) = Some 6"
| "tlv_type (ManagementAddress _ _ _ _ _) = Some 8"
| "tlv_type (SystemName _) = Some 5"
| "tlv_type (OrganizationallySpecific _ _ _) = Some 127"
| "tlv_type (PortDescription _) = Some 4"
| "tlv_type (SystemCapabilities _ _) = Some 7"
| "tlv_type (UnknownTlv t _) = t"

definition set_attr :: "py_error \<Rightarrow> 'a option \<Rightarrow> 'a res" where
  "set_attr e x = (case x of None \<Rightarrow> Inl e | Some v \<Rightarrow> Inr v)"

text \<open>\<^verbatim>\<open>cap |= (1 << i)\<close> for the capabilities that are set.\<close>

fun cap_bits :: "nat \<Rightarrow> bool list \<Rightarrow> int" where
  "cap_bits i [] = 0"
| "cap_bits i (b # bs) = (if b then push_bit i 1 else 0) OR cap_bits (Suc i) bs"

text \<open>\<^verbatim>\<open>_pack_data\<close> of the classes.\<close>

fun tlv_pack_data :: "tlv \<Rightarrow> bytes res" where
  "tlv_pack_data (ChassisId subtype i) = rbind (struct_pack [FB] [subtype]) (\<lambda>s. rbind (set_attr TypeError i) (\<lambda>i. Inr (s @ i)))"
| "tlv_pack_data (PortId subtype i) = rbind (struct_pack [FB] [subtype]) (\<lambda>s. rbind (set_attr TypeError i) (\<lambda>i. Inr (s @ i)))"
| "tlv_pack_data (TtlTlv t) = struct_pack [FH] [t]"
| "tlv_pack_data EndTlv = Inr []"
| "tlv_pack_data (SystemDescription p) = set_attr AttributeError p"
| "tlv_pack_data (ManagementAddress subtype address num_subtype num oid) =
     rbind (struct_pack [FB, FB] [int (length address) + 1, subtype]) (\<lambda>a.
     rbind (struct_pack [FB, FL, FB] [num_subtype, num, int (length oid)]) (\<lambda>b. Inr (a @ address @ b @ oid)))"
| "tlv_pack_data (SystemName p) = set_attr AttributeError p"
| "tlv_pack_data (OrganizationallySpecific oui subtype p) =
     rbind (struct_pack [FB] [subtype]) (\<lambda>s. Inr (take 3 (ljust0 oui 3) @ s @ p))"
| "tlv_pack_data (PortDescription p) = set_attr AttributeError p"
| "tlv_pack_data (SystemCapabilities caps enabled) =
     (if length caps < 16 \<or> length enabled < 16 then Inl IndexError
      else struct_pack [FH, FH] [cap_bits 0 (take 16 caps), cap_bits 0 (take 16 enabled)])"
| "tlv_pack_data (UnknownTlv t p) = set_attr AttributeError p"

definition tlv_pack :: "tlv \<Rightarrow> bytes res" where
  "tlv_pack self =
     rbind (set_attr TypeError (tlv_type self)) (\<lambda>t.
     rbind (tlv_pack_data self) (\<lambda>data.
     rbind (struct_pack [FH] [push_bit 9 t OR (int (length data) AND 511)]) (\<lambda>h. Inr (h @ data))))"

text \<open>\<^verbatim>\<open>_parse_data\<close> of the class that is registered for a type.\<close>

definition id_parse_data :: "(int \<Rightarrow> bytes option \<Rightarrow> tlv) \<Rightarrow> bytes \<Rightarrow> tlv res" where
  "id_parse_data mk data =
     (if length data < 2 then Inl RuntimeError
      else rbind (struct_unpack [FB] (take 1 data)) (\<lambda>vs. tup1 vs (\<lambda>s. Inr (mk s (Some (drop 1 data))))))"

definition management_parse_data :: "bytes \<Rightarrow> tlv res" where
  "management_parse_data data =
     rbind (py_ord data 0) (\<lambda>n. let asl = n - 1 in
     rbind (py_ord data 1) (\<lambda>subtype.
     rbind (py_ord data (2 + asl)) (\<lambda>num_subtype.
     rbind (struct_unpack [FL] (py_slice data (2 + asl + 1) (2 + asl + 1 + 4))) (\<lambda>vs. tup1 vs (\<lambda>num.
     rbind (py_ord data (7 + asl)) (\<lambda>osl.
     Inr (ManagementAddress subtype (py_slice data 2 (2 + asl)) num_subtype num
       (py_slice data (7 + asl + 1) (7 + asl + 1 + osl)))))))))"

definition tlv_parse_data :: "int \<Rightarrow> bytes \<Rightarrow> tlv res" where
  "tlv_parse_data t data =
     (if t = 0 then (if data \<noteq> [] then Inl RuntimeError else Inr EndTlv)
      else if t = 1 then id_parse_data ChassisId data
      else if t = 2 then id_parse_data PortId data
      else if t = 3 then
        (if length data \<noteq> 2 then Inl RuntimeError
         else rbind (struct_unpack [FH] data) (\<lambda>vs. tup1 vs (\<lambda>v. Inr (TtlTlv v))))
      else if t = 4 then Inr (PortDescription (Some data))
      else if t = 5 then Inr (SystemName (Some data))
      else if t = 6 then Inr (SystemDescription (Some data))
      else if t = 7 then
        rbind (struct_unpack [FH, FH] data) (\<lambda>vs. tup2 vs (\<lambda>cap en.
        Inr (SystemCapabilities (map (bit cap) [0..<16]) (map (bit en) [0..<16]))))
      else if t = 8 then management_parse_data data
      else if t = 127 then
        (if length data < 4 then Inl StructError
         else rbind (py_ord data 3) (\<lambda>s. Inr (OrganizationallySpecific (take 3 data) s (drop 4 data))))
      else Inr (UnknownTlv (Some t) (Some data)))"

text \<open>\<^verbatim>\<open>simple_tlv.parse\<close>; its class is the one of the type, so the assertion on the type holds.\<close>

definition tlv_parse :: "bytes \<Rightarrow> tlv res" where
  "tlv_parse raw =
     rbind (struct_unpack [FH] (take 2 raw)) (\<lambda>vs. tup1 vs (\<lambda>typelen.
     let strlen = nat (typelen AND 511); data = take strlen (drop 2 raw) in
     if length data < strlen then Inl RuntimeError else tlv_parse_data (drop_bit 9 typelen) data))"

section \<open>Packets\<close>

record lldp =
  lldp_tlvs :: "tlv list"
  lldp_parsed :: bool
  lldp_raw :: "bytes option"

definition lldp_init :: lldp where
  "lldp_init = \<lparr>lldp_tlvs = [], lldp_parsed = False, lldp_raw = None\<rparr>"

text \<open>\<^verbatim>\<open>next_tlv\<close>: the length of the TLV, or None; the TLVs with the new one.\<close>

definition next_tlv :: "tlv list \<Rightarrow> bytes \<Rightarrow> (nat option \<times> tlv list) res" where
  "next_tlv tlvs array =
     (if length array < 2 then Inr (None, tlvs)
      else
        rbind (struct_unpack [FH] (take 2 array)) (\<lambda>vs. tup1 vs (\<lambda>typelen.
        let len = nat (typelen AND 511) in
        if length array < len then Inr (None, tlvs)
        else rbind (tlv_parse (take (2 + len) array)) (\<lambda>t. Inr (Some (2 + len), tlvs @ [t])))))"

text \<open>A TLV that has to be of some type: the new position, or None to give up.\<close>

definition expect_tlv :: "int \<Rightarrow> bytes \<Rightarrow> nat \<Rightarrow> tlv list \<Rightarrow> (nat option \<times> tlv list) res" where
  "expect_tlv t raw pduhead tlvs =
     rbind (next_tlv tlvs (drop pduhead raw)) (\<lambda>(n, tlvs).
     case n of
       None \<Rightarrow> Inr (None, tlvs)
     | Some n \<Rightarrow> Inr (if tlv_type (last tlvs) \<noteq> Some t then None else Some (pduhead + n), tlvs))"

lemma next_tlv_grows: "next_tlv tlvs array = Inr (Some n, tlvs') \<Longrightarrow> 2 \<le> n"
  by (auto simp: next_tlv_def rbind_Inr_iff tup_Inr_iff Let_def split: if_splits)

text \<open>The loop over the other TLVs; the answer is whether the end was found.\<close>

function other_tlvs :: "bytes \<Rightarrow> nat \<Rightarrow> tlv list \<Rightarrow> (bool \<times> tlv list) res" where
  "other_tlvs raw pduhead tlvs =
     (case next_tlv tlvs (drop pduhead raw) of
        Inl e \<Rightarrow> Inl e
      | Inr (None, tlvs) \<Rightarrow> Inr (False, tlvs)
      | Inr (Some n, tlvs) \<Rightarrow>
          if tlv_type (last tlvs) = Some 0 then Inr (True, tlvs)
          else if pduhead + n \<ge> length raw then Inr (False, tlvs)
          else other_tlvs raw (pduhead + n) tlvs)"
  by pat_completeness auto
termination
  by (relation "measure (\<lambda>(raw, pduhead, _). length raw - pduhead)") (auto dest: next_tlv_grows)

declare other_tlvs.simps [simp del]

definition lldp_new :: "bytes \<Rightarrow> lldp res" where
  "lldp_new raw =
     (let self = lldp_init\<lparr>lldp_raw := Some raw\<rparr> in
      if length raw < 14 then Inr self
      else
        rbind (expect_tlv 1 raw 0 []) (\<lambda>(p, tlvs). case p of None \<Rightarrow> Inr (self\<lparr>lldp_tlvs := tlvs\<rparr>) | Some p \<Rightarrow>
        rbind (expect_tlv 2 raw p tlvs) (\<lambda>(p, tlvs). case p of None \<Rightarrow> Inr (self\<lparr>lldp_tlvs := tlvs\<rparr>) | Some p \<Rightarrow>
        rbind (expect_tlv 3 raw p tlvs) (\<lambda>(p, tlvs). case p of None \<Rightarrow> Inr (self\<lparr>lldp_tlvs := tlvs\<rparr>) | Some p \<Rightarrow>
        rbind (other_tlvs raw p tlvs) (\<lambda>(ok, tlvs). Inr (self\<lparr>lldp_tlvs := tlvs, lldp_parsed := ok\<rparr>))))))"

definition lldp_hdr :: "lldp \<Rightarrow> bytes res" where
  "lldp_hdr self = rbind (mapM tlv_pack (lldp_tlvs self)) (\<lambda>ps. Inr (concat ps))"

definition lldp_pack :: "lldp \<Rightarrow> bytes res" where
  "lldp_pack self =
     (case lldp_raw self of
        Some b \<Rightarrow> if \<not> lldp_parsed self then Inr b else lldp_hdr self
      | None \<Rightarrow> lldp_hdr self)"

section \<open>Reading back\<close>

text \<open>TLVs whose value is set and that the parser can tell apart.\<close>

fun tlv_wf :: "tlv \<Rightarrow> bool" where
  "tlv_wf (ChassisId _ i) \<longleftrightarrow> i \<noteq> Some []"
| "tlv_wf (PortId _ i) \<longleftrightarrow> i \<noteq> Some []"
| "tlv_wf (OrganizationallySpecific oui _ _) \<longleftrightarrow> length oui = 3"
| "tlv_wf (SystemCapabilities caps enabled) \<longleftrightarrow> length caps = 16 \<and> length enabled = 16"
| "tlv_wf (UnknownTlv t _) \<longleftrightarrow> (case t of None \<Rightarrow> False | Some n \<Rightarrow> 9 \<le> n \<and> n < 127)"
| "tlv_wf _ \<longleftrightarrow> True"

definition short_data :: "tlv \<Rightarrow> bool" where
  "short_data t \<longleftrightarrow> (case tlv_pack_data t of Inl _ \<Rightarrow> True | Inr data \<Rightarrow> length data < 512)"

lemma typelen_bits:
  fixes n t :: int
  assumes "0 \<le> n" "n < 512"
  shows "push_bit 9 t OR (n AND 511) = t * 512 + n" "drop_bit 9 (t * 512 + n) = t" "(t * 512 + n) AND 511 = n"
proof -
  have m: "k AND 511 = take_bit 9 k" for k :: int by (simp add: take_bit_eq_mask mask_eq_exp_minus_1)
  have "push_bit 9 t OR take_bit 9 n = push_bit 9 t + take_bit 9 n"
    by (rule disjunctive_add [symmetric]) (auto simp: bit_simps)
  then show "push_bit 9 t OR (n AND 511) = t * 512 + n"
    using assms by (simp add: m take_bit_int_eq_self push_bit_eq_mult)
  show "drop_bit 9 (t * 512 + n) = t" using assms by (simp add: drop_bit_eq_div)
  show "(t * 512 + n) AND 511 = n" using assms by (simp add: m take_bit_eq_mod)
qed

lemma bit_cap_bits: "bit (cap_bits i bs) k \<longleftrightarrow> i \<le> k \<and> k < i + length bs \<and> bs ! (k - i)"
proof (induction bs arbitrary: i)
  case (Cons b bs)
  have "bit (push_bit i 1 :: int) k \<longleftrightarrow> k = i" by (auto simp: bit_simps)
  then show ?case unfolding cap_bits.simps bit_or_iff Cons.IH
    by (cases "i < k") (auto simp: Suc_diff_Suc [symmetric] not_less)
qed simp

lemma caps_read: "length bs = n \<Longrightarrow> map (bit (cap_bits 0 bs)) [0..<n] = bs"
  by (auto simp: bit_cap_bits intro: nth_equalityI)

lemma struct_ranges:
  "struct_pack cs vs = Inr bs \<Longrightarrow> list_all2 code_range cs vs \<and> bs = struct_bytes cs vs \<and> length bs = calcsize cs"
  by (auto simp: struct_pack_Inr_iff length_struct_bytes list_all2_lengthD)

lemma management_data:
  assumes "tlv_pack_data (ManagementAddress s a ns num oid) = Inr data"
  shows "management_parse_data data = Inr (ManagementAddress s a ns num oid)"
proof -
  let ?f = "int_to_be 4 num" and ?l = "int (length a)"
  have r: "0 \<le> s" "s < 256" "?l + 1 < 256" "0 \<le> ns" "ns < 256" "code_range FL num" "int (length oid) < 256"
    and d: "data = [word_of_int (?l + 1), word_of_int s] @ a @ [word_of_int ns] @ ?f @ [word_of_int (int (length oid))] @ oid"
    using assms by (auto simp: rbind_Inr_iff struct_pack_Inr_iff struct_bytes.simps)
  have u: "uint (word_of_int v :: byte) = v" if "0 \<le> v" "v < 256" for v using that by (simp add: uint_byte_of_int)
  have "chunk data 0 ([word_of_int (?l + 1)] @ [word_of_int s] @ a @ [word_of_int ns] @ ?f @ [word_of_int (int (length oid))] @ oid)"
    using chunk_whole [of data] d by simp
  then have c: "chunk data 0 [word_of_int (?l + 1)]" "chunk data 1 [word_of_int s]" "chunk data 2 a" "chunk data (2 + ?l) [word_of_int ns]"
    "chunk data (3 + ?l) ?f" "chunk data (7 + ?l) [word_of_int (int (length oid))]" "chunk data (8 + ?l) oid"
    unfolding chunk_append by (simp_all add: algebra_simps)
  have "struct_unpack [FL] ?f = Inr [num]"
    using struct_unpack_pack [of "[FL]" "[num]"] r(6) by (simp add: struct_pack_def struct_bytes.simps)
  moreover have "py_slice data (3 + ?l) (7 + ?l) = ?f" "py_slice data 2 (2 + ?l) = a" "py_slice data (8 + ?l) (8 + ?l + int (length oid)) = oid"
    by (rule slice_chunk [OF c(5)] slice_chunk [OF c(3)] slice_chunk [OF c(7)], simp)+
  moreover have "py_ord data 0 = Inr (?l + 1)" "py_ord data 1 = Inr s" "py_ord data (2 + ?l) = Inr ns"
    "py_ord data (7 + ?l) = Inr (int (length oid))"
    unfolding c(1,2,4,6) [THEN py_ord_chunk] using r by (simp_all only: u sum.inject)
  ultimately show ?thesis by (simp add: management_parse_data_def Let_def)
qed

lemma tlv_data_roundtrip:
  assumes "tlv_wf t" "tlv_pack_data t = Inr data" "tlv_type t = Some n"
  shows "tlv_parse_data n data = Inr t"
proof (cases t)
  case (ManagementAddress s a ns num oid)
  then show ?thesis using assms management_data by (simp add: tlv_parse_data_def)
next
  case (SystemCapabilities caps enabled)
  then have "struct_pack [FH, FH] [cap_bits 0 caps, cap_bits 0 enabled] = Inr data" using assms by simp
  then show ?thesis using assms struct_unpack_pack SystemCapabilities by (fastforce simp: tlv_parse_data_def caps_read)
next
  case (TtlTlv v)
  then show ?thesis using assms struct_unpack_pack [of "[FH]" "[v]" data] struct_ranges by (fastforce simp: tlv_parse_data_def)
qed (use assms in \<open>auto simp: tlv_parse_data_def id_parse_data_def rbind_Inr_iff set_attr_def struct_pack_Inr_iff
      struct_bytes.simps py_ord_def uint_byte_of_int struct_unpack_def ljust0_def be_to_int_def code_decode_def Let_def Suc_le_eq nth_append
      split: option.splits\<close>)

lemma tlv_pack_shape:
  assumes "tlv_wf t" "short_data t" "tlv_pack t = Inr bs"
  obtains n data where "tlv_type t = Some n" "tlv_pack_data t = Inr data" "length data < 512" "0 \<le> n" "n < 128"
    "bs = int_to_be 2 (n * 512 + int (length data)) @ data"
proof -
  obtain n data where "tlv_type t = Some n" "tlv_pack_data t = Inr data"
    and h: "struct_pack [FH] [push_bit 9 n OR (int (length data) AND 511)] = Inr (take 2 bs)" "bs = take 2 bs @ data"
    using assms(3) by (auto simp: tlv_pack_def rbind_Inr_iff set_attr_def struct_pack_Inr_iff struct_bytes.simps split: option.splits)
  moreover from this(1,2) have "length data < 512" "0 \<le> n" "n < 128"
    using assms(1,2) by (auto simp: short_data_def elim!: tlv_wf.elims)
  ultimately show thesis using typelen_bits(1) [of "int (length data)" n]
    by (intro that) (auto simp: struct_pack_Inr_iff struct_bytes.simps)
qed

lemma tlv_roundtrip:
  assumes "tlv_wf t" "short_data t" "tlv_pack t = Inr bs"
  shows "next_tlv ts (bs @ r) = Inr (Some (length bs), ts @ [t])"
proof -
  obtain n data where t: "tlv_type t = Some n" "tlv_pack_data t = Inr data" "length data < 512" "0 \<le> n" "n < 128"
    and bs: "bs = int_to_be 2 (n * 512 + int (length data)) @ data"
    using tlv_pack_shape [OF assms] by blast
  have u: "struct_unpack [FH] (int_to_be 2 (n * 512 + int (length data))) = Inr [n * 512 + int (length data)]"
    using t by (intro unpack_FH) simp
  note b = typelen_bits [of "int (length data)" n]
  have "tlv_parse bs = Inr t" using t u b by (simp add: tlv_parse_def bs Let_def tlv_data_roundtrip [OF assms(1)])
  moreover have "take (2 + length data) (bs @ r) = bs" "take 2 (bs @ r) = int_to_be 2 (n * 512 + int (length data))"
    "length bs = 2 + length data" by (simp_all add: bs)
  ultimately show ?thesis using u b t(3) by (simp add: next_tlv_def Let_def)
qed

lemma tlv_pack_length: "tlv_pack t = Inr bs \<Longrightarrow> 2 \<le> length bs"
  by (auto simp: tlv_pack_def rbind_Inr_iff struct_pack_Inr_iff struct_bytes.simps)

definition tlvs_ok :: "tlv list \<Rightarrow> bool" where
  "tlvs_ok ts \<longleftrightarrow> list_all (\<lambda>t. tlv_wf t \<and> short_data t) ts"

lemma expect_packed:
  assumes "tlv_wf t" "short_data t" "tlv_pack t = Inr bs" "tlv_type t = Some n" "drop p raw = bs @ r"
  shows "expect_tlv n raw p ts = Inr (Some (p + length bs), ts @ [t])" "drop (p + length bs) raw = r"
  using tlv_roundtrip [OF assms(1-3), of ts r] assms(4,5) drop_drop [of "length bs" p raw]
  by (simp_all add: expect_tlv_def add.commute)

lemma other_packed:
  assumes "tlvs_ok ts" "EndTlv \<notin> set ts" "mapM tlv_pack (ts @ [EndTlv]) = Inr ps" "drop p raw = concat ps @ r"
  shows "other_tlvs raw p us = Inr (True, us @ ts @ [EndTlv])"
  using assms
proof (induction ts arbitrary: p us ps)
  case Nil
  then obtain bs where "tlv_pack EndTlv = Inr bs" "ps = [bs]" by (auto simp: rbind_Inr_iff)
  then show ?case using tlv_roundtrip [of EndTlv bs us r] Nil(4) by (simp add: other_tlvs.simps [of raw p] short_data_def)
next
  case (Cons t ts)
  then obtain bs qs where q: "tlv_pack t = Inr bs" "mapM tlv_pack (ts @ [EndTlv]) = Inr qs" "ps = bs # qs"
    by (auto simp: rbind_Inr_iff)
  then have n: "next_tlv us (drop p raw) = Inr (Some (length bs), us @ [t])"
    using Cons.prems tlv_roundtrip [of t bs us "concat qs @ r"] by (simp add: tlvs_ok_def)
  have r: "drop (p + length bs) raw = concat qs @ r"
    using Cons.prems(4) q(3) drop_drop [of "length bs" p raw] by (simp add: add.commute)
  obtain b where "tlv_pack EndTlv = Inr b" "b \<in> set qs" using q(2) by (induction ts arbitrary: qs) (auto simp: rbind_Inr_iff)
  then have "concat qs \<noteq> []" using tlv_pack_length by fastforce
  then have l: "\<not> length raw \<le> p + length bs" using r by (metis Nil_is_append_conv drop_eq_Nil)
  have "tlv_type t \<noteq> Some 0" using Cons.prems(1,2) by (cases t) (auto simp: tlvs_ok_def)
  then show ?case using n l Cons.IH [OF _ _ q(2) r, of "us @ [t]"] Cons.prems(1,2)
    by (simp add: other_tlvs.simps [of raw p] tlvs_ok_def)
qed

text \<open>
  C18. A discovery packet is read back from its bytes, whatever padding follows them, when it starts with the three
  mandatory TLVs, ends with the end TLV and has no end TLV in between, and no value is longer than its length field
  can say.
\<close>

theorem lldp_roundtrip:
  assumes "tlvs_ok (ChassisId s i # PortId s' i' # TtlTlv n # ts)" "EndTlv \<notin> set ts"
    "lldp_pack (lldp_init\<lparr>lldp_tlvs := ChassisId s i # PortId s' i' # TtlTlv n # ts @ [EndTlv]\<rparr>) = Inr bs"
  shows "lldp_new (bs @ rest) = Inr \<lparr>lldp_tlvs = ChassisId s i # PortId s' i' # TtlTlv n # ts @ [EndTlv], lldp_parsed = True,
    lldp_raw = Some (bs @ rest)\<rparr>"
proof -
  obtain a b c ps where p: "tlv_pack (ChassisId s i) = Inr a" "tlv_pack (PortId s' i') = Inr b" "tlv_pack (TtlTlv n) = Inr c"
    and ps: "mapM tlv_pack (ts @ [EndTlv]) = Inr ps" and bs: "bs = a @ b @ c @ concat ps"
    using assms(3) by (auto simp: lldp_pack_def lldp_hdr_def lldp_init_def rbind_Inr_iff)
  define raw where "raw = bs @ rest"
  have w: "tlv_wf (ChassisId s i)" "short_data (ChassisId s i)" "tlv_wf (PortId s' i')" "short_data (PortId s' i')"
    "tlv_wf (TtlTlv n)" "short_data (TtlTlv n)" "tlvs_ok ts" using assms(1) by (simp_all add: tlvs_ok_def)
  have 1: "expect_tlv 1 raw 0 [] = Inr (Some (length a), [ChassisId s i])" "drop (length a) raw = b @ c @ concat ps @ rest"
    using expect_packed(1) [OF w(1,2) p(1), of 1 0 raw "b @ c @ concat ps @ rest" "[]"] bs by (simp_all add: raw_def)
  note 2 = expect_packed(1) [OF w(3,4) p(2) _ 1(2), of 2 "[ChassisId s i]", simplified]
    expect_packed(2) [OF w(3,4) p(2) _ 1(2), of 2, simplified]
  note 3 = expect_packed(1) [OF w(5,6) p(3) _ 2(2), of 3 "[ChassisId s i, PortId s' i']", simplified]
    expect_packed(2) [OF w(5,6) p(3) _ 2(2), of 3, simplified]
  note 4 = other_packed [OF w(7) assms(2) ps 3(2), of "[ChassisId s i, PortId s' i', TtlTlv n]", simplified]
  obtain e where "tlv_pack EndTlv = Inr e" "e \<in> set ps" using ps by (induction ts arbitrary: ps) (auto simp: rbind_Inr_iff)
  then have "2 \<le> length (concat ps)" using tlv_pack_length [of EndTlv e] split_list [of e ps] by auto
  moreover have "length a \<ge> 4" "length b \<ge> 4" "length c = 4"
    using p w(1,3) by (auto simp: tlv_pack_def rbind_Inr_iff set_attr_def struct_pack_Inr_iff struct_bytes.simps Suc_le_eq split: option.splits)
  ultimately have "14 \<le> length raw" by (simp add: bs raw_def)
  then show ?thesis using 1 2 3 4 by (simp add: lldp_new_def Let_def lldp_init_def raw_def)
qed

definition sample_lldp :: lldp where
  "sample_lldp = lldp_init\<lparr>lldp_tlvs := [ChassisId 7 (Some [100, 112, 105, 100, 58, 49]), PortId 2 (Some [51]), TtlTlv 120,
     SystemDescription (Some [100, 112, 105, 100, 58, 49]), SystemCapabilities (replicate 16 True) (replicate 16 False), EndTlv]\<rparr>"

theorem lldp_roundtrip_witness:
  "case lldp_pack sample_lldp of
     Inl _ \<Rightarrow> False
   | Inr bs \<Rightarrow> map_sum id (\<lambda>p. (lldp_tlvs p, lldp_parsed p)) (lldp_new (bs @ [0, 0])) = Inr (lldp_tlvs sample_lldp, True)"
proof -
  have "map_sum id length (lldp_pack sample_lldp) = Inr 33" by code_simp
  then obtain bs where bs: "lldp_pack sample_lldp = Inr bs" by (cases "lldp_pack sample_lldp") auto
  have "tlvs_ok (ChassisId 7 (Some [100, 112, 105, 100, 58, 49]) # PortId 2 (Some [51]) # TtlTlv 120 #
    [SystemDescription (Some [100, 112, 105, 100, 58, 49]), SystemCapabilities (replicate 16 True) (replicate 16 False)])" by code_simp
  from lldp_roundtrip [OF this, of bs "[0, 0]"] bs show ?thesis by (simp add: sample_lldp_def)
qed

text \<open>
  A packet whose first TLV lacks its last one or two bytes makes the parser raise: the check of the length in \<^verbatim>\<open>next_tlv\<close>
  forgets the two bytes of type and length, and the TLV itself then finds its value truncated.
\<close>

theorem lldp_truncated_raises:
  assumes "raw = int_to_be 2 (512 + n) @ data" "0 \<le> n" "n < 512" "int (length data) < n" "n \<le> int (length data) + 2" "12 \<le> length data"
  shows "lldp_new raw = Inl RuntimeError"
proof -
  have t: "take 2 raw = int_to_be 2 (512 + n)" "drop 2 raw = data" "length raw = 2 + length data" using assms(1) by simp_all
  have u: "struct_unpack [FH] (int_to_be 2 (512 + n)) = Inr [512 + n]" using assms(2,3) by (intro unpack_FH) simp
  have b: "(512 + n) AND 511 = n" using typelen_bits(3) [of n 1] assms(2,3) by simp
  define cut where "cut = take (2 + nat n) raw"
  have "take 2 cut = int_to_be 2 (512 + n)" "length cut - 2 < nat n"
    unfolding cut_def using assms(1,4) by simp_all
  then have "tlv_parse cut = Inl RuntimeError" using u b by (simp add: tlv_parse_def Let_def)
  then have "next_tlv [] raw = Inl RuntimeError" using u b t assms(5) by (simp add: next_tlv_def Let_def cut_def)
  then show ?thesis using t assms(6) by (simp add: lldp_new_def expect_tlv_def Let_def)
qed

theorem lldp_truncated_raises_witness: "lldp_new ([2, 13] @ replicate 12 0) = Inl RuntimeError"
  by (rule lldp_truncated_raises [of _ 13 "replicate 12 0"]) code_simp+

end
