(* ===== verification/Discovery.thy ===== *)
theory Discovery
  imports Controller Spanning_Tree LLDP Packet_Codec FlowTable Complex_Main
begin

text \<open>
  Link discovery: \<^verbatim>\<open>openflow/discovery.py\<close>. \<^verbatim>\<open>LLDPSender\<close> sends a discovery packet out of every port of every switch in
  turn; \<^verbatim>\<open>Discovery\<close> turns the packets that come in at other switches into links with the time they were last seen, drops
  links that were not seen for long, and raises link events.

  Both are objects of the application part of the controller's state. What the listeners of the link events do is the
  argument \<open>lk\<close>; \<open>dc_rest\<close> is their own state. Link timeouts are seconds, the clock counts nanoseconds, and the
  floating point numbers of the sender are rationals. A dictionary is an association list.
\<close>

section \<open>State\<close>

datatype SendItem = SendItem (si_dpid: int) (si_port_num: int) (si_packet: bytes)

record 'b discovery =
  dc_adjacency :: "(Link \<times> int) list"
  dc_link_timeout :: int
  dc_install_flow :: bool
  dc_explicit_drop :: bool
  dc_eat_early_packets :: bool
  dc_this_cycle :: "SendItem list"
  dc_next_cycle :: "SendItem list"
  dc_send_chunk_size :: rat
  dc_timer :: "rat option"
  dc_ttl :: int
  dc_events :: "(bool \<times> Link) list"
  dc_rest :: 'b

type_synonym ('b, 'r) disc = "('b discovery, 'r) ctl"
type_synonym 'b link_app = "bool \<Rightarrow> Link \<Rightarrow> 'b discovery controller \<Rightarrow> 'b discovery controller"

definition discovery_init :: "int \<Rightarrow> bool \<Rightarrow> bool \<Rightarrow> bool \<Rightarrow> 'b \<Rightarrow> 'b discovery" where
  "discovery_init link_timeout install_flow explicit_drop eat_early rest =
     \<lparr>dc_adjacency = [], dc_link_timeout = link_timeout, dc_install_flow = install_flow, dc_explicit_drop = explicit_drop,
      dc_eat_early_packets = eat_early, dc_this_cycle = [], dc_next_cycle = [], dc_send_chunk_size = 1, dc_timer = None,
      dc_ttl = 120, dc_events = [], dc_rest = rest\<rparr>"

definition get_disc :: "('b discovery \<Rightarrow> 'r) \<Rightarrow> ('b, 'r) disc" where
  "get_disc f = gets (\<lambda>c. f (ct_app c))"

definition upd_disc :: "('b discovery \<Rightarrow> 'b discovery) \<Rightarrow> ('b, unit) disc" where
  "upd_disc f = modify (\<lambda>c. c\<lparr>ct_app := f (ct_app c)\<rparr>)"

definition LLDP_TYPE :: int where "LLDP_TYPE = 35020"
definition NDP_MULTICAST :: EthAddr where "NDP_MULTICAST = EthAddr [1, 35, 32, 0, 0, 1]"
definition OFPP_MAX :: int where "OFPP_MAX = 65280"

definition send_cycle_time :: "'b discovery \<Rightarrow> rat" where
  "send_cycle_time d = of_int (dc_link_timeout d) / 2"

section \<open>Sending discovery packets\<close>

definition dpid_text :: "int \<Rightarrow> bytes" where
  "dpid_text dpid = [100, 112, 105, 100, 58] @ hex_digits dpid"

definition discovery_lldp :: "int \<Rightarrow> int \<Rightarrow> int \<Rightarrow> lldp" where
  "discovery_lldp dpid port_num n = lldp_init\<lparr>lldp_tlvs :=
     [ChassisId 7 (Some (dpid_text dpid)), PortId 2 (Some (py_str_int port_num)), TtlTlv n,
      SystemDescription (Some (dpid_text dpid)), EndTlv]\<rparr>"

text \<open>\<^verbatim>\<open>_create_discovery_packet\<close> and the packing of its frame.\<close>

definition discovery_packet :: "int \<Rightarrow> int \<Rightarrow> EthAddr \<Rightarrow> int \<Rightarrow> bytes res" where
  "discovery_packet dpid port_num port_addr n =
     (let eth = ethernet_init\<lparr>e_type := LLDP_TYPE, e_src := port_addr, e_dst := NDP_MULTICAST\<rparr> in
      rbind (lldp_pack (discovery_lldp dpid port_num n)) (\<lambda>r. rbind (ethernet_hdr eth) (\<lambda>h. Inr (h @ r))))"

definition create_packet_out :: "int \<Rightarrow> int \<Rightarrow> EthAddr \<Rightarrow> ('b, bytes) disc" where
  "create_packet_out dpid port_num port_addr =
     sbind (get_disc dc_ttl) (\<lambda>n.
     sbind (lift (discovery_packet dpid port_num port_addr n)) (\<lambda>eth.
     sbind (lift (ofp_packet_out_set_data (PoBytes eth)
       (ofp_packet_out_init\<lparr>po_actions := [AOutput (ofp_action_output_init\<lparr>ao_port := Some port_num\<rparr>)]\<rparr>))) (\<lambda>po.
     sbind (pack_msg (MPacketOut po)) (\<lambda>(bs, _). ret bs))))"

definition set_timer :: "('b, unit) disc" where
  "set_timer = upd_disc (\<lambda>d.
     let num_packets = length (dc_this_cycle d) + length (dc_next_cycle d);
         interval = send_cycle_time d / of_nat num_packets in
     if num_packets = 0 then d\<lparr>dc_timer := None\<rparr>
     else if interval < 1 / 15
     then d\<lparr>dc_send_chunk_size := of_nat num_packets / send_cycle_time d / 15, dc_timer := Some (1 / 15)\<rparr>
     else d\<lparr>dc_send_chunk_size := 1, dc_timer := Some interval\<rparr>)"

definition del_switch :: "int \<Rightarrow> bool \<Rightarrow> ('b, unit) disc" where
  "del_switch dpid timer =
     sbind (upd_disc (\<lambda>d. d\<lparr>dc_this_cycle := filter (\<lambda>p. si_dpid p \<noteq> dpid) (dc_this_cycle d),
       dc_next_cycle := filter (\<lambda>p. si_dpid p \<noteq> dpid) (dc_next_cycle d)\<rparr>)) (\<lambda>_.
     if timer then set_timer else ret ())"

definition del_port :: "int \<Rightarrow> int \<Rightarrow> bool \<Rightarrow> ('b, unit) disc" where
  "del_port dpid port_num timer =
     (if port_num > OFPP_MAX then ret ()
      else
        sbind (upd_disc (\<lambda>d. d\<lparr>dc_this_cycle := filter (\<lambda>p. si_dpid p \<noteq> dpid \<or> si_port_num p \<noteq> port_num) (dc_this_cycle d),
          dc_next_cycle := filter (\<lambda>p. si_dpid p \<noteq> dpid \<or> si_port_num p \<noteq> port_num) (dc_next_cycle d)\<rparr>)) (\<lambda>_.
        if timer then set_timer else ret ()))"

definition sender_add_port :: "int \<Rightarrow> int \<Rightarrow> EthAddr \<Rightarrow> bool \<Rightarrow> ('b, unit) disc" where
  "sender_add_port dpid port_num port_addr timer =
     (if port_num > OFPP_MAX then ret ()
      else
        sbind (del_port dpid port_num False) (\<lambda>_.
        sbind (create_packet_out dpid port_num port_addr) (\<lambda>packet.
        sbind (upd_disc (\<lambda>d. d\<lparr>dc_next_cycle := dc_next_cycle d @ [SendItem dpid port_num packet]\<rparr>)) (\<lambda>_.
        if timer then set_timer else ret ()))))"

text \<open>The next packet of the cycle: taken off this cycle and put on the next.\<close>

definition next_item :: "('b, SendItem) disc" where
  "next_item =
     sbind (upd_disc (\<lambda>d. if dc_this_cycle d = [] then d\<lparr>dc_this_cycle := dc_next_cycle d, dc_next_cycle := []\<rparr> else d)) (\<lambda>_.
     sbind (get_disc dc_this_cycle) (\<lambda>q.
     case q of
       [] \<Rightarrow> raise IndexError
     | item # rest \<Rightarrow>
         sbind (upd_disc (\<lambda>d. d\<lparr>dc_this_cycle := rest, dc_next_cycle := dc_next_cycle d @ [item]\<rparr>)) (\<lambda>_. ret item)))"

fun send_items :: "nat \<Rightarrow> ('b, unit) disc" where
  "send_items 0 = ret ()"
| "send_items (Suc n) =
     sbind next_item (\<lambda>item. sbind (sendToDPID (si_dpid item) (si_packet item)) (\<lambda>_. send_items n))"

text \<open>\<open>r\<close> is what \<^verbatim>\<open>random()\<close> returns.\<close>

definition timer_handler :: "rat \<Rightarrow> ('b, unit) disc" where
  "timer_handler r =
     sbind (get_disc dc_send_chunk_size) (\<lambda>chunk.
     let num = nat \<lfloor>chunk\<rfloor>; fpart = chunk - of_int \<lfloor>chunk\<rfloor> in send_items (if r < fpart then num + 1 else num))"

definition sender_PortStatus :: "nat \<Rightarrow> ofp_port_status \<Rightarrow> ('b, unit) disc" where
  "sender_PortStatus cid m =
     sbind (get_conn cid cx_dpid) (\<lambda>dpid. sbind (lift (set_attr TypeError dpid)) (\<lambda>dpid.
     if ps_reason m = OFPPR_ADD then sender_add_port dpid (pp_port_no (ps_desc m)) (pp_hw_addr (ps_desc m)) True
     else if ps_reason m = OFPPR_DELETE then del_port dpid (pp_port_no (ps_desc m)) True
     else ret ()))"

definition sender_ConnectionUp :: "nat \<Rightarrow> ofp_features_reply option \<Rightarrow> ('b, unit) disc" where
  "sender_ConnectionUp cid ofp =
     sbind (get_conn cid cx_dpid) (\<lambda>dpid. sbind (lift (set_attr TypeError dpid)) (\<lambda>dpid.
     sbind (del_switch dpid False) (\<lambda>_.
     sbind (lift (set_attr AttributeError ofp)) (\<lambda>ofp.
     sbind (for_each (\<lambda>p. sender_add_port dpid (pp_port_no p) (pp_hw_addr p) False) (fr_ports ofp)) (\<lambda>_. set_timer)))))"

definition sender_ConnectionDown :: "nat \<Rightarrow> ('b, unit) disc" where
  "sender_ConnectionDown cid =
     sbind (get_conn cid cx_dpid) (\<lambda>dpid. sbind (lift (set_attr TypeError dpid)) (\<lambda>dpid. del_switch dpid True))"

section \<open>Links\<close>

definition raise_link :: "'b link_app \<Rightarrow> bool \<Rightarrow> Link \<Rightarrow> ('b, unit) disc" where
  "raise_link lk add link =
     sbind (upd_disc (\<lambda>d. d\<lparr>dc_events := dc_events d @ [(add, link)]\<rparr>)) (\<lambda>_. modify (lk add link))"

text \<open>\<^verbatim>\<open>_delete_links\<close>: first the events, then the links go.\<close>

definition delete_links :: "'b link_app \<Rightarrow> Link list \<Rightarrow> ('b, unit) disc" where
  "delete_links lk links =
     sbind (for_each (raise_link lk False) links) (\<lambda>_.
     upd_disc (\<lambda>d. d\<lparr>dc_adjacency := fold AList.delete links (dc_adjacency d)\<rparr>))"

definition expire_links :: "'b link_app \<Rightarrow> ('b, unit) disc" where
  "expire_links lk =
     sbind (gets ct_now) (\<lambda>now.
     sbind (get_disc (\<lambda>d. map fst (filter (\<lambda>(link, timestamp). timestamp + dc_link_timeout d * nsec < now) (dc_adjacency d)))) (\<lambda>expired.
     if expired \<noteq> [] then delete_links lk expired else ret ()))"

definition is_edge_port :: "Link list \<Rightarrow> int \<Rightarrow> int \<Rightarrow> bool" where
  "is_edge_port adjacency dpid port =
     list_all (\<lambda>l. \<not> (dpid1 l = dpid \<and> port1 l = port) \<and> \<not> (dpid2 l = dpid \<and> port2 l = port)) adjacency"

definition install_flow :: "nat \<Rightarrow> ('b, unit) disc" where
  "install_flow cid =
     sbind (lift (rbind (set_dl_type (Some LLDP_TYPE) ofp_match_init) (set_dl_dst (Some NDP_MULTICAST)))) (\<lambda>match.
     sbind (con_send cid (MFlowMod (ofp_flow_mod_init\<lparr>fm_priority := 65000, fm_match := match,
       fm_actions := [AOutput (ofp_action_output_init\<lparr>ao_port := Some OFPP_CONTROLLER\<rparr>)]\<rparr>))) (\<lambda>_. ret ()))"

definition disc_ConnectionDown :: "'b link_app \<Rightarrow> nat \<Rightarrow> ('b, unit) disc" where
  "disc_ConnectionDown lk cid =
     sbind (get_conn cid cx_dpid) (\<lambda>dpid.
     sbind (get_disc (\<lambda>d. filter (\<lambda>l. Some (dpid1 l) = dpid \<or> Some (dpid2 l) = dpid) (map fst (dc_adjacency d)))) (delete_links lk))"

section \<open>Packets that come in\<close>

text \<open>The packet classes with LLDP among them.\<close>

definition lldp_ext :: "pk_ext \<Rightarrow> pk_ext" where
  "lldp_ext x = x\<lparr>x_parse := (\<lambda>c raw. if c = ''lldp'' then rbind (lldp_new raw) (\<lambda>l. Inr (lldp_parsed l)) else x_parse x c raw),
     x_pack := (\<lambda>c raw. if c = ''lldp'' then rbind (lldp_new raw) lldp_pack else x_pack x c raw)\<rparr>"

text \<open>\<^verbatim>\<open>find(lldp)\<close>\<close>

fun find_lldp :: "payload \<Rightarrow> lldp option" where
  "find_lldp PNone = None"
| "find_lldp (PBytes b) = None"
| "find_lldp (PVlan h p) = (if v_parsed h then find_lldp p else None)"
| "find_lldp (PLlc h p) = (if llc_parsed h then find_lldp p else None)"
| "find_lldp (PArp h p) = (if arp_parsed h then find_lldp p else None)"
| "find_lldp (PIpv4 h p) = (if ip_parsed h then find_lldp p else None)"
| "find_lldp (PUdp h p) = (if udp_parsed h then find_lldp p else None)"
| "find_lldp (PTcp h p) = (if tcp_parsed h then find_lldp p else None)"
| "find_lldp (PIcmp h p) = (if icmp_parsed h then find_lldp p else None)"
| "find_lldp (PEcho h p) = (if echo_parsed h then find_lldp p else None)"
| "find_lldp (PUnreach h p) = (if un_parsed h then find_lldp p else None)"
| "find_lldp (PTimeExceeded h p) = (if tx_parsed h then find_lldp p else None)"
| "find_lldp (PIgmp h p) = (if ig_parsed h then find_lldp p else None)"
| "find_lldp (POther c raw pd) =
     (if c = ''lldp'' \<and> pd then (case lldp_new raw of Inl _ \<Rightarrow> None | Inr l \<Rightarrow> Some l) else None)"

definition starts_dpid :: "bytes \<Rightarrow> bool" where
  "starts_dpid s \<longleftrightarrow> take 5 s = [100, 112, 105, 100, 58]"

definition try_int :: "int \<Rightarrow> bytes \<Rightarrow> int option" where
  "try_int base s = (case py_int base s of Inl _ \<Rightarrow> None | Inr n \<Rightarrow> Some n)"

fun dpid_line :: "bytes list \<Rightarrow> int option" where
  "dpid_line [] = None"
| "dpid_line (l # ls) =
     (case (if starts_dpid l then try_int 16 (drop 5 l) else None) of Some n \<Rightarrow> Some n | None \<Rightarrow> dpid_line ls)"

text \<open>\<^verbatim>\<open>lookInSysDesc\<close>: only the first system description counts.\<close>

fun look_in_sys_desc :: "tlv list \<Rightarrow> int option" where
  "look_in_sys_desc [] = None"
| "look_in_sys_desc (SystemDescription (Some p) # ts) =
     (case dpid_line (py_split 10 p) of
        Some n \<Rightarrow> Some n
      | None \<Rightarrow> if length p = 8 then Some (be_to_int p) else None)"
| "look_in_sys_desc (t # ts) = look_in_sys_desc ts"

fun originator_dpid :: "tlv list \<Rightarrow> int option" where
  "originator_dpid (ChassisId subtype (Some i) # ts) =
     (case look_in_sys_desc (drop 2 ts) of
        Some n \<Rightarrow> Some n
      | None \<Rightarrow>
          if subtype = 7 then (if starts_dpid i then try_int 16 (drop 5 i) else None)
          else if subtype = 4 then (if length i = 6 then Some (be_to_int ([0, 0] @ i)) else None)
          else None)"
| "originator_dpid _ = None"

definition is_digits :: "bytes \<Rightarrow> bool" where
  "is_digits s \<longleftrightarrow> s \<noteq> [] \<and> list_all (\<lambda>c. 48 \<le> c \<and> c \<le> 57) s"

definition originator_port :: "bytes \<Rightarrow> int option" where
  "originator_port i =
     (if is_digits i then try_int 10 i else if length i = 2 then Some (be_to_int i) else None)"

definition link_seen :: "'b link_app \<Rightarrow> Link \<Rightarrow> ('b, unit) disc" where
  "link_seen lk link =
     sbind (get_disc (\<lambda>d. map_of (dc_adjacency d) link)) (\<lambda>known.
     sbind (gets ct_now) (\<lambda>now.
     sbind (upd_disc (\<lambda>d. d\<lparr>dc_adjacency := AList.update link now (dc_adjacency d)\<rparr>)) (\<lambda>_.
     if known = None then raise_link lk True link else ret ())))"

text \<open>What the TLVs of a discovery packet lead to; every way out halts the event.\<close>

definition learn_link :: "'b link_app \<Rightarrow> int \<Rightarrow> int \<Rightarrow> tlv list \<Rightarrow> ('b, unit) disc" where
  "learn_link lk dpid port tlvs =
     (if length tlvs < 3 then ret ()
      else if tlv_type (tlvs ! 0) \<noteq> Some 1 then ret ()
      else if tlv_type (tlvs ! 1) \<noteq> Some 2 then ret ()
      else if tlv_type (tlvs ! 2) \<noteq> Some 3 then ret ()
      else
        case originator_dpid tlvs of
          None \<Rightarrow> ret ()
        | Some odpid \<Rightarrow>
            sbind (gets (getConnection odpid)) (\<lambda>known.
            if known = None then ret ()
            else
              case tlvs ! 1 of
                PortId subtype (Some i) \<Rightarrow>
                  if subtype \<noteq> 2 then ret ()
                  else
                    (case originator_port i of
                       None \<Rightarrow> ret ()
                     | Some oport \<Rightarrow>
                         if (dpid, port) = (odpid, oport) then ret () else link_seen lk (Link odpid oport dpid port))
              | _ \<Rightarrow> ret ()))"

definition disc_PacketIn :: "pk_ext \<Rightarrow> 'b link_app \<Rightarrow> nat \<Rightarrow> ofp_packet_in \<Rightarrow> ('b, bool) disc" where
  "disc_PacketIn x lk cid ofp =
     sbind (lift (ethernet_new (lldp_ext x) (pi_data ofp))) (\<lambda>packet.
     sbind (get_disc id) (\<lambda>d.
     if effective_ethertype packet \<noteq> LLDP_TYPE \<or> e_dst packet \<noteq> NDP_MULTICAST then
       (if \<not> dc_eat_early_packets d then ret False
        else
          sbind (get_conn cid cx_connect_time) (\<lambda>t.
          sbind (gets ct_now) (\<lambda>now.
          ret (case t of
                 None \<Rightarrow> False
               | Some t \<Rightarrow> t \<noteq> 0 \<and> of_int t > of_int now - (send_cycle_time d + 1) * of_int nsec))))
     else
       sbind (case buffer_id_get (pi_buffer_id ofp) of
                Some b \<Rightarrow>
                  if dc_explicit_drop d
                  then sbind (con_send cid (MPacketOut (ofp_packet_out_init\<lparr>po_buffer_id := buffer_id_set (Some b),
                         po_in_port := pi_in_port ofp\<rparr>))) (\<lambda>_. ret ())
                  else ret ()
              | None \<Rightarrow> ret ()) (\<lambda>_.
       case find_lldp (e_payload packet) of
         None \<Rightarrow> ret True
       | Some l \<Rightarrow>
           sbind (get_conn cid cx_dpid) (\<lambda>dpid. sbind (lift (set_attr TypeError dpid)) (\<lambda>dpid.
           sbind (learn_link lk dpid (pi_in_port ofp) (lldp_tlvs l)) (\<lambda>_. ret True))))))"

section \<open>The listeners of the nexus\<close>

text \<open>
  \<^verbatim>\<open>Discovery\<close> listens with the highest priority, \<^verbatim>\<open>LLDPSender\<close> after it. An exception ends the event; it is
  logged by \<^verbatim>\<open>raiseEventNoErrors\<close> and does not halt it. What the other listeners do is \<open>others\<close>.
\<close>

definition discovery_nexus :: "pk_ext \<Rightarrow> 'b link_app \<Rightarrow> of_event \<Rightarrow> ('b, bool) disc" where
  "discovery_nexus x lk ev =
     (case ev of
        PacketIn cid ofp \<Rightarrow> disc_PacketIn x lk cid ofp
      | ConnectionUp cid f \<Rightarrow>
          sbind (get_disc dc_install_flow) (\<lambda>flow.
          sbind (if flow then install_flow cid else ret ()) (\<lambda>_.
          sbind (sender_ConnectionUp cid f) (\<lambda>_. ret False)))
      | ConnectionDown cid \<Rightarrow>
          sbind (disc_ConnectionDown lk cid) (\<lambda>_. sbind (sender_ConnectionDown cid) (\<lambda>_. ret False))
      | PortStatus cid m \<Rightarrow> sbind (sender_PortStatus cid m) (\<lambda>_. ret False)
      | _ \<Rightarrow> ret False)"

definition discovery_app :: "pk_ext \<Rightarrow> 'b link_app \<Rightarrow> 'b discovery app \<Rightarrow> 'b discovery app" where
  "discovery_app x lk others src ev c =
     (if src = AtNexus then
        (case discovery_nexus x lk ev c of
           (Inl e, c) \<Rightarrow> (False, c)
         | (Inr halt, c) \<Rightarrow> if halt then (True, c) else others src ev c)
      else others src ev c)"

end
