(* ===== verification/Tree_Flooding.thy ===== *)
theory Tree_Flooding
  imports Discovery
begin

text \<open>
  The rest of \<^verbatim>\<open>openflow/spanning_tree.py\<close>: flooding is turned off on the ports that are neither on the tree nor lead to a
  host. The component listens to the nexus and to the links of discovery and remembers what it last told each port. Its
  state is the state of the listeners of discovery. A timer that was started is remembered by what it will do: the
  switches whose ports will be asked for (\<open>st_dirty\<close>), and those the tree will be pushed to in any case (\<open>st_forced\<close>).
\<close>

record stp =
  st_prev :: "((int option \<times> int) \<times> bool) list"
  st_noflood_by_default :: bool
  st_hold_down :: bool
  st_dirty :: "int option list"
  st_forced :: "int option list"

definition stp_init :: "bool \<Rightarrow> bool \<Rightarrow> stp" where
  "stp_init no_flood hold_down =
     \<lparr>st_prev = [], st_noflood_by_default = no_flood, st_hold_down = hold_down, st_dirty = [], st_forced = []\<rparr>"

definition get_stp :: "(stp \<Rightarrow> 'r) \<Rightarrow> (stp, 'r) disc" where
  "get_stp f = get_disc (\<lambda>d. f (dc_rest d))"

definition upd_stp :: "(stp \<Rightarrow> stp) \<Rightarrow> (stp, unit) disc" where
  "upd_stp f = upd_disc (\<lambda>d. d\<lparr>dc_rest := f (dc_rest d)\<rparr>)"

definition set_prev :: "int option \<Rightarrow> int \<Rightarrow> bool \<Rightarrow> (stp, unit) disc" where
  "set_prev dpid port flood = upd_stp (\<lambda>s. s\<lparr>st_prev := AList.update (dpid, port) flood (st_prev s)\<rparr>)"

definition invalidate_ports :: "int option \<Rightarrow> (stp, unit) disc" where
  "invalidate_ports dpid =
     upd_stp (\<lambda>s. if dpid \<in> set (st_dirty s) then s else s\<lparr>st_dirty := st_dirty s @ [dpid]\<rparr>)"

definition check_ports :: "int option \<Rightarrow> (stp, unit) disc" where
  "check_ports dpid =
     sbind (upd_stp (\<lambda>s. s\<lparr>st_dirty := removeAll dpid (st_dirty s)\<rparr>)) (\<lambda>_.
     sbind (gets (\<lambda>c. map_of (ct_connections c) dpid)) (\<lambda>con.
     case con of
       None \<Rightarrow> ret ()
     | Some cid \<Rightarrow>
         sbind (con_send cid (MBarrierRequest ofp_barrier_request_init)) (\<lambda>_.
         sbind (con_send cid (MFeaturesRequest ofp_features_request_init)) (\<lambda>_. ret ()))))"

definition flood_mod :: "ofp_phy_port \<Rightarrow> bool \<Rightarrow> ofp_message" where
  "flood_mod p flood = MPortMod (ofp_port_mod_init\<lparr>pm_port_no := pp_port_no p, pm_hw_addr := pp_hw_addr p,
     pm_config := (if flood then 0 else OFPPC_NO_FLOOD), pm_mask := OFPPC_NO_FLOOD\<rparr>)"

definition default_noflood :: "nat \<Rightarrow> ofp_phy_port \<Rightarrow> (stp, unit) disc" where
  "default_noflood cid p =
     (if pp_port_no p \<ge> OFPP_MAX then ret ()
      else
        sbind (get_conn cid cx_dpid) (\<lambda>dpid.
        sbind (set_prev dpid (pp_port_no p) False) (\<lambda>_.
        sbind (con_send cid (flood_mod p False)) (\<lambda>_. ret ()))))"

definition stp_ConnectionUp :: "nat \<Rightarrow> (stp, unit) disc" where
  "stp_ConnectionUp cid =
     sbind (get_conn cid cx_dpid) (\<lambda>dpid.
     sbind (upd_stp (\<lambda>s. s\<lparr>st_prev := filter (\<lambda>e. fst (fst e) \<noteq> dpid) (st_prev s)\<rparr>)) (\<lambda>_.
     sbind (get_stp id) (\<lambda>s.
     sbind (if st_noflood_by_default s
            then
              sbind (get_conn cid cx_ports) (\<lambda>ports. sbind (lift (pc_values ports)) (\<lambda>ps.
              sbind (for_each (default_noflood cid) ps) (\<lambda>_. invalidate_ports dpid)))
            else ret ()) (\<lambda>_.
     if st_hold_down s then upd_stp (\<lambda>s. s\<lparr>st_forced := st_forced s @ [dpid]\<rparr>) else ret ()))))"

text \<open>Whether a port should flood: it is on the tree, or it leads to no other switch.\<close>

definition wants_flood :: "Link list \<Rightarrow> int \<Rightarrow> (int \<times> cell) list \<Rightarrow> int \<Rightarrow> bool" where
  "wants_flood adjacency sw ports port_no \<longleftrightarrow>
     Port port_no \<in> snd ` set ports \<or> is_edge_port adjacency sw port_no"

definition push_port :: "int \<Rightarrow> nat \<Rightarrow> (int \<times> cell) list \<Rightarrow> ofp_phy_port \<Rightarrow> (stp, unit) disc" where
  "push_port sw cid ports p =
     (if pp_port_no p < OFPP_MAX then
        sbind (get_disc (\<lambda>d. wants_flood (map fst (dc_adjacency d)) sw ports (pp_port_no p))) (\<lambda>flood.
        sbind (get_stp (\<lambda>s. map_of (st_prev s) (Some sw, pp_port_no p))) (\<lambda>prev.
        if prev = Some flood then ret ()
        else
          sbind (set_prev (Some sw) (pp_port_no p) flood) (\<lambda>_.
          sbind (con_send cid (flood_mod p flood)) (\<lambda>_.
          sbind (get_conn cid cx_dpid) invalidate_ports))))
      else ret ())"

text \<open>A connection that is too young, unless it is the one the update was made for.\<close>

definition held_down :: "int option \<Rightarrow> int \<Rightarrow> int \<Rightarrow> 'b discovery \<Rightarrow> int \<Rightarrow> bool" where
  "held_down force_dpid sw t d now \<longleftrightarrow>
     of_int t > of_int now - (send_cycle_time d + 1) * of_int nsec \<and> force_dpid \<noteq> Some sw"

definition push_switch :: "int option \<Rightarrow> int \<times> (int \<times> cell) list \<Rightarrow> (stp, unit) disc" where
  "push_switch force_dpid = (\<lambda>(sw, ports).
     sbind (gets (getConnection sw)) (\<lambda>con.
     case con of
       None \<Rightarrow> ret ()
     | Some cid \<Rightarrow>
         sbind (get_conn cid cx_connect_time) (\<lambda>t.
         case t of
           None \<Rightarrow> ret ()
         | Some t \<Rightarrow>
             sbind (gets (\<lambda>c. st_hold_down (dc_rest (ct_app c)) \<and> held_down force_dpid sw t (ct_app c) (ct_now c))) (\<lambda>held.
             if held then ret ()
             else sbind (get_conn cid cx_ports) (\<lambda>pc. sbind (lift (pc_values pc)) (for_each (push_port sw cid ports)))))))"

text \<open>The tree itself is computed outside of the \<^verbatim>\<open>try\<close>.\<close>

definition update_tree :: "(int list \<Rightarrow> int list) \<Rightarrow> int option \<Rightarrow> (stp, unit) disc" where
  "update_tree iter force_dpid =
     sbind (get_disc (\<lambda>d. map fst (dc_adjacency d))) (\<lambda>adjacency.
     sbind (lift (calc_spanning_tree iter adjacency)) (\<lambda>tree.
     try_catch (for_each (push_switch force_dpid) tree) (\<lambda>_. upd_stp (\<lambda>s. s\<lparr>st_prev := []\<rparr>))))"

definition stp_LinkEvent :: "(int list \<Rightarrow> int list) \<Rightarrow> Link \<Rightarrow> (stp, unit) disc" where
  "stp_LinkEvent iter link =
     sbind (get_stp st_prev) (\<lambda>prev.
     if map_of prev (Some (dpid1 link), port1 link) = Some False \<and> map_of prev (Some (dpid2 link), port2 link) = Some False
     then ret ()
     else update_tree iter None)"

text \<open>A timer of \<^verbatim>\<open>_handle_ConnectionUp\<close> fires.\<close>

definition forced_update :: "(int list \<Rightarrow> int list) \<Rightarrow> int option \<Rightarrow> (stp, unit) disc" where
  "forced_update iter dpid =
     sbind (upd_stp (\<lambda>s. s\<lparr>st_forced := remove1 dpid (st_forced s)\<rparr>)) (\<lambda>_. update_tree iter dpid)"

text \<open>The listeners: of the link events of discovery, and of the nexus.\<close>

definition stp_links :: "(int list \<Rightarrow> int list) \<Rightarrow> stp link_app" where
  "stp_links iter add link c = snd (stp_LinkEvent iter link c)"

definition stp_app :: "stp discovery app" where
  "stp_app src ev c =
     (case (src, ev) of
        (AtNexus, ConnectionUp cid _) \<Rightarrow> (False, snd (stp_ConnectionUp cid c))
      | _ \<Rightarrow> (False, c))"

end
