(* ===== verification/Number_Text.thy ===== *)
theory Number_Text
  imports Addresses
begin

text \<open>Numbers written out in base 10 or 16 are read back by \<^verbatim>\<open>int\<close>, and how long their text is.\<close>

definition plain_digit :: "int \<Rightarrow> byte \<Rightarrow> bool" where
  "plain_digit base c \<longleftrightarrow> (\<exists>d. 0 \<le> d \<and> d < base \<and> c = hex_digit d)"

lemma digits_val_append:
  "digits_val base acc (s @ t) = (case digits_val base acc s of None \<Rightarrow> None | Some n \<Rightarrow> digits_val base n t)"
  by (induction s arbitrary: acc) (auto split: option.split)

lemma digits_val_hex_digit: "0 \<le> d \<Longrightarrow> d < base \<Longrightarrow> base \<le> 16 \<Longrightarrow> digits_val base acc [hex_digit d] = Some (base * acc + d)"
  by (simp add: digit_val_hex_digit)

lemma hex_digits_induct [consumes 1, case_names digit more]:
  fixes n :: int
  assumes "0 \<le> n" "\<And>n. 0 \<le> n \<Longrightarrow> n < 16 \<Longrightarrow> P n" "\<And>n. 16 \<le> n \<Longrightarrow> P (n div 16) \<Longrightarrow> P n"
  shows "P n"
  using assms(1)
proof (induction "nat n" arbitrary: n rule: less_induct)
  case less
  show ?case
  proof (cases "n < 16")
    case False
    then have "P (n div 16)" using less.prems by (intro less.hyps) (simp_all add: pos_imp_zdiv_nonneg_iff)
    then show ?thesis using False assms(3) by simp
  qed (use less.prems assms(2) in simp)
qed

lemma hex_digits_read: "0 \<le> n \<Longrightarrow> digits_val 16 0 (hex_digits n) = Some n"
proof (induction n rule: hex_digits_induct)
  case (more n)
  then show ?case
    using digits_val_hex_digit [of "n mod 16" 16 "n div 16"] by (simp add: hex_digits.simps [of n] digits_val_append)
qed (simp add: hex_digits.simps digit_val_hex_digit)

lemma hex_digits_plain: "0 \<le> n \<Longrightarrow> \<forall>c\<in>set (hex_digits n). plain_digit 16 c"
proof (induction n rule: hex_digits_induct)
  case (more n)
  moreover have "plain_digit 16 (hex_digit (n mod 16))" unfolding plain_digit_def by (rule exI [of _ "n mod 16"]) simp
  ultimately show ?case by (simp add: hex_digits.simps [of n])
qed (auto simp: hex_digits.simps plain_digit_def)

lemma length_hex_digits: "n < 16 ^ k \<Longrightarrow> 0 < k \<Longrightarrow> length (hex_digits n) \<le> k"
proof (induction k arbitrary: n)
  case (Suc k)
  show ?case
  proof (cases "n < 16")
    case False
    then have "0 < k" using Suc.prems by (cases k) auto
    moreover have "n div 16 < 16 ^ k" using Suc.prems by (simp add: div_less_iff_less_mult algebra_simps)
    ultimately show ?thesis using Suc.IH False by (simp add: hex_digits.simps [of n])
  qed (simp add: hex_digits.simps)
qed simp

lemma hex_digits_not_Nil [simp]: "hex_digits n \<noteq> []"
  by (subst hex_digits.simps) simp

lemma dec_digit: "n < 10 \<Longrightarrow> (word_of_nat (48 + n) :: byte) = hex_digit (int n)"
  by (simp add: hex_digit_def)

lemma dec_digits_read: "digits_val 10 0 (dec_digits n) = Some (int n)"
proof (induction n rule: dec_digits.induct)
  case (1 n)
  show ?case
  proof (cases "n < 10")
    case True
    then show ?thesis using dec_digit [of n] digits_val_hex_digit [of "int n" 10 0] by (simp add: dec_digits.simps)
  next
    case False
    have "digits_val 10 (int (n div 10)) [hex_digit (int (n mod 10))] = Some (10 * int (n div 10) + int (n mod 10))"
      by (rule digits_val_hex_digit) (simp_all add: of_nat_mod)
    also have "10 * int (n div 10) + int (n mod 10) = int n" by presburger
    finally show ?thesis using 1 False dec_digit [of "n mod 10"] by (simp add: dec_digits.simps [of n] digits_val_append)
  qed
qed

lemma dec_digits_plain: "\<forall>c\<in>set (dec_digits n). plain_digit 10 c"
proof (induction n rule: dec_digits.induct)
  case (1 n)
  have "plain_digit 10 (word_of_nat (48 + m))" if "m < 10" for m
    unfolding plain_digit_def using that dec_digit [of m] by (intro exI [of _ "int m"]) simp
  from this [of n] this [of "n mod 10"] show ?case using 1 by (subst dec_digits.simps) auto
qed

lemma length_dec_digits: "n < 10 ^ k \<Longrightarrow> 0 < k \<Longrightarrow> length (dec_digits n) \<le> k"
proof (induction k arbitrary: n)
  case (Suc k)
  show ?case
  proof (cases "n < 10")
    case False
    then have "0 < k" using Suc.prems by (cases k) auto
    moreover have "n div 10 < 10 ^ k" using Suc.prems by (simp add: div_less_iff_less_mult algebra_simps)
    ultimately show ?thesis using Suc.IH False by (simp add: dec_digits.simps [of n])
  qed (simp add: dec_digits.simps)
qed simp

lemma dec_digits_not_Nil [simp]: "dec_digits n \<noteq> []"
  by (subst dec_digits.simps) simp

lemma plain_digitD:
  assumes "plain_digit base c" "base \<le> 16"
  shows "\<not> is_space c" "c \<noteq> ch_dash" "c \<noteq> ch_plus" "c \<noteq> 120" "c \<noteq> 88" "c \<noteq> 10" "c \<noteq> 58"
proof -
  obtain d where d: "0 \<le> d" "d < 16" "c = hex_digit d" using assms by (auto simp: plain_digit_def)
  then show "\<not> is_space c" "c \<noteq> ch_dash" "c \<noteq> ch_plus" "c \<noteq> 120" "c \<noteq> 88" using hex_digit_plain by auto
  then show "c \<noteq> 10" by (auto simp: is_space_def)
  have "digit_val c = Some d" using d digit_val_hex_digit by simp
  then show "c \<noteq> 58" by (auto simp: digit_val_def)
qed

text \<open>\<^verbatim>\<open>int\<close> on a text of plain digits.\<close>

lemma py_int_plain:
  assumes "s \<noteq> []" "\<forall>c\<in>set s. plain_digit base c" "base \<le> 16" "digits_val base 0 s = Some n"
  shows "py_int base s = Inr n"
proof -
  note p = plain_digitD [OF _ assms(3)]
  have "dropWhile is_space t = t" if "set t \<subseteq> set s" for t using that assms(2) p(1) by (cases t) auto
  from this [of s] this [of "rev s"] have sp: "strip_spaces s = s" by (simp add: strip_spaces_def)
  obtain a t where s: "s = a # t" using assms(1) by (cases s) auto
  then have "strip_0x base s = s" using assms(2) p(4,5) by (cases t) (auto simp: strip_0x_def)
  then show ?thesis using sp assms(2,4) p(2,3) s by (simp add: py_int_def Let_def)
qed

lemma py_int_hex_digits: "0 \<le> n \<Longrightarrow> py_int 16 (hex_digits n) = Inr n"
  by (intro py_int_plain) (simp_all add: hex_digits_plain hex_digits_read)

lemma py_int_dec_digits: "py_int 10 (dec_digits n) = Inr (int n)"
  by (intro py_int_plain) (simp_all add: dec_digits_plain dec_digits_read)

end
