(* ===== verification/Sent_Messages.thy ===== *)
theory Sent_Messages
  imports Controller_Sending
begin

text \<open>
  What is handed to the connections: a message that is sent over a connection that is not disconnected is handed over
  as its bytes, exactly once, and as long as no socket fails, sending changes neither the connections nor the applications.
\<close>

section \<open>While no socket fails\<close>

definition calm :: "'a controller \<Rightarrow> bool" where
  "calm c \<longleftrightarrow> (\<forall>cid n d. ct_sock c cid n d \<noteq> SockError)"

definition same_net :: "'a controller \<Rightarrow> 'a controller \<Rightarrow> bool" where
  "same_net c c' \<longleftrightarrow> ct_conns c' = ct_conns c \<and> ct_connections c' = ct_connections c \<and> ct_sock c' = ct_sock c \<and> ct_now c' = ct_now c"

lemma same_net_refl [simp]: "same_net c c"
  by (simp add: same_net_def)

lemma same_net_trans: "same_net a b \<Longrightarrow> same_net b c \<Longrightarrow> same_net a c"
  by (simp add: same_net_def)

lemma same_net_calm: "same_net c c' \<Longrightarrow> calm c' = calm c"
  by (simp add: same_net_def calm_def)

lemma same_net_connection: "same_net c c' \<Longrightarrow> getConnection d c' = getConnection d c"
  by (simp add: same_net_def getConnection_def)

lemma send_bytes_calm:
  assumes "calm c"
  shows "same_net c (snd (send_bytes cid data c)) \<and> ct_app (snd (send_bytes cid data c)) = ct_app c"
proof -
  have "ct_sock c cid n d \<noteq> SockError" for n d using assms by (simp add: calm_def)
  then show ?thesis
    by (auto simp: send_bytes_def ctl_simps deferred_send_def sock_send_def same_net_def Let_def split: sock_result.split)
qed

lemma con_send_calm:
  assumes "calm c"
  shows "same_net c (snd (con_send cid m c))" "ct_app (snd (con_send cid m c)) = ct_app c"
proof -
  have "same_net c (c\<lparr>ct_xid := g\<rparr>)" "calm (c\<lparr>ct_xid := g\<rparr>)" for g using assms by (simp_all add: same_net_def calm_def)
  then have "same_net c (snd (send_bytes cid bs (c\<lparr>ct_xid := g\<rparr>))) \<and> ct_app (snd (send_bytes cid bs (c\<lparr>ct_xid := g\<rparr>))) = ct_app c" for g bs
    using send_bytes_calm [of "c\<lparr>ct_xid := g\<rparr>" cid bs] by (fastforce simp: same_net_def)
  then have "same_net c (snd (con_send cid m c)) \<and> ct_app (snd (con_send cid m c)) = ct_app c"
    by (auto simp: con_send_def ctl_simps pack_msg_def same_net_def split: sum.split prod.split) (metis snd_conv)+
  then show "same_net c (snd (con_send cid m c))" "ct_app (snd (con_send cid m c)) = ct_app c" by blast+
qed

section \<open>What is handed over\<close>

fun submission :: "ctl_trace \<Rightarrow> (nat \<times> bytes) list" where
  "submission (Submitted cid data) = [(cid, data)]"
| "submission _ = []"

text \<open>The data handed to the connections so far, with the connection, in order.\<close>

definition submissions :: "'a controller \<Rightarrow> (nat \<times> bytes) list" where
  "submissions c = concat (map submission (ct_trace c))"

lemma submissions_cong: "ct_trace c' = ct_trace c \<Longrightarrow> submissions c' = submissions c"
  by (simp add: submissions_def)

lemma send_bytes_ok: "fst (send_bytes cid data c) = Inr ()" "ct_xid (snd (send_bytes cid data c)) = ct_xid c"
  by (auto simp: send_bytes_def ctl_simps deferred_send_def sock_send_def disconnect_def nexus_disconnect_def Let_def
      split: sock_result.split)

lemma send_bytes_submits:
  "submissions (snd (send_bytes cid data c)) = submissions c @ (if cx_disconnected (ct_conns c cid) then [] else [(cid, data)])"
  by (auto simp: send_bytes_def ctl_simps deferred_send_def sock_send_def disconnect_def nexus_disconnect_def Let_def submissions_def
      split: sock_result.split)

lemma con_send_submits:
  assumes "\<not> cx_disconnected (ct_conns c cid)" "message_pack (ct_xid c) m = Inr (bs, m', g)"
  shows "\<exists>c'. con_send cid m c = (Inr m', c') \<and> submissions c' = submissions c @ [(cid, bs)] \<and> ct_xid c' = g"
proof -
  obtain r c' where 1: "send_bytes cid bs (c\<lparr>ct_xid := g\<rparr>) = (r, c')" by fastforce
  note s = send_bytes_ok [of cid bs "c\<lparr>ct_xid := g\<rparr>"] send_bytes_submits [of cid bs "c\<lparr>ct_xid := g\<rparr>"]
  have "r = Inr ()" "ct_xid c' = g" "submissions c' = submissions (c\<lparr>ct_xid := g\<rparr>) @ [(cid, bs)]"
    using s assms(1) unfolding 1 by simp_all
  moreover have "submissions (c\<lparr>ct_xid := g\<rparr>) = submissions c" by (rule submissions_cong) simp
  ultimately show ?thesis using 1 assms by (simp add: con_send_def ctl_simps pack_msg_def)
qed

section \<open>Transaction numbers\<close>

text \<open>A generator of xids that stays within 32 bits.\<close>

definition xid_ok :: "xid_gen \<Rightarrow> bool" where
  "xid_ok g \<longleftrightarrow> 0 \<le> xg_i g \<and> xg_i g \<le> xg_stop g \<and> 0 \<le> xg_start g \<and> xg_start g \<le> xg_stop g \<and> xg_stop g < 4294967296"

lemma xid_ok_next: "xid_ok g \<Longrightarrow> xid_next g = (v, g') \<Longrightarrow> xid_ok g' \<and> 0 \<le> v \<and> v < 4294967296"
  by (auto simp: xid_ok_def xid_next_def Let_def)

lemma xid_ok_generator: "xid_ok xid_generator"
  by (simp add: xid_ok_def xid_generator_def XIDGenerator_def MAX_XID_def)

lemma header_xid_drawn:
  assumes "xid_ok g" "hdr_xid m = None"
  obtains v g' where "ofp_header_xid g m = (v, m\<lparr>hdr_xid := Some v\<rparr>, g')" "xid_ok g'" "0 \<le> v" "v < 4294967296"
proof -
  obtain v g' where n: "xid_next g = (v, g')" by fastforce
  then have "ofp_header_xid g m = (v, m\<lparr>hdr_xid := Some v\<rparr>, g')" by (simp add: ofp_header_xid_def assms(2))
  with xid_ok_next [OF assms(1) n] that show thesis by blast
qed

end
