(* ===== verification/Discovery_Properties.thy ===== *)
theory Discovery_Properties
  imports Discovery Number_Text Sent_Messages Packet_Roundtrip
begin

text \<open>
  What discovery does: the packets it sends are understood where they arrive, the links and the link events agree, links
  expire when they should, and every port has its turn.
\<close>

section \<open>Actions and the state of discovery\<close>

lemmas disc_simps = get_disc_def upd_disc_def ctl_simps

text \<open>Sending does not touch the state of the applications.\<close>

lemma keeps_app_basic [keeps_intro]:
  "keeps (\<lambda>c. P (ct_app c)) (emit t)" "keeps (\<lambda>c. P (ct_app c)) (upd_conn cid f)"
  "keeps (\<lambda>c. P (ct_app c)) (modify (\<lambda>c. c\<lparr>ct_aborted := g (ct_aborted c)\<rparr>))"
  "keeps (\<lambda>c. P (ct_app c)) (nexus_disconnect d)" "keeps (\<lambda>c. P (ct_app c)) (deferred_send cid data)"
  "keeps (\<lambda>c. P (ct_app c)) (sock_send cid data)" "keeps (\<lambda>c. P (ct_app c)) (pack_msg m)"
  "keeps (\<lambda>c. P (ct_app c)) (raise_event quiet src ev)"
  by (auto simp: keeps_def ctl_simps nexus_disconnect_def deferred_send_def sock_send_def pack_msg_def quiet_def raise_event_def Let_def
      split: sum.split prod.split)

lemma keeps_app_disconnect [keeps_intro]: "keeps (\<lambda>c. P (ct_app c)) (disconnect quiet cid d)"
  unfolding disconnect_def raise_nexus_def by (intro keeps_intro)

lemma keeps_app_send_bytes [keeps_intro]: "keeps (\<lambda>c. P (ct_app c)) (send_bytes cid data)"
proof -
  have "keeps (\<lambda>c. P (ct_app c)) (case r of Took l \<Rightarrow> if l \<noteq> length data then deferred_send cid (drop l data) else ret ()
    | WouldBlock \<Rightarrow> deferred_send cid data | SockError \<Rightarrow> disconnect quiet cid True)" for r
    by (cases r) (auto intro!: keeps_intro)
  then show ?thesis unfolding send_bytes_def by (intro keeps_intro)
qed

lemma keeps_app_send [keeps_intro]: "keeps (\<lambda>c. P (ct_app c)) (con_send cid m)" "keeps (\<lambda>c. P (ct_app c)) (sendToDPID dpid data)"
  unfolding con_send_def sendToDPID_def by (intro keeps_intro)+

lemma keeps_app_upd [keeps_intro]: "(\<And>d. P d \<Longrightarrow> P (f d)) \<Longrightarrow> keeps (\<lambda>c. P (ct_app c)) (upd_disc f)"
  by (simp add: keeps_def disc_simps)

lemma keeps_get_disc [keeps_intro]: "keeps P (get_disc g)"
  unfolding get_disc_def by (rule keeps_intro)

section \<open>Links and link events\<close>

text \<open>Listeners of link events that leave the links alone.\<close>

locale link_listener =
  fixes lk :: "'b link_app"
  assumes same_links: "dc_adjacency (ct_app (lk add l c)) = dc_adjacency (ct_app c)"
    and same_events: "dc_events (ct_app (lk add l c)) = dc_events (ct_app c)"
begin

definition adds_events :: "(bool \<times> Link) list \<Rightarrow> 'b discovery controller \<Rightarrow> 'b discovery controller \<Rightarrow> bool" where
  "adds_events es c c' \<longleftrightarrow> dc_adjacency (ct_app c') = dc_adjacency (ct_app c) \<and> dc_events (ct_app c') = dc_events (ct_app c) @ es"

lemma raise_link_effect: "\<exists>c'. raise_link lk add l c = (Inr (), c') \<and> adds_events [(add, l)] c c'"
  by (simp add: raise_link_def disc_simps same_links same_events adds_events_def)

lemma raise_links_effect: "\<exists>c'. for_each (raise_link lk add) ls c = (Inr (), c') \<and> adds_events (map (Pair add) ls) c c'"
proof (induction ls arbitrary: c)
  case (Cons l ls)
  obtain c1 where 1: "raise_link lk add l c = (Inr (), c1)" "adds_events [(add, l)] c c1" using raise_link_effect by blast
  obtain c2 where 2: "for_each (raise_link lk add) ls c1 = (Inr (), c2)" "adds_events (map (Pair add) ls) c1 c2" using Cons by blast
  from 1 2 show ?case by (simp add: sbind_def adds_events_def)
qed (simp add: ret_def adds_events_def)

lemma delete_links_effect:
  "\<exists>c'. delete_links lk ls c = (Inr (), c') \<and> dc_adjacency (ct_app c') = fold AList.delete ls (dc_adjacency (ct_app c)) \<and>
     dc_events (ct_app c') = dc_events (ct_app c) @ map (Pair False) ls"
proof -
  obtain c' where "for_each (raise_link lk False) ls c = (Inr (), c')" "adds_events (map (Pair False) ls) c c'"
    using raise_links_effect by blast
  then show ?thesis by (simp add: delete_links_def disc_simps adds_events_def)
qed

lemma link_seen_effect:
  "\<exists>c'. link_seen lk l c = (Inr (), c') \<and> dc_adjacency (ct_app c') = AList.update l (ct_now c) (dc_adjacency (ct_app c)) \<and>
     dc_events (ct_app c') = dc_events (ct_app c) @ (if map_of (dc_adjacency (ct_app c)) l = None then [(True, l)] else [])"
proof -
  let ?c = "c\<lparr>ct_app := (ct_app c)\<lparr>dc_adjacency := AList.update l (ct_now c) (dc_adjacency (ct_app c))\<rparr>\<rparr>"
  obtain c' where "raise_link lk True l ?c = (Inr (), c')" "adds_events [(True, l)] ?c c'" using raise_link_effect by blast
  then show ?thesis by (auto simp: link_seen_def disc_simps adds_events_def)
qed

end

text \<open>The events of a link, and that they alternate.\<close>

definition events_of :: "Link \<Rightarrow> (bool \<times> Link) list \<Rightarrow> bool list" where
  "events_of l es = map fst (filter (\<lambda>e. snd e = l) es)"

fun alternating :: "bool \<Rightarrow> bool list \<Rightarrow> bool" where
  "alternating b [] \<longleftrightarrow> True"
| "alternating b (x # xs) \<longleftrightarrow> x = b \<and> alternating (\<not> b) xs"

lemma alternating_snoc: "alternating b (xs @ [x]) \<longleftrightarrow> alternating b xs \<and> x = (if even (length xs) then b else \<not> b)"
  by (induction xs arbitrary: b) auto

lemma events_of_append: "events_of l (es @ fs) = events_of l es @ events_of l fs"
  by (simp add: events_of_def)

lemma events_of_Nil [simp]: "events_of l [] = []"
  by (simp add: events_of_def)

lemma events_of_deleted: "distinct ls \<Longrightarrow> events_of l (map (Pair False) ls) = (if l \<in> set ls then [False] else [])"
  by (induction ls) (auto simp: events_of_def)

definition links_ok :: "'b discovery \<Rightarrow> bool" where
  "links_ok d \<longleftrightarrow> distinct (map fst (dc_adjacency d)) \<and>
     (\<forall>l. alternating True (events_of l (dc_events d)) \<and>
       (l \<in> fst ` set (dc_adjacency d) \<longleftrightarrow> odd (length (events_of l (dc_events d)))))"

lemma fold_delete: "fold AList.delete ls xs = filter (\<lambda>p. fst p \<notin> set ls) xs"
  by (induction ls arbitrary: xs) (auto simp: AList.delete_eq intro: filter_cong)

lemma links_ok_deleted:
  assumes "links_ok d" "distinct ls" "set ls \<subseteq> fst ` set (dc_adjacency d)"
    "dc_adjacency d' = fold AList.delete ls (dc_adjacency d)" "dc_events d' = dc_events d @ map (Pair False) ls"
  shows "links_ok d'"
proof -
  have "distinct (map fst (filter (\<lambda>p. fst p \<notin> set ls) (dc_adjacency d)))"
    using assms(1) by (simp add: links_ok_def distinct_map_filter)
  moreover have "l \<in> fst ` set (dc_adjacency d') \<longleftrightarrow> l \<in> fst ` set (dc_adjacency d) \<and> l \<notin> set ls" for l
    by (auto simp: assms(4) fold_delete)
  ultimately show ?thesis using assms
    by (auto simp: links_ok_def fold_delete events_of_append events_of_deleted alternating_snoc)
qed

lemma links_ok_seen:
  assumes "links_ok d" "dc_adjacency d' = AList.update l t (dc_adjacency d)"
    "dc_events d' = dc_events d @ (if map_of (dc_adjacency d) l = None then [(True, l)] else [])"
  shows "links_ok d'"
proof -
  have k: "fst ` set (dc_adjacency d') = insert l (fst ` set (dc_adjacency d))" by (simp add: assms(2) dom_update)
  moreover have "map_of (dc_adjacency d) l = None \<longleftrightarrow> l \<notin> fst ` set (dc_adjacency d)" by (simp add: map_of_eq_None_iff)
  moreover have "events_of k [(True, l)] = (if k = l then [True] else [])" for k by (simp add: events_of_def)
  ultimately show ?thesis using assms distinct_update [of "dc_adjacency d" l t]
    by (auto simp: links_ok_def events_of_append alternating_snoc)
qed

text \<open>What discovery does in one go, and what goes on around it.\<close>

inductive disc_step :: "pk_ext \<Rightarrow> 'b link_app \<Rightarrow> 'b discovery controller \<Rightarrow> 'b discovery controller \<Rightarrow> bool"
  for x :: pk_ext and lk :: "'b link_app"
where
  event: "disc_step x lk c (snd (discovery_nexus x lk ev c))"
| expire: "disc_step x lk c (snd (expire_links lk c))"
| timer: "disc_step x lk c (snd (timer_handler r c))"
| other: "dc_adjacency (ct_app c') = dc_adjacency (ct_app c) \<Longrightarrow> dc_events (ct_app c') = dc_events (ct_app c) \<Longrightarrow> disc_step x lk c c'"

definition links_state :: "'b discovery controller \<Rightarrow> bool" where
  "links_state c \<longleftrightarrow> links_ok (ct_app c)"

lemma links_ok_cong: "dc_adjacency d' = dc_adjacency d \<Longrightarrow> dc_events d' = dc_events d \<Longrightarrow> links_ok d' = links_ok d"
  by (simp add: links_ok_def)

lemma keeps_links_app: "keeps (\<lambda>c. links_ok (ct_app c)) m \<Longrightarrow> keeps links_state m"
  by (simp add: keeps_def links_state_def)

lemma keeps_links_upd [keeps_intro]:
  "(\<And>d. dc_adjacency (f d) = dc_adjacency d) \<Longrightarrow> (\<And>d. dc_events (f d) = dc_events d) \<Longrightarrow> keeps links_state (upd_disc f)"
  by (simp add: keeps_def links_state_def disc_simps links_ok_def)

lemmas keeps_links_send [keeps_intro] = keeps_app_send [where P = links_ok, THEN keeps_links_app]
  keeps_app_basic(7) [where P = links_ok, THEN keeps_links_app]

lemma keeps_links_timer [keeps_intro]: "keeps links_state set_timer"
  unfolding set_timer_def by (rule keeps_intro) (simp_all add: Let_def)

lemma keeps_links_sender [keeps_intro]:
  "keeps links_state (del_switch dpid b)" "keeps links_state (del_port dpid p b)"
  unfolding del_switch_def del_port_def by (intro keeps_intro; simp)+

lemma keeps_links_add_port [keeps_intro]: "keeps links_state (sender_add_port dpid p a b)"
  unfolding sender_add_port_def create_packet_out_def by (intro keeps_intro) simp_all

lemma keeps_links_next [keeps_intro]: "keeps links_state next_item"
  unfolding next_item_def by (intro keeps_intro) simp_all

lemma keeps_links_items [keeps_intro]: "keeps links_state (send_items n)"
  by (induction n) (auto intro!: keeps_intro)

lemma keeps_links_timer_handler: "keeps links_state (timer_handler r)"
  unfolding timer_handler_def Let_def by (intro keeps_intro)

context link_listener
begin

lemma keeps_delete_links:
  assumes "\<And>d. distinct (map fst (dc_adjacency d)) \<Longrightarrow> distinct (f d) \<and> set (f d) \<subseteq> fst ` set (dc_adjacency d)"
  shows "keeps links_state (sbind (get_disc f) (delete_links lk))"
proof -
  have "links_state (snd (delete_links lk (f (ct_app c)) c))" if "links_state c" for c
    using delete_links_effect [of "f (ct_app c)" c] that assms [of "ct_app c"] links_ok_deleted [of "ct_app c" "f (ct_app c)"]
    by (fastforce simp: links_state_def links_ok_def [of "ct_app c"])
  then show ?thesis by (simp add: keeps_def disc_simps)
qed

lemma keeps_link_seen: "keeps links_state (link_seen lk l)"
proof -
  have "links_state (snd (link_seen lk l c))" if "links_state c" for c
    using link_seen_effect [of l c] that links_ok_seen [of "ct_app c" _ l "ct_now c"] by (force simp: links_state_def)
  then show ?thesis by (simp add: keeps_def)
qed

lemma keeps_learn_link: "keeps links_state (learn_link lk dpid port tlvs)"
  unfolding learn_link_def
  by (intro keeps_intro; cases "tlvs ! 1") (auto intro!: keeps_intro keeps_link_seen split: option.split)

lemma keeps_expire: "keeps links_state (expire_links lk)"
proof -
  let ?f = "\<lambda>now d. map fst (filter (\<lambda>(link, timestamp). timestamp + dc_link_timeout d * nsec < now) (dc_adjacency d))"
  have e: "(\<lambda>ls. if ls \<noteq> [] then delete_links lk ls else ret ()) = delete_links lk"
    by (intro ext) (simp add: delete_links_def disc_simps)
  have "keeps links_state (sbind (get_disc (?f now)) (delete_links lk))" for now
    by (rule keeps_delete_links) (auto simp: distinct_map_filter)
  then show ?thesis unfolding expire_links_def e by (rule keeps_sbind [OF keeps_basic(4)])
qed

lemma keeps_nexus: "keeps links_state (discovery_nexus x lk ev)"
proof -
  have "keeps links_state (disc_ConnectionDown lk cid)" for cid
    unfolding disc_ConnectionDown_def by (rule keeps_intro keeps_delete_links)+ auto
  moreover have "keeps links_state (disc_PacketIn x lk cid m)" for cid m
    unfolding disc_PacketIn_def by (intro keeps_intro keeps_learn_link)
  ultimately show ?thesis
    by (cases ev) (auto simp: discovery_nexus_def install_flow_def sender_ConnectionUp_def sender_ConnectionDown_def
        sender_PortStatus_def intro!: keeps_intro)
qed

lemma links_state_steps: "(disc_step x lk)\<^sup>*\<^sup>* c c' \<Longrightarrow> links_state c \<Longrightarrow> links_state c'"
proof (induction rule: rtranclp_induct)
  case (step c1 c2)
  then have "links_state c1" by simp
  with step(2) show ?case
  proof cases
    case other
    then show ?thesis using \<open>links_state c1\<close> by (simp add: links_state_def links_ok_def)
  qed (simp_all add: keepsD [OF keeps_nexus] keepsD [OF keeps_expire] keepsD [OF keeps_links_timer_handler])
qed simp

end

text \<open>
  C7. The links that discovery knows and the link events agree. From the start, whatever happens, no link is stored
  twice; the events of every link alternate, up, down, up, and a link is known exactly when its last event was up.
\<close>

theorem link_events_agree:
  assumes "link_listener lk" "(disc_step x lk)\<^sup>*\<^sup>* c0 c" "dc_adjacency (ct_app c0) = []" "dc_events (ct_app c0) = []"
  shows "distinct (map fst (dc_adjacency (ct_app c))) \<and>
    (\<forall>l. alternating True (events_of l (dc_events (ct_app c))) \<and>
       (l \<in> fst ` set (dc_adjacency (ct_app c)) \<longleftrightarrow>
          events_of l (dc_events (ct_app c)) \<noteq> [] \<and> last (events_of l (dc_events (ct_app c)))))"
proof -
  have "links_state c0" using assms(3,4) by (simp add: links_state_def links_ok_def events_of_def)
  then have "links_ok (ct_app c)" using link_listener.links_state_steps [OF assms(1,2)] by (simp add: links_state_def)
  moreover have "alternating True bs \<Longrightarrow> odd (length bs) \<longleftrightarrow> bs \<noteq> [] \<and> last bs" for bs
    by (cases bs rule: rev_cases) (auto simp: alternating_snoc)
  ultimately show ?thesis by (simp add: links_ok_def)
qed

text \<open>
  C32. Expiry removes exactly the links that were last seen longer ago than the timeout, keeps the others with their times,
  and raises one event for each link it removes.
\<close>

theorem expire_links_exact:
  fixes c :: "'b discovery controller"
  assumes "link_listener lk" "distinct (map fst (dc_adjacency (ct_app c)))"
  defines "old \<equiv> \<lambda>p. snd p + dc_link_timeout (ct_app c) * nsec < ct_now c" and "d \<equiv> ct_app (snd (expire_links lk c))"
  shows "dc_adjacency d = filter (\<lambda>p. \<not> old p) (dc_adjacency (ct_app c)) \<and>
    dc_events d = dc_events (ct_app c) @ map (\<lambda>p. (False, fst p)) (filter old (dc_adjacency (ct_app c)))"
proof -
  let ?ls = "map fst (filter old (dc_adjacency (ct_app c)))"
  have "snd (expire_links lk c) = snd (delete_links lk ?ls c)"
    by (simp add: expire_links_def delete_links_def disc_simps old_def case_prod_unfold)
  moreover obtain c' where "delete_links lk ?ls c = (Inr (), c')" "dc_adjacency (ct_app c') = fold AList.delete ?ls (dc_adjacency (ct_app c))"
    "dc_events (ct_app c') = dc_events (ct_app c) @ map (Pair False) ?ls"
    using link_listener.delete_links_effect [OF assms(1)] by blast
  moreover have "fst p \<in> set ?ls \<longleftrightarrow> old p" if "p \<in> set (dc_adjacency (ct_app c))" for p
    using that assms(2) by (auto simp: distinct_map inj_on_def)
  then have "filter (\<lambda>p. fst p \<notin> set ?ls) (dc_adjacency (ct_app c)) = filter (\<lambda>p. \<not> old p) (dc_adjacency (ct_app c))"
    by (intro filter_cong) auto
  ultimately show ?thesis unfolding d_def fold_delete by (simp add: comp_def)
qed

section \<open>Taking turns\<close>

text \<open>Actions that never raise.\<close>

definition total :: "('s, 'r) st \<Rightarrow> bool" where
  "total m \<longleftrightarrow> (\<forall>s. \<exists>x s'. m s = (Inr x, s'))"

lemma total_sbind: "total m \<Longrightarrow> (\<And>x. total (f x)) \<Longrightarrow> total (sbind m f)"
  unfolding total_def sbind_def by (metis (no_types, lifting) old.prod.case old.sum.simps(6))

lemma total_basic: "total (ret x)" "total (gets f)" "total (modify g)" "total (get_conn cid h)" "total (upd_conn cid k)" "total (emit t)"
  "total (nexus_disconnect d)" "total (deferred_send cid data)" "total (sock_send cid data)" "total (raise_event app src ev)"
  by (auto simp: total_def ctl_simps nexus_disconnect_def deferred_send_def sock_send_def raise_event_def Let_def split: prod.split)

lemma total_branch: "total m \<Longrightarrow> total n \<Longrightarrow> total (if b then m else n)"
  "total m \<Longrightarrow> (\<And>x. total (f x)) \<Longrightarrow> total (case y of None \<Rightarrow> m | Some x \<Rightarrow> f x)"
  by (auto split: option.split)

lemmas total_intro = total_sbind total_basic total_branch

lemma total_send_bytes: "total (send_bytes cid data)"
proof -
  have "total (disconnect quiet cid b)" for b unfolding disconnect_def raise_nexus_def by (intro total_intro)
  then have "total (case r of Took l \<Rightarrow> if l \<noteq> length data then deferred_send cid (drop l data) else ret ()
    | WouldBlock \<Rightarrow> deferred_send cid data | SockError \<Rightarrow> disconnect quiet cid True)" for r
    by (cases r) (auto intro!: total_intro)
  then show ?thesis unfolding send_bytes_def by (intro total_intro)
qed

text \<open>What becomes of a packet for a switch.\<close>

definition sent_to :: "'a controller \<Rightarrow> int \<Rightarrow> bytes \<Rightarrow> (nat \<times> bytes) list" where
  "sent_to c dpid data =
     (case getConnection dpid c of
        None \<Rightarrow> []
      | Some cid \<Rightarrow> if cx_disconnected (ct_conns c cid) then [] else [(cid, data)])"

lemma sendToDPID_result:
  obtains b c' where "sendToDPID dpid data c = (Inr b, c')" "ct_app c' = ct_app c"
    "submissions c' = submissions c @ sent_to c dpid data" "calm c \<Longrightarrow> same_net c c'"
proof -
  have "total (sendToDPID dpid data)" unfolding sendToDPID_def by (intro total_intro total_send_bytes)
  then obtain b where "fst (sendToDPID dpid data c) = Inr b" by (metis total_def fst_conv)
  moreover have "ct_app (snd (sendToDPID dpid data c)) = ct_app c"
    using keepsD [OF keeps_app_send(2), of "\<lambda>a. a = ct_app c" c dpid data] by simp
  moreover have "snd (sendToDPID dpid data c) = (case getConnection dpid c of None \<Rightarrow> c | Some cid \<Rightarrow> snd (send_bytes cid data c))"
    by (auto simp: sendToDPID_def ctl_simps split: option.split prod.split sum.split)
  then have "submissions (snd (sendToDPID dpid data c)) = submissions c @ sent_to c dpid data"
    "calm c \<Longrightarrow> same_net c (snd (sendToDPID dpid data c))"
    using send_bytes_calm [of c] by (simp_all add: sent_to_def send_bytes_submits split: option.split)
  ultimately show thesis by (metis that prod.collapse)
qed

lemma next_item_rotates:
  assumes "dc_this_cycle (ct_app c) @ dc_next_cycle (ct_app c) \<noteq> []"
  obtains c' where "next_item c = (Inr ((dc_this_cycle (ct_app c) @ dc_next_cycle (ct_app c)) ! 0), c')"
    "dc_this_cycle (ct_app c') @ dc_next_cycle (ct_app c') = rotate1 (dc_this_cycle (ct_app c) @ dc_next_cycle (ct_app c))"
    "same_net c c'" "submissions c' = submissions c"
proof (cases "dc_this_cycle (ct_app c)")
  case Nil
  then obtain p ps where "dc_next_cycle (ct_app c) = p # ps" using assms by (cases "dc_next_cycle (ct_app c)") auto
  then show ?thesis using Nil that by (simp add: next_item_def disc_simps same_net_def submissions_def)
qed (use that in \<open>simp add: next_item_def disc_simps same_net_def submissions_def\<close>)

lemma sent_to_cong: "same_net c c' \<Longrightarrow> sent_to c' dpid data = sent_to c dpid data"
  unfolding sent_to_def same_net_connection [of c c'] by (auto simp: same_net_def getConnection_def split: option.split)

text \<open>The next \<open>n\<close> packets of the round \<open>q\<close>.\<close>

definition round_items :: "nat \<Rightarrow> SendItem list \<Rightarrow> SendItem list" where
  "round_items n q = map (\<lambda>i. q ! (i mod length q)) [0..<n]"

lemma round_items_Suc: "q \<noteq> [] \<Longrightarrow> round_items (Suc n) q = q ! 0 # round_items n (rotate1 q)"
  by (simp add: round_items_def map_upt_Suc nth_rotate1 mod_Suc_eq del: upt_Suc)

text \<open>
  C33. Every port has its turn: while nothing is added or removed, the sender goes through its packets in a fixed round. After
  any number of sends, whatever becomes of them, the packets still to be sent, in order, are the old ones rotated by that
  number, and nothing was raised. As long as no socket fails, what was handed to the connections are exactly the packets of
  these turns, in order, each over the connection of its switch; those of switches without a live connection are left out.
\<close>

theorem probes_rotate:
  assumes "q = dc_this_cycle (ct_app c) @ dc_next_cycle (ct_app c)" "q \<noteq> []"
  shows "\<exists>c'. send_items n c = (Inr (), c') \<and>
    dc_this_cycle (ct_app c') @ dc_next_cycle (ct_app c') = rotate n q \<and>
    (calm c \<longrightarrow> submissions c' = submissions c @ concat (map (\<lambda>p. sent_to c (si_dpid p) (si_packet p)) (round_items n q)))"
  using assms
proof (induction n arbitrary: c q)
  case (Suc n)
  let ?q = "\<lambda>c. dc_this_cycle (ct_app c) @ dc_next_cycle (ct_app c)"
  obtain c1 where 1: "next_item c = (Inr (q ! 0), c1)" "?q c1 = rotate1 q" "same_net c c1" "submissions c1 = submissions c"
    using next_item_rotates [of c] Suc.prems by metis
  obtain b c2 where 2: "sendToDPID (si_dpid (q ! 0)) (si_packet (q ! 0)) c1 = (Inr b, c2)" "ct_app c2 = ct_app c1"
    "submissions c2 = submissions c1 @ sent_to c1 (si_dpid (q ! 0)) (si_packet (q ! 0))" "calm c1 \<Longrightarrow> same_net c1 c2"
    using sendToDPID_result by blast
  have q2: "rotate1 q = ?q c2" "rotate1 q \<noteq> []" using 1(2) 2(2) Suc.prems by simp_all
  from Suc.IH [OF this] obtain c3 where 3: "send_items n c2 = (Inr (), c3)" "?q c3 = rotate n (rotate1 q)"
    "calm c2 \<longrightarrow> submissions c3 = submissions c2 @ concat (map (\<lambda>p. sent_to c2 (si_dpid p) (si_packet p)) (round_items n (rotate1 q)))"
    by blast
  have "rotate n (rotate1 q) = rotate (Suc n) q" by (simp only: rotate1_rotate_swap rotate_Suc)
  moreover have "submissions c3 = submissions c @ concat (map (\<lambda>p. sent_to c (si_dpid p) (si_packet p)) (round_items (Suc n) q))"
    if "calm c"
  proof -
    have "same_net c c2" "calm c2" using that 1(3) 2(4) same_net_calm same_net_trans by blast+
    then show ?thesis using 3(3) 2(3) 1(4) sent_to_cong [OF 1(3)] sent_to_cong [of c c2] by (simp add: round_items_Suc Suc.prems(2))
  qed
  ultimately show ?case using 1(1) 2(1) 3(1,2) by (simp add: sbind_def)
qed (simp add: ret_def round_items_def)

section \<open>From one end of a link to the other\<close>

lemma dpid_text_read: "0 \<le> d \<Longrightarrow> dpid_line (py_split 10 (dpid_text d)) = Some d"
proof -
  assume "0 \<le> d"
  have "py_split 10 s = [s]" if "10 \<notin> set s" for s :: bytes using that by (induction s) auto
  moreover have "10 \<notin> set (dpid_text d)"
    using hex_digits_plain [OF \<open>0 \<le> d\<close>] plain_digitD(6) [of 16 10] by (auto simp: dpid_text_def)
  ultimately show ?thesis using \<open>0 \<le> d\<close> by (simp add: dpid_text_def starts_dpid_def try_int_def py_int_hex_digits)
qed

lemma port_text_read: "0 \<le> p \<Longrightarrow> originator_port (py_str_int p) = Some p"
proof -
  assume "0 \<le> p"
  have "48 \<le> c \<and> c \<le> 57" if p: "plain_digit 10 c" for c
  proof -
    obtain d where d: "0 \<le> d" "d < 10" "c = hex_digit d" using p by (auto simp: plain_digit_def)
    then have "uint c = 48 + d" unfolding d(3) hex_digit_def uint_byte_of_int by simp
    then show ?thesis using d by (simp add: word_le_def)
  qed
  then have "is_digits (py_str_int p)" using dec_digits_plain \<open>0 \<le> p\<close> by (simp add: is_digits_def py_str_int_def list_all_iff)
  then show ?thesis using \<open>0 \<le> p\<close> by (simp add: originator_port_def try_int_def py_str_int_def py_int_dec_digits)
qed

lemma length_int_to_be_16 [simp]: "length (int_to_be 2 v) = 2" "length (int_to_be 1 v) = 1" by simp_all

lemma discovery_tlvs_ok:
  assumes "0 \<le> d" "d < 2 ^ 64" "0 \<le> p" "p < 65536"
  shows "tlvs_ok (ChassisId 7 (Some (dpid_text d)) # PortId 2 (Some (py_str_int p)) # TtlTlv n # [SystemDescription (Some (dpid_text d))])"
proof -
  have "length (hex_digits d) \<le> 16" using assms(2) by (intro length_hex_digits) simp_all
  moreover have "length (py_str_int p) \<le> 5" using assms(3,4) length_dec_digits [of "nat p" 5] by (simp add: py_str_int_def)
  moreover have "py_str_int p \<noteq> []" using assms(3) by (simp add: py_str_int_def)
  ultimately show ?thesis
    by (auto simp: tlvs_ok_def short_data_def dpid_text_def set_attr_def struct_pack_def struct_bytes.simps)
qed

lemma discovery_frame_read:
  assumes "discovery_packet d p addr n = Inr frame" "eth_wf addr" "0 \<le> d" "d < 2 ^ 64" "0 \<le> p" "p < 65536"
  obtains e l where "ethernet_new (lldp_ext x) (frame @ tail) = Inr e" "effective_ethertype e = LLDP_TYPE" "e_dst e = NDP_MULTICAST"
    "find_lldp (e_payload e) = Some l" "lldp_tlvs l = lldp_tlvs (discovery_lldp d p n)"
proof -
  obtain r where r: "lldp_pack (discovery_lldp d p n) = Inr r" and f: "frame = [1, 35, 32, 0, 0, 1] @ eth_value addr @ int_to_be 2 35020 @ r"
    using assms(1,2) by (auto simp: discovery_packet_def rbind_Inr_iff ethernet_hdr_def struct_pack_Inr_iff struct_bytes.simps
        ethernet_init_def eth_toRaw_def NDP_MULTICAST_def LLDP_TYPE_def eth_wf_def ljust0_def)
  let ?l = "\<lparr>lldp_tlvs = lldp_tlvs (discovery_lldp d p n), lldp_parsed = True, lldp_raw = Some (r @ tail)\<rparr>"
  have l: "lldp_new (r @ tail) = Inr ?l"
    using lldp_roundtrip [OF discovery_tlvs_ok [OF assms(3-6)], of n r tail] r by (simp add: discovery_lldp_def lldp_init_def)
  define raw where "raw = frame @ tail"
  have "py_slice raw 0 6 = [1, 35, 32, 0, 0, 1]" "py_slice raw 6 12 = eth_value addr" "py_slice raw 12 14 = int_to_be 2 35020"
    "drop 14 raw = r @ tail" "\<not> length raw < 14"
    using assms(2) by (simp_all add: raw_def f eth_wf_def py_slice_def py_bound_def Let_def)
  moreover have "struct_unpack [FH] (int_to_be 2 35020) = Inr [35020]" by (rule unpack_FH) simp
  moreover define e where "e = ethernet_init\<lparr>e_payload := POther ''lldp'' (r @ tail) True, e_raw := Some raw,
      e_dst := NDP_MULTICAST, e_src := addr, e_type := LLDP_TYPE, e_parsed := True\<rparr>"
  ultimately have "ethernet_new (lldp_ext x) raw = Inr e"
    using l assms(2) by (simp add: ethernet_new_def Let_def EthAddr_init_def eth_wf_def parse_next.simps other_new_def lldp_ext_def
        LLDP_TYPE_def NDP_MULTICAST_def)
  moreover have "effective_ethertype e = LLDP_TYPE" "e_dst e = NDP_MULTICAST" "e_payload e = POther ''lldp'' (r @ tail) True"
    unfolding e_def by (simp_all add: effective_ethertype_def VLAN_TYPE_def LLDP_TYPE_def is_llc_def)
  ultimately show thesis using that [of e ?l] l by (simp add: raw_def)
qed

lemma sbind_Inr: "m c = (Inr y, c') \<Longrightarrow> sbind m f c = f y c'"
  by (simp add: sbind_def)

text \<open>A buffered packet is let go without actions, so that the switch drops it.\<close>

lemma release_packet:
  assumes "calm c" "xid_ok (ct_xid c)" "0 \<le> b" "b < 4294967296" "0 \<le> p" "p < 65536"
  obtains m' c' where "con_send cid (MPacketOut (ofp_packet_out_init\<lparr>po_buffer_id := buffer_id_set (Some b), po_in_port := p\<rparr>)) c = (Inr m', c')"
    "same_net c c'" "ct_app c' = ct_app c"
proof -
  define o' where "o' = ofp_packet_out_init\<lparr>po_buffer_id := buffer_id_set (Some b), po_in_port := p\<rparr>"
  have "\<exists>m' c'. con_send cid (MPacketOut o') c = (Inr m', c')"
  proof (cases "cx_disconnected (ct_conns c cid)")
    case False
    have "hdr_xid o' = None" by (simp add: o'_def ofp_packet_out_init_def)
    then obtain v g' where v: "ofp_header_xid (ct_xid c) o' = (v, o'\<lparr>hdr_xid := Some v\<rparr>, g')" "0 \<le> v" "v < 4294967296"
      using header_xid_drawn [OF assms(2)] by metis
    have f: "o'\<lparr>po_actions := []\<rparr> = o'" "po_actions o' = []" "ofp_packet_out_validate o'" "ofp_packet_out_len o' = 16"
      "hdr_version o' = 1" "hdr_type o' = 13" "po_buffer_id o' = b" "po_in_port o' = p" "po_data o' = []"
      by (simp_all add: o'_def ofp_packet_out_init_def ofp_packet_out_validate_def ofp_packet_out_len_def actions_len_def
          OFP_VERSION_def buffer_id_set_def)
    have "\<exists>bs m' g. message_pack (ct_xid c) (MPacketOut o') = Inr (bs, m', g)"
      using v assms(3-6) by (simp add: ofp_packet_out_pack_def ofp_header_pack_def struct_pack_def Let_def f)
    then show ?thesis using con_send_submits [OF False] by metis
  qed (simp add: con_send_def ctl_simps)
  then obtain m' c' where "con_send cid (MPacketOut o') c = (Inr m', c')" by blast
  with con_send_calm [OF assms(1), of cid "MPacketOut o'"] that show thesis unfolding o'_def by simp
qed

text \<open>
  The packet is not buffered at the switch, or the message that lets the buffer go can be packed and no socket fails (a socket
  error while it is sent might unregister the very switch the packet came from).
\<close>

definition releasable :: "ofp_packet_in \<Rightarrow> 'a controller \<Rightarrow> bool" where
  "releasable m c \<longleftrightarrow> buffer_id_get (pi_buffer_id m) = None \<or>
     calm c \<and> xid_ok (ct_xid c) \<and> 0 \<le> pi_buffer_id m \<and> pi_buffer_id m < 4294967296 \<and> 0 \<le> pi_in_port m \<and> pi_in_port m < 65536"

text \<open>
  C6. A discovery packet leads to the right link. When the frame that the sender makes for port \<open>p1\<close> of switch \<open>d1\<close> comes in
  at another port, complete and possibly padded, over the connection of the switch \<open>d2\<close>, while the nexus has a connection to
  \<open>d1\<close>, then the link from that port to the port it came in at is known with the present time, the event is raised exactly when
  the link is new, and no other application sees the packet. The packet may be buffered at the switch or not; when it is, no
  socket fails and buffer and port fit the message that lets it go.
\<close>

theorem link_discovered:
  fixes c :: "'b discovery controller"
  assumes "discovery_packet d1 p1 addr n = Inr frame" "eth_wf addr" "0 \<le> d1" "d1 < 2 ^ 64" "0 \<le> p1" "p1 < 65536"
    "pi_data m = frame @ tail" "releasable m c" "getConnection d1 c \<noteq> None"
    "cx_dpid (ct_conns c cid) = Some d2" "(d2, pi_in_port m) \<noteq> (d1, p1)" "link_listener lk"
  defines "l \<equiv> Link d1 p1 d2 (pi_in_port m)"
  shows "\<exists>c'. disc_PacketIn x lk cid m c = (Inr True, c') \<and>
    dc_adjacency (ct_app c') = AList.update l (ct_now c) (dc_adjacency (ct_app c)) \<and>
    dc_events (ct_app c') = dc_events (ct_app c) @ (if l \<in> fst ` set (dc_adjacency (ct_app c)) then [] else [(True, l)])"
proof -
  obtain e h where e: "ethernet_new (lldp_ext x) (frame @ tail) = Inr e" "effective_ethertype e = LLDP_TYPE" "e_dst e = NDP_MULTICAST"
    and h: "find_lldp (e_payload e) = Some h" "lldp_tlvs h = lldp_tlvs (discovery_lldp d1 p1 n)"
    using discovery_frame_read [OF assms(1-6)] by blast
  define release :: "('b, unit) disc" where "release =
     (case buffer_id_get (pi_buffer_id m) of
        Some b \<Rightarrow>
          if dc_explicit_drop (ct_app c)
          then sbind (con_send cid (MPacketOut (ofp_packet_out_init\<lparr>po_buffer_id := buffer_id_set (Some b), po_in_port := pi_in_port m\<rparr>)))
                 (\<lambda>_. ret ())
          else ret ()
      | None \<Rightarrow> ret ())"
  obtain c1 where 1: "release c = (Inr (), c1)" "same_net c c1" "ct_app c1 = ct_app c"
  proof (cases "buffer_id_get (pi_buffer_id m) = None \<or> \<not> dc_explicit_drop (ct_app c)")
    case False
    then have b: "buffer_id_get (pi_buffer_id m) = Some (pi_buffer_id m)" by (auto simp: buffer_id_get_def split: if_splits)
    then have "calm c" "xid_ok (ct_xid c)" "0 \<le> pi_buffer_id m" "pi_buffer_id m < 4294967296" "0 \<le> pi_in_port m" "pi_in_port m < 65536"
      using assms(8) by (simp_all add: releasable_def)
    then obtain m' c' where
      r: "con_send cid (MPacketOut (ofp_packet_out_init\<lparr>po_buffer_id := buffer_id_set (Some (pi_buffer_id m)), po_in_port := pi_in_port m\<rparr>)) c = (Inr m', c')"
      and s: "same_net c c'" "ct_app c' = ct_app c"
      by (rule release_packet)
    have "dc_explicit_drop (ct_app c)" using False by simp
    then have "release c = (Inr (), c')" by (simp only: release_def b option.case if_True sbind_def r prod.case sum.case ret_def)
    then show thesis using s by (rule that)
  next
    case True
    then have "release c = (Inr (), c)"
      by (cases "buffer_id_get (pi_buffer_id m)") (auto simp: release_def ret_def)
    with that show thesis by simp
  qed
  have "look_in_sys_desc [SystemDescription (Some (dpid_text d1)), EndTlv] = Some d1" using dpid_text_read [OF assms(3)] by simp
  moreover obtain k where "getConnection d1 c1 = Some k" using assms(9) same_net_connection [OF 1(2)] by auto
  moreover have "\<not> (d2 = d1 \<and> pi_in_port m = p1)" using assms(11) by simp
  ultimately have "learn_link lk d2 (pi_in_port m) (lldp_tlvs h) c1 = link_seen lk l c1"
    using port_text_read [OF assms(5)]
    by (auto simp: learn_link_def h(2) discovery_lldp_def lldp_init_def disc_simps l_def numeral_2_eq_2)
  moreover obtain c' where "link_seen lk l c1 = (Inr (), c')"
    "dc_adjacency (ct_app c') = AList.update l (ct_now c1) (dc_adjacency (ct_app c1))"
    "dc_events (ct_app c') = dc_events (ct_app c1) @ (if map_of (dc_adjacency (ct_app c1)) l = None then [(True, l)] else [])"
    using link_listener.link_seen_effect [OF assms(12)] by blast
  moreover have "cx_dpid (ct_conns c1 cid) = Some d2" "ct_now c1 = ct_now c" using 1(2) assms(10) by (simp_all add: same_net_def)
  moreover have "disc_PacketIn x lk cid m c = sbind release (\<lambda>_.
       sbind (get_conn cid cx_dpid) (\<lambda>dpid. sbind (lift (set_attr TypeError dpid)) (\<lambda>dpid.
       sbind (learn_link lk dpid (pi_in_port m) (lldp_tlvs h)) (\<lambda>_. ret True)))) c"
  proof -
    have 1: "lift (ethernet_new (lldp_ext x) (pi_data m)) c = (Inr e, c)" using e(1) assms(7) by (simp add: lift_def)
    have 2: "get_disc id c = (Inr (ct_app c), c)" by (simp add: get_disc_def gets_def)
    show ?thesis unfolding disc_PacketIn_def release_def
      by (subst sbind_Inr [where y = e and c' = c], rule 1, subst sbind_Inr [where y = "ct_app c" and c' = c], rule 2)
         (simp only: e(2,3) h(1) simp_thms if_False option.case)
  qed
  ultimately show ?thesis using 1
    by (simp add: sbind_def get_conn_def gets_def ret_def lift_def set_attr_def map_of_eq_None_iff)
qed

section \<open>A small network\<close>

text \<open>Two switches, 7 and 8, on the connections 1 and 2.\<close>

definition no_listener :: "unit link_app" where
  "no_listener add l c = c"

definition two_switches :: "unit discovery controller" where
  "two_switches = \<lparr>ct_conns = (\<lambda>k. (connection_blank 0)\<lparr>cx_nexus := True, cx_dpid := Some (if k = 1 then 7 else 8), cx_handlers := Established\<rparr>),
     ct_ID = 2, ct_sockets = [1, 2], ct_connections = [(Some 7, 1), (Some 8, 2)], ct_data = [], ct_sending = False,
     ct_aborted = 0, ct_xid = xid_generator, ct_now = 12 * nsec, ct_miss_send_len = Some 128, ct_clear_flows = True,
     ct_request_description = False, ct_fallback_nexus = True, ct_pipe_buf = 512, ct_sock = (\<lambda>_ _ data. Took (length data)),
     ct_calls = 0, ct_trace = [], ct_app = (discovery_init 10 True True False ())
       \<lparr>dc_adjacency := [(Link 8 1 7 2, nsec), (Link 8 2 7 3, 5 * nsec)], dc_events := [(True, Link 8 1 7 2), (True, Link 8 2 7 3)]\<rparr>\<rparr>"

lemma no_listener: "link_listener no_listener"
  by unfold_locales (simp_all add: no_listener_def)

theorem expire_links_exact_witness:
  "dc_adjacency (ct_app (snd (expire_links no_listener two_switches))) = [(Link 8 2 7 3, 5 * nsec)]"
proof -
  have "distinct (map fst (dc_adjacency (ct_app two_switches)))" by code_simp
  from expire_links_exact [OF no_listener this] show ?thesis by (simp add: two_switches_def discovery_init_def nsec_def)
qed

theorem link_discovered_witness:
  "\<exists>frame. discovery_packet 7 4 (EthAddr [2, 0, 0, 0, 0, 4]) 120 = Inr frame \<and>
     map fst (dc_adjacency (ct_app (snd (disc_PacketIn no_ext no_listener 2
       (ofp_packet_in_init\<lparr>pi_buffer_id := 3, pi_in_port := 5, pi_data := frame @ [0, 0]\<rparr>) two_switches)))) =
     [Link 8 1 7 2, Link 8 2 7 3, Link 7 4 8 5]"
proof -
  have "map_sum id length (discovery_packet 7 4 (EthAddr [2, 0, 0, 0, 0, 4]) 120) = Inr 41" by code_simp
  then obtain frame where f: "discovery_packet 7 4 (EthAddr [2, 0, 0, 0, 0, 4]) 120 = Inr frame"
    by (cases "discovery_packet 7 4 (EthAddr [2, 0, 0, 0, 0, 4]) 120") auto
  let ?m = "ofp_packet_in_init\<lparr>pi_buffer_id := 3, pi_in_port := 5, pi_data := frame @ [0, 0]\<rparr>"
  have "eth_wf (EthAddr [2, 0, 0, 0, 0, 4])" "releasable ?m two_switches" "getConnection 7 two_switches \<noteq> None"
    "cx_dpid (ct_conns two_switches 2) = Some 8" "(8, pi_in_port ?m) \<noteq> (7, 4)" "pi_data ?m = frame @ [0, 0]"
    using xid_ok_generator
    by (simp_all add: eth_wf_def ofp_packet_in_init_def releasable_def calm_def getConnection_def two_switches_def)
  from link_discovered [OF f this(1) _ _ _ _ this(6,2-5) no_listener, of no_ext] f show ?thesis
    by (auto simp: two_switches_def discovery_init_def ofp_packet_in_init_def)
qed

definition probe_bytes :: bytes where
  "probe_bytes = [1, 35, 32, 0, 0, 1, 2, 0, 0, 0, 0, 4, 136, 204, 2, 7, 7, 100, 112, 105, 100, 58, 55, 4, 2, 2, 52, 6, 2, 0, 120,
     12, 6, 100, 112, 105, 100, 58, 55, 0, 0]"

definition sample_probe :: ofp_packet_in where
  "sample_probe = ofp_packet_in_init\<lparr>pi_in_port := 5, pi_data := probe_bytes @ []\<rparr>"

lemma sample_probe_learns:
  "cx_dpid (ct_conns c 2) = Some d \<Longrightarrow> snd (discovery_nexus no_ext lk (PacketIn 2 sample_probe) c) =
     snd (learn_link lk d 5 (lldp_tlvs (discovery_lldp 7 4 120)) c)"
proof -
  have "discovery_packet 7 4 (EthAddr [2, 0, 0, 0, 0, 4]) 120 = Inr probe_bytes" by code_simp
  then obtain e l where "ethernet_new (lldp_ext no_ext) (probe_bytes @ []) = Inr e" "effective_ethertype e = LLDP_TYPE"
    "e_dst e = NDP_MULTICAST" "find_lldp (e_payload e) = Some l" "lldp_tlvs l = lldp_tlvs (discovery_lldp 7 4 120)"
    by (rule discovery_frame_read [where x = no_ext and tail = "[]"]) (simp_all add: eth_wf_def)
  moreover assume "cx_dpid (ct_conns c 2) = Some d"
  ultimately show ?thesis
    by (auto simp: discovery_nexus_def disc_PacketIn_def disc_simps lift_def set_attr_def sample_probe_def ofp_packet_in_init_def
        buffer_id_get_def split: prod.split sum.split)
qed

theorem link_events_agree_witness:
  "let c = snd (discovery_nexus no_ext no_listener (PacketIn 2 sample_probe) (two_switches\<lparr>ct_app := discovery_init 10 True True False ()\<rparr>))
   in events_of (Link 7 4 8 5) (dc_events (ct_app c)) = [True] \<and> Link 7 4 8 5 \<in> fst ` set (dc_adjacency (ct_app c))"
proof -
  let ?start = "two_switches\<lparr>ct_app := discovery_init 10 True True False ()\<rparr>"
  let ?c = "snd (discovery_nexus no_ext no_listener (PacketIn 2 sample_probe) ?start)"
  have "disc_step no_ext no_listener ?start ?c" by (rule disc_step.event)
  then have "(disc_step no_ext no_listener)\<^sup>*\<^sup>* ?start ?c" by (rule r_into_rtranclp)
  moreover have "dc_adjacency (ct_app ?start) = []" "dc_events (ct_app ?start) = []" by (simp_all add: discovery_init_def)
  ultimately have "l \<in> fst ` set (dc_adjacency (ct_app ?c)) \<longleftrightarrow>
      events_of l (dc_events (ct_app ?c)) \<noteq> [] \<and> last (events_of l (dc_events (ct_app ?c)))" for l
    using link_events_agree [OF no_listener, of no_ext ?start ?c] by blast
  moreover have "?c = snd (learn_link no_listener 8 5 (lldp_tlvs (discovery_lldp 7 4 120)) ?start)"
    by (rule sample_probe_learns) (simp add: two_switches_def)
  moreover have "events_of (Link 7 4 8 5) (dc_events (ct_app (snd (learn_link no_listener 8 5 (lldp_tlvs (discovery_lldp 7 4 120)) ?start)))) = [True]"
    by code_simp
  ultimately show ?thesis by (simp add: Let_def)
qed

definition probing :: "unit discovery controller" where
  "probing = two_switches\<lparr>ct_app := (ct_app two_switches)\<lparr>dc_this_cycle := [SendItem 7 1 [1], SendItem 8 1 [2]]\<rparr>\<rparr>"

theorem probes_rotate_witness:
  "\<exists>c'. send_items 3 probing = (Inr (), c') \<and>
     dc_this_cycle (ct_app c') @ dc_next_cycle (ct_app c') = [SendItem 8 1 [2], SendItem 7 1 [1]] \<and>
     submissions c' = [(1, [1]), (2, [2]), (1, [1])]"
proof -
  have q: "[SendItem 7 1 [1], SendItem 8 1 [2]] = dc_this_cycle (ct_app probing) @ dc_next_cycle (ct_app probing)"
    by (simp add: probing_def two_switches_def discovery_init_def)
  have "calm probing" by (simp add: calm_def probing_def two_switches_def)
  moreover have "submissions probing @ concat (map (\<lambda>p. sent_to probing (si_dpid p) (si_packet p))
      (round_items 3 [SendItem 7 1 [1], SendItem 8 1 [2]])) = [(1, [1]), (2, [2]), (1, [1])]"
    by code_simp
  ultimately show ?thesis using probes_rotate [OF q, of 3] by (simp add: numeral_3_eq_3)
qed

end
