(* ===== verification/Tree_Flooding_Properties.thy ===== *)
theory Tree_Flooding_Properties
  imports Tree_Flooding Discovery_Properties
begin

text \<open>
  After an update of the spanning tree the ports flood exactly where they should, a second update changes nothing, and
  a link that goes down does not reach the tree.
\<close>

lemmas stp_simps = get_stp_def upd_stp_def set_prev_def invalidate_ports_def disc_simps

section \<open>What an update leaves behind\<close>

definition prev_of :: "stp discovery controller \<Rightarrow> int option \<times> int \<Rightarrow> bool option" where
  "prev_of c = map_of (st_prev (dc_rest (ct_app c)))"

definition links_of :: "stp discovery controller \<Rightarrow> Link list" where
  "links_of c = map fst (dc_adjacency (ct_app c))"

text \<open>Only the remembered port states and the dirty switches differ.\<close>

definition stp_frame :: "stp discovery controller \<Rightarrow> stp discovery controller \<Rightarrow> bool" where
  "stp_frame c c' \<longleftrightarrow> same_net c c' \<and> dc_adjacency (ct_app c') = dc_adjacency (ct_app c) \<and>
     st_hold_down (dc_rest (ct_app c')) = st_hold_down (dc_rest (ct_app c))"

lemma stp_frame_refl [simp]: "stp_frame c c"
  by (simp add: stp_frame_def same_net_def)

lemma stp_frame_trans: "stp_frame a b \<Longrightarrow> stp_frame b c \<Longrightarrow> stp_frame a c"
  by (simp add: stp_frame_def same_net_def)

lemma stp_frame_calm: "stp_frame c c' \<Longrightarrow> calm c' = calm c"
  by (simp add: stp_frame_def same_net_calm)

text \<open>The port states after some ports of a switch were told.\<close>

definition told_ports :: "int \<Rightarrow> (int \<times> cell) list \<Rightarrow> int set \<Rightarrow> stp discovery controller \<Rightarrow> int option \<times> int \<Rightarrow> bool option" where
  "told_ports sw ports ns c = (\<lambda>(d, n).
     if d = Some sw \<and> n \<in> ns \<and> n < OFPP_MAX then Some (wants_flood (links_of c) sw ports n) else prev_of c (d, n))"

lemma push_port_effect:
  assumes "calm c" "push_port sw cid ports p c = (r, c')"
  shows "stp_frame c c'" "r = Inr () \<Longrightarrow> prev_of c' = told_ports sw ports {pp_port_no p} c"
proof -
  let ?n = "pp_port_no p"
  let ?f = "wants_flood (links_of c) sw ports ?n"
  have "stp_frame c c' \<and> (r = Inr () \<longrightarrow> prev_of c' = told_ports sw ports {?n} c)"
  proof (cases "?n < OFPP_MAX \<and> prev_of c (Some sw, ?n) \<noteq> Some ?f")
    case False
    then have "push_port sw cid ports p c = (Inr (), c)"
      by (auto simp: push_port_def stp_simps prev_of_def links_of_def)
    moreover have "told_ports sw ports {?n} c = prev_of c" using False by (auto simp: told_ports_def)
    ultimately show ?thesis using assms(2) by simp
  next
    case True
    define c1 where "c1 = snd (set_prev (Some sw) ?n ?f c)"
    have 1: "stp_frame c c1" "prev_of c1 = told_ports sw ports {?n} c" "set_prev (Some sw) ?n ?f c = (Inr (), c1)"
      using True by (auto simp: c1_def stp_simps stp_frame_def same_net_def prev_of_def update_conv' told_ports_def fun_eq_iff)
    obtain r2 c2 where 2: "con_send cid (flood_mod p ?f) c1 = (r2, c2)" by fastforce
    have "calm c1" using 1(1) assms(1) stp_frame_calm by blast
    then have s: "stp_frame c1 c2" "ct_app c2 = ct_app c1"
      using con_send_calm [of c1 cid "flood_mod p ?f"] 2 by (simp_all add: stp_frame_def)
    have i: "stp_frame d (snd (invalidate_ports k d))" "prev_of (snd (invalidate_ports k d)) = prev_of d" for k d
      by (simp_all add: stp_simps stp_frame_def same_net_def prev_of_def)
    have "push_port sw cid ports p c = (case r2 of Inl e \<Rightarrow> (Inl e, c2) | Inr _ \<Rightarrow> invalidate_ports (cx_dpid (ct_conns c2 cid)) c2)"
      using True 1(3) 2
      by (auto simp: push_port_def sbind_def get_disc_def get_stp_def gets_def get_conn_def prev_of_def links_of_def split: sum.split)
    then have "c' = (if isl r2 then c2 else snd (invalidate_ports (cx_dpid (ct_conns c2 cid)) c2))"
      using assms(2) by (cases r2) (simp_all, metis snd_conv)
    moreover have "prev_of c2 = prev_of c1" using s(2) by (simp add: prev_of_def)
    ultimately show ?thesis using 1(1,2) s(1) i [where d = c2] stp_frame_trans by (metis (full_types))
  qed
  then show "stp_frame c c'" "r = Inr () \<Longrightarrow> prev_of c' = told_ports sw ports {?n} c" by blast+
qed

lemma push_ports_effect:
  assumes "calm c" "for_each (push_port sw cid ports) ps c = (r, c')"
  shows "stp_frame c c' \<and> (r = Inr () \<longrightarrow> prev_of c' = told_ports sw ports (pp_port_no ` set ps) c)"
  using assms
proof (induction ps arbitrary: c)
  case Nil
  then show ?case by (auto simp: ret_def told_ports_def)
next
  case (Cons p ps)
  obtain r1 c1 where 1: "push_port sw cid ports p c = (r1, c1)" by fastforce
  note e = push_port_effect [OF Cons.prems(1) this]
  have calm: "calm c1" using e(1) Cons.prems(1) stp_frame_calm by blast
  show ?case
  proof (cases r1)
    case (Inr u)
    then have "for_each (push_port sw cid ports) ps c1 = (r, c')" using Cons.prems(2) 1 by (simp add: sbind_def)
    note ih = Cons.IH [OF calm this]
    have "links_of c1 = links_of c" using e(1) by (simp add: stp_frame_def links_of_def)
    then have "told_ports sw ports (pp_port_no ` set ps) c1 = told_ports sw ports (pp_port_no ` set (p # ps)) c"
      using e(2) Inr by (auto simp: told_ports_def fun_eq_iff)
    then show ?thesis using ih e(1) stp_frame_trans by metis
  qed (use Cons.prems(2) 1 e in \<open>auto simp: sbind_def\<close>)
qed

text \<open>The ports of a switch that can be told: those of its connection, when the handshake is over.\<close>

definition up_ports :: "int \<Rightarrow> 'a controller \<Rightarrow> int set" where
  "up_ports sw c =
     (case getConnection sw c of
        None \<Rightarrow> {}
      | Some cid \<Rightarrow> if cx_connect_time (ct_conns c cid) = None then {} else set (pc_keys (cx_ports (ct_conns c cid))))"

lemma port_numbers: "pc_values pc = Inr ps \<Longrightarrow> pp_port_no ` set ps = set (pc_keys pc)"
proof -
  assume "pc_values pc = Inr ps"
  then have "ps = map (\<lambda>k. the (port_map pc k)) (pc_keys pc)" by (simp add: values_eq)
  moreover have "pp_port_no (the (port_map pc k)) = k" if "k \<in> set (pc_keys pc)" for k
  proof -
    have "k \<in> dom (port_map pc)" using that by (simp add: dom_port_map)
    then show ?thesis by (auto dest: port_map_no)
  qed
  ultimately show ?thesis by force
qed

lemma told_none [simp]: "told_ports sw ports {} c = prev_of c"
  by (auto simp: told_ports_def)

lemma push_switch_effect:
  assumes "calm c" "\<not> st_hold_down (dc_rest (ct_app c))" "push_switch force (sw, ports) c = (r, c')"
  shows "stp_frame c c' \<and> (r = Inr () \<longrightarrow> prev_of c' = told_ports sw ports (up_ports sw c) c)"
proof (cases "getConnection sw c")
  case (Some cid)
  show ?thesis
  proof (cases "cx_connect_time (ct_conns c cid)")
    case (Some t)
    obtain ps where ps: "pc_values (cx_ports (ct_conns c cid)) = Inr ps" by (simp add: values_eq)
    then have "for_each (push_port sw cid ports) ps c = (r, c')"
      using assms(2,3) Some \<open>getConnection sw c = Some cid\<close> by (simp add: push_switch_def stp_simps lift_def)
    then show ?thesis using push_ports_effect [OF assms(1)] port_numbers [OF ps] Some \<open>getConnection sw c = Some cid\<close>
      by (simp add: up_ports_def)
  qed (use assms(3) Some in \<open>auto simp: push_switch_def stp_simps up_ports_def\<close>)
qed (use assms(3) in \<open>auto simp: push_switch_def stp_simps up_ports_def\<close>)

definition in_sync :: "tree \<Rightarrow> stp discovery controller \<Rightarrow> bool" where
  "in_sync tree c \<longleftrightarrow> (\<forall>(sw, ports) \<in> set tree. \<forall>n \<in> up_ports sw c. n < OFPP_MAX \<longrightarrow>
     prev_of c (Some sw, n) = Some (wants_flood (links_of c) sw ports n))"

lemma frame_facts: "stp_frame c c' \<Longrightarrow> up_ports sw c' = up_ports sw c \<and> links_of c' = links_of c"
  by (auto simp: stp_frame_def same_net_def up_ports_def links_of_def getConnection_def split: option.split)

lemma push_tree_effect:
  assumes "calm c" "\<not> st_hold_down (dc_rest (ct_app c))" "distinct (map fst tree)" "for_each (push_switch force) tree c = (r, c')"
  shows "stp_frame c c' \<and> (r = Inr () \<longrightarrow> in_sync tree c' \<and> (\<forall>k. fst k \<notin> Some ` fst ` set tree \<longrightarrow> prev_of c' k = prev_of c k))"
  using assms
proof (induction tree arbitrary: c)
  case Nil
  then show ?case by (auto simp: ret_def in_sync_def)
next
  case (Cons x tree)
  obtain sw ports where x: "x = (sw, ports)" by fastforce
  obtain r1 c1 where 1: "push_switch force (sw, ports) c = (r1, c1)" by fastforce
  note e = push_switch_effect [OF Cons.prems(1,2) this]
  have h: "calm c1" "\<not> st_hold_down (dc_rest (ct_app c1))" using e Cons.prems(1,2) stp_frame_calm by (auto simp: stp_frame_def)
  show ?case
  proof (cases r1)
    case (Inr u)
    then have "for_each (push_switch force) tree c1 = (r, c')" using Cons.prems(4) 1 x by (simp add: sbind_def)
    note ih = Cons.IH [OF h _ this]
    have d: "distinct (map fst tree)" "sw \<notin> fst ` set tree" using Cons.prems(3) x by auto
    have f: "stp_frame c c'" "up_ports sw c' = up_ports sw c" "links_of c' = links_of c"
      using ih [OF d(1)] e stp_frame_trans frame_facts by blast+
    show ?thesis
    proof (intro conjI impI)
      assume ok: "r = Inr ()"
      then have i: "in_sync tree c'" "\<And>k. fst k \<notin> Some ` fst ` set tree \<Longrightarrow> prev_of c' k = prev_of c1 k" using ih [OF d(1)] by auto
      have p: "prev_of c1 = told_ports sw ports (up_ports sw c) c" using e Inr by simp
      have "prev_of c' (Some sw, n) = prev_of c1 (Some sw, n)" for n
        by (rule i(2)) (use d(2) in auto)
      then show "in_sync (x # tree) c'" using i(1) p f(2,3) by (auto simp: in_sync_def x told_ports_def)
      show "\<forall>k. fst k \<notin> Some ` fst ` set (x # tree) \<longrightarrow> prev_of c' k = prev_of c k"
        using i(2) p by (auto simp: x told_ports_def)
    qed (rule f)
  qed (use Cons.prems(4) 1 e x in \<open>auto simp: sbind_def\<close>)
qed

text \<open>The keys of the tree are distinct.\<close>

lemma visit_distinct: "distinct (map fst tree) \<Longrightarrow> distinct (map fst (fst (visit adj v ws (tree, fresh))))"
proof (induction ws arbitrary: tree fresh)
  case (Cons x ws)
  then show ?case by (cases x) (simp add: tree_add_def distinct_update)
qed simp

lemma search_distinct: "distinct (map fst tree) \<Longrightarrow> distinct (map fst (search adj q fresh seen tree))"
proof (induction adj q fresh seen tree rule: search.induct)
  case (1 adj q fresh seen tree)
  have "visit adj v (adj_row adj v) (tree, []) = (t, f) \<Longrightarrow> distinct (map fst t)" for v t f
    using visit_distinct [OF 1(3), of adj v "adj_row adj v" "[]"] by simp
  then show ?case using 1 by (subst search.simps) (auto split: list.split prod.split)
qed

lemma tree_distinct: "calc_spanning_tree iter L = Inr tree \<Longrightarrow> distinct (map fst tree)"
  by (auto simp: calc_spanning_tree_def rbind_Inr_iff search_distinct split: prod.splits)

section \<open>What an update sends\<close>

text \<open>A port modification on the wire: the no-flood bit is 16, in the mask, and in the configuration unless the port floods.\<close>

definition port_mod_bytes :: "int \<Rightarrow> ofp_phy_port \<Rightarrow> bool \<Rightarrow> bytes" where
  "port_mod_bytes xid p flood =
     [1, 15, 0, 32] @ int_to_be 4 xid @ int_to_be 2 (pp_port_no p) @ eth_toRaw (pp_hw_addr p) @
     int_to_be 4 (if flood then 0 else 16) @ [0, 0, 0, 16] @ [0, 0, 0, 0] @ [0, 0, 0, 0]"

definition port_fits :: "ofp_phy_port \<Rightarrow> bool" where
  "port_fits p \<longleftrightarrow> 0 \<le> pp_port_no p \<and> eth_wf (pp_hw_addr p)"

lemma flood_mod_packs:
  assumes "xid_ok g" "port_fits p" "pp_port_no p < OFPP_MAX"
  shows "\<exists>m' x g'. message_pack g (flood_mod p flood) = Inr (port_mod_bytes x p flood, m', g') \<and> xid_ok g'"
proof -
  define m where "m = ofp_port_mod_init\<lparr>pm_port_no := pp_port_no p, pm_hw_addr := pp_hw_addr p,
     pm_config := (if flood then 0 else OFPPC_NO_FLOOD), pm_mask := OFPPC_NO_FLOOD\<rparr>"
  have "hdr_xid m = None" by (simp add: m_def ofp_port_mod_init_def)
  then obtain x g' where x: "ofp_header_xid g m = (x, m\<lparr>hdr_xid := Some x\<rparr>, g')" "xid_ok g'" "0 \<le> x" "x < 4294967296"
    using header_xid_drawn [OF assms(1)] by metis
  have f: "hdr_version m = 1" "hdr_type m = 15" "pm_port_no m = pp_port_no p" "pm_hw_addr m = pp_hw_addr p" "pm_mask m = 16"
    "pm_config m = (if flood then 0 else 16)" "pm_advertise m = 0" "ofp_port_mod_validate m" "ofp_port_mod_len m = 32"
    by (simp_all add: m_def ofp_port_mod_init_def OFP_VERSION_def OFPPC_NO_FLOOD_def ofp_port_mod_validate_def eth_len_def ofp_port_mod_len_def)
  have c: "int_to_be 4 16 = [0, 0, 0, 16]" "int_to_be 4 0 = [0, 0, 0, 0]" "pad 4 = [0, 0, 0, 0]" "int_to_be 1 1 = [1]" "int_to_be 1 15 = [15]"
    "int_to_be 2 32 = [0, 32]"
    by code_simp+
  have "ofp_port_mod_pack g m = Inr (port_mod_bytes x p flood, m\<lparr>hdr_xid := Some x\<rparr>, g')"
    using x assms(2,3)
    by (simp add: ofp_port_mod_pack_def ofp_header_pack_def f struct_pack_def port_fits_def OFPP_MAX_def struct_bytes.simps port_mod_bytes_def c)
  then show ?thesis using x(2) by (auto simp: flood_mod_def m_def [symmetric])
qed

text \<open>Whether a port should flood: it is on the tree, or no known link has an end there.\<close>

definition should_flood :: "stp discovery controller \<Rightarrow> int \<Rightarrow> (int \<times> cell) list \<Rightarrow> int \<Rightarrow> bool" where
  "should_flood c sw ports n \<longleftrightarrow> (\<exists>w. (w, Port n) \<in> set ports) \<or>
     (\<forall>l\<in>set (links_of c). (dpid1 l, port1 l) \<noteq> (sw, n) \<and> (dpid2 l, port2 l) \<noteq> (sw, n))"

lemma should_flood_wants: "should_flood c sw ports n = wants_flood (links_of c) sw ports n"
  by (force simp: should_flood_def wants_flood_def is_edge_port_def list_all_iff)

definition con_ports :: "'a controller \<Rightarrow> nat \<Rightarrow> ofp_phy_port list" where
  "con_ports c cid = map (\<lambda>k. the (port_map (cx_ports (ct_conns c cid)) k)) (pc_keys (cx_ports (ct_conns c cid)))"

lemma con_ports_distinct: "distinct (map pp_port_no (con_ports c cid))"
proof -
  have "pp_port_no (the (port_map pc k)) = k" if "k \<in> set (pc_keys pc)" for pc k
    using that port_map_no [of pc k] by (auto simp: dom_port_map [symmetric])
  then have "map pp_port_no (con_ports c cid) = pc_keys (cx_ports (ct_conns c cid))"
    by (simp add: con_ports_def map_idI)
  then show ?thesis by (simp add: distinct_keys)
qed

text \<open>The messages for the ports of one switch: those that were last told otherwise, or nothing.\<close>

definition changes :: "stp discovery controller \<Rightarrow> int \<Rightarrow> (int \<times> cell) list \<Rightarrow> ofp_phy_port list \<Rightarrow> (ofp_phy_port \<times> bool) list" where
  "changes c sw ports ps = map (\<lambda>p. (p, should_flood c sw ports (pp_port_no p)))
     (filter (\<lambda>p. pp_port_no p < OFPP_MAX \<and> prev_of c (Some sw, pp_port_no p) \<noteq> Some (should_flood c sw ports (pp_port_no p))) ps)"

definition told :: "nat \<Rightarrow> (ofp_phy_port \<times> bool) list \<Rightarrow> (nat \<times> bytes) list \<Rightarrow> bool" where
  "told cid ch out \<longleftrightarrow> list_all2 (\<lambda>(p, flood) e. \<exists>xid. e = (cid, port_mod_bytes xid p flood)) ch out"

lemma push_port_sends:
  assumes "calm c" "xid_ok (ct_xid c)" "\<not> cx_disconnected (ct_conns c cid)" "port_fits p"
  shows "\<exists>c' out. push_port sw cid ports p c = (Inr (), c') \<and> submissions c' = submissions c @ out \<and>
    told cid (changes c sw ports [p]) out \<and> xid_ok (ct_xid c')"
proof (cases "pp_port_no p < OFPP_MAX \<and> prev_of c (Some sw, pp_port_no p) \<noteq> Some (wants_flood (links_of c) sw ports (pp_port_no p))")
  case False
  then have "push_port sw cid ports p c = (Inr (), c)" by (auto simp: push_port_def stp_simps prev_of_def links_of_def)
  moreover have "changes c sw ports [p] = []" using False by (auto simp: changes_def should_flood_wants)
  ultimately show ?thesis using assms(2) by (simp add: told_def)
next
  case True
  let ?f = "wants_flood (links_of c) sw ports (pp_port_no p)"
  define c1 where "c1 = snd (set_prev (Some sw) (pp_port_no p) ?f c)"
  have 1: "set_prev (Some sw) (pp_port_no p) ?f c = (Inr (), c1)" "submissions c1 = submissions c" "ct_xid c1 = ct_xid c"
    "\<not> cx_disconnected (ct_conns c1 cid)"
    using assms(3) by (simp_all add: c1_def stp_simps submissions_def)
  obtain m' x g where m: "message_pack (ct_xid c1) (flood_mod p ?f) = Inr (port_mod_bytes x p ?f, m', g)" "xid_ok g"
    using flood_mod_packs [OF assms(2,4)] True 1(3) by metis
  obtain c2 where 2: "con_send cid (flood_mod p ?f) c1 = (Inr m', c2)" "submissions c2 = submissions c1 @ [(cid, port_mod_bytes x p ?f)]"
    "ct_xid c2 = g"
    using con_send_submits [OF 1(4) m(1)] by blast
  obtain c3 where 3: "invalidate_ports (cx_dpid (ct_conns c2 cid)) c2 = (Inr (), c3)" "submissions c3 = submissions c2" "ct_xid c3 = ct_xid c2"
    by (simp add: stp_simps submissions_def)
  have "push_port sw cid ports p c = (Inr (), c3)"
    using True 1(1) 2(1) 3(1)
    by (auto simp: push_port_def sbind_def get_disc_def get_stp_def gets_def get_conn_def prev_of_def links_of_def)
  moreover have "changes c sw ports [p] = [(p, ?f)]" using True by (simp add: changes_def should_flood_wants)
  ultimately show ?thesis using 1(2) 2(2,3) 3(2,3) m(2) by (auto simp: told_def)
qed

lemma changes_cong: "links_of c' = links_of c \<Longrightarrow> (\<And>p. p \<in> set ps \<Longrightarrow> prev_of c' (Some sw, pp_port_no p) = prev_of c (Some sw, pp_port_no p)) \<Longrightarrow>
  changes c' sw ports ps = changes c sw ports ps"
  by (simp add: changes_def should_flood_wants cong: filter_cong)

lemma changes_Cons: "changes c sw ports (p # ps) = changes c sw ports [p] @ changes c sw ports ps"
  by (simp add: changes_def)

lemma told_append: "told cid ch out \<Longrightarrow> told cid ch' out' \<Longrightarrow> told cid (ch @ ch') (out @ out')"
  by (simp add: told_def list_all2_appendI)

lemma push_ports_sends:
  assumes "calm c" "xid_ok (ct_xid c)" "\<not> cx_disconnected (ct_conns c cid)" "\<forall>p\<in>set ps. port_fits p" "distinct (map pp_port_no ps)"
  shows "\<exists>c' out. for_each (push_port sw cid ports) ps c = (Inr (), c') \<and> submissions c' = submissions c @ out \<and>
    told cid (changes c sw ports ps) out \<and> xid_ok (ct_xid c')"
  using assms
proof (induction ps arbitrary: c)
  case (Cons p ps)
  obtain c1 out1 where 1: "push_port sw cid ports p c = (Inr (), c1)" "submissions c1 = submissions c @ out1"
    "told cid (changes c sw ports [p]) out1" "xid_ok (ct_xid c1)"
    using push_port_sends [OF Cons.prems(1-3), of p sw ports] Cons.prems(4) by auto
  note e = push_port_effect [OF Cons.prems(1) 1(1)]
  have c1: "calm c1" "\<not> cx_disconnected (ct_conns c1 cid)" "links_of c1 = links_of c"
    using stp_frame_calm [OF e(1)] frame_facts [OF e(1)] Cons.prems(1,3) e(1) by (simp_all add: stp_frame_def same_net_def)
  obtain c2 out2 where 2: "for_each (push_port sw cid ports) ps c1 = (Inr (), c2)" "submissions c2 = submissions c1 @ out2"
    "told cid (changes c1 sw ports ps) out2" "xid_ok (ct_xid c2)"
    using Cons.IH [OF c1(1) 1(4) c1(2)] Cons.prems(4,5) by auto
  have "changes c1 sw ports ps = changes c sw ports ps"
  proof (rule changes_cong [OF c1(3)])
    fix q assume "q \<in> set ps"
    then have "pp_port_no q \<noteq> pp_port_no p" using Cons.prems(5) by (auto simp: image_iff)
    then show "prev_of c1 (Some sw, pp_port_no q) = prev_of c (Some sw, pp_port_no q)" using e(2) by (simp add: told_ports_def)
  qed
  then show ?case using 1 2 told_append [OF 1(3), of "changes c sw ports ps" out2] changes_Cons [of c sw ports p ps]
    by (auto simp: sbind_def)
qed (simp add: ret_def told_def changes_def)

text \<open>A switch whose connection, if it has one, is alive, with ports that have proper numbers and addresses.\<close>

definition tellable :: "int \<Rightarrow> 'a controller \<Rightarrow> bool" where
  "tellable sw c \<longleftrightarrow> (case getConnection sw c of
     None \<Rightarrow> True
   | Some cid \<Rightarrow> \<not> cx_disconnected (ct_conns c cid) \<and> list_all port_fits (con_ports c cid))"

text \<open>The messages of one switch, over its connection, once its handshake is over.\<close>

definition switch_told :: "stp discovery controller \<Rightarrow> int \<times> (int \<times> cell) list \<Rightarrow> (nat \<times> bytes) list \<Rightarrow> bool" where
  "switch_told c = (\<lambda>(sw, ports) out.
     case getConnection sw c of
       None \<Rightarrow> out = []
     | Some cid \<Rightarrow> if cx_connect_time (ct_conns c cid) = None then out = [] else told cid (changes c sw ports (con_ports c cid)) out)"

lemma push_switch_sends:
  assumes "calm c" "\<not> st_hold_down (dc_rest (ct_app c))" "xid_ok (ct_xid c)" "tellable sw c"
  shows "\<exists>c' out. push_switch force (sw, ports) c = (Inr (), c') \<and> submissions c' = submissions c @ out \<and>
    switch_told c (sw, ports) out \<and> xid_ok (ct_xid c')"
proof (cases "getConnection sw c")
  case (Some cid)
  show ?thesis
  proof (cases "cx_connect_time (ct_conns c cid)")
    case (Some t)
    have "push_switch force (sw, ports) c = for_each (push_port sw cid ports) (con_ports c cid) c"
      using assms(2) Some \<open>getConnection sw c = Some cid\<close>
      by (simp add: push_switch_def stp_simps lift_def values_eq con_ports_def)
    then show ?thesis
      using push_ports_sends [where ps = "con_ports c cid" and cid = cid, OF assms(1,3) _ _ con_ports_distinct] assms(4) Some \<open>getConnection sw c = Some cid\<close>
      by (simp add: tellable_def switch_told_def list_all_iff)
  qed (use assms(3) Some in \<open>simp add: push_switch_def stp_simps switch_told_def\<close>)
qed (use assms(3) in \<open>simp add: push_switch_def stp_simps switch_told_def\<close>)

lemma frame_switch:
  assumes "stp_frame c c'"
  shows "tellable sw c' = tellable sw c"
    "(\<And>n. prev_of c' (Some sw, n) = prev_of c (Some sw, n)) \<Longrightarrow> switch_told c' (sw, ports) out = switch_told c (sw, ports) out"
proof -
  have c: "ct_conns c' = ct_conns c" "getConnection sw c' = getConnection sw c" "links_of c' = links_of c"
    using frame_facts [OF assms] assms by (simp_all only: stp_frame_def same_net_def getConnection_def)
  then show "tellable sw c' = tellable sw c" by (auto simp: tellable_def con_ports_def split: option.split)
  assume "\<And>n. prev_of c' (Some sw, n) = prev_of c (Some sw, n)"
  then have "changes c' sw ports ps = changes c sw ports ps" for ps using c(3) by (intro changes_cong) simp_all
  then show "switch_told c' (sw, ports) out = switch_told c (sw, ports) out" using c by (auto simp: switch_told_def con_ports_def split: option.split)
qed

lemma push_tree_sends:
  assumes "calm c" "\<not> st_hold_down (dc_rest (ct_app c))" "xid_ok (ct_xid c)" "distinct (map fst tree)" "\<forall>sw\<in>fst ` set tree. tellable sw c"
  shows "\<exists>c' outs. for_each (push_switch force) tree c = (Inr (), c') \<and> submissions c' = submissions c @ concat outs \<and>
    list_all2 (switch_told c) tree outs"
  using assms
proof (induction tree arbitrary: c)
  case (Cons x tree)
  obtain sw ports where x: "x = (sw, ports)" by fastforce
  obtain c1 out where 1: "push_switch force (sw, ports) c = (Inr (), c1)" "submissions c1 = submissions c @ out"
    "switch_told c (sw, ports) out" "xid_ok (ct_xid c1)"
    using push_switch_sends [OF Cons.prems(1-3), of sw force ports] Cons.prems(5) x by auto
  note e = push_switch_effect [OF Cons.prems(1,2) 1(1)]
  then have f: "stp_frame c c1" by blast
  have c1: "calm c1" "\<not> st_hold_down (dc_rest (ct_app c1))" using f Cons.prems(1,2) stp_frame_calm by (auto simp: stp_frame_def)
  obtain c2 outs where 2: "for_each (push_switch force) tree c1 = (Inr (), c2)" "submissions c2 = submissions c1 @ concat outs"
    "list_all2 (switch_told c1) tree outs"
    using Cons.IH [OF c1 1(4)] Cons.prems(4,5) frame_switch(1) [OF f] by auto
  have "switch_told c1 y out' = switch_told c y out'" if y: "y \<in> set tree" for y out'
  proof -
    obtain sw' ports' where [simp]: "y = (sw', ports')" by fastforce
    have "sw' \<noteq> sw" using y Cons.prems(4) x by force
    then show ?thesis using frame_switch(2) [OF f] e by (simp add: told_ports_def)
  qed
  then have "list_all2 (switch_told c) tree outs" using 2(3) by (metis list_all2_mono list_all2_conv_all_nth nth_mem)
  then show ?case using 1 2 x by (auto simp: sbind_def intro!: exI [of _ "out # outs"])
qed (simp add: ret_def)

text \<open>
  C5. Flooding follows the tree. When the tree can be computed, no socket fails, there is no hold-down, xids fit 32 bits, and the
  switches on the tree that are connected have live connections and ports with proper numbers and addresses, then an update
  returns, and what it sends are, switch by switch in the order of the tree, the port modifications for those ports that were not
  last told so already, each over the connection of its switch: with the no-flood bit cleared if the port is on the tree or no
  known link has an end there, and set otherwise. Afterwards every such port is remembered with what it was told.
\<close>

theorem flooding_follows_tree:
  assumes "calm c" "\<not> st_hold_down (dc_rest (ct_app c))" "calc_spanning_tree iter (links_of c) = Inr tree"
    "xid_ok (ct_xid c)" "\<forall>sw\<in>fst ` set tree. tellable sw c"
  shows "\<exists>c' outs. update_tree iter force c = (Inr (), c') \<and>
    submissions c' = submissions c @ concat outs \<and> list_all2 (switch_told c) tree outs \<and>
    (\<forall>sw ports n. (sw, ports) \<in> set tree \<and> n \<in> up_ports sw c \<and> n < OFPP_MAX \<longrightarrow>
       prev_of c' (Some sw, n) = Some (should_flood c sw ports n))"
proof -
  note d = tree_distinct [OF assms(3)]
  obtain c' outs where p: "for_each (push_switch force) tree c = (Inr (), c')" "submissions c' = submissions c @ concat outs"
    "list_all2 (switch_told c) tree outs"
    using push_tree_sends [OF assms(1,2,4) d assms(5)] by blast
  note e = push_tree_effect [OF assms(1,2) d p(1)]
  have "update_tree iter force c = (Inr (), c')"
    using assms(3) p by (simp add: update_tree_def stp_simps lift_def try_catch_def links_of_def)
  moreover have "in_sync tree c'" "up_ports sw c' = up_ports sw c" "links_of c' = links_of c" for sw using e frame_facts by auto
  then have "prev_of c' (Some sw, n) = Some (should_flood c sw ports n)"
    if "(sw, ports) \<in> set tree" "n \<in> up_ports sw c" "n < OFPP_MAX" for sw ports n
    using that by (auto simp: in_sync_def should_flood_wants)
  ultimately show ?thesis using p by blast
qed

text \<open>Updating again changes nothing and sends nothing.\<close>

lemma push_port_synced:
  "(pp_port_no p < OFPP_MAX \<Longrightarrow> prev_of c (Some sw, pp_port_no p) = Some (wants_flood (links_of c) sw ports (pp_port_no p))) \<Longrightarrow>
   push_port sw cid ports p c = (Inr (), c)"
  by (auto simp: push_port_def stp_simps prev_of_def links_of_def)

lemma push_ports_synced:
  "(\<And>n. n \<in> pp_port_no ` set ps \<Longrightarrow> n < OFPP_MAX \<Longrightarrow> prev_of c (Some sw, n) = Some (wants_flood (links_of c) sw ports n)) \<Longrightarrow>
   for_each (push_port sw cid ports) ps c = (Inr (), c)"
proof (induction ps)
  case (Cons p ps)
  have "push_port sw cid ports p c = (Inr (), c)" by (rule push_port_synced) (simp add: Cons.prems)
  then show ?case using Cons by (simp add: sbind_def)
qed (simp add: ret_def)

lemma push_switch_synced:
  assumes "\<And>n. n \<in> up_ports sw c \<Longrightarrow> n < OFPP_MAX \<Longrightarrow> prev_of c (Some sw, n) = Some (wants_flood (links_of c) sw ports n)"
  shows "push_switch force (sw, ports) c = (Inr (), c)"
proof -
  have "for_each (push_port sw cid ports) ps c = (Inr (), c)"
    if "getConnection sw c = Some cid" "cx_connect_time (ct_conns c cid) \<noteq> None" "pc_values (cx_ports (ct_conns c cid)) = Inr ps" for cid ps
    using that assms port_numbers [OF that(3)] by (intro push_ports_synced) (simp add: up_ports_def)
  then show ?thesis
    by (auto simp: push_switch_def stp_simps lift_def values_eq split: option.split)
qed

lemma update_tree_synced:
  assumes "calc_spanning_tree iter (links_of c) = Inr tree" "in_sync tree c"
  shows "update_tree iter force c = (Inr (), c)"
proof -
  have "for_each (push_switch force) xs c = (Inr (), c)" if "set xs \<subseteq> set tree" for xs
    using that
  proof (induction xs)
    case (Cons x xs)
    then have "push_switch force (fst x, snd x) c = (Inr (), c)" using assms(2) by (intro push_switch_synced) (auto simp: in_sync_def)
    then show ?case using Cons by (simp add: sbind_def)
  qed (simp add: ret_def)
  then show ?thesis using assms(1) by (simp add: update_tree_def stp_simps lift_def try_catch_def links_of_def)
qed

section \<open>Links that go down\<close>

text \<open>The component is a listener that leaves the links alone.\<close>

lemma keeps_stp_upd [keeps_intro]: "keeps (\<lambda>c. P (dc_adjacency (ct_app c)) (dc_events (ct_app c))) (upd_stp f)"
  by (simp add: keeps_def stp_simps)

lemmas keeps_links_parts [keeps_intro] = keeps_app_send(1) [where P = "\<lambda>d. P (dc_adjacency d) (dc_events d)" for P]

lemma keeps_push_port: "keeps (\<lambda>c. P (dc_adjacency (ct_app c)) (dc_events (ct_app c))) (push_port sw cid ports p)"
  unfolding push_port_def set_prev_def invalidate_ports_def get_stp_def by (intro keeps_intro)

lemma keeps_push_switch: "keeps (\<lambda>c. P (dc_adjacency (ct_app c)) (dc_events (ct_app c))) (push_switch force x)"
  unfolding push_switch_def by (intro keeps_intro keeps_push_port)

lemma keeps_try_catch [keeps_intro]: "keeps P m \<Longrightarrow> (\<And>e. keeps P (h e)) \<Longrightarrow> keeps P (try_catch m h)"
  by (auto simp: keeps_def try_catch_def split: prod.split sum.split)

lemma keeps_stp_LinkEvent: "keeps (\<lambda>c. P (dc_adjacency (ct_app c)) (dc_events (ct_app c))) (stp_LinkEvent iter link)"
  unfolding stp_LinkEvent_def update_tree_def get_stp_def by (intro keeps_intro keeps_push_switch)

interpretation stp: link_listener "stp_links iter" for iter
proof
  fix add l and c :: "stp discovery controller"
  show "dc_adjacency (ct_app (stp_links iter add l c)) = dc_adjacency (ct_app c)"
    unfolding stp_links_def using keepsD [OF keeps_stp_LinkEvent [of "\<lambda>a e. a = dc_adjacency (ct_app c)"]] by simp
  show "dc_events (ct_app (stp_links iter add l c)) = dc_events (ct_app c)"
    unfolding stp_links_def using keepsD [OF keeps_stp_LinkEvent [of "\<lambda>a e. e = dc_events (ct_app c)"]] by simp
qed

definition add_events :: "(bool \<times> Link) list \<Rightarrow> 'b discovery controller \<Rightarrow> 'b discovery controller" where
  "add_events es c = c\<lparr>ct_app := (ct_app c)\<lparr>dc_events := dc_events (ct_app c) @ es\<rparr>\<rparr>"

lemma add_events_facts [simp]:
  "links_of (add_events es c) = links_of c" "prev_of (add_events es c) = prev_of c" "up_ports sw (add_events es c) = up_ports sw c"
  "add_events fs (add_events es c) = add_events (es @ fs) c" "add_events [] c = c"
  by (auto simp: add_events_def links_of_def up_ports_def getConnection_def prev_of_def split: option.split)

lemma in_sync_events [simp]: "in_sync tree (add_events es c) = in_sync tree c"
  by (simp add: in_sync_def)

lemma removed_links_synced:
  assumes "calc_spanning_tree iter (links_of c) = Inr tree" "in_sync tree c"
  shows "for_each (raise_link (stp_links iter) False) ls c = (Inr (), add_events (map (Pair False) ls) c)"
  using assms
proof (induction ls arbitrary: c)
  case (Cons l ls)
  have "stp_LinkEvent iter l d = (Inr (), d)" if "calc_spanning_tree iter (links_of d) = Inr tree" "in_sync tree d" for d
    using update_tree_synced [OF that] by (simp add: stp_LinkEvent_def stp_simps)
  then have "stp_LinkEvent iter l (add_events [(False, l)] c) = (Inr (), add_events [(False, l)] c)" using Cons.prems by simp
  then have "raise_link (stp_links iter) False l c = (Inr (), add_events [(False, l)] c)"
    by (simp add: raise_link_def disc_simps stp_links_def add_events_def)
  then show ?case using Cons.IH [of "add_events [(False, l)] c"] Cons.prems by (simp add: sbind_def)
qed (simp add: ret_def)

text \<open>
  C31. A link that goes down does not reach the tree. Discovery raises the events of the links it removes before it removes
  them, so the tree is computed with these links still in place: when the ports were in step with the tree before, links
  expire without a single port being told anything, and the ports stay as the old links wanted them.
\<close>

theorem removed_link_ignored:
  fixes c :: "stp discovery controller"
  assumes "calc_spanning_tree iter (links_of c) = Inr tree" "in_sync tree c"
  defines "c' \<equiv> snd (expire_links (stp_links iter) c)"
  shows "ct_trace c' = ct_trace c \<and> prev_of c' = prev_of c"
proof -
  define ls where "ls = map fst (filter (\<lambda>(link, timestamp). timestamp + dc_link_timeout (ct_app c) * nsec < ct_now c) (dc_adjacency (ct_app c)))"
  have "c' = (if ls = [] then c else snd (delete_links (stp_links iter) ls c))"
    by (simp add: c'_def expire_links_def disc_simps ls_def)
  then show ?thesis using removed_links_synced [OF assms(1,2), of ls]
    by (simp add: delete_links_def disc_simps add_events_def prev_of_def)
qed

section \<open>A ring of three switches\<close>

text \<open>Three switches in a ring, connected, with the ports 1 and 2 each, and what they were told.\<close>

definition ring_links :: "Link list" where
  "ring_links = concat (map (\<lambda>l. [l, flip l]) [Link 1 1 2 1, Link 2 2 3 1, Link 3 2 1 2])"

definition ring_port :: "int \<Rightarrow> ofp_phy_port" where
  "ring_port n = ofp_phy_port_init\<lparr>pp_port_no := n, pp_hw_addr := EthAddr [2, 0, 0, 0, 0, word_of_int n]\<rparr>"

definition ring_ports :: PortCollection where
  "ring_ports = PortCollection [] [] (Some (PortCollection [ring_port 1, ring_port 2] [] None))"

definition ring :: "((int option \<times> int) \<times> bool) list \<Rightarrow> stp discovery controller" where
  "ring prev = \<lparr>ct_conns = (\<lambda>k. (connection_blank 0)\<lparr>cx_nexus := True, cx_dpid := Some (int k), cx_handlers := Established,
       cx_connect_time := Some 1, cx_ports := ring_ports\<rparr>),
     ct_ID = 3, ct_sockets = [1, 2, 3], ct_connections = [(Some 1, 1), (Some 2, 2), (Some 3, 3)], ct_data = [], ct_sending = False,
     ct_aborted = 0, ct_xid = xid_generator, ct_now = 20 * nsec, ct_miss_send_len = Some 128, ct_clear_flows = True,
     ct_request_description = False, ct_fallback_nexus = True, ct_pipe_buf = 512, ct_sock = (\<lambda>_ _ data. Took (length data)),
     ct_calls = 0, ct_trace = [], ct_app = (discovery_init 10 True True False (stp_init False False\<lparr>st_prev := prev\<rparr>))
       \<lparr>dc_adjacency := map (\<lambda>l. (l, if l \<in> {Link 1 1 2 1, Link 2 1 1 1} then nsec else 19 * nsec)) ring_links\<rparr>\<rparr>"

definition ring_told :: "((int option \<times> int) \<times> bool) list" where
  "ring_told = [((Some 1, 1), True), ((Some 1, 2), True), ((Some 2, 1), True), ((Some 2, 2), False), ((Some 3, 1), False), ((Some 3, 2), True)]"

lemma ring_tree:
  "calc_spanning_tree id ring_links = Inr [(1, [(3, Port 2), (2, Port 1)]), (2, [(1, Port 1)]), (3, [(1, Port 2)])]"
  by code_simp

lemma ring_links_of: "links_of (ring prev) = ring_links"
  by (simp add: ring_def links_of_def discovery_init_def comp_def)

text \<open>
  In the ring the ports of the link between 2 and 3 stop flooding; the ports of switch 3 know already.
\<close>

theorem flooding_follows_tree_witness:
  "\<exists>c' x1 x2 x3 x4. update_tree id None (ring [((Some 3, 1), False), ((Some 3, 2), True)]) = (Inr (), c') \<and>
     submissions c' =
       [(1, port_mod_bytes x1 (ring_port 1) True), (1, port_mod_bytes x2 (ring_port 2) True),
        (2, port_mod_bytes x3 (ring_port 1) True), (2, port_mod_bytes x4 (ring_port 2) False)] \<and>
     prev_of c' (Some 2, 2) = Some False"
proof -
  let ?c = "ring [((Some 3, 1), False), ((Some 3, 2), True)]"
  let ?t = "[(1, [(3, Port 2), (2, Port 1)]), (2, [(1, Port 1)]), (3, [(1, Port 2)])]"
  have "calm ?c" by (simp add: calm_def ring_def)
  moreover have "\<not> st_hold_down (dc_rest (ct_app ?c))" by (simp add: ring_def discovery_init_def stp_init_def)
  moreover have "xid_ok (ct_xid ?c)" using xid_ok_generator by (simp add: ring_def)
  moreover have "\<forall>sw\<in>fst ` set ?t. tellable sw ?c" by code_simp
  ultimately obtain c' outs where o: "update_tree id None ?c = (Inr (), c')" "submissions c' = submissions ?c @ concat outs"
    "list_all2 (switch_told ?c) ?t outs"
    "\<And>sw ports n. (sw, ports) \<in> set ?t \<Longrightarrow> n \<in> up_ports sw ?c \<Longrightarrow> n < OFPP_MAX \<Longrightarrow> prev_of c' (Some sw, n) = Some (should_flood ?c sw ports n)"
    using flooding_follows_tree [of ?c id ?t None] ring_tree unfolding ring_links_of by blast
  have "2 \<in> up_ports 2 ?c" "\<not> wants_flood ring_links 2 [(1, Port 1)] 2" by code_simp+
  then have "prev_of c' (Some 2, 2) = Some False" using o(4) [of 2 "[(1, Port 1)]" 2] by (simp add: should_flood_wants ring_links_of OFPP_MAX_def)
  moreover have "getConnection 1 ?c = Some 1" "getConnection 2 ?c = Some 2" "getConnection 3 ?c = Some 3" "submissions ?c = []"
    "cx_connect_time (ct_conns ?c k) = Some 1" for k
    by (simp_all add: ring_def getConnection_def submissions_def)
  moreover have "changes ?c 1 [(3, Port 2), (2, Port 1)] (con_ports ?c 1) = [(ring_port 1, True), (ring_port 2, True)]"
    "changes ?c 2 [(1, Port 1)] (con_ports ?c 2) = [(ring_port 1, True), (ring_port 2, False)]"
    "changes ?c 3 [(1, Port 2)] (con_ports ?c 3) = []"
    unfolding changes_def should_flood_wants by code_simp+
  ultimately show ?thesis using o(1-3) by (auto simp: list_all2_Cons1 switch_told_def told_def)
qed

theorem removed_link_ignored_witness:
  "(let c' = snd (expire_links (stp_links id) (ring ring_told)) in ct_trace c' = [] \<and> prev_of c' (Some 2, 2) = Some False \<and>
      prev_of c' (Some 3, 1) = Some False) \<and>
   calc_spanning_tree id (drop 2 ring_links) = Inr [(1, [(3, Port 2)]), (3, [(2, Port 1), (1, Port 2)]), (2, [(3, Port 2)])]"
proof -
  have "in_sync [(1, [(3, Port 2), (2, Port 1)]), (2, [(1, Port 1)]), (3, [(1, Port 2)])] (ring ring_told)" by code_simp
  moreover have "prev_of (ring ring_told) (Some 2, 2) = Some False" "prev_of (ring ring_told) (Some 3, 1) = Some False"
    "ct_trace (ring ring_told) = []" by code_simp+
  moreover have "calc_spanning_tree id (drop 2 ring_links) = Inr [(1, [(3, Port 2)]), (3, [(2, Port 1), (1, Port 2)]), (2, [(3, Port 2)])]"
    by code_simp
  ultimately show ?thesis using removed_link_ignored [of id "ring ring_told"] ring_tree unfolding ring_links_of Let_def by auto
qed

end
