(* ===== verification/Shortest_Paths.thy ===== *)
theory Shortest_Paths
  imports Pox_Prelude "HOL-Library.Extended_Nat" "HOL-Library.AList"
begin

text \<open>
  The paths of \<^verbatim>\<open>forwarding/l2_multi.py\<close>: \<^verbatim>\<open>_calc_paths\<close> fills the table \<^verbatim>\<open>path_map\<close> (Floyd and Warshall, in place,
  remembering the switch in between), \<^verbatim>\<open>_get_raw_path\<close> reads a path back, \<^verbatim>\<open>_get_path\<close> adds the ports.

  A switch object is its datapath id: there is one object for each id, and it is never replaced. The adjacency map
  yields None where there is no entry, as the two defaultdicts do. The path table is a dictionary of rows, since
  whether it is empty matters; a missing entry of a row is \<open>(None, None)\<close>. The fuel of \<open>raw_path\<close> is the
  recursion depth the interpreter allows.
\<close>

section \<open>The table\<close>

type_synonym adjacency = "int \<Rightarrow> int \<Rightarrow> int option"
type_synonym path_row = "int \<Rightarrow> (nat \<times> int option) option"
type_synonym path_map = "(int \<times> path_row) list"

definition pm_row :: "path_map \<Rightarrow> int \<Rightarrow> path_row" where
  "pm_row pm i = (case map_of pm i of None \<Rightarrow> (\<lambda>_. None) | Some r \<Rightarrow> r)"

definition pm_put :: "int \<Rightarrow> int \<Rightarrow> nat \<times> int option \<Rightarrow> path_map \<Rightarrow> path_map" where
  "pm_put i j v pm = AList.update i ((pm_row pm i)(j := Some v)) pm"

definition direct_paths :: "adjacency \<Rightarrow> int \<Rightarrow> path_map \<Rightarrow> path_map" where
  "direct_paths adj k pm =
     pm_put k k (0, None) (AList.update k (\<lambda>j. if adj k j = None then pm_row pm k j else Some (1, None)) pm)"

definition relax :: "int \<Rightarrow> int \<Rightarrow> int \<Rightarrow> path_map \<Rightarrow> path_map" where
  "relax k i j pm =
     (case pm_row pm i k of
        None \<Rightarrow> pm
      | Some (a, _) \<Rightarrow>
          (case pm_row pm k j of
             None \<Rightarrow> pm
           | Some (b, _) \<Rightarrow>
               (case pm_row pm i j of
                  None \<Rightarrow> pm_put i j (a + b, Some k) pm
                | Some (d, _) \<Rightarrow> if a + b < d then pm_put i j (a + b, Some k) pm else pm)))"

definition relax_row :: "int list \<Rightarrow> int \<Rightarrow> int \<Rightarrow> path_map \<Rightarrow> path_map" where
  "relax_row sws k i = fold (relax k i) sws"

definition relax_all :: "int list \<Rightarrow> int \<Rightarrow> path_map \<Rightarrow> path_map" where
  "relax_all sws k = fold (relax_row sws k) sws"

definition calc_paths :: "adjacency \<Rightarrow> int list \<Rightarrow> path_map" where
  "calc_paths adj sws = fold (relax_all sws) sws (fold (direct_paths adj) sws [])"

section \<open>Reading a path\<close>

fun raw_path :: "nat \<Rightarrow> path_map \<Rightarrow> int \<Rightarrow> int \<Rightarrow> int list option res" where
  "raw_path 0 pm src dst = Inl RuntimeError"
| "raw_path (Suc n) pm src dst =
     (if src = dst then Inr (Some [])
      else
        case pm_row pm src dst of
          None \<Rightarrow> Inr None
        | Some (_, None) \<Rightarrow> Inr (Some [])
        | Some (_, Some k) \<Rightarrow>
            rbind (raw_path n pm src k) (\<lambda>p.
            case p of
              None \<Rightarrow> Inl TypeError
            | Some p \<Rightarrow>
                rbind (raw_path n pm k dst) (\<lambda>q.
                case q of None \<Rightarrow> Inl TypeError | Some q \<Rightarrow> Inr (Some (p @ [k] @ q)))))"

type_synonym hop = "int \<times> int option \<times> int option"

text \<open>The loop that adds the ports; the last switch gets the final port.\<close>

fun add_ports :: "adjacency \<Rightarrow> int option \<Rightarrow> int list \<Rightarrow> int option \<Rightarrow> hop list" where
  "add_ports adj in_port (s1 # s2 # p) final = (s1, in_port, adj s1 s2) # add_ports adj (adj s2 s1) (s2 # p) final"
| "add_ports adj in_port [s] final = [(s, in_port, final)]"
| "add_ports adj in_port [] final = []"

fun check_path :: "adjacency \<Rightarrow> hop list \<Rightarrow> bool" where
  "check_path adj ((a, ai, ao) # (b, bi, bo) # p) \<longleftrightarrow>
     adj a b = ao \<and> adj b a = bi \<and> check_path adj ((b, bi, bo) # p)"
| "check_path adj p \<longleftrightarrow> True"

definition get_path ::
  "nat \<Rightarrow> adjacency \<Rightarrow> path_map \<Rightarrow> int \<Rightarrow> int \<Rightarrow> int option \<Rightarrow> int option \<Rightarrow> hop list option res"
where
  "get_path n adj pm src dst first final =
     rbind (if src = dst then Inr (Some [src])
            else rbind (raw_path n pm src dst) (\<lambda>p. Inr (map_option (\<lambda>p. [src] @ p @ [dst]) p))) (\<lambda>path.
     case path of
       None \<Rightarrow> Inr None
     | Some path \<Rightarrow>
         let r = add_ports adj first path final in if check_path adj r then Inr (Some r) else Inl AssertionError)"

section \<open>What a shortest path is\<close>

text \<open>\<open>walk adj n i j\<close>: \<open>n\<close> links lead from \<open>i\<close> to \<open>j\<close>.\<close>

inductive walk :: "adjacency \<Rightarrow> nat \<Rightarrow> int \<Rightarrow> int \<Rightarrow> bool" for adj where
  here: "walk adj 0 i i"
| link: "adj i k \<noteq> None \<Longrightarrow> walk adj n k j \<Longrightarrow> walk adj (Suc n) i j"

inductive_cases walk_cases: "walk adj n i j"
inductive_simps walk_0 [simp]: "walk adj 0 i j"

lemma walk_1: "adj i j \<noteq> None \<Longrightarrow> walk adj 1 i j"
  using walk.link [OF _ walk.here] by force

lemma walk_append: "walk adj a i k \<Longrightarrow> walk adj b k j \<Longrightarrow> walk adj (a + b) i j"
  by (induction rule: walk.induct) (auto intro: walk.intros)

text \<open>Every link is between switches of the list.\<close>

definition links_between :: "adjacency \<Rightarrow> int list \<Rightarrow> bool" where
  "links_between adj sws \<longleftrightarrow> (\<forall>i j. adj i j \<noteq> None \<longrightarrow> i \<in> set sws \<and> j \<in> set sws)"

lemma walk_between: "walk adj n i j \<Longrightarrow> links_between adj sws \<Longrightarrow> i = j \<and> n = 0 \<or> i \<in> set sws \<and> j \<in> set sws"
  by (induction rule: walk.induct) (auto simp: links_between_def)

section \<open>The table as a matrix\<close>

lemma pm_row_put: "pm_row (pm_put i j v pm) x y = (if x = i \<and> y = j then Some v else pm_row pm x y)"
  by (simp add: pm_put_def pm_row_def update_conv' split: option.split)

lemma pm_row_direct: "pm_row (direct_paths adj k pm) x y =
   (if x = k then (if y = k then Some (0, None) else if adj k y = None then pm_row pm k y else Some (1, None))
    else pm_row pm x y)"
  by (simp add: direct_paths_def pm_row_put) (simp add: pm_row_def update_conv')

lemma pm_row_Nil [simp]: "pm_row [] x y = None"
  by (simp add: pm_row_def)

lemma pm_row_start: "pm_row (fold (direct_paths adj) sws pm) x y =
   (if x \<in> set sws then (if x = y then Some (0, None) else if adj x y = None then pm_row pm x y else Some (1, None))
    else pm_row pm x y)"
  by (induction sws arbitrary: pm) (auto simp: pm_row_direct)

text \<open>What one round leaves in the table.\<close>

definition best :: "int \<Rightarrow> (int \<Rightarrow> path_row) \<Rightarrow> int \<Rightarrow> path_row" where
  "best k m i j =
     (case (m i k, m k j) of
        (Some (a, _), Some (b, _)) \<Rightarrow>
          (if (case m i j of None \<Rightarrow> True | Some (d, _) \<Rightarrow> a + b < d) then Some (a + b, Some k) else m i j)
      | _ \<Rightarrow> m i j)"

lemma best_via: "m k k = Some (0, x) \<Longrightarrow> best k m i k = m i k" "m k k = Some (0, x) \<Longrightarrow> best k m k j = m k j"
  by (auto simp: best_def split: option.split)

definition half_done :: "int \<Rightarrow> (int \<Rightarrow> path_row) \<Rightarrow> (int \<times> int) set \<Rightarrow> path_map \<Rightarrow> bool" where
  "half_done k m S pm \<longleftrightarrow> (\<forall>i j. pm_row pm i j = (if (i, j) \<in> S then best k m i j else m i j))"

lemma half_done_cross:
  assumes "half_done k m S pm" "m k k = Some (0, x)"
  shows "pm_row pm i k = m i k" "pm_row pm k j = m k j"
  using assms by (auto simp: half_done_def best_via [where m = m and k = k, OF assms(2)])

lemma pm_row_relax: "pm_row (relax k i j pm) u v = (if u = i \<and> v = j then best k (pm_row pm) i j else pm_row pm u v)"
  by (cases "pm_row pm i k"; cases "pm_row pm k j"; cases "pm_row pm i j") (auto simp: relax_def best_def pm_row_put)

lemma best_again:
  assumes "m' i k = m i k" "m' k j = m k j" "m' i j = m i j \<or> m' i j = best k m i j"
  shows "best k m' i j = best k m i j"
  using assms by (cases "m i k"; cases "m k j"; cases "m i j") (auto simp: best_def)

lemma relax_half_done:
  assumes h: "half_done k m S pm" and k: "m k k = Some (0, x)"
  shows "half_done k m (insert (i, j) S) (relax k i j pm)"
proof -
  have e: "pm_row pm u v = (if (u, v) \<in> S then best k m u v else m u v)" for u v using h by (simp add: half_done_def)
  have "best k (pm_row pm) i j = best k m i j"
    by (rule best_again) (simp_all only: half_done_cross [OF h k], simp add: e)
  then show ?thesis by (simp add: half_done_def pm_row_relax) (simp add: e)
qed

lemma relax_row_half_done:
  assumes "half_done k m S pm" "m k k = Some (0, x)"
  shows "half_done k m (S \<union> {i} \<times> set js) (relax_row js k i pm)"
  using assms(1)
proof (induction js arbitrary: S pm)
  case (Cons j js)
  from Cons.IH [OF relax_half_done [OF Cons.prems assms(2), of i j]]
  show ?case by (simp add: relax_row_def insert_Times_insert Sigma_Un_distrib1 Un_commute)
qed (simp add: relax_row_def)

lemma relax_rows_half_done:
  assumes "half_done k m S pm" "m k k = Some (0, x)"
  shows "half_done k m (S \<union> set is \<times> set js) (fold (relax_row js k) is pm)"
  using assms(1)
proof (induction "is" arbitrary: S pm)
  case (Cons i "is")
  have "S \<union> {i} \<times> set js \<union> set is \<times> set js = S \<union> set (i # is) \<times> set js" by auto
  with Cons.IH [OF relax_row_half_done [OF Cons.prems assms(2), of i js]] show ?case by simp
qed simp

lemma pm_row_relax_all:
  assumes "pm_row pm k k = Some (0, x)"
  shows "pm_row (relax_all sws k pm) i j = (if i \<in> set sws \<and> j \<in> set sws then best k (pm_row pm) i j else pm_row pm i j)"
  using relax_rows_half_done [of k "pm_row pm" "{}" pm x sws sws] assms by (simp add: half_done_def relax_all_def)

end
