(* ===== verification/Dpid_Text.thy ===== *)
theory Dpid_Text
  imports Number_Text Switch_Control
begin

text \<open>
  \<^verbatim>\<open>str_to_dpid\<close> of \<^verbatim>\<open>lib/util.py\<close>, the other direction of \<^verbatim>\<open>dpid_to_str\<close>: the text of a datapath id is its lower six
  bytes in hex and, when the upper two are not zero, those as a decimal number behind a bar.
\<close>

abbreviation ch_bar :: byte where "ch_bar \<equiv> 124"

text \<open>\<^verbatim>\<open>s.split(c, n)\<close>\<close>

fun split_at_most :: "nat \<Rightarrow> 'a \<Rightarrow> 'a list \<Rightarrow> 'a list list" where
  "split_at_most 0 c s = [s]"
| "split_at_most (Suc n) c s =
     (if c \<in> set s then takeWhile (\<lambda>x. x \<noteq> c) s # split_at_most n c (tl (dropWhile (\<lambda>x. x \<noteq> c) s)) else [s])"

definition str_to_dpid :: "bytes \<Rightarrow> int res" where
  "str_to_dpid s =
     (let s = (case s of a # b # s' \<Rightarrow> if a = ch_0 \<and> (b = 120 \<or> b = 88) then s' else s | _ \<Rightarrow> s);
          ps = split_at_most 2 ch_bar (filter (\<lambda>c. c \<noteq> ch_dash) s) in
      rbind (py_int 16 (hd ps)) (\<lambda>a.
      let (a, b) = (if a > 281474976710655 then (a AND 281474976710655, drop_bit 48 a) else (a, 0)) in
      rbind (if length ps = 2 then py_int 10 (ps ! 1) else Inr b) (\<lambda>b.
      Inr (a OR push_bit 48 b))))"

text \<open>The text of six bytes.\<close>

definition hex_text :: "bytes \<Rightarrow> bytes" where
  "hex_text bs = concat (map (\<lambda>x. hex02 (uint x)) bs)"

lemma hex02_uint: "hex02 (uint (x :: byte)) = [hex_digit (uint x div 16), hex_digit (uint x mod 16)]"
  using uint_lt2p [of x] by (simp add: hex02_byte)

lemma hex02_value: "digits_val 16 acc (hex02 (uint (x :: byte))) = Some (256 * acc + uint x)"
proof -
  have "0 \<le> uint x div 16" "uint x div 16 < 16" using uint_lt2p [of x] by (simp_all add: pos_imp_zdiv_nonneg_iff)
  then show ?thesis by (simp add: hex02_uint digit_val_hex_digit)
qed

lemma hex_text_value: "digits_val 16 0 (hex_text bs) = Some (be_to_int bs)"
proof (induction bs rule: rev_induct)
  case (snoc x bs)
  then show ?case using hex02_value [of "be_to_int bs" x] by (simp add: hex_text_def digits_val_append)
qed (simp add: hex_text_def)

lemma hex02_plain: "\<forall>c\<in>set (hex02 (uint (x :: byte))). plain_digit 16 c"
proof -
  have "0 \<le> uint x div 16 \<and> uint x div 16 < 16 \<and> 0 \<le> uint x mod 16 \<and> uint x mod 16 < 16"
    using uint_lt2p [of x] by (simp add: pos_imp_zdiv_nonneg_iff)
  then have "plain_digit 16 (hex_digit (uint x div 16))" "plain_digit 16 (hex_digit (uint x mod 16))"
    unfolding plain_digit_def by blast+
  then show ?thesis by (simp add: hex02_uint)
qed

lemma hex_text_plain: "\<forall>c\<in>set (hex_text bs). plain_digit 16 c"
  using hex02_plain by (auto simp: hex_text_def)

lemma filter_join: "\<forall>p\<in>set ps. filter P p = p \<Longrightarrow> \<not> P c \<Longrightarrow> filter P (py_join [c] ps) = concat ps"
  by (induction "[c]" ps rule: py_join.induct) auto

lemma plain_no_bar: "plain_digit base c \<Longrightarrow> base \<le> 16 \<Longrightarrow> c \<noteq> ch_bar"
proof
  assume p: "plain_digit base c" "base \<le> 16" and "c = ch_bar"
  then obtain d where d: "0 \<le> d" "d < 16" "hex_digit d = ch_bar" by (auto simp: plain_digit_def)
  from d(1,2) have "digit_val (hex_digit d) = Some d" by (rule digit_val_hex_digit)
  then show False unfolding d(3) by (simp add: digit_val_def)
qed

text \<open>The lower six bytes as text, with and without the dashes.\<close>

lemma join_hex_text: "filter (\<lambda>c. c \<noteq> ch_dash) (py_join [ch_dash] (map (\<lambda>x. hex02 (uint (x :: byte))) bs)) = hex_text bs"
proof -
  have "\<forall>p\<in>set (map (\<lambda>x. hex02 (uint (x :: byte))) bs). filter (\<lambda>c. c \<noteq> ch_dash) p = p"
    using hex02_plain plain_digitD(2) by (force intro: filter_True)
  from filter_join [OF this] show ?thesis by (simp add: hex_text_def)
qed

text \<open>Reading the two parts.\<close>

lemma str_to_dpid_parts:
  assumes p: "set p \<subseteq> Collect (plain_digit 16)" "p \<noteq> []" "digits_val 16 0 p = Some a" "0 \<le> a" "a < 281474976710656"
    and q: "q = None \<and> b = 0 \<or> (\<exists>n. q = Some (dec_digits n) \<and> b = int n)"
    and s: "filter (\<lambda>c. c \<noteq> ch_dash) s = p @ (case q of None \<Rightarrow> [] | Some t \<Rightarrow> ch_bar # t)"
    and x: "\<forall>c\<in>set (take 2 s). c \<noteq> 120 \<and> c \<noteq> 88"
  shows "str_to_dpid s = Inr (a OR push_bit 48 b)"
proof -
  let ?f = "filter (\<lambda>c. c \<noteq> ch_dash) s"
  have 0: "(case s of a # b # s' \<Rightarrow> if a = ch_0 \<and> (b = 120 \<or> b = 88) then s' else s | _ \<Rightarrow> s) = s"
    using x by (auto split: list.split)
  have nb: "ch_bar \<notin> set p" using p(1) plain_no_bar [of 16] by auto
  have nd: "ch_bar \<notin> set (dec_digits n)" for n using dec_digits_plain [of n] plain_no_bar [of 10] by auto
  have "takeWhile (\<lambda>x. x \<noteq> ch_bar) (p @ ch_bar # t) = p" "dropWhile (\<lambda>x. x \<noteq> ch_bar) (p @ ch_bar # t) = ch_bar # t" for t
    using nb by (auto simp: takeWhile_tail dropWhile_append)
  then have "split_at_most 2 ch_bar (p @ (case q of None \<Rightarrow> [] | Some t \<Rightarrow> ch_bar # t)) =
      (case q of None \<Rightarrow> [p] | Some t \<Rightarrow> [p, t])"
    using nb nd q by (auto simp: numeral_2_eq_2)
  then have 1: "split_at_most 2 ch_bar ?f = (case q of None \<Rightarrow> [p] | Some t \<Rightarrow> [p, t])" by (simp only: s)
  have 2: "py_int 16 p = Inr a" using p by (intro py_int_plain) auto
  show ?thesis unfolding str_to_dpid_def Let_def 0 1 using p(5) q 2 by (auto simp: py_int_dec_digits)
qed

lemma be_to_int_append: "be_to_int (u @ l) = be_to_int u * 256 ^ length l + be_to_int l"
  by (induction l rule: rev_induct) (simp_all add: append_assoc [symmetric] algebra_simps del: append_assoc)

lemma or_high: "0 \<le> a \<Longrightarrow> a < 2 ^ k \<Longrightarrow> a OR push_bit k b = a + b * 2 ^ k" for a b :: int
proof -
  assume "0 \<le> a" "a < 2 ^ k"
  then have "a = take_bit k a" by (simp add: take_bit_int_eq_self)
  then have "\<not> bit a n \<or> \<not> bit (push_bit k b) n" for n by (metis bit_push_bit_iff_int bit_take_bit_iff linorder_not_le)
  then show ?thesis by (simp add: disjunctive_add [symmetric] push_bit_eq_mult)
qed

text \<open>
  every 64-bit datapath id is written by \<^verbatim>\<open>dpid_to_str\<close>, in the short and in the long form, as a text that
  \<^verbatim>\<open>str_to_dpid\<close> reads back as the same id; any other integer raises.
\<close>

theorem dpid_text_roundtrip:
  "if 0 \<le> d \<and> d < 2 ^ 64 then (\<exists>s. dpid_to_str d alwaysLong = Inr s \<and> str_to_dpid s = Inr d)
   else dpid_to_str d alwaysLong = Inl StructError"
proof (cases "0 \<le> d \<and> d < 2 ^ 64")
  case True
  define b where "b = int_to_be 8 d"
  let ?u = "be_to_int (take 2 b)" and ?l = "be_to_int (drop 2 b)"
  have pk: "struct_pack [FQ] [d] = Inr b" using True by (simp add: struct_pack_def struct_bytes.simps b_def)
  have len: "length b = 8" by (simp add: b_def)
  have "be_to_int b = d" using True by (simp add: b_def be_to_int_int_to_be)
  then have d: "d = ?u * 2 ^ 48 + ?l" using be_to_int_append [of "take 2 b" "drop 2 b"] len by simp
  have l: "0 \<le> ?l" "?l < 281474976710656" using be_to_int_bounds [of "drop 2 b"] len by simp_all
  let ?j = "py_join [ch_dash] (map (\<lambda>x. hex02 (uint x)) (drop 2 b))"
  let ?q = "if alwaysLong \<or> take 2 b \<noteq> [0, 0] then Some (dec_digits (nat ?u)) else None"
  let ?s = "?j @ (case ?q of None \<Rightarrow> [] | Some t \<Rightarrow> ch_bar # t)"
  have u: "0 \<le> ?u" using be_to_int_bounds [of "take 2 b"] by simp
  have "struct_unpack [FH] (take 2 b) = Inr [?u]" using len by (simp add: struct_unpack_def code_decode_def)
  then have s: "dpid_to_str d alwaysLong = Inr ?s" using u by (simp add: dpid_to_str_def pk py_str_int_def)
  have "filter (\<lambda>c. c \<noteq> ch_dash) (dec_digits n) = dec_digits n" for n
    using dec_digits_plain [of n] plain_digitD(2) [of 10] by (auto intro!: filter_True)
  then have "filter (\<lambda>c. c \<noteq> ch_dash) (case ?q of None \<Rightarrow> [] | Some t \<Rightarrow> ch_bar # t) = (case ?q of None \<Rightarrow> [] | Some t \<Rightarrow> ch_bar # t)"
    by auto
  then have f: "filter (\<lambda>c. c \<noteq> ch_dash) ?s = hex_text (drop 2 b) @ (case ?q of None \<Rightarrow> [] | Some t \<Rightarrow> ch_bar # t)"
    by (simp only: filter_append join_hex_text)
  have q: "?q = None \<and> ?u = 0 \<or> (\<exists>n. ?q = Some (dec_digits n) \<and> ?u = int n)"
    using u by (auto simp: be_to_int_def intro: exI [of _ "nat ?u"])
  obtain x y ys where b2: "drop 2 b = x # y # ys" using len by (cases "drop 2 b"; cases "tl (drop 2 b)") (auto dest: arg_cong [where f = length])
  then have "take 2 ?s = hex02 (uint x)" by (simp add: hex02_uint)
  then have x: "\<forall>c\<in>set (take 2 ?s). c \<noteq> 120 \<and> c \<noteq> 88" using hex02_plain [of x] plain_digitD(4,5) [of 16] by auto
  have p: "set (hex_text (drop 2 b)) \<subseteq> Collect (plain_digit 16)" "hex_text (drop 2 b) \<noteq> []"
    using hex_text_plain [of "drop 2 b"] b2 by (blast, simp add: hex_text_def hex02_uint)
  have "str_to_dpid ?s = Inr (?l OR push_bit 48 ?u)"
    by (rule str_to_dpid_parts [OF p hex_text_value l q f x])
  also have "?l OR push_bit 48 ?u = d" using or_high [of ?l 48 ?u] l d by simp
  finally show ?thesis using s True by auto
next
  case False
  then show ?thesis by (auto simp: dpid_to_str_def struct_pack_def)
qed

end
