(* ===== verification/L2_Multi.thy ===== *)
theory L2_Multi
  imports Discovery Shortest_Paths Dpid_Text
begin

text \<open>
  \<^verbatim>\<open>forwarding/l2_multi.py\<close>: a learning switch for the whole network. Addresses are learned at the edge, a packet to a
  known address gets a path of flow table entries through the switches, and the packet itself is sent on when every
  switch of the path has answered a barrier.

  The component listens to the links of discovery, so its state is the state of the listeners of discovery; the switch
  objects also listen to their own connection. A \<^verbatim>\<open>WaitingPath\<close> is shared by the entries of \<^verbatim>\<open>waiting_paths\<close>, which refer
  to it by its place in \<open>lm_objects\<close>. \<open>lm_depth\<close> is the recursion depth the interpreter allows, \<open>lm_installed\<close> the
  paths \<^verbatim>\<open>PathInstalled\<close> was raised for. Dictionaries are association lists, sets of xids lists without duplicates.
\<close>

section \<open>State\<close>

record l2m_switch =
  sw_connection :: "nat option"
  sw_ports :: "ofp_phy_port list option"
  sw_connected_at :: "int option"

record waiting_path =
  wp_expires_at :: int
  wp_path :: "hop list"
  wp_first_switch :: int
  wp_xids :: "(int option \<times> int) list"
  wp_packet :: "ofp_packet_in option"

record l2_multi =
  lm_adjacency :: adjacency
  lm_switches :: "(int \<times> l2m_switch) list"
  lm_mac_map :: "(EthAddr \<times> (int \<times> int)) list"
  lm_path_map :: path_map
  lm_objects :: "waiting_path list"
  lm_waiting :: "((int option \<times> int) \<times> nat) list"
  lm_installed :: "hop list list"
  lm_depth :: nat

definition l2m_switch_init :: l2m_switch where
  "l2m_switch_init = \<lparr>sw_connection = None, sw_ports = None, sw_connected_at = None\<rparr>"

definition l2_multi_init :: "nat \<Rightarrow> l2_multi" where
  "l2_multi_init depth =
     \<lparr>lm_adjacency = (\<lambda>_ _. None), lm_switches = [], lm_mac_map = [], lm_path_map = [], lm_objects = [], lm_waiting = [],
      lm_installed = [], lm_depth = depth\<rparr>"

definition FLOW_IDLE_TIMEOUT :: int where "FLOW_IDLE_TIMEOUT = 10"
definition FLOW_HARD_TIMEOUT :: int where "FLOW_HARD_TIMEOUT = 30"
definition PATH_SETUP_TIME :: int where "PATH_SETUP_TIME = 4"

definition get_l2m :: "(l2_multi \<Rightarrow> 'r) \<Rightarrow> (l2_multi, 'r) disc" where
  "get_l2m f = get_disc (\<lambda>d. f (dc_rest d))"

definition upd_l2m :: "(l2_multi \<Rightarrow> l2_multi) \<Rightarrow> (l2_multi, unit) disc" where
  "upd_l2m f = upd_disc (\<lambda>d. d\<lparr>dc_rest := f (dc_rest d)\<rparr>)"

section \<open>Waiting paths\<close>

definition wp_is_expired :: "int \<Rightarrow> waiting_path \<Rightarrow> bool" where
  "wp_is_expired now wp \<longleftrightarrow> now \<ge> wp_expires_at wp"

text \<open>The entries of every expired path go.\<close>

definition expire_waiting_paths :: "int \<Rightarrow> l2_multi \<Rightarrow> l2_multi" where
  "expire_waiting_paths now s =
     (let dead = filter (wp_is_expired now) (map (\<lambda>i. lm_objects s ! i) (map snd (lm_waiting s))) in
      s\<lparr>lm_waiting := filter (\<lambda>e. list_all (\<lambda>wp. fst e \<notin> set (wp_xids wp)) dead) (lm_waiting s)\<rparr>)"

text \<open>The constructor.\<close>

definition new_waiting_path :: "hop list \<Rightarrow> ofp_packet_in option \<Rightarrow> (l2_multi, nat) disc" where
  "new_waiting_path path packet =
     sbind (gets ct_now) (\<lambda>now.
     sbind (get_l2m (\<lambda>s. length (lm_objects s))) (\<lambda>i.
     sbind (upd_l2m (\<lambda>s. s\<lparr>lm_objects := lm_objects s @ [\<lparr>wp_expires_at = now + PATH_SETUP_TIME * nsec, wp_path = path,
       wp_first_switch = fst (hd path), wp_xids = [], wp_packet = packet\<rparr>]\<rparr>)) (\<lambda>_.
     sbind (upd_l2m (\<lambda>s. if length (lm_waiting s) > 1000 then expire_waiting_paths now s else s)) (\<lambda>_. ret i))))"

definition add_xid :: "nat \<Rightarrow> int \<Rightarrow> int \<Rightarrow> (l2_multi, unit) disc" where
  "add_xid i dpid xid =
     upd_l2m (\<lambda>s. s\<lparr>lm_objects := (lm_objects s)[i := (lm_objects s ! i)\<lparr>wp_xids := List.insert (Some dpid, xid) (wp_xids (lm_objects s ! i))\<rparr>],
       lm_waiting := AList.update (Some dpid, xid) i (lm_waiting s)\<rparr>)"

text \<open>The packet that waited goes through the flow table of the first switch.\<close>

definition resend :: "int \<Rightarrow> ofp_packet_in option \<Rightarrow> (l2_multi, unit) disc" where
  "resend first_switch packet =
     (case packet of
        None \<Rightarrow> ret ()
      | Some p \<Rightarrow>
          sbind (lift (ofp_packet_out_set_data (PoPacketIn p)
            (ofp_packet_out_init\<lparr>po_actions := [AOutput (ofp_action_output_init\<lparr>ao_port := Some OFPP_TABLE\<rparr>)]\<rparr>))) (\<lambda>po.
          sbind (gets (getConnection first_switch)) (\<lambda>con.
          case con of None \<Rightarrow> ret () | Some cid \<Rightarrow> sbind (con_send cid (MPacketOut po)) (\<lambda>_. ret ()))))"

definition wp_notify :: "nat \<Rightarrow> int option \<times> int \<Rightarrow> (l2_multi, unit) disc" where
  "wp_notify i k =
     sbind (upd_l2m (\<lambda>s. s\<lparr>lm_objects := (lm_objects s)[i := (lm_objects s ! i)\<lparr>wp_xids := removeAll k (wp_xids (lm_objects s ! i))\<rparr>]\<rparr>)) (\<lambda>_.
     sbind (get_l2m (\<lambda>s. lm_objects s ! i)) (\<lambda>wp.
     if wp_xids wp = [] then
       sbind (resend (wp_first_switch wp) (wp_packet wp)) (\<lambda>_.
       upd_l2m (\<lambda>s. s\<lparr>lm_installed := lm_installed s @ [wp_path wp]\<rparr>))
     else ret ()))"

section \<open>Installing a path\<close>

text \<open>\<^verbatim>\<open>switch.connection.send\<close>\<close>

definition sw_send :: "int \<Rightarrow> ofp_message \<Rightarrow> (l2_multi, ofp_message) disc" where
  "sw_send dpid m =
     sbind (get_l2m (\<lambda>s. Option.bind (map_of (lm_switches s) dpid) sw_connection)) (\<lambda>con.
     case con of None \<Rightarrow> raise AttributeError | Some cid \<Rightarrow> con_send cid m)"

text \<open>\<^verbatim>\<open>_install\<close>; the match object is the same for all switches, so the port set in it stays.\<close>

definition install_hop :: "int \<Rightarrow> int option \<Rightarrow> int option \<Rightarrow> ofp_match \<Rightarrow> (l2_multi, ofp_match) disc" where
  "install_hop dpid in_port out_port match =
     sbind (lift (set_in_port in_port match)) (\<lambda>match.
     sbind (sw_send dpid (MFlowMod (ofp_flow_mod_init\<lparr>fm_match := match, fm_idle_timeout := FLOW_IDLE_TIMEOUT,
       fm_hard_timeout := FLOW_HARD_TIMEOUT, fm_actions := [AOutput (ofp_action_output_init\<lparr>ao_port := out_port\<rparr>)],
       fm_buffer_id := buffer_id_set None\<rparr>))) (\<lambda>_. ret match))"

text \<open>The xid of the barrier that was sent; reading it gives it one if it was not.\<close>

definition sent_xid :: "ofp_message \<Rightarrow> ('a, int) ctl" where
  "sent_xid m =
     (case m of
        MBarrierRequest b \<Rightarrow>
          sbind (gets (\<lambda>c. ofp_header_xid (ct_xid c) b)) (\<lambda>(x, b, g). sbind (modify (\<lambda>c. c\<lparr>ct_xid := g\<rparr>)) (\<lambda>_. ret x))
      | _ \<Rightarrow> raise AttributeError)"

fun install_hops :: "nat \<Rightarrow> hop list \<Rightarrow> ofp_match \<Rightarrow> (l2_multi, ofp_match) disc" where
  "install_hops i [] match = ret match"
| "install_hops i ((sw, in_port, out_port) # p) match =
     sbind (install_hop sw in_port out_port match) (\<lambda>match.
     sbind (sw_send sw (MBarrierRequest ofp_barrier_request_init)) (\<lambda>m.
     sbind (sent_xid m) (\<lambda>x.
     sbind (add_xid i sw x) (\<lambda>_. install_hops i p match))))"

definition install_path_hops :: "hop list \<Rightarrow> ofp_match \<Rightarrow> ofp_packet_in option \<Rightarrow> (l2_multi, ofp_match) disc" where
  "install_path_hops p match packet = sbind (new_waiting_path p packet) (\<lambda>i. install_hops i p match)"

text \<open>\<^verbatim>\<open>_get_path\<close> with the table that is computed when it is empty, which is not looked at for the switch itself.\<close>

definition fresh_paths :: "l2_multi \<Rightarrow> l2_multi" where
  "fresh_paths s =
     (if lm_path_map s = [] then s\<lparr>lm_path_map := calc_paths (lm_adjacency s) (map fst (lm_switches s))\<rparr> else s)"

definition find_path :: "int \<Rightarrow> int \<Rightarrow> int option \<Rightarrow> int option \<Rightarrow> (l2_multi, hop list option) disc" where
  "find_path src dst first final =
     sbind (upd_l2m (\<lambda>s. if src = dst then s else fresh_paths s)) (\<lambda>_.
     sbind (get_l2m id) (\<lambda>s. lift (get_path (lm_depth s) (lm_adjacency s) (lm_path_map s) src dst first final)))"

text \<open>\<^verbatim>\<open>find('ipv4')\<close> with what is behind the header; an IP packet is never one of the classes outside the model.\<close>

fun find_ip_layer :: "payload \<Rightarrow> (ipv4 \<times> payload) option" where
  "find_ip_layer (PVlan h p) = (if v_parsed h then find_ip_layer p else None)"
| "find_ip_layer (PLlc h p) = (if llc_parsed h then find_ip_layer p else None)"
| "find_ip_layer (PArp h p) = (if arp_parsed h then find_ip_layer p else None)"
| "find_ip_layer (PIpv4 h p) = (if ip_parsed h then Some (h, p) else None)"
| "find_ip_layer _ = None"

text \<open>
  The host is unreachable: an ICMP message with the start of the packet goes back out of its port. \<open>i\<close> is the next value of
  the identification counter of the IP class.
\<close>

definition unreachable_frame :: "pk_ext \<Rightarrow> int \<Rightarrow> int \<Rightarrow> ofp_match \<Rightarrow> ipv4 \<times> payload \<Rightarrow> bytes res" where
  "unreachable_frame x i dpid match = (\<lambda>(ip, p).
     rbind (dpid_to_str dpid False) (\<lambda>s.
     rbind (EthAddr_init (EthStr s)) (\<lambda>src.
     rbind (set_attr AttributeError (get_dl_src match)) (\<lambda>dst.
     rbind (set_attr AttributeError (get_nw_dst match)) (\<lambda>srcip.
     rbind (set_attr AttributeError (get_nw_src match)) (\<lambda>dstip.
     rbind (payload_pack x None (PIpv4 ip p)) (\<lambda>(d, _).
     rbind (ethernet_pack x (ethernet_init\<lparr>e_src := src, e_dst := dst, e_type := 2048,
       e_payload := PIpv4 ((ipv4_init i)\<lparr>ip_protocol := 1, ip_srcip := srcip, ip_dstip := dstip\<rparr>)
         (PIcmp (icmp_init\<lparr>icmp_type := 3, icmp_code := 1\<rparr>) (PBytes ([0, 0, 0, 0] @ take (nat (ip_hl ip * 4 + 8)) d)))\<rparr>)) (\<lambda>(b, _).
     Inr b))))))))"

definition install_path :: "pk_ext \<Rightarrow> int \<Rightarrow> int \<Rightarrow> int \<times> int \<Rightarrow> ofp_match \<Rightarrow> ethernet \<Rightarrow> ofp_packet_in \<Rightarrow> (l2_multi, unit) disc" where
  "install_path x i self dest match packet ofp =
     sbind (find_path self (fst dest) (Some (pi_in_port ofp)) (Some (snd dest))) (\<lambda>p.
     case p of
       None \<Rightarrow>
         (if get_dl_type match = Some 2048 then
            (case find_ip_layer (e_payload packet) of
               None \<Rightarrow> ret ()
             | Some ip \<Rightarrow>
                 sbind (lift (unreachable_frame x i self match ip)) (\<lambda>b.
                 sbind (lift (ofp_packet_out_set_data (PoBytes b)
                   (ofp_packet_out_init\<lparr>po_actions := [AOutput (ofp_action_output_init\<lparr>ao_port := Some (pi_in_port ofp)\<rparr>)]\<rparr>))) (\<lambda>po.
                 sbind (sw_send self (MPacketOut po)) (\<lambda>_. ret ()))))
          else ret ())
     | Some p \<Rightarrow>
         sbind (install_path_hops p match (Some ofp)) (\<lambda>match.
         sbind (lift (ofp_match_flip None match)) (\<lambda>match.
         sbind (install_path_hops (map (\<lambda>(sw, in_port, out_port). (sw, out_port, in_port)) p) match None) (\<lambda>_. ret ()))))"

section \<open>Packets that come in\<close>

text \<open>The hold-down is only logged.\<close>

definition l2m_flood :: "int \<Rightarrow> ofp_packet_in \<Rightarrow> (l2_multi, unit) disc" where
  "l2m_flood self ofp =
     sbind (sw_send self (MPacketOut (ofp_packet_out_init\<lparr>
       po_actions := [AOutput (ofp_action_output_init\<lparr>ao_port := Some OFPP_FLOOD\<rparr>)],
       po_buffer_id := buffer_id_set (buffer_id_get (pi_buffer_id ofp)), po_in_port := pi_in_port ofp\<rparr>))) (\<lambda>_. ret ())"

definition l2m_drop :: "int \<Rightarrow> ofp_packet_in \<Rightarrow> (l2_multi, unit) disc" where
  "l2m_drop self ofp =
     (case buffer_id_get (pi_buffer_id ofp) of
        None \<Rightarrow> ret ()
      | Some b \<Rightarrow>
          sbind (sw_send self (MPacketOut (ofp_packet_out_init\<lparr>po_buffer_id := buffer_id_set (Some b),
            po_in_port := pi_in_port ofp\<rparr>))) (\<lambda>_. ret ()))"

text \<open>What a packet teaches about its sender. A sender that moved is believed at a port where no switch is.\<close>

definition learn_mac :: "Link list \<Rightarrow> int \<Rightarrow> int \<Rightarrow> EthAddr \<Rightarrow> l2_multi \<Rightarrow> l2_multi res" where
  "learn_mac adjacency self port src s =
     (let loc = (self, port); learn = rbind (eth_isMulticast src) (\<lambda>m.
            Inr (if m then s else s\<lparr>lm_mac_map := AList.update src loc (lm_mac_map s)\<rparr>)) in
      case map_of (lm_mac_map s) src of
        None \<Rightarrow> learn
      | Some oldloc \<Rightarrow> if oldloc \<noteq> loc \<and> is_edge_port adjacency self port then learn else Inr s)"

definition l2m_PacketIn :: "pk_ext \<Rightarrow> int \<Rightarrow> int \<Rightarrow> ofp_packet_in \<Rightarrow> (l2_multi, unit) disc" where
  "l2m_PacketIn x i self ofp =
     sbind (lift (ethernet_new (lldp_ext x) (pi_data ofp))) (\<lambda>packet.
     if effective_ethertype packet = LLDP_TYPE then l2m_drop self ofp
     else
       sbind (get_disc (\<lambda>d. learn_mac (map fst (dc_adjacency d)) self (pi_in_port ofp) (e_src packet) (dc_rest d))) (\<lambda>r.
       sbind (lift r) (\<lambda>s.
       sbind (upd_l2m (\<lambda>_. s)) (\<lambda>_.
       sbind (lift (eth_isMulticast (e_dst packet))) (\<lambda>multicast.
       if multicast then l2m_flood self ofp
       else
         case map_of (lm_mac_map s) (e_dst packet) of
           None \<Rightarrow> l2m_flood self ofp
         | Some dest \<Rightarrow>
             sbind (lift (from_packet packet None False)) (\<lambda>match.
             install_path (lldp_ext x) i self dest match packet ofp))))))"

section \<open>Links and switches\<close>

text \<open>The same message goes to all switches, so it keeps the xid it gets first.\<close>

fun clear_flows :: "ofp_message \<Rightarrow> (int \<times> l2m_switch) list \<Rightarrow> (l2_multi, unit) disc" where
  "clear_flows m [] = ret ()"
| "clear_flows m ((dpid, sw) # sws) =
     (case sw_connection sw of
        None \<Rightarrow> clear_flows m sws
      | Some cid \<Rightarrow> sbind (con_send cid m) (\<lambda>m. clear_flows m sws))"

definition adj_put :: "int \<Rightarrow> int \<Rightarrow> int option \<Rightarrow> adjacency \<Rightarrow> adjacency" where
  "adj_put a b p adj = adj(a := (adj a)(b := p))"

definition flip_link :: "Link \<Rightarrow> Link" where
  "flip_link l = Link (dpid2 l) (port2 l) (dpid1 l) (port1 l)"

text \<open>Another link between the two switches, in both directions.\<close>

definition other_way :: "Link list \<Rightarrow> Link \<Rightarrow> Link option" where
  "other_way links l = find (\<lambda>ll. ll \<noteq> l \<and> dpid1 ll = dpid1 l \<and> dpid2 ll = dpid2 l \<and> flip_link ll \<in> set links) links"

definition link_gone :: "Link list \<Rightarrow> Link \<Rightarrow> adjacency \<Rightarrow> adjacency" where
  "link_gone links l adj =
     (let a = dpid1 l; b = dpid2 l; adj = adj_put b a None (adj_put a b None adj) in
      case other_way links l of
        None \<Rightarrow> adj
      | Some ll \<Rightarrow> adj_put b a (Some (port2 ll)) (adj_put a b (Some (port1 ll)) adj))"

definition link_up :: "Link list \<Rightarrow> Link \<Rightarrow> adjacency \<Rightarrow> adjacency" where
  "link_up links l adj =
     (let a = dpid1 l; b = dpid2 l in
      if adj a b = None \<and> flip_link l \<in> set links
      then adj_put b a (Some (port2 l)) (adj_put a b (Some (port1 l)) adj)
      else adj)"

text \<open>Addresses learned at a port that leads to a switch.\<close>

definition unlearn :: "Link \<Rightarrow> (EthAddr \<times> (int \<times> int)) list \<Rightarrow> (EthAddr \<times> (int \<times> int)) list" where
  "unlearn l = filter (\<lambda>e. snd e \<noteq> (dpid1 l, port1 l) \<and> snd e \<noteq> (dpid2 l, port2 l))"

definition l2m_LinkEvent :: "bool \<Rightarrow> Link \<Rightarrow> (l2_multi, unit) disc" where
  "l2m_LinkEvent add l =
     sbind (get_l2m lm_switches) (\<lambda>sws.
     if map_of sws (dpid1 l) = None \<or> map_of sws (dpid2 l) = None then raise KeyError
     else
       sbind (clear_flows (MFlowMod (ofp_flow_mod_init\<lparr>fm_command := OFPFC_DELETE\<rparr>)) sws) (\<lambda>_.
       sbind (get_disc (\<lambda>d. map fst (dc_adjacency d))) (\<lambda>links.
       upd_l2m (\<lambda>s. s\<lparr>lm_path_map := [],
         lm_adjacency := (if add then link_up links l else link_gone links l) (lm_adjacency s),
         lm_mac_map := (if add then unlearn l else id) (lm_mac_map s)\<rparr>))))"

definition upd_switch :: "int \<Rightarrow> (l2m_switch \<Rightarrow> l2m_switch) \<Rightarrow> (l2_multi, unit) disc" where
  "upd_switch dpid f = upd_l2m (\<lambda>s. s\<lparr>lm_switches := map (\<lambda>(d, sw). (d, if d = dpid then f sw else sw)) (lm_switches s)\<rparr>)"

text \<open>\<^verbatim>\<open>Switch.connect\<close>; the ports are those of the first connection.\<close>

definition switch_connect :: "int \<Rightarrow> nat \<Rightarrow> (l2_multi, unit) disc" where
  "switch_connect dpid cid =
     sbind (get_l2m (\<lambda>s. Option.bind (map_of (lm_switches s) dpid) sw_ports)) (\<lambda>ports.
     sbind (if ports = None then
              sbind (get_conn cid cx_features) (\<lambda>f. sbind (lift (set_attr AttributeError f)) (\<lambda>f.
              upd_switch dpid (\<lambda>sw. sw\<lparr>sw_ports := Some (fr_ports f)\<rparr>)))
            else ret ()) (\<lambda>_.
     sbind (gets ct_now) (\<lambda>now.
     upd_switch dpid (\<lambda>sw. sw\<lparr>sw_connection := Some cid, sw_connected_at := Some now\<rparr>))))"

text \<open>\<^verbatim>\<open>_handle_openflow_ConnectionUp\<close>; the datapath id is known by then.\<close>

definition l2m_ConnectionUp :: "nat \<Rightarrow> (l2_multi, unit) disc" where
  "l2m_ConnectionUp cid =
     sbind (get_conn cid cx_dpid) (\<lambda>dpid. sbind (lift (set_attr AssertionError dpid)) (\<lambda>dpid.
     sbind (upd_l2m (\<lambda>s. if map_of (lm_switches s) dpid = None
       then s\<lparr>lm_switches := lm_switches s @ [(dpid, l2m_switch_init)]\<rparr> else s)) (\<lambda>_.
     switch_connect dpid cid)))"

definition l2m_ConnectionDown :: "int \<Rightarrow> (l2_multi, unit) disc" where
  "l2m_ConnectionDown self = upd_switch self (\<lambda>sw. sw\<lparr>sw_connection := None\<rparr>)"

definition l2m_BarrierIn :: "nat \<Rightarrow> int \<Rightarrow> (l2_multi, unit) disc" where
  "l2m_BarrierIn cid xid =
     sbind (get_conn cid cx_dpid) (\<lambda>dpid.
     sbind (get_l2m (\<lambda>s. map_of (lm_waiting s) (dpid, xid))) (\<lambda>wp.
     sbind (upd_l2m (\<lambda>s. s\<lparr>lm_waiting := AList.delete (dpid, xid) (lm_waiting s)\<rparr>)) (\<lambda>_.
     case wp of None \<Rightarrow> ret () | Some i \<Rightarrow> wp_notify i (dpid, xid))))"

section \<open>The listeners\<close>

definition l2m_links :: "l2_multi link_app" where
  "l2m_links add link c = snd (l2m_LinkEvent add link c)"

text \<open>The switch that listens to a connection.\<close>

definition switch_of :: "nat \<Rightarrow> l2_multi \<Rightarrow> int option" where
  "switch_of cid s = map_option fst (find (\<lambda>(d, sw). sw_connection sw = Some cid) (lm_switches s))"

definition l2m_event :: "pk_ext \<Rightarrow> int \<Rightarrow> event_source \<Rightarrow> of_event \<Rightarrow> (l2_multi, unit) disc" where
  "l2m_event x i src ev =
     (case (src, ev) of
        (AtNexus, ConnectionUp cid _) \<Rightarrow> l2m_ConnectionUp cid
      | (AtNexus, BarrierIn cid m) \<Rightarrow> sbind (lift (set_attr AttributeError (hdr_xid m))) (l2m_BarrierIn cid)
      | (AtConnection, PacketIn cid ofp) \<Rightarrow>
          sbind (get_l2m (switch_of cid)) (\<lambda>d. case d of None \<Rightarrow> ret () | Some d \<Rightarrow> l2m_PacketIn x i d ofp)
      | (AtConnection, ConnectionDown cid) \<Rightarrow>
          sbind (get_l2m (switch_of cid)) (\<lambda>d. case d of None \<Rightarrow> ret () | Some d \<Rightarrow> l2m_ConnectionDown d)
      | _ \<Rightarrow> ret ())"

definition l2m_app :: "pk_ext \<Rightarrow> int \<Rightarrow> l2_multi discovery app" where
  "l2m_app x i src ev c = (False, snd (l2m_event x i src ev c))"

end
