(* ===== verification/Shortest_Paths_Properties.thy ===== *)
theory Shortest_Paths_Properties
  imports Shortest_Paths
begin

text \<open>
  The table holds the length of a shortest path for every pair of switches, and the path read from it is one: it starts
  and ends where it should, follows links, is as short as any, and meets no switch twice.
\<close>

section \<open>Distances\<close>

definition pd :: "(int \<Rightarrow> path_row) \<Rightarrow> int \<Rightarrow> int \<Rightarrow> enat" where
  "pd m i j = (case m i j of None \<Rightarrow> \<infinity> | Some (d, _) \<Rightarrow> enat d)"

lemma pd_simps [simp]: "m i j = None \<Longrightarrow> pd m i j = \<infinity>" "m i j = Some (d, q) \<Longrightarrow> pd m i j = enat d"
  by (simp_all add: pd_def)

lemma pd_enat: "pd m i j = enat d \<longleftrightarrow> (\<exists>q. m i j = Some (d, q))"
  by (auto simp: pd_def split: option.splits)

lemma pd_best: "pd (best k m) i j = min (pd m i j) (pd m i k + pd m k j)"
  by (cases "m i k"; cases "m k j"; cases "m i j") (auto simp: best_def pd_def min_def)

lemma pd_best_cases: "pd (best k m) i j = pd m i j \<or> pd (best k m) i j = pd m i k + pd m k j"
  by (simp add: pd_best min_def)

lemma best_Some:
  assumes "best k m i j = Some (d, q)"
  obtains (same) "m i j = Some (d, q)"
    | (via) a x b y where "m i k = Some (a, x)" "m k j = Some (b, y)" "d = a + b" "q = Some k"
        "case m i j of None \<Rightarrow> True | Some (c, _) \<Rightarrow> a + b < c"
  using assms by (auto simp: best_def split: option.splits prod.splits if_splits)

section \<open>The invariant of the rounds\<close>

text \<open>\<open>K\<close> are the switches whose rounds are over.\<close>

definition table_ok :: "adjacency \<Rightarrow> int list \<Rightarrow> int set \<Rightarrow> (int \<Rightarrow> path_row) \<Rightarrow> bool" where
  "table_ok adj sws K m \<longleftrightarrow>
     (\<forall>i j d q. m i j = Some (d, q) \<longrightarrow> walk adj d i j \<and> i \<in> set sws \<and> j \<in> set sws) \<and>
     (\<forall>i\<in>set sws. m i i = Some (0, None)) \<and>
     (\<forall>i j. adj i j \<noteq> None \<longrightarrow> pd m i j \<le> 1) \<and>
     (\<forall>i j k. k \<in> K \<longrightarrow> pd m i j \<le> pd m i k + pd m k j) \<and>
     (\<forall>i j d. m i j = Some (d, None) \<longrightarrow> i = j \<or> adj i j \<noteq> None \<and> d = 1) \<and>
     (\<forall>i j d k. m i j = Some (d, Some k) \<longrightarrow> i \<noteq> k \<and> k \<noteq> j \<and> i \<noteq> j \<and> pd m i k + pd m k j \<le> enat d)"

lemma table_okD:
  assumes "table_ok adj sws K m"
  shows table_walk: "m i j = Some (d, q) \<Longrightarrow> walk adj d i j"
    and table_known: "m i j = Some (d, q) \<Longrightarrow> i \<in> set sws \<and> j \<in> set sws"
    and table_self: "i \<in> set sws \<Longrightarrow> m i i = Some (0, None)"
    and table_link: "adj i j \<noteq> None \<Longrightarrow> pd m i j \<le> 1"
    and table_triangle: "k \<in> K \<Longrightarrow> pd m i j \<le> pd m i k + pd m k j"
    and table_direct: "m i j = Some (d, None) \<Longrightarrow> i = j \<or> adj i j \<noteq> None \<and> d = 1"
    and table_middle: "m i j = Some (d, Some k) \<Longrightarrow> i \<noteq> k \<and> k \<noteq> j \<and> i \<noteq> j \<and> pd m i k + pd m k j \<le> enat d"
  using assms unfolding table_ok_def by blast+

lemma table_ok_start:
  assumes "links_between adj sws"
  shows "table_ok adj sws {} (pm_row (fold (direct_paths adj) sws []))"
  using assms unfolding table_ok_def links_between_def
  by (auto simp: pm_row_start one_enat_def zero_enat_def pd_def walk_1 [simplified] split: if_splits)

text \<open>The triangle through an earlier switch survives a round.\<close>

lemma triangle_best:
  assumes "\<And>i j. pd m i j \<le> pd m i k + pd m k j"
  shows "pd (best q m) i j \<le> pd (best q m) i k + pd (best q m) k j"
proof -
  have tri: "pd m i j \<le> pd m i k + pd m k j" "pd m q j \<le> pd m q k + pd m k j" "pd m i q \<le> pd m i k + pd m k q"
    using assms by auto
  consider (1) "pd (best q m) i k = pd m i k" "pd (best q m) k j = pd m k j"
    | (2) "pd (best q m) i k = pd m i q + pd m q k" "pd (best q m) k j = pd m k j"
    | (3) "pd (best q m) i k = pd m i k" "pd (best q m) k j = pd m k q + pd m q j"
    | (4) "pd (best q m) i k = pd m i q + pd m q k" "pd (best q m) k j = pd m k q + pd m q j"
    using pd_best_cases [of q m i k] pd_best_cases [of q m k j] by blast
  then show ?thesis
  proof cases
    case 1
    then show ?thesis using tri(1) by (simp add: pd_best min.coboundedI1)
  next
    case 2
    have "pd m i q + pd m q j \<le> pd m i q + (pd m q k + pd m k j)" using tri(2) by (rule add_left_mono)
    then show ?thesis using 2 by (simp add: pd_best min.coboundedI2 add.assoc)
  next
    case 3
    have "pd m i q + pd m q j \<le> (pd m i k + pd m k q) + pd m q j" using tri(3) by (rule add_right_mono)
    then show ?thesis using 3 by (simp add: pd_best min.coboundedI2 add.assoc)
  next
    case 4
    have "pd m i q + pd m q j \<le> (pd m i q + pd m q k) + (pd m k q + pd m q j)"
      by (intro add_mono add_increasing2 add_increasing) simp_all
    then show ?thesis using 4 by (simp add: pd_best min.coboundedI2)
  qed
qed

lemma table_ok_best:
  assumes ok: "table_ok adj sws K m" and q: "q \<in> set sws"
  shows "table_ok adj sws (insert q K) (best q m)"
proof -
  note self = table_self [OF ok q]
  have le: "pd (best q m) i j \<le> pd m i j" for i j by (simp add: pd_best)
  have 1: "walk adj d i j \<and> i \<in> set sws \<and> j \<in> set sws" if "best q m i j = Some (d, k)" for i j d k
    using that
  proof (cases rule: best_Some)
    case same
    then show ?thesis using table_walk [OF ok] table_known [OF ok] by blast
  next
    case (via a x b y)
    then show ?thesis
      using walk_append [OF table_walk [OF ok via(1)] table_walk [OF ok via(2)]] table_known [OF ok via(1)] table_known [OF ok via(2)]
      by simp
  qed
  have 2: "best q m i i = Some (0, None)" if "i \<in> set sws" for i
    using table_self [OF ok that] by (auto simp: best_def split: option.split)
  have 3: "pd (best q m) i j \<le> 1" if "adj i j \<noteq> None" for i j
    using le [of i j] table_link [OF ok that] by (rule order_trans)
  have 4: "pd (best q m) i j \<le> pd (best q m) i k + pd (best q m) k j" if "k \<in> insert q K" for i j k
  proof (cases "k = q")
    case True
    have "best q m i q = m i q" "best q m q j = m q j" by (rule best_via [where m = m and k = q, OF self])+
    then have "pd (best q m) i q = pd m i q" "pd (best q m) q j = pd m q j" by (simp_all add: pd_def)
    then show ?thesis unfolding True by (simp add: pd_best [of q m i j])
  next
    case False
    with that have "k \<in> K" by simp
    then show ?thesis using table_triangle [OF ok] by (intro triangle_best) auto
  qed
  have 5: "i = j \<or> adj i j \<noteq> None \<and> d = 1" if "best q m i j = Some (d, None)" for i j d
    using that by (cases rule: best_Some) (use table_direct [OF ok] in auto)
  have 6: "i \<noteq> k \<and> k \<noteq> j \<and> i \<noteq> j \<and> pd (best q m) i k + pd (best q m) k j \<le> enat d"
    if "best q m i j = Some (d, Some k)" for i j d k
    using that
  proof (cases rule: best_Some)
    case same
    have "pd (best q m) i k + pd (best q m) k j \<le> pd m i k + pd m k j" by (intro add_mono le)
    with table_middle [OF ok same] show ?thesis by (auto intro: order_trans)
  next
    case (via a x b y)
    have "pd (best q m) i q + pd (best q m) q j \<le> pd m i q + pd m q j" by (intro add_mono le)
    moreover have "i \<noteq> q" "q \<noteq> j" using via self by auto
    moreover have "i \<noteq> j" using via table_known [OF ok via(1)] table_self [OF ok, of i] by auto
    ultimately show ?thesis using via by simp
  qed
  show ?thesis unfolding table_ok_def using 1 2 3 4 5 6 by blast
qed

lemma table_ok_relax_all:
  assumes "table_ok adj sws K (pm_row pm)" "q \<in> set sws"
  shows "table_ok adj sws (insert q K) (pm_row (relax_all sws q pm))"
proof -
  have "pm_row (relax_all sws q pm) i j = best q (pm_row pm) i j" for i j
    using pm_row_relax_all [OF table_self [OF assms]] table_known [OF assms(1), of i q] table_known [OF assms(1), of q j]
    by (auto simp: best_def split: option.split)
  then have "pm_row (relax_all sws q pm) = best q (pm_row pm)" by blast
  with table_ok_best [OF assms] show ?thesis by simp
qed

lemma table_ok_rounds:
  assumes "table_ok adj sws K (pm_row pm)" "set qs \<subseteq> set sws"
  shows "table_ok adj sws (K \<union> set qs) (pm_row (fold (relax_all sws) qs pm))"
  using assms
proof (induction qs arbitrary: K pm)
  case (Cons q qs)
  then have "table_ok adj sws (insert q K) (pm_row (relax_all sws q pm))" by (intro table_ok_relax_all) auto
  from Cons.IH [OF this] Cons.prems(2) show ?case by simp
qed simp

lemma table_ok_calc:
  assumes "links_between adj sws"
  shows "table_ok adj sws (set sws) (pm_row (calc_paths adj sws))"
  using table_ok_rounds [OF table_ok_start [OF assms], of sws] by (simp add: calc_paths_def)

section \<open>A finished table\<close>

text \<open>No walk is shorter than the table says.\<close>

lemma table_least:
  assumes ok: "table_ok adj sws (set sws) m" and c: "links_between adj sws"
  shows "walk adj n i j \<Longrightarrow> j \<in> set sws \<Longrightarrow> pd m i j \<le> enat n"
proof (induction rule: walk.induct)
  case (here i)
  then show ?case using table_self [OF ok here] by simp
next
  case (link i k n j)
  have "k \<in> set sws" using c link.hyps(1) by (auto simp: links_between_def)
  then have "pd m i j \<le> pd m i k + pd m k j" by (rule table_triangle [OF ok])
  also have "\<dots> \<le> 1 + enat n" using table_link [OF ok link.hyps(1)] link.IH [OF link.prems] by (rule add_mono)
  finally show ?case by (simp add: one_enat_def)
qed

definition shortest :: "adjacency \<Rightarrow> nat \<Rightarrow> int \<Rightarrow> int \<Rightarrow> bool" where
  "shortest adj d i j \<longleftrightarrow> walk adj d i j \<and> (\<forall>n. walk adj n i j \<longrightarrow> d \<le> n)"

lemma table_exact:
  assumes ok: "table_ok adj sws (set sws) m" and c: "links_between adj sws"
    and j: "j \<in> set sws" and s: "m i j = Some (d, q)"
  shows "shortest adj d i j"
  unfolding shortest_def using table_walk [OF ok s] table_least [OF ok c _ j, of _ i] s by auto

text \<open>The switch in between splits the path without loss, and both parts are shorter.\<close>

lemma table_split:
  assumes ok: "table_ok adj sws (set sws) m" and c: "links_between adj sws" and s: "m i j = Some (d, Some k)"
  obtains a x b y where "m i k = Some (a, x)" "m k j = Some (b, y)" "d = a + b" "0 < a" "0 < b" "k \<in> set sws" "i \<noteq> k" "k \<noteq> j"
proof -
  from table_middle [OF ok s] obtain a x b y where ab: "m i k = Some (a, x)" "m k j = Some (b, y)" "a + b \<le> d" "i \<noteq> k" "k \<noteq> j"
    by (cases "m i k"; cases "m k j") (auto simp: pd_def)
  have k: "k \<in> set sws" using table_known [OF ok ab(1)] by blast
  have "pd m i j \<le> pd m i k + pd m k j" by (rule table_triangle [OF ok k])
  with s ab have "d = a + b" by simp
  moreover have "0 < a" using table_walk [OF ok ab(1)] ab(4) by (cases a) auto
  moreover have "0 < b" using table_walk [OF ok ab(2)] ab(5) by (cases b) auto
  ultimately show ?thesis using that ab k by blast
qed

section \<open>Paths as lists\<close>

fun linked :: "adjacency \<Rightarrow> int list \<Rightarrow> bool" where
  "linked adj (a # b # p) \<longleftrightarrow> adj a b \<noteq> None \<and> linked adj (b # p)"
| "linked adj p \<longleftrightarrow> True"

lemma linked_join: "linked adj (p @ [k]) \<Longrightarrow> linked adj (k # q) \<Longrightarrow> linked adj (p @ k # q)"
  by (induction adj p rule: linked.induct) auto

lemma linked_tail: "linked adj (a # p) \<Longrightarrow> linked adj p"
  by (cases p) simp_all

lemma linked_suffix: "linked adj (p @ q) \<Longrightarrow> linked adj q"
  by (induction p) (auto dest: linked_tail)

lemma linked_prefix: "linked adj (p @ q) \<Longrightarrow> linked adj p"
  by (induction adj p rule: linked.induct) auto

lemma linked_walk: "linked adj p \<Longrightarrow> p \<noteq> [] \<Longrightarrow> walk adj (length p - 1) (hd p) (last p)"
  by (induction adj p rule: linked.induct) (auto intro: walk.intros)

text \<open>A list that is as short as any walk has no switch twice: the part between could be left out.\<close>

lemma shortest_distinct:
  assumes l: "linked adj p" and p: "p \<noteq> []" and s: "shortest adj (length p - 1) (hd p) (last p)"
  shows "distinct p"
proof (rule ccontr)
  assume "\<not> distinct p"
  then obtain xs v ys zs where e: "p = xs @ [v] @ ys @ [v] @ zs" using not_distinct_decomp by blast
  let ?q = "xs @ v # zs"
  have "linked adj (xs @ [v])" using l linked_prefix [of adj "xs @ [v]"] e by simp
  moreover have "linked adj (v # zs)" using l linked_suffix [of adj "xs @ [v] @ ys" "v # zs"] e by simp
  ultimately have "linked adj ?q" by (rule linked_join)
  then have "walk adj (length ?q - 1) (hd ?q) (last ?q)" by (rule linked_walk) simp
  moreover have "hd ?q = hd p" "last ?q = last p" using e by (cases xs; simp)+
  ultimately have "length p - 1 \<le> length ?q - 1" using s by (simp add: shortest_def)
  then show False using e by simp
qed

section \<open>Reading back\<close>

lemma raw_path_ok:
  assumes ok: "table_ok adj sws (set sws) (pm_row pm)" and c: "links_between adj sws"
  shows "pm_row pm i j = Some (d, q) \<Longrightarrow> i \<noteq> j \<Longrightarrow> d \<le> n \<Longrightarrow>
    \<exists>p. raw_path n pm i j = Inr (Some p) \<and> linked adj (i # p @ [j]) \<and> length p + 1 = d \<and> set p \<subseteq> set sws"
proof (induction n arbitrary: i j d q)
  case 0
  then have "walk adj 0 i j" using table_walk [OF ok, of i j 0 q] by simp
  with 0 show ?case by simp
next
  case (Suc n)
  show ?case
  proof (cases q)
    case None
    with table_direct [OF ok] Suc.prems have "adj i j \<noteq> None" "d = 1" by auto
    with Suc.prems None show ?thesis by auto
  next
    case (Some k)
    with Suc.prems have "pm_row pm i j = Some (d, Some k)" by simp
    from table_split [OF ok c this] obtain a x b y where ab: "pm_row pm i k = Some (a, x)" "pm_row pm k j = Some (b, y)"
      "d = a + b" "0 < a" "0 < b" "k \<in> set sws" "i \<noteq> k" "k \<noteq> j" .
    obtain p where p: "raw_path n pm i k = Inr (Some p)" "linked adj (i # p @ [k])" "length p + 1 = a" "set p \<subseteq> set sws"
      using Suc.IH [OF ab(1) ab(7)] ab(3,5) Suc.prems(3) by auto
    obtain r where r: "raw_path n pm k j = Inr (Some r)" "linked adj (k # r @ [j])" "length r + 1 = b" "set r \<subseteq> set sws"
      using Suc.IH [OF ab(2) ab(8)] ab(3,4) Suc.prems(3) by auto
    have "linked adj ((i # p) @ k # r @ [j])" using linked_join [of adj "i # p" k "r @ [j]"] p(2) r(2) by simp
    then have "linked adj (i # (p @ [k] @ r) @ [j])" by simp
    moreover have "raw_path (Suc n) pm i j = Inr (Some (p @ [k] @ r))" using p(1) r(1) Suc.prems(1,2) Some by simp
    moreover have "length (p @ [k] @ r) + 1 = d" using p(3) r(3) ab(3) by simp
    moreover have "set (p @ [k] @ r) \<subseteq> set sws" using p(4) r(4) ab(6) by simp
    ultimately show ?thesis by blast
  qed
qed

lemma map_fst_add_ports: "map fst (add_ports adj first p final) = p"
  by (induction adj first p final rule: add_ports.induct) simp_all

lemma add_ports_Nil [simp]: "add_ports adj first p final = [] \<longleftrightarrow> p = []"
  by (induction adj first p final rule: add_ports.induct) simp_all

lemma hd_add_ports: "p \<noteq> [] \<Longrightarrow> fst (snd (hd (add_ports adj first p final))) = first"
  by (induction adj first p final rule: add_ports.induct) simp_all

lemma last_add_ports: "p \<noteq> [] \<Longrightarrow> snd (snd (last (add_ports adj first p final))) = final"
  by (induction adj first p final rule: add_ports.induct) simp_all

lemma check_add_ports: "check_path adj (add_ports adj first p final)"
proof (induction adj first p final rule: add_ports.induct)
  case (1 adj first s1 s2 p final)
  then show ?case by (cases p) simp_all
qed simp_all

text \<open>A path from \<open>src\<close> to \<open>dst\<close> with its ports.\<close>

definition good_path :: "adjacency \<Rightarrow> int \<Rightarrow> int option \<Rightarrow> int \<Rightarrow> int option \<Rightarrow> hop list \<Rightarrow> bool" where
  "good_path adj src first dst final r \<longleftrightarrow>
     r \<noteq> [] \<and> fst (hd r) = src \<and> fst (snd (hd r)) = first \<and> fst (last r) = dst \<and> snd (snd (last r)) = final \<and>
     linked adj (map fst r) \<and> check_path adj r \<and> distinct (map fst r)"

lemma good_path_add_ports:
  assumes "linked adj p" "p \<noteq> []" "distinct p"
  shows "good_path adj (hd p) first (last p) final (add_ports adj first p final)"
proof -
  let ?r = "add_ports adj first p final"
  have "fst (hd ?r) = hd p" "fst (last ?r) = last p"
    using assms(2) hd_map [of ?r fst] last_map [of ?r fst] by (simp_all add: map_fst_add_ports)
  with assms show ?thesis
    by (simp add: good_path_def map_fst_add_ports hd_add_ports last_add_ports check_add_ports)
qed

lemma get_path_some:
  assumes c: "links_between adj sws" and s: "pm_row (calc_paths adj sws) src dst = Some (d, q)" and n: "length sws \<le> n"
  shows "\<exists>r. get_path n adj (calc_paths adj sws) src dst first final = Inr (Some r) \<and>
    good_path adj src first dst final r \<and> shortest adj (length r - 1) src dst"
proof -
  note ok = table_ok_calc [OF c]
  have sd: "src \<in> set sws" "dst \<in> set sws" using table_known [OF ok s] by simp_all
  have "\<exists>p. (if src = dst then Inr (Some [src])
              else rbind (raw_path n (calc_paths adj sws) src dst) (\<lambda>p. Inr (map_option (\<lambda>p. [src] @ p @ [dst]) p))) = Inr (Some p) \<and>
    p \<noteq> [] \<and> hd p = src \<and> last p = dst \<and> linked adj p \<and> length p = Suc d"
  proof (cases "src = dst")
    case True
    with s table_self [OF ok sd(1)] show ?thesis by auto
  next
    case False
    from raw_path_ok [OF ok c s False order_refl] obtain p where
      p: "linked adj (src # p @ [dst])" "length p + 1 = d" "set p \<subseteq> set sws" by blast
    have "distinct (src # p @ [dst])"
      using shortest_distinct [OF p(1)] table_exact [OF ok c sd(2) s] p(2) by simp
    then have "length (src # p @ [dst]) \<le> length sws"
      using p(3) sd by (metis card_length card_mono distinct_card finite_set insert_subset le_trans list.simps(15) set_append
          Un_insert_right sup_bot.right_neutral list.set(1))
    with n p have "d \<le> n" by simp
    from raw_path_ok [OF ok c s False this] show ?thesis using False by auto
  qed
  then obtain p where p: "p \<noteq> []" "hd p = src" "last p = dst" "linked adj p" "length p = Suc d" and
    e: "get_path n adj (calc_paths adj sws) src dst first final = Inr (Some (add_ports adj first p final))"
    by (auto simp: get_path_def check_add_ports Let_def)
  have sh: "shortest adj d src dst" by (rule table_exact [OF ok c sd(2) s])
  then have "distinct p" using shortest_distinct [OF p(4,1)] p by simp
  then have "good_path adj src first dst final (add_ports adj first p final)"
    using good_path_add_ports [OF p(4,1)] p(2,3) by simp
  moreover have "length (add_ports adj first p final) = Suc d"
    using p(5) length_map [of fst "add_ports adj first p final"] by (simp add: map_fst_add_ports)
  ultimately show ?thesis using e sh by simp
qed

lemma get_path_none:
  assumes c: "links_between adj sws" and s: "pm_row (calc_paths adj sws) src dst = None"
    and sd: "src \<in> set sws" "dst \<in> set sws" and n: "length sws \<le> n"
  shows "get_path n adj (calc_paths adj sws) src dst first final = Inr None \<and> (\<forall>k. \<not> walk adj k src dst)"
proof -
  note ok = table_ok_calc [OF c]
  have "src \<noteq> dst" using s table_self [OF ok sd(1)] by auto
  moreover obtain n' where "n = Suc n'" using n sd by (cases n) auto
  moreover have "\<not> walk adj k src dst" for k
    using table_least [OF ok c _ sd(2), of k src] s by auto
  ultimately show ?thesis using s by (simp add: get_path_def)
qed

lemma calc_paths_Nil: "calc_paths adj sws = [] \<Longrightarrow> links_between adj sws \<Longrightarrow> sws = []"
  using table_self [OF table_ok_calc, of adj sws "hd sws"] by (cases sws) auto

text \<open>Between two known switches the computed table gives a shortest path, or None when there is none.\<close>

lemma get_path_shortest:
  assumes "links_between adj sws" "src \<in> set sws" "dst \<in> set sws" "length sws \<le> depth"
  shows "\<exists>p. get_path depth adj (calc_paths adj sws) src dst first final = Inr p \<and>
    (case p of
       None \<Rightarrow> \<forall>n. \<not> walk adj n src dst
     | Some r \<Rightarrow> good_path adj src first dst final r \<and> shortest adj (length r - 1) src dst)"
proof (cases "pm_row (calc_paths adj sws) src dst")
  case None
  from get_path_none [OF assms(1) this assms(2-4)] show ?thesis by auto
next
  case (Some v)
  then obtain d q where "pm_row (calc_paths adj sws) src dst = Some (d, q)" by (cases v) auto
  from get_path_some [OF assms(1) this assms(4), of first final] show ?thesis by auto
qed

end
