(* ===== verification/L2_Multi_Properties.thy ===== *)
theory L2_Multi_Properties
  imports L2_Multi Shortest_Paths_Properties Tree_Flooding_Properties
begin

text \<open>
  The paths \<^verbatim>\<open>l2_multi\<close> installs are shortest paths over the links it believes in at that moment, whatever happened
  before; how these links follow those of discovery, and where they do not; when a waiting packet is let go.
\<close>

lemmas l2m_simps = get_l2m_def upd_l2m_def upd_switch_def disc_simps

section \<open>What actions keep\<close>

lemma keeps_upd_l2m [keeps_intro]: "(\<And>s. P s \<Longrightarrow> P (f s)) \<Longrightarrow> keeps (\<lambda>c. P (dc_rest (ct_app c))) (upd_l2m f)"
  unfolding upd_l2m_def by (rule keeps_app_upd [where P = "\<lambda>d. P (dc_rest d)"]) simp

lemma keeps_get_l2m [keeps_intro]: "keeps P (get_l2m g)"
  unfolding get_l2m_def by (rule keeps_intro)

lemma keeps_xid [keeps_intro]: "keeps (\<lambda>c. P (ct_app c)) (sent_xid m)"
proof -
  have "keeps (\<lambda>c. P (ct_app c)) (modify (\<lambda>c. c\<lparr>ct_xid := g\<rparr>))" for g by (simp add: keeps_def modify_def)
  then show ?thesis unfolding sent_xid_def by (cases m) (auto intro!: keeps_intro)
qed

lemma keeps_rest_send [keeps_intro]: "keeps (\<lambda>c. P (dc_rest (ct_app c))) (con_send cid m)"
  using keeps_app_send(1) [where P = "\<lambda>d. P (dc_rest d)"] .

lemma keeps_rest_xid [keeps_intro]: "keeps (\<lambda>c. P (dc_rest (ct_app c))) (sent_xid m)"
  using keeps_xid [where P = "\<lambda>d. P (dc_rest d)"] .

text \<open>Nothing but the link events and new switches touches the links.\<close>

definition same_routes :: "l2_multi \<Rightarrow> l2_multi \<Rightarrow> bool" where
  "same_routes s s' \<longleftrightarrow> lm_adjacency s' = lm_adjacency s \<and> lm_path_map s' = lm_path_map s \<and> map fst (lm_switches s') = map fst (lm_switches s)"

locale route_property =
  fixes R :: "l2_multi \<Rightarrow> bool"
  assumes same: "same_routes s s' \<Longrightarrow> R s \<Longrightarrow> R s'"
    and fresh: "R s \<Longrightarrow> R (fresh_paths s)"
    and new_switch: "map_of (lm_switches s) d = None \<Longrightarrow> R s \<Longrightarrow> R (s\<lparr>lm_switches := lm_switches s @ [(d, l2m_switch_init)]\<rparr>)"
begin

abbreviation K :: "(l2_multi, 'r) disc \<Rightarrow> bool" where
  "K m \<equiv> keeps (\<lambda>c. R (dc_rest (ct_app c))) m"

lemma K_same: "(\<And>s. same_routes s (f s)) \<Longrightarrow> K (upd_l2m f)"
  using same by (intro keeps_intro) blast

lemma K_upd_switch: "K (upd_switch d f)"
  unfolding upd_switch_def by (rule K_same) (auto simp: same_routes_def)

lemma K_sw_send: "K (sw_send d m)"
  unfolding sw_send_def by (intro keeps_intro)

lemma K_waiting: "K (new_waiting_path p m)" "K (add_xid i d xid)" "K (wp_notify i k)"
  unfolding new_waiting_path_def add_xid_def wp_notify_def resend_def
  by (intro keeps_intro K_same; auto simp: same_routes_def expire_waiting_paths_def Let_def)+

lemma K_hop: "K (install_hop d i q m)"
  unfolding install_hop_def by (intro keeps_intro K_sw_send)

lemma K_hops: "K (install_hops i p m)"
  by (induction i p m rule: install_hops.induct) (auto intro!: keeps_intro K_sw_send K_waiting K_hop)

lemma K_find_path: "K (find_path a b f l)"
  unfolding find_path_def by (intro keeps_intro) (auto intro: fresh)

lemma K_install_path: "K (install_path x i self dest m packet ofp)"
  unfolding install_path_def install_path_hops_def
  by (intro keeps_intro K_find_path K_waiting K_hops K_sw_send)

lemma K_flood: "K (l2m_flood self ofp)" "K (l2m_drop self ofp)"
  unfolding l2m_flood_def l2m_drop_def by (intro keeps_intro K_sw_send)+

lemma learn_same: "learn_mac ls self port src s = Inr s' \<Longrightarrow> same_routes s s'"
  by (auto simp: learn_mac_def Let_def same_routes_def rbind_Inr_iff split: option.splits if_splits)

lemma K_packet_in: "K (l2m_PacketIn x i self ofp)"
proof -
  have step: "K (sbind (get_disc (\<lambda>d. learn_mac (ls d) self port src (dc_rest d))) (\<lambda>r.
      sbind (lift r) (\<lambda>s. sbind (upd_l2m (\<lambda>_. s)) (\<lambda>_. g s))))" if "\<And>s. K (g s)" for ls port src g
  proof -
    have "R (dc_rest (ct_app (snd (g s' (c\<lparr>ct_app := (ct_app c)\<lparr>dc_rest := s'\<rparr>\<rparr>)))))"
      if "R (dc_rest (ct_app c))" "learn_mac (ls (ct_app c)) self port src (dc_rest (ct_app c)) = Inr s'" for c s'
      using same [OF learn_same [OF that(2)] that(1)] keepsD [OF \<open>K (g s')\<close>] by simp
    then show ?thesis by (auto simp: keeps_def l2m_simps lift_def split: sum.split)
  qed
  show ?thesis unfolding l2m_PacketIn_def
    by (rule keeps_sbind [OF keeps_basic(3)], rule keeps_branch(1) [OF K_flood(2)], rule step) (intro keeps_intro K_flood K_install_path)
qed

lemma K_connect: "K (switch_connect d cid)"
  unfolding switch_connect_def by (intro keeps_intro K_upd_switch)

lemma K_connection: "K (l2m_ConnectionUp cid)" "K (l2m_ConnectionDown d)" "K (l2m_BarrierIn cid xid)"
  unfolding l2m_ConnectionUp_def l2m_ConnectionDown_def l2m_BarrierIn_def
  by (intro keeps_intro K_connect K_upd_switch K_same K_waiting; auto intro: new_switch simp: same_routes_def)+

lemma K_event: "K (l2m_event x i src ev)"
  by (cases src; cases ev) (auto simp: l2m_event_def intro!: keeps_intro K_connection K_packet_in)

end

section \<open>The links and the cached paths\<close>

text \<open>
  Links are between known switches and go both ways, and the cached paths, if there are any, were computed from the links
  as they are, with all the switches that have links.
\<close>

definition routes_ok :: "l2_multi \<Rightarrow> bool" where
  "routes_ok s \<longleftrightarrow>
     links_between (lm_adjacency s) (map fst (lm_switches s)) \<and>
     (\<forall>a b. lm_adjacency s a b = None \<longleftrightarrow> lm_adjacency s b a = None) \<and>
     (lm_path_map s = [] \<or> (\<exists>sws. set sws \<subseteq> fst ` set (lm_switches s) \<and> length sws \<le> length (lm_switches s) \<and>
        links_between (lm_adjacency s) sws \<and> lm_path_map s = calc_paths (lm_adjacency s) sws))"

lemma links_between_mono: "links_between adj xs \<Longrightarrow> set xs \<subseteq> set ys \<Longrightarrow> links_between adj ys"
  by (auto simp: links_between_def)

interpretation routes: route_property routes_ok
proof
  fix s s' assume "same_routes s s'" "routes_ok s"
  moreover from this have "fst ` set (lm_switches s') = fst ` set (lm_switches s)" "length (lm_switches s') = length (lm_switches s)"
    unfolding same_routes_def by (metis set_map, metis length_map)
  ultimately show "routes_ok s'" by (simp add: routes_ok_def same_routes_def)
next
  fix s assume "routes_ok s"
  then show "routes_ok (fresh_paths s)"
    by (cases "lm_path_map s = []") (auto simp: routes_ok_def fresh_paths_def intro!: exI [of _ "map fst (lm_switches s)"])
next
  fix s d assume r: "routes_ok s"
  have "links_between (lm_adjacency s) (map fst (lm_switches s @ [(d, l2m_switch_init)]))"
    using r by (auto simp: routes_ok_def intro: links_between_mono)
  then show "routes_ok (s\<lparr>lm_switches := lm_switches s @ [(d, l2m_switch_init)]\<rparr>)"
    using r by (auto simp: routes_ok_def)
qed

text \<open>What a link event does to the state of the listener, when it does anything.\<close>

definition after_link :: "bool \<Rightarrow> Link list \<Rightarrow> Link \<Rightarrow> l2_multi \<Rightarrow> l2_multi" where
  "after_link add links l s = s\<lparr>lm_path_map := [],
     lm_adjacency := (if add then link_up links l else link_gone links l) (lm_adjacency s),
     lm_mac_map := (if add then unlearn l else id) (lm_mac_map s)\<rparr>"

lemma clear_flows_app: "ct_app (snd (clear_flows m sws c)) = ct_app c"
proof -
  have "keeps (\<lambda>c. ct_app c = a) (clear_flows m sws)" for a :: "l2_multi discovery"
    by (induction m sws rule: clear_flows.induct) (auto intro!: keeps_intro split: option.split)
  then show ?thesis using keepsD by fastforce
qed

lemma link_event_effect:
  "ct_app (l2m_links add l c) = ct_app c \<or>
   map_of (lm_switches (dc_rest (ct_app c))) (dpid1 l) \<noteq> None \<and> map_of (lm_switches (dc_rest (ct_app c))) (dpid2 l) \<noteq> None \<and>
   ct_app (l2m_links add l c) = (ct_app c)\<lparr>dc_rest := after_link add (map fst (dc_adjacency (ct_app c))) l (dc_rest (ct_app c))\<rparr>"
proof (cases "map_of (lm_switches (dc_rest (ct_app c))) (dpid1 l) = None \<or> map_of (lm_switches (dc_rest (ct_app c))) (dpid2 l) = None")
  case True
  then show ?thesis by (auto simp: l2m_links_def l2m_LinkEvent_def l2m_simps)
next
  case False
  let ?m = "MFlowMod (ofp_flow_mod_init\<lparr>fm_command := OFPFC_DELETE\<rparr>)"
  obtain r c1 where 1: "clear_flows ?m (lm_switches (dc_rest (ct_app c))) c = (r, c1)" by fastforce
  have a: "ct_app c1 = ct_app c" using clear_flows_app [of ?m _ c] 1 by (metis snd_conv)
  obtain s1 s2 where s: "map_of (lm_switches (dc_rest (ct_app c))) (dpid1 l) = Some s1" "map_of (lm_switches (dc_rest (ct_app c))) (dpid2 l) = Some s2"
    using False by auto
  show ?thesis by (cases r) (simp_all add: l2m_links_def l2m_LinkEvent_def l2m_simps s 1 a after_link_def)
qed

interpretation l2m: link_listener l2m_links
proof
  fix add l and c :: "l2_multi discovery controller"
  show "dc_adjacency (ct_app (l2m_links add l c)) = dc_adjacency (ct_app c)"
    by (rule disjE [OF link_event_effect [of add l c]]) simp_all
  show "dc_events (ct_app (l2m_links add l c)) = dc_events (ct_app c)"
    by (rule disjE [OF link_event_effect [of add l c]]) simp_all
qed

lemma adj_put: "adj_put a b p adj x y = (if x = a \<and> y = b then p else adj x y)"
  by (simp add: adj_put_def)

lemma if_again: "(if P then u else if Q then v else if P then u' else if Q then v' else w) = (if P then u else if Q then v else w)"
  by simp

lemma if_skip: "\<not> (C \<and> (B \<or> A)) \<Longrightarrow> (if C then if A then u else if B then v else w else w) = w"
  by simp

lemma if_skip_both: "\<not> (B \<or> A) \<Longrightarrow> (if A then u else if B then v else w) = w"
  by simp

lemma link_gone_eq: "link_gone links l adj x y =
   (if (x, y) = (dpid2 l, dpid1 l) then map_option port2 (other_way links l)
    else if (x, y) = (dpid1 l, dpid2 l) then map_option port1 (other_way links l)
    else adj x y)"
proof (cases "other_way links l")
  case None
  then show ?thesis by (simp only: link_gone_def Let_def adj_put option.case option.map prod.inject)
next
  case (Some ll)
  then show ?thesis
    by (simp only: link_gone_def Let_def adj_put option.case option.map prod.inject if_again)
qed

lemma link_up_eq: "link_up links l adj x y =
   (if adj (dpid1 l) (dpid2 l) = None \<and> flip_link l \<in> set links then
      (if (x, y) = (dpid2 l, dpid1 l) then Some (port2 l) else if (x, y) = (dpid1 l, dpid2 l) then Some (port1 l) else adj x y)
    else adj x y)"
  by (cases l) (simp add: link_up_def Let_def adj_put)

lemma routes_ok_link:
  assumes r: "routes_ok s" and "map_of (lm_switches s) (dpid1 l) \<noteq> None" "map_of (lm_switches s) (dpid2 l) \<noteq> None"
  shows "routes_ok (after_link add links l s)"
proof -
  have k: "dpid1 l \<in> set (map fst (lm_switches s))" "dpid2 l \<in> set (map fst (lm_switches s))"
    using assms(2,3) by (simp_all add: map_of_eq_None_iff)
  obtain a p b q where l: "l = Link a p b q" by (cases l)
  have s: "\<And>x y. lm_adjacency s x y = None \<longleftrightarrow> lm_adjacency s y x = None" using r by (simp add: routes_ok_def)
  let ?f = "(if add then link_up links l else link_gone links l) (lm_adjacency s)"
  have d: "?f x y = lm_adjacency s x y \<or> (x, y) = (a, b) \<or> (x, y) = (b, a)" for x y
    by (simp add: l link_up_eq link_gone_eq)
  have "links_between ?f (map fst (lm_switches s))"
  proof -
    have "x \<in> set (map fst (lm_switches s)) \<and> y \<in> set (map fst (lm_switches s))" if "?f x y \<noteq> None" for x y
    proof -
      have "lm_adjacency s x y \<noteq> None \<Longrightarrow> x \<in> set (map fst (lm_switches s)) \<and> y \<in> set (map fst (lm_switches s))"
        using r unfolding routes_ok_def links_between_def by blast
      then show ?thesis using d [of x y] that k l by auto
    qed
    then show ?thesis by (simp add: links_between_def)
  qed
  moreover have "?f x y = None \<longleftrightarrow> ?f y x = None" for x y
  proof (cases "(x, y) = (a, b) \<or> (x, y) = (b, a)")
    case True
    have "?f a b = None \<longleftrightarrow> ?f b a = None" using s by (cases "a = b") (auto simp: l link_up_eq link_gone_eq)
    with True show ?thesis by (elim disjE) (simp_all only: prod.inject simp_thms)
  next
    case False
    with d [of x y] d [of y x] have "?f x y = lm_adjacency s x y" "?f y x = lm_adjacency s y x" by blast+
    with s show ?thesis by simp
  qed
  ultimately show ?thesis by (simp add: routes_ok_def after_link_def)
qed

lemma routes_ok_links: "routes_ok (dc_rest (ct_app c)) \<Longrightarrow> routes_ok (dc_rest (ct_app (l2m_links add l c)))"
  by (rule disjE [OF link_event_effect [of add l c]]) (simp_all add: routes_ok_link)

section \<open>Whatever happens\<close>

text \<open>Discovery leaves the state of its listeners to them.\<close>

locale rest_kept =
  fixes lk :: "'b link_app" and R :: "'b \<Rightarrow> bool"
  assumes kept: "R (dc_rest (ct_app c)) \<Longrightarrow> R (dc_rest (ct_app (lk add l c)))"
begin

abbreviation D :: "('b, 'r) disc \<Rightarrow> bool" where
  "D m \<equiv> keeps (\<lambda>c. R (dc_rest (ct_app c))) m"

lemma D_upd: "(\<And>d. dc_rest (f d) = dc_rest d) \<Longrightarrow> D (upd_disc f)"
  by (simp add: keeps_def disc_simps)

lemma D_send: "D (con_send cid m)" "D (sendToDPID dpid data)" "D (pack_msg m)"
  using keeps_app_send [where P = "\<lambda>d. R (dc_rest d)"] keeps_app_basic(7) [where P = "\<lambda>d. R (dc_rest d)"] by blast+

lemma D_raise: "D (raise_link lk add l)"
  unfolding raise_link_def by (intro keeps_intro D_upd) (simp_all add: keeps_def modify_def kept)

lemma D_links: "D (delete_links lk ls)" "D (link_seen lk l)"
  unfolding delete_links_def link_seen_def by (intro keeps_intro D_upd D_raise; simp)+

lemma D_learn: "D (learn_link lk dpid port tlvs)"
  unfolding learn_link_def by (intro keeps_intro; cases "tlvs ! 1") (auto intro!: keeps_intro D_links split: option.split)

lemma D_timer: "D set_timer"
  unfolding set_timer_def by (rule D_upd) (simp add: Let_def)

lemma D_del: "D (del_switch dpid b)" "D (del_port dpid p b)"
  unfolding del_switch_def del_port_def by (intro keeps_intro D_upd D_timer; simp)+

lemma D_add_port: "D (sender_add_port dpid p a b)"
  unfolding sender_add_port_def create_packet_out_def by (intro keeps_intro D_upd D_timer D_del D_send) simp_all

lemma D_items: "D (send_items n)"
proof -
  have "D next_item" unfolding next_item_def by (intro keeps_intro D_upd) simp_all
  then show ?thesis by (induction n) (auto intro!: keeps_intro D_send)
qed

lemma D_expire: "D (expire_links lk)" "D (timer_handler r)"
  unfolding expire_links_def timer_handler_def Let_def by (intro keeps_intro D_links D_items)+

lemma D_nexus: "D (discovery_nexus x lk ev)"
proof -
  have "D (disc_ConnectionDown lk cid)" for cid unfolding disc_ConnectionDown_def by (intro keeps_intro D_links)
  moreover have "D (disc_PacketIn x lk cid m)" for cid m
    unfolding disc_PacketIn_def by (intro keeps_intro D_learn D_send)
  ultimately show ?thesis
    by (cases ev) (auto simp: discovery_nexus_def install_flow_def sender_ConnectionUp_def sender_ConnectionDown_def
        sender_PortStatus_def intro!: keeps_intro D_send D_del D_timer D_add_port)
qed

end

interpretation l2m_rest: rest_kept l2m_links routes_ok
  by unfold_locales (rule routes_ok_links)

text \<open>Steps of the controller with discovery and \<^verbatim>\<open>l2_multi\<close>; other parts leave both alone.\<close>

inductive l2m_step :: "pk_ext \<Rightarrow> l2_multi discovery controller \<Rightarrow> l2_multi discovery controller \<Rightarrow> bool" for x where
  own: "l2m_step x c (snd (l2m_event x i src ev c))"
| nexus: "l2m_step x c (snd (discovery_nexus x l2m_links ev c))"
| expire: "l2m_step x c (snd (expire_links l2m_links c))"
| timer: "l2m_step x c (snd (timer_handler r c))"
| seen: "l2m_step x c (snd (link_seen l2m_links l c))"
| other: "ct_app c' = ct_app c \<Longrightarrow> l2m_step x c c'"

lemma routes_ok_step: "l2m_step x c c' \<Longrightarrow> routes_ok (dc_rest (ct_app c)) \<Longrightarrow> routes_ok (dc_rest (ct_app c'))"
  by (induction rule: l2m_step.induct)
     (auto intro: keepsD [OF routes.K_event] keepsD [OF l2m_rest.D_nexus] keepsD [OF l2m_rest.D_expire(1)] keepsD [OF l2m_rest.D_expire(2)] keepsD [OF l2m_rest.D_links(2)])

lemma routes_ok_init: "routes_ok (l2_multi_init depth)"
  by (simp add: routes_ok_def l2_multi_init_def links_between_def)

lemma routes_ok_reachable: "(l2m_step x)\<^sup>*\<^sup>* c c' \<Longrightarrow> routes_ok (dc_rest (ct_app c)) \<Longrightarrow> routes_ok (dc_rest (ct_app c'))"
  by (induction rule: rtranclp_induct) (auto intro: routes_ok_step)

section \<open>The path that is found\<close>

lemma find_path_ok:
  assumes r: "routes_ok (dc_rest (ct_app c))" and sd: "src \<in> fst ` set (lm_switches (dc_rest (ct_app c)))"
    "dst \<in> fst ` set (lm_switches (dc_rest (ct_app c)))"
    and n: "length (lm_switches (dc_rest (ct_app c))) \<le> lm_depth (dc_rest (ct_app c))"
  shows "\<exists>p. fst (find_path src dst first final c) = Inr p \<and>
    (case p of
       None \<Rightarrow> \<forall>n. \<not> walk (lm_adjacency (dc_rest (ct_app c))) n src dst
     | Some h \<Rightarrow> good_path (lm_adjacency (dc_rest (ct_app c))) src first dst final h \<and>
         shortest (lm_adjacency (dc_rest (ct_app c))) (length h - 1) src dst)"
proof -
  define s where "s = dc_rest (ct_app c)"
  define s' where "s' = (if src = dst then s else fresh_paths s)"
  let ?g = "get_path (lm_depth s) (lm_adjacency s) (lm_path_map s') src dst first final"
  have f: "fst (find_path src dst first final c) = ?g"
    by (auto simp: find_path_def l2m_simps lift_def s_def s'_def fresh_paths_def)
  show ?thesis
  proof (cases "src = dst")
    case True
    have "?g = Inr (Some [(src, first, final)])" by (simp add: get_path_def True)
    moreover have "shortest (lm_adjacency s) 0 src src" by (simp add: shortest_def)
    ultimately show ?thesis using f True by (simp add: good_path_def s_def)
  next
    case False
    have "routes_ok (fresh_paths s)" using routes.fresh r by (simp add: s_def)
    moreover have "links_between (lm_adjacency s) (map fst (lm_switches s))" using r by (simp add: routes_ok_def s_def)
    then have "fresh_paths s = s' \<and> lm_path_map s' \<noteq> []"
      using False sd calc_paths_Nil [of "lm_adjacency s" "map fst (lm_switches s)"] by (auto simp: s'_def fresh_paths_def s_def)
    ultimately have "\<exists>sws. set sws \<subseteq> fst ` set (lm_switches s') \<and> length sws \<le> length (lm_switches s') \<and>
        links_between (lm_adjacency s') sws \<and> lm_path_map s' = calc_paths (lm_adjacency s') sws"
      unfolding routes_ok_def by metis
    moreover have "lm_switches s' = lm_switches s" "lm_adjacency s' = lm_adjacency s" by (simp_all add: s'_def fresh_paths_def)
    ultimately obtain sws where sws: "set sws \<subseteq> fst ` set (lm_switches s)" "length sws \<le> length (lm_switches s)"
      "links_between (lm_adjacency s) sws" "lm_path_map s' = calc_paths (lm_adjacency s) sws"
      by metis
    show ?thesis
    proof (cases "src \<in> set sws \<and> dst \<in> set sws")
      case True
      have "length sws \<le> lm_depth s" using n sws(2) by (simp add: s_def)
      from get_path_shortest [OF sws(3) _ _ this, of src dst first final] True show ?thesis
        unfolding f sws(4) s_def [symmetric] by blast
    next
      case nk: False
      have "pm_row (calc_paths (lm_adjacency s) sws) src dst = None"
        using nk table_known [OF table_ok_calc [OF sws(3)], of src dst] by (cases "pm_row (calc_paths (lm_adjacency s) sws) src dst") auto
      moreover have "lm_depth s \<noteq> 0" using n sd by (cases "lm_switches s") (auto simp: s_def)
      ultimately have "?g = Inr None" using False by (cases "lm_depth s") (simp_all add: get_path_def sws(4))
      moreover have "\<not> walk (lm_adjacency s) k src dst" for k
        using walk_between [OF _ sws(3), of k src dst] nk False by auto
      ultimately show ?thesis using f by (simp add: s_def)
    qed
  qed
qed

text \<open>
  C39. Paths are shortest paths over the present links. From the start of \<^verbatim>\<open>l2_multi\<close>, whatever discovery, connections, barriers and
  packets did before, the path it finds between two switches it knows is a shortest path over the links it has at that moment,
  with the ports of these links, and it finds one unless no links lead there; links that come or go never leave an outdated path
  in the table. The recursion limit is at least the number of switches.
\<close>

theorem found_paths_current:
  assumes "(l2m_step x)\<^sup>*\<^sup>* c0 c" "dc_rest (ct_app c0) = l2_multi_init depth" "s = dc_rest (ct_app c)"
    "src \<in> fst ` set (lm_switches s)" "dst \<in> fst ` set (lm_switches s)" "length (lm_switches s) \<le> lm_depth s"
  shows "\<exists>p. fst (find_path src dst first final c) = Inr p \<and>
    (case p of
       None \<Rightarrow> \<forall>n. \<not> walk (lm_adjacency s) n src dst
     | Some h \<Rightarrow> good_path (lm_adjacency s) src first dst final h \<and> shortest (lm_adjacency s) (length h - 1) src dst)"
  unfolding assms(3)
proof (rule find_path_ok)
  show "routes_ok (dc_rest (ct_app c))"
    using routes_ok_reachable [OF assms(1)] routes_ok_init [of depth] assms(2) by simp
qed (use assms(3-) in simp_all)

section \<open>Links of discovery and links of the paths\<close>

text \<open>The message that clears the flow tables, with the xid it may have got.\<close>

definition clear_mod :: "int option \<Rightarrow> ofp_flow_mod" where
  "clear_mod x = ofp_flow_mod_init\<lparr>fm_command := OFPFC_DELETE, hdr_xid := x\<rparr>"

definition xid_fits :: "int option \<Rightarrow> bool" where
  "xid_fits x \<longleftrightarrow> (case x of None \<Rightarrow> True | Some v \<Rightarrow> 0 \<le> v \<and> v < 4294967296)"

lemma clear_mod_pack:
  assumes "xid_ok g" "xid_fits x"
  shows "\<exists>bs v g'. ofp_flow_mod_pack g (clear_mod x) = Inr (bs, clear_mod (Some v), g') \<and> xid_ok g' \<and> xid_fits (Some v)"
proof -
  obtain v g' where v: "ofp_header_xid g (clear_mod x) = (v, clear_mod (Some v), g')" "xid_ok g'" "0 \<le> v" "v < 4294967296"
  proof (cases x)
    case None
    obtain v g' where n: "xid_next g = (v, g')" by fastforce
    then have "ofp_header_xid g (clear_mod x) = (v, clear_mod (Some v), g')"
      by (simp add: ofp_header_xid_def None clear_mod_def)
    with xid_ok_next [OF assms(1) n] that show ?thesis by blast
  next
    case (Some v)
    then have "ofp_header_xid g (clear_mod x) = (v, clear_mod (Some v), g)"
      by (simp add: ofp_header_xid_def clear_mod_def)
    with assms Some that show ?thesis by (auto simp: xid_fits_def)
  qed
  obtain bm where bm: "ofp_match_pack True ofp_match_init = Inr bm"
  proof -
    have "\<not> isl (ofp_match_pack True ofp_match_init)" by code_simp
    then show ?thesis using that by (cases "ofp_match_pack True ofp_match_init") auto
  qed
  have len: "ofp_flow_mod_len (clear_mod x) = 72"
    by (simp add: clear_mod_def ofp_flow_mod_len_def ofp_flow_mod_init_def ofp_match_len_def actions_len_def)
  have data: "flow_mod_data (clear_mod x) = Inr (4294967295, None, clear_mod x)"
    by (simp add: flow_mod_data_def clear_mod_def ofp_flow_mod_init_def buffer_id_set_def buffer_id_get_def NO_BUFFER_def)
  have hd: "\<exists>p. ofp_header_pack True 72 g (clear_mod x) = Inr (p, clear_mod (Some v), g')"
    using v by (simp add: ofp_header_pack_def struct_pack_def clear_mod_def ofp_flow_mod_init_def OFP_VERSION_def)
  have f: "fm_match (clear_mod y) = ofp_match_init" "fm_cookie (clear_mod y) = 0" "fm_command (clear_mod y) = 3"
    "fm_idle_timeout (clear_mod y) = 0" "fm_hard_timeout (clear_mod y) = 0" "fm_priority (clear_mod y) = 32768"
    "fm_out_port (clear_mod y) = 65535" "fm_flags (clear_mod y) = 0" "fm_actions (clear_mod y) = []"
    "clear_mod y\<lparr>fm_actions := []\<rparr> = clear_mod y" for y
    by (simp_all add: clear_mod_def ofp_flow_mod_init_def OFPFC_DELETE_def OFP_DEFAULT_PRIORITY_def OFPP_NONE_def)
  obtain p where "ofp_header_pack True 72 g (clear_mod x) = Inr (p, clear_mod (Some v), g')" using hd by blast
  then show ?thesis using v
    by (simp add: ofp_flow_mod_pack_def data len f bm struct_pack_def xid_fits_def) (intro exI [of _ v], simp)
qed

lemma clear_flows_ok:
  "xid_ok (ct_xid c) \<Longrightarrow> xid_fits x \<Longrightarrow>
   \<exists>c'. clear_flows (MFlowMod (clear_mod x)) sws c = (Inr (), c') \<and> xid_ok (ct_xid c') \<and> ct_app c' = ct_app c"
proof (induction sws arbitrary: c x)
  case (Cons e sws)
  obtain dpid sw where e: "e = (dpid, sw)" by (cases e)
  show ?case
  proof (cases "sw_connection sw")
    case (Some cid)
    have "\<exists>y c1. con_send cid (MFlowMod (clear_mod x)) c = (Inr (MFlowMod (clear_mod y)), c1) \<and> xid_fits y \<and>
        xid_ok (ct_xid c1) \<and> ct_app c1 = ct_app c"
    proof (cases "cx_disconnected (ct_conns c cid)")
      case False
      obtain bs v g where p: "ofp_flow_mod_pack (ct_xid c) (clear_mod x) = Inr (bs, clear_mod (Some v), g)" "xid_ok g" "xid_fits (Some v)"
        using clear_mod_pack [OF Cons.prems] by blast
      obtain r c1 where s: "send_bytes cid bs (c\<lparr>ct_xid := g\<rparr>) = (r, c1)" by fastforce
      have "r = Inr ()" "ct_xid c1 = g" using send_bytes_ok [of cid bs "c\<lparr>ct_xid := g\<rparr>"] s by simp_all
      moreover have "ct_app c1 = ct_app c"
        using keepsD [OF keeps_app_send_bytes [where P = "\<lambda>a. a = ct_app c" and cid = cid and data = bs], of "c\<lparr>ct_xid := g\<rparr>"] s by simp
      ultimately have "con_send cid (MFlowMod (clear_mod x)) c = (Inr (MFlowMod (clear_mod (Some v))), c1)"
        using False p s by (simp add: con_send_def ctl_simps pack_msg_def)
      with p \<open>ct_xid c1 = g\<close> \<open>ct_app c1 = ct_app c\<close> show ?thesis by blast
    qed (use Cons.prems in \<open>auto simp: con_send_def ctl_simps\<close>)
    then obtain y c1 where 1: "con_send cid (MFlowMod (clear_mod x)) c = (Inr (MFlowMod (clear_mod y)), c1)" "xid_fits y"
      "xid_ok (ct_xid c1)" "ct_app c1 = ct_app c" by blast
    from Cons.IH [OF 1(3,2)] 1 e Some show ?thesis by (auto simp: sbind_def)
  qed (use Cons e in auto)
qed (auto simp: ret_def)

lemma link_event_done:
  assumes "xid_ok (ct_xid c)"
  shows "xid_ok (ct_xid (l2m_links add l c))"
    "map_of (lm_switches (dc_rest (ct_app c))) (dpid1 l) \<noteq> None \<Longrightarrow> map_of (lm_switches (dc_rest (ct_app c))) (dpid2 l) \<noteq> None \<Longrightarrow>
     ct_app (l2m_links add l c) = (ct_app c)\<lparr>dc_rest := after_link add (map fst (dc_adjacency (ct_app c))) l (dc_rest (ct_app c))\<rparr>"
proof -
  have m: "MFlowMod (ofp_flow_mod_init\<lparr>fm_command := OFPFC_DELETE\<rparr>) = MFlowMod (clear_mod None)"
    by (simp add: clear_mod_def ofp_flow_mod_init_def)
  obtain c1 where 1: "clear_flows (MFlowMod (clear_mod None)) (lm_switches (dc_rest (ct_app c))) c = (Inr (), c1)"
    "xid_ok (ct_xid c1)" "ct_app c1 = ct_app c"
    using clear_flows_ok [OF assms, of None] by (auto simp: xid_fits_def)
  show "xid_ok (ct_xid (l2m_links add l c))"
    using assms by (simp add: l2m_links_def l2m_LinkEvent_def l2m_simps m 1)
  show "map_of (lm_switches (dc_rest (ct_app c))) (dpid1 l) \<noteq> None \<Longrightarrow> map_of (lm_switches (dc_rest (ct_app c))) (dpid2 l) \<noteq> None \<Longrightarrow>
     ct_app (l2m_links add l c) = (ct_app c)\<lparr>dc_rest := after_link add (map fst (dc_adjacency (ct_app c))) l (dc_rest (ct_app c))\<rparr>"
    by (auto simp: l2m_links_def l2m_LinkEvent_def l2m_simps m 1 after_link_def)
qed

text \<open>
  A link in the paths stands for a link of discovery that goes both ways, and is none of \<open>dead\<close>. (A switch that is linked to
  itself does not count: no path uses such a link.)
\<close>

definition backed_without :: "Link set \<Rightarrow> l2_multi discovery \<Rightarrow> bool" where
  "backed_without dead d \<longleftrightarrow> (\<forall>a b p. a \<noteq> b \<longrightarrow> lm_adjacency (dc_rest d) a b = Some p \<longrightarrow>
     (\<exists>q. lm_adjacency (dc_rest d) b a = Some q \<and> {Link a p b q, Link b q a p} \<subseteq> fst ` set (dc_adjacency d) - dead))"

definition l2m_good :: "l2_multi discovery controller \<Rightarrow> bool" where
  "l2m_good c \<longleftrightarrow> routes_ok (dc_rest (ct_app c)) \<and> xid_ok (ct_xid c) \<and> backed_without {} (ct_app c)"

text \<open>No two of the links are parallel.\<close>

definition no_parallel :: "Link set \<Rightarrow> bool" where
  "no_parallel G \<longleftrightarrow> (\<forall>l\<in>G. \<forall>k\<in>G. (dpid1 k, dpid2 k) = (dpid1 l, dpid2 l) \<longrightarrow> k = l) \<and>
     (\<forall>l\<in>G. \<forall>k\<in>G. (dpid1 k, dpid2 k) = (dpid2 l, dpid1 l) \<longrightarrow> k = flip_link l)"

lemma flip_flip [simp]: "flip_link (flip_link l) = l"
  by (cases l) (simp add: flip_link_def)

lemma flip_sel [simp]: "dpid1 (flip_link l) = dpid2 l" "dpid2 (flip_link l) = dpid1 l" "port1 (flip_link l) = port2 l" "port2 (flip_link l) = port1 l"
  by (simp_all add: flip_link_def)

lemma other_way_Some:
  "other_way links l = Some k \<Longrightarrow> k \<in> set links \<and> flip_link k \<in> set links \<and> k \<noteq> l \<and> dpid1 k = dpid1 l \<and> dpid2 k = dpid2 l"
  by (auto simp: other_way_def find_Some_iff)

text \<open>The other way is none of the links that go, when none of these are parallel.\<close>

lemma other_way_stays:
  assumes "other_way links l = Some k" "no_parallel G" "l \<in> G" "dpid1 l \<noteq> dpid2 l"
  shows "k \<notin> G \<and> flip_link k \<notin> G"
proof -
  note k = other_way_Some [OF assms(1)]
  have "k \<notin> G" using assms(2,3) k unfolding no_parallel_def by blast
  moreover have "flip_link k \<notin> G"
  proof
    assume "flip_link k \<in> G"
    moreover have "(dpid1 (flip_link k), dpid2 (flip_link k)) = (dpid2 l, dpid1 l)" using k by simp
    ultimately have "flip_link k = flip_link l" using assms(2,3) unfolding no_parallel_def by blast
    then have "k = l" by (metis flip_flip)
    with k show False by blast
  qed
  ultimately show ?thesis by blast
qed

lemma backed_link_gone:
  assumes b: "backed_without dead d" and G: "no_parallel G" "l \<in> G" "dead \<subseteq> G" and L: "links = map fst (dc_adjacency d)"
  shows "backed_without (insert l dead) (d\<lparr>dc_rest := after_link False links l (dc_rest d)\<rparr>)"
  unfolding backed_without_def
proof (intro allI impI)
  fix x y p
  let ?adj = "lm_adjacency (dc_rest d)"
  let ?d = "d\<lparr>dc_rest := after_link False links l (dc_rest d)\<rparr>"
  have e: "lm_adjacency (after_link False links l (dc_rest d)) = link_gone links l ?adj" by (simp add: after_link_def)
  assume xy: "x \<noteq> y" and p: "lm_adjacency (dc_rest ?d) x y = Some p"
  let ?K = "fst ` set (dc_adjacency d) - insert l dead"
  have p': "link_gone links l ?adj x y = Some p" using p by (simp add: e)
  obtain a pa c pc where l: "l = Link a pa c pc" by (cases l)
  have "\<exists>q. link_gone links l ?adj y x = Some q \<and> {Link x p y q, Link y q x p} \<subseteq> ?K"
  proof (cases "(x, y) = (a, c) \<or> (x, y) = (c, a)")
    case True
    have ac: "a \<noteq> c" using True xy by auto
    obtain k where o: "other_way links l = Some k" using p' True ac by (cases "other_way links l") (auto simp: link_gone_eq l)
    obtain q w where k: "k = Link a q c w" using other_way_Some [OF o] by (cases k) (auto simp: l)
    have "k \<notin> G \<and> flip_link k \<notin> G" using ac by (intro other_way_stays [OF o G(1,2)]) (simp add: l)
    with other_way_Some [OF o] G(2,3) L have "{k, flip_link k} \<subseteq> ?K" by auto
    then have "{Link a q c w, Link c w a q} \<subseteq> ?K" by (simp only: k flip_link_def Link.sel)
    moreover have "link_gone links l ?adj a c = Some q" "link_gone links l ?adj c a = Some w"
      using ac by (simp_all add: link_gone_eq o k) (simp_all add: l)
    ultimately show ?thesis using True p' by (elim disjE) simp_all
  next
    case False
    have n: "link_gone links l ?adj x y = ?adj x y" "link_gone links l ?adj y x = ?adj y x"
      unfolding link_gone_eq l Link.sel by (rule if_skip_both; use False in blast)+
    have "?adj x y = Some p" by (rule trans [OF n(1) [symmetric] p'])
    from b [unfolded backed_without_def, rule_format, OF xy this]
    obtain q where q: "?adj y x = Some q" "{Link x p y q, Link y q x p} \<subseteq> fst ` set (dc_adjacency d) - dead" by blast
    have "Link x p y q \<noteq> l" "Link y q x p \<noteq> l" using False l by auto
    with q(2) have "{Link x p y q, Link y q x p} \<subseteq> ?K" by blast
    with q(1) n(2) show ?thesis by simp
  qed
  then show "\<exists>q. lm_adjacency (dc_rest ?d) y x = Some q \<and> {Link x p y q, Link y q x p} \<subseteq> fst ` set (dc_adjacency ?d) - insert l dead"
    by (simp add: e)
qed

lemma backed_link_up:
  assumes b: "backed_without {} d" and s: "\<And>a b. lm_adjacency (dc_rest d) a b = None \<longleftrightarrow> lm_adjacency (dc_rest d) b a = None"
    and L: "links = map fst (dc_adjacency d)" "l \<in> set links"
  shows "backed_without {} (d\<lparr>dc_rest := after_link True links l (dc_rest d)\<rparr>)"
  unfolding backed_without_def
proof (intro allI impI)
  fix x y p
  let ?adj = "lm_adjacency (dc_rest d)"
  let ?d = "d\<lparr>dc_rest := after_link True links l (dc_rest d)\<rparr>"
  have e: "lm_adjacency (after_link True links l (dc_rest d)) = link_up links l ?adj" by (simp add: after_link_def)
  assume xy: "x \<noteq> y" and p: "lm_adjacency (dc_rest ?d) x y = Some p"
  let ?K = "fst ` set (dc_adjacency d)"
  have p': "link_up links l ?adj x y = Some p" using p by (simp add: e)
  obtain a pa c pc where l: "l = Link a pa c pc" by (cases l)
  have "\<exists>q. link_up links l ?adj y x = Some q \<and> {Link x p y q, Link y q x p} \<subseteq> ?K"
  proof (cases "(?adj a c = None \<and> flip_link l \<in> set links) \<and> ((x, y) = (a, c) \<or> (x, y) = (c, a))")
    case True
    then have ac: "a \<noteq> c" using xy by auto
    have "{l, flip_link l} \<subseteq> ?K" using True L by auto
    then have "{Link a pa c pc, Link c pc a pa} \<subseteq> ?K" by (simp only: l flip_link_def Link.sel)
    moreover have "link_up links l ?adj a c = Some pa" "link_up links l ?adj c a = Some pc"
      using ac True by (simp_all add: link_up_eq l)
    moreover have "(x, y) = (a, c) \<or> (x, y) = (c, a)" using True by blast
    ultimately show ?thesis using p' by (elim disjE) simp_all
  next
    case False
    have n: "link_up links l ?adj x y = ?adj x y" "link_up links l ?adj y x = ?adj y x"
      unfolding link_up_eq l Link.sel by (rule if_skip; use False l in blast)+
    have "?adj x y = Some p" by (rule trans [OF n(1) [symmetric] p'])
    from b [unfolded backed_without_def, rule_format, OF xy this]
    obtain q where q: "?adj y x = Some q" "{Link x p y q, Link y q x p} \<subseteq> ?K - {}" by blast
    then have "{Link x p y q, Link y q x p} \<subseteq> ?K" by simp
    with q(1) n(2) show ?thesis by simp
  qed
  then show "\<exists>q. lm_adjacency (dc_rest ?d) y x = Some q \<and> {Link x p y q, Link y q x p} \<subseteq> fst ` set (dc_adjacency ?d) - {}"
    by (simp add: e)
qed

text \<open>A link event, whether the listener knows the switches or not.\<close>

lemma raise_link_state:
  "raise_link l2m_links add l c = (Inr (), l2m_links add l (c\<lparr>ct_app := (ct_app c)\<lparr>dc_events := dc_events (ct_app c) @ [(add, l)]\<rparr>\<rparr>))"
  by (simp add: raise_link_def disc_simps)

lemma backed_cong: "dc_rest d' = dc_rest d \<Longrightarrow> dc_adjacency d' = dc_adjacency d \<Longrightarrow> backed_without dead d' = backed_without dead d"
  by (simp add: backed_without_def)

lemma backed_unknown:
  assumes "routes_ok (dc_rest d)" "backed_without dead d"
    "map_of (lm_switches (dc_rest d)) (dpid1 l) = None \<or> map_of (lm_switches (dc_rest d)) (dpid2 l) = None"
  shows "backed_without (insert l dead) d"
  unfolding backed_without_def
proof (intro allI impI)
  fix x y p assume xy: "x \<noteq> y" and p: "lm_adjacency (dc_rest d) x y = Some p"
  from assms(2) [unfolded backed_without_def, rule_format, OF xy p]
  obtain q where q: "lm_adjacency (dc_rest d) y x = Some q" "{Link x p y q, Link y q x p} \<subseteq> fst ` set (dc_adjacency d) - dead" by blast
  have "x \<in> fst ` set (lm_switches (dc_rest d))" "y \<in> fst ` set (lm_switches (dc_rest d))"
    using assms(1) p by (auto simp: routes_ok_def links_between_def)
  then have "Link x p y q \<noteq> l" "Link y q x p \<noteq> l" using assms(3) unfolding map_of_eq_None_iff by (metis Link.sel(1,3))+
  with q show "\<exists>q. lm_adjacency (dc_rest d) y x = Some q \<and> {Link x p y q, Link y q x p} \<subseteq> fst ` set (dc_adjacency d) - insert l dead"
    by blast
qed

lemma l2m_links_unknown:
  "map_of (lm_switches (dc_rest (ct_app c))) (dpid1 l) = None \<or> map_of (lm_switches (dc_rest (ct_app c))) (dpid2 l) = None \<Longrightarrow>
   l2m_links add l c = c"
  by (auto simp: l2m_links_def l2m_LinkEvent_def l2m_simps)

lemma links_gone_event:
  assumes r: "routes_ok (dc_rest (ct_app c))" and x: "xid_ok (ct_xid c)" and b: "backed_without dead (ct_app c)"
    and G: "no_parallel G" "l \<in> G" "dead \<subseteq> G"
  shows "routes_ok (dc_rest (ct_app (l2m_links False l c)))" "xid_ok (ct_xid (l2m_links False l c))"
    "backed_without (insert l dead) (ct_app (l2m_links False l c))"
proof -
  show "routes_ok (dc_rest (ct_app (l2m_links False l c)))" by (rule routes_ok_links [OF r])
  show "xid_ok (ct_xid (l2m_links False l c))" by (rule link_event_done(1) [OF x])
  show "backed_without (insert l dead) (ct_app (l2m_links False l c))"
  proof (cases "map_of (lm_switches (dc_rest (ct_app c))) (dpid1 l) = None \<or> map_of (lm_switches (dc_rest (ct_app c))) (dpid2 l) = None")
    case True
    then show ?thesis using backed_unknown [OF r b True] by (simp only: l2m_links_unknown)
  next
    case False
    then have k: "map_of (lm_switches (dc_rest (ct_app c))) (dpid1 l) \<noteq> None" "map_of (lm_switches (dc_rest (ct_app c))) (dpid2 l) \<noteq> None" by simp_all
    show ?thesis unfolding link_event_done(2) [OF x k] by (rule backed_link_gone [OF b G refl])
  qed
qed

lemma links_gone_events:
  assumes "routes_ok (dc_rest (ct_app c))" "xid_ok (ct_xid c)" "backed_without dead (ct_app c)"
    "no_parallel G" "set ls \<subseteq> G" "dead \<subseteq> G"
  shows "\<exists>c'. for_each (raise_link l2m_links False) ls c = (Inr (), c') \<and> routes_ok (dc_rest (ct_app c')) \<and> xid_ok (ct_xid c') \<and>
    backed_without (dead \<union> set ls) (ct_app c') \<and> dc_adjacency (ct_app c') = dc_adjacency (ct_app c)"
  using assms
proof (induction ls arbitrary: c dead)
  case (Cons l ls)
  let ?c = "c\<lparr>ct_app := (ct_app c)\<lparr>dc_events := dc_events (ct_app c) @ [(False, l)]\<rparr>\<rparr>"
  have p: "routes_ok (dc_rest (ct_app ?c))" "xid_ok (ct_xid ?c)" "backed_without dead (ct_app ?c)"
    using Cons.prems(1-3) backed_cong [of "ct_app ?c" "ct_app c" dead] by simp_all
  have l: "l \<in> G" using Cons.prems(5) by simp
  note e = links_gone_event [OF p Cons.prems(4) l Cons.prems(6)]
  have a: "dc_adjacency (ct_app (l2m_links False l ?c)) = dc_adjacency (ct_app c)" by (simp add: l2m.same_links)
  have "insert l dead \<subseteq> G" "set ls \<subseteq> G" using Cons.prems(5,6) by auto
  from Cons.IH [OF e Cons.prems(4) this(2,1)] a show ?case by (simp add: sbind_def raise_link_state)
qed (simp add: ret_def)

lemma link_up_connects: "flip_link l \<in> set links \<Longrightarrow> link_up links l adj (dpid1 l) (dpid2 l) \<noteq> None"
proof -
  have i: "(if K then if A then Some u else if B then Some v else w else z) \<noteq> None" if "B" "\<not> K \<Longrightarrow> z \<noteq> None" for K A B u v w and z :: "'a option"
    using that by auto
  show "flip_link l \<in> set links \<Longrightarrow> link_up links l adj (dpid1 l) (dpid2 l) \<noteq> None"
    unfolding link_up_eq by (rule i) (rule refl, simp only: simp_thms not_False_eq_True)
qed

lemma new_link_connects:
  assumes "xid_ok (ct_xid c)" "map_of (dc_adjacency (ct_app c)) l = None" "flip_link l \<in> fst ` set (dc_adjacency (ct_app c))"
    and "map_of (lm_switches (dc_rest (ct_app c))) (dpid1 l) \<noteq> None" "map_of (lm_switches (dc_rest (ct_app c))) (dpid2 l) \<noteq> None"
  shows "lm_adjacency (dc_rest (ct_app (snd (link_seen l2m_links l c)))) (dpid1 l) (dpid2 l) \<noteq> None"
proof -
  let ?d = "(ct_app c)\<lparr>dc_adjacency := AList.update l (ct_now c) (dc_adjacency (ct_app c))\<rparr>"
  let ?c = "c\<lparr>ct_app := ?d\<lparr>dc_events := dc_events ?d @ [(True, l)]\<rparr>\<rparr>"
  have s: "snd (link_seen l2m_links l c) = l2m_links True l ?c"
    using assms(2) by (simp add: link_seen_def disc_simps raise_link_state)
  have e: "ct_app (l2m_links True l ?c) = (ct_app ?c)\<lparr>dc_rest := after_link True (map fst (dc_adjacency (ct_app ?c))) l (dc_rest (ct_app ?c))\<rparr>"
    by (rule link_event_done(2)) (use assms in simp_all)
  have "flip_link l \<in> set (map fst (dc_adjacency (ct_app ?c)))" using assms(3) by (simp add: dom_update)
  from link_up_connects [OF this, of "lm_adjacency (dc_rest (ct_app ?c))"] show ?thesis
    unfolding s e by (simp only: after_link_def if_True discovery.select_convs discovery.update_convs l2_multi.select_convs l2_multi.update_convs) simp
qed

text \<open>
  Every link \<^verbatim>\<open>l2_multi\<close> uses between two switches is a link of discovery in both directions, with these ports: this is
  kept when discovery sees a link, old or new, and when it gives up any number of links no two of which are parallel, such
  as all links of a switch that went down, although discovery raises the events before it forgets the links. The other way
  round (\<open>new_link_connects\<close>), a new link between known switches connects them when discovery knows the opposite direction.
\<close>

theorem paths_follow_discovery:
  assumes "l2m_good c"
  shows "l2m_good (snd (link_seen l2m_links l c)) \<and> (no_parallel (set ls) \<longrightarrow> l2m_good (snd (delete_links l2m_links ls c)))"
proof (intro conjI impI)
  have g: "routes_ok (dc_rest (ct_app c))" "xid_ok (ct_xid c)" "backed_without {} (ct_app c)"
    using assms by (simp_all add: l2m_good_def)
  show "l2m_good (snd (link_seen l2m_links l c))"
  proof -
    let ?d = "(ct_app c)\<lparr>dc_adjacency := AList.update l (ct_now c) (dc_adjacency (ct_app c))\<rparr>"
    have keys: "fst ` set (dc_adjacency ?d) = insert l (fst ` set (dc_adjacency (ct_app c)))"
      by (simp add: dom_update [symmetric] flip: dom_map_of_conv_image_fst) (simp add: update_conv')
    have b: "backed_without {} ?d" using g(3) unfolding backed_without_def keys by fastforce
    have x: "routes_ok (dc_rest ?d)" using g(1) by simp
    show ?thesis
    proof (cases "map_of (dc_adjacency (ct_app c)) l = None")
      case False
      then show ?thesis using g b by (auto simp: link_seen_def disc_simps l2m_good_def)
    next
      case True
      let ?c = "c\<lparr>ct_app := ?d\<lparr>dc_events := dc_events ?d @ [(True, l)]\<rparr>\<rparr>"
      have "snd (link_seen l2m_links l c) = l2m_links True l ?c"
        using True by (simp add: link_seen_def disc_simps raise_link_state)
      moreover have "l2m_good (l2m_links True l ?c)"
      proof (cases "map_of (lm_switches (dc_rest (ct_app ?c))) (dpid1 l) = None \<or> map_of (lm_switches (dc_rest (ct_app ?c))) (dpid2 l) = None")
        case True
        have "l2m_good ?c" using g x b backed_cong [of "ct_app ?c" ?d "{}"] by (simp add: l2m_good_def)
        then show ?thesis by (simp only: l2m_links_unknown [OF True])
      next
        case False
        then have k: "map_of (lm_switches (dc_rest (ct_app ?c))) (dpid1 l) \<noteq> None" "map_of (lm_switches (dc_rest (ct_app ?c))) (dpid2 l) \<noteq> None" by simp_all
        have xc: "xid_ok (ct_xid ?c)" using g(2) by simp
        have "backed_without {} (ct_app (l2m_links True l ?c))"
          unfolding link_event_done(2) [OF xc k]
        proof (rule backed_link_up [OF _ _ refl])
          show "backed_without {} (ct_app ?c)" using b backed_cong [of "ct_app ?c" ?d "{}"] by simp
          show "\<And>a b. (lm_adjacency (dc_rest (ct_app ?c)) a b = None) = (lm_adjacency (dc_rest (ct_app ?c)) b a = None)"
            using g(1) by (simp add: routes_ok_def)
          show "l \<in> set (map fst (dc_adjacency (ct_app ?c)))" using keys by simp
        qed
        moreover have "routes_ok (dc_rest (ct_app (l2m_links True l ?c)))" by (rule routes_ok_links) (use g(1) in simp)
        ultimately show ?thesis using link_event_done(1) [OF xc] by (simp only: l2m_good_def simp_thms)
      qed
      ultimately show ?thesis by simp
    qed
  qed
  show "l2m_good (snd (delete_links l2m_links ls c))" if n: "no_parallel (set ls)"
  proof -
    from links_gone_events [OF g n subset_refl empty_subsetI]
    obtain c' where c': "for_each (raise_link l2m_links False) ls c = (Inr (), c')" "routes_ok (dc_rest (ct_app c'))" "xid_ok (ct_xid c')"
      "backed_without (set ls) (ct_app c')" "dc_adjacency (ct_app c') = dc_adjacency (ct_app c)" by auto
    let ?d = "(ct_app c')\<lparr>dc_adjacency := fold AList.delete ls (dc_adjacency (ct_app c'))\<rparr>"
    have "fst ` set (dc_adjacency ?d) = fst ` set (dc_adjacency (ct_app c')) - set ls" by (auto simp: fold_delete)
    then have "backed_without {} ?d" using c'(4) unfolding backed_without_def by simp
    then show ?thesis using c' by (simp add: delete_links_def disc_simps l2m_good_def)
  qed
qed

section \<open>Waiting for the barriers\<close>

lemma keeps_dpid: "keeps (\<lambda>c. \<forall>k. cx_dpid (ct_conns c k) = f k) (resend sw p)"
proof -
  have "keeps (\<lambda>c. \<forall>k. cx_dpid (ct_conns c k) = f k) (con_send cid m)" for cid m
    by (auto simp: keeps_def con_send_def pack_msg_def send_bytes_def ctl_simps deferred_send_def sock_send_def disconnect_def
        nexus_disconnect_def Let_def split: sum.split prod.split sock_result.split)
  then show ?thesis unfolding resend_def by (intro keeps_intro)
qed

lemma resend_frame:
  "dc_rest (ct_app (snd (resend sw p c))) = dc_rest (ct_app c)" "cx_dpid (ct_conns (snd (resend sw p c)) k) = cx_dpid (ct_conns c k)"
proof -
  have "keeps (\<lambda>c. dc_rest (ct_app c) = a) (resend sw p)" for a
    unfolding resend_def by (intro keeps_intro)
  then show "dc_rest (ct_app (snd (resend sw p c))) = dc_rest (ct_app c)" using keepsD by fastforce
  show "cx_dpid (ct_conns (snd (resend sw p c)) k) = cx_dpid (ct_conns c k)"
    using keepsD [OF keeps_dpid [of "\<lambda>k. cx_dpid (ct_conns c k)"]] by simp
qed

text \<open>The key of a barrier reply, and its handling; errors are logged.\<close>

definition reply_key :: "'a controller \<Rightarrow> nat \<times> int \<Rightarrow> int option \<times> int" where
  "reply_key c = (\<lambda>(cid, xid). (cx_dpid (ct_conns c cid), xid))"

definition barrier_in :: "nat \<times> int \<Rightarrow> l2_multi discovery controller \<Rightarrow> l2_multi discovery controller" where
  "barrier_in = (\<lambda>(cid, xid) c. snd (l2m_BarrierIn cid xid c))"

text \<open>Of the keys \<open>X\<close> of a path, \<open>Y\<close> are still waited for.\<close>

definition awaits :: "nat \<Rightarrow> (int option \<times> int) set \<Rightarrow> (int option \<times> int) set \<Rightarrow> l2_multi \<Rightarrow> bool" where
  "awaits i X Y s \<longleftrightarrow> i < length (lm_objects s) \<and> Y = set (wp_xids (lm_objects s ! i)) \<and> Y \<subseteq> X \<and>
     (\<forall>k\<in>X. map_of (lm_waiting s) k = (if k \<in> Y then Some i else None))"

lemma barrier_unknown:
  assumes "map_of (lm_waiting (dc_rest (ct_app c))) (reply_key c b) = None"
  shows "barrier_in b c = c"
proof -
  have "AList.delete (reply_key c b) (lm_waiting (dc_rest (ct_app c))) = lm_waiting (dc_rest (ct_app c))"
    using assms by (simp add: map_of_eq_None_iff delete_id)
  with assms show ?thesis
    by (cases b) (simp add: barrier_in_def reply_key_def l2m_BarrierIn_def l2m_simps)
qed

lemma barriers_unknown:
  assumes "\<forall>b\<in>set bs. map_of (lm_waiting (dc_rest (ct_app c))) (reply_key c b) = None"
  shows "fold barrier_in bs c = c"
  using assms by (induction bs) (simp_all add: barrier_unknown)

definition answered :: "nat \<Rightarrow> int option \<times> int \<Rightarrow> l2_multi \<Rightarrow> l2_multi" where
  "answered i k s = s\<lparr>lm_waiting := AList.delete k (lm_waiting s),
     lm_objects := (lm_objects s)[i := (lm_objects s ! i)\<lparr>wp_xids := removeAll k (wp_xids (lm_objects s ! i))\<rparr>]\<rparr>"

lemma awaits_answered: "awaits i X Y s \<Longrightarrow> k \<in> Y \<Longrightarrow> awaits i X (Y - {k}) (answered i k s)"
  by (auto simp: awaits_def answered_def delete_conv')

lemma barrier_known:
  assumes "awaits i X Y (dc_rest (ct_app c))" "reply_key c b = k" "k \<in> Y"
    and c1: "c1 = c\<lparr>ct_app := (ct_app c)\<lparr>dc_rest := answered i k (dc_rest (ct_app c))\<rparr>\<rparr>"
    and wp: "wp = lm_objects (dc_rest (ct_app c)) ! i"
  shows "barrier_in b c =
    (if Y = {k} then
       (let r = resend (wp_first_switch wp) (wp_packet wp) c1 in
        if isl (fst r) then snd r
        else (snd r)\<lparr>ct_app := (ct_app (snd r))\<lparr>dc_rest := (dc_rest (ct_app (snd r)))\<lparr>lm_installed :=
          lm_installed (dc_rest (ct_app (snd r))) @ [wp_path wp]\<rparr>\<rparr>\<rparr>)
     else c1)"
proof -
  obtain cid xid where b: "b = (cid, xid)" by (cases b)
  have i: "i < length (lm_objects (dc_rest (ct_app c)))" and Y: "Y = set (wp_xids wp)"
    and w: "map_of (lm_waiting (dc_rest (ct_app c))) (cx_dpid (ct_conns c cid), xid) = Some i"
    using assms(1-3) by (auto simp: awaits_def wp b reply_key_def)
  have "removeAll k (wp_xids wp) = [] \<longleftrightarrow> Y = {k}" using assms(3) Y by (auto simp: removeAll_filter_not_eq filter_empty_conv)
  moreover have "k = (cx_dpid (ct_conns c cid), xid)" using assms(2) by (simp add: b reply_key_def)
  ultimately show ?thesis using i w
    by (cases "resend (wp_first_switch wp) (wp_packet wp) c1")
       (auto simp: barrier_in_def b l2m_BarrierIn_def l2m_simps wp_notify_def c1 answered_def wp Let_def split: sum.split)
qed

lemma barriers_counted:
  assumes "awaits i X Y (dc_rest (ct_app c))" "Y \<noteq> {}" "reply_key c ` set bs \<subseteq> X" "wp = lm_objects (dc_rest (ct_app c)) ! i"
  shows "\<exists>a. lm_installed (dc_rest (ct_app (fold barrier_in bs c))) = lm_installed (dc_rest (ct_app c)) @
      (if Y \<subseteq> reply_key c ` set bs \<and> \<not> isl (fst (resend (wp_first_switch wp) (wp_packet wp) (c\<lparr>ct_app := a\<rparr>))) then [wp_path wp] else []) \<and>
    ct_trace (fold barrier_in bs c) =
      (if Y \<subseteq> reply_key c ` set bs then ct_trace (snd (resend (wp_first_switch wp) (wp_packet wp) (c\<lparr>ct_app := a\<rparr>))) else ct_trace c)"
  using assms
proof (induction bs arbitrary: c Y wp)
  case (Cons b bs)
  let ?k = "reply_key c b"
  show ?case
  proof (cases "?k \<in> Y")
    case False
    then have "map_of (lm_waiting (dc_rest (ct_app c))) ?k = None" using Cons.prems(1,3) by (auto simp: awaits_def)
    note same = barrier_unknown [OF this]
    have "reply_key c ` set bs \<subseteq> X" using Cons.prems(3) by simp
    moreover have "Y \<subseteq> reply_key c ` set (b # bs) \<longleftrightarrow> Y \<subseteq> reply_key c ` set bs" using False by auto
    ultimately show ?thesis using Cons.IH [OF Cons.prems(1,2) _ Cons.prems(4)] by (simp add: same)
  next
    case True
    define c1 where "c1 = c\<lparr>ct_app := (ct_app c)\<lparr>dc_rest := answered i ?k (dc_rest (ct_app c))\<rparr>\<rparr>"
    note e = barrier_known [OF Cons.prems(1) refl True c1_def Cons.prems(4)]
    have a1: "awaits i X (Y - {?k}) (dc_rest (ct_app c1))"
      using awaits_answered [OF Cons.prems(1) True] by (simp add: c1_def)
    have key: "reply_key c1 = reply_key c" by (simp add: c1_def reply_key_def)
    show ?thesis
    proof (cases "Y = {?k}")
      case True
      define c2 where "c2 = barrier_in b c"
      have k2: "reply_key c2 = reply_key c" using True
        by (auto simp: c2_def e reply_key_def Let_def resend_frame c1_def fun_eq_iff)
      have w2: "lm_waiting (dc_rest (ct_app c2)) = lm_waiting (dc_rest (ct_app c1))" using True
        by (simp add: c2_def e Let_def resend_frame c1_def)
      have "fold barrier_in bs c2 = c2"
        using a1 Cons.prems(3) True by (intro barriers_unknown) (auto simp: k2 w2 awaits_def)
      then have f: "fold barrier_in (b # bs) c = c2" by (simp add: c2_def)
      have "Y \<subseteq> reply_key c ` set (b # bs)" using True by simp
      then show ?thesis unfolding f
        by (intro exI [of _ "ct_app c1"]) (use True in \<open>simp add: c2_def e Let_def c1_def resend_frame answered_def\<close>)
    next
      case False
      have Y': "Y - {?k} \<noteq> {}" using False True by blast
      have w: "lm_objects (dc_rest (ct_app c1)) ! i = wp\<lparr>wp_xids := removeAll ?k (wp_xids wp)\<rparr>"
        using Cons.prems(1,4) by (simp add: c1_def answered_def awaits_def)
      have s: "Y - {?k} \<subseteq> reply_key c ` set bs \<longleftrightarrow> Y \<subseteq> reply_key c ` set (b # bs)" by auto
      have "reply_key c1 ` set bs \<subseteq> X" using Cons.prems(3) key by simp
      note ih = Cons.IH [OF a1 Y' this refl]
      have f: "fold barrier_in (b # bs) c = fold barrier_in bs c1" using False by (simp add: e)
      have c: "c1\<lparr>ct_app := a\<rparr> = c\<lparr>ct_app := a\<rparr>" "lm_installed (dc_rest (ct_app c1)) = lm_installed (dc_rest (ct_app c))"
        "ct_trace c1 = ct_trace c" for a
        by (simp_all add: c1_def answered_def)
      have p: "wp_first_switch (wp\<lparr>wp_xids := x\<rparr>) = wp_first_switch wp" "wp_packet (wp\<lparr>wp_xids := x\<rparr>) = wp_packet wp"
        "wp_path (wp\<lparr>wp_xids := x\<rparr>) = wp_path wp" for x
        by simp_all
      show ?thesis using ih unfolding f w key s c p .
    qed
  qed
qed simp

text \<open>Resending does not depend on the state of the applications.\<close>

lemma resend_app: "resend sw p (c\<lparr>ct_app := a\<rparr>) = (fst (resend sw p c), (snd (resend sw p c))\<lparr>ct_app := a\<rparr>)"
proof -
  have "send_bytes cid data (c\<lparr>ct_app := a\<rparr>) = (fst (send_bytes cid data c), (snd (send_bytes cid data c))\<lparr>ct_app := a\<rparr>)" for cid data c
    by (auto simp: send_bytes_def ctl_simps deferred_send_def sock_send_def disconnect_def nexus_disconnect_def Let_def
        split: sock_result.split)
  note send = this
  have "con_send cid m (c\<lparr>ct_app := a\<rparr>) = (fst (con_send cid m c), (snd (con_send cid m c))\<lparr>ct_app := a\<rparr>)" for cid m c
  proof -
    have "c\<lparr>ct_app := a, ct_xid := g\<rparr> = c\<lparr>ct_xid := g\<rparr>\<lparr>ct_app := a\<rparr>" for g by simp
    then have "send_bytes cid bs (c\<lparr>ct_app := a, ct_xid := g\<rparr>) =
        (fst (send_bytes cid bs (c\<lparr>ct_xid := g\<rparr>)), (snd (send_bytes cid bs (c\<lparr>ct_xid := g\<rparr>)))\<lparr>ct_app := a\<rparr>)" for bs g
      using send [of cid bs "c\<lparr>ct_xid := g\<rparr>"] by (simp only:)
    then show ?thesis by (auto simp: con_send_def ctl_simps pack_msg_def split: sum.split prod.split)
  qed
  then show ?thesis
    by (auto simp: resend_def ctl_simps lift_def getConnection_def split: option.split sum.split prod.split)
qed

text \<open>
  A path counts as installed, and the packet that waited for it is sent again, when the barriers of all its switches have been
  answered, once, in whatever order the answers come and however often an answer is repeated, and not before.
\<close>

theorem barriers_release:
  assumes "i < length (lm_objects (dc_rest (ct_app c)))" "wp = lm_objects (dc_rest (ct_app c)) ! i" "wp_xids wp \<noteq> []"
    "\<forall>k\<in>set (wp_xids wp). map_of (lm_waiting (dc_rest (ct_app c))) k = Some i" "reply_key c ` set bs \<subseteq> set (wp_xids wp)"
  defines "r \<equiv> resend (wp_first_switch wp) (wp_packet wp) c" and "c' \<equiv> fold barrier_in bs c"
  shows "if set (wp_xids wp) \<subseteq> reply_key c ` set bs
    then ct_trace c' = ct_trace (snd r) \<and>
      lm_installed (dc_rest (ct_app c')) = lm_installed (dc_rest (ct_app c)) @ (if isl (fst r) then [] else [wp_path wp])
    else ct_trace c' = ct_trace c \<and> lm_installed (dc_rest (ct_app c')) = lm_installed (dc_rest (ct_app c))"
proof -
  have w: "awaits i (set (wp_xids wp)) (set (wp_xids wp)) (dc_rest (ct_app c))" using assms(1,2,4) by (simp add: awaits_def)
  have "set (wp_xids wp) \<noteq> {}" using assms(3) by simp
  from barriers_counted [OF w this assms(5,2)] show ?thesis 
    by (cases "set (wp_xids wp) \<subseteq> reply_key c ` set bs") (auto simp: resend_app r_def c'_def)
qed

section \<open>Examples\<close>

definition net :: "l2_multi \<Rightarrow> l2_multi discovery controller" where
  "net s = \<lparr>ct_conns = (\<lambda>k. (connection_blank 0)\<lparr>cx_nexus := True, cx_dpid := Some (int k), cx_handlers := Established,
       cx_features := Some ofp_features_reply_init, cx_connect_time := Some 1\<rparr>),
     ct_ID = 3, ct_sockets = [1, 2, 3], ct_connections = [(Some 1, 1), (Some 2, 2), (Some 3, 3)], ct_data = [], ct_sending = False,
     ct_aborted = 0, ct_xid = xid_generator, ct_now = 20 * nsec, ct_miss_send_len = Some 128, ct_clear_flows = True,
     ct_request_description = False, ct_fallback_nexus = True, ct_pipe_buf = 512, ct_sock = (\<lambda>_ _ data. Took (length data)),
     ct_calls = 0, ct_trace = [], ct_app = discovery_init 10 True True False s\<rparr>"

definition run :: "(l2_multi, 'r) disc \<Rightarrow> l2_multi discovery controller \<Rightarrow> l2_multi discovery controller" where
  "run m c = snd (m c)"

text \<open>Three switches come up, and the links of a line are seen.\<close>

definition line :: "l2_multi discovery controller" where
  "line = fold (\<lambda>l. run (link_seen l2m_links l)) [Link 1 2 2 1, Link 2 1 1 2, Link 2 2 3 1, Link 3 1 2 2]
     (fold (\<lambda>k. run (l2m_event no_ext 0 AtNexus (ConnectionUp k None))) [1, 2, 3] (net (l2_multi_init 9)))"

lemma own_steps: "(l2m_step no_ext)\<^sup>*\<^sup>* c (fold (\<lambda>k. run (l2m_event no_ext 0 AtNexus (ConnectionUp k None))) ks c)"
proof (induction ks arbitrary: c)
  case (Cons k ks)
  have "l2m_step no_ext c (run (l2m_event no_ext 0 AtNexus (ConnectionUp k None)) c)" unfolding run_def by (rule l2m_step.own)
  from converse_rtranclp_into_rtranclp [OF this Cons] show ?case by simp
qed simp

lemma seen_steps: "(l2m_step x)\<^sup>*\<^sup>* c (fold (\<lambda>l. run (link_seen l2m_links l)) ls c)"
proof (induction ls arbitrary: c)
  case (Cons l ls)
  have "l2m_step x c (run (link_seen l2m_links l) c)" unfolding run_def by (rule l2m_step.seen)
  from converse_rtranclp_into_rtranclp [OF this Cons] show ?case by simp
qed simp

theorem found_paths_current_witness:
  "fst (find_path 1 3 (Some 7) (Some 8) line) = Inr (Some [(1, Some 7, Some 2), (2, Some 1, Some 2), (3, Some 1, Some 8)]) \<and>
   shortest (lm_adjacency (dc_rest (ct_app line))) 2 1 3"
proof -
  have f: "fst (find_path 1 3 (Some 7) (Some 8) line) = Inr (Some [(1, Some 7, Some 2), (2, Some 1, Some 2), (3, Some 1, Some 8)])"
    by code_simp
  have "(l2m_step no_ext)\<^sup>*\<^sup>* (net (l2_multi_init 9)) line"
    unfolding line_def using rtranclp_trans [OF own_steps seen_steps] .
  moreover have "dc_rest (ct_app (net (l2_multi_init 9))) = l2_multi_init 9" by (simp add: net_def discovery_init_def)
  moreover have "1 \<in> fst ` set (lm_switches (dc_rest (ct_app line)))" "3 \<in> fst ` set (lm_switches (dc_rest (ct_app line)))"
    "length (lm_switches (dc_rest (ct_app line))) \<le> lm_depth (dc_rest (ct_app line))"
    by code_simp+
  ultimately show ?thesis
    using found_paths_current [of no_ext "net (l2_multi_init 9)" line 9 _ 1 3 "Some 7" "Some 8", OF _ _ refl] f
    by (simp add: numeral_2_eq_2)
qed

text \<open>
  Where the paths do not follow the links: when two parallel links between two switches expire together, each looks like the
  other way of the other while the events are raised, and \<^verbatim>\<open>l2_multi\<close> stays connected over a link that is gone.
\<close>

definition parallel :: "Link list" where
  "parallel = [Link 1 1 2 1, Link 2 1 1 1, Link 1 2 2 2, Link 2 2 1 2]"

definition parallel_state :: "l2_multi" where
  "parallel_state = (l2_multi_init 9)\<lparr>lm_switches := [(1, l2m_switch_init), (2, l2m_switch_init)],
     lm_adjacency := adj_put 2 1 (Some 1) (adj_put 1 2 (Some 1) (lm_adjacency (l2_multi_init 9)))\<rparr>"

definition parallel_net :: "l2_multi discovery controller" where
  "parallel_net = net parallel_state\<lparr>ct_app := (ct_app (net parallel_state))\<lparr>dc_adjacency := map (\<lambda>l. (l, 0)) parallel\<rparr>\<rparr>"

lemma links_gone_state:
  assumes "xid_ok (ct_xid c)" "\<forall>l\<in>set ls. map_of (lm_switches (dc_rest (ct_app c))) (dpid1 l) \<noteq> None \<and> map_of (lm_switches (dc_rest (ct_app c))) (dpid2 l) \<noteq> None"
  shows "\<exists>c'. for_each (raise_link l2m_links False) ls c = (Inr (), c') \<and> dc_adjacency (ct_app c') = dc_adjacency (ct_app c) \<and>
    dc_rest (ct_app c') = fold (after_link False (map fst (dc_adjacency (ct_app c)))) ls (dc_rest (ct_app c))"
  using assms
proof (induction ls arbitrary: c)
  case (Cons l ls)
  let ?c = "c\<lparr>ct_app := (ct_app c)\<lparr>dc_events := dc_events (ct_app c) @ [(False, l)]\<rparr>\<rparr>"
  define c1 where "c1 = l2m_links False l ?c"
  have "ct_app c1 = (ct_app ?c)\<lparr>dc_rest := after_link False (map fst (dc_adjacency (ct_app ?c))) l (dc_rest (ct_app ?c))\<rparr>"
    unfolding c1_def by (rule link_event_done(2)) (use Cons.prems in simp_all)
  then have a: "dc_adjacency (ct_app c1) = dc_adjacency (ct_app c)"
    "dc_rest (ct_app c1) = after_link False (map fst (dc_adjacency (ct_app c))) l (dc_rest (ct_app c))"
    by simp_all
  have "xid_ok (ct_xid c1)" unfolding c1_def by (rule link_event_done(1)) (use Cons.prems in simp)
  moreover have "lm_switches (dc_rest (ct_app c1)) = lm_switches (dc_rest (ct_app c))" by (simp add: a(2) after_link_def)
  ultimately obtain c' where "for_each (raise_link l2m_links False) ls c1 = (Inr (), c')" "dc_adjacency (ct_app c') = dc_adjacency (ct_app c1)"
    "dc_rest (ct_app c') = fold (after_link False (map fst (dc_adjacency (ct_app c1)))) ls (dc_rest (ct_app c1))"
    using Cons.IH [of c1] Cons.prems(2) by auto
  moreover have "raise_link l2m_links False l c = (Inr (), c1)" by (simp only: raise_link_state c1_def)
  ultimately show ?case using a by (simp add: sbind_def)
qed (simp add: ret_def)

theorem parallel_links_outdated:
  "l2m_good parallel_net \<and> dc_adjacency (ct_app (snd (delete_links l2m_links parallel parallel_net))) = [] \<and>
   lm_adjacency (dc_rest (ct_app (snd (delete_links l2m_links parallel parallel_net)))) 1 2 \<noteq> None"
proof -
  have p: "dc_rest (ct_app parallel_net) = parallel_state" "dc_adjacency (ct_app parallel_net) = map (\<lambda>l. (l, 0)) parallel"
    "ct_xid parallel_net = xid_generator"
    by (simp_all add: parallel_net_def net_def discovery_init_def)
  have a: "lm_adjacency parallel_state x y = (if (x, y) = (1, 2) \<or> (x, y) = (2, 1) then Some 1 else None)" for x y
    by (auto simp: parallel_state_def adj_put_def l2_multi_init_def)
  have "routes_ok parallel_state"
    by (auto simp: routes_ok_def links_between_def a) (auto simp: parallel_state_def l2_multi_init_def)
  moreover have "backed_without {} (ct_app parallel_net)"
    by (auto simp: backed_without_def p a parallel_def image_iff)
  ultimately have g: "l2m_good parallel_net" using xid_ok_generator by (simp add: l2m_good_def p)
  have "\<forall>l\<in>set parallel. map_of (lm_switches (dc_rest (ct_app parallel_net))) (dpid1 l) \<noteq> None \<and> map_of (lm_switches (dc_rest (ct_app parallel_net))) (dpid2 l) \<noteq> None"
    unfolding p by (simp add: parallel_def parallel_state_def)
  then obtain c' where c: "for_each (raise_link l2m_links False) parallel parallel_net = (Inr (), c')"
    "dc_adjacency (ct_app c') = map (\<lambda>l. (l, 0)) parallel"
    "dc_rest (ct_app c') = fold (after_link False parallel) parallel parallel_state"
    using links_gone_state [of parallel_net parallel] xid_ok_generator by (auto simp: p comp_def)
  have "lm_adjacency (fold (after_link False parallel) parallel parallel_state) 1 2 \<noteq> None"
    "fold AList.delete parallel (map (\<lambda>l. (l, 0 :: int)) parallel) = []"
    by code_simp+
  then show ?thesis using g c by (simp add: delete_links_def disc_simps)
qed

end
