(* ===== verification/Spec2Isabelle.thy ===== *)
theory Spec2Isabelle
  imports OF_Connection Controller_Properties Tree_Flooding_Properties L2_Multi_Properties Dpid_Text
begin

text \<open>
  A verification development of the OpenFlow 1.0 code of POX (\<^verbatim>\<open>src/lab5/pox/pox\<close>, Python 2): the OpenFlow library, the
  packet library, the flow table, the software switch with its connection to a controller, the controller's end of the
  connections, link discovery, the spanning tree and the shortest-path switch.

  \<^bold>\<open>The program and its model.\<close>

  \<^item> \<open>Pox_Prelude\<close>: Python's byte strings as lists of 8-bit words, exceptions as a sum type, slices, the \<^verbatim>\<open>struct\<close> module,
    and the automation for codecs (\<open>codec_simps\<close>: what readers return where packed bytes stand; \<open>codec_dest\<close>: what a
    successful pack says about its parts).
  \<^item> \<open>Addresses\<close>: \<^verbatim>\<open>lib/addresses.py\<close>. Ethernet and IPv4 addresses, netmasks, CIDR text.
  \<^item> \<open>OF_Base\<close>, \<open>OF_Match\<close>, \<open>OF_Structs\<close>, \<open>OF_Actions\<close>, \<open>OF_Messages\<close>, \<open>OF_Stats\<close>, \<open>OF_Codec\<close>:
    \<^verbatim>\<open>openflow/libopenflow_01.py\<close> and the unpacker table of \<^verbatim>\<open>openflow/util.py\<close>. One record per class, one definition per
    method; packing returns the bytes and the object it leaves behind, unpacking the object and the new offset.
  \<^item> \<open>Tcp_Options\<close>, \<open>Packet\<close>, \<open>Checksum\<close>, \<open>Packet_Codec\<close>, \<open>Packet_Roundtrip\<close>: \<^verbatim>\<open>lib/packet\<close>. A frame is an Ethernet
    record with a chain of payloads; parsing, packing, checksums and \<^verbatim>\<open>ofp_match.from_packet\<close>.
  \<^item> \<open>FlowTable\<close>: \<^verbatim>\<open>openflow/flow_table.py\<close>. The table is the list of its entry objects (identity is \<open>te_id\<close>); operations
    return the events they raise.
  \<^item> \<open>Effects\<close>: methods as state transformers that return a result or an exception together with the state; \<open>OF_Constants\<close>:
    the numbers of the protocol.
  \<^item> \<open>Switch\<close>, \<open>Switch_Control\<close>: \<^verbatim>\<open>datapaths/switch.py\<close>. One record for the state; packets live in a store so that a buffered packet and the
    one the actions rewrite are the same object; everything sent is appended to a trace.
  \<^item> \<open>IO_Worker\<close>, \<open>OF_Connection\<close>: \<^verbatim>\<open>lib/ioworker\<close> and \<^verbatim>\<open>OFConnection\<close>: byte buffers and the loop that cuts received bytes
    into messages.
  \<^item> \<open>Port_Collection\<close>, \<open>Controller\<close>: \<^verbatim>\<open>openflow/of_01.py\<close> and the nexus of \<^verbatim>\<open>openflow/__init__.py\<close>. Connection objects
    live in a store; sending, the deferred sender, the handlers of the handshake and of an established connection,
    reading, and the rounds of the listening task.
  \<^item> \<open>LLDP\<close>, \<open>Discovery\<close>: \<^verbatim>\<open>lib/packet/lldp.py\<close> and \<^verbatim>\<open>openflow/discovery.py\<close>. The sender of discovery packets and the links
    they lead to are the application state of the controller; \<open>Number_Text\<close> has what is known of numbers as text.
  \<^item> \<open>Spanning_Tree\<close>, \<open>Tree_Flooding\<close>: \<^verbatim>\<open>openflow/spanning_tree.py\<close>. The tree of the links, and the flooding bits of the
    ports that follow it; its state is that of the listeners of discovery.
  \<^item> \<open>Shortest_Paths\<close>, \<open>L2_Multi\<close>: \<^verbatim>\<open>forwarding/l2_multi.py\<close>. The all-pairs paths over the links, the switches that install
    flows along them, and the paths that wait for barriers; its state, too, is that of the listeners of discovery.
  \<^item> \<open>Dpid_Text\<close>: the text form of datapath ids in \<^verbatim>\<open>lib/util.py\<close>, and that it is read back.

  The parts interact as in the code: the connection reads bytes, unpacks them with the library's table and calls the
  switch; the switch calls the flow table and the packet library and packs its answers with the library. At the other
  end the controller's connection reads with the same table, calls its handlers, and tells the applications by events. Discovery
  listens to the nexus and sends through the connections; the spanning tree and the shortest-path switch listen to the links of
  discovery.

  \<^bold>\<open>What is shown.\<close>

  \<^item> Codecs: every message class, action list, match, frame and TCP option list is read back from what was packed, at any
    place of any buffer; checksums agree with their definition in network order and verify at the receiver.
  \<^item> Flow table: the interface of a priority table is the locale \<open>priority_table\<close>, interpreted for binary insertion;
    insertion is a stable sort, lookup returns the highest match, removal and expiry take out exactly what they name.
  \<^item> Switch: \<open>Switch_Steps\<close> and \<open>Switch_Invariants\<close> show that every method is a sequence of elementary changes, so that an
    invariant is proved by rule induction over these (locale \<open>switch_invariant\<close>, interpreted for the table, the buffers
    and the ports); \<open>Switch_Properties\<close> has the refinement to the flow table, where packets may go, what flow and port
    modifications do, and how long a buffered packet lives.
  \<^item> Connection: \<open>Message_Stream\<close> states what a reader of framed messages promises (locales \<open>frame_reader\<close> and
    \<open>message_stream\<close>); both ends are instances, so a stream is delivered in order however it is cut. The loops return
    unless a message claims to have no bytes, and then they do not (\<open>Message_Progress\<close>: which unpackers move on).
  \<^item> Controller: \<open>Controller_Stream\<close> (reading; locale \<open>application\<close>: listeners that leave the receive buffers alone),
    \<open>Controller_Sending\<close> (locale \<open>listeners\<close>: listeners that only send; an invariant of every step, by rule induction,
    gives that what was sent leaves in order), \<open>Sent_Messages\<close> (which bytes an action hands to which connection),
    \<open>Controller_Properties\<close> (handshake, statistics, the nexus, what an exceptional condition loses). The ports
    of a connection are a map (locale \<open>port_store\<close>).
  \<^item> Discovery: \<open>Discovery_Properties\<close> has the way of a discovery packet from one switch to the next, the agreement of links
    and events (locale \<open>link_listener\<close>: listeners that leave the links alone, interpreted for the spanning tree), expiry,
    and the round of the sender.
  \<^item> Spanning tree: the search ends, the tree has no cycle and connects what two-way links connect;
    \<open>Tree_Flooding_Properties\<close>: an update sends exactly the port modifications that make the ports flood where the tree
    says, a second update is silent, and links that go down are missed.
  \<^item> Shortest paths: \<open>Shortest_Paths_Properties\<close> has the closure by intermediate switches (distances are least, paths are walked
    back); \<open>L2_Multi_Properties\<close> that the paths found are shortest over the present links whatever came before (locale
    \<open>route_property\<close>: what all handlers keep; \<open>rest_kept\<close>: discovery leaves the state of its listeners alone), how these links
    follow those of discovery and where they do not (parallel links), and that a waiting packet is released when all barriers are
    answered.

  \<^bold>\<open>Parameters and bounds.\<close> \<^verbatim>\<open>inet_aton\<close> is a function argument. Packet classes that are not modelled (IPv6, EAP,
  MPLS, DHCP, DNS, RIP) are the record \<open>pk_ext\<close> of functions that parse and pack them; the theorems hold for all of them.
  The argument \<open>depth\<close> of the switch is how many nested table lookups the interpreter's recursion limit allows; the
  theorems hold for every depth. What applications do on an event is the argument \<open>app\<close>, what a socket answers to a \<^verbatim>\<open>send\<close> a
  field of the state, and the order in which Python visits the elements of a set the argument \<open>iter\<close>; each theorem names
  what it needs of them. The read loops are partial functions (no result: it does not return). Times are integers
  in nanoseconds, floating point numbers of discovery are rationals, assertions are on. The packet classes use the checksum of a
  little-endian host; it is shown to be the same on a big-endian one. The recursion limit for paths is \<open>lm_depth\<close>; a limit of
  the number of switches is enough.

  \<^bold>\<open>Not modelled.\<close> Logging and the text methods (\<^verbatim>\<open>show\<close>, \<^verbatim>\<open>__str__\<close>), which change nothing; SSL and
  capture sockets, the other forwarding applications, the event and thread libraries, the
  extensions of Nicira, the launcher, web and messenger modules, and the older copy of POX under \<^verbatim>\<open>src/lab4\<close>.
\<close>

end
